(* ===== verification/Prelude.thy ===== *)
theory Prelude
  imports Main "HOL-Library.Word" "HOL-Library.Multiset"
begin

text \<open>
  What every component of the development shares: the outcome of running a piece of C code
  (\<open>run\<close>), the C library functions the sources call on strings, the conversions between
  C integer types, and the generic lemmas on lists and words that the component proofs use.

  A C string is a \<open>string\<close> (its bytes up to, and without, the terminating NUL). A pointer
  that may be NULL is an \<open>option\<close>. The integer types are those of the 32-bit targets the
  build supports (i386, PowerPC, Blackfin): \<open>int\<close>, \<open>size_t\<close> and pointers have 32 bits.
\<close>

named_theorems crun \<comment> \<open>simplification rules for outcomes of C code\<close>
named_theorems cstring \<comment> \<open>definitions of the C string functions, for evaluation\<close>


section \<open>Outcomes of C code\<close>

text \<open>
  \<open>Ret x\<close>: the code returns \<open>x\<close>. \<open>Fault\<close>: it dereferences NULL, accesses an array
  outside its bounds or divides by zero. \<open>Hang\<close>: a loop used up the fuel it was given, or a
  blocking call never returns.
\<close>

datatype 'a run = Ret 'a | Fault | Hang

primrec run_bind :: "'a run \<Rightarrow> ('a \<Rightarrow> 'b run) \<Rightarrow> 'b run" where
  "run_bind (Ret x) f = f x"
| "run_bind Fault f = Fault"
| "run_bind Hang f = Hang"

primrec run_map :: "('a \<Rightarrow> 'b) \<Rightarrow> 'a run \<Rightarrow> 'b run" where
  "run_map f (Ret x) = Ret (f x)"
| "run_map f Fault = Fault"
| "run_map f Hang = Hang"

definition returns :: "'a run \<Rightarrow> bool" where
  "returns r \<longleftrightarrow> (\<exists>x. r = Ret x)"

definition faults :: "'a run \<Rightarrow> bool" where
  "faults r \<longleftrightarrow> (case r of Fault \<Rightarrow> True | _ \<Rightarrow> False)"

lemma faults_iff: "faults r \<longleftrightarrow> r = Fault"
  by (cases r) (simp_all add: faults_def)

lemma returns_simps [simp, crun]:
  "returns (Ret x)" "\<not> returns Fault" "\<not> returns Hang"
  by (simp_all add: returns_def)

lemma run_bind_Ret_iff [crun]:
  "run_bind r f = Ret y \<longleftrightarrow> (\<exists>x. r = Ret x \<and> f x = Ret y)"
  by (cases r) auto

lemma run_map_Ret_iff [crun]:
  "run_map f r = Ret y \<longleftrightarrow> (\<exists>x. r = Ret x \<and> y = f x)"
  by (cases r) auto

lemma returns_run_map [simp]: "returns (run_map f r) = returns r"
  by (cases r) auto

lemma run_bind_assoc: "run_bind (run_bind r f) g = run_bind r (\<lambda>x. run_bind (f x) g)"
  by (cases r) auto

lemma run_bind_cong:
  "r = r' \<Longrightarrow> (\<And>x. r' = Ret x \<Longrightarrow> f x = g x) \<Longrightarrow> run_bind r f = run_bind r' g"
  by (cases r') auto

text \<open>Reading and writing an array element: outside the bounds is a \<open>Fault\<close>.\<close>

definition arr_get :: "'a list \<Rightarrow> int \<Rightarrow> 'a run" where
  "arr_get xs i = (if 0 \<le> i \<and> i < int (length xs) then Ret (xs ! nat i) else Fault)"

definition arr_set :: "'a list \<Rightarrow> int \<Rightarrow> 'a \<Rightarrow> 'a list run" where
  "arr_set xs i x =
     (if 0 \<le> i \<and> i < int (length xs) then Ret (xs[nat i := x]) else Fault)"

lemma arr_get_in [simp]: "i < length xs \<Longrightarrow> arr_get xs (int i) = Ret (xs ! i)"
  by (simp add: arr_get_def)

lemma arr_set_in [simp]: "i < length xs \<Longrightarrow> arr_set xs (int i) x = Ret (xs[i := x])"
  by (simp add: arr_set_def)


section \<open>C integers\<close>

type_synonym size_t = "32 word"

text \<open>The value of an \<open>int\<close> after an unsigned 32-bit quantity is assigned to it.\<close>

definition int_of_size :: "size_t \<Rightarrow> int" where
  "int_of_size w = sint w"

text \<open>An \<open>int\<close> converted to \<open>size_t\<close> (modulo \<open>2 ^ 32\<close>).\<close>

definition size_of_int :: "int \<Rightarrow> size_t" where
  "size_of_int i = word_of_int i"

lemma int_of_size_minus_one [simp]: "int_of_size (- 1) = - 1"
  by (simp add: int_of_size_def)

lemma unat_lt_sint: "n < 2 ^ 31 \<Longrightarrow> sint (word_of_nat n :: 32 word) = int n"
  by (simp add: signed_of_nat signed_take_bit_int_eq_self)

lemma int_of_size_of_nat [simp]:
  "n < 2 ^ 31 \<Longrightarrow> int_of_size (size_of_int (int n)) = int n"
  by (simp add: int_of_size_def size_of_int_def unat_lt_sint)

lemma size_of_int_eq_minus_one [simp]:
  assumes "n < 2 ^ 31"
  shows "size_of_int (int n) \<noteq> - 1"
proof
  assume "size_of_int (int n) = - 1"
  then have "int_of_size (size_of_int (int n)) = - 1" by simp
  with assms show False by simp
qed


section \<open>C strings\<close>

text \<open>\<open>tolower\<close> of the C locale, and the comparison \<open>strcasecmp\<close> makes with it.\<close>

definition tolower :: "char \<Rightarrow> char" where
  "tolower c = (let n = (of_char c :: nat) in if 65 \<le> n \<and> n \<le> 90 then char_of (n + 32) else c)"

fun strcasecmp :: "string \<Rightarrow> string \<Rightarrow> int" where
  "strcasecmp [] [] = 0"
| "strcasecmp [] (b # bs) = - int (of_char (tolower b))"
| "strcasecmp (a # as) [] = int (of_char (tolower a))"
| "strcasecmp (a # as) (b # bs) =
     (if tolower a = tolower b then strcasecmp as bs
      else int (of_char (tolower a)) - int (of_char (tolower b)))"

text \<open>\<open>strncmp w s (strlen w)\<close> is zero.\<close>

definition strncmp_prefix :: "string \<Rightarrow> string \<Rightarrow> bool" where
  "strncmp_prefix w s \<longleftrightarrow> take (length w) s = w"

text \<open>\<open>strstr s p\<close> is not NULL.\<close>

fun strstr :: "string \<Rightarrow> string \<Rightarrow> bool" where
  "strstr [] p = (p = [])"
| "strstr (c # s) p = (strncmp_prefix p (c # s) \<or> strstr s p)"

text \<open>The string up to the first occurrence of a character, where the code stores a NUL.\<close>

definition cut_at :: "char \<Rightarrow> string \<Rightarrow> string" where
  "cut_at c s = takeWhile (\<lambda>x. x \<noteq> c) s"

lemmas [cstring] = tolower_def strncmp_prefix_def cut_at_def Let_def

lemma strcasecmp_refl [simp]: "strcasecmp s s = 0"
  by (induction s) auto

text \<open>The character classes, and \<open>sprintf "%d"\<close>.\<close>

definition isspace :: "char \<Rightarrow> bool" where
  "isspace c \<longleftrightarrow> c = CHR '' '' \<or> (9 \<le> (of_char c :: nat) \<and> (of_char c :: nat) \<le> 13)"

definition isdigit :: "char \<Rightarrow> bool" where
  "isdigit c \<longleftrightarrow> 48 \<le> (of_char c :: nat) \<and> (of_char c :: nat) \<le> 57"

fun digits :: "nat \<Rightarrow> string" where
  "digits n = (if n < 10 then [char_of (48 + n)]
               else digits (n div 10) @ [char_of (48 + n mod 10)])"

declare digits.simps [simp del]

definition itoa :: "int \<Rightarrow> string" where
  "itoa i = (if i < 0 then CHR ''-'' # digits (nat (- i)) else digits (nat i))"

text \<open>No NUL byte inside: what makes a list of characters the value of a C string.\<close>

definition cstr :: "string \<Rightarrow> bool" where
  "cstr s \<longleftrightarrow> CHR 0x00 \<notin> set s"

lemma cstr_simps [simp]: "cstr []" "cstr (c # s) \<longleftrightarrow> c \<noteq> CHR 0x00 \<and> cstr s"
  by (auto simp: cstr_def)

lemma of_char_zero: "(of_char c :: nat) = 0 \<longleftrightarrow> c = CHR 0x00"
proof -
  have "(of_char c :: nat) = of_char (CHR 0x00) \<longleftrightarrow> c = CHR 0x00"
    by (rule of_char_eq_iff)
  then show ?thesis by simp
qed

lemma tolower_code_pos [simp]: "0 < (of_char (tolower c) :: nat) \<longleftrightarrow> c \<noteq> CHR 0x00"
proof -
  have "(of_char (char_of (of_char c + 32 :: nat)) :: nat) = (of_char c + 32) mod 256"
    by simp
  then show ?thesis
    using of_char_zero [of c] by (auto simp: tolower_def Let_def)
qed

lemma strcasecmp_zero_iff:
  assumes "cstr a" "cstr b"
  shows "strcasecmp a b = 0 \<longleftrightarrow> map tolower a = map tolower b"
  using assms
  by (induction a b rule: strcasecmp.induct) auto


section \<open>Commands of the Asterisk console\<close>

text \<open>
  A handler is called to register its command (its name and usage), to complete a word, or to
  run. A run prints a list of texts.
\<close>

datatype cli_cmd = CLI_INIT | CLI_GENERATE | CLI_HANDLER

datatype cli_result =
    Cli_registered string string
  | Cli_null
  | Cli_completion string
  | Cli_success "string list"
  | Cli_showusage

end
