(* ===== verification/Hash.thy ===== *)
theory Hash
  imports Prelude
begin

unbundle bit_operations_syntax

text \<open>
  The hash tables of \<open>chan_gsm/compat/asterisk/hash.h\<close> (a set of macros) and the hash and
  equality functions of \<open>chan_gsm/compat/hash.c\<close>.

  A table is an array of slots; colliding keys are placed by linear probing and linked from
  the slot they collided with through \<open>_next\<close>. \<open>_next\<close> is a \<open>size_t\<close> that holds
  \<open>(size_t) -1\<close> for "none": it is kept as a 32-bit word here, because the macros compare it
  both as \<open>size_t\<close> (in the insertion) and, after an assignment, as \<open>int\<close> (in the lookup).
\<close>


section \<open>Hash functions and key equality (hash.c)\<close>

definition modolo_hash :: "int \<Rightarrow> nat \<Rightarrow> int" where
  "modolo_hash key sz =
     int_of_size (word_of_nat (unat (size_of_int key) mod sz))"

text \<open>
  \<open>char\<close> is signed (i386). \<open>hash\<close> is an \<open>int\<close> whose arithmetic wraps; \<open>>>\<close> on it is the
  arithmetic shift.
\<close>

definition char_to_int32 :: "char \<Rightarrow> 32 word" where
  "char_to_int32 c = signed (of_char c :: 8 word)"

fun joaat_loop :: "32 word \<Rightarrow> string \<Rightarrow> 32 word" where
  "joaat_loop hash [] = hash"
| "joaat_loop hash (c # cs) =
     (let hash = hash + char_to_int32 c;
          hash = hash + push_bit 10 hash;
          hash = hash XOR signed_drop_bit 6 hash
      in joaat_loop hash cs)"

definition joaat_hash :: "string \<Rightarrow> nat \<Rightarrow> int" where
  "joaat_hash key sz =
     (let hash = joaat_loop 0 key;
          hash = hash + push_bit 3 hash;
          hash = hash XOR signed_drop_bit 11 hash;
          hash = hash + push_bit 15 hash;
          hash = int_of_size (word_of_nat (unat hash mod sz))
      in if hash < 0 then hash * - 1 else hash)"

definition eq_str :: "string \<Rightarrow> string \<Rightarrow> bool" where
  "eq_str a b \<longleftrightarrow> strcasecmp a b = 0"

definition eq_int :: "int \<Rightarrow> int \<Rightarrow> bool" where
  "eq_int a b \<longleftrightarrow> a = b"


section \<open>The table (hash.h)\<close>

record ('k, 'v) entry =
  e_used :: bool
  e_next :: size_t
  e_key :: 'k
  e_val :: 'v

record ('k, 'v) hash =
  h_data :: "('k, 'v) entry list"
  h_size :: nat
  h_length :: nat
  h_hash_f :: "'k \<Rightarrow> nat \<Rightarrow> int"
  h_eq_f :: "'k \<Rightarrow> 'k \<Rightarrow> bool"

text \<open>
  \<open>__AST_HASH_INIT_NOLOCK\<close>: \<open>calloc\<close> clears the slots (their keys and values are the
  zero of their type, \<open>k0\<close> and \<open>v0\<close>), and the loop over \<open>_length\<close> then writes -1 into
  every \<open>_next\<close> and leaves \<open>_length\<close> at 0.
\<close>

definition hash_init :: "'k \<Rightarrow> 'v \<Rightarrow> nat \<Rightarrow> ('k \<Rightarrow> nat \<Rightarrow> int) \<Rightarrow> ('k \<Rightarrow> 'k \<Rightarrow> bool) \<Rightarrow> ('k, 'v) hash" where
  "hash_init k0 v0 sz hash_f eq_f =
     \<lparr>h_data = replicate sz \<lparr>e_used = False, e_next = - 1, e_key = k0, e_val = v0\<rparr>,
      h_size = sz, h_length = 0, h_hash_f = hash_f, h_eq_f = eq_f\<rparr>"

definition AST_HASH_INIT_INT :: "'v \<Rightarrow> nat \<Rightarrow> (int, 'v) hash" where
  "AST_HASH_INIT_INT v0 sz = hash_init 0 v0 sz modolo_hash eq_int"

definition AST_HASH_INIT_STR :: "'v \<Rightarrow> nat \<Rightarrow> (string, 'v) hash" where
  "AST_HASH_INIT_STR v0 sz = hash_init [] v0 sz joaat_hash eq_str"

text \<open>Destroying a table frees its slots: every later access is outside the (empty) array.\<close>

definition AST_HASH_DESTROY_NOLOCK :: "('k, 'v, 'z) hash_scheme \<Rightarrow> ('k, 'v, 'z) hash_scheme" where
  "AST_HASH_DESTROY_NOLOCK h = h\<lparr>h_data := []\<rparr>"

text \<open>
  \<open>__TRY_INSERT\<close>: \<open>None\<close> when the slot is taken (the macro falls through), otherwise the
  table after the stores that precede the \<open>break\<close>.
\<close>

definition TRY_INSERT ::
  "('k, 'v, 'z) hash_scheme \<Rightarrow> 'k \<Rightarrow> 'v \<Rightarrow> int \<Rightarrow> int \<Rightarrow> ('k, 'v, 'z) hash_scheme option run" where
  "TRY_INSERT h key val pos prev =
     run_bind (arr_get (h_data h) pos) (\<lambda>e.
       if \<not> e_used e then
         run_bind (arr_set (h_data h) pos (e\<lparr>e_key := key, e_val := val, e_used := True\<rparr>)) (\<lambda>d.
         run_bind (if prev > - 1 then
                     run_bind (arr_get d prev) (\<lambda>p.
                       arr_set d prev (p\<lparr>e_next := size_of_int pos\<rparr>))
                   else Ret d) (\<lambda>d.
         Ret (Some (h\<lparr>h_data := d, h_length := h_length h + 1\<rparr>))))
       else Ret None)"

text \<open>The inner \<open>do ... while (__pos != __end)\<close> of the insertion.\<close>

fun insert_probe ::
  "nat \<Rightarrow> ('k, 'v, 'z) hash_scheme \<Rightarrow> 'k \<Rightarrow> 'v \<Rightarrow> int \<Rightarrow> int \<Rightarrow> int \<Rightarrow> (('k, 'v, 'z) hash_scheme \<times> int) run" where
  "insert_probe 0 h key val pos prev end = Hang"
| "insert_probe (Suc fuel) h key val pos prev end =
     run_bind (TRY_INSERT h key val pos prev) (\<lambda>r.
       case r of
         Some h' \<Rightarrow> Ret (h', 0)
       | None \<Rightarrow>
           (let pos = (pos + 1) mod int (h_size h) in
            if pos \<noteq> end then insert_probe fuel h key val pos prev end
            else Ret (h, - 1)))"

text \<open>
  The outer \<open>do ... while (1)\<close>. The test \<open>_next > -1\<close> compares a \<open>size_t\<close> with an
  \<open>int\<close>, so that -1 is converted to \<open>size_t\<close> first.
\<close>

fun insert_loop ::
  "nat \<Rightarrow> ('k, 'v, 'z) hash_scheme \<Rightarrow> 'k \<Rightarrow> 'v \<Rightarrow> int \<Rightarrow> int \<Rightarrow> (('k, 'v, 'z) hash_scheme \<times> int) run" where
  "insert_loop 0 h key val pos prev = Hang"
| "insert_loop (Suc fuel) h key val pos prev =
     run_bind (TRY_INSERT h key val pos prev) (\<lambda>r.
       case r of
         Some h' \<Rightarrow> Ret (h', 0)
       | None \<Rightarrow>
           run_bind (arr_get (h_data h) pos) (\<lambda>e.
             if h_eq_f h (e_key e) key then Ret (h, - 1)
             else if e_next e > size_of_int (- 1) then
               insert_loop fuel h key val (int_of_size (e_next e)) pos
             else
               insert_probe (h_size h) h key val ((pos + 1) mod int (h_size h)) pos pos))"

definition AST_HASH_INSERT_NOLOCK ::
  "('k, 'v, 'z) hash_scheme \<Rightarrow> 'k \<Rightarrow> 'v \<Rightarrow> (('k, 'v, 'z) hash_scheme \<times> int) run" where
  "AST_HASH_INSERT_NOLOCK h key val =
     insert_loop (h_size h) h key val (h_hash_f h key (h_size h)) (- 1)"

text \<open>
  The lookup returns \<open>_re\<close> and, when it is 0, the value stored into \<open>val\<close>. Its loop visits
  slots only; \<open>fuel\<close> counts the visits.
\<close>

fun lookup_loop :: "nat \<Rightarrow> ('k, 'v, 'z) hash_scheme \<Rightarrow> 'k \<Rightarrow> int \<Rightarrow> 'v option run" where
  "lookup_loop 0 h key pos = Hang"
| "lookup_loop (Suc fuel) h key pos =
     run_bind (arr_get (h_data h) pos) (\<lambda>e.
       if e_used e \<and> h_eq_f h (e_key e) key then Ret (Some (e_val e))
       else
         (let pos = int_of_size (e_next e) in
          if pos > - 1 then lookup_loop fuel h key pos else Ret None))"

definition AST_HASH_LOOKUP_NOLOCK :: "('k, 'v, 'z) hash_scheme \<Rightarrow> 'k \<Rightarrow> 'v option run" where
  "AST_HASH_LOOKUP_NOLOCK h key =
     lookup_loop (h_size h) h key (h_hash_f h key (h_size h))"

fun remove_loop :: "nat \<Rightarrow> ('k, 'v, 'z) hash_scheme \<Rightarrow> 'k \<Rightarrow> int \<Rightarrow> int \<Rightarrow> ('k, 'v, 'z) hash_scheme run" where
  "remove_loop 0 h key pos prev = Hang"
| "remove_loop (Suc fuel) h key pos prev =
     run_bind (arr_get (h_data h) pos) (\<lambda>e.
       if e_used e \<and> h_eq_f h (e_key e) key then
         run_bind (arr_set (h_data h) pos (e\<lparr>e_used := False\<rparr>)) (\<lambda>d.
         run_bind (if prev > - 1 then
                     run_bind (arr_get d prev) (\<lambda>p.
                       arr_set d prev (p\<lparr>e_next := e_next e\<rparr>))
                   else Ret d) (\<lambda>d.
         Ret (h\<lparr>h_data := d, h_length := h_length h - 1\<rparr>)))
       else
         (let prev = pos; pos = int_of_size (e_next e) in
          if pos > - 1 then remove_loop fuel h key pos prev else Ret h))"

definition AST_HASH_REMOVE_NOLOCK :: "('k, 'v, 'z) hash_scheme \<Rightarrow> 'k \<Rightarrow> ('k, 'v, 'z) hash_scheme run" where
  "AST_HASH_REMOVE_NOLOCK h key =
     remove_loop (h_size h) h key (h_hash_f h key (h_size h)) (- 1)"

text \<open>
  \<open>AST_HASH_TRAVERSE_NOLOCK\<close> runs its body for the used slots in index order; the model is
  the list of the key-value pairs it assigns to \<open>key\<close> and \<open>val\<close>.
\<close>

definition AST_HASH_TRAVERSE_NOLOCK :: "('k, 'v, 'z) hash_scheme \<Rightarrow> ('k \<times> 'v) list" where
  "AST_HASH_TRAVERSE_NOLOCK h =
     map (\<lambda>e. (e_key e, e_val e)) (filter e_used (take (h_size h) (h_data h)))"

definition AST_HASH_LENGTH_NOLOCK :: "('k, 'v, 'z) hash_scheme \<Rightarrow> nat" where
  "AST_HASH_LENGTH_NOLOCK h = h_length h"

definition AST_HASH_SIZE_NOLOCK :: "('k, 'v, 'z) hash_scheme \<Rightarrow> nat" where
  "AST_HASH_SIZE_NOLOCK h = h_size h"


subsection \<open>Tables with a lock\<close>

text \<open>
  \<open>__AST_HASH\<close> adds a mutex to the table and the macros without \<open>_NOLOCK\<close> take it around
  the operation. Asterisk's mutexes are recursive; the field counts how often the running
  thread holds it.
\<close>

record ('k, 'v) lhash = "('k, 'v) hash" +
  h_lock :: nat

definition AST_HASH_LOCK :: "('k, 'v) lhash \<Rightarrow> ('k, 'v) lhash" where
  "AST_HASH_LOCK h = h\<lparr>h_lock := h_lock h + 1\<rparr>"

definition AST_HASH_UNLOCK :: "('k, 'v) lhash \<Rightarrow> ('k, 'v) lhash" where
  "AST_HASH_UNLOCK h = h\<lparr>h_lock := h_lock h - 1\<rparr>"

definition lhash_init_str :: "'v \<Rightarrow> nat \<Rightarrow> (string, 'v) lhash" where
  "lhash_init_str v0 sz = hash.extend (AST_HASH_INIT_STR v0 sz) \<lparr>h_lock = 0\<rparr>"

definition AST_HASH_INSERT ::
  "('k, 'v) lhash \<Rightarrow> 'k \<Rightarrow> 'v \<Rightarrow> (('k, 'v) lhash \<times> int) run" where
  "AST_HASH_INSERT h key val =
     run_map (\<lambda>(h', re). (AST_HASH_UNLOCK h', re)) (AST_HASH_INSERT_NOLOCK (AST_HASH_LOCK h) key val)"

definition AST_HASH_LOOKUP :: "('k, 'v) lhash \<Rightarrow> 'k \<Rightarrow> (('k, 'v) lhash \<times> 'v option) run" where
  "AST_HASH_LOOKUP h key =
     (let h = AST_HASH_LOCK h in
      run_map (\<lambda>r. (AST_HASH_UNLOCK h, r)) (AST_HASH_LOOKUP_NOLOCK h key))"

definition AST_HASH_REMOVE :: "('k, 'v) lhash \<Rightarrow> 'k \<Rightarrow> ('k, 'v) lhash run" where
  "AST_HASH_REMOVE h key =
     run_map AST_HASH_UNLOCK (AST_HASH_REMOVE_NOLOCK (AST_HASH_LOCK h) key)"

definition AST_HASH_LENGTH :: "('k, 'v) lhash \<Rightarrow> ('k, 'v) lhash \<times> nat" where
  "AST_HASH_LENGTH h =
     (let h = AST_HASH_LOCK h; l = AST_HASH_LENGTH_NOLOCK h in (AST_HASH_UNLOCK h, l))"

definition AST_HASH_SIZE :: "('k, 'v) lhash \<Rightarrow> ('k, 'v) lhash \<times> nat" where
  "AST_HASH_SIZE h =
     (let h = AST_HASH_LOCK h; s = AST_HASH_SIZE_NOLOCK h in (AST_HASH_UNLOCK h, s))"


section \<open>Well-formed tables\<close>

declare lookup_loop.simps [simp del] remove_loop.simps [simp del]
  insert_loop.simps [simp del] insert_probe.simps [simp del]

lemma unat_size_of_int: "n < 2 ^ 32 \<Longrightarrow> unat (size_of_int (int n)) = n"
  by (simp add: size_of_int_def unat_of_nat)

lemma size_mod_int:
  assumes "0 < sz" "sz \<le> 2 ^ 31"
  shows "int_of_size (word_of_nat (unat (w :: 32 word) mod sz)) = int (unat w mod sz)"
proof -
  have "unat w mod sz < sz" using assms(1) by simp
  with assms(2) have "unat w mod sz < 2 ^ 31" by linarith
  then show ?thesis by (simp add: int_of_size_def unat_lt_sint)
qed

lemma modolo_hash_range:
  assumes "0 < sz" "sz \<le> 2 ^ 31"
  shows "0 \<le> modolo_hash k sz \<and> modolo_hash k sz < int sz"
  using assms(1) by (simp add: modolo_hash_def size_mod_int [OF assms])

lemma joaat_hash_range:
  assumes "0 < sz" "sz \<le> 2 ^ 31"
  shows "0 \<le> joaat_hash k sz \<and> joaat_hash k sz < int sz"
proof -
  obtain w :: "32 word" where "joaat_hash k sz =
      (let hash = int_of_size (word_of_nat (unat w mod sz)) in if hash < 0 then hash * - 1 else hash)"
    unfolding joaat_hash_def Let_def by blast
  then show ?thesis using assms(1) by (simp add: size_mod_int [OF assms] Let_def)
qed

definition slot :: "('k, 'v, 'z) hash_scheme \<Rightarrow> nat \<Rightarrow> ('k, 'v) entry" where
  "slot h i = h_data h ! i"

definition hash_wf :: "('k, 'v, 'z) hash_scheme \<Rightarrow> bool" where
  "hash_wf h \<longleftrightarrow>
     0 < h_size h \<and> h_size h \<le> 2 ^ 31 \<and> length (h_data h) = h_size h \<and>
     h_length h = length (filter e_used (h_data h)) \<and>
     (\<forall>i < h_size h. e_next (slot h i) = - 1 \<or>
        (\<exists>j < h_size h. e_next (slot h i) = size_of_int (int j)))"

text \<open>The stores of a successful insertion, and of a removal.\<close>

definition put :: "('k, 'v, 'z) hash_scheme \<Rightarrow> 'k \<Rightarrow> 'v \<Rightarrow> nat \<Rightarrow> nat option \<Rightarrow> ('k, 'v, 'z) hash_scheme" where
  "put h key val p prev =
     (let d = (h_data h)[p := (slot h p)\<lparr>e_key := key, e_val := val, e_used := True\<rparr>] in
      h\<lparr>h_data := (case prev of None \<Rightarrow> d
                   | Some q \<Rightarrow> d[q := (d ! q)\<lparr>e_next := size_of_int (int p)\<rparr>]),
        h_length := h_length h + 1\<rparr>)"

lemma put_simps [simp]:
  "h_size (put h key val p prev) = h_size h"
  "h_hash_f (put h key val p prev) = h_hash_f h"
  "h_eq_f (put h key val p prev) = h_eq_f h"
  "h_length (put h key val p prev) = h_length h + 1"
  "length (h_data (put h key val p prev)) = length (h_data h)"
  by (simp_all add: put_def Let_def split: option.split)

lemma slot_put:
  assumes "p < length (h_data h)" "i < length (h_data h)"
    "pred_option (\<lambda>q. q < length (h_data h)) prev"
  shows "slot (put h key val p prev) i =
    (let e = (if i = p then (slot h p)\<lparr>e_key := key, e_val := val, e_used := True\<rparr> else slot h i)
     in if prev = Some i then e\<lparr>e_next := size_of_int (int p)\<rparr> else e)"
  using assms by (cases prev) (auto simp: put_def slot_def Let_def nth_list_update)

lemma TRY_INSERT_free:
  assumes "p < length (h_data h)" "\<not> e_used (slot h p)"
  shows "TRY_INSERT h key val (int p) (- 1) = Ret (Some (put h key val p None))"
    and "q < length (h_data h) \<Longrightarrow>
      TRY_INSERT h key val (int p) (int q) = Ret (Some (put h key val p (Some q)))"
  using assms by (simp_all add: TRY_INSERT_def put_def slot_def Let_def)

lemma TRY_INSERT_used:
  assumes "p < length (h_data h)" "e_used (slot h p)"
  shows "TRY_INSERT h key val (int p) prev = Ret None"
  using assms by (simp add: TRY_INSERT_def slot_def)

text \<open>The slots the probing visits after slot \<open>i\<close>, in order; the last one is \<open>i\<close> itself.\<close>

definition probe_seq :: "nat \<Rightarrow> nat \<Rightarrow> nat list" where
  "probe_seq i n = map (\<lambda>m. Suc (i + m) mod n) [0..<n]"

definition free_after :: "('k, 'v, 'z) hash_scheme \<Rightarrow> nat \<Rightarrow> nat option" where
  "free_after h i = find (\<lambda>p. \<not> e_used (slot h p)) (probe_seq i (h_size h))"

lemma probe_seq_bounds: "0 < n \<Longrightarrow> p \<in> set (probe_seq i n) \<Longrightarrow> p < n"
  by (auto simp: probe_seq_def)

lemma set_probe_seq:
  assumes "0 < n"
  shows "set (probe_seq i n) = {..<n}"
proof -
  have "p \<in> set (probe_seq i n)" if "p < n" for p
  proof -
    define m where "m = (p + n - Suc i mod n) mod n"
    have le: "Suc i mod n \<le> p + n"
      using mod_less_divisor [OF assms, of "Suc i"] by linarith
    have "Suc (i + m) mod n = (Suc i mod n + (p + n - Suc i mod n)) mod n"
      unfolding m_def by (metis add_Suc mod_add_left_eq mod_add_right_eq)
    also have "\<dots> = p" using that le by simp
    finally show ?thesis
      using assms by (auto simp: probe_seq_def m_def intro!: image_eqI [where x = m])
  qed
  with assms show ?thesis by (auto simp: probe_seq_def)
qed

lemma probe_next: "(int (Suc (e + j) mod n) + 1) mod int n = int (Suc (e + Suc j) mod n)"
proof -
  have "(int (Suc (e + j) mod n) + 1) mod int n = int (Suc (Suc (e + j) mod n) mod n)"
    by (metis of_nat_Suc of_nat_mod add.commute)
  then show ?thesis by (simp add: mod_Suc_eq)
qed

lemma probe_wrap:
  assumes "e < n" "Suc j < n \<or> n = 1 \<and> j = 0"
  shows "Suc (e + Suc j) mod n = e \<longleftrightarrow> \<not> Suc (Suc j) < n"
proof (cases "n = 1")
  case True
  with assms show ?thesis by simp
next
  case False
  with assms have "Suc j < n" by simp
  then show ?thesis
    using assms(1) by (cases "Suc (e + Suc j) < n") (auto simp: mod_if)
qed

lemma insert_probe_gen:
  assumes "hash_wf h" "e < h_size h" "e_used (slot h e)" "q < h_size h"
    and "Suc j < h_size h \<or> h_size h = 1 \<and> j = 0" "h_size h \<le> fuel + j"
  shows "insert_probe fuel h key val (int (Suc (e + j) mod h_size h)) (int q) (int e) =
    (case find (\<lambda>p. \<not> e_used (slot h p)) (map (\<lambda>m. Suc (e + m) mod h_size h) [j..<h_size h]) of
       None \<Rightarrow> Ret (h, - 1)
     | Some p \<Rightarrow> Ret (put h key val p (Some q), 0))"
  using assms(5,6)
proof (induction fuel arbitrary: j)
  case 0
  then show ?case by auto
next
  case (Suc fuel)
  let ?n = "h_size h" let ?p = "Suc (e + j) mod h_size h"
  have n: "0 < ?n" "length (h_data h) = ?n" using assms(1) by (auto simp: hash_wf_def)
  have p: "?p < length (h_data h)" using n by simp
  have lst: "[j..<?n] = j # [Suc j..<?n]" using Suc.prems by (auto simp: upt_conv_Cons)
  note wrap = probe_wrap [OF assms(2) Suc.prems(1)]
  show ?case
  proof (cases "e_used (slot h ?p)")
    case False
    with n p assms(4) show ?thesis by (simp add: insert_probe.simps TRY_INSERT_free lst)
  next
    case used: True
    then have eq: "insert_probe (Suc fuel) h key val (int ?p) (int q) (int e) =
        (if Suc (e + Suc j) mod ?n \<noteq> e
         then insert_probe fuel h key val (int (Suc (e + Suc j) mod ?n)) (int q) (int e)
         else Ret (h, - 1))"
      using p by (simp add: insert_probe.simps TRY_INSERT_used Let_def probe_next del: of_nat_mod of_nat_Suc add_Suc_right)
    show ?thesis
    proof (cases "Suc (Suc j) < ?n")
      case True
      with wrap Suc.IH [of "Suc j"] Suc.prems used show ?thesis
        unfolding eq by (simp add: lst)
    next
      case False
      have "[Suc j..<?n] = (if ?n = 1 then [] else [Suc j])"
        using False Suc.prems by (auto simp: upt_rec)
      with wrap False used assms(3) show ?thesis
        unfolding eq by (auto simp: lst)
    qed
  qed
qed


section \<open>The insertion, branch by branch\<close>

lemma next_never_greater: "\<not> e_next e > size_of_int (- 1)"
  by (simp add: size_of_int_def not_less word_n1_ge)

definition insert_result ::
  "('k, 'v, 'z) hash_scheme \<Rightarrow> 'k \<Rightarrow> 'v \<Rightarrow> nat \<Rightarrow> ('k, 'v, 'z) hash_scheme \<times> int" where
  "insert_result h key val i =
    (if \<not> e_used (slot h i) then (put h key val i None, 0)
     else if h_eq_f h (e_key (slot h i)) key then (h, - 1)
     else case free_after h i of
            None \<Rightarrow> (h, - 1)
          | Some p \<Rightarrow> (put h key val p (Some i), 0))"

lemma insert_cases:
  assumes "hash_wf h" "i < h_size h" "h_hash_f h key (h_size h) = int i"
  shows "AST_HASH_INSERT_NOLOCK h key val = Ret (insert_result h key val i)"
proof -
  have len: "length (h_data h) = h_size h" using assms(1) by (simp add: hash_wf_def)
  obtain m where m: "h_size h = Suc m" using assms(2) by (cases "h_size h") auto
  have get: "arr_get (h_data h) (int i) = Ret (slot h i)"
    using assms(2) len by (simp add: slot_def)
  have first: "(int i + 1) mod int (h_size h) = int (Suc (i + 0) mod h_size h)"
    by (metis add.right_neutral of_nat_Suc of_nat_mod add.commute)
  show ?thesis
  proof (cases "e_used (slot h i)")
    case False
    then show ?thesis
      using assms len m by (simp add: AST_HASH_INSERT_NOLOCK_def insert_loop.simps TRY_INSERT_free insert_result_def)
  next
    case True
    then have "AST_HASH_INSERT_NOLOCK h key val =
        (if h_eq_f h (e_key (slot h i)) key then Ret (h, - 1)
         else insert_probe (h_size h) h key val ((int i + 1) mod int (h_size h)) (int i) (int i))"
      using assms len m get
      by (simp add: AST_HASH_INSERT_NOLOCK_def insert_loop.simps TRY_INSERT_used next_never_greater)
    moreover have "insert_probe (h_size h) h key val ((int i + 1) mod int (h_size h)) (int i) (int i) =
        (case free_after h i of None \<Rightarrow> Ret (h, - 1) | Some p \<Rightarrow> Ret (put h key val p (Some i), 0))"
      unfolding first free_after_def probe_seq_def
      by (rule insert_probe_gen [OF assms(1,2) True assms(2)]) (use m in auto)
    ultimately show ?thesis using True by (simp add: insert_result_def split: option.split)
  qed
qed

lemma length_filter_update:
  assumes "i < length xs"
  shows "length (filter P (xs[i := x])) + (if P (xs ! i) then 1 else 0) =
         length (filter P xs) + (if P x then 1 else 0)"
  using assms
proof (induction xs arbitrary: i)
  case (Cons y ys)
  then show ?case using Cons.IH [of "i - 1"] by (cases i) auto
qed simp

lemma length_filter_update_same:
  assumes "i < length xs" "P x = P (xs ! i)"
  shows "length (filter P (xs[i := x])) = length (filter P xs)"
  using length_filter_update [OF assms(1), of P x] assms(2) by simp

lemma wf_put:
  assumes "hash_wf h" "p < h_size h" "\<not> e_used (slot h p)"
    and "pred_option (\<lambda>q. q < h_size h) prev"
  shows "hash_wf (put h key val p prev)"
proof -
  let ?h = "put h key val p prev"
  let ?e = "(slot h p)\<lparr>e_key := key, e_val := val, e_used := True\<rparr>"
  have wf: "0 < h_size h" "h_size h \<le> 2 ^ 31" "length (h_data h) = h_size h"
    "h_length h = length (filter e_used (h_data h))"
    using assms(1) by (auto simp: hash_wf_def)
  have "length (filter e_used ((h_data h)[p := ?e])) = Suc (h_length h)"
    using length_filter_update [of p "h_data h" e_used ?e] assms(2,3) wf by (simp add: slot_def)
  then have cnt: "length (filter e_used (h_data ?h)) = h_length ?h"
    using assms(2,4) wf(3)
    by (cases prev) (auto simp: put_def Let_def length_filter_update_same nth_list_update)
  have "e_next (slot ?h i) = - 1 \<or> (\<exists>j < h_size h. e_next (slot ?h i) = size_of_int (int j))"
    if "i < h_size h" for i
    using that assms wf by (auto simp: slot_put Let_def hash_wf_def)
  with cnt wf show ?thesis by (simp add: hash_wf_def)
qed

lemma free_after_Some:
  assumes "free_after h i = Some p" "0 < h_size h"
  shows "p < h_size h" "\<not> e_used (slot h p)"
  using assms by (auto simp: free_after_def find_Some_iff dest!: nth_mem intro: probe_seq_bounds)

lemma free_after_None:
  assumes "0 < h_size h"
  shows "free_after h i = None \<longleftrightarrow> (\<forall>p < h_size h. e_used (slot h p))"
  using set_probe_seq [OF assms, of i] by (auto simp: free_after_def find_None_iff)


section \<open>Lookups\<close>

definition next_slot :: "('k, 'v, 'z) hash_scheme \<Rightarrow> nat \<Rightarrow> nat option" where
  "next_slot h i = (if e_next (slot h i) = - 1 then None else Some (unat (e_next (slot h i))))"

lemma next_slot_bound:
  assumes "hash_wf h" "i < h_size h" "next_slot h i = Some j"
  shows "j < h_size h" "e_next (slot h i) = size_of_int (int j)"
proof -
  obtain m where m: "m < h_size h" "e_next (slot h i) = size_of_int (int m)"
    using assms by (auto simp: hash_wf_def next_slot_def split: if_splits)
  moreover have "h_size h \<le> 2 ^ 31" using assms(1) by (simp add: hash_wf_def)
  ultimately have "unat (e_next (slot h i)) = m"
    by (simp add: unat_size_of_int)
  with m assms(3) show "j < h_size h" "e_next (slot h i) = size_of_int (int j)"
    by (auto simp: next_slot_def split: if_splits)
qed

lemma lookup_step:
  assumes "hash_wf h" "i < h_size h"
  shows "lookup_loop (Suc fuel) h key (int i) =
    (if e_used (slot h i) \<and> h_eq_f h (e_key (slot h i)) key then Ret (Some (e_val (slot h i)))
     else case next_slot h i of None \<Rightarrow> Ret None | Some j \<Rightarrow> lookup_loop fuel h key (int j))"
proof -
  have len: "length (h_data h) = h_size h" "h_size h \<le> 2 ^ 31" using assms(1) by (auto simp: hash_wf_def)
  show ?thesis
  proof (cases "next_slot h i")
    case None
    then have "e_next (slot h i) = - 1" by (simp add: next_slot_def split: if_splits)
    with assms len None show ?thesis by (simp add: lookup_loop.simps slot_def)
  next
    case (Some j)
    with next_slot_bound [OF assms Some] assms len show ?thesis
      by (simp add: lookup_loop.simps slot_def Let_def)
  qed
qed


section \<open>Tables that are only inserted into\<close>

inductive hash_built :: "('k \<Rightarrow> nat \<Rightarrow> int) \<Rightarrow> ('k \<Rightarrow> 'k \<Rightarrow> bool) \<Rightarrow> nat \<Rightarrow> ('k, 'v) hash \<Rightarrow> bool"
  for hf eq sz where
  built_init: "hash_built hf eq sz (hash_init k0 v0 sz hf eq)"
| built_insert: "hash_built hf eq sz h \<Longrightarrow> AST_HASH_INSERT_NOLOCK h key val = Ret (h', re) \<Longrightarrow>
    hash_built hf eq sz h'"

text \<open>
  Every link leads from a slot to one that was filled later: \<open>r\<close> is the number of insertions
  before the slot was filled.
\<close>

definition ranked :: "('k, 'v, 'z) hash_scheme \<Rightarrow> (nat \<Rightarrow> nat) \<Rightarrow> bool" where
  "ranked h r \<longleftrightarrow>
     (\<forall>i < h_size h. e_used (slot h i) \<longrightarrow> r i < h_length h) \<and>
     (\<forall>i < h_size h. \<forall>j. next_slot h i = Some j \<longrightarrow> e_used (slot h i) \<and> e_used (slot h j) \<and> r i < r j)"

lemma hash_init_simps [simp]:
  "h_size (hash_init k0 v0 sz hf eq) = sz"
  "h_hash_f (hash_init k0 v0 sz hf eq) = hf"
  "h_eq_f (hash_init k0 v0 sz hf eq) = eq"
  "h_length (hash_init k0 v0 sz hf eq) = 0"
  "i < sz \<Longrightarrow> slot (hash_init k0 v0 sz hf eq) i = \<lparr>e_used = False, e_next = - 1, e_key = k0, e_val = v0\<rparr>"
  by (simp_all add: hash_init_def slot_def)

lemma wf_init: "0 < sz \<Longrightarrow> sz \<le> 2 ^ 31 \<Longrightarrow> hash_wf (hash_init k0 v0 sz hf eq)"
  by (auto simp: hash_wf_def hash_init_def slot_def)

lemma next_slot_put:
  assumes "hash_wf h" "p < h_size h" "i < h_size h" "pred_option (\<lambda>q. q < h_size h) prev"
  shows "next_slot (put h key val p prev) i = (if prev = Some i then Some p else next_slot h i)"
proof -
  have sz: "length (h_data h) = h_size h" "h_size h \<le> 2 ^ 31"
    using assms(1) by (auto simp: hash_wf_def)
  have p: "unat (size_of_int (int p)) = p" "size_of_int (int p) \<noteq> - 1"
    using assms(2) sz(2) by (simp_all add: unat_size_of_int)
  have "e_next (slot (put h key val p prev) i) =
      (if prev = Some i then size_of_int (int p) else e_next (slot h i))"
    using assms sz(1) by (simp add: slot_put Let_def)
  with p show ?thesis by (auto simp: next_slot_def)
qed

lemma ranked_put:
  assumes "hash_wf h" "ranked h r" "p < h_size h" "\<not> e_used (slot h p)"
    and "pred_option (\<lambda>q. q < h_size h \<and> e_used (slot h q)) prev"
  shows "ranked (put h key val p prev) (r(p := h_length h))"
proof -
  have len: "length (h_data h) = h_size h" using assms(1) by (auto simp: hash_wf_def)
  have used: "e_used (slot (put h key val p prev) i) \<longleftrightarrow> i = p \<or> e_used (slot h i)" if "i < h_size h" for i
    using that assms len by (cases prev) (auto simp: slot_put Let_def)
  have nxt: "next_slot (put h key val p prev) i = (if prev = Some i then Some p else next_slot h i)"
    if "i < h_size h" for i using that assms by (cases prev) (auto simp: next_slot_put)
  have old: "e_used (slot h i) \<and> e_used (slot h j) \<and> r i < r j \<and> j < h_size h"
    if "i < h_size h" "next_slot h i = Some j" for i j
    using that assms(2) next_slot_bound [OF assms(1)] by (auto simp: ranked_def)
  show ?thesis
    unfolding ranked_def put_simps
    using assms(2-5) used nxt old
    by (auto simp: ranked_def less_Suc_eq split: if_splits) 
qed


lemma ranked_lookup_returns:
  assumes "hash_wf h" "ranked h r"
  shows "i < h_size h \<Longrightarrow> e_used (slot h i) \<Longrightarrow> h_length h \<le> fuel + r i \<Longrightarrow>
    returns (lookup_loop fuel h key (int i))"
proof (induction fuel arbitrary: i)
  case 0
  then show ?case using assms(2) by (auto simp: ranked_def)
next
  case (Suc fuel)
  show ?case
  proof (cases "next_slot h i")
    case None
    with Suc.prems assms(1) show ?thesis by (simp add: lookup_step)
  next
    case (Some j)
    then have "e_used (slot h j)" "r i < r j" using assms(2) Suc.prems by (auto simp: ranked_def)
    with Suc.IH [of j] Suc.prems Some next_slot_bound [OF assms(1) Suc.prems(1) Some]
    show ?thesis by (simp add: lookup_step [OF assms(1) Suc.prems(1)])
  qed
qed

lemma hash_length_le: "hash_wf h \<Longrightarrow> h_length h \<le> h_size h"
  by (auto simp: hash_wf_def intro: le_trans [OF length_filter_le])

lemma put_home_lookup:
  assumes "hash_wf h" "i < h_size h" "h_hash_f h key (h_size h) = int i"
    and "\<not> e_used (slot h i)" "h_eq_f h key key"
  shows "AST_HASH_LOOKUP_NOLOCK (put h key val i None) key = Ret (Some val)"
proof -
  have "hash_wf (put h key val i None)" using assms by (intro wf_put) auto
  moreover obtain m where "h_size h = Suc m" using assms(2) by (cases "h_size h") auto
  moreover have "length (h_data h) = h_size h" using assms(1) by (simp add: hash_wf_def)
  ultimately show ?thesis
    using assms by (simp add: AST_HASH_LOOKUP_NOLOCK_def lookup_step slot_put Let_def)
qed

lemma put_probe_lookup:
  assumes "hash_wf h" "i < h_size h" "h_hash_f h key (h_size h) = int i"
    and "e_used (slot h i)" "\<not> h_eq_f h (e_key (slot h i)) key" "h_eq_f h key key"
    and "p < h_size h" "\<not> e_used (slot h p)"
  shows "AST_HASH_LOOKUP_NOLOCK (put h key val p (Some i)) key = Ret (Some val)"
proof -
  let ?h = "put h key val p (Some i)"
  have wf: "hash_wf ?h" using assms by (intro wf_put) auto
  have len: "length (h_data h) = h_size h" using assms(1) by (simp add: hash_wf_def)
  have "i \<noteq> p" using assms by auto
  then have "2 \<le> h_size h" using assms(2,7) by linarith
  then obtain m where m: "h_size h = Suc (Suc m)" by (metis add_2_eq_Suc le_Suc_ex)
  have "next_slot ?h i = Some p" using assms(1,2,7) by (auto simp: next_slot_put)
  then show ?thesis
    using wf assms len m \<open>i \<noteq> p\<close>
    by (simp add: AST_HASH_LOOKUP_NOLOCK_def lookup_step slot_put Let_def)
qed

section \<open>The contract of a hash function, and what tables over it guarantee\<close>

locale hash_fun =
  fixes hf :: "'k \<Rightarrow> nat \<Rightarrow> int" and eq :: "'k \<Rightarrow> 'k \<Rightarrow> bool"
  assumes hf_range: "0 < sz \<Longrightarrow> sz \<le> 2 ^ 31 \<Longrightarrow> 0 \<le> hf k sz \<and> hf k sz < int sz"
    and eq_refl: "eq k k"
begin

lemma home_slot:
  assumes "hash_wf h" "h_hash_f h = hf"
  obtains i where "i < h_size h" "h_hash_f h key (h_size h) = int i"
proof -
  have "0 \<le> hf key (h_size h) \<and> hf key (h_size h) < int (h_size h)"
    using assms by (intro hf_range) (auto simp: hash_wf_def)
  then show ?thesis using that [of "nat (hf key (h_size h))"] assms(2) by auto
qed

lemma insert_returns:
  assumes "hash_wf h" "h_hash_f h = hf"
  shows "\<exists>h' re. AST_HASH_INSERT_NOLOCK h key val = Ret (h', re) \<and> hash_wf h' \<and> re \<in> {0, - 1} \<and>
    h_size h' = h_size h \<and> h_hash_f h' = hf \<and> h_eq_f h' = h_eq_f h \<and>
    h_length h' = h_length h + (if re = 0 then 1 else 0) \<and> (re = - 1 \<longrightarrow> h' = h)"
proof -
  obtain i where i: "i < h_size h" "h_hash_f h key (h_size h) = int i"
    using assms by (rule home_slot)
  have n: "0 < h_size h" using i(1) by linarith
  have "hash_wf (put h key val i None)" if "\<not> e_used (slot h i)"
    using assms i that by (intro wf_put) auto
  moreover have "hash_wf (put h key val p (Some i))" if "free_after h i = Some p" for p
    using assms(1) i(1) free_after_Some [OF that n] by (intro wf_put) auto
  ultimately show ?thesis
    unfolding insert_cases [OF assms(1) i] using assms
    by (cases "insert_result h key val i") (auto simp: insert_result_def split: if_splits option.splits)
qed

lemma insert_lookup:
  assumes "hash_wf h" "h_hash_f h = hf" "h_eq_f h = eq"
    and "AST_HASH_INSERT_NOLOCK h key val = Ret (h', 0)"
  shows "AST_HASH_LOOKUP_NOLOCK h' key = Ret (Some val)"
proof -
  obtain i where i: "i < h_size h" "h_hash_f h key (h_size h) = int i"
    using assms(1,2) by (rule home_slot)
  have n: "0 < h_size h" using i(1) by linarith
  from assms(4) consider
      "\<not> e_used (slot h i)" "h' = put h key val i None"
    | p where "e_used (slot h i)" "\<not> h_eq_f h (e_key (slot h i)) key" "free_after h i = Some p"
        "h' = put h key val p (Some i)"
    unfolding insert_cases [OF assms(1) i]
    by (auto simp: insert_result_def split: if_splits option.splits)
  then show ?thesis
  proof cases
    case 1
    with put_home_lookup [OF assms(1) i] assms(3) eq_refl show ?thesis by simp
  next
    case 2
    with put_probe_lookup [OF assms(1) i] assms(3) eq_refl free_after_Some [OF 2(3) n]
    show ?thesis by simp
  qed
qed

lemma built_ranked:
  assumes "hash_built hf eq sz h" "0 < sz" "sz \<le> 2 ^ 31"
  shows "hash_wf h \<and> h_hash_f h = hf \<and> h_eq_f h = eq \<and> h_size h = sz \<and> (\<exists>r. ranked h r)"
  using assms(1)
proof (induction rule: hash_built.induct)
  case (built_init k0 v0)
  then show ?case using assms(2,3) by (auto simp: wf_init ranked_def next_slot_def)
next
  case (built_insert h key val h' re)
  then have wf: "hash_wf h" "h_hash_f h = hf" by auto
  obtain i where i: "i < h_size h" "h_hash_f h key (h_size h) = int i"
    using wf by (rule home_slot)
  have n: "0 < h_size h" using i(1) by linarith
  obtain r where r: "ranked h r" using built_insert by blast
  have "\<exists>r. ranked (put h key val i None) r" if "\<not> e_used (slot h i)"
    using ranked_put [OF wf(1) r i(1) that, of None] by auto
  moreover have "\<exists>r. ranked (put h key val p (Some i)) r"
    if "e_used (slot h i)" "free_after h i = Some p" for p
    using ranked_put [OF wf(1) r free_after_Some [OF that(2) n], of "Some i"] that i by auto
  ultimately have "\<exists>r. ranked h' r"
    using built_insert.hyps(2) r unfolding insert_cases [OF wf(1) i]
    by (auto simp: insert_result_def split: if_splits option.splits)
  with built_insert insert_returns [OF wf, of key val] show ?case by auto
qed

lemma built_lookup_returns:
  assumes "hash_built hf eq sz h" "0 < sz" "sz \<le> 2 ^ 31"
  shows "returns (AST_HASH_LOOKUP_NOLOCK h key)"
proof -
  obtain r where h: "hash_wf h" "h_hash_f h = hf" "ranked h r"
    using built_ranked [OF assms] by blast
  obtain i where i: "i < h_size h" "h_hash_f h key (h_size h) = int i"
    using h(1,2) by (rule home_slot)
  show ?thesis
  proof (cases "e_used (slot h i)")
    case True
    then show ?thesis
      using ranked_lookup_returns [OF h(1,3) i(1) True, of "h_size h" key] hash_length_le [OF h(1)] i
      by (simp add: AST_HASH_LOOKUP_NOLOCK_def)
  next
    case False
    then have "next_slot h i = None" using h(3) i(1) by (cases "next_slot h i") (auto simp: ranked_def)
    moreover obtain m where "h_size h = Suc m" using i(1) by (cases "h_size h") auto
    ultimately show ?thesis
      using False i h(1) by (simp add: AST_HASH_LOOKUP_NOLOCK_def lookup_step)
  qed
qed

end

interpretation int_hash: hash_fun modolo_hash eq_int
  by unfold_locales (auto simp: modolo_hash_range eq_int_def)

interpretation str_hash: hash_fun joaat_hash eq_str
  by unfold_locales (auto simp: joaat_hash_range eq_str_def)


section \<open>Removal\<close>

definition unset :: "('k, 'v, 'z) hash_scheme \<Rightarrow> nat \<Rightarrow> nat option \<Rightarrow> ('k, 'v, 'z) hash_scheme" where
  "unset h i prev =
     (let d = (h_data h)[i := (slot h i)\<lparr>e_used := False\<rparr>] in
      h\<lparr>h_data := (case prev of None \<Rightarrow> d
                   | Some q \<Rightarrow> d[q := (d ! q)\<lparr>e_next := e_next (slot h i)\<rparr>]),
        h_length := h_length h - 1\<rparr>)"

lemma unset_simps [simp]:
  "h_size (unset h i prev) = h_size h"
  "h_hash_f (unset h i prev) = h_hash_f h"
  "h_eq_f (unset h i prev) = h_eq_f h"
  "h_length (unset h i prev) = h_length h - 1"
  "length (h_data (unset h i prev)) = length (h_data h)"
  by (simp_all add: unset_def Let_def split: option.split)

lemma slot_unset:
  assumes "i < length (h_data h)" "j < length (h_data h)"
    "pred_option (\<lambda>q. q < length (h_data h)) prev"
  shows "slot (unset h i prev) j =
    (let e = (if j = i then (slot h i)\<lparr>e_used := False\<rparr> else slot h j)
     in if prev = Some j then e\<lparr>e_next := e_next (slot h i)\<rparr> else e)"
  using assms by (cases prev) (auto simp: unset_def slot_def Let_def nth_list_update)

lemma wf_unset:
  assumes "hash_wf h" "i < h_size h" "e_used (slot h i)"
    and "pred_option (\<lambda>q. q < h_size h) prev"
  shows "hash_wf (unset h i prev)"
proof -
  let ?h = "unset h i prev"
  let ?e = "(slot h i)\<lparr>e_used := False\<rparr>"
  have wf: "0 < h_size h" "h_size h \<le> 2 ^ 31" "length (h_data h) = h_size h"
    "h_length h = length (filter e_used (h_data h))"
    using assms(1) by (auto simp: hash_wf_def)
  have "length (filter e_used ((h_data h)[i := ?e])) = h_length h - 1"
    using length_filter_update [of i "h_data h" e_used ?e] assms(2,3) wf by (simp add: slot_def)
  then have cnt: "length (filter e_used (h_data ?h)) = h_length ?h"
    using assms(2,4) wf(3)
    by (cases prev) (auto simp: unset_def Let_def length_filter_update_same nth_list_update)
  have "e_next (slot ?h j) = - 1 \<or> (\<exists>m < h_size h. e_next (slot ?h j) = size_of_int (int m))"
    if "j < h_size h" for j
    using that assms wf by (cases prev) (auto simp: slot_unset Let_def hash_wf_def)
  with cnt wf show ?thesis by (simp add: hash_wf_def)
qed

definition prev_pos :: "nat option \<Rightarrow> int" where
  "prev_pos prev = (case prev of None \<Rightarrow> - 1 | Some q \<Rightarrow> int q)"

lemma remove_step:
  assumes "hash_wf h" "i < h_size h" "pred_option (\<lambda>q. q < h_size h) prev"
  shows "remove_loop (Suc fuel) h key (int i) (prev_pos prev) =
    (if e_used (slot h i) \<and> h_eq_f h (e_key (slot h i)) key then Ret (unset h i prev)
     else case next_slot h i of
            None \<Rightarrow> Ret h
          | Some j \<Rightarrow> remove_loop fuel h key (int j) (prev_pos (Some i)))"
proof -
  have len: "length (h_data h) = h_size h" "h_size h \<le> 2 ^ 31" using assms(1) by (auto simp: hash_wf_def)
  have hit: "remove_loop (Suc fuel) h key (int i) (prev_pos prev) = Ret (unset h i prev)"
    if "e_used (slot h i)" "h_eq_f h (e_key (slot h i)) key"
    using that assms len
    by (cases prev) (simp_all add: remove_loop.simps prev_pos_def unset_def slot_def Let_def)
  show ?thesis
  proof (cases "next_slot h i")
    case None
    then have "e_next (slot h i) = - 1" by (simp add: next_slot_def split: if_splits)
    with assms len None hit show ?thesis by (auto simp: remove_loop.simps slot_def)
  next
    case (Some j)
    with next_slot_bound [OF assms(1,2) Some] assms len hit show ?thesis
      by (auto simp: remove_loop.simps slot_def Let_def prev_pos_def)
  qed
qed

lemma remove_loop_wf:
  assumes "hash_wf h"
  shows "i < h_size h \<Longrightarrow> pred_option (\<lambda>q. q < h_size h) prev \<Longrightarrow>
    remove_loop fuel h key (int i) (prev_pos prev) = Ret h' \<Longrightarrow>
    hash_wf h' \<and> h_size h' = h_size h \<and> h_hash_f h' = h_hash_f h \<and> h_eq_f h' = h_eq_f h"
proof (induction fuel arbitrary: i prev)
  case 0
  then show ?case by (simp add: remove_loop.simps)
next
  case (Suc fuel)
  show ?case
  proof (cases "e_used (slot h i) \<and> h_eq_f h (e_key (slot h i)) key")
    case True
    with Suc.prems assms show ?thesis by (auto simp: remove_step wf_unset)
  next
    case False
    show ?thesis
    proof (cases "next_slot h i")
      case None
      with False Suc.prems assms show ?thesis by (auto simp: remove_step)
    next
      case (Some j)
      have "remove_loop fuel h key (int j) (prev_pos (Some i)) = Ret h'"
        using Suc.prems False Some assms by (auto simp: remove_step)
      with Suc.IH [of j "Some i"] Suc.prems next_slot_bound [OF assms Suc.prems(1) Some]
      show ?thesis by simp
    qed
  qed
qed


section \<open>Tables whose keys have slots of their own\<close>

text \<open>
  The interface of a map that refuses a second insertion of a key, over the keys in
  \<open>keys\<close>; a sequence of operations on it gives the answers of the abstract map.
\<close>

datatype ('k, 'v) hash_op = HInsert 'k 'v | HRemove 'k | HLookup 'k

fun run_ops :: "('m \<Rightarrow> 'k \<Rightarrow> 'v \<Rightarrow> ('m \<times> int) run) \<Rightarrow> ('m \<Rightarrow> 'k \<Rightarrow> 'm run) \<Rightarrow>
    ('m \<Rightarrow> 'k \<Rightarrow> 'v option run) \<Rightarrow> 'm \<Rightarrow> ('k, 'v) hash_op list \<Rightarrow> (int + 'v option) list run" where
  "run_ops ins rem look m [] = Ret []"
| "run_ops ins rem look m (HInsert k v # ops) =
     run_bind (ins m k v) (\<lambda>(m', re). run_map (\<lambda>rs. Inl re # rs) (run_ops ins rem look m' ops))"
| "run_ops ins rem look m (HRemove k # ops) =
     run_bind (rem m k) (\<lambda>m'. run_ops ins rem look m' ops)"
| "run_ops ins rem look m (HLookup k # ops) =
     run_bind (look m k) (\<lambda>r. run_map (\<lambda>rs. Inr r # rs) (run_ops ins rem look m ops))"

fun map_ops :: "('k \<rightharpoonup> 'v) \<Rightarrow> ('k, 'v) hash_op list \<Rightarrow> (int + 'v option) list" where
  "map_ops f [] = []"
| "map_ops f (HInsert k v # ops) =
     (if f k = None then Inl 0 # map_ops (f(k \<mapsto> v)) ops else Inl (- 1) # map_ops f ops)"
| "map_ops f (HRemove k # ops) = map_ops (f(k := None)) ops"
| "map_ops f (HLookup k # ops) = Inr (f k) # map_ops f ops"

fun op_key :: "('k, 'v) hash_op \<Rightarrow> 'k" where
  "op_key (HInsert k v) = k"
| "op_key (HRemove k) = k"
| "op_key (HLookup k) = k"

locale once_map =
  fixes ins :: "'m \<Rightarrow> 'k \<Rightarrow> 'v \<Rightarrow> ('m \<times> int) run"
    and rem :: "'m \<Rightarrow> 'k \<Rightarrow> 'm run"
    and look :: "'m \<Rightarrow> 'k \<Rightarrow> 'v option run"
    and invar :: "'m \<Rightarrow> bool"
    and abs :: "'m \<Rightarrow> 'k \<rightharpoonup> 'v"
    and keys :: "'k set"
  assumes look_abs: "invar m \<Longrightarrow> k \<in> keys \<Longrightarrow> look m k = Ret (abs m k)"
    and ins_new: "invar m \<Longrightarrow> k \<in> keys \<Longrightarrow> abs m k = None \<Longrightarrow>
      \<exists>m'. ins m k v = Ret (m', 0) \<and> invar m' \<and> abs m' = (abs m)(k \<mapsto> v)"
    and ins_old: "invar m \<Longrightarrow> k \<in> keys \<Longrightarrow> abs m k \<noteq> None \<Longrightarrow> ins m k v = Ret (m, - 1)"
    and rem_abs: "invar m \<Longrightarrow> k \<in> keys \<Longrightarrow>
      \<exists>m'. rem m k = Ret m' \<and> invar m' \<and> abs m' = (abs m)(k := None)"
begin

lemma run_ops_refines:
  assumes "invar m" "\<forall>p \<in> set ops. op_key p \<in> keys"
  shows "run_ops ins rem look m ops = Ret (map_ops (abs m) ops)"
  using assms
proof (induction ops arbitrary: m)
  case (Cons p ops)
  show ?case
  proof (cases p)
    case (HInsert k v)
    with Cons.prems have k: "k \<in> keys" by simp
    show ?thesis
    proof (cases "abs m k = None")
      case True
      from ins_new [OF Cons.prems(1) k True, of v] obtain m'
        where "ins m k v = Ret (m', 0)" "invar m'" "abs m' = (abs m)(k \<mapsto> v)" by blast
      with Cons HInsert True show ?thesis by simp
    next
      case False
      with ins_old [OF Cons.prems(1) k False, of v] Cons HInsert show ?thesis by simp
    qed
  next
    case (HRemove k)
    with Cons.prems have k: "k \<in> keys" by simp
    from rem_abs [OF Cons.prems(1) k] obtain m'
      where "rem m k = Ret m'" "invar m'" "abs m' = (abs m)(k := None)" by blast
    with Cons HRemove show ?thesis by simp
  next
    case (HLookup k)
    with Cons look_abs [of m k] show ?thesis by simp
  qed
qed simp

end

definition direct :: "'k set \<Rightarrow> ('k, 'v, 'z) hash_scheme \<Rightarrow> bool" where
  "direct K h \<longleftrightarrow> hash_wf h \<and>
     (\<forall>i < h_size h. e_next (slot h i) = - 1 \<and>
        (e_used (slot h i) \<longrightarrow>
           e_key (slot h i) \<in> K \<and> h_hash_f h (e_key (slot h i)) (h_size h) = int i))"

definition hash_abs :: "('k, 'v, 'z) hash_scheme \<Rightarrow> 'k \<rightharpoonup> 'v" where
  "hash_abs h k =
     (let i = nat (h_hash_f h k (h_size h)) in
      if e_used (slot h i) \<and> e_key (slot h i) = k then Some (e_val (slot h i)) else None)"

definition direct_inv ::
  "('k \<Rightarrow> nat \<Rightarrow> int) \<Rightarrow> ('k \<Rightarrow> 'k \<Rightarrow> bool) \<Rightarrow> nat \<Rightarrow> 'k set \<Rightarrow> ('k, 'v, 'z) hash_scheme \<Rightarrow> bool" where
  "direct_inv hf eq sz K h \<longleftrightarrow> direct K h \<and> h_hash_f h = hf \<and> h_eq_f h = eq \<and> h_size h = sz"

locale direct_hash = hash_fun +
  fixes sz :: nat and K :: "'a set"
  assumes sz_pos: "0 < sz" and sz_int: "sz \<le> 2 ^ 31"
    and hf_inj: "a \<in> K \<Longrightarrow> b \<in> K \<Longrightarrow> hf a sz = hf b sz \<Longrightarrow> a = b"
begin

lemma direct_home:
  assumes "direct_inv hf eq sz K h" "k \<in> K"
  obtains i where "i < h_size h" "h_hash_f h k (h_size h) = int i" "hash_wf h" "next_slot h i = None"
    and "e_used (slot h i) \<longrightarrow> e_key (slot h i) = k"
    and "hash_abs h k = (if e_used (slot h i) then Some (e_val (slot h i)) else None)"
proof -
  have h: "direct K h" "h_hash_f h = hf" "h_size h = sz" using assms(1) by (auto simp: direct_inv_def)
  then have wf: "hash_wf h" by (simp add: direct_def)
  obtain i where i: "i < h_size h" "h_hash_f h k (h_size h) = int i"
    using wf h(2) by (rule home_slot)
  have "e_used (slot h i) \<longrightarrow> e_key (slot h i) = k"
    using h i assms(2) hf_inj [of "e_key (slot h i)" k] by (auto simp: direct_def)
  with that [OF i wf] i h show ?thesis
    by (auto simp: direct_def next_slot_def hash_abs_def Let_def)
qed

lemma direct_lookup:
  assumes "direct_inv hf eq sz K h" "k \<in> K"
  shows "AST_HASH_LOOKUP_NOLOCK h k = Ret (hash_abs h k)"
proof -
  obtain i where i: "i < h_size h" "h_hash_f h k (h_size h) = int i" "hash_wf h" "next_slot h i = None"
    "e_used (slot h i) \<longrightarrow> e_key (slot h i) = k"
    "hash_abs h k = (if e_used (slot h i) then Some (e_val (slot h i)) else None)"
    using assms by (rule direct_home)
  moreover obtain m where "h_size h = Suc m" using i(1) by (cases "h_size h") auto
  moreover have "h_eq_f h k k" using assms(1) eq_refl by (simp add: direct_inv_def)
  ultimately show ?thesis by (auto simp: AST_HASH_LOOKUP_NOLOCK_def lookup_step)
qed

lemma home_other:
  assumes "direct_inv hf eq sz K h" "k \<in> K" "a \<noteq> k"
    and "h_hash_f h k (h_size h) = int i"
    and "nat (h_hash_f h a (h_size h)) = i"
  shows "a \<notin> K"
proof
  assume "a \<in> K"
  have h: "h_hash_f h = hf" "h_size h = sz" using assms(1) by (auto simp: direct_inv_def)
  have "0 \<le> hf a sz" using hf_range [OF sz_pos sz_int] by blast
  with assms(4,5) h have "hf a sz = hf k sz" by simp
  with \<open>a \<in> K\<close> assms(2,3) hf_inj show False by blast
qed

lemma hash_abs_outside:
  assumes "direct_inv hf eq sz K h" "a \<notin> K"
  shows "hash_abs h a = None"
proof -
  have h: "direct K h" "h_hash_f h = hf" "h_size h = sz" using assms(1) by (auto simp: direct_inv_def)
  moreover have "0 \<le> hf a sz \<and> hf a sz < int sz" by (rule hf_range [OF sz_pos sz_int])
  ultimately have "e_used (slot h (nat (hf a sz))) \<longrightarrow> e_key (slot h (nat (hf a sz))) \<in> K"
    by (auto simp: direct_def)
  with assms(2) h show ?thesis by (auto simp: hash_abs_def Let_def)
qed

lemma home_bound:
  assumes "direct_inv hf eq sz K h"
  shows "nat (h_hash_f h a (h_size h)) < h_size h"
proof -
  have "0 \<le> hf a sz \<and> hf a sz < int sz" by (rule hf_range [OF sz_pos sz_int])
  with assms show ?thesis by (auto simp: direct_inv_def)
qed

lemma direct_insert_new:
  assumes "direct_inv hf eq sz K h" "k \<in> K" "hash_abs h k = None"
  shows "\<exists>h'. AST_HASH_INSERT_NOLOCK h k v = Ret (h', 0) \<and> direct_inv hf eq sz K h' \<and>
    hash_abs h' = (hash_abs h)(k \<mapsto> v)"
proof -
  obtain i where i: "i < h_size h" "h_hash_f h k (h_size h) = int i" "hash_wf h" "next_slot h i = None"
    "e_used (slot h i) \<longrightarrow> e_key (slot h i) = k"
    "hash_abs h k = (if e_used (slot h i) then Some (e_val (slot h i)) else None)"
    using assms(1,2) by (rule direct_home)
  let ?h = "put h k v i None"
  have free: "\<not> e_used (slot h i)" using i(6) assms(3) by (simp split: if_splits)
  have len: "length (h_data h) = h_size h" using i(3) by (simp add: hash_wf_def)
  have "direct K ?h"
    using assms(1,2) i free len by (auto simp: direct_inv_def direct_def wf_put slot_put Let_def)
  then have inv: "direct_inv hf eq sz K ?h" using assms(1) by (simp add: direct_inv_def)
  have "hash_abs ?h a = ((hash_abs h)(k \<mapsto> v)) a" for a
  proof (cases "a = k")
    case True
    with i len show ?thesis by (simp add: hash_abs_def slot_put Let_def)
  next
    case False
    then show ?thesis
      using home_other [OF assms(1,2) False i(2)] hash_abs_outside [OF assms(1), of a]
        hash_abs_outside [OF inv, of a] home_bound [OF assms(1), of a] len i(1)
      by (cases "nat (h_hash_f h a (h_size h)) = i") (auto simp: hash_abs_def slot_put Let_def)
  qed
  with inv free insert_cases [OF i(3,1,2)] show ?thesis by (auto simp: insert_result_def)
qed

lemma direct_insert_old:
  assumes "direct_inv hf eq sz K h" "k \<in> K" "hash_abs h k \<noteq> None"
  shows "AST_HASH_INSERT_NOLOCK h k v = Ret (h, - 1)"
proof -
  obtain i where i: "i < h_size h" "h_hash_f h k (h_size h) = int i" "hash_wf h" "next_slot h i = None"
    "e_used (slot h i) \<longrightarrow> e_key (slot h i) = k"
    "hash_abs h k = (if e_used (slot h i) then Some (e_val (slot h i)) else None)"
    using assms(1,2) by (rule direct_home)
  then have "e_used (slot h i)" "e_key (slot h i) = k" using assms(3) by (auto split: if_splits)
  moreover have "h_eq_f h k k" using assms(1) eq_refl by (simp add: direct_inv_def)
  ultimately show ?thesis unfolding insert_cases [OF i(3,1,2)] by (simp add: insert_result_def)
qed

lemma direct_remove:
  assumes "direct_inv hf eq sz K h" "k \<in> K"
  shows "\<exists>h'. AST_HASH_REMOVE_NOLOCK h k = Ret h' \<and> direct_inv hf eq sz K h' \<and>
    hash_abs h' = (hash_abs h)(k := None)"
proof -
  obtain i where i: "i < h_size h" "h_hash_f h k (h_size h) = int i" "hash_wf h" "next_slot h i = None"
    "e_used (slot h i) \<longrightarrow> e_key (slot h i) = k"
    "hash_abs h k = (if e_used (slot h i) then Some (e_val (slot h i)) else None)"
    using assms by (rule direct_home)
  obtain m where m: "h_size h = Suc m" using i(1) by (cases "h_size h") auto
  have eqk: "h_eq_f h k k" using assms(1) eq_refl by (simp add: direct_inv_def)
  have "remove_loop (h_size h) h k (int i) (prev_pos None) = Ret (if e_used (slot h i) then unset h i None else h)"
    using remove_step [OF i(3,1), of None m k] i(4,5) eqk m by auto
  then have rem: "AST_HASH_REMOVE_NOLOCK h k = Ret (if e_used (slot h i) then unset h i None else h)"
    using i(2) by (simp add: AST_HASH_REMOVE_NOLOCK_def prev_pos_def)
  show ?thesis
  proof (cases "e_used (slot h i)")
    case False
    with rem assms(1) i(6) show ?thesis by (auto simp: fun_upd_idem)
  next
    case True
    let ?h = "unset h i None"
    have len: "length (h_data h) = h_size h" using i(3) by (simp add: hash_wf_def)
    have "direct K ?h"
      using assms(1) i True len by (auto simp: direct_inv_def direct_def wf_unset slot_unset Let_def)
    then have inv: "direct_inv hf eq sz K ?h" using assms(1) by (simp add: direct_inv_def)
    have "hash_abs ?h a = ((hash_abs h)(k := None)) a" for a
    proof (cases "a = k")
      case True
      with i len show ?thesis by (simp add: hash_abs_def slot_unset Let_def)
    next
      case False
      then show ?thesis
        using home_other [OF assms False i(2)] hash_abs_outside [OF assms(1), of a]
          hash_abs_outside [OF inv, of a] home_bound [OF assms(1), of a] len i(1)
        by (cases "nat (h_hash_f h a (h_size h)) = i") (auto simp: hash_abs_def slot_unset Let_def)
    qed
    with rem True inv show ?thesis by auto
  qed
qed

lemma direct_init: "direct_inv hf eq sz K (hash_init k0 v0 sz hf eq)"
  using wf_init [OF sz_pos sz_int] by (auto simp: direct_inv_def direct_def)

lemma hash_abs_init: "hash_abs (hash_init k0 v0 sz hf eq) = Map.empty"
proof
  fix a
  have "0 \<le> hf a sz \<and> hf a sz < int sz" by (rule hf_range [OF sz_pos sz_int])
  then have "nat (hf a sz) < sz" by linarith
  then show "hash_abs (hash_init k0 v0 sz hf eq) a = Map.empty a"
    by (simp add: hash_abs_def Let_def)
qed

sublocale dmap: once_map AST_HASH_INSERT_NOLOCK AST_HASH_REMOVE_NOLOCK AST_HASH_LOOKUP_NOLOCK
  "direct_inv hf eq sz K" hash_abs K
  by unfold_locales (auto intro: direct_lookup direct_insert_new direct_insert_old direct_remove)

end

lemma modolo_hash_small: "0 \<le> k \<Longrightarrow> k < int sz \<Longrightarrow> sz \<le> 2 ^ 31 \<Longrightarrow> modolo_hash k sz = k"
proof -
  assume k: "0 \<le> k" "k < int sz" "sz \<le> 2 ^ 31"
  then obtain n where n: "k = int n" "n < sz" by (metis nonneg_int_cases of_nat_less_iff)
  with k have "unat (size_of_int k) = n" by (simp add: unat_size_of_int)
  with n k size_mod_int [of sz "size_of_int k"] show ?thesis by (simp add: modolo_hash_def)
qed

interpretation int_direct: direct_hash modolo_hash eq_int 512 "{0..<512}"
  by unfold_locales (auto simp: modolo_hash_small)


section \<open>Properties\<close>

text \<open>
  C30. In a table with string keys, a key whose insertion returned 0 is found by the lookup that
  follows it, with the value that was inserted, whatever the table held before (collisions and
  probing included).
\<close>

theorem str_insert_lookup:
  assumes "hash_wf h" "h_hash_f h = joaat_hash" "h_eq_f h = eq_str"
    and "AST_HASH_INSERT_NOLOCK h key val = Ret (h', 0)"
  shows "AST_HASH_LOOKUP_NOLOCK h' key = Ret (Some val)"
  using assms by (rule str_hash.insert_lookup)

theorem str_insert_lookup_witness:
  "AST_HASH_LOOKUP_NOLOCK (put (AST_HASH_INIT_STR (0::int) 4) ''gsm'' 7 (nat (joaat_hash ''gsm'' 4)) None) ''gsm''
   = Ret (Some 7)"
proof -
  let ?h = "AST_HASH_INIT_STR (0::int) 4"
  have wf: "hash_wf ?h" by (simp add: AST_HASH_INIT_STR_def wf_init)
  have f: "h_hash_f ?h = joaat_hash" "h_eq_f ?h = eq_str" by (simp_all add: AST_HASH_INIT_STR_def)
  have r: "0 \<le> joaat_hash ''gsm'' 4 \<and> joaat_hash ''gsm'' 4 < int 4" by (rule joaat_hash_range) auto
  then have "AST_HASH_INSERT_NOLOCK ?h ''gsm'' 7 = Ret (put ?h ''gsm'' 7 (nat (joaat_hash ''gsm'' 4)) None, 0)"
    using insert_cases [OF wf, of "nat (joaat_hash ''gsm'' 4)" "''gsm''" 7]
    by (simp add: AST_HASH_INIT_STR_def insert_result_def nat_less_iff)
  then show ?thesis using wf f by (intro str_insert_lookup)
qed

lemma joaat_gsm: "joaat_hash ''gsm'' 512 = 148" "joaat_hash ''GSM'' 512 = 459"
  by (simp_all add: joaat_hash_def Let_def char_to_int32_def int_of_size_def)

lemma lock_put [simp]: "h_lock (put h key val p prev) = h_lock h"
  by (simp add: put_def Let_def)

lemma lock_unset [simp]: "h_lock (unset h i prev) = h_lock h"
  by (simp add: unset_def Let_def)

lemma lock_simps [simp]:
  "hash_wf (AST_HASH_LOCK h) = hash_wf h"
  "h_hash_f (AST_HASH_LOCK h) = h_hash_f h" "h_eq_f (AST_HASH_LOCK h) = h_eq_f h"
  "h_size (AST_HASH_LOCK h) = h_size h" "h_lock (AST_HASH_LOCK h) = Suc (h_lock h)"
  "h_lock (AST_HASH_UNLOCK h) = h_lock h - 1" "AST_HASH_UNLOCK (AST_HASH_LOCK h) = h"
  by (simp_all add: AST_HASH_LOCK_def AST_HASH_UNLOCK_def hash_wf_def slot_def)

lemma TRY_INSERT_lock:
  "TRY_INSERT h key val pos prev = Ret (Some h') \<Longrightarrow> h_lock h' = h_lock h"
  by (auto simp: TRY_INSERT_def crun split: if_splits)

lemma insert_probe_lock:
  "insert_probe fuel h key val pos prev e = Ret (h', re) \<Longrightarrow> h_lock h' = h_lock h"
  by (induction fuel h key val pos prev e rule: insert_probe.induct)
     (auto simp: insert_probe.simps crun Let_def dest: TRY_INSERT_lock split: option.splits if_splits)

lemma insert_loop_lock:
  "insert_loop fuel h key val pos prev = Ret (h', re) \<Longrightarrow> h_lock h' = h_lock h"
  by (induction fuel h key val pos prev rule: insert_loop.induct)
     (auto simp: insert_loop.simps crun Let_def dest: TRY_INSERT_lock insert_probe_lock split: option.splits if_splits)

lemma remove_loop_lock:
  "remove_loop fuel h key pos prev = Ret h' \<Longrightarrow> h_lock h' = h_lock h"
  by (induction fuel h key pos prev rule: remove_loop.induct)
     (auto simp: remove_loop.simps crun Let_def split: if_splits)

text \<open>
  The operations that take the table's lock give it back: after an insertion, a removal or a
  lookup the running thread holds the lock as often as before, on every path of the loops.
\<close>

theorem locked_operations_release:
  "(AST_HASH_INSERT h key val = Ret (h1, re) \<longrightarrow> h_lock h1 = h_lock h) \<and>
   (AST_HASH_REMOVE h key = Ret h2 \<longrightarrow> h_lock h2 = h_lock h) \<and>
   (AST_HASH_LOOKUP h key = Ret (h3, r) \<longrightarrow> h3 = h)"
  by (auto simp: AST_HASH_INSERT_def AST_HASH_REMOVE_def AST_HASH_LOOKUP_def Let_def crun
      AST_HASH_INSERT_NOLOCK_def AST_HASH_REMOVE_NOLOCK_def
      dest!: insert_loop_lock remove_loop_lock)

theorem locked_operations_release_witness:
  "h_lock (fst (case AST_HASH_INSERT (lhash_init_str (0::int) 512) ''gsm'' 7 of Ret r \<Rightarrow> r)) = 0"
proof -
  have wf: "hash_wf (AST_HASH_LOCK (lhash_init_str (0::int) 512))"
    using wf_init [of 512 "[]" "0::int" joaat_hash eq_str]
    by (simp add: lhash_init_str_def AST_HASH_INIT_STR_def AST_HASH_LOCK_def hash_wf_def slot_def hash.defs)
  have "h_hash_f (AST_HASH_LOCK (lhash_init_str (0::int) 512)) = joaat_hash"
    by (simp add: lhash_init_str_def AST_HASH_INIT_STR_def hash.defs hash_init_def)
  from str_hash.insert_returns [OF wf this, of "''gsm''" 7] obtain h1 re where
    "AST_HASH_INSERT (lhash_init_str (0::int) 512) ''gsm'' 7 = Ret (h1, re)"
    by (auto simp: AST_HASH_INSERT_def)
  with locked_operations_release [of "lhash_init_str (0::int) 512" "''gsm''" 7 h1 re h1 h1 None]
  show ?thesis by (simp add: lhash_init_str_def hash.defs)
qed

lemma modolo_multiple:
  assumes "0 < sz" "sz \<le> 2 ^ 30" "m \<le> 2"
  shows "modolo_hash (int (m * sz)) sz = 0"
proof -
  have "m * sz \<le> 2 * 2 ^ 30" by (rule mult_le_mono) (use assms in auto)
  then have "unat (size_of_int (int (m * sz))) = m * sz" by (intro unat_size_of_int) simp
  then show ?thesis using assms size_mod_int [of sz "size_of_int (int (m * sz))"]
    by (simp add: modolo_hash_def)
qed

lemma probe_seq_0: "3 \<le> n \<Longrightarrow> probe_seq 0 n = 1 # 2 # map (\<lambda>m. Suc m mod n) [2..<n]"
proof -
  assume "3 \<le> n"
  then have "[0..<n] = 0 # 1 # [2..<n]" by (simp add: upt_conv_Cons numeral_2_eq_2)
  with \<open>3 \<le> n\<close> show ?thesis by (simp add: probe_seq_def)
qed

text \<open>
  C38. The third key that collides makes the second unreachable: \<open>_next > -1\<close> compares a
  \<open>size_t\<close> with -1 and is never true, so that the chain of the home slot is not followed and
  its link is overwritten. All three insertions report success.
\<close>

theorem third_collision_loses_second:
  assumes "3 \<le> sz" "sz \<le> 2 ^ 30"
  shows "\<exists>h1 h2 h3.
    AST_HASH_INSERT_NOLOCK (AST_HASH_INIT_INT v0 sz) 0 a = Ret (h1, 0) \<and>
    AST_HASH_INSERT_NOLOCK h1 (int sz) b = Ret (h2, 0) \<and>
    AST_HASH_INSERT_NOLOCK h2 (int (2 * sz)) c = Ret (h3, 0) \<and>
    AST_HASH_LOOKUP_NOLOCK h2 (int sz) = Ret (Some b) \<and>
    AST_HASH_LOOKUP_NOLOCK h3 (int sz) = Ret None"
proof -
  define h0 where "h0 = AST_HASH_INIT_INT v0 sz"
  define h1 where "h1 = put h0 0 a 0 None"
  define h2 where "h2 = put h1 (int sz) b 1 (Some 0)"
  define h3 where "h3 = put h2 (int (2 * sz)) c 2 (Some 0)"
  have home: "modolo_hash 0 sz = 0" "modolo_hash (int sz) sz = 0" "modolo_hash (int (2 * sz)) sz = 0"
    using modolo_multiple [of sz 0] modolo_multiple [of sz 1] modolo_multiple [of sz 2] assms by auto
  have s0: "slot h0 i = \<lparr>e_used = False, e_next = - 1, e_key = 0, e_val = v0\<rparr>" if "i < sz" for i
    using that by (simp add: h0_def AST_HASH_INIT_INT_def)
  have len: "length (h_data h0) = sz" "h_size h0 = sz" "h_hash_f h0 = modolo_hash" "h_eq_f h0 = eq_int"
    by (simp_all add: h0_def AST_HASH_INIT_INT_def hash_init_def)
  have s1: "slot h1 i = (if i = 0 then \<lparr>e_used = True, e_next = - 1, e_key = 0, e_val = a\<rparr>
      else slot h0 i)" if "i < sz" for i
    using that assms len by (simp add: h1_def slot_put s0 Let_def)
  have s2: "slot h2 i = (if i = 0 then \<lparr>e_used = True, e_next = size_of_int 1, e_key = 0, e_val = a\<rparr>
      else if i = 1 then \<lparr>e_used = True, e_next = - 1, e_key = int sz, e_val = b\<rparr>
      else slot h0 i)" if "i < sz" for i
    using that assms len by (simp add: h2_def h1_def slot_put s0 Let_def)
  have s3: "slot h3 i = (if i = 0 then \<lparr>e_used = True, e_next = size_of_int 2, e_key = 0, e_val = a\<rparr>
      else if i = 1 then \<lparr>e_used = True, e_next = - 1, e_key = int sz, e_val = b\<rparr>
      else if i = 2 then \<lparr>e_used = True, e_next = - 1, e_key = int (2 * sz), e_val = c\<rparr>
      else slot h0 i)" if "i < sz" for i
    using that assms len s2 by (simp add: h3_def h2_def h1_def slot_put s0 Let_def)
  have wf0: "hash_wf h0" using assms by (simp add: h0_def AST_HASH_INIT_INT_def wf_init)
  have wf1: "hash_wf h1" unfolding h1_def using assms len s0 wf0 by (intro wf_put) auto
  have wf2: "hash_wf h2" unfolding h2_def using assms len s0 s1 wf1 by (intro wf_put) (auto simp: h1_def)
  have wf3: "hash_wf h3" unfolding h3_def using assms len s0 s2 wf2
    by (intro wf_put) (auto simp: h1_def h2_def)
  have sz: "h_size h1 = sz" "h_size h2 = sz" "h_size h3 = sz" by (simp_all add: h1_def h2_def h3_def len)
  have "free_after h1 0 = Some 1" "free_after h2 0 = Some 2"
    using assms by (simp_all add: free_after_def sz probe_seq_0 s0 s1 s2)
  moreover have "e_used (slot h1 0)" "e_key (slot h1 0) = 0" "e_used (slot h2 0)" "e_key (slot h2 0) = 0"
    using assms s1 [of 0] s2 [of 0] by auto
  ultimately have ins: "AST_HASH_INSERT_NOLOCK h0 0 a = Ret (h1, 0)"
    "AST_HASH_INSERT_NOLOCK h1 (int sz) b = Ret (h2, 0)"
    "AST_HASH_INSERT_NOLOCK h2 (int (2 * sz)) c = Ret (h3, 0)"
    using insert_cases [OF wf0, of 0 0 a] insert_cases [OF wf1, of 0 "int sz" b]
      insert_cases [OF wf2, of 0 "int (2 * sz)" c] assms home len s0 [of 0]
    by (auto simp: insert_result_def h1_def h2_def h3_def eq_int_def)
  have "next_slot h3 0 = Some 2" "next_slot h3 2 = None"
    using assms s3 [of 0] s3 [of 2] unat_size_of_int [of 2] size_of_int_eq_minus_one [of 2]
    by (simp_all add: next_slot_def)
  moreover obtain m where "sz = Suc (Suc m)" using assms(1) by (metis Suc_le_D numeral_3_eq_3 Suc_le_mono)
  ultimately have "AST_HASH_LOOKUP_NOLOCK h3 (int sz) = Ret None"
    using lookup_step [OF wf3, of 0 "Suc m" "int sz"] lookup_step [OF wf3, of 2 m "int sz"]
      assms home s3 [of 0] s3 [of 2] sz len
    by (simp add: AST_HASH_LOOKUP_NOLOCK_def h3_def h2_def h1_def eq_int_def)
  moreover have "AST_HASH_LOOKUP_NOLOCK h2 (int sz) = Ret (Some b)"
    using wf1 ins(2) by (intro int_hash.insert_lookup) (auto simp: h1_def len)
  ultimately show ?thesis using ins unfolding h0_def by blast
qed

theorem third_collision_loses_second_witness:
  "\<exists>h1 h2 h3.
    AST_HASH_INSERT_NOLOCK (AST_HASH_INIT_INT (0::int) 512) 0 10 = Ret (h1, 0) \<and>
    AST_HASH_INSERT_NOLOCK h1 (int 512) 11 = Ret (h2, 0) \<and>
    AST_HASH_INSERT_NOLOCK h2 (int (2 * 512)) 12 = Ret (h3, 0) \<and>
    AST_HASH_LOOKUP_NOLOCK h2 (int 512) = Ret (Some 11) \<and>
    AST_HASH_LOOKUP_NOLOCK h3 (int 512) = Ret None"
  by (rule third_collision_loses_second) simp_all


definition cyclic_table :: "(int, int) hash" where
  "cyclic_table =
     \<lparr>h_data = [\<lparr>e_used = True, e_next = 1, e_key = 1, e_val = 12\<rparr>,
                \<lparr>e_used = True, e_next = 0, e_key = 2, e_val = 11\<rparr>],
      h_size = 2, h_length = 2, h_hash_f = modolo_hash, h_eq_f = eq_int\<rparr>"

lemma cyclic_lookup_hangs: "pos \<in> {0, 1} \<Longrightarrow> lookup_loop fuel cyclic_table 4 pos = Hang"
proof (induction fuel arbitrary: pos)
  case (Suc fuel)
  then show ?case
    by (auto simp: lookup_loop.simps cyclic_table_def eq_int_def arr_get_def int_of_size_def)
qed (simp add: lookup_loop.simps)

text \<open>
  C39. After a removal, an insertion can close a cycle of links, because a removed slot keeps its
  \<open>_next\<close>; a lookup of a key that is not in the table then never ends, for no amount of fuel.
\<close>

theorem removal_can_make_lookup_hang:
  "\<exists>h1 h2 h3 h4.
    AST_HASH_INSERT_NOLOCK (AST_HASH_INIT_INT (0::int) 2) 0 10 = Ret (h1, 0) \<and>
    AST_HASH_INSERT_NOLOCK h1 2 11 = Ret (h2, 0) \<and>
    AST_HASH_REMOVE_NOLOCK h2 0 = Ret h3 \<and>
    AST_HASH_INSERT_NOLOCK h3 1 12 = Ret (h4, 0) \<and>
    hash_wf h4 \<and> (\<forall>fuel. lookup_loop fuel h4 (4::int) (h_hash_f h4 4 (h_size h4)) = Hang)"
proof -
  let ?e = "\<lambda>u n k v. \<lparr>e_used = u, e_next = n, e_key = k, e_val = v\<rparr> :: (int, int) entry"
  let ?h = "\<lambda>d l. \<lparr>h_data = d, h_size = 2, h_length = l, h_hash_f = modolo_hash, h_eq_f = eq_int\<rparr>"
  have fuel: "insert_loop 2 = insert_loop (Suc (Suc 0))" "insert_probe 2 = insert_probe (Suc (Suc 0))"
    "remove_loop 2 = remove_loop (Suc (Suc 0))" "replicate 2 = replicate (Suc (Suc 0))"
    by (simp_all add: numeral_2_eq_2)
  have home: "modolo_hash 0 2 = 0" "modolo_hash 1 2 = 1" "modolo_hash 2 2 = 0"
    by (simp_all add: modolo_hash_def int_of_size_def size_of_int_def)
  note ev = AST_HASH_INSERT_NOLOCK_def AST_HASH_REMOVE_NOLOCK_def insert_loop.simps insert_probe.simps
    remove_loop.simps TRY_INSERT_def arr_get_def arr_set_def int_of_size_def
    size_of_int_def eq_int_def AST_HASH_INIT_INT_def hash_init_def fuel home
  have "AST_HASH_INSERT_NOLOCK (AST_HASH_INIT_INT (0::int) 2) 0 10 =
      Ret (?h [?e True (- 1) 0 10, ?e False (- 1) 0 0] 1, 0)"
    by (simp add: ev)
  moreover have "AST_HASH_INSERT_NOLOCK (?h [?e True (- 1) 0 10, ?e False (- 1) 0 0] 1) 2 11 =
      Ret (?h [?e True 1 0 10, ?e True (- 1) 2 11] 2, 0)"
    by (simp add: ev)
  moreover have "AST_HASH_REMOVE_NOLOCK (?h [?e True 1 0 10, ?e True (- 1) 2 11] 2) 0 =
      Ret (?h [?e False 1 0 10, ?e True (- 1) 2 11] 1)"
    by (simp add: ev)
  moreover have "AST_HASH_INSERT_NOLOCK (?h [?e False 1 0 10, ?e True (- 1) 2 11] 1) 1 12 =
      Ret (cyclic_table, 0)"
    by (simp add: ev cyclic_table_def)
  moreover have "hash_wf cyclic_table"
    by (auto simp: hash_wf_def cyclic_table_def slot_def size_of_int_def less_2_cases_iff
        conj_disj_distribR ex_disj_distrib)
  moreover have "h_hash_f cyclic_table 4 (h_size cyclic_table) = 0"
    by (simp add: cyclic_table_def modolo_hash_def int_of_size_def size_of_int_def)
  ultimately show ?thesis using cyclic_lookup_hangs by (intro exI conjI allI) auto
qed


text \<open>
  C31. With integer keys below the size of the table (no collisions), every sequence of insertions,
  removals and lookups returns, and gives the answers of an abstract map whose insertion refuses a
  key that is present.
\<close>

theorem int_table_refines_map:
  assumes "\<forall>p \<in> set ops. op_key p \<in> {0..<512}"
  shows "run_ops AST_HASH_INSERT_NOLOCK AST_HASH_REMOVE_NOLOCK AST_HASH_LOOKUP_NOLOCK
      (AST_HASH_INIT_INT v0 512) ops = Ret (map_ops Map.empty ops)"
  using int_direct.dmap.run_ops_refines [OF int_direct.direct_init assms]
  by (simp add: AST_HASH_INIT_INT_def int_direct.hash_abs_init)

theorem int_table_refines_map_witness:
  "run_ops AST_HASH_INSERT_NOLOCK AST_HASH_REMOVE_NOLOCK AST_HASH_LOOKUP_NOLOCK
      (AST_HASH_INIT_INT (0::int) 512) [HInsert 3 30, HInsert 3 31, HLookup 3, HRemove 3, HLookup 3]
   = Ret [Inl 0, Inl (- 1), Inr (Some 30), Inr None]"
  using int_table_refines_map [of "[HInsert 3 30, HInsert 3 31, HLookup 3, HRemove 3, HLookup 3]" "0::int"]
  by simp

text \<open>
  C32. In a table that was only inserted into (which is how the configuration manager uses it), every
  lookup of a string key ends, within as many steps as the table has slots.
\<close>

theorem insertion_only_lookup_returns:
  assumes "hash_built joaat_hash eq_str sz h" "0 < sz" "sz \<le> 2 ^ 31"
  shows "\<exists>r. AST_HASH_LOOKUP_NOLOCK h key = Ret r"
  using str_hash.built_lookup_returns [OF assms] by (simp add: returns_def)

theorem insertion_only_lookup_returns_witness:
  "\<exists>r. AST_HASH_LOOKUP_NOLOCK (AST_HASH_INIT_STR (0::int) 512) ''gsm'' = Ret r"
  by (rule insertion_only_lookup_returns [where sz = 512])
     (auto simp: AST_HASH_INIT_STR_def intro: hash_built.built_init)

text \<open>
  An insertion of a string key always returns, keeps the table well formed and reports 0 or
  -1: with 0 the length grew by one, with -1 the table is unchanged; the traversal visits exactly
  as many entries as the length says.
\<close>

theorem str_insert_total:
  assumes "hash_wf h" "h_hash_f h = joaat_hash"
  shows "\<exists>h' re. AST_HASH_INSERT_NOLOCK h key val = Ret (h', re) \<and> hash_wf h' \<and> re \<in> {0, - 1} \<and>
    AST_HASH_LENGTH_NOLOCK h' = AST_HASH_LENGTH_NOLOCK h + (if re = 0 then 1 else 0) \<and>
    length (AST_HASH_TRAVERSE_NOLOCK h') = AST_HASH_LENGTH_NOLOCK h' \<and>
    (re = - 1 \<longrightarrow> h' = h)"
proof -
  from str_hash.insert_returns [OF assms, of key val] obtain h' re where
    *: "AST_HASH_INSERT_NOLOCK h key val = Ret (h', re)" "hash_wf h'" "re \<in> {0, - 1}"
      "h_length h' = h_length h + (if re = 0 then 1 else 0)" "re = - 1 \<longrightarrow> h' = h" by blast
  moreover have "length (AST_HASH_TRAVERSE_NOLOCK h') = AST_HASH_LENGTH_NOLOCK h'"
    using *(2) by (simp add: AST_HASH_TRAVERSE_NOLOCK_def AST_HASH_LENGTH_NOLOCK_def hash_wf_def)
  ultimately show ?thesis by (auto simp: AST_HASH_LENGTH_NOLOCK_def)
qed

theorem str_insert_total_witness:
  "\<exists>h' re. AST_HASH_INSERT_NOLOCK (AST_HASH_INIT_STR (0::int) 512) ''gsm'' 7 = Ret (h', re) \<and>
    hash_wf h' \<and> re \<in> {0, - 1} \<and>
    AST_HASH_LENGTH_NOLOCK h' =
      AST_HASH_LENGTH_NOLOCK (AST_HASH_INIT_STR (0::int) 512) + (if re = 0 then 1 else 0) \<and>
    length (AST_HASH_TRAVERSE_NOLOCK h') = AST_HASH_LENGTH_NOLOCK h' \<and>
    (re = - 1 \<longrightarrow> h' = AST_HASH_INIT_STR (0::int) 512)"
  by (rule str_insert_total) (simp_all add: AST_HASH_INIT_STR_def wf_init)

text \<open>
  The equality of string keys ignores case, the hash function does not: a key inserted as
  GSM is not found as gsm, although the two are equal keys.
\<close>

theorem str_lookup_is_case_sensitive:
  "eq_str ''GSM'' ''gsm'' \<and>
   (\<exists>h. AST_HASH_INSERT_NOLOCK (AST_HASH_INIT_STR v0 512) ''GSM'' v = Ret (h, 0) \<and>
        AST_HASH_LOOKUP_NOLOCK h ''GSM'' = Ret (Some v) \<and>
        AST_HASH_LOOKUP_NOLOCK h ''gsm'' = Ret None)"
proof -
  let ?h = "AST_HASH_INIT_STR v0 512" let ?h1 = "put ?h ''GSM'' v 459 None"
  have wf: "hash_wf ?h" by (simp add: AST_HASH_INIT_STR_def wf_init)
  have len: "length (h_data ?h) = 512" "h_size ?h = 512" "h_hash_f ?h = joaat_hash" "h_eq_f ?h = eq_str"
    by (simp_all add: AST_HASH_INIT_STR_def hash_init_def)
  have s: "i < 512 \<Longrightarrow> slot ?h i = \<lparr>e_used = False, e_next = - 1, e_key = [], e_val = v0\<rparr>" for i
    by (simp add: AST_HASH_INIT_STR_def)
  have ins: "AST_HASH_INSERT_NOLOCK ?h ''GSM'' v = Ret (?h1, 0)"
    using insert_cases [OF wf, of 459 "''GSM''" v] by (simp add: len s joaat_gsm insert_result_def)
  have wf1: "hash_wf ?h1" using wf s len by (intro wf_put) auto
  have "lookup_loop (Suc 511) ?h1 ''gsm'' (int 148) = Ret None"
    using lookup_step [OF wf1, of 148 511 "''gsm''"] len s by (simp add: slot_put next_slot_def Let_def)
  then have "AST_HASH_LOOKUP_NOLOCK ?h1 ''gsm'' = Ret None"
    by (simp add: AST_HASH_LOOKUP_NOLOCK_def len joaat_gsm)
  moreover have "AST_HASH_LOOKUP_NOLOCK ?h1 ''GSM'' = Ret (Some v)"
    using wf len(3,4) ins by (rule str_hash.insert_lookup)
  moreover have "eq_str ''GSM'' ''gsm''" by (simp add: eq_str_def tolower_def)
  ultimately show ?thesis using ins by blast
qed

end
