(* ===== verification/Statemachine.thy ===== *)
theory Statemachine
  imports Prelude
begin

text \<open>
  The generic state machine of \<open>chan_gsm/compat/res_statemachine.c\<close>: a table of transitions,
  searched row by row for the current state and an event, whose rows may call a handler, send
  an event and set the next state.

  The private pointer \<open>p\<close> is the value \<open>sm_p\<close>; the callbacks (a row's handler, \<open>send_event\<close>

declare run_bind_cong [fundef_cong]
  and \<open>log_event\<close>) are functions that read it and return it changed. They do not call back
  into the machine. The recursive mutex is the number of times the running thread holds it.
\<close>


section \<open>Constants and types (statemachine.h)\<close>

definition STATE_DEFAULT :: int where "STATE_DEFAULT = - 1"
definition STATE_CONTINUE :: int where "STATE_CONTINUE = - 2"
definition STATE_KEEP :: int where "STATE_KEEP = - 3"
definition STATE_ANY :: int where "STATE_ANY = - 4"

definition EVENT_DEFAULT :: int where "EVENT_DEFAULT = - 1"
definition EVENT_BREAK :: int where "EVENT_BREAK = - 2"
definition EVENT_NONE :: int where "EVENT_NONE = - 3"
definition EVENT_ANY :: int where "EVENT_ANY = - 4"

definition LOG_RECEIVE :: int where "LOG_RECEIVE = 0"
definition LOG_TRANSMIT :: int where "LOG_TRANSMIT = 1"

lemmas sm_consts = STATE_DEFAULT_def STATE_CONTINUE_def STATE_KEEP_def STATE_ANY_def
  EVENT_DEFAULT_def EVENT_BREAK_def EVENT_NONE_def EVENT_ANY_def LOG_RECEIVE_def LOG_TRANSMIT_def

record handle_retval =
  hr_state :: int
  hr_event :: int

definition RE_STATE_EVENT :: "int \<Rightarrow> int \<Rightarrow> handle_retval" where
  "RE_STATE_EVENT state event = \<lparr>hr_state = state, hr_event = event\<rparr>"

definition RE_DEFAULT :: handle_retval where
  "RE_DEFAULT = RE_STATE_EVENT STATE_DEFAULT EVENT_DEFAULT"

definition RE_EVENT :: "int \<Rightarrow> handle_retval" where
  "RE_EVENT event = RE_STATE_EVENT STATE_DEFAULT event"

definition RE_STATE_DEFEVENT :: "int \<Rightarrow> handle_retval" where
  "RE_STATE_DEFEVENT state = RE_STATE_EVENT state EVENT_DEFAULT"

definition RE_STATE_NOEVENT :: "int \<Rightarrow> handle_retval" where
  "RE_STATE_NOEVENT state = RE_STATE_EVENT state EVENT_NONE"

definition RE_BREAK :: handle_retval where
  "RE_BREAK = RE_STATE_EVENT STATE_DEFAULT EVENT_BREAK"

definition RE_NONE :: handle_retval where
  "RE_NONE = RE_STATE_EVENT STATE_DEFAULT EVENT_NONE"

record 'p transition =
  t_state :: int
  t_event :: int
  t_state_next :: int
  t_event_out :: int
  t_handle :: "('p \<Rightarrow> int \<Rightarrow> int \<Rightarrow> handle_retval \<times> 'p) option"

record 'p statemachine =
  sm_lock :: nat
  sm_p :: 'p
  sm_state :: int
  sm_table :: "'p transition list"
  sm_num_rows :: int
  sm_send_event :: "'p \<Rightarrow> int \<Rightarrow> int \<times> 'p"
  sm_log_event :: "('p \<Rightarrow> int \<Rightarrow> int \<Rightarrow> int \<Rightarrow> 'p) option"


section \<open>Operations (res_statemachine.c)\<close>

text \<open>
  \<open>refs\<close> is the use count of the module; \<open>malloc_ok\<close> says whether \<open>malloc\<close> returned memory.
\<close>

definition statemachine_create ::
  "bool \<Rightarrow> int \<Rightarrow> 'p \<Rightarrow> int \<Rightarrow> 'p transition list \<Rightarrow> int \<Rightarrow> ('p \<Rightarrow> int \<Rightarrow> int \<times> 'p) \<Rightarrow>
   ('p \<Rightarrow> int \<Rightarrow> int \<Rightarrow> int \<Rightarrow> 'p) option \<Rightarrow> 'p statemachine option \<times> int" where
  "statemachine_create malloc_ok refs p state table num_rows send_event log_event =
     (if malloc_ok then
        (Some \<lparr>sm_lock = 0, sm_p = p, sm_state = state, sm_table = table, sm_num_rows = num_rows,
               sm_send_event = send_event, sm_log_event = log_event\<rparr>, refs + 1)
      else (None, refs))"

definition statemachine_destroy :: "'p statemachine option \<Rightarrow> int \<Rightarrow> 'p statemachine option \<times> int" where
  "statemachine_destroy sm refs = (case sm of None \<Rightarrow> (None, refs) | Some _ \<Rightarrow> (None, refs - 1))"

definition sm_LOCK :: "'p statemachine \<Rightarrow> 'p statemachine" where
  "sm_LOCK sm = sm\<lparr>sm_lock := sm_lock sm + 1\<rparr>"

definition sm_UNLOCK :: "'p statemachine \<Rightarrow> 'p statemachine" where
  "sm_UNLOCK sm = sm\<lparr>sm_lock := sm_lock sm - 1\<rparr>"

definition sm_log :: "'p statemachine \<Rightarrow> int \<Rightarrow> int \<Rightarrow> int \<Rightarrow> 'p statemachine" where
  "sm_log sm direction state event =
     (case sm_log_event sm of
        None \<Rightarrow> sm
      | Some log \<Rightarrow> sm\<lparr>sm_p := log (sm_p sm) direction state event\<rparr>)"

definition row_matches :: "'p transition \<Rightarrow> int \<Rightarrow> int \<Rightarrow> bool" where
  "row_matches t state event \<longleftrightarrow>
     (t_state t = state \<or> t_state t = STATE_ANY) \<and> (t_event t = event \<or> t_event t = EVENT_ANY)"

text \<open>
  The handler part of a matching row: the machine afterwards, \<open>event_out\<close> and \<open>leave\<close>
  (\<open>retval\<close> is 0 when \<open>leave\<close> is set).
\<close>

definition sm_handle ::
  "'p statemachine \<Rightarrow> 'p transition \<Rightarrow> int \<Rightarrow> 'p statemachine \<times> int \<times> bool" where
  "sm_handle sm t event =
     (case t_handle t of
        None \<Rightarrow> (sm, t_event_out t, False)
      | Some handle \<Rightarrow>
          (let (rv, p) = handle (sm_p sm) (sm_state sm) event;
               sm = sm\<lparr>sm_p := p\<rparr>;
               event_out = (if hr_event rv = EVENT_DEFAULT then t_event_out t else hr_event rv)
           in if hr_state rv \<noteq> STATE_DEFAULT then
                (if hr_state rv \<noteq> STATE_KEEP then sm\<lparr>sm_state := hr_state rv\<rparr> else sm, event_out, True)
              else (sm, event_out, False)))"

text \<open>The switch: the machine afterwards and the value of \<open>retval\<close> when it jumps to \<open>out\<close>.\<close>

definition sm_emit :: "'p statemachine \<Rightarrow> int \<Rightarrow> 'p statemachine \<times> int option" where
  "sm_emit sm event_out =
     (if event_out = EVENT_BREAK then (sm, Some 0)
      else if event_out = EVENT_NONE then (sm, None)
      else
        (let sm = sm_log sm LOG_TRANSMIT (sm_state sm) event_out;
             (err, p) = sm_send_event sm (sm_p sm) event_out;
             sm = sm\<lparr>sm_p := p\<rparr>
         in if err \<noteq> 0 then (sm, Some err) else (sm, None)))"

text \<open>A matching row: \<open>Some retval\<close> for a jump to \<open>out\<close>, \<open>None\<close> for \<open>continue\<close>.\<close>

definition sm_row :: "'p statemachine \<Rightarrow> 'p transition \<Rightarrow> int \<Rightarrow> 'p statemachine \<times> int option" where
  "sm_row sm t event =
     (let (sm, event_out, leave) = sm_handle sm t event;
          (sm, done) = sm_emit sm event_out
      in case done of
           Some retval \<Rightarrow> (sm, Some retval)
         | None \<Rightarrow>
             if leave then (sm, Some 0)
             else if t_state_next t = STATE_CONTINUE then (sm, None)
             else (if t_state_next t \<noteq> STATE_KEEP then sm\<lparr>sm_state := t_state_next t\<rparr> else sm, Some 0))"

lemma sm_log_fields [simp]:
  "sm_num_rows (sm_log sm d s e) = sm_num_rows sm" "sm_table (sm_log sm d s e) = sm_table sm"
  "sm_state (sm_log sm d s e) = sm_state sm" "sm_lock (sm_log sm d s e) = sm_lock sm"
  "sm_send_event (sm_log sm d s e) = sm_send_event sm" "sm_log_event (sm_log sm d s e) = sm_log_event sm"
  by (simp_all add: sm_log_def split: option.splits)

text \<open>What no step of a run changes: everything but the private data and the state.\<close>

definition sm_frame :: "'p statemachine \<Rightarrow> 'p statemachine \<Rightarrow> bool" where
  "sm_frame sm sm' \<longleftrightarrow>
     sm_num_rows sm' = sm_num_rows sm \<and> sm_table sm' = sm_table sm \<and> sm_lock sm' = sm_lock sm \<and>
     sm_send_event sm' = sm_send_event sm \<and> sm_log_event sm' = sm_log_event sm"

lemma sm_frame_trans: "sm_frame a b \<Longrightarrow> sm_frame b c \<Longrightarrow> sm_frame a c"
  by (simp add: sm_frame_def)

lemma sm_emit_frame:
  assumes "sm_emit sm e = (sm', r)"
  shows "sm_frame sm sm'" "sm_state sm' = sm_state sm"
  using assms by (auto simp: sm_frame_def sm_emit_def Let_def split: if_splits prod.splits)

lemma sm_handle_frame:
  assumes "sm_handle sm t e = (sm', ev, l)"
  shows "sm_frame sm sm'" "\<not> l \<Longrightarrow> sm_state sm' = sm_state sm"
  using assms by (auto simp: sm_frame_def sm_handle_def Let_def split: if_splits prod.splits option.splits)

lemma sm_row_frame:
  assumes "sm_row sm t e = (sm', r)"
  shows "sm_frame sm sm'" "r = None \<Longrightarrow> sm_state sm' = sm_state sm"
proof -
  obtain sm1 ev l where h: "sm_handle sm t e = (sm1, ev, l)" by (metis prod_cases3)
  obtain sm2 d where m: "sm_emit sm1 ev = (sm2, d)" by (metis surj_pair)
  have "sm_frame sm sm2" using sm_handle_frame(1) [OF h] sm_emit_frame(1) [OF m] by (rule sm_frame_trans)
  with assms show "sm_frame sm sm'"
    by (auto simp: sm_row_def h m sm_frame_def split: option.splits if_splits)
  show "sm_state sm' = sm_state sm" if "r = None"
    using that assms sm_handle_frame(2) [OF h] sm_emit_frame(2) [OF m]
    by (auto simp: sm_row_def h m split: option.splits if_splits)
qed

text \<open>
  The loop over the rows. \<open>num_rows\<close> is what the caller passed; a row beyond the table is a
  read outside the array.
\<close>

function sm_loop :: "'p statemachine \<Rightarrow> int \<Rightarrow> int \<Rightarrow> int \<Rightarrow> ('p statemachine \<times> int) run" where
  "sm_loop sm state event i =
     (if i < sm_num_rows sm then
        run_bind (arr_get (sm_table sm) i) (\<lambda>t.
          if row_matches t state event then
            (case sm_row sm t event of
               (sm', Some retval) \<Rightarrow> Ret (sm', retval)
             | (sm', None) \<Rightarrow> sm_loop sm' state event (i + 1))
          else sm_loop sm state event (i + 1))
      else Ret (sm, - 1))"
  by pat_completeness auto
termination
  by (relation "measure (\<lambda>(sm, state, event, i). nat (sm_num_rows sm - i))")
     (auto simp: sm_frame_def dest!: sm_row_frame(1) [OF sym])

declare sm_loop.simps [simp del]

definition statemachine_run :: "'p statemachine \<Rightarrow> int \<Rightarrow> ('p statemachine \<times> int) run" where
  "statemachine_run sm event =
     (let sm = sm_LOCK sm;
          state = sm_state sm;
          sm = sm_log sm LOG_RECEIVE state event
      in run_map (\<lambda>(sm, retval). (sm_UNLOCK sm, retval)) (sm_loop sm state event 0))"

definition statemachine_get_state :: "'p statemachine \<Rightarrow> int" where
  "statemachine_get_state sm = sm_state sm"

definition statemachine_set_state :: "'p statemachine \<Rightarrow> int \<Rightarrow> 'p statemachine" where
  "statemachine_set_state sm state = sm_UNLOCK ((sm_LOCK sm)\<lparr>sm_state := state\<rparr>)"


section \<open>A run as a pass over a list of rows\<close>

fun run_rows :: "'p statemachine \<Rightarrow> int \<Rightarrow> int \<Rightarrow> 'p transition list \<Rightarrow> 'p statemachine \<times> int" where
  "run_rows sm state event [] = (sm, - 1)"
| "run_rows sm state event (t # ts) =
     (if row_matches t state event then
        (case sm_row sm t event of
           (sm', Some retval) \<Rightarrow> (sm', retval)
         | (sm', None) \<Rightarrow> run_rows sm' state event ts)
      else run_rows sm state event ts)"

definition sm_wf :: "'p statemachine \<Rightarrow> bool" where
  "sm_wf sm \<longleftrightarrow> 0 \<le> sm_num_rows sm \<and> sm_num_rows sm \<le> int (length (sm_table sm))"

definition sm_rows :: "'p statemachine \<Rightarrow> 'p transition list" where
  "sm_rows sm = take (nat (sm_num_rows sm)) (sm_table sm)"

lemma sm_loop_rows:
  "int (length xs) = i \<Longrightarrow> sm_wf sm \<Longrightarrow> sm_rows sm = xs @ ts \<Longrightarrow>
   sm_loop sm state event i = Ret (run_rows sm state event ts)"
proof (induction ts arbitrary: sm xs i)
  case Nil
  then have "\<not> i < sm_num_rows sm"
    by (metis append_Nil2 length_take min.absorb2 nat_int nat_le_iff not_less order_refl sm_rows_def sm_wf_def)
  then show ?case by (simp add: sm_loop.simps)
next
  case (Cons t ts)
  have "length (sm_rows sm) = nat (sm_num_rows sm)"
    using Cons.prems(2) by (auto simp: sm_rows_def sm_wf_def)
  with Cons.prems(1,3) have lt: "i < sm_num_rows sm" by simp
  have t: "arr_get (sm_table sm) i = Ret t"
  proof -
    have "sm_rows sm ! length xs = t" by (simp add: Cons.prems(3))
    moreover have "i < int (length (sm_table sm))" using lt Cons.prems(2) by (simp add: sm_wf_def)
    ultimately show ?thesis
      using Cons.prems(1) lt by (auto simp: arr_get_def sm_rows_def)
  qed
  have IH: "sm_loop sm' state event (i + 1) = Ret (run_rows sm' state event ts)" if "sm_frame sm sm'" for sm'
    using that Cons.prems Cons.IH [of "xs @ [t]" "i + 1" sm'] by (simp add: sm_frame_def sm_wf_def sm_rows_def)
  have refl: "sm_frame sm sm" by (simp add: sm_frame_def)
  obtain sm1 d where row: "sm_row sm t event = (sm1, d)" by (metis surj_pair)
  show ?case
    using lt t row IH [OF refl] IH [OF sm_row_frame(1) [OF row]]
    by (simp add: sm_loop.simps [of sm] split: option.split)
qed

definition sm_start :: "'p statemachine \<Rightarrow> int \<Rightarrow> 'p statemachine" where
  "sm_start sm event = sm_log (sm_LOCK sm) LOG_RECEIVE (sm_state sm) event"

lemma sm_start_fields [simp]:
  "sm_state (sm_start sm e) = sm_state sm" "sm_table (sm_start sm e) = sm_table sm"
  "sm_num_rows (sm_start sm e) = sm_num_rows sm" "sm_send_event (sm_start sm e) = sm_send_event sm"
  "sm_log_event (sm_start sm e) = sm_log_event sm" "sm_lock (sm_start sm e) = Suc (sm_lock sm)"
  by (simp_all add: sm_start_def sm_LOCK_def)

lemma run_as_rows:
  assumes "sm_wf sm"
  shows "statemachine_run sm event =
    Ret (let (sm', r) = run_rows (sm_start sm event) (sm_state sm) event (sm_rows sm) in (sm_UNLOCK sm', r))"
proof -
  have "sm_loop (sm_start sm event) (sm_state sm) event 0 =
      Ret (run_rows (sm_start sm event) (sm_state sm) event (sm_rows sm))"
    using assms by (intro sm_loop_rows [of "[]"]) (auto simp: sm_wf_def sm_rows_def)
  then show ?thesis
    by (simp add: statemachine_run_def sm_start_def sm_LOCK_def Let_def split: prod.split)
qed

lemma run_rows_frame: "run_rows sm state event ts = (sm', r) \<Longrightarrow> sm_frame sm sm'"
proof (induction ts arbitrary: sm)
  case (Cons t ts)
  obtain sm1 d where row: "sm_row sm t event = (sm1, d)" by (metis surj_pair)
  note fr = sm_row_frame(1) [OF row]
  from Cons.prems Cons.IH [of sm] Cons.IH [of sm1] row fr show ?case
    by (auto split: if_splits option.splits intro: sm_frame_trans)
qed (simp add: sm_frame_def)

lemma sm_unlock_frame:
  "sm_frame (sm_start sm e) sm' \<Longrightarrow> sm_frame sm (sm_UNLOCK sm')"
  by (simp add: sm_frame_def sm_UNLOCK_def)


section \<open>The states a machine can reach\<close>

text \<open>
  A table is closed in a set of states when its rows lead into the set (or continue, or keep the
  state), and its handlers return states of the set, the default or "keep".
\<close>

definition row_closed :: "int set \<Rightarrow> 'p transition \<Rightarrow> bool" where
  "row_closed S t \<longleftrightarrow>
     t_state_next t \<in> S \<union> {STATE_CONTINUE, STATE_KEEP} \<and>
     pred_option (\<lambda>h. \<forall>p s e. hr_state (fst (h p s e)) \<in> S \<union> {STATE_DEFAULT, STATE_KEEP}) (t_handle t)"

inductive sm_reach :: "int set \<Rightarrow> 'p statemachine \<Rightarrow> 'p statemachine \<Rightarrow> bool" for S sm0 where
  reach_start: "sm_reach S sm0 sm0"
| reach_run: "sm_reach S sm0 sm \<Longrightarrow> statemachine_run sm event = Ret (sm', r) \<Longrightarrow> sm_reach S sm0 sm'"
| reach_set: "sm_reach S sm0 sm \<Longrightarrow> s \<in> S \<Longrightarrow> sm_reach S sm0 (statemachine_set_state sm s)"

lemma sm_handle_closed:
  assumes "sm_handle sm t event = (sm', ev, l)" "row_closed S t" "sm_state sm \<in> S"
  shows "sm_state sm' \<in> S"
proof (cases "t_handle t")
  case None
  with assms show ?thesis by (simp add: sm_handle_def)
next
  case (Some h)
  obtain rv p where h: "h (sm_p sm) (sm_state sm) event = (rv, p)" by (metis surj_pair)
  have "hr_state (fst (h (sm_p sm) (sm_state sm) event)) \<in> S \<union> {STATE_DEFAULT, STATE_KEEP}"
    using assms(2) Some unfolding row_closed_def by simp
  then have "hr_state rv \<in> S \<union> {STATE_DEFAULT, STATE_KEEP}" using h by simp
  with assms Some h show ?thesis by (auto simp: sm_handle_def Let_def split: if_splits)
qed

lemma sm_row_closed:
  assumes "sm_row sm t event = (sm', r)" "row_closed S t" "sm_state sm \<in> S"
  shows "sm_state sm' \<in> S"
proof -
  obtain sm1 ev l where h: "sm_handle sm t event = (sm1, ev, l)" by (metis prod_cases3)
  obtain sm2 d where m: "sm_emit sm1 ev = (sm2, d)" by (metis surj_pair)
  have "sm_state sm2 \<in> S"
    using sm_handle_closed [OF h assms(2,3)] sm_emit_frame(2) [OF m] by simp
  with assms(1,2) show ?thesis
    by (auto simp: sm_row_def h m row_closed_def split: option.splits if_splits)
qed

lemma run_rows_closed:
  "run_rows sm state event ts = (sm', r) \<Longrightarrow> \<forall>t \<in> set ts. row_closed S t \<Longrightarrow> sm_state sm \<in> S \<Longrightarrow>
   sm_state sm' \<in> S"
proof (induction ts arbitrary: sm)
  case (Cons t ts)
  obtain sm1 d where row: "sm_row sm t event = (sm1, d)" by (metis surj_pair)
  with Cons.prems have "sm_state sm1 \<in> S" by (auto intro: sm_row_closed)
  with Cons.prems Cons.IH [of sm] Cons.IH [of sm1] row show ?case
    by (auto split: if_splits option.splits)
qed simp

lemma sm_rows_subset: "set (sm_rows sm) \<subseteq> set (sm_table sm)"
  by (auto simp: sm_rows_def dest: in_set_takeD)

lemma reach_invariant:
  assumes "sm_reach S sm0 sm" "sm_wf sm0" "\<forall>t \<in> set (sm_table sm0). row_closed S t" "sm_state sm0 \<in> S"
  shows "sm_frame sm0 sm \<and> sm_state sm \<in> S"
  using assms(1)
proof (induction rule: sm_reach.induct)
  case reach_start
  show ?case using assms(4) by (simp add: sm_frame_def)
next
  case (reach_run sm event sm' r)
  then have fr: "sm_frame sm0 sm" and st: "sm_state sm \<in> S" by auto
  then have wf: "sm_wf sm" using assms(2) by (simp add: sm_frame_def sm_wf_def)
  obtain sm1 where rows: "run_rows (sm_start sm event) (sm_state sm) event (sm_rows sm) = (sm1, r)"
    and sm': "sm' = sm_UNLOCK sm1"
    using reach_run.hyps(2) run_as_rows [OF wf, of event] by (auto split: prod.splits)
  have "\<forall>t \<in> set (sm_rows sm). row_closed S t"
    using assms(3) fr sm_rows_subset [of sm] by (auto simp: sm_frame_def)
  then have "sm_state sm1 \<in> S" using run_rows_closed [OF rows] st by simp
  moreover have "sm_frame sm sm'"
    unfolding sm' by (rule sm_unlock_frame) (rule run_rows_frame [OF rows])
  ultimately show ?case
    using fr sm' by (auto simp: sm_UNLOCK_def intro: sm_frame_trans)
next
  case (reach_set sm s)
  then show ?case by (simp add: sm_frame_def statemachine_set_state_def sm_LOCK_def sm_UNLOCK_def)
qed


section \<open>Properties\<close>

text \<open>
  A machine whose row count fits its table handles every event to the end: the run returns,
  whatever the callbacks do, and gives back the lock and leaves the table and the callbacks alone.
\<close>

theorem statemachine_run_returns:
  assumes "0 \<le> sm_num_rows sm" "sm_num_rows sm \<le> int (length (sm_table sm))"
  shows "\<exists>sm' r. statemachine_run sm event = Ret (sm', r) \<and> sm_frame sm sm'"
proof -
  obtain sm1 r where rows: "run_rows (sm_start sm event) (sm_state sm) event (sm_rows sm) = (sm1, r)"
    by (metis surj_pair)
  have "sm_frame sm (sm_UNLOCK sm1)"
    by (rule sm_unlock_frame) (rule run_rows_frame [OF rows])
  with rows assms show ?thesis by (simp add: run_as_rows sm_wf_def)
qed

theorem statemachine_run_returns_witness:
  "\<exists>sm' r. statemachine_run
     \<lparr>sm_lock = 0, sm_p = (), sm_state = 1,
      sm_table = [\<lparr>t_state = 1, t_event = EVENT_ANY, t_state_next = 2, t_event_out = 5, t_handle = None\<rparr>],
      sm_num_rows = 1, sm_send_event = (\<lambda>p e. (0, p)), sm_log_event = None\<rparr> 7 = Ret (sm', r) \<and>
     sm_frame
     \<lparr>sm_lock = 0, sm_p = (), sm_state = 1,
      sm_table = [\<lparr>t_state = 1, t_event = EVENT_ANY, t_state_next = 2, t_event_out = 5, t_handle = None\<rparr>],
      sm_num_rows = 1, sm_send_event = (\<lambda>p e. (0, p)), sm_log_event = None\<rparr> sm'"
  by (rule statemachine_run_returns) simp_all

text \<open>
  An event that no row of the table handles in the current state is reported with -1 and
  changes neither the state nor anything else; only the log callback, if there is one, sees it.
\<close>

theorem statemachine_run_unmatched:
  assumes "sm_wf sm" "\<forall>t \<in> set (sm_rows sm). \<not> row_matches t (sm_state sm) event"
  shows "statemachine_run sm event = Ret (sm_log sm LOG_RECEIVE (sm_state sm) event, - 1)"
proof -
  have "\<forall>t \<in> set ts. \<not> row_matches t state event \<Longrightarrow> run_rows s state event ts = (s, - 1)" for ts s state
    by (induction ts) auto
  with assms(2) have "run_rows (sm_start sm event) (sm_state sm) event (sm_rows sm) = (sm_start sm event, - 1)"
    by blast
  with assms(1) show ?thesis
    by (simp add: run_as_rows) (simp add: sm_start_def sm_UNLOCK_def sm_LOCK_def sm_log_def split: option.split)
qed

theorem statemachine_run_unmatched_witness:
  "statemachine_run
     \<lparr>sm_lock = 0, sm_p = [], sm_state = 1,
      sm_table = [\<lparr>t_state = 3, t_event = EVENT_ANY, t_state_next = 2, t_event_out = 5, t_handle = None\<rparr>],
      sm_num_rows = 1, sm_send_event = (\<lambda>p e. (0, p)), sm_log_event = Some (\<lambda>p d s e. p @ [(d, s, e)])\<rparr> 7
   = Ret
     (\<lparr>sm_lock = 0, sm_p = [(0, 1, 7)], sm_state = 1,
      sm_table = [\<lparr>t_state = 3, t_event = EVENT_ANY, t_state_next = 2, t_event_out = 5, t_handle = None\<rparr>],
      sm_num_rows = 1, sm_send_event = (\<lambda>p e. (0, p)), sm_log_event = Some (\<lambda>p d s e. p @ [(d, s, e)])\<rparr>, - 1)"
  by (subst statemachine_run_unmatched) (simp_all add: sm_wf_def sm_rows_def row_matches_def sm_log_def sm_consts)

text \<open>
  C24. The states of a machine: when the rows and handlers of its table stay in a set of states,
  then after any sequence of events and of assignments of states of the set, the machine is in a
  state of the set (never in one of the markers "default", "continue" and "keep" unless the set has
  them), holds its lock as often as at the start and has the same table.
\<close>

theorem statemachine_states_closed:
  assumes "sm_reach S sm0 sm" "sm_wf sm0" "\<forall>t \<in> set (sm_table sm0). row_closed S t" "sm_state sm0 \<in> S"
  shows "statemachine_get_state sm \<in> S \<and> sm_lock sm = sm_lock sm0 \<and> sm_table sm = sm_table sm0"
  using reach_invariant [OF assms] by (simp add: statemachine_get_state_def sm_frame_def)

theorem statemachine_states_closed_witness:
  "statemachine_get_state (statemachine_set_state
     \<lparr>sm_lock = 0, sm_p = (), sm_state = 1,
      sm_table = [\<lparr>t_state = 1, t_event = EVENT_ANY, t_state_next = 2, t_event_out = 5,
                   t_handle = Some (\<lambda>p s e. (RE_DEFAULT, p))\<rparr>],
      sm_num_rows = 1, sm_send_event = (\<lambda>p e. (0, p)), sm_log_event = None\<rparr> 2) \<in> {1, 2}"
proof -
  let ?sm = "\<lparr>sm_lock = 0, sm_p = (), sm_state = 1,
      sm_table = [\<lparr>t_state = 1, t_event = EVENT_ANY, t_state_next = 2, t_event_out = 5,
                   t_handle = Some (\<lambda>p s e. (RE_DEFAULT, p))\<rparr>],
      sm_num_rows = 1, sm_send_event = (\<lambda>p e. (0, p)), sm_log_event = None\<rparr>"
  have "sm_reach {1, 2} ?sm (statemachine_set_state ?sm 2)"
    by (intro reach_set reach_start) simp
  then show ?thesis
    by (rule conjunct1 [OF statemachine_states_closed])
       (simp_all add: sm_wf_def row_closed_def RE_DEFAULT_def RE_STATE_EVENT_def)
qed


subsection \<open>Tables without handlers are Mealy machines\<close>

text \<open>
  The specification: of the rows that match, those up to the first one that does not ask to
  continue (or that breaks) are taken; their output events are sent in order, and that row gives
  the next state.
\<close>

definition row_continues :: "'p transition \<Rightarrow> bool" where
  "row_continues t \<longleftrightarrow> t_state_next t = STATE_CONTINUE \<and> t_event_out t \<noteq> EVENT_BREAK"

definition row_sends :: "'p transition \<Rightarrow> int list" where
  "row_sends t = (if t_event_out t \<in> {EVENT_NONE, EVENT_BREAK} then [] else [t_event_out t])"

definition row_target :: "'p transition \<Rightarrow> int \<Rightarrow> int" where
  "row_target t state =
     (if t_event_out t = EVENT_BREAK \<or> t_state_next t = STATE_KEEP then state else t_state_next t)"

definition mealy_step :: "'p transition list \<Rightarrow> int \<Rightarrow> int \<Rightarrow> int \<times> int list \<times> int" where
  "mealy_step table state event =
     (let ms = filter (\<lambda>t. row_matches t state event) table;
          sent = concat (map row_sends (takeWhile row_continues ms))
      in case dropWhile row_continues ms of
           [] \<Rightarrow> (state, sent, - 1)
         | t # _ \<Rightarrow> (row_target t state, sent @ row_sends t, 0))"

definition recorder :: "int list \<Rightarrow> int \<Rightarrow> int \<times> int list" where
  "recorder p event = (0, p @ [event])"

lemma sm_row_plain:
  assumes "t_handle t = None" "sm_send_event sm = recorder" "sm_log_event sm = None"
  shows "sm_row sm t event =
    (sm\<lparr>sm_p := sm_p sm @ row_sends t, sm_state := if row_continues t then sm_state sm else row_target t (sm_state sm)\<rparr>,
     if row_continues t then None else Some 0)"
  using assms
  by (auto simp: sm_row_def sm_handle_def sm_emit_def row_sends_def row_target_def row_continues_def
      recorder_def sm_log_def sm_consts Let_def)

lemma run_rows_mealy:
  assumes "\<forall>t \<in> set ts. t_handle t = None" "sm_send_event sm = recorder" "sm_log_event sm = None"
    and "sm_state sm = state"
  shows "run_rows sm state event ts =
    (let (s, sent, r) = mealy_step ts state event in (sm\<lparr>sm_p := sm_p sm @ sent, sm_state := s\<rparr>, r))"
  using assms
proof (induction ts arbitrary: sm)
  case Nil
  then show ?case by (simp add: mealy_step_def)
next
  case (Cons t ts)
  note row = sm_row_plain [of t sm event]
  let ?sm = "sm\<lparr>sm_p := sm_p sm @ row_sends t\<rparr>"
  have IH: "run_rows ?sm state event ts =
    (let (s, sent, r) = mealy_step ts state event in (?sm\<lparr>sm_p := sm_p ?sm @ sent, sm_state := s\<rparr>, r))"
    using Cons.prems by (intro Cons.IH) auto
  show ?case
  proof (cases "row_matches t state event \<and> row_continues t")
    case True
    then have "mealy_step (t # ts) state event =
        (let (s, sent, r) = mealy_step ts state event in (s, row_sends t @ sent, r))"
      by (cases "dropWhile row_continues (filter (\<lambda>t. row_matches t state event) ts)")
         (simp_all add: mealy_step_def Let_def del: dropWhile_eq_Nil_conv)
    moreover have "sm_row sm t event = (?sm, None)"
      using True row Cons.prems by (cases sm) simp
    ultimately show ?thesis
      using True IH by (simp split: prod.splits)
  next
    case False
    with Cons row show ?thesis by (auto simp: mealy_step_def Let_def)
  qed
qed

text \<open>
  C23. On a table without handlers, with callbacks that never fail, the machine implements the
  specification: it sends the output events of the rows taken, in the order of the table, moves to
  the state of the first row that does not continue, and reports 0, or -1 when there is none.
\<close>

theorem statemachine_run_refines_mealy:
  assumes "sm_wf sm" "\<forall>t \<in> set (sm_table sm). t_handle t = None"
    and "sm_send_event sm = recorder" "sm_log_event sm = None"
  shows "statemachine_run sm event =
    Ret (let (s, sent, r) = mealy_step (sm_rows sm) (sm_state sm) event
         in (sm\<lparr>sm_p := sm_p sm @ sent, sm_state := s\<rparr>, r))"
proof -
  have "\<forall>t \<in> set (sm_rows sm). t_handle t = None" using assms(2) sm_rows_subset [of sm] by blast
  then have "run_rows (sm_start sm event) (sm_state sm) event (sm_rows sm) =
      (let (s, sent, r) = mealy_step (sm_rows sm) (sm_state sm) event
       in ((sm_start sm event)\<lparr>sm_p := sm_p (sm_start sm event) @ sent, sm_state := s\<rparr>, r))"
    using assms by (intro run_rows_mealy) auto
  moreover have "sm_start sm event = sm_LOCK sm" using assms(4) by (simp add: sm_start_def sm_log_def sm_LOCK_def)
  ultimately show ?thesis
    using assms(1) by (simp add: run_as_rows sm_UNLOCK_def sm_LOCK_def split: prod.split)
qed

theorem statemachine_run_refines_mealy_witness:
  "statemachine_run
     \<lparr>sm_lock = 0, sm_p = [], sm_state = 1,
      sm_table = [\<lparr>t_state = STATE_ANY, t_event = 7, t_state_next = STATE_CONTINUE, t_event_out = 4, t_handle = None\<rparr>,
                  \<lparr>t_state = 1, t_event = EVENT_ANY, t_state_next = 2, t_event_out = 5, t_handle = None\<rparr>],
      sm_num_rows = 2, sm_send_event = recorder, sm_log_event = None\<rparr> 7
   = Ret
     (\<lparr>sm_lock = 0, sm_p = [4, 5], sm_state = 2,
      sm_table = [\<lparr>t_state = STATE_ANY, t_event = 7, t_state_next = STATE_CONTINUE, t_event_out = 4, t_handle = None\<rparr>,
                  \<lparr>t_state = 1, t_event = EVENT_ANY, t_state_next = 2, t_event_out = 5, t_handle = None\<rparr>],
      sm_num_rows = 2, sm_send_event = recorder, sm_log_event = None\<rparr>, 0)"
  by (subst statemachine_run_refines_mealy)
     (simp_all add: sm_wf_def sm_rows_def row_matches_def mealy_step_def row_continues_def row_sends_def
       row_target_def sm_consts)

text \<open>
  When sending an event fails, the run reports the error of the callback and the row's next
  state is not taken: the machine stays in its state, ready for the event to be repeated.
\<close>

theorem statemachine_send_error_keeps_state:
  assumes "sm_wf sm" "sm_rows sm = pre @ t # post"
    and "\<forall>u \<in> set pre. \<not> row_matches u (sm_state sm) event" "row_matches t (sm_state sm) event"
    and "t_handle t = None" "t_event_out t \<noteq> EVENT_NONE" "t_event_out t \<noteq> EVENT_BREAK"
    and "\<forall>p. fst (sm_send_event sm p (t_event_out t)) = err" "err \<noteq> 0"
  shows "\<exists>p. statemachine_run sm event = Ret (sm\<lparr>sm_p := p\<rparr>, err)"
proof -
  have skip: "\<forall>u \<in> set us. \<not> row_matches u state event \<Longrightarrow>
      run_rows s state event (us @ vs) = run_rows s state event vs" for us vs s state
    by (induction us) auto
  obtain q where q: "sm_send_event sm (sm_p (sm_log (sm_start sm event) LOG_TRANSMIT (sm_state sm) (t_event_out t)))
      (t_event_out t) = (err, q)"
    using assms(8) by (metis prod.collapse)
  then have "sm_row (sm_start sm event) t event =
      ((sm_log (sm_start sm event) LOG_TRANSMIT (sm_state sm) (t_event_out t))\<lparr>sm_p := q\<rparr>, Some err)"
    using assms(5-9) by (simp add: sm_row_def sm_handle_def sm_emit_def Let_def)
  then have "run_rows (sm_start sm event) (sm_state sm) event (sm_rows sm) =
      ((sm_log (sm_start sm event) LOG_TRANSMIT (sm_state sm) (t_event_out t))\<lparr>sm_p := q\<rparr>, err)"
    using assms(2-4) by (simp add: skip)
  then show ?thesis
    using assms(1)
    by (auto simp: run_as_rows sm_UNLOCK_def sm_LOCK_def sm_start_def sm_log_def split: option.split)
qed

theorem statemachine_send_error_keeps_state_witness:
  "\<exists>p. statemachine_run
     \<lparr>sm_lock = 0, sm_p = (), sm_state = 1,
      sm_table = [\<lparr>t_state = 1, t_event = EVENT_ANY, t_state_next = 2, t_event_out = 5, t_handle = None\<rparr>],
      sm_num_rows = 1, sm_send_event = (\<lambda>p e. (3, p)), sm_log_event = None\<rparr> 7
   = Ret (\<lparr>sm_lock = 0, sm_p = (), sm_state = 1,
      sm_table = [\<lparr>t_state = 1, t_event = EVENT_ANY, t_state_next = 2, t_event_out = 5, t_handle = None\<rparr>],
      sm_num_rows = 1, sm_send_event = (\<lambda>p e. (3, p)), sm_log_event = None\<rparr>\<lparr>sm_p := p\<rparr>, 3)"
  by (rule statemachine_send_error_keeps_state [where pre = "[]" and post = "[]"
        and t = "\<lparr>t_state = 1, t_event = EVENT_ANY, t_state_next = 2, t_event_out = 5, t_handle = None\<rparr>"])
     (simp_all add: sm_wf_def sm_rows_def row_matches_def sm_consts)

end
