(* ===== verification/Csel.thy ===== *)
theory Csel
  imports Prelude
begin

text \<open>
  Channel selection (\<open>chan_gsm/compat/res_csel.c\<close>): a pool of channels, and strategies that
  pick the next one that can be occupied.

  The channel driver's callbacks are arguments: \<open>occupy\<close> tries to occupy a channel and returns
  NULL (\<open>None\<close>) or a pointer; it reads and changes the driver's state \<open>'w\<close>. \<open>free\<close> is
  called with a pointer, which is one of the added channels or, on one path, the selection
  structure itself. \<open>random\<close> is the C library's generator on its own state, a number; its values are
  not negative. The structure is a value, and its strategy an index into the table
  \<open>strategies\<close>, as the pointer \<open>m\<close> is.
\<close>

declare run_bind_cong [fundef_cong]


section \<open>Structures\<close>

type_synonym seed = nat

record 'a standard_data =
  sd_size :: int
  sd_arr :: "'a list"

record 'a rand_data =
  rd_size :: int
  rd_arr :: "'a list"

record 'a rr_data =
  rr_size :: int
  rr_curr :: int
  rr_arr :: "'a list"

datatype 'a csel_data = SD "'a standard_data" | RD "'a rand_data" | RR "'a rr_data"

datatype 'a csel_ptr = Priv 'a | Csel_struct

record ('a, 'r, 'w) csel =
  cs_lock :: nat
  cs_occupy :: "'a \<Rightarrow> 'w \<Rightarrow> 'r option \<times> 'w"
  cs_free :: "('a csel_ptr \<Rightarrow> 'w \<Rightarrow> 'w) option"
  cs_m :: nat
  cs_data :: "'a csel_data option"

text \<open>
  \<open>realloc\<close> to \<open>n\<close> elements keeps the old ones; the content of new ones is not defined (here:
  \<open>x\<close>, which the caller overwrites).
\<close>

definition realloc_arr :: "'a list \<Rightarrow> nat \<Rightarrow> 'a \<Rightarrow> 'a list" where
  "realloc_arr arr n x = take n arr @ replicate (n - length arr) x"

text \<open>
  The loop that frees the channels, which the three \<open>destroy\<close> functions share; \<open>arr\<close> is NULL
  while nothing was added.
\<close>

fun free_arr :: "('a csel_ptr \<Rightarrow> 'w \<Rightarrow> 'w) option \<Rightarrow> int \<Rightarrow> 'a list \<Rightarrow> 'w \<Rightarrow> 'w" where
  "free_arr free sz [] w = w"
| "free_arr None sz (a # arr) w = w"
| "free_arr (Some f) sz (a # arr) w =
     (if 0 < sz then free_arr (Some f) (sz - 1) arr (f (Priv a) w) else w)"


section \<open>The standard strategy\<close>

definition standard_init :: "bool \<Rightarrow> ('a, 'r, 'w) csel \<Rightarrow> ('a, 'r, 'w) csel \<times> int" where
  "standard_init calloc_ok cs =
     (if calloc_ok then (cs\<lparr>cs_data := Some (SD \<lparr>sd_size = 0, sd_arr = []\<rparr>)\<rparr>, 0)
      else (cs\<lparr>cs_data := None\<rparr>, 1))"

definition standard_destroy :: "('a, 'r, 'w) csel \<Rightarrow> 'w \<Rightarrow> 'w" where
  "standard_destroy cs w =
     (case cs_data cs of
        Some (SD data) \<Rightarrow> free_arr (cs_free cs) (sd_size data) (sd_arr data) w
      | _ \<Rightarrow> w)"

definition standard_add :: "bool \<Rightarrow> ('a, 'r, 'w) csel \<Rightarrow> 'a \<Rightarrow> (('a, 'r, 'w) csel \<times> int) run" where
  "standard_add realloc_ok cs priv =
     (case cs_data cs of
        Some (SD data) \<Rightarrow>
          (let sz = sd_size data + 1 in
           if realloc_ok then
             run_map (\<lambda>arr. (cs\<lparr>cs_data := Some (SD \<lparr>sd_size = sz, sd_arr = arr\<rparr>)\<rparr>, 0))
               (arr_set (realloc_arr (sd_arr data) (nat sz) priv) (sz - 1) priv)
           else Fault)
      | _ \<Rightarrow> Fault)"

function standard_loop ::
  "('a \<Rightarrow> 'w \<Rightarrow> 'r option \<times> 'w) \<Rightarrow> 'a standard_data \<Rightarrow> int \<Rightarrow> 'w \<Rightarrow> ('r option \<times> 'w) run" where
  "standard_loop occupy data i w =
     (if i < sd_size data then
        run_bind (arr_get (sd_arr data) i) (\<lambda>a.
          case occupy a w of
            (Some p, w) \<Rightarrow> Ret (Some p, w)
          | (None, w) \<Rightarrow> standard_loop occupy data (i + 1) w)
      else Ret (None, w))"
  by pat_completeness auto
termination
  by (relation "measure (\<lambda>(occupy, data, i, w). nat (sd_size data - i))") auto

declare standard_loop.simps [simp del]

definition standard_get_next ::
  "(seed \<Rightarrow> nat \<times> seed) \<Rightarrow> ('a, 'r, 'w) csel \<Rightarrow> seed \<Rightarrow> 'w \<Rightarrow> ('r option \<times> ('a, 'r, 'w) csel \<times> seed \<times> 'w) run" where
  "standard_get_next random cs s w =
     (case cs_data cs of
        Some (SD data) \<Rightarrow> run_map (\<lambda>(p, w). (p, cs, s, w)) (standard_loop (cs_occupy cs) data 0 w)
      | _ \<Rightarrow> Fault)"


section \<open>The random strategy\<close>

definition rand_init :: "bool \<Rightarrow> ('a, 'r, 'w) csel \<Rightarrow> ('a, 'r, 'w) csel \<times> int" where
  "rand_init calloc_ok cs =
     (if calloc_ok then (cs\<lparr>cs_data := Some (RD \<lparr>rd_size = 0, rd_arr = []\<rparr>)\<rparr>, 0)
      else (cs\<lparr>cs_data := None\<rparr>, 1))"

definition rand_destroy :: "('a, 'r, 'w) csel \<Rightarrow> 'w \<Rightarrow> 'w" where
  "rand_destroy cs w =
     (case cs_data cs of
        Some (RD data) \<Rightarrow> free_arr (cs_free cs) (rd_size data) (rd_arr data) w
      | _ \<Rightarrow> w)"

definition rand_add :: "bool \<Rightarrow> ('a, 'r, 'w) csel \<Rightarrow> 'a \<Rightarrow> (('a, 'r, 'w) csel \<times> int) run" where
  "rand_add realloc_ok cs priv =
     (case cs_data cs of
        Some (RD data) \<Rightarrow>
          (let sz = rd_size data + 1 in
           if realloc_ok then
             run_map (\<lambda>arr. (cs\<lparr>cs_data := Some (RD \<lparr>rd_size = sz, rd_arr = arr\<rparr>)\<rparr>, 0))
               (arr_set (realloc_arr (rd_arr data) (nat sz) priv) (sz - 1) priv)
           else Fault)
      | _ \<Rightarrow> Fault)"

text \<open>The loop, with the number of channels that remain (\<open>i\<close>) as its argument.\<close>

fun rand_loop ::
  "(seed \<Rightarrow> nat \<times> seed) \<Rightarrow> ('a \<Rightarrow> 'w \<Rightarrow> 'r option \<times> 'w) \<Rightarrow> nat \<Rightarrow> 'a list \<Rightarrow> seed \<Rightarrow> 'w \<Rightarrow>
   ('r option \<times> 'a list \<times> seed \<times> 'w) run" where
  "rand_loop random occupy 0 arr s w = Ret (None, arr, s, w)"
| "rand_loop random occupy (Suc k) arr s w =
     (let (r, s) = random s;
          pos = int r mod int (Suc k)
      in run_bind (arr_get arr pos) (\<lambda>a.
           case occupy a w of
             (Some p, w) \<Rightarrow> Ret (Some p, arr, s, w)
           | (None, w) \<Rightarrow>
               run_bind (arr_get arr (int k)) (\<lambda>p.
               run_bind (arr_set arr (int k) a) (\<lambda>arr.
               run_bind (arr_set arr pos p) (\<lambda>arr.
                 rand_loop random occupy k arr s w)))))"

definition rand_get_next ::
  "(seed \<Rightarrow> nat \<times> seed) \<Rightarrow> ('a, 'r, 'w) csel \<Rightarrow> seed \<Rightarrow> 'w \<Rightarrow> ('r option \<times> ('a, 'r, 'w) csel \<times> seed \<times> 'w) run" where
  "rand_get_next random cs s w =
     (case cs_data cs of
        Some (RD data) \<Rightarrow>
          run_map (\<lambda>(p, arr, s, w). (p, cs\<lparr>cs_data := Some (RD (data\<lparr>rd_arr := arr\<rparr>))\<rparr>, s, w))
            (rand_loop random (cs_occupy cs) (nat (rd_size data)) (rd_arr data) s w)
      | _ \<Rightarrow> Fault)"


section \<open>The round robin strategy\<close>

definition rr_init :: "bool \<Rightarrow> ('a, 'r, 'w) csel \<Rightarrow> ('a, 'r, 'w) csel \<times> int" where
  "rr_init calloc_ok cs =
     (if calloc_ok then (cs\<lparr>cs_data := Some (RR \<lparr>rr_size = 0, rr_curr = 0, rr_arr = []\<rparr>)\<rparr>, 0)
      else (cs\<lparr>cs_data := None\<rparr>, 1))"

definition rr_destroy :: "('a, 'r, 'w) csel \<Rightarrow> 'w \<Rightarrow> 'w" where
  "rr_destroy cs w =
     (case cs_data cs of
        Some (RR data) \<Rightarrow> free_arr (cs_free cs) (rr_size data) (rr_arr data) w
      | _ \<Rightarrow> w)"

definition rr_add :: "bool \<Rightarrow> ('a, 'r, 'w) csel \<Rightarrow> 'a \<Rightarrow> (('a, 'r, 'w) csel \<times> int) run" where
  "rr_add realloc_ok cs priv =
     (case cs_data cs of
        Some (RR data) \<Rightarrow>
          (let sz = rr_size data + 1 in
           if realloc_ok then
             run_map (\<lambda>arr. (cs\<lparr>cs_data := Some (RR (data\<lparr>rr_size := sz, rr_arr := arr\<rparr>))\<rparr>, 0))
               (arr_set (realloc_arr (rr_arr data) (nat sz) priv) (sz - 1) priv)
           else Fault)
      | _ \<Rightarrow> Fault)"

text \<open>The \<open>do ... while\<close>; the result is the channel's pointer and its index.\<close>

fun rr_loop ::
  "nat \<Rightarrow> ('a \<Rightarrow> 'w \<Rightarrow> 'r option \<times> 'w) \<Rightarrow> int \<Rightarrow> 'a list \<Rightarrow> int \<Rightarrow> int \<Rightarrow> 'w \<Rightarrow>
   (('r \<times> int) option \<times> 'w) run" where
  "rr_loop 0 occupy sz arr begin i w = Hang"
| "rr_loop (Suc fuel) occupy sz arr begin i w =
     run_bind (arr_get arr i) (\<lambda>a.
       case occupy a w of
         (Some p, w) \<Rightarrow> Ret (Some (p, i), w)
       | (None, w) \<Rightarrow>
           (let i = (i + 1) mod sz in
            if i \<noteq> begin then rr_loop fuel occupy sz arr begin i w else Ret (None, w)))"

text \<open>\<open>(curr + 1) % sz\<close> with no channel added is a division by zero.\<close>

definition rr_get_next ::
  "(seed \<Rightarrow> nat \<times> seed) \<Rightarrow> ('a, 'r, 'w) csel \<Rightarrow> seed \<Rightarrow> 'w \<Rightarrow> ('r option \<times> ('a, 'r, 'w) csel \<times> seed \<times> 'w) run" where
  "rr_get_next random cs s w =
     (case cs_data cs of
        Some (RR data) \<Rightarrow>
          if rr_size data = 0 then Fault
          else
            (let begin = (rr_curr data + 1) mod rr_size data in
             run_map (\<lambda>(r, w). case r of
                 Some (p, i) \<Rightarrow> (Some p, cs\<lparr>cs_data := Some (RR (data\<lparr>rr_curr := i\<rparr>))\<rparr>, s, w)
               | None \<Rightarrow> (None, cs, s, w))
               (rr_loop (nat (rr_size data)) (cs_occupy cs) (rr_size data) (rr_arr data) begin begin w))
      | _ \<Rightarrow> Fault)"


section \<open>The table of strategies\<close>

record ('a, 'r, 'w) strategy =
  st_name :: string
  st_desc :: string
  st_desc_params :: "string option"
  st_init :: "bool \<Rightarrow> ('a, 'r, 'w) csel \<Rightarrow> ('a, 'r, 'w) csel \<times> int"
  st_destroy :: "('a, 'r, 'w) csel \<Rightarrow> 'w \<Rightarrow> 'w"
  st_add :: "bool \<Rightarrow> ('a, 'r, 'w) csel \<Rightarrow> 'a \<Rightarrow> (('a, 'r, 'w) csel \<times> int) run"
  st_get_next :: "(seed \<Rightarrow> nat \<times> seed) \<Rightarrow> ('a, 'r, 'w) csel \<Rightarrow> seed \<Rightarrow> 'w \<Rightarrow>
    ('r option \<times> ('a, 'r, 'w) csel \<times> seed \<times> 'w) run"
  st_call :: "(('a, 'r, 'w) csel \<Rightarrow> 'a \<Rightarrow> string \<Rightarrow> ('a, 'r, 'w) csel) option"
  st_hangup :: "(('a, 'r, 'w) csel \<Rightarrow> 'a \<Rightarrow> string \<Rightarrow> ('a, 'r, 'w) csel) option"

definition strategies :: "('a, 'r, 'w) strategy list" where
  "strategies =
    [\<lparr>st_name = ''standard'', st_desc = ''Select the first free channel. This is the default.'',
      st_desc_params = None, st_init = standard_init, st_destroy = standard_destroy,
      st_add = standard_add, st_get_next = standard_get_next, st_call = None, st_hangup = None\<rparr>,
     \<lparr>st_name = ''random'', st_desc = ''Select a random free channel.'',
      st_desc_params = None, st_init = rand_init, st_destroy = rand_destroy,
      st_add = rand_add, st_get_next = rand_get_next, st_call = None, st_hangup = None\<rparr>,
     \<lparr>st_name = ''round_robin'', st_desc = ''Use the round robin algorithm to select a free channel.'',
      st_desc_params = None, st_init = rr_init, st_destroy = rr_destroy,
      st_add = rr_add, st_get_next = rr_get_next, st_call = None, st_hangup = None\<rparr>]"


section \<open>The operations of the interface\<close>

text \<open>The search for a strategy by name: the index of the first match, or 0 after a warning.\<close>

fun find_strategy :: "('a, 'r, 'w) strategy list \<Rightarrow> string \<Rightarrow> nat \<Rightarrow> nat option" where
  "find_strategy [] name i = None"
| "find_strategy (st # sts) name i =
     (if strcasecmp (st_name st) name = 0 then Some i else find_strategy sts name (i + 1))"

definition strategy_index :: "('a, 'r, 'w) strategy list \<Rightarrow> string option \<Rightarrow> nat" where
  "strategy_index sts strategy =
     (case strategy of
        None \<Rightarrow> 0
      | Some name \<Rightarrow>
          if name \<noteq> [] then (case find_strategy sts name 0 of Some i \<Rightarrow> i | None \<Rightarrow> 0) else 0)"

text \<open>
  The parameter \<open>free\<close> hides the library's \<open>free\<close>: when the strategy's \<open>init\<close> fails, \<open>free(cs)\<close>
  calls the driver's function on the structure. The parameter is not stored. \<open>refs\<close> is the use
  count of the module.
\<close>

definition csel_create ::
  "bool \<Rightarrow> bool \<Rightarrow> ('a, 'r, 'w) strategy list \<Rightarrow> string option \<Rightarrow> ('a \<Rightarrow> 'w \<Rightarrow> 'r option \<times> 'w) \<Rightarrow>
   ('a csel_ptr \<Rightarrow> 'w \<Rightarrow> 'w) option \<Rightarrow> int \<Rightarrow> 'w \<Rightarrow> (('a, 'r, 'w) csel option \<times> int \<times> 'w) run" where
  "csel_create calloc_ok init_ok sts strategy occupy free refs w =
     (let i = strategy_index sts strategy in
      if \<not> calloc_ok then Fault
      else
        run_bind (arr_get sts (int i)) (\<lambda>st.
          (let cs = \<lparr>cs_lock = 0, cs_occupy = occupy, cs_free = None, cs_m = i, cs_data = None\<rparr>;
               (cs, err) = st_init st init_ok cs
           in if err \<noteq> 0 then
                (case free of None \<Rightarrow> Fault | Some f \<Rightarrow> Ret (None, refs, f Csel_struct w))
              else Ret (Some cs, refs + 1, w))))"

definition csel_destroy :: "('a, 'r, 'w) strategy list \<Rightarrow> ('a, 'r, 'w) csel \<Rightarrow> int \<Rightarrow> 'w \<Rightarrow> (int \<times> 'w) run" where
  "csel_destroy sts cs refs w =
     run_bind (arr_get sts (int (cs_m cs))) (\<lambda>st. Ret (refs - 1, st_destroy st cs w))"

definition csel_LOCK :: "('a, 'r, 'w) csel \<Rightarrow> ('a, 'r, 'w) csel" where
  "csel_LOCK cs = cs\<lparr>cs_lock := cs_lock cs + 1\<rparr>"

definition csel_UNLOCK :: "('a, 'r, 'w) csel \<Rightarrow> ('a, 'r, 'w) csel" where
  "csel_UNLOCK cs = cs\<lparr>cs_lock := cs_lock cs - 1\<rparr>"

definition csel_add ::
  "('a, 'r, 'w) strategy list \<Rightarrow> bool \<Rightarrow> ('a, 'r, 'w) csel \<Rightarrow> 'a \<Rightarrow> (('a, 'r, 'w) csel \<times> int) run" where
  "csel_add sts realloc_ok cs priv =
     (let cs = csel_LOCK cs in
      run_bind (arr_get sts (int (cs_m cs))) (\<lambda>st.
        run_map (\<lambda>(cs, retval). (csel_UNLOCK cs, retval)) (st_add st realloc_ok cs priv)))"

definition csel_get_next ::
  "('a, 'r, 'w) strategy list \<Rightarrow> (seed \<Rightarrow> nat \<times> seed) \<Rightarrow> ('a, 'r, 'w) csel \<Rightarrow> seed \<Rightarrow> 'w \<Rightarrow>
   ('r option \<times> ('a, 'r, 'w) csel \<times> seed \<times> 'w) run" where
  "csel_get_next sts random cs s w =
     (let cs = csel_LOCK cs in
      run_bind (arr_get sts (int (cs_m cs))) (\<lambda>st.
        run_map (\<lambda>(p, cs, s, w). (p, csel_UNLOCK cs, s, w)) (st_get_next st random cs s w)))"

definition csel_call ::
  "('a, 'r, 'w) strategy list \<Rightarrow> ('a, 'r, 'w) csel \<Rightarrow> 'a \<Rightarrow> string \<Rightarrow> ('a, 'r, 'w) csel run" where
  "csel_call sts cs priv uid =
     (let cs = csel_LOCK cs in
      run_bind (arr_get sts (int (cs_m cs))) (\<lambda>st.
        Ret (csel_UNLOCK (case st_call st of None \<Rightarrow> cs | Some f \<Rightarrow> f cs priv uid))))"

definition csel_hangup ::
  "('a, 'r, 'w) strategy list \<Rightarrow> ('a, 'r, 'w) csel \<Rightarrow> 'a \<Rightarrow> string \<Rightarrow> ('a, 'r, 'w) csel run" where
  "csel_hangup sts cs priv uid =
     (let cs = csel_LOCK cs in
      run_bind (arr_get sts (int (cs_m cs))) (\<lambda>st.
        Ret (csel_UNLOCK (case st_hangup st of None \<Rightarrow> cs | Some f \<Rightarrow> f cs priv uid))))"

text \<open>
  The CLI command: the text it prints, \<open>color\<close> standing for the terminal colouring of the
  three titles.
\<close>

definition csel_list_strategies :: "(string \<Rightarrow> string) \<Rightarrow> ('a, 'r, 'w) strategy list \<Rightarrow> cli_cmd \<Rightarrow> cli_result" where
  "csel_list_strategies color sts cmd =
     (case cmd of
        CLI_INIT \<Rightarrow> Cli_registered ''csel list strategies'' (''Usage: csel list strategies'' @ [CHR 0x0A])
      | CLI_GENERATE \<Rightarrow> Cli_null
      | CLI_HANDLER \<Rightarrow>
          Cli_success (map (\<lambda>i.
            (let st = sts ! i in
             color ''Strategy'' @ '': '' @ st_name st @ [CHR 0x0A] @
             color ''Description'' @ '': '' @ st_desc st @ [CHR 0x0A] @
             color ''Parameters'' @ '': '' @
               (case st_desc_params st of Some p \<Rightarrow> p | None \<Rightarrow> ''(none)'') @ [CHR 0x0A] @
             (if i + 1 < length sts then [CHR 0x0A] else [])))
            [0..<length sts]))"


section \<open>Trying channels in some order\<close>

text \<open>What every strategy does with the order it looks at the channels in.\<close>

fun try_all :: "('a \<Rightarrow> 'w \<Rightarrow> 'r option \<times> 'w) \<Rightarrow> 'a list \<Rightarrow> 'w \<Rightarrow> 'r option \<times> 'w" where
  "try_all occ [] w = (None, w)"
| "try_all occ (a # as) w =
     (case occ a w of (Some p, w') \<Rightarrow> (Some p, w') | (None, w') \<Rightarrow> try_all occ as w')"

lemma standard_loop_tries:
  "sd_size data = int (length (sd_arr data)) \<Longrightarrow> sd_arr data = xs @ ys \<Longrightarrow>
   standard_loop occ data (int (length xs)) w = Ret (try_all occ ys w)"
proof (induction ys arbitrary: xs w)
  case Nil
  then show ?case by (simp add: standard_loop.simps)
next
  case (Cons y ys)
  have "standard_loop occ data (int (length xs) + 1) w = Ret (try_all occ ys w)" for w
    using Cons.IH [of "xs @ [y]" w] Cons.prems by (simp add: add.commute)
  with Cons.prems show ?case
    by (simp add: standard_loop.simps [of occ data "int (length xs)"] nth_append
        split: prod.split option.split)
qed

lemma mset_take_swap:
  assumes "k < length arr" "pos \<le> k"
  shows "mset (take k (arr[k := arr ! pos, pos := arr ! k])) + {#arr ! pos#} = mset (take (Suc k) arr)"
proof -
  let ?arr = "arr[k := arr ! pos, pos := arr ! k]"
  have "take (Suc k) ?arr = (take (Suc k) arr)[k := take (Suc k) arr ! pos, pos := take (Suc k) arr ! k]"
    using assms by (simp add: take_update_swap)
  also have "mset \<dots> = mset (take (Suc k) arr)"
    using assms by (intro mset_swap) auto
  finally have "mset (take (Suc k) ?arr) = mset (take (Suc k) arr)" .
  moreover have "?arr ! k = arr ! pos" using assms by (cases "pos = k") auto
  then have "take (Suc k) ?arr = take k ?arr @ [arr ! pos]"
    using assms(1) take_Suc_conv_app_nth [of k ?arr] by simp
  ultimately show ?thesis by simp
qed

lemma rand_loop_tries:
  "k \<le> length arr \<Longrightarrow> \<exists>order arr' s'. mset order = mset (take k arr) \<and> mset arr' = mset arr \<and>
     rand_loop random occ k arr s w = Ret (fst (try_all occ order w), arr', s', snd (try_all occ order w))"
proof (induction k arbitrary: arr s w)
  case 0
  then show ?case by (intro exI [of _ "[]"] exI [of _ arr] exI [of _ s]) simp
next
  case (Suc k)
  obtain r s1 where r: "random s = (r, s1)" by (metis surj_pair)
  define pos where "pos = r mod Suc k"
  have pos: "pos < Suc k" "int r mod int (Suc k) = int pos" by (simp_all add: pos_def of_nat_mod del: of_nat_Suc)
  let ?a = "arr ! pos"
  obtain d w1 where occ: "occ ?a w = (d, w1)" by (metis surj_pair)
  show ?case
  proof (cases d)
    case (Some p)
    have "?a \<in> set (take (Suc k) arr)"
      using pos Suc.prems by (metis in_set_conv_nth length_take min.absorb2 nth_take)
    then have "mset (?a # remove1 ?a (take (Suc k) arr)) = mset (take (Suc k) arr)" by simp
    moreover have "rand_loop random occ (Suc k) arr s w = Ret (Some p, arr, s1, w1)"
      using r pos occ Some Suc.prems by (simp del: of_nat_Suc)
    ultimately show ?thesis using occ Some
      by (intro exI [of _ "?a # remove1 ?a (take (Suc k) arr)"] exI) (auto simp del: mset.simps)
  next
    case None
    let ?arr = "arr[k := ?a, pos := arr ! k]"
    have eq: "rand_loop random occ (Suc k) arr s w = rand_loop random occ k ?arr s1 w1"
      using r pos occ None Suc.prems by (simp del: of_nat_Suc)
    obtain order arr' s' where IH: "mset order = mset (take k ?arr)" "mset arr' = mset ?arr"
      "rand_loop random occ k ?arr s1 w1 = Ret (fst (try_all occ order w1), arr', s', snd (try_all occ order w1))"
      using Suc.IH [of ?arr s1 w1] Suc.prems by auto
    have "mset (?a # order) = mset (take (Suc k) arr)"
      using IH(1) mset_take_swap [of k arr pos] Suc.prems pos by simp
    moreover have "mset arr' = mset arr" using IH(2) mset_swap [of pos arr k] Suc.prems pos by simp
    ultimately show ?thesis
      unfolding eq IH(3) using occ None by (intro exI [of _ "?a # order"] exI) auto
  qed
qed

definition occ_at :: "('a \<Rightarrow> 'w \<Rightarrow> 'r option \<times> 'w) \<Rightarrow> 'a list \<Rightarrow> nat \<Rightarrow> 'w \<Rightarrow> ('r \<times> int) option \<times> 'w" where
  "occ_at occ arr i w = (case occ (arr ! i) w of (p, w') \<Rightarrow> (map_option (\<lambda>p. (p, int i)) p, w'))"

lemma try_all_occ_at:
  "try_all occ (map ((!) arr) is) w = (case try_all (occ_at occ arr) is w of (p, w') \<Rightarrow> (map_option fst p, w'))"
  by (induction "is" arbitrary: w) (auto simp: occ_at_def split: prod.splits option.splits)

lemma try_all_index:
  "try_all (occ_at occ arr) is w = (Some (p, i), w') \<Longrightarrow> i \<in> int ` set is"
  by (induction "is" arbitrary: w) (auto simp: occ_at_def split: prod.splits option.splits)

lemma rr_next: "(int ((b + j) mod n) + 1) mod int n = int ((b + Suc j) mod n)"
  by (metis add_Suc_right of_nat_Suc of_nat_mod mod_add_left_eq add.commute)

lemma rr_wrap: "b < n \<Longrightarrow> j < n \<Longrightarrow> (b + Suc j) mod n = b \<longleftrightarrow> \<not> Suc j < n"
  by (cases "b + Suc j < n") (auto simp: mod_if)

lemma rr_loop_tries:
  assumes "length arr = n" "b < n"
  shows "j < n \<Longrightarrow> n \<le> fuel + j \<Longrightarrow>
    rr_loop fuel occ (int n) arr (int b) (int ((b + j) mod n)) w =
      Ret (try_all (occ_at occ arr) (map (\<lambda>m. (b + m) mod n) [j..<n]) w)"
proof (induction fuel arbitrary: j w)
  case 0
  then show ?case by simp
next
  case (Suc fuel)
  have lst: "[j..<n] = j # [Suc j..<n]" using Suc.prems by (simp add: upt_conv_Cons)
  have get: "arr_get arr (int ((b + j) mod n)) = Ret (arr ! ((b + j) mod n))"
    using assms by (intro arr_get_in) auto
  have eq: "rr_loop (Suc fuel) occ (int n) arr (int b) (int ((b + j) mod n)) w =
      (case occ (arr ! ((b + j) mod n)) w of
         (Some p, w) \<Rightarrow> Ret (Some (p, int ((b + j) mod n)), w)
       | (None, w) \<Rightarrow> if (b + Suc j) mod n \<noteq> b
           then rr_loop fuel occ (int n) arr (int b) (int ((b + Suc j) mod n)) w else Ret (None, w))"
    by (simp only: rr_loop.simps get run_bind.simps rr_next Let_def of_nat_eq_iff)
  show ?case
  proof (cases "Suc j < n")
    case True
    with rr_wrap [OF assms(2), of j] Suc.IH [of "Suc j"] Suc.prems show ?thesis
      unfolding eq lst by (auto simp: occ_at_def split: prod.split option.split)
  next
    case False
    with rr_wrap [OF assms(2), of j] Suc.prems show ?thesis
      unfolding eq lst by (auto simp: occ_at_def split: prod.split option.split)
  qed
qed


section \<open>The contract of a selection strategy\<close>

text \<open>
  Whatever the strategy: each channel of the pool is tried at most once, in some order, until one
  can be occupied; the result is what its \<open>occupy\<close> returned. The pool stays as it is.
\<close>

locale selector =
  fixes nxt :: "'c \<Rightarrow> 'w \<Rightarrow> ('r option \<times> 'c \<times> 'w) run"
    and pool :: "'c \<Rightarrow> 'a multiset"
    and invar :: "'c \<Rightarrow> bool"
    and occ :: "'a \<Rightarrow> 'w \<Rightarrow> 'r option \<times> 'w"
  assumes nxt_tries: "invar c \<Longrightarrow> \<exists>order c'. mset order = pool c \<and>
    nxt c w = Ret (fst (try_all occ order w), c', snd (try_all occ order w)) \<and> invar c' \<and> pool c' = pool c"
begin

lemma nxt_some:
  assumes "invar c" "nxt c w = Ret (Some p, c', w')"
  shows "\<exists>a \<in># pool c. \<exists>v. occ a v = (Some p, w')"
proof -
  obtain order where o: "mset order = pool c" "try_all occ order w = (Some p, w')"
    using nxt_tries [OF assms(1), of w] assms(2) by (metis Pair_inject run.inject prod.collapse)
  have "try_all occ as w = (Some p, w') \<Longrightarrow> \<exists>a \<in> set as. \<exists>v. occ a v = (Some p, w')" for as w
    by (induction as arbitrary: w) (auto split: prod.splits option.splits)
  with o show ?thesis by (metis set_mset_mset)
qed

lemma nxt_none:
  assumes "invar c" "nxt c w = Ret (None, c', w')" "a \<in># pool c"
  shows "\<exists>v v'. occ a v = (None, v')"
proof -
  obtain order where o: "mset order = pool c" "try_all occ order w = (None, w')"
    using nxt_tries [OF assms(1), of w] assms(2) by (metis Pair_inject run.inject prod.collapse)
  have "try_all occ as w = (None, w') \<Longrightarrow> a \<in> set as \<Longrightarrow> \<exists>v v'. occ a v = (None, v')" for as w
    by (induction as arbitrary: w) (auto split: prod.splits option.splits)
  with o assms(3) show ?thesis by (metis set_mset_mset)
qed

end

text \<open>
  A driver whose channels are free or busy: \<open>occupy\<close> refuses a busy channel and makes a free one
  busy.
\<close>

definition occupy_busy :: "'a \<Rightarrow> 'a set \<Rightarrow> 'a option \<times> 'a set" where
  "occupy_busy a busy = (if a \<in> busy then (None, busy) else (Some a, insert a busy))"

lemma try_all_busy:
  "try_all occupy_busy as busy =
    (case find (\<lambda>a. a \<notin> busy) as of None \<Rightarrow> (None, busy) | Some a \<Rightarrow> (Some a, insert a busy))"
  by (induction as) (auto simp: occupy_busy_def)

fun calls :: "('c \<Rightarrow> 'w \<Rightarrow> ('r option \<times> 'c \<times> 'w) run) \<Rightarrow> nat \<Rightarrow> 'c \<Rightarrow> 'w \<Rightarrow> ('r option list \<times> 'c \<times> 'w) run" where
  "calls nxt 0 c w = Ret ([], c, w)"
| "calls nxt (Suc n) c w =
     run_bind (nxt c w) (\<lambda>(p, c, w). run_map (\<lambda>(ps, r). (p # ps, r)) (calls nxt n c w))"

locale busy_selector = selector nxt pool invar occupy_busy
  for nxt :: "'c \<Rightarrow> 'a set \<Rightarrow> ('a option \<times> 'c \<times> 'a set) run" and pool invar
begin

lemma nxt_busy:
  assumes "invar c"
  shows "\<exists>c'. invar c' \<and> pool c' = pool c \<and>
    (if set_mset (pool c) \<subseteq> busy then nxt c busy = Ret (None, c', busy)
     else \<exists>a. a \<in># pool c \<and> a \<notin> busy \<and> nxt c busy = Ret (Some a, c', insert a busy))"
proof -
  obtain order c' where o: "mset order = pool c" "invar c'" "pool c' = pool c"
    "nxt c busy = Ret (fst (try_all occupy_busy order busy), c', snd (try_all occupy_busy order busy))"
    using nxt_tries [OF assms, of busy] by blast
  have set: "set order = set_mset (pool c)" using o(1) by (metis set_mset_mset)
  show ?thesis
  proof (cases "find (\<lambda>a. a \<notin> busy) order")
    case None
    then have "set_mset (pool c) \<subseteq> busy" using set by (auto simp: find_None_iff)
    with o None show ?thesis by (auto simp: try_all_busy)
  next
    case (Some a)
    then have "a \<in># pool c" "a \<notin> busy" using set by (auto simp: find_Some_iff)
    with o Some show ?thesis by (auto simp: try_all_busy)
  qed
qed

lemma calls_allocate:
  assumes "invar c" "n \<le> card (set_mset (pool c) - busy)"
  shows "\<exists>ps c'. calls nxt n c busy = Ret (map Some ps, c', busy \<union> set ps) \<and> length ps = n \<and>
    distinct ps \<and> set ps \<subseteq> set_mset (pool c) - busy \<and> invar c' \<and> pool c' = pool c"
  using assms
proof (induction n arbitrary: c busy)
  case 0
  then show ?case by (intro exI [of _ "[]"]) auto
next
  case (Suc n)
  then have "\<not> set_mset (pool c) \<subseteq> busy" by (metis Diff_eq_empty_iff card.empty not_less_eq_eq le0)
  then obtain a c1 where a: "a \<in># pool c" "a \<notin> busy" "nxt c busy = Ret (Some a, c1, insert a busy)"
    "invar c1" "pool c1 = pool c"
    using nxt_busy [OF Suc.prems(1), of busy] by auto
  have "set_mset (pool c1) - insert a busy = (set_mset (pool c) - busy) - {a}" using a(5) by auto
  then have "n \<le> card (set_mset (pool c1) - insert a busy)"
    using Suc.prems(2) a by (simp add: card_Diff_singleton)
  from Suc.IH [OF a(4) this] obtain ps c' where
    "calls nxt n c1 (insert a busy) = Ret (map Some ps, c', insert a busy \<union> set ps)" "length ps = n"
    "distinct ps" "set ps \<subseteq> set_mset (pool c1) - insert a busy" "invar c'" "pool c' = pool c1" by blast
  with a show ?case by (intro exI [of _ "a # ps"] exI [of _ c']) auto
qed

end


section \<open>The strategies meet the contract\<close>

fun cs_arr :: "'a csel_data \<Rightarrow> 'a list" where
  "cs_arr (SD d) = sd_arr d"
| "cs_arr (RD d) = rd_arr d"
| "cs_arr (RR d) = rr_arr d"

definition cs_chans :: "('a, 'r, 'w) csel \<Rightarrow> 'a list" where
  "cs_chans cs = (case cs_data cs of None \<Rightarrow> [] | Some d \<Rightarrow> cs_arr d)"

text \<open>The data belongs to the strategy, and its size is the number of channels.\<close>

fun data_wf :: "nat \<Rightarrow> 'a csel_data \<Rightarrow> bool" where
  "data_wf m (SD d) \<longleftrightarrow> m = 0 \<and> sd_size d = int (length (sd_arr d))"
| "data_wf m (RD d) \<longleftrightarrow> m = 1 \<and> rd_size d = int (length (rd_arr d))"
| "data_wf m (RR d) \<longleftrightarrow> m = 2 \<and> rr_size d = int (length (rr_arr d)) \<and>
     0 \<le> rr_curr d \<and> rr_curr d < max 1 (int (length (rr_arr d)))"

definition csel_wf :: "('a, 'r, 'w) csel \<Rightarrow> bool" where
  "csel_wf cs \<longleftrightarrow> (case cs_data cs of None \<Rightarrow> False | Some d \<Rightarrow> data_wf (cs_m cs) d)"

definition csel_inv :: "('a \<Rightarrow> 'w \<Rightarrow> 'r option \<times> 'w) \<Rightarrow> ('a, 'r, 'w) csel \<times> seed \<Rightarrow> bool" where
  "csel_inv occ c \<longleftrightarrow> csel_wf (fst c) \<and> cs_occupy (fst c) = occ \<and> cs_chans (fst c) \<noteq> []"

definition csel_pool :: "('a, 'r, 'w) csel \<times> seed \<Rightarrow> 'a multiset" where
  "csel_pool c = mset (cs_chans (fst c))"

lemmas csel_wf_defs = csel_wf_def csel_inv_def csel_pool_def cs_chans_def

lemma standard_get_next_tries:
  assumes "cs_data cs = Some (SD d)" "csel_wf cs"
  shows "standard_get_next random cs s w =
    Ret (fst (try_all (cs_occupy cs) (sd_arr d) w), cs, s, snd (try_all (cs_occupy cs) (sd_arr d) w))"
  using assms standard_loop_tries [of d "[]" "sd_arr d" "cs_occupy cs" w]
  by (simp add: standard_get_next_def csel_wf_def split: prod.split)

lemma rand_get_next_tries:
  assumes "cs_data cs = Some (RD d)" "csel_wf cs"
  shows "\<exists>order arr' s'. mset order = mset (rd_arr d) \<and> mset arr' = mset (rd_arr d) \<and>
    rand_get_next random cs s w =
      Ret (fst (try_all (cs_occupy cs) order w), cs\<lparr>cs_data := Some (RD (d\<lparr>rd_arr := arr'\<rparr>))\<rparr>, s',
           snd (try_all (cs_occupy cs) order w))"
proof -
  have "nat (rd_size d) = length (rd_arr d)" using assms by (simp add: csel_wf_def)
  with rand_loop_tries [of "length (rd_arr d)" "rd_arr d" random "cs_occupy cs" s w] assms(1)
  show ?thesis by (fastforce simp: rand_get_next_def)
qed

text \<open>The order round robin looks at the channels in: from the one after the last one chosen.\<close>

definition rr_order :: "'a rr_data \<Rightarrow> nat list" where
  "rr_order d =
     (let n = length (rr_arr d); b = Suc (nat (rr_curr d)) mod n in map (\<lambda>m. (b + m) mod n) [0..<n])"

lemma rr_get_next_tries:
  assumes "cs_data cs = Some (RR d)" "csel_wf cs" "rr_arr d \<noteq> []"
  shows "rr_get_next random cs s w =
    Ret (case try_all (occ_at (cs_occupy cs) (rr_arr d)) (rr_order d) w of
           (Some (p, i), w) \<Rightarrow> (Some p, cs\<lparr>cs_data := Some (RR (d\<lparr>rr_curr := i\<rparr>))\<rparr>, s, w)
         | (None, w) \<Rightarrow> (None, cs, s, w))"
proof -
  let ?n = "length (rr_arr d)" let ?b = "Suc (nat (rr_curr d)) mod length (rr_arr d)"
  have sz: "rr_size d = int ?n" "0 \<le> rr_curr d" using assms(1,2) by (auto simp: csel_wf_def)
  have b: "?b < ?n" using assms(3) by simp
  have bgn: "(rr_curr d + 1) mod int ?n = int ?b"
    using sz(2) by (metis add.commute nat_0_le of_nat_Suc of_nat_mod)
  have "rr_loop ?n (cs_occupy cs) (int ?n) (rr_arr d) (int ?b) (int ?b) w =
      Ret (try_all (occ_at (cs_occupy cs) (rr_arr d)) (rr_order d) w)"
    using rr_loop_tries [OF refl b, of 0 ?n "cs_occupy cs" w] b assms(3) by (simp add: rr_order_def Let_def)
  with sz assms(1,3) bgn show ?thesis
    by (simp add: rr_get_next_def Let_def split: prod.split option.split)
qed

lemma rr_order_perm:
  assumes "rr_arr d \<noteq> []"
  shows "mset (map ((!) (rr_arr d)) (rr_order d)) = mset (rr_arr d)" "i \<in> set (rr_order d) \<Longrightarrow> i < length (rr_arr d)"
proof -
  let ?b = "Suc (nat (rr_curr d)) mod length (rr_arr d)"
  have "map ((!) (rr_arr d)) (rr_order d) = rotate ?b (rr_arr d)"
    by (rule nth_equalityI) (auto simp: rr_order_def Let_def nth_rotate)
  then show "mset (map ((!) (rr_arr d)) (rr_order d)) = mset (rr_arr d)" by (simp add: rotate_drop_take) (metis append_take_drop_id mset_append union_commute)
  show "i < length (rr_arr d)" if "i \<in> set (rr_order d)"
    using that assms by (auto simp: rr_order_def Let_def)
qed

lemma strategies_nth [simp]:
  "arr_get strategies 0 = Ret (strategies ! 0)" "arr_get strategies 1 = Ret (strategies ! 1)"
  "arr_get strategies 2 = Ret (strategies ! 2)"
  "st_get_next (strategies ! 0) = standard_get_next" "st_get_next (strategies ! Suc 0) = rand_get_next"
  "st_get_next (strategies ! 2) = rr_get_next"
  "st_add (strategies ! 0) = standard_add" "st_add (strategies ! Suc 0) = rand_add"
  "st_add (strategies ! 2) = rr_add"
  "st_destroy (strategies ! 0) = standard_destroy" "st_destroy (strategies ! Suc 0) = rand_destroy"
  "st_destroy (strategies ! 2) = rr_destroy"
  "st_init (strategies ! 0) = standard_init" "st_init (strategies ! Suc 0) = rand_init"
  "st_init (strategies ! 2) = rr_init"
  by (simp_all add: strategies_def arr_get_def)

lemma csel_lock_simps [simp]:
  "cs_data (csel_LOCK cs) = cs_data cs" "cs_occupy (csel_LOCK cs) = cs_occupy cs"
  "cs_m (csel_LOCK cs) = cs_m cs" "cs_free (csel_LOCK cs) = cs_free cs"
  "cs_data (csel_UNLOCK cs) = cs_data cs" "cs_occupy (csel_UNLOCK cs) = cs_occupy cs"
  "cs_m (csel_UNLOCK cs) = cs_m cs" "cs_free (csel_UNLOCK cs) = cs_free cs"
  "csel_wf (csel_LOCK cs) = csel_wf cs" "csel_wf (csel_UNLOCK cs) = csel_wf cs"
  "csel_UNLOCK (csel_LOCK cs) = cs" "csel_UNLOCK ((csel_LOCK cs)\<lparr>cs_data := d\<rparr>) = cs\<lparr>cs_data := d\<rparr>"
  "cs_lock (csel_LOCK cs) = Suc (cs_lock cs)" "cs_lock (csel_UNLOCK cs) = cs_lock cs - 1"
  by (simp_all add: csel_LOCK_def csel_UNLOCK_def csel_wf_def split: option.split)

lemma csel_get_next_tries:
  assumes "csel_inv occ (cs, s)"
  shows "\<exists>order cs' s'. mset order = mset (cs_chans cs) \<and>
    csel_get_next strategies random cs s w = Ret (fst (try_all occ order w), cs', s', snd (try_all occ order w)) \<and>
    csel_inv occ (cs', s') \<and> mset (cs_chans cs') = mset (cs_chans cs) \<and> cs_lock cs' = cs_lock cs"
proof -
  obtain d where d: "cs_data cs = Some d" "data_wf (cs_m cs) d" "cs_arr d \<noteq> []" and occ: "cs_occupy cs = occ"
    using assms by (auto simp: csel_wf_defs split: option.splits)
  have wf: "csel_wf cs" using d by (simp add: csel_wf_def)
  show ?thesis
  proof (cases d)
    case (SD x)
    then have "csel_get_next strategies random cs s w =
        Ret (fst (try_all occ (sd_arr x) w), cs, s, snd (try_all occ (sd_arr x) w))"
      using d wf occ standard_get_next_tries [of "csel_LOCK cs" x random s w] by (simp add: csel_get_next_def)
    with assms d SD show ?thesis by (fastforce simp: csel_wf_defs)
  next
    case (RD x)
    obtain order arr' s' where o: "mset order = mset (rd_arr x)" "mset arr' = mset (rd_arr x)"
      "rand_get_next random (csel_LOCK cs) s w = Ret (fst (try_all occ order w),
         (csel_LOCK cs)\<lparr>cs_data := Some (RD (x\<lparr>rd_arr := arr'\<rparr>))\<rparr>, s', snd (try_all occ order w))"
      using d wf occ RD rand_get_next_tries [of "csel_LOCK cs" x random s w] by auto
    let ?cs = "cs\<lparr>cs_data := Some (RD (x\<lparr>rd_arr := arr'\<rparr>))\<rparr>"
    have "length arr' = length (rd_arr x)" "arr' \<noteq> []"
      using o(2) d RD by (auto dest: mset_eq_length)
    then show ?thesis
      using o d RD occ by (intro exI [of _ order] exI [of _ ?cs] exI [of _ s']) (auto simp: csel_get_next_def csel_wf_defs)
  next
    case (RR x)
    let ?t = "try_all (occ_at occ (rr_arr x)) (rr_order x) w"
    have t: "try_all occ (map ((!) (rr_arr x)) (rr_order x)) w = (map_option fst (fst ?t), snd ?t)"
      by (simp add: try_all_occ_at split: prod.split)
    have ne: "rr_arr x \<noteq> []" using d RR by simp
    let ?cs = "case fst ?t of None \<Rightarrow> cs | Some (p, i) \<Rightarrow> cs\<lparr>cs_data := Some (RR (x\<lparr>rr_curr := i\<rparr>))\<rparr>"
    have "csel_get_next strategies random cs s w = Ret (map_option fst (fst ?t), ?cs, s, snd ?t)"
      using d wf occ RR ne rr_get_next_tries [of "csel_LOCK cs" x random s w]
      by (auto simp: csel_get_next_def Let_def split: prod.split option.split)
    moreover have "\<exists>j < length (rr_arr x). i = int j" if "fst ?t = Some (p, i)" for p i
      using try_all_index [of occ "rr_arr x" "rr_order x" w p i "snd ?t"] that rr_order_perm(2) [OF ne]
      by (metis imageE prod.collapse)
    then have "csel_inv occ (?cs, s)"
      using assms d RR ne by (fastforce simp: csel_wf_defs split: option.split)
    moreover have "cs_chans ?cs = rr_arr x" "cs_chans cs = rr_arr x" "cs_lock ?cs = cs_lock cs"
      using d RR by (auto simp: cs_chans_def split: option.split)
    ultimately show ?thesis
      using rr_order_perm(1) [OF ne]
      by (intro exI [of _ "map ((!) (rr_arr x)) (rr_order x)"] exI [of _ ?cs] exI [of _ s]) (simp add: t)
  qed
qed

definition csel_next ::
  "(seed \<Rightarrow> nat \<times> seed) \<Rightarrow> ('a, 'r, 'w) csel \<times> seed \<Rightarrow> 'w \<Rightarrow> ('r option \<times> (('a, 'r, 'w) csel \<times> seed) \<times> 'w) run" where
  "csel_next random c w =
     run_map (\<lambda>(p, cs, s, w). (p, (cs, s), w)) (csel_get_next strategies random (fst c) (snd c) w)"

lemma csel_next_tries:
  assumes "csel_inv occ c"
  shows "\<exists>order c'. mset order = csel_pool c \<and>
    csel_next random c w = Ret (fst (try_all occ order w), c', snd (try_all occ order w)) \<and>
    csel_inv occ c' \<and> csel_pool c' = csel_pool c"
proof -
  obtain cs s where c: "c = (cs, s)" by force
  from csel_get_next_tries [OF assms [unfolded c], of random w]
  show ?thesis unfolding c csel_next_def csel_pool_def by fastforce
qed

interpretation sel: selector "csel_next random" csel_pool "csel_inv occ" occ for random occ
  by unfold_locales (rule csel_next_tries)

interpretation bsel: busy_selector "csel_next random" csel_pool "csel_inv occupy_busy" for random
  by unfold_locales


section \<open>Building a pool\<close>

lemma realloc_set:
  "arr_set (realloc_arr arr (Suc (length arr)) x) (int (length arr)) x = Ret (arr @ [x])"
proof -
  have "realloc_arr arr (Suc (length arr)) x = arr @ [x]" by (simp add: realloc_arr_def)
  then show ?thesis by (simp add: arr_set_def)
qed

lemma csel_add_appends:
  assumes "csel_wf cs"
  shows "\<exists>cs'. csel_add strategies True cs a = Ret (cs', 0) \<and> csel_wf cs' \<and> cs_chans cs' = cs_chans cs @ [a] \<and>
    cs_occupy cs' = cs_occupy cs \<and> cs_free cs' = cs_free cs \<and> cs_m cs' = cs_m cs \<and> cs_lock cs' = cs_lock cs \<and>
    (\<forall>d. cs_data cs = Some (RR d) \<longrightarrow> (\<exists>d'. cs_data cs' = Some (RR d') \<and> rr_curr d' = rr_curr d))"
proof -
  obtain d where d: "cs_data cs = Some d" "data_wf (cs_m cs) d"
    using assms by (auto simp: csel_wf_def split: option.splits)
  have n: "nat (int k + 1) = Suc k" for k by simp
  show ?thesis
  proof (cases d)
    case (SD x)
    with d show ?thesis
      by (simp add: csel_add_def standard_add_def n realloc_set csel_wf_def cs_chans_def csel_LOCK_def csel_UNLOCK_def)
  next
    case (RD x)
    with d show ?thesis
      by (simp add: csel_add_def rand_add_def n realloc_set csel_wf_def cs_chans_def csel_LOCK_def csel_UNLOCK_def)
  next
    case (RR x)
    with d show ?thesis
      by (auto simp: csel_add_def rr_add_def n realloc_set csel_wf_def cs_chans_def csel_LOCK_def csel_UNLOCK_def max_def
          split: if_splits)
  qed
qed

fun csel_add_all ::
  "('a, 'r, 'w) strategy list \<Rightarrow> ('a, 'r, 'w) csel \<Rightarrow> 'a list \<Rightarrow> ('a, 'r, 'w) csel run" where
  "csel_add_all sts cs [] = Ret cs"
| "csel_add_all sts cs (a # as) =
     run_bind (csel_add sts True cs a) (\<lambda>(cs, retval). csel_add_all sts cs as)"

lemma csel_add_all_appends:
  assumes "csel_wf cs"
  shows "\<exists>cs'. csel_add_all strategies cs as = Ret cs' \<and> csel_wf cs' \<and> cs_chans cs' = cs_chans cs @ as \<and>
    cs_occupy cs' = cs_occupy cs \<and> cs_free cs' = cs_free cs \<and> cs_m cs' = cs_m cs \<and> cs_lock cs' = cs_lock cs \<and>
    (\<forall>d. cs_data cs = Some (RR d) \<longrightarrow> (\<exists>d'. cs_data cs' = Some (RR d') \<and> rr_curr d' = rr_curr d))"
  using assms
proof (induction as arbitrary: cs)
  case (Cons a as)
  obtain cs1 where 1: "csel_add strategies True cs a = Ret (cs1, 0)" "csel_wf cs1"
    "cs_chans cs1 = cs_chans cs @ [a]" "cs_occupy cs1 = cs_occupy cs" "cs_free cs1 = cs_free cs"
    "cs_m cs1 = cs_m cs" "cs_lock cs1 = cs_lock cs"
    "\<forall>d. cs_data cs = Some (RR d) \<longrightarrow> (\<exists>d'. cs_data cs1 = Some (RR d') \<and> rr_curr d' = rr_curr d)"
    using csel_add_appends [OF Cons.prems, of a] by blast
  from Cons.IH [OF 1(2)] 1 show ?case by fastforce
qed simp

text \<open>A fresh structure of each strategy.\<close>

definition fresh_data :: "nat \<Rightarrow> 'a csel_data" where
  "fresh_data m =
     (if m = 0 then SD \<lparr>sd_size = 0, sd_arr = []\<rparr>
      else if m = 1 then RD \<lparr>rd_size = 0, rd_arr = []\<rparr>
      else RR \<lparr>rr_size = 0, rr_curr = 0, rr_arr = []\<rparr>)"

definition fresh_csel :: "nat \<Rightarrow> ('a \<Rightarrow> 'w \<Rightarrow> 'r option \<times> 'w) \<Rightarrow> ('a, 'r, 'w) csel" where
  "fresh_csel m occ =
     \<lparr>cs_lock = 0, cs_occupy = occ, cs_free = None, cs_m = m, cs_data = Some (fresh_data m)\<rparr>"

text \<open>The strategy a name selects, written out.\<close>

definition named_strategy :: "string option \<Rightarrow> nat" where
  "named_strategy strategy =
     (case strategy of
        None \<Rightarrow> 0
      | Some name \<Rightarrow>
          if map tolower name = ''random'' then 1 else if map tolower name = ''round_robin'' then 2 else 0)"

lemma strcasecmp_literal:
  assumes "map tolower lit = lit" "cstr lit" "cstr name"
  shows "strcasecmp lit name = 0 \<longleftrightarrow> map tolower name = lit"
  using assms strcasecmp_zero_iff [of lit name] by auto

lemma strategy_names_lower:
  "map tolower ''standard'' = ''standard''" "map tolower ''random'' = ''random''"
  "map tolower ''round_robin'' = ''round_robin''"
  by (simp_all add: tolower_def)

lemma find_strategy_known:
  assumes "cstr name"
  shows "find_strategy strategies name 0 =
    (if map tolower name = ''standard'' then Some 0 else if map tolower name = ''random'' then Some 1
     else if map tolower name = ''round_robin'' then Some 2 else None)"
proof -
  have "strcasecmp ''standard'' name = 0 \<longleftrightarrow> map tolower name = ''standard''"
    "strcasecmp ''random'' name = 0 \<longleftrightarrow> map tolower name = ''random''"
    "strcasecmp ''round_robin'' name = 0 \<longleftrightarrow> map tolower name = ''round_robin''"
    using strcasecmp_literal [OF strategy_names_lower(1) _ assms] strcasecmp_literal [OF strategy_names_lower(2) _ assms]
      strcasecmp_literal [OF strategy_names_lower(3) _ assms] by simp_all
  then show ?thesis
    by (simp add: strategies_def del: map_eq_Cons_conv strcasecmp.simps)
qed

lemma strategy_index_known:
  assumes "pred_option cstr strategy"
  shows "strategy_index strategies strategy = named_strategy strategy"
proof (cases strategy)
  case None
  then show ?thesis by (simp add: strategy_index_def named_strategy_def)
next
  case (Some name)
  with assms have "cstr name" by simp
  with Some show ?thesis
    by (simp add: strategy_index_def named_strategy_def find_strategy_known del: map_eq_Cons_conv)
qed

lemma named_strategy_le: "named_strategy strategy \<in> {0, 1, 2}"
  by (auto simp: named_strategy_def split: option.splits)

lemma csel_create_fresh:
  assumes "pred_option cstr strategy"
  shows "csel_create True True strategies strategy occ fr refs w =
    Ret (Some (fresh_csel (named_strategy strategy) occ), refs + 1, w)"
  using named_strategy_le [of strategy]
  by (auto simp: csel_create_def fresh_csel_def fresh_data_def Let_def standard_init_def rand_init_def rr_init_def
      strategy_index_known [OF assms])

lemma fresh_csel_simps [simp]:
  "m \<in> {0, 1, 2} \<Longrightarrow> csel_wf (fresh_csel m occ)" "cs_chans (fresh_csel m occ) = []"
  "cs_occupy (fresh_csel m occ) = occ" "cs_free (fresh_csel m occ) = None" "cs_lock (fresh_csel m occ) = 0"
  "cs_m (fresh_csel m occ) = m"
  by (auto simp: fresh_csel_def fresh_data_def csel_wf_def cs_chans_def)

lemma fresh_csel_built:
  assumes "m \<in> {0, 1, 2}"
  shows "\<exists>cs. csel_add_all strategies (fresh_csel m occ) as = Ret cs \<and> csel_wf cs \<and> cs_chans cs = as \<and>
    cs_occupy cs = occ \<and> cs_free cs = None \<and> cs_m cs = m \<and> cs_lock cs = 0"
  using csel_add_all_appends [OF fresh_csel_simps(1) [OF assms], where as = as] by auto


section \<open>Round robin\<close>

definition always_free :: "'a \<Rightarrow> 'w \<Rightarrow> 'a option \<times> 'w" where
  "always_free a w = (Some a, w)"

lemma rr_step:
  assumes "cs_data cs = Some (RR d)" "csel_wf cs" "rr_arr d \<noteq> []" "cs_occupy cs = always_free"
  shows "csel_next random (cs, s) w =
    (let i = Suc (nat (rr_curr d)) mod length (rr_arr d) in
     Ret (Some (rr_arr d ! i), (cs\<lparr>cs_data := Some (RR (d\<lparr>rr_curr := int i\<rparr>))\<rparr>, s), w))"
proof -
  obtain m where m: "length (rr_arr d) = Suc m" using assms(3) by (cases "rr_arr d") auto
  have m2: "cs_m cs = 2" using assms(1,2) by (simp add: csel_wf_def)
  let ?i = "Suc (nat (rr_curr d)) mod length (rr_arr d)"
  have "rr_order d = ?i # map (\<lambda>k. (?i + k) mod length (rr_arr d)) [1..<Suc m]"
    by (simp add: rr_order_def Let_def m upt_conv_Cons del: upt_Suc)
  then have "try_all (occ_at always_free (rr_arr d)) (rr_order d) w = (Some (rr_arr d ! ?i, int ?i), w)"
    by (simp add: occ_at_def always_free_def)
  then show ?thesis
    using rr_get_next_tries [of "csel_LOCK cs" d random s w] assms m2
    by (simp add: csel_next_def csel_get_next_def Let_def)
qed

lemma rr_built:
  "\<exists>cs d. csel_add_all strategies (fresh_csel 2 occ) as = Ret cs \<and> csel_wf cs \<and> cs_occupy cs = occ \<and>
    cs_data cs = Some (RR d) \<and> rr_curr d = 0 \<and> rr_arr d = as"
proof -
  let ?f = "fresh_csel 2 occ"
  have wf: "csel_wf ?f" by simp
  have data: "cs_data ?f = Some (RR \<lparr>rr_size = 0, rr_curr = 0, rr_arr = []\<rparr>)"
    by (simp add: fresh_csel_def fresh_data_def)
  obtain cs where cs: "csel_add_all strategies ?f as = Ret cs" "csel_wf cs" "cs_chans cs = cs_chans ?f @ as"
    "cs_occupy cs = cs_occupy ?f"
    and "\<forall>d. cs_data ?f = Some (RR d) \<longrightarrow> (\<exists>d'. cs_data cs = Some (RR d') \<and> rr_curr d' = rr_curr d)"
    using csel_add_all_appends [OF wf, of "as"] by blast
  with data obtain d where "cs_data cs = Some (RR d)" "rr_curr d = 0" by auto
  moreover have "cs_chans cs = as" "cs_occupy cs = occ" using cs(3,4) by simp_all
  ultimately show ?thesis using cs(1,2) by (auto simp: cs_chans_def)
qed

lemma rr_calls:
  assumes "cs_data cs = Some (RR d)" "csel_wf cs" "rr_arr d \<noteq> []" "cs_occupy cs = always_free"
  shows "\<exists>c'. calls (csel_next random) k (cs, s) w =
    Ret (map (\<lambda>i. Some (rr_arr d ! ((nat (rr_curr d) + Suc i) mod length (rr_arr d)))) [0..<k], c', w)"
  using assms
proof (induction k arbitrary: cs d)
  case (Suc k)
  let ?n = "length (rr_arr d)"
  let ?i = "Suc (nat (rr_curr d)) mod ?n" let ?d = "d\<lparr>rr_curr := int ?i\<rparr>"
  let ?cs = "cs\<lparr>cs_data := Some (RR ?d)\<rparr>"
  have "?i < ?n" using Suc.prems(3) by simp
  then have "int ?i < max 1 (int ?n)" by linarith
  then have "csel_wf ?cs" using Suc.prems by (simp add: csel_wf_def del: of_nat_mod)
  then obtain c' where IH: "calls (csel_next random) k (?cs, s) w =
      Ret (map (\<lambda>j. Some (rr_arr d ! ((?i + Suc j) mod ?n))) [0..<k], c', w)"
    using Suc.IH [of ?cs ?d] Suc.prems by auto
  have "(?i + Suc j) mod ?n = (nat (rr_curr d) + Suc (Suc j)) mod ?n" for j
    by (metis add_Suc add_Suc_shift mod_add_left_eq)
  then have "map (\<lambda>i. Some (rr_arr d ! ((nat (rr_curr d) + Suc i) mod ?n))) [0..<Suc k] =
      Some (rr_arr d ! ?i) # map (\<lambda>j. Some (rr_arr d ! ((?i + Suc j) mod ?n))) [0..<k]"
    by (simp add: upt_conv_Cons map_Suc_upt [symmetric] del: upt_Suc)
  with IH rr_step [OF Suc.prems] show ?case by (simp add: Let_def)
qed simp


section \<open>Properties\<close>

text \<open>
  C2. With every strategy, and channels that are either free or busy: a call returns a free channel
  of the pool, which is busy afterwards, or reports none exactly when all channels of the pool are
  busy. The pool itself keeps its channels.
\<close>

theorem csel_get_next_free_channel:
  assumes "csel_wf cs" "cs_occupy cs = occupy_busy" "cs_chans cs \<noteq> []"
  shows "\<exists>cs' s'. csel_wf cs' \<and> mset (cs_chans cs') = mset (cs_chans cs) \<and>
    (if set (cs_chans cs) \<subseteq> busy then csel_get_next strategies random cs s busy = Ret (None, cs', s', busy)
     else \<exists>a \<in> set (cs_chans cs) - busy.
            csel_get_next strategies random cs s busy = Ret (Some a, cs', s', insert a busy))"
proof -
  have inv: "csel_inv occupy_busy (cs, s)" using assms by (simp add: csel_inv_def)
  obtain c' where c: "csel_inv occupy_busy c'" "csel_pool c' = csel_pool (cs, s)"
    "if set_mset (csel_pool (cs, s)) \<subseteq> busy then csel_next random (cs, s) busy = Ret (None, c', busy)
     else \<exists>a. a \<in># csel_pool (cs, s) \<and> a \<notin> busy \<and> csel_next random (cs, s) busy = Ret (Some a, c', insert a busy)"
    using bsel.nxt_busy [OF inv, of busy random] by blast
  have next_eq: "csel_next random (cs, s) busy = Ret (p, c', w) \<longleftrightarrow>
      csel_get_next strategies random cs s busy = Ret (p, fst c', snd c', w)" for p w
    by (cases "csel_get_next strategies random cs s busy") (auto simp: csel_next_def)
  have pool: "set_mset (csel_pool (cs, s)) = set (cs_chans cs)" by (simp add: csel_pool_def)
  have "csel_wf (fst c')" "mset (cs_chans (fst c')) = mset (cs_chans cs)"
    using c(1,2) by (simp_all add: csel_inv_def csel_pool_def)
  with c(3) show ?thesis
    unfolding next_eq pool
    by (intro exI [of _ "fst c'"] exI [of _ "snd c'"]) (auto split: if_splits)
qed

theorem csel_get_next_free_channel_witness:
  "\<exists>cs. csel_add_all strategies (fresh_csel 2 occupy_busy) [10::nat, 11] = Ret cs \<and>
    (\<exists>cs' s'. csel_wf cs' \<and> mset (cs_chans cs') = mset (cs_chans cs) \<and>
    (if set (cs_chans cs) \<subseteq> {11} then csel_get_next strategies (\<lambda>s. (s, s)) cs 0 {11} = Ret (None, cs', s', {11})
     else \<exists>a \<in> set (cs_chans cs) - {11}.
            csel_get_next strategies (\<lambda>s. (s, s)) cs 0 {11} = Ret (Some a, cs', s', insert a {11})))"
proof -
  obtain cs where "csel_add_all strategies (fresh_csel 2 occupy_busy) [10::nat, 11] = Ret cs"
    "csel_wf cs" "cs_chans cs = [10, 11]" "cs_occupy cs = occupy_busy"
    using fresh_csel_built [of 2 occupy_busy "[10::nat, 11]"] by auto
  then show ?thesis using csel_get_next_free_channel [of cs "{11}" "\<lambda>s. (s, s)" 0] by auto
qed

text \<open>
  C1. With every strategy, as many successive calls as there are free channels give that many
  different channels of the pool, none of which was busy; no channel is handed out twice.
\<close>

theorem csel_calls_distinct:
  assumes "csel_wf cs" "cs_occupy cs = occupy_busy" "n \<le> card (set (cs_chans cs) - busy)" "cs_chans cs \<noteq> []"
  shows "\<exists>ps c'. calls (csel_next random) n (cs, s) busy = Ret (map Some ps, c', busy \<union> set ps) \<and>
    length ps = n \<and> distinct ps \<and> set ps \<subseteq> set (cs_chans cs) - busy"
  using bsel.calls_allocate [of "(cs, s)" n busy random] assms
  by (auto simp: csel_inv_def csel_pool_def)

theorem csel_calls_distinct_witness:
  "\<exists>cs. csel_add_all strategies (fresh_csel 1 occupy_busy) [10::nat, 11, 12] = Ret cs \<and>
    (\<exists>ps c'. calls (csel_next (\<lambda>s. (s, s + 1))) 2 (cs, 0) {11} = Ret (map Some ps, c', {11} \<union> set ps) \<and>
    length ps = 2 \<and> distinct ps \<and> set ps \<subseteq> set (cs_chans cs) - {11})"
proof -
  obtain cs where "csel_add_all strategies (fresh_csel 1 occupy_busy) [10::nat, 11, 12] = Ret cs"
    "csel_wf cs" "cs_chans cs = [10, 11, 12]" "cs_occupy cs = occupy_busy"
    using fresh_csel_built [of 1 occupy_busy "[10::nat, 11, 12]"] by auto
  moreover have "card ({10::nat, 11, 12} - {11}) = 2" by (simp add: insert_Diff_if)
  ultimately show ?thesis using csel_calls_distinct [of cs 2 "{11}" "\<lambda>s. (s, s + 1)" 0] by simp
qed

text \<open>
  With every strategy and any driver, a call returns: a result is what the driver's
  \<open>occupy\<close> returned for a channel of the pool; without a result, \<open>occupy\<close> refused every channel
  of the pool. The lock is given back.
\<close>

theorem csel_get_next_contract:
  assumes "csel_wf cs" "cs_chans cs \<noteq> []"
  shows "\<exists>p cs' s' w'. csel_get_next strategies random cs s w = Ret (p, cs', s', w') \<and>
    csel_wf cs' \<and> mset (cs_chans cs') = mset (cs_chans cs) \<and> cs_lock cs' = cs_lock cs \<and>
    (case p of Some q \<Rightarrow> \<exists>a \<in> set (cs_chans cs). \<exists>v. cs_occupy cs a v = (Some q, w')
             | None \<Rightarrow> \<forall>a \<in> set (cs_chans cs). \<exists>v v'. cs_occupy cs a v = (None, v'))"
proof -
  have inv: "csel_inv (cs_occupy cs) (cs, s)" using assms by (simp add: csel_inv_def)
  obtain p cs' s' w' where r: "csel_get_next strategies random cs s w = Ret (p, cs', s', w')"
    "csel_inv (cs_occupy cs) (cs', s')" "mset (cs_chans cs') = mset (cs_chans cs)" "cs_lock cs' = cs_lock cs"
    using csel_get_next_tries [OF inv, of random w] by blast
  then have n: "csel_next random (cs, s) w = Ret (p, (cs', s'), w')" by (simp add: csel_next_def)
  show ?thesis
  proof (cases p)
    case None
    with sel.nxt_none [OF inv, of random w] n r show ?thesis
      by (auto simp: csel_inv_def csel_pool_def)
  next
    case (Some q)
    with sel.nxt_some [OF inv, of random w] n r show ?thesis
      by (auto simp: csel_inv_def csel_pool_def)
  qed
qed

theorem csel_get_next_contract_witness:
  "\<exists>p cs' s' w'. csel_get_next strategies (\<lambda>s. (s, s))
      ((fresh_csel 0 (\<lambda>a w. (if a = 4 then Some a else None, w + a)))\<lparr>cs_data := Some (SD \<lparr>sd_size = 1, sd_arr = [4::nat]\<rparr>)\<rparr>)
      0 3 = Ret (p, cs', s', w')"
  using csel_get_next_contract [of
      "((fresh_csel 0 (\<lambda>a w. (if a = 4 then Some a else None, w + a)))\<lparr>cs_data := Some (SD \<lparr>sd_size = 1, sd_arr = [4::nat]\<rparr>)\<rparr>)"
      "\<lambda>s. (s, s)" 0 3]
  by (force simp: fresh_csel_def csel_wf_def cs_chans_def)

text \<open>
  Creating a selection and adding channels gives a well-formed pool of exactly these channels,
  in order, with the strategy the name selects: the names are compared ignoring case, and no name, an
  empty one and an unknown one select the standard strategy.
\<close>

theorem csel_create_and_add:
  assumes "pred_option cstr strategy"
  shows "\<exists>cs0 cs. csel_create True True strategies strategy occ fr refs w = Ret (Some cs0, refs + 1, w) \<and>
    csel_add_all strategies cs0 as = Ret cs \<and> csel_wf cs \<and> cs_chans cs = as \<and> cs_occupy cs = occ \<and>
    cs_m cs = named_strategy strategy"
  using csel_create_fresh [OF assms] fresh_csel_built [OF named_strategy_le, of strategy occ "as"] by fastforce

theorem csel_create_and_add_witness:
  "\<exists>cs0 cs. csel_create True True strategies (Some ''Round_Robin'') occupy_busy None 0 {} = Ret (Some cs0, 0 + 1, {}) \<and>
    csel_add_all strategies cs0 [10::nat, 11] = Ret cs \<and> csel_wf cs \<and> cs_chans cs = [10, 11] \<and>
    cs_occupy cs = occupy_busy \<and> cs_m cs = named_strategy (Some ''Round_Robin'')"
  by (rule csel_create_and_add) simp

text \<open>
  C33. Round robin: with channels that can always be occupied, successive calls go through the pool
  in a cycle. The first call after the creation gives the second channel added.
\<close>

theorem round_robin_cycles:
  assumes "as \<noteq> []"
  shows "\<exists>cs0 cs c'.
    csel_create True True strategies (Some ''round_robin'') always_free fr refs w = Ret (Some cs0, refs + 1, w) \<and>
    csel_add_all strategies cs0 as = Ret cs \<and>
    calls (csel_next random) k (cs, s) w = Ret (map (\<lambda>i. Some (as ! (Suc i mod length as))) [0..<k], c', w)"
proof -
  have m: "named_strategy (Some ''round_robin'') = 2"
    using strategy_names_lower(3) by (simp add: named_strategy_def del: map_eq_Cons_conv)
  then have create: "csel_create True True strategies (Some ''round_robin'') always_free fr refs w =
      Ret (Some (fresh_csel 2 always_free), refs + 1, w)"
    by (simp add: csel_create_fresh)
  obtain cs :: "('a, 'a, 'b) csel" and d where cs: "csel_add_all strategies (fresh_csel 2 always_free) as = Ret cs" "csel_wf cs"
    "cs_occupy cs = always_free" and d: "cs_data cs = Some (RR d)" "rr_curr d = 0" "rr_arr d = as"
    using rr_built by blast
  from rr_calls [OF d(1) cs(2) _ cs(3), of random k s w] assms d(2,3) obtain c' where
    "calls (csel_next random) k (cs, s) w = Ret (map (\<lambda>i. Some (as ! (Suc i mod length as))) [0..<k], c', w)"
    by auto
  with create cs(1) show ?thesis by blast
qed

theorem round_robin_cycles_witness:
  "\<exists>cs0 cs c'.
    csel_create True True strategies (Some ''round_robin'') always_free None 0 () = Ret (Some cs0, 0 + 1, ()) \<and>
    csel_add_all strategies cs0 [10::nat, 11, 12] = Ret cs \<and>
    calls (csel_next (\<lambda>s. (s, s))) 4 (cs, 0) () = Ret ([Some 11, Some 12, Some 10, Some 11], c', ())"
proof -
  have "map (\<lambda>i. Some ([10::nat, 11, 12] ! (Suc i mod length [10::nat, 11, 12]))) [0..<4] =
      [Some 11, Some 12, Some 10, Some 11]" by code_simp
  moreover have "[10::nat, 11, 12] \<noteq> []" by simp
  ultimately show ?thesis
    using round_robin_cycles [of "[10::nat, 11, 12]" None 0 "()" "\<lambda>s. (s, s)" 4 0] by (simp only: simp_thms)
qed

text \<open>
  Asking a round robin selection for a channel before one was added divides by zero; the other
  strategies report that there is none.
\<close>

theorem round_robin_empty_pool_faults:
  "csel_get_next strategies random (fresh_csel 2 occ) s w = Fault \<and>
   csel_get_next strategies random (fresh_csel 0 occ) s w = Ret (None, fresh_csel 0 occ, s, w) \<and>
   csel_get_next strategies random (fresh_csel 1 occ) s w = Ret (None, fresh_csel 1 occ, s, w)"
  by (simp add: csel_get_next_def fresh_csel_def fresh_data_def rr_get_next_def standard_get_next_def
      rand_get_next_def standard_loop.simps csel_LOCK_def csel_UNLOCK_def)

text \<open>
  The function the driver passes to free its channels is not kept: destroying a selection
  calls it on no channel, whatever was added; only the failure path of the creation calls it, on
  the selection structure.
\<close>

theorem csel_free_not_used:
  assumes "pred_option cstr strategy"
  shows "csel_create True False strategies strategy occ (Some f) refs w = Ret (None, refs, f Csel_struct w) \<and>
    (\<exists>cs0 cs. csel_create True True strategies strategy occ (Some f) refs w = Ret (Some cs0, refs + 1, w) \<and>
       csel_add_all strategies cs0 as = Ret cs \<and> csel_destroy strategies cs (refs + 1) w = Ret (refs, w))"
proof -
  note le = named_strategy_le [of strategy]
  have "csel_create True False strategies strategy occ (Some f) refs w = Ret (None, refs, f Csel_struct w)"
    using le by (auto simp: csel_create_def Let_def standard_init_def rand_init_def rr_init_def
        strategy_index_known [OF assms])
  moreover obtain cs where cs: "csel_add_all strategies (fresh_csel (named_strategy strategy) occ) as = Ret cs"
    "cs_free cs = None" "cs_m cs = named_strategy strategy"
    using fresh_csel_built [OF le, of occ "as"] by blast
  have "free_arr None sz arr w = w" for sz and arr :: "'a list" by (cases arr) auto
  then have "csel_destroy strategies cs (refs + 1) w = Ret (refs, w)"
    using le cs(2,3)
    by (auto simp: csel_destroy_def standard_destroy_def rand_destroy_def rr_destroy_def
        split: option.split csel_data.split)
  with cs(1) csel_create_fresh [OF assms, of occ "Some f" refs w] have
    "\<exists>cs0 cs. csel_create True True strategies strategy occ (Some f) refs w = Ret (Some cs0, refs + 1, w) \<and>
       csel_add_all strategies cs0 as = Ret cs \<and> csel_destroy strategies cs (refs + 1) w = Ret (refs, w)"
    by blast
  ultimately show ?thesis by blast
qed

theorem csel_free_not_used_witness:
  "csel_create True False strategies (Some ''random'') occupy_busy (Some (\<lambda>p w. {})) 0 {1::nat} = Ret (None, 0, {}) \<and>
    (\<exists>cs0 cs. csel_create True True strategies (Some ''random'') occupy_busy (Some (\<lambda>p w. {})) 0 {1::nat}
         = Ret (Some cs0, 0 + 1, {1}) \<and>
       csel_add_all strategies cs0 [10, 11] = Ret cs \<and> csel_destroy strategies cs (0 + 1) {1} = Ret (0, {1}))"
  by (rule csel_free_not_used) simp

end
