(* ===== verification/Configman.thy ===== *)
theory Configman
  imports Hash
begin

text \<open>
  The configuration manager (\<open>chan_gsm/compat/res_configman.c\<close> and \<open>configman.h\<close>): a module
  describes its sections and directives, a file is read into one matrix of strings per section
  (row 0 holds the defaults), keyed sections get a hash table from keys to rows and a sorted
  array of keys.

  What the code gets from Asterisk's configuration reader is an argument: the categories the
  browsing loop delivers, each with its variables. \<open>strdup\<close>, \<open>calloc\<close> and \<open>realloc\<close> succeed
  where the code does not look at their result, and their outcome is an argument where it does.
  \<open>num_directives\<close> and \<open>num_secs\<close> are the lengths of the arrays they describe, which is how the
  sources initialise them. Log messages are not modelled.
\<close>

declare run_bind_cong [fundef_cong]


section \<open>Scanning\<close>

fun digits_val :: "int \<Rightarrow> string \<Rightarrow> int" where
  "digits_val acc [] = acc"
| "digits_val acc (c # cs) = digits_val (acc * 10 + (int (of_char c) - 48)) cs"

text \<open>
  The conversion \<open>%d\<close>: white space, a sign, digits; the value saturates as \<open>strtol\<close> does on a
  32-bit target. The result is the value and the rest of the input, \<open>Scan_fail\<close> for a matching
  failure and \<open>Scan_eof\<close> when the input ends before a character was seen.
\<close>

datatype scan = Scan_ok int string | Scan_fail | Scan_eof

definition clamp_int :: "int \<Rightarrow> int" where
  "clamp_int n = max (- (2 ^ 31)) (min (2 ^ 31 - 1) n)"

definition scan_digits :: "bool \<Rightarrow> string \<Rightarrow> scan" where
  "scan_digits neg s =
     (let ds = takeWhile isdigit s in
      if ds = [] then Scan_fail
      else Scan_ok (clamp_int (if neg then - digits_val 0 ds else digits_val 0 ds)) (dropWhile isdigit s))"

definition scan_int :: "string \<Rightarrow> scan" where
  "scan_int s =
     (case dropWhile isspace s of
        [] \<Rightarrow> Scan_eof
      | c # cs \<Rightarrow>
          if c = CHR ''-'' then scan_digits True cs
          else if c = CHR ''+'' then scan_digits False cs
          else scan_digits False (c # cs))"

text \<open>
  \<open>sscanf(s, "%d", &n)\<close> and \<open>sscanf(s, "%d-%d", &a, &b)\<close>: the value returned (-1 is EOF) and
  the variables that were assigned.
\<close>

definition sscanf_d :: "string \<Rightarrow> int \<times> int option" where
  "sscanf_d s = (case scan_int s of Scan_ok n _ \<Rightarrow> (1, Some n) | Scan_fail \<Rightarrow> (0, None) | Scan_eof \<Rightarrow> (- 1, None))"

definition sscanf_d_d :: "string \<Rightarrow> int \<times> int option \<times> int option" where
  "sscanf_d_d s =
     (case scan_int s of
        Scan_eof \<Rightarrow> (- 1, None, None)
      | Scan_fail \<Rightarrow> (0, None, None)
      | Scan_ok a rest \<Rightarrow>
          (case rest of
             [] \<Rightarrow> (1, Some a, None)
           | c # cs \<Rightarrow>
               if c = CHR ''-'' then
                 (case scan_int cs of Scan_ok b _ \<Rightarrow> (2, Some a, Some b) | _ \<Rightarrow> (1, Some a, None))
               else (1, Some a, None)))"

text \<open>The tokens \<open>strsep(&tmp, ",")\<close> delivers, empty ones included.\<close>

fun split_on :: "char \<Rightarrow> string \<Rightarrow> string list" where
  "split_on c [] = [[]]"
| "split_on c (x # xs) =
     (if x = c then [] # split_on c xs
      else (case split_on c xs of [] \<Rightarrow> [[x]] | t # ts \<Rightarrow> (x # t) # ts))"


section \<open>Types (configman.h, res_configman.c)\<close>

record cm_dir =
  d_name :: "string option"
  d_def :: "string option"
  d_desc :: "string option"

datatype ktype = KTYPE_NONE | KTYPE_INTEGER | KTYPE_STRING

record cm_section =
  s_name :: string
  s_default_name :: "string option"
  s_key_field :: "string option"
  s_key_type :: ktype
  s_directives :: "cm_dir list"

definition num_directives :: "cm_section \<Rightarrow> nat" where
  "num_directives sec = length (s_directives sec)"

type_synonym cm_row = "string option list"

record cm_matrix =
  m_num_rows :: int
  m_rows :: "cm_row option list"

text \<open>The unions: a table with integer or with string keys, and a key of either kind.\<close>

datatype cm_hash = Hash_i "(int, int) hash" | Hash_c "(string, int) hash"

datatype cm_key = Key_i int | Key_c "string option"

datatype cm_state = CM_NULL | CM_CREATED | CM_LOADED

record cm =
  cm_lock :: nat
  cm_state :: cm_state
  cm_modname :: string
  cm_filename :: "string option"
  cm_secs :: "cm_section list"
  cm_vals :: "cm_matrix list"
  cm_hashes :: "cm_hash option list"
  cm_key_arrays :: "cm_key list option list"
  cm_clis :: "string list"

definition HASHSIZE :: nat where "HASHSIZE = 512"

definition cm_LOCK :: "cm \<Rightarrow> cm" where
  "cm_LOCK cm = cm\<lparr>cm_lock := cm_lock cm + 1\<rparr>"

definition cm_UNLOCK :: "cm \<Rightarrow> cm" where
  "cm_UNLOCK cm = cm\<lparr>cm_lock := cm_lock cm - 1\<rparr>"

text \<open>\<open>_length\<close> lies at the same place in both members of the union.\<close>

fun cm_hash_length :: "cm_hash \<Rightarrow> nat" where
  "cm_hash_length (Hash_i h) = AST_HASH_LENGTH_NOLOCK h"
| "cm_hash_length (Hash_c h) = AST_HASH_LENGTH_NOLOCK h"


section \<open>Columns and rows\<close>

fun get_col_loop :: "cm_dir list \<Rightarrow> string \<Rightarrow> int \<Rightarrow> int" where
  "get_col_loop [] name i = - 1"
| "get_col_loop (d # ds) name i =
     (case d_name d of
        None \<Rightarrow> get_col_loop ds name (i + 1)
      | Some n \<Rightarrow> if strcasecmp n name = 0 then i else get_col_loop ds name (i + 1))"

definition get_col :: "cm_section \<Rightarrow> string \<Rightarrow> int" where
  "get_col sec name =
     (if strcasecmp (s_name sec) name = 0 then 0 else get_col_loop (s_directives sec) name 0)"

text \<open>The loop over the variables: a directive given again is appended after a comma.\<close>

fun read_vars :: "cm_section \<Rightarrow> cm_row \<Rightarrow> (string \<times> string) list \<Rightarrow> cm_row run" where
  "read_vars sec row [] = Ret row"
| "read_vars sec row ((name, val) # v) =
     (let pos = get_col sec name in
      if pos \<ge> 0 then
        run_bind (arr_get row pos) (\<lambda>old.
        run_bind (arr_set row pos
            (Some (case old of Some s \<Rightarrow> s @ '','' @ val | None \<Rightarrow> val))) (\<lambda>row.
          read_vars sec row v))
      else read_vars sec row v)"

definition read_row :: "cm_section \<Rightarrow> cm_row option \<Rightarrow> string \<Rightarrow> (string \<times> string) list \<Rightarrow> cm_row run" where
  "read_row sec row_p cat v =
     (let row = (case row_p of None \<Rightarrow> replicate (num_directives sec) None | Some row \<Rightarrow> row) in
      run_bind (arr_get row 0) (\<lambda>first.
      run_bind (if first = None then arr_set row 0 (Some cat) else Ret row) (\<lambda>row.
        read_vars sec row v)))"

definition read_row_at ::
  "cm_section \<Rightarrow> cm_matrix \<Rightarrow> int \<Rightarrow> string \<Rightarrow> (string \<times> string) list \<Rightarrow> cm_matrix run" where
  "read_row_at sec matrix i cat v =
     run_bind (arr_get (m_rows matrix) i) (\<lambda>row_p.
     run_bind (read_row sec row_p cat v) (\<lambda>row.
     run_map (\<lambda>rows. matrix\<lparr>m_rows := rows\<rparr>) (arr_set (m_rows matrix) i (Some row))))"

definition read_category_1 ::
  "cm_section \<Rightarrow> cm_matrix \<Rightarrow> string \<Rightarrow> (string \<times> string) list \<Rightarrow> cm_matrix run" where
  "read_category_1 sec matrix cat v =
     (let matrix = (if m_num_rows matrix = 0 then matrix\<lparr>m_num_rows := 1, m_rows := [None]\<rparr> else matrix) in
      read_row_at sec matrix 0 cat v)"

text \<open>The search for the row of a category; a row that is missing, or has no name, is a NULL pointer.\<close>

function find_row :: "cm_matrix \<Rightarrow> string \<Rightarrow> int \<Rightarrow> int option run" where
  "find_row matrix cat row =
     (if row < m_num_rows matrix then
        run_bind (arr_get (m_rows matrix) row) (\<lambda>r.
          case r of
            None \<Rightarrow> Fault
          | Some r \<Rightarrow>
              run_bind (arr_get r 0) (\<lambda>name.
                case name of
                  None \<Rightarrow> Fault
                | Some name \<Rightarrow>
                    if strcasecmp name cat = 0 then Ret (Some row) else find_row matrix cat (row + 1)))
      else Ret None)"
  by pat_completeness auto
termination
  by (relation "measure (\<lambda>(matrix, cat, row). nat (m_num_rows matrix - row))") auto

declare find_row.simps [simp del]

definition read_category_n ::
  "cm_section \<Rightarrow> cm_matrix \<Rightarrow> string \<Rightarrow> (string \<times> string) list \<Rightarrow> cm_matrix run" where
  "read_category_n sec matrix cat v =
     run_bind (find_row matrix cat 1) (\<lambda>found.
       case found of
         Some row \<Rightarrow> read_row_at sec matrix row cat v
       | None \<Rightarrow>
           (let matrix =
              (if m_num_rows matrix = 0 then \<lparr>m_num_rows = 2, m_rows = [None, None]\<rparr>
               else \<lparr>m_num_rows = m_num_rows matrix + 1, m_rows = m_rows matrix @ [None]\<rparr>)
            in read_row_at sec matrix (m_num_rows matrix - 1) cat v))"


section \<open>Hashing the keys\<close>

text \<open>
  \<open>for (; start <= end; start++)\<close>: the result is the table and the value of \<open>start\<close> after the
  loop. With the largest \<open>int\<close> as its end the loop never ends.
\<close>

function hash_range :: "(int, int) hash \<Rightarrow> int \<Rightarrow> int \<Rightarrow> int \<Rightarrow> ((int, int) hash \<times> int) run" where
  "hash_range h start end i =
     (if start \<le> end then
        if end = 2 ^ 31 - 1 then Hang
        else
          run_bind (AST_HASH_INSERT_NOLOCK h start i) (\<lambda>(h, re). hash_range h (start + 1) end i)
      else Ret (h, start))"
  by pat_completeness auto
termination
  by (relation "measure (\<lambda>(h, start, end, i). nat (end + 1 - start))") auto

declare hash_range.simps [simp del]

text \<open>
  The tokens of one key field. \<open>start\<close> is a local variable of the function that keeps its value
  from token to token: a failed scan leaves it as it is.
\<close>

fun hash_tokens :: "(int, int) hash \<Rightarrow> int \<Rightarrow> string list \<Rightarrow> int \<Rightarrow> ((int, int) hash \<times> int) run" where
  "hash_tokens h start [] i = Ret (h, start)"
| "hash_tokens h start (token # ts) i =
     (if token = [] then hash_tokens h start ts i
      else
        (case sscanf_d_d token of
           (n, a, b) \<Rightarrow>
             (let start = (case a of Some a \<Rightarrow> a | None \<Rightarrow> start) in
              if n \<ge> 2 then
                run_bind (hash_range h start (the b) i) (\<lambda>(h, start). hash_tokens h start ts i)
              else
                (case sscanf_d token of
                   (n, a) \<Rightarrow>
                     (let start = (case a of Some a \<Rightarrow> a | None \<Rightarrow> start) in
                      if n \<noteq> 0 then
                        run_bind (AST_HASH_INSERT_NOLOCK h start i) (\<lambda>(h, re). hash_tokens h start ts i)
                      else hash_tokens h start ts i)))))"

function hash_rows_int ::
  "cm_matrix \<Rightarrow> int \<Rightarrow> (int, int) hash \<Rightarrow> int \<Rightarrow> int \<Rightarrow> (int, int) hash run" where
  "hash_rows_int matrix pos h start i =
     (if i < m_num_rows matrix then
        run_bind (arr_get (m_rows matrix) i) (\<lambda>row.
          case row of
            None \<Rightarrow> Fault
          | Some row \<Rightarrow>
              run_bind (arr_get row pos) (\<lambda>val.
                case val of
                  None \<Rightarrow> hash_rows_int matrix pos h start (i + 1)
                | Some val \<Rightarrow>
                    run_bind (hash_tokens h start (split_on (CHR '','') val) i) (\<lambda>(h, start).
                      hash_rows_int matrix pos h start (i + 1))))
      else Ret h)"
  by pat_completeness auto
termination
  by (relation "measure (\<lambda>(matrix, pos, h, start, i). nat (m_num_rows matrix - i))") auto

declare hash_rows_int.simps [simp del]

function hash_rows_str :: "cm_matrix \<Rightarrow> int \<Rightarrow> (string, int) hash \<Rightarrow> int \<Rightarrow> (string, int) hash run" where
  "hash_rows_str matrix pos h i =
     (if i < m_num_rows matrix then
        run_bind (arr_get (m_rows matrix) i) (\<lambda>row.
          case row of
            None \<Rightarrow> Fault
          | Some row \<Rightarrow>
              run_bind (arr_get row pos) (\<lambda>val.
                case val of
                  None \<Rightarrow> hash_rows_str matrix pos h (i + 1)
                | Some val \<Rightarrow>
                    run_bind (AST_HASH_INSERT_NOLOCK h val i) (\<lambda>(h, re).
                      hash_rows_str matrix pos h (i + 1))))
      else Ret h)"
  by pat_completeness auto
termination
  by (relation "measure (\<lambda>(matrix, pos, h, i). nat (m_num_rows matrix - i))") auto

declare hash_rows_str.simps [simp del]

text \<open>\<open>start0\<close> is the content of the local variable \<open>start\<close> before the first assignment.\<close>

definition hash_categories ::
  "int \<Rightarrow> cm_section \<Rightarrow> cm_matrix \<Rightarrow> cm_hash option \<Rightarrow> cm_hash option run" where
  "hash_categories start0 sec matrix hash =
     (case s_key_type sec of
        KTYPE_INTEGER \<Rightarrow>
          (case (case hash of None \<Rightarrow> Hash_i (AST_HASH_INIT_INT 0 HASHSIZE) | Some h \<Rightarrow> h) of
             Hash_c _ \<Rightarrow> Fault
           | Hash_i h \<Rightarrow>
               (case s_key_field sec of
                  None \<Rightarrow> Fault
                | Some field \<Rightarrow>
                    (let pos = get_col sec field in
                     if pos < 0 then Ret (Some (Hash_i h))
                     else run_map (\<lambda>h. Some (Hash_i h)) (hash_rows_int matrix pos h start0 1))))
      | KTYPE_STRING \<Rightarrow>
          (case (case hash of None \<Rightarrow> Hash_c (AST_HASH_INIT_STR 0 HASHSIZE) | Some h \<Rightarrow> h) of
             Hash_i _ \<Rightarrow> Fault
           | Hash_c h \<Rightarrow>
               (case s_key_field sec of
                  None \<Rightarrow> Fault
                | Some field \<Rightarrow>
                    (let pos = get_col sec field in
                     if pos < 0 then Ret (Some (Hash_c h))
                     else run_map (\<lambda>h. Some (Hash_c h)) (hash_rows_str matrix pos h 1))))
      | KTYPE_NONE \<Rightarrow> Ret hash)"


section \<open>Defaults\<close>

fun fill_cols :: "cm_row \<Rightarrow> cm_dir list \<Rightarrow> int \<Rightarrow> cm_row run" where
  "fill_cols row [] i = Ret row"
| "fill_cols row (d # ds) i =
     run_bind (arr_get row i) (\<lambda>val.
       if val = None \<and> d_def d \<noteq> None
       then run_bind (arr_set row i (d_def d)) (\<lambda>row. fill_cols row ds (i + 1))
       else fill_cols row ds (i + 1))"

definition fill_defaults :: "cm_section \<Rightarrow> cm_matrix \<Rightarrow> cm_matrix run" where
  "fill_defaults sec matrix =
     (let matrix = (if m_num_rows matrix = 0 then matrix\<lparr>m_num_rows := 1, m_rows := [None]\<rparr> else matrix) in
      run_bind (arr_get (m_rows matrix) 0) (\<lambda>row_p.
      (let row = (case row_p of None \<Rightarrow> replicate (num_directives sec) None | Some row \<Rightarrow> row) in
       run_bind (arr_get row 0) (\<lambda>first.
       run_bind (if first = None
                 then arr_set row 0 (Some (case s_default_name sec of Some n \<Rightarrow> n | None \<Rightarrow> s_name sec))
                 else Ret row) (\<lambda>row.
       run_bind (fill_cols row (drop 1 (s_directives sec)) 1) (\<lambda>row.
       run_map (\<lambda>rows. matrix\<lparr>m_rows := rows\<rparr>) (arr_set (m_rows matrix) 0 (Some row))))))))"


section \<open>The sorted arrays of keys\<close>

text \<open>
  The first loop of an insertion looks for the position, the second moves the rest up. -1 and
  NULL mark free elements.
\<close>

function int_pos :: "int list \<Rightarrow> int \<Rightarrow> int \<Rightarrow> int run" where
  "int_pos keys key i =
     run_bind (arr_get keys i) (\<lambda>k. if k \<noteq> - 1 \<and> k \<le> key then int_pos keys key (i + 1) else Ret i)"
  by pat_completeness auto
termination
  by (relation "measure (\<lambda>(keys, key, i). nat (int (length keys) - i))")
     (auto simp: arr_get_def split: if_splits)

function int_shift :: "int list \<Rightarrow> int \<Rightarrow> int \<Rightarrow> int list run" where
  "int_shift keys b i =
     (if b \<noteq> - 1 then
        run_bind (arr_get keys i) (\<lambda>a.
        run_bind (arr_set keys i b) (\<lambda>keys. int_shift keys a (i + 1)))
      else Ret keys)"
  by pat_completeness auto
termination
  by (relation "measure (\<lambda>(keys, b, i). nat (int (length keys) - i))")
     (auto simp: arr_get_def arr_set_def split: if_splits)

declare int_pos.simps [simp del] int_shift.simps [simp del]

definition keys_insert_sorted_int :: "int list \<Rightarrow> int \<Rightarrow> int list run" where
  "keys_insert_sorted_int keys key =
     run_bind (int_pos keys key 0) (\<lambda>i.
     run_bind (arr_get keys i) (\<lambda>b.
     run_bind (arr_set keys i key) (\<lambda>keys. int_shift keys b (i + 1))))"

function str_pos :: "string option list \<Rightarrow> string \<Rightarrow> int \<Rightarrow> int run" where
  "str_pos keys key i =
     run_bind (arr_get keys i) (\<lambda>k.
       case k of
         None \<Rightarrow> Ret i
       | Some s \<Rightarrow> if strcasecmp s key \<le> 0 then str_pos keys key (i + 1) else Ret i)"
  by pat_completeness auto
termination
  by (relation "measure (\<lambda>(keys, key, i). nat (int (length keys) - i))")
     (auto simp: arr_get_def split: if_splits)

function str_shift :: "string option list \<Rightarrow> string option \<Rightarrow> int \<Rightarrow> string option list run" where
  "str_shift keys b i =
     (if b \<noteq> None then
        run_bind (arr_get keys i) (\<lambda>a.
        run_bind (arr_set keys i b) (\<lambda>keys. str_shift keys a (i + 1)))
      else Ret keys)"
  by pat_completeness auto
termination
  by (relation "measure (\<lambda>(keys, b, i). nat (int (length keys) - i))")
     (auto simp: arr_get_def arr_set_def split: if_splits)

declare str_pos.simps [simp del] str_shift.simps [simp del]

definition keys_insert_sorted_string :: "string option list \<Rightarrow> string \<Rightarrow> string option list run" where
  "keys_insert_sorted_string keys key =
     run_bind (str_pos keys key 0) (\<lambda>i.
     run_bind (arr_get keys i) (\<lambda>b.
     run_bind (arr_set keys i (Some key)) (\<lambda>keys. str_shift keys b (i + 1))))"

fun insert_all :: "('a \<Rightarrow> 'k \<Rightarrow> 'a run) \<Rightarrow> 'a \<Rightarrow> 'k list \<Rightarrow> 'a run" where
  "insert_all ins keys [] = Ret keys"
| "insert_all ins keys (k # ks) = run_bind (ins keys k) (\<lambda>keys. insert_all ins keys ks)"

definition init_keys :: "cm_hash option \<Rightarrow> ktype \<Rightarrow> cm_key list option \<Rightarrow> cm_key list option run" where
  "init_keys hash ktype keys =
     (case ktype of
        KTYPE_INTEGER \<Rightarrow>
          (case hash of
             Some (Hash_i h) \<Rightarrow>
               run_map (\<lambda>ks. Some (map Key_i ks))
                 (insert_all keys_insert_sorted_int (replicate (AST_HASH_LENGTH_NOLOCK h) (- 1))
                    (map fst (AST_HASH_TRAVERSE_NOLOCK h)))
           | _ \<Rightarrow> Fault)
      | KTYPE_STRING \<Rightarrow>
          (case hash of
             Some (Hash_c h) \<Rightarrow>
               run_map (\<lambda>ks. Some (map Key_c ks))
                 (insert_all keys_insert_sorted_string (replicate (AST_HASH_LENGTH_NOLOCK h) None)
                    (map fst (AST_HASH_TRAVERSE_NOLOCK h)))
           | _ \<Rightarrow> Fault)
      | KTYPE_NONE \<Rightarrow> Ret keys)"


section \<open>Looking up values\<close>

text \<open>The variadic argument: a key of either kind, or none.\<close>

datatype cm_id = Id_none | Id_int int | Id_str string

text \<open>
  The row a key selects: \<open>Ret None\<close> for an unknown key or a section without a table. Reading
  an argument of the wrong kind is undefined.
\<close>

definition key_row :: "cm_section \<Rightarrow> cm_hash option \<Rightarrow> cm_id \<Rightarrow> int option run" where
  "key_row sec hash ident =
     (case s_key_type sec of
        KTYPE_NONE \<Rightarrow> Ret None
      | KTYPE_INTEGER \<Rightarrow>
          (case ident of
             Id_int n \<Rightarrow>
               (case hash of
                  None \<Rightarrow> Ret None
                | Some (Hash_i h) \<Rightarrow> AST_HASH_LOOKUP_NOLOCK h n
                | Some (Hash_c h) \<Rightarrow> Fault)
           | _ \<Rightarrow> Fault)
      | KTYPE_STRING \<Rightarrow>
          (case ident of
             Id_str s \<Rightarrow>
               (case hash of
                  None \<Rightarrow> Ret None
                | Some (Hash_c h) \<Rightarrow> AST_HASH_LOOKUP_NOLOCK h s
                | Some (Hash_i h) \<Rightarrow> Fault)
           | _ \<Rightarrow> Fault))"

definition cm_id_valid :: "cm option \<Rightarrow> int \<Rightarrow> cm_id \<Rightarrow> (cm option \<times> int) run" where
  "cm_id_valid cm_p sec_id ident =
     (case cm_p of
        None \<Rightarrow> Ret (None, 0)
      | Some cm \<Rightarrow>
          (let cm = cm_LOCK cm in
           if cm_state cm \<noteq> CM_LOADED \<or> sec_id \<ge> int (length (cm_secs cm)) \<or> sec_id < 0
           then Ret (Some (cm_UNLOCK cm), 0)
           else
             run_bind (arr_get (cm_secs cm) sec_id) (\<lambda>sec.
             run_bind (arr_get (cm_hashes cm) sec_id) (\<lambda>hash.
             run_map (\<lambda>row. (Some (cm_UNLOCK cm), if row = None then 0 else 1)) (key_row sec hash ident)))))"

text \<open>
  A value of the matrix. \<open>get_val\<close> is the expression \<open>cm->vals[sec_id].rows[row][elem_id]\<close>;
  a row that was never allocated is a NULL pointer.
\<close>

definition get_val :: "cm_matrix \<Rightarrow> int \<Rightarrow> int \<Rightarrow> string option run" where
  "get_val matrix row elem =
     run_bind (arr_get (m_rows matrix) row) (\<lambda>r. case r of None \<Rightarrow> Fault | Some r \<Rightarrow> arr_get r elem)"

text \<open>
  The end of \<open>cm_get\<close>: \<open>memccpy(buf, val, 0, size)\<close> finds the terminating NUL within \<open>size\<close>
  bytes or the buffer is made empty. The result is the return value and the string in \<open>buf\<close>.
\<close>

definition copy_out :: "string option \<Rightarrow> nat \<Rightarrow> int \<times> string option" where
  "copy_out val n =
     (case val of
        None \<Rightarrow> (- 1, Some [])
      | Some s \<Rightarrow> if length s < n then (0, Some s) else (- 1, Some []))"

text \<open>
  \<open>buf\<close> says whether the caller passed a buffer. The result: the return value and the string
  stored in the buffer, \<open>None\<close> when the buffer was not written.
\<close>

definition cm_get ::
  "cm option \<Rightarrow> bool \<Rightarrow> nat \<Rightarrow> int \<Rightarrow> int \<Rightarrow> cm_id \<Rightarrow> (cm option \<times> int \<times> string option) run" where
  "cm_get cm_p buf n sec_id elem_id ident =
     (case cm_p of
        None \<Rightarrow> Ret (None, - 1, None)
      | Some cm \<Rightarrow>
          (let cm = cm_LOCK cm in
           if cm_state cm \<noteq> CM_LOADED then Ret (Some (cm_UNLOCK cm), - 1, None)
           else if \<not> buf \<or> n = 0 \<or> sec_id \<ge> int (length (cm_secs cm)) \<or> sec_id < 0 \<or> elem_id < 0 \<or>
             elem_id \<ge> int (num_directives (cm_secs cm ! nat sec_id))
           then Ret (Some (cm_UNLOCK cm), - 1, None)
           else
             run_bind (arr_get (cm_secs cm) sec_id) (\<lambda>sec.
             run_bind (arr_get (cm_vals cm) sec_id) (\<lambda>matrix.
               if s_key_type sec = KTYPE_NONE then
                 run_map (\<lambda>val. (Some (cm_UNLOCK cm), copy_out val n)) (get_val matrix 0 elem_id)
               else
                 run_bind (arr_get (cm_hashes cm) sec_id) (\<lambda>hash.
                 run_bind (key_row sec hash ident) (\<lambda>found.
                   case found of
                     None \<Rightarrow> Ret (Some (cm_UNLOCK cm), - 1, None)
                   | Some row \<Rightarrow>
                       run_bind (get_val matrix row elem_id) (\<lambda>val.
                       run_bind (if val = None then get_val matrix 0 elem_id else Ret val) (\<lambda>val.
                         Ret (Some (cm_UNLOCK cm), copy_out val n)))))))))"


section \<open>Iterating over the keys\<close>

text \<open>The index of a key in the array, or the number of keys.\<close>

function find_key :: "(cm_key \<Rightarrow> bool run) \<Rightarrow> cm_key list \<Rightarrow> int \<Rightarrow> int \<Rightarrow> int run" where
  "find_key is_prev keys len i =
     (if i < len then
        run_bind (arr_get keys i) (\<lambda>k.
        run_bind (is_prev k) (\<lambda>eq. if eq then Ret i else find_key is_prev keys len (i + 1)))
      else Ret i)"
  by pat_completeness auto
termination
  by (relation "measure (\<lambda>(is_prev, keys, len, i). nat (len - i))") auto

declare find_key.simps [simp del]

definition next_key :: "(cm_key \<Rightarrow> bool run) \<Rightarrow> cm_key list \<Rightarrow> int \<Rightarrow> cm_key option run" where
  "next_key is_prev keys len =
     run_bind (find_key is_prev keys len 0) (\<lambda>i.
       if i \<ge> len - 1 then Ret None else run_map Some (arr_get keys (i + 1)))"

definition is_int_key :: "int \<Rightarrow> cm_key \<Rightarrow> bool run" where
  "is_int_key p k = (case k of Key_i n \<Rightarrow> Ret (n = p) | Key_c _ \<Rightarrow> Fault)"

definition is_str_key :: "string \<Rightarrow> cm_key \<Rightarrow> bool run" where
  "is_str_key p k = (case k of Key_c (Some s) \<Rightarrow> Ret (strcasecmp s p = 0) | _ \<Rightarrow> Fault)"

text \<open>
  \<open>prev\<close> is the key the pointer \<open>prev\<close> leads to, \<open>None\<close> for NULL. The result is the return
  value and the key stored through \<open>next\<close> (\<open>None\<close>: nothing was stored).
\<close>

definition cm_get_next_id ::
  "cm option \<Rightarrow> int \<Rightarrow> cm_key option \<Rightarrow> (cm option \<times> int \<times> cm_key option) run" where
  "cm_get_next_id cm_p sec_id prev =
     (case cm_p of
        None \<Rightarrow> Ret (None, 0, None)
      | Some cm \<Rightarrow>
          (let cm = cm_LOCK cm; err = Ret (Some (cm_UNLOCK cm), 0, None) in
           if cm_state cm \<noteq> CM_LOADED \<or> sec_id \<ge> int (length (cm_secs cm)) \<or> sec_id < 0 \<or>
             s_key_type (cm_secs cm ! nat sec_id) = KTYPE_NONE then err
           else
             run_bind (arr_get (cm_hashes cm) sec_id) (\<lambda>hash.
             run_bind (arr_get (cm_key_arrays cm) sec_id) (\<lambda>keys.
               case (hash, keys) of
                 (Some hash, Some keys) \<Rightarrow>
                   (let len = int (cm_hash_length hash) in
                    if len = 0 then err
                    else
                      run_map (\<lambda>next. (Some (cm_UNLOCK cm), if next = None then 0 else 1, next))
                        (case s_key_type (cm_secs cm ! nat sec_id) of
                           KTYPE_INTEGER \<Rightarrow>
                             (case prev of
                                None \<Rightarrow> run_map Some (arr_get keys 0)
                              | Some (Key_i p) \<Rightarrow>
                                  if p < 0 then run_map Some (arr_get keys 0)
                                  else next_key (is_int_key p) keys len
                              | Some (Key_c _) \<Rightarrow> Fault)
                         | KTYPE_STRING \<Rightarrow>
                             (case prev of
                                None \<Rightarrow> run_map Some (arr_get keys 0)
                              | Some (Key_c None) \<Rightarrow> run_map Some (arr_get keys 0)
                              | Some (Key_c (Some p)) \<Rightarrow> next_key (is_str_key p) keys len
                              | Some (Key_i _) \<Rightarrow> Fault)
                         | KTYPE_NONE \<Rightarrow> Ret None))
               | _ \<Rightarrow> Fault))))"

definition cm_get_next_id_spin ::
  "cm option \<Rightarrow> int \<Rightarrow> cm_key option \<Rightarrow> (cm option \<times> int \<times> cm_key option) run" where
  "cm_get_next_id_spin cm_p sec_id prev =
     run_bind (cm_get_next_id cm_p sec_id prev) (\<lambda>(cm_p, re, next).
       if re \<noteq> 0 then Ret (cm_p, 1, next)
       else
         run_map (\<lambda>(cm_p, re, next). (cm_p, if re \<noteq> 0 then 1 else 0, next))
           (cm_get_next_id cm_p sec_id None))"


section \<open>Loading a file\<close>

text \<open>The first section with a key, which collects the categories that belong to no section.\<close>

fun free_section :: "cm_section list \<Rightarrow> int \<Rightarrow> int" where
  "free_section [] i = - 1"
| "free_section (s # ss) i = (if s_key_type s \<noteq> KTYPE_NONE then i else free_section ss (i + 1))"

definition names_category :: "cm_section \<Rightarrow> string \<Rightarrow> bool" where
  "names_category sec cat \<longleftrightarrow>
     (case s_default_name sec of
        Some d \<Rightarrow> strcasecmp d cat = 0
      | None \<Rightarrow> strcasecmp (s_name sec) cat = 0)"

fun category_section :: "cm_section list \<Rightarrow> string \<Rightarrow> int \<Rightarrow> int option" where
  "category_section [] cat i = None"
| "category_section (s # ss) cat i =
     (if names_category s cat then Some i else category_section ss cat (i + 1))"

definition read_category ::
  "cm_section list \<Rightarrow> cm_matrix list \<Rightarrow> string \<Rightarrow> (string \<times> string) list \<Rightarrow> cm_matrix list run" where
  "read_category secs vals cat v =
     (case category_section secs cat 0 of
        Some i \<Rightarrow>
          run_bind (arr_get secs i) (\<lambda>sec.
          run_bind (arr_get vals i) (\<lambda>matrix.
          run_bind (read_category_1 sec matrix cat v) (\<lambda>matrix. arr_set vals i matrix)))
      | None \<Rightarrow>
          (let freesec = free_section secs 0 in
           if freesec > - 1 then
             run_bind (arr_get secs freesec) (\<lambda>sec.
             run_bind (arr_get vals freesec) (\<lambda>matrix.
             run_bind (read_category_n sec matrix cat v) (\<lambda>matrix. arr_set vals freesec matrix)))
           else Ret vals))"

fun read_categories ::
  "cm_section list \<Rightarrow> cm_matrix list \<Rightarrow> (string \<times> (string \<times> string) list) list \<Rightarrow> cm_matrix list run" where
  "read_categories secs vals [] = Ret vals"
| "read_categories secs vals ((cat, v) # cfg) =
     run_bind (read_category secs vals cat v) (\<lambda>vals. read_categories secs vals cfg)"

text \<open>The second half for one section: its defaults, its table and its keys.\<close>

definition finish_section ::
  "int \<Rightarrow> cm_section \<Rightarrow> cm_matrix \<Rightarrow> cm_hash option \<Rightarrow> cm_key list option \<Rightarrow>
   (cm_matrix \<times> cm_hash option \<times> cm_key list option) run" where
  "finish_section start0 sec matrix hash keys =
     run_bind (fill_defaults sec matrix) (\<lambda>matrix.
       if s_key_type sec \<noteq> KTYPE_NONE then
         run_bind (hash_categories start0 sec matrix hash) (\<lambda>hash.
         run_map (\<lambda>keys. (matrix, hash, keys)) (init_keys hash (s_key_type sec) keys))
       else Ret (matrix, hash, keys))"

fun finish_sections ::
  "int \<Rightarrow> cm_section list \<Rightarrow> cm_matrix list \<Rightarrow> cm_hash option list \<Rightarrow> cm_key list option list \<Rightarrow>
   (cm_matrix list \<times> cm_hash option list \<times> cm_key list option list) run" where
  "finish_sections start0 (s # ss) (m # ms) (h # hs) (k # ks) =
     run_bind (finish_section start0 s m h k) (\<lambda>(m, h, k).
     run_map (\<lambda>(ms, hs, ks). (m # ms, h # hs, k # ks)) (finish_sections start0 ss ms hs ks))"
| "finish_sections start0 [] ms hs ks = Ret (ms, hs, ks)"
| "finish_sections start0 (s # ss) _ _ _ = Fault"

text \<open>
  \<open>cfg\<close> is what \<open>ast_config_load\<close> returned (\<open>None\<close>: NULL), \<open>strdup_ok\<close> whether the copy of the
  file name could be allocated.
\<close>

definition cm_load ::
  "bool \<Rightarrow> int \<Rightarrow> (string \<times> (string \<times> string) list) list option \<Rightarrow> cm option \<Rightarrow> string \<Rightarrow> (cm option \<times> int) run" where
  "cm_load strdup_ok start0 cfg cm_p filename =
     (case cm_p of
        None \<Rightarrow> Ret (None, - 1)
      | Some cm \<Rightarrow>
          (let cm = cm_LOCK cm in
           if cm_state cm \<noteq> CM_CREATED then Ret (Some (cm_UNLOCK cm), - 1)
           else if \<not> strdup_ok then Ret (Some (cm_UNLOCK (cm\<lparr>cm_filename := None\<rparr>)), - 1)
           else
             (let cm = cm\<lparr>cm_filename := Some filename\<rparr> in
              case cfg of
                None \<Rightarrow> Ret (Some (cm_UNLOCK cm), - 1)
              | Some cfg \<Rightarrow>
                  run_bind (read_categories (cm_secs cm) (cm_vals cm) cfg) (\<lambda>vals.
                  run_bind (finish_sections start0 (cm_secs cm) vals (cm_hashes cm) (cm_key_arrays cm))
                    (\<lambda>(vals, hashes, keys).
                    Ret (Some (cm_UNLOCK (cm\<lparr>cm_vals := vals, cm_hashes := hashes, cm_key_arrays := keys,
                                             cm_clis := cm_clis cm @ [''values''],
                                             cm_state := CM_LOADED\<rparr>)), 0))))))"


section \<open>Creating and destroying managers\<close>

text \<open>
  The managers that exist, by the address of their structure, the table \<open>cm_obj_hash\<close> from
  module names to addresses, the next free address and the use count of the module.
\<close>

record cm_world =
  w_objs :: "(string, nat) lhash"
  w_cms :: "nat \<rightharpoonup> cm"
  w_next :: nat
  w_refs :: int

definition configman_load_module :: "cm_world \<Rightarrow> cm_world" where
  "configman_load_module w = w\<lparr>w_objs := lhash_init_str 0 HASHSIZE\<rparr>"

text \<open>
  \<open>alloc\<close> gives the outcome of the five allocations, in the order of the code: the structure,
  the name, the values, the tables, the arrays of keys. The error paths undo what was done.
\<close>

definition cm_create ::
  "(nat \<Rightarrow> bool) \<Rightarrow> cm_world \<Rightarrow> string \<Rightarrow> cm_section list \<Rightarrow> (cm_world \<times> nat option) run" where
  "cm_create alloc w modname sections =
     (if \<not> alloc 0 then Ret (w, None)
      else if \<not> alloc 1 then Ret (w, None)
      else
        (let a = w_next w; n = length sections in
         run_bind (AST_HASH_INSERT (w_objs w) modname a) (\<lambda>(objs, re).
           if re \<noteq> 0 then Ret (w\<lparr>w_objs := objs\<rparr>, None)
           else if \<not> alloc 2 \<or> \<not> alloc 3 \<or> \<not> alloc 4 then
             run_map (\<lambda>objs. (w\<lparr>w_objs := objs\<rparr>, None)) (AST_HASH_REMOVE objs modname)
           else
             Ret (w\<lparr>w_objs := objs,
                    w_cms := (w_cms w)(a \<mapsto>
                      \<lparr>cm_lock = 0, cm_state = CM_CREATED, cm_modname = modname, cm_filename = None,
                       cm_secs = sections,
                       cm_vals = replicate n \<lparr>m_num_rows = 0, m_rows = []\<rparr>,
                       cm_hashes = replicate n None, cm_key_arrays = replicate n None,
                       cm_clis = [''description'', ''descriptions'']\<rparr>),
                    w_next := a + 1, w_refs := w_refs w + 1\<rparr>, Some a))))"

definition cm_destroy :: "cm_world \<Rightarrow> nat option \<Rightarrow> cm_world run" where
  "cm_destroy w cm_p =
     (case cm_p of
        None \<Rightarrow> Ret w
      | Some a \<Rightarrow>
          (case w_cms w a of
             None \<Rightarrow> Fault
           | Some cm \<Rightarrow>
               if cm_state cm \<noteq> CM_LOADED \<and> cm_state cm \<noteq> CM_CREATED then Ret w
               else
                 run_map (\<lambda>objs. w\<lparr>w_objs := objs, w_cms := (w_cms w)(a := None), w_refs := w_refs w - 1\<rparr>)
                   (AST_HASH_REMOVE (w_objs w) (cm_modname cm))))"

end
