(* ===== verification/Configman_Proofs.thy ===== *)
theory Configman_Proofs
  imports Configman
begin

text \<open>
  The proofs about the configuration manager: what reading a file, filling in defaults, hashing
  the keys and building the arrays of keys establish (\<open>loaded_wf\<close>), and what reading values and
  going through the keys of a loaded manager gives.
\<close>

section \<open>Reading rows\<close>

lemma run_map_Ret_ex: "\<exists>x. r = Ret x \<and> P x \<Longrightarrow> (\<And>x. P x \<Longrightarrow> Q (f x)) \<Longrightarrow> \<exists>y. run_map f r = Ret y \<and> Q y"
  by auto

lemma get_col_loop_range:
  "get_col_loop ds name i = - 1 \<or> (i \<le> get_col_loop ds name i \<and> get_col_loop ds name i < i + int (length ds))"
proof (induction ds arbitrary: i)
  case (Cons d ds)
  from Cons.IH [of "i + 1"] show ?case by (auto split: option.splits)
qed simp

lemma get_col_range:
  assumes "0 < num_directives sec"
  shows "get_col sec name = - 1 \<or> (0 \<le> get_col sec name \<and> get_col sec name < int (num_directives sec))"
  using get_col_loop_range [of "s_directives sec" name 0] assms by (auto simp: get_col_def num_directives_def)

text \<open>
  A predicate on values that the concatenation with a comma keeps. Rows whose values satisfy it.
\<close>

definition comma_closed :: "(string \<Rightarrow> bool) \<Rightarrow> bool" where
  "comma_closed P \<longleftrightarrow> (\<forall>a b. P a \<longrightarrow> P b \<longrightarrow> P (a @ '','' @ b))"

definition row_ok :: "(string \<Rightarrow> bool) \<Rightarrow> nat \<Rightarrow> cm_row \<Rightarrow> bool" where
  "row_ok P n row \<longleftrightarrow> length row = n \<and> (\<forall>x \<in> set row. pred_option P x)"

lemma row_ok_update: "row_ok P n row \<Longrightarrow> P s \<Longrightarrow> row_ok P n (row[i := Some s])"
  by (auto simp: row_ok_def dest: subsetD [OF set_update_subset_insert])

lemma arr_get_nat: "0 \<le> i \<Longrightarrow> i < int (length xs) \<Longrightarrow> arr_get xs i = Ret (xs ! nat i)"
  by (simp add: arr_get_def)

lemma arr_set_nat: "0 \<le> i \<Longrightarrow> i < int (length xs) \<Longrightarrow> arr_set xs i x = Ret (xs[nat i := x])"
  by (simp add: arr_set_def)

lemma read_vars_ok:
  assumes "0 < num_directives sec" "comma_closed P"
  shows "row_ok P (num_directives sec) row \<Longrightarrow> \<forall>(name, val) \<in> set v. P val \<Longrightarrow>
    \<exists>row'. read_vars sec row v = Ret row' \<and> row_ok P (num_directives sec) row' \<and>
      (row ! 0 \<noteq> None \<longrightarrow> row' ! 0 \<noteq> None)"
proof (induction v arbitrary: row)
  case (Cons nv v)
  obtain name val where nv: "nv = (name, val)" by force
  let ?pos = "get_col sec name"
  show ?case
  proof (cases "?pos \<ge> 0")
    case False
    with Cons nv show ?thesis by simp
  next
    case True
    then have p: "?pos < int (length row)"
      using get_col_range [OF assms(1), of name] Cons.prems(1) by (auto simp: row_ok_def)
    let ?s = "case row ! nat ?pos of Some s \<Rightarrow> s @ '','' @ val | None \<Rightarrow> val"
    have "row ! nat ?pos \<in> set row" using True p by simp
    then have "P ?s"
      using Cons.prems nv assms(2) by (auto simp: row_ok_def comma_closed_def split: option.split)
    then have "row_ok P (num_directives sec) (row[nat ?pos := Some ?s])"
      using Cons.prems(1) by (rule row_ok_update [rotated])
    moreover have "row ! 0 \<noteq> None \<longrightarrow> row[nat ?pos := Some ?s] ! 0 \<noteq> None"
      using p True by (cases "nat ?pos = 0") auto
    ultimately show ?thesis
      using Cons.IH [of "row[nat ?pos := Some ?s]"] Cons.prems(2) True p nv
      by (auto simp: arr_get_nat arr_set_nat Let_def)
  qed
qed auto

lemma read_row_ok:
  assumes "0 < num_directives sec" "comma_closed P" "pred_option (row_ok P (num_directives sec)) row_p"
    and "P cat" "\<forall>(name, val) \<in> set v. P val"
  shows "\<exists>row. read_row sec row_p cat v = Ret row \<and> row_ok P (num_directives sec) row \<and> row ! 0 \<noteq> None"
proof -
  let ?row = "case row_p of None \<Rightarrow> replicate (num_directives sec) None | Some row \<Rightarrow> row"
  have ok: "row_ok P (num_directives sec) ?row"
    using assms(3) by (auto simp: row_ok_def split: option.split)
  then have len: "0 < length ?row" using assms(1) by (simp add: row_ok_def)
  let ?row1 = "if ?row ! 0 = None then ?row[0 := Some cat] else ?row"
  have "row_ok P (num_directives sec) ?row1" "?row1 ! 0 \<noteq> None"
    using ok assms(4) len by (auto intro: row_ok_update)
  moreover have "read_row sec row_p cat v = read_vars sec ?row1 v"
    using len by (simp add: read_row_def arr_get_nat arr_set_nat Let_def)
  ultimately show ?thesis using read_vars_ok [OF assms(1,2) _ assms(5)] by metis
qed


section \<open>Well-formed matrices\<close>

definition matrix_ok :: "(string \<Rightarrow> bool) \<Rightarrow> nat \<Rightarrow> cm_matrix \<Rightarrow> bool" where
  "matrix_ok P n m \<longleftrightarrow>
     m_num_rows m = int (length (m_rows m)) \<and>
     (\<forall>i < length (m_rows m). pred_option (row_ok P n) (m_rows m ! i)) \<and>
     (\<forall>i < length (m_rows m). 0 < i \<longrightarrow> (\<exists>r. m_rows m ! i = Some r \<and> r ! 0 \<noteq> None))"

lemma matrix_ok_empty: "matrix_ok P n \<lparr>m_num_rows = 0, m_rows = []\<rparr>"
  by (simp add: matrix_ok_def)

text \<open>A matrix that has just got a last row, which is about to be read.\<close>

definition matrix_pre :: "(string \<Rightarrow> bool) \<Rightarrow> nat \<Rightarrow> cm_matrix \<Rightarrow> nat \<Rightarrow> bool" where
  "matrix_pre P n m k \<longleftrightarrow>
     k < length (m_rows m) \<and> m_num_rows m = int (length (m_rows m)) \<and>
     (\<forall>i < length (m_rows m). pred_option (row_ok P n) (m_rows m ! i)) \<and>
     (\<forall>i < length (m_rows m). 0 < i \<longrightarrow> i \<noteq> k \<longrightarrow> (\<exists>r. m_rows m ! i = Some r \<and> r ! 0 \<noteq> None))"

lemma read_row_at_ok:
  assumes "0 < num_directives sec" "comma_closed P" "P cat" "\<forall>(name, val) \<in> set v. P val"
    and "matrix_pre P (num_directives sec) m k"
  shows "\<exists>m'. read_row_at sec m (int k) cat v = Ret m' \<and> matrix_ok P (num_directives sec) m' \<and>
    length (m_rows m') = length (m_rows m)"
proof -
  have k: "k < length (m_rows m)" and ok: "pred_option (row_ok P (num_directives sec)) (m_rows m ! k)"
    using assms(5) by (auto simp: matrix_pre_def)
  obtain row where row: "read_row sec (m_rows m ! k) cat v = Ret row"
    "row_ok P (num_directives sec) row" "row ! 0 \<noteq> None"
    using read_row_ok [OF assms(1,2) ok assms(3,4)] by blast
  have "matrix_ok P (num_directives sec) (m\<lparr>m_rows := (m_rows m)[k := Some row]\<rparr>)"
    using assms(5) row(2,3) k by (auto simp: matrix_ok_def matrix_pre_def nth_list_update)
  with row(1) k show ?thesis by (simp add: read_row_at_def)
qed

lemma find_row_ok:
  assumes "matrix_ok P n m" "0 < n"
  shows "0 < k \<Longrightarrow> find_row m cat (int k) = Ret None \<or>
    (\<exists>j. find_row m cat (int k) = Ret (Some (int j)) \<and> 0 < j \<and> j < length (m_rows m))"
proof (induction "length (m_rows m) - k" arbitrary: k)
  case 0
  then have "\<not> int k < m_num_rows m" using assms by (simp add: matrix_ok_def)
  then show ?case by (subst find_row.simps) simp
next
  case (Suc d)
  then have k: "k < length (m_rows m)" by simp
  obtain r where r: "m_rows m ! k = Some r" "r ! 0 \<noteq> None"
    using assms(1) k Suc.prems by (auto simp: matrix_ok_def)
  have "pred_option (row_ok P n) (m_rows m ! k)" using assms(1) k by (simp add: matrix_ok_def)
  then have "length r = n" using r(1) by (simp add: row_ok_def)
  then have get: "arr_get r 0 = Ret (r ! 0)" using assms(2) by (simp add: arr_get_def)
  obtain name where name: "r ! 0 = Some name" using r(2) by auto
  have "find_row m cat (int k) = (if strcasecmp name cat = 0 then Ret (Some (int k)) else find_row m cat (int (Suc k)))"
    using k r get name assms(1) by (subst find_row.simps) (simp add: matrix_ok_def add.commute)
  moreover have "find_row m cat (int (Suc k)) = Ret None \<or>
    (\<exists>j. find_row m cat (int (Suc k)) = Ret (Some (int j)) \<and> 0 < j \<and> j < length (m_rows m))"
    using Suc.hyps(1) [of "Suc k"] Suc.hyps(2) by simp
  ultimately show ?case using k Suc.prems by auto
qed

lemma read_category_1_ok:
  assumes "0 < num_directives sec" "comma_closed P" "P cat" "\<forall>(name, val) \<in> set v. P val"
    and "matrix_ok P (num_directives sec) m"
  shows "\<exists>m'. read_category_1 sec m cat v = Ret m' \<and> matrix_ok P (num_directives sec) m'"
proof -
  let ?m = "if m_num_rows m = 0 then m\<lparr>m_num_rows := 1, m_rows := [None]\<rparr> else m"
  have "matrix_pre P (num_directives sec) ?m 0"
    using assms(5) by (auto simp: matrix_ok_def matrix_pre_def)
  from read_row_at_ok [OF assms(1-4) this] show ?thesis
    by (auto simp: read_category_1_def Let_def)
qed

lemma read_category_n_ok:
  assumes "0 < num_directives sec" "comma_closed P" "P cat" "\<forall>(name, val) \<in> set v. P val"
    and "matrix_ok P (num_directives sec) m"
  shows "\<exists>m'. read_category_n sec m cat v = Ret m' \<and> matrix_ok P (num_directives sec) m'"
proof -
  consider "find_row m cat 1 = Ret None" |
    j where "find_row m cat 1 = Ret (Some (int j))" "0 < j" "j < length (m_rows m)"
    using find_row_ok [OF assms(5,1), of 1 cat] by auto
  then show ?thesis
  proof cases
    case 1
    let ?m = "if m_num_rows m = 0 then \<lparr>m_num_rows = 2, m_rows = [None, None]\<rparr>
      else \<lparr>m_num_rows = m_num_rows m + 1, m_rows = m_rows m @ [None]\<rparr>"
    have "matrix_pre P (num_directives sec) ?m (nat (m_num_rows ?m) - 1)"
      using assms(5) by (auto simp: matrix_ok_def matrix_pre_def nth_append nth_Cons' less_Suc_eq)
    moreover have "int (nat (m_num_rows ?m) - 1) = m_num_rows ?m - 1"
      using assms(5) by (auto simp: matrix_ok_def)
    ultimately show ?thesis
      using read_row_at_ok [OF assms(1-4), of ?m "nat (m_num_rows ?m) - 1"] 1
      by (auto simp: read_category_n_def Let_def)
  next
    case 2
    have "matrix_pre P (num_directives sec) m j"
      using assms(5) 2 by (auto simp: matrix_ok_def matrix_pre_def)
    from read_row_at_ok [OF assms(1-4) this] 2 show ?thesis by (auto simp: read_category_n_def)
  qed
qed


section \<open>Reading a file\<close>

definition secs_wf :: "cm_section list \<Rightarrow> bool" where
  "secs_wf secs \<longleftrightarrow> (\<forall>s \<in> set secs. 0 < num_directives s \<and>
     (s_key_type s \<noteq> KTYPE_NONE \<longrightarrow> s_key_field s \<noteq> None))"

definition vals_ok :: "(string \<Rightarrow> bool) \<Rightarrow> cm_section list \<Rightarrow> cm_matrix list \<Rightarrow> bool" where
  "vals_ok P secs vals \<longleftrightarrow> list_all2 (\<lambda>s m. matrix_ok P (num_directives s) m) secs vals"

lemma free_section_range:
  "free_section ss i = - 1 \<or> (i \<le> free_section ss i \<and> free_section ss i < i + int (length ss))"
proof (induction ss arbitrary: i)
  case (Cons s ss)
  from Cons.IH [of "i + 1"] show ?case by auto
qed simp

lemma category_section_range:
  "category_section ss cat i = Some j \<Longrightarrow> i \<le> j \<and> j < i + int (length ss)"
proof (induction ss arbitrary: i)
  case (Cons s ss)
  from Cons.IH [of "i + 1"] Cons.prems show ?case by (auto split: if_splits)
qed simp

lemma read_category_ok:
  assumes "secs_wf secs" "comma_closed P" "P cat" "\<forall>(name, val) \<in> set v. P val" "vals_ok P secs vals"
  shows "\<exists>vals'. read_category secs vals cat v = Ret vals' \<and> vals_ok P secs vals'"
proof -
  have len: "length vals = length secs" using assms(5) by (auto simp: vals_ok_def dest: list_all2_lengthD)
  have upd: "\<exists>vals'. run_bind (arr_get secs i) (\<lambda>sec. run_bind (arr_get vals i) (\<lambda>matrix.
      run_bind (rd sec matrix cat v) (arr_set vals i))) = Ret vals' \<and> vals_ok P secs vals'"
    if i: "0 \<le> i" "i < int (length secs)"
    and rd: "\<And>sec m. 0 < num_directives sec \<Longrightarrow> matrix_ok P (num_directives sec) m \<Longrightarrow>
      \<exists>m'. rd sec m cat v = Ret m' \<and> matrix_ok P (num_directives sec) m'" for i rd
  proof -
    let ?k = "nat i"
    have k: "?k < length secs" using i by linarith
    then have "0 < num_directives (secs ! ?k)" using assms(1) by (auto simp: secs_wf_def)
    moreover have "matrix_ok P (num_directives (secs ! ?k)) (vals ! ?k)"
      using assms(5) k by (auto simp: vals_ok_def list_all2_conv_all_nth)
    ultimately obtain m' where "rd (secs ! ?k) (vals ! ?k) cat v = Ret m'"
      "matrix_ok P (num_directives (secs ! ?k)) m'" using rd by blast
    then show ?thesis
      using i k len assms(5)
      by (auto simp: arr_get_nat arr_set_nat vals_ok_def list_all2_conv_all_nth nth_list_update)
  qed
  show ?thesis
  proof (cases "category_section secs cat 0")
    case (Some i)
    with category_section_range [OF Some] show ?thesis
      using upd [of i read_category_1] read_category_1_ok assms(2-4) by (simp add: read_category_def)
  next
    case None
    have "free_section secs 0 > - 1 \<Longrightarrow> 0 \<le> free_section secs 0 \<and> free_section secs 0 < int (length secs)"
      using free_section_range [of secs 0] by auto
    with None show ?thesis
      using upd [of "free_section secs 0" read_category_n] read_category_n_ok assms(2-5)
      by (auto simp: read_category_def Let_def)
  qed
qed

definition cfg_ok :: "(string \<Rightarrow> bool) \<Rightarrow> (string \<times> (string \<times> string) list) list \<Rightarrow> bool" where
  "cfg_ok P cfg \<longleftrightarrow> (\<forall>(cat, v) \<in> set cfg. P cat \<and> (\<forall>(name, val) \<in> set v. P val))"

lemma read_categories_ok:
  assumes "secs_wf secs" "comma_closed P"
  shows "cfg_ok P cfg \<Longrightarrow> vals_ok P secs vals \<Longrightarrow>
    \<exists>vals'. read_categories secs vals cfg = Ret vals' \<and> vals_ok P secs vals'"
proof (induction cfg arbitrary: vals)
  case (Cons c cfg)
  obtain cat v where c: "c = (cat, v)" by force
  have "P cat" "\<forall>(name, val) \<in> set v. P val" "cfg_ok P cfg" using Cons.prems(1) c by (auto simp: cfg_ok_def)
  with read_category_ok [OF assms this(1,2) Cons.prems(2)] Cons.IH c show ?case by fastforce
qed simp


section \<open>Defaults\<close>

lemma fill_cols_spec:
  "length row = i + length ds \<Longrightarrow> \<exists>row'. fill_cols row ds (int i) = Ret row' \<and> length row' = length row \<and>
    (\<forall>j < length row. row' ! j =
       (if j < i then row ! j else if row ! j = None then d_def (ds ! (j - i)) else row ! j))"
proof (induction ds arbitrary: row i)
  case Nil
  then show ?case by simp
next
  case (Cons d ds)
  define row1 where "row1 = (if row ! i = None \<and> d_def d \<noteq> None then row[i := d_def d] else row)"
  have i: "i < length row" and len: "length row1 = length row" using Cons.prems by (auto simp: row1_def)
  have eq: "fill_cols row (d # ds) (int i) = fill_cols row1 ds (int (Suc i))"
    using i by (simp add: row1_def add.commute)
  have nth: "row1 ! j = (if j = i \<and> row ! i = None then d_def d else row ! j)" if "j < length row" for j
    using that i by (auto simp: row1_def nth_list_update)
  have "length row1 = Suc i + length ds" using Cons.prems len by simp
  from Cons.IH [OF this] obtain row' where r: "fill_cols row1 ds (int (Suc i)) = Ret row'" "length row' = length row1"
    and sp: "\<forall>j < length row1. row' ! j =
       (if j < Suc i then row1 ! j else if row1 ! j = None then d_def (ds ! (j - Suc i)) else row1 ! j)"
    by blast
  have "row' ! j = (if j < i then row ! j else if row ! j = None then d_def ((d # ds) ! (j - i)) else row ! j)"
    if "j < length row" for j
    using sp [unfolded len, rule_format, OF that] nth [OF that]
    by (cases "j = i") (auto simp: nth_Cons' less_Suc_eq)
  with eq r len show ?case by auto
qed

definition matrix_full :: "(string \<Rightarrow> bool) \<Rightarrow> cm_section \<Rightarrow> cm_matrix \<Rightarrow> bool" where
  "matrix_full P sec m \<longleftrightarrow>
     m_rows m \<noteq> [] \<and> m_num_rows m = int (length (m_rows m)) \<and>
     (\<exists>r. m_rows m ! 0 = Some r \<and> length r = num_directives sec \<and> r ! 0 \<noteq> None \<and>
       (\<forall>j < num_directives sec. 0 < j \<longrightarrow> d_def (s_directives sec ! j) \<noteq> None \<longrightarrow> r ! j \<noteq> None)) \<and>
     (\<forall>i < length (m_rows m). 0 < i \<longrightarrow> (\<exists>r. m_rows m ! i = Some r \<and> row_ok P (num_directives sec) r))"

lemma fill_defaults_full:
  assumes "0 < num_directives sec" "matrix_ok P (num_directives sec) m"
  shows "\<exists>m'. fill_defaults sec m = Ret m' \<and> matrix_full P sec m' \<and>
    (\<forall>i < length (m_rows m). 0 < i \<longrightarrow> m_rows m' ! i = m_rows m ! i) \<and>
    length (m_rows m') = max 1 (length (m_rows m))"
proof -
  let ?n = "num_directives sec"
  define m1 where "m1 = (if m_num_rows m = 0 then m\<lparr>m_num_rows := 1, m_rows := [None]\<rparr> else m)"
  define row0 where "row0 = (case m_rows m1 ! 0 of None \<Rightarrow> replicate ?n None | Some row \<Rightarrow> row)"
  define row1 where "row1 = (if row0 ! 0 = None
    then row0[0 := Some (case s_default_name sec of Some n \<Rightarrow> n | None \<Rightarrow> s_name sec)] else row0)"
  have rows: "0 < length (m_rows m1)" "pred_option (row_ok P ?n) (m_rows m1 ! 0)"
    using assms(2) by (auto simp: matrix_ok_def m1_def)
  have len: "length row0 = ?n" using rows(2) by (auto simp: row0_def row_ok_def split: option.split)
  then have len1: "length row1 = 1 + length (drop 1 (s_directives sec))" "length row1 = ?n" "row1 ! 0 \<noteq> None"
    using assms(1) by (auto simp: row1_def num_directives_def)
  from fill_cols_spec [OF len1(1)] obtain row' where
    r: "fill_cols row1 (drop 1 (s_directives sec)) 1 = Ret row'" "length row' = ?n"
    and sp: "\<forall>j < ?n. row' ! j =
      (if j < 1 then row1 ! j else if row1 ! j = None then d_def (drop 1 (s_directives sec) ! (j - 1)) else row1 ! j)"
    using len1(2) by auto
  have "fill_defaults sec m = Ret (m1\<lparr>m_rows := (m_rows m1)[0 := Some row']\<rparr>)"
    unfolding fill_defaults_def Let_def m1_def [symmetric]
    using rows(1) len assms(1) r(1)
    by (cases "row0 ! 0") (simp_all add: arr_get_nat arr_set_nat row1_def flip: row0_def)
  moreover have "row' ! 0 \<noteq> None" using sp assms(1) len1(3) by auto
  moreover have "row' ! j \<noteq> None" if "j < ?n" "0 < j" "d_def (s_directives sec ! j) \<noteq> None" for j
    using sp that by (auto simp: num_directives_def)
  moreover have "\<exists>r. m_rows m1 ! i = Some r \<and> row_ok P ?n r" if "i < length (m_rows m1)" "0 < i" for i
    using that assms(2) unfolding matrix_ok_def m1_def
    by (auto split: if_splits) (metis option.pred_inject(2))
  moreover have "m_num_rows m1 = int (length (m_rows m1))" "length (m_rows m1) = max 1 (length (m_rows m))"
    using assms(2) by (auto simp: matrix_ok_def m1_def max_def Suc_le_eq)
  moreover have "\<forall>i < length (m_rows m). 0 < i \<longrightarrow> (m_rows m1)[0 := Some row'] ! i = m_rows m ! i"
    using assms(2) by (auto simp: matrix_ok_def m1_def)
  ultimately show ?thesis
    using r(2) rows(1)
    by (intro exI [of _ "m1\<lparr>m_rows := (m_rows m1)[0 := Some row']\<rparr>"])
       (auto simp: matrix_full_def nth_list_update)
qed


section \<open>Tables of keys\<close>

definition vals_in :: "int \<Rightarrow> ('k, int, 'z) hash_scheme \<Rightarrow> bool" where
  "vals_in N h \<longleftrightarrow> (\<forall>i < h_size h. e_used (slot h i) \<longrightarrow> 1 \<le> e_val (slot h i) \<and> e_val (slot h i) < N)"

lemma lookup_loop_val:
  "lookup_loop fuel h key pos = Ret (Some v) \<Longrightarrow>
   \<exists>i < length (h_data h). e_used (slot h i) \<and> v = e_val (slot h i)"
proof (induction fuel arbitrary: pos)
  case (Suc fuel)
  then show ?case
    by (auto simp: lookup_loop.simps arr_get_def slot_def Let_def split: if_splits)
       (metis nat_less_iff)
qed (simp add: lookup_loop.simps)

context hash_fun
begin

lemma built_insert_vals:
  assumes "hash_built hf eq sz h" "0 < sz" "sz \<le> 2 ^ 31" "vals_in N h" "1 \<le> v" "v < N"
  shows "\<exists>h' re. AST_HASH_INSERT_NOLOCK h k v = Ret (h', re) \<and> hash_built hf eq sz h' \<and> vals_in N h'"
proof -
  have h: "hash_wf h" "h_hash_f h = hf" using built_ranked [OF assms(1-3)] by auto
  obtain i where i: "i < h_size h" "h_hash_f h k (h_size h) = int i" using h by (rule home_slot)
  have len: "length (h_data h) = h_size h" using h(1) by (simp add: hash_wf_def)
  obtain h' re where ins: "AST_HASH_INSERT_NOLOCK h k v = Ret (h', re)" using insert_returns [OF h] by blast
  have "vals_in N (put h k v p prev)" if "p < h_size h" "pred_option (\<lambda>q. q < h_size h) prev" for p prev
    using that assms(4-6) len by (auto simp: vals_in_def slot_put Let_def)
  moreover have "p < h_size h" if "free_after h i = Some p" for p
    using free_after_Some(1) [OF that] i(1) by linarith
  ultimately have "vals_in N h'"
    using ins assms(4) i(1) unfolding insert_cases [OF h(1) i]
    by (auto simp: insert_result_def split: if_splits option.splits)
  with ins assms(1) show ?thesis by (blast intro: hash_built.built_insert)
qed

lemma built_lookup_vals:
  assumes "hash_built hf eq sz h" "0 < sz" "sz \<le> 2 ^ 31" "vals_in N h"
  shows "\<exists>r. AST_HASH_LOOKUP_NOLOCK h k = Ret r \<and> pred_option (\<lambda>v. 1 \<le> v \<and> v < N) r"
proof -
  have len: "length (h_data h) = h_size h" using built_ranked [OF assms(1-3)] by (auto simp: hash_wf_def)
  obtain r where r: "AST_HASH_LOOKUP_NOLOCK h k = Ret r"
    using built_lookup_returns [OF assms(1-3)] by (auto simp: returns_def)
  show ?thesis
  proof (cases r)
    case (Some v)
    with r lookup_loop_val [of "h_size h" h k] assms(4) len show ?thesis
      by (auto simp: AST_HASH_LOOKUP_NOLOCK_def vals_in_def)
  qed (use r in simp)
qed

lemma built_length:
  assumes "hash_built hf eq sz h" "0 < sz" "sz \<le> 2 ^ 31"
  shows "length (AST_HASH_TRAVERSE_NOLOCK h) = AST_HASH_LENGTH_NOLOCK h"
  using built_ranked [OF assms]
  by (simp add: AST_HASH_TRAVERSE_NOLOCK_def AST_HASH_LENGTH_NOLOCK_def hash_wf_def)

end

definition int_table :: "int \<Rightarrow> (int, int) hash \<Rightarrow> bool" where
  "int_table N h \<longleftrightarrow> hash_built modolo_hash eq_int HASHSIZE h \<and> vals_in N h"

definition str_table :: "int \<Rightarrow> (string, int) hash \<Rightarrow> bool" where
  "str_table N h \<longleftrightarrow> hash_built joaat_hash eq_str HASHSIZE h \<and> vals_in N h"

lemma HASHSIZE_bounds [simp]: "0 < HASHSIZE" "HASHSIZE \<le> 2147483648"
  by (simp_all add: HASHSIZE_def)

lemma int_table_init: "int_table N (AST_HASH_INIT_INT 0 HASHSIZE)"
  by (auto simp: int_table_def AST_HASH_INIT_INT_def vals_in_def intro: hash_built.built_init)

lemma str_table_init: "str_table N (AST_HASH_INIT_STR 0 HASHSIZE)"
  by (auto simp: str_table_def AST_HASH_INIT_STR_def vals_in_def intro: hash_built.built_init)

lemma int_table_insert:
  "int_table N h \<Longrightarrow> 1 \<le> v \<Longrightarrow> v < N \<Longrightarrow> \<exists>h' re. AST_HASH_INSERT_NOLOCK h k v = Ret (h', re) \<and> int_table N h'"
  using int_hash.built_insert_vals [of HASHSIZE h N v k] by (auto simp: int_table_def)

lemma str_table_insert:
  "str_table N h \<Longrightarrow> 1 \<le> v \<Longrightarrow> v < N \<Longrightarrow> \<exists>h' re. AST_HASH_INSERT_NOLOCK h k v = Ret (h', re) \<and> str_table N h'"
  using str_hash.built_insert_vals [of HASHSIZE h N v k] by (auto simp: str_table_def)

lemma hash_range_ok:
  "int_table N h \<Longrightarrow> 1 \<le> i \<Longrightarrow> i < N \<Longrightarrow> end \<noteq> 2 ^ 31 - 1 \<Longrightarrow>
   \<exists>h' s. hash_range h start end i = Ret (h', s) \<and> int_table N h'"
proof (induction "nat (end + 1 - start)" arbitrary: h start)
  case 0
  then show ?case by (subst hash_range.simps) auto
next
  case (Suc d)
  obtain h1 re where ins: "AST_HASH_INSERT_NOLOCK h start i = Ret (h1, re)" "int_table N h1"
    using int_table_insert [OF Suc.prems(1-3)] by blast
  have "d = nat (end + 1 - (start + 1))" using Suc.hyps(2) by simp
  from Suc.hyps(1) [OF this ins(2) Suc.prems(2-4)] ins Suc show ?case
    by (subst hash_range.simps) auto
qed

text \<open>No range ends at the largest \<open>int\<close>.\<close>

definition ranges_end :: "string \<Rightarrow> bool" where
  "ranges_end s \<longleftrightarrow> (\<forall>t \<in> set (split_on (CHR '','') s). snd (snd (sscanf_d_d t)) \<noteq> Some (2 ^ 31 - 1))"

lemma split_on_Nil [simp]: "split_on c s \<noteq> []"
  by (induction s) (auto split: list.splits)

lemma split_on_append: "split_on c (a @ c # b) = split_on c a @ split_on c b"
  by (induction a) (auto split: list.splits)

lemma comma_closed_ranges: "comma_closed ranges_end"
  by (auto simp: comma_closed_def ranges_end_def split_on_append)

lemma hash_tokens_ok:
  "int_table N h \<Longrightarrow> 1 \<le> i \<Longrightarrow> i < N \<Longrightarrow> \<forall>t \<in> set ts. snd (snd (sscanf_d_d t)) \<noteq> Some (2 ^ 31 - 1) \<Longrightarrow>
   \<exists>h' s. hash_tokens h start ts i = Ret (h', s) \<and> int_table N h'"
proof (induction ts arbitrary: h start)
  case (Cons t ts)
  obtain n a b where s2: "sscanf_d_d t = (n, a, b)" by (metis prod_cases3)
  obtain m c where s1: "sscanf_d t = (m, c)" by (metis surj_pair)
  have b: "b = Some (the b)" if "n \<ge> 2"
    using that s2 by (auto simp: sscanf_d_d_def split: scan.splits list.splits if_splits)
  have end_ok: "the b \<noteq> 2 ^ 31 - 1" if "n \<ge> 2" using b [OF that] s2 Cons.prems(4) by (cases b) auto
  have rng: "\<exists>h' s. hash_range h x (the b) i = Ret (h', s) \<and> int_table N h'" if "n \<ge> 2" for x
    using hash_range_ok [OF Cons.prems(1-3) end_ok [OF that]] .
  have ins: "\<exists>h' re. AST_HASH_INSERT_NOLOCK h x i = Ret (h', re) \<and> int_table N h'" for x
    using int_table_insert [OF Cons.prems(1-3)] .
  have IH: "\<exists>h' s. hash_tokens h1 x ts i = Ret (h', s) \<and> int_table N h'" if "int_table N h1" for h1 x
    using Cons.IH [OF that Cons.prems(2,3)] Cons.prems(4) by simp
  let ?x = "case a of Some a \<Rightarrow> a | None \<Rightarrow> start"
  let ?y = "case c of Some a \<Rightarrow> a | None \<Rightarrow> ?x"
  consider "t = []" | "t \<noteq> []" "n \<ge> 2" | "t \<noteq> []" "\<not> n \<ge> 2" "m \<noteq> 0" | "t \<noteq> []" "\<not> n \<ge> 2" "m = 0" by blast
  then show ?case
  proof cases
    case 1
    then show ?thesis using IH [OF Cons.prems(1)] by simp
  next
    case 2
    with rng [of ?x] s2 IH show ?thesis by (fastforce simp: Let_def)
  next
    case 3
    with ins [of ?y] s2 s1 IH show ?thesis by (fastforce simp: Let_def)
  next
    case 4
    with s2 s1 IH [OF Cons.prems(1)] show ?thesis by (simp add: Let_def)
  qed
qed simp

lemma matrix_full_get:
  assumes "matrix_full P sec m" "0 < num_directives sec" "0 < i" "i < length (m_rows m)" "0 \<le> pos" "pos < int (num_directives sec)"
  obtains r where "arr_get (m_rows m) (int i) = Ret (Some r)" "arr_get r pos = Ret (r ! nat pos)"
    "pred_option P (r ! nat pos)"
proof -
  obtain r where r: "m_rows m ! i = Some r" "row_ok P (num_directives sec) r"
    using assms(1,3,4) by (auto simp: matrix_full_def)
  then have "r ! nat pos \<in> set r" using assms(5,6) by (auto simp: row_ok_def nat_less_iff)
  with r that [of r] assms(4-6) show ?thesis by (auto simp: arr_get_nat row_ok_def)
qed

lemma hash_rows_int_ok:
  assumes "matrix_full ranges_end sec m" "0 < num_directives sec" "0 \<le> pos" "pos < int (num_directives sec)"
  shows "0 < i \<Longrightarrow> int_table (m_num_rows m) h \<Longrightarrow>
    \<exists>h'. hash_rows_int m pos h start (int i) = Ret h' \<and> int_table (m_num_rows m) h'"
proof (induction "length (m_rows m) - i" arbitrary: i h start)
  case 0
  then have "\<not> int i < m_num_rows m" using assms(1) by (simp add: matrix_full_def)
  with 0 show ?case by (subst hash_rows_int.simps) simp
next
  case (Suc d)
  then have i: "i < length (m_rows m)" "int i < m_num_rows m" using assms(1) by (auto simp: matrix_full_def)
  obtain r where r: "arr_get (m_rows m) (int i) = Ret (Some r)" "arr_get r pos = Ret (r ! nat pos)"
    "pred_option ranges_end (r ! nat pos)"
    using matrix_full_get [OF assms(1,2) Suc.prems(1) i(1) assms(3,4)] .
  have IH: "\<exists>h'. hash_rows_int m pos h1 s (int i + 1) = Ret h' \<and> int_table (m_num_rows m) h'"
    if "int_table (m_num_rows m) h1" for h1 s
    using Suc.hyps(1) [of "Suc i" h1 s] Suc.hyps(2) that by (simp add: add.commute)
  show ?case
  proof (cases "r ! nat pos")
    case None
    with r i IH [OF Suc.prems(2)] show ?thesis by (subst hash_rows_int.simps) simp
  next
    case (Some val)
    then have "\<forall>t \<in> set (split_on (CHR '','') val). snd (snd (sscanf_d_d t)) \<noteq> Some (2 ^ 31 - 1)"
      using r(3) by (simp add: ranges_end_def)
    with hash_tokens_ok [OF Suc.prems(2), of "int i" "split_on (CHR '','') val" start] Suc.prems(1) i(2)
    obtain h1 s where "hash_tokens h start (split_on (CHR '','') val) (int i) = Ret (h1, s)"
      "int_table (m_num_rows m) h1" by force
    with r i Some IH [of h1 s] show ?thesis by (subst hash_rows_int.simps) simp
  qed
qed

lemma hash_rows_str_ok:
  assumes "matrix_full P sec m" "0 < num_directives sec" "0 \<le> pos" "pos < int (num_directives sec)"
  shows "0 < i \<Longrightarrow> str_table (m_num_rows m) h \<Longrightarrow>
    \<exists>h'. hash_rows_str m pos h (int i) = Ret h' \<and> str_table (m_num_rows m) h'"
proof (induction "length (m_rows m) - i" arbitrary: i h)
  case 0
  then have "\<not> int i < m_num_rows m" using assms(1) by (simp add: matrix_full_def)
  with 0 show ?case by (subst hash_rows_str.simps) simp
next
  case (Suc d)
  then have i: "i < length (m_rows m)" "int i < m_num_rows m" using assms(1) by (auto simp: matrix_full_def)
  obtain r where r: "arr_get (m_rows m) (int i) = Ret (Some r)" "arr_get r pos = Ret (r ! nat pos)"
    using matrix_full_get [OF assms(1,2) Suc.prems(1) i(1) assms(3,4)] .
  have IH: "\<exists>h'. hash_rows_str m pos h1 (int i + 1) = Ret h' \<and> str_table (m_num_rows m) h'"
    if "str_table (m_num_rows m) h1" for h1
    using Suc.hyps(1) [of "Suc i" h1] Suc.hyps(2) that by (simp add: add.commute)
  show ?case
  proof (cases "r ! nat pos")
    case None
    with r i IH [OF Suc.prems(2)] show ?thesis by (subst hash_rows_str.simps) simp
  next
    case (Some val)
    from str_table_insert [OF Suc.prems(2), of "int i" val] Suc.prems(1) i(2)
    obtain h1 re where "AST_HASH_INSERT_NOLOCK h val (int i) = Ret (h1, re)" "str_table (m_num_rows m) h1" by force
    with r i Some IH [of h1] show ?thesis by (subst hash_rows_str.simps) simp
  qed
qed


section \<open>Sorted arrays of keys\<close>

text \<open>Both arrays hold the keys inserted so far, then the marker.\<close>

lemma int_pos_spec:
  assumes "rest \<noteq> []" "hd rest = - 1 \<or> \<not> hd rest \<le> key"
  shows "\<forall>x \<in> set t. x \<noteq> - 1 \<and> x \<le> key \<Longrightarrow>
    int_pos (pre @ t @ rest) key (int (length pre)) = Ret (int (length pre + length t))"
proof (induction t arbitrary: pre)
  case Nil
  with assms show ?case by (cases rest) (auto simp: int_pos.simps [of _ key "int (length pre)"])
next
  case (Cons x t)
  from Cons.IH [of "pre @ [x]"] Cons.prems show ?case
    by (subst int_pos.simps) (simp add: add.commute)
qed

lemma int_shift_spec:
  assumes "- 1 \<notin> set ys" "b \<noteq> - 1"
  shows "int_shift (pre @ ys @ replicate (Suc m) (- 1)) b (int (length pre)) = Ret (pre @ b # ys @ replicate m (- 1))"
  using assms
proof (induction ys arbitrary: pre b)
  case Nil
  have "int_shift ((pre @ [b]) @ replicate m (- 1)) (- 1) x = Ret ((pre @ [b]) @ replicate m (- 1))" for x
    by (subst int_shift.simps) simp
  with Nil show ?case by (subst int_shift.simps) simp
next
  case (Cons y ys)
  have "int_shift ((pre @ [b]) @ ys @ replicate (Suc m) (- 1)) y (int (length (pre @ [b]))) =
      Ret ((pre @ [b]) @ y # ys @ replicate m (- 1))"
    using Cons.prems by (intro Cons.IH) auto
  with Cons.prems show ?case by (subst int_shift.simps) (simp add: add.commute)
qed

lemma keys_insert_int_at:
  assumes "\<forall>x \<in> set t. x \<noteq> - 1 \<and> x \<le> key" "- 1 \<notin> set d" "d = [] \<or> \<not> hd d \<le> key"
  shows "keys_insert_sorted_int (t @ d @ replicate (Suc m) (- 1)) key = Ret (t @ key # d @ replicate m (- 1))"
proof -
  have pos: "int_pos (t @ d @ replicate (Suc m) (- 1)) key 0 = Ret (int (length t))"
    using int_pos_spec [of "d @ replicate (Suc m) (- 1)" key t "[]"] assms by (auto simp: hd_append)
  show ?thesis
  proof (cases d)
    case Nil
    have "int_shift (t @ key # replicate m (- 1)) (- 1) x = Ret (t @ key # replicate m (- 1))" for x
      by (subst int_shift.simps) simp
    with pos Nil show ?thesis by (simp add: keys_insert_sorted_int_def)
  next
    case (Cons y ys)
    have "int_shift ((t @ [key]) @ ys @ replicate (Suc m) (- 1)) y (int (length (t @ [key]))) =
        Ret ((t @ [key]) @ y # ys @ replicate m (- 1))"
      using assms(2) Cons by (intro int_shift_spec) auto
    with pos Cons show ?thesis by (simp add: keys_insert_sorted_int_def add.commute)
  qed
qed

lemma insert_all_int:
  "- 1 \<notin> set ks \<Longrightarrow> - 1 \<notin> set xs \<Longrightarrow> sorted xs \<Longrightarrow>
   \<exists>ys. insert_all keys_insert_sorted_int (xs @ replicate (length ks) (- 1)) ks = Ret ys \<and>
     sorted ys \<and> mset ys = mset xs + mset ks"
proof (induction ks arbitrary: xs)
  case (Cons k ks)
  define t where "t = takeWhile (\<lambda>x. x \<le> k) xs"
  define d where "d = dropWhile (\<lambda>x. x \<le> k) xs"
  have xs: "xs = t @ d" by (simp add: t_def d_def)
  have t: "\<forall>x \<in> set t. x \<noteq> - 1 \<and> x \<le> k" using Cons.prems(2) by (auto simp: t_def dest: set_takeWhileD)
  have d: "d = [] \<or> \<not> hd d \<le> k" using hd_dropWhile [of "\<lambda>x. x \<le> k" xs] by (auto simp: d_def)
  have dk: "\<forall>x \<in> set d. k \<le> x"
    using d Cons.prems(3) unfolding xs by (cases d) (auto simp: sorted_append)
  have "keys_insert_sorted_int (t @ d @ replicate (Suc (length ks)) (- 1)) k = Ret (t @ k # d @ replicate (length ks) (- 1))"
    using t d Cons.prems(2) xs by (intro keys_insert_int_at) auto
  moreover have "\<exists>ys. insert_all keys_insert_sorted_int ((t @ k # d) @ replicate (length ks) (- 1)) ks = Ret ys \<and>
      sorted ys \<and> mset ys = mset (t @ k # d) + mset ks"
    using Cons.prems t d dk xs by (intro Cons.IH) (auto simp: sorted_append)
  ultimately show ?case unfolding xs by simp
qed simp

lemma init_int_keys_sort:
  assumes "- 1 \<notin> set ks"
  shows "insert_all keys_insert_sorted_int (replicate (length ks) (- 1)) ks = Ret (sort ks)"
proof -
  obtain ys where "insert_all keys_insert_sorted_int ([] @ replicate (length ks) (- 1)) ks = Ret ys"
    "sorted ys" "mset ys = mset ks"
    using insert_all_int [OF assms, of "[]"] by auto
  then show ?thesis by (simp add: properties_for_sort)
qed

lemma str_pos_spec:
  assumes "rest \<noteq> []" "pred_option (\<lambda>s. \<not> strcasecmp s key \<le> 0) (hd rest)"
  shows "\<forall>s \<in> set t. strcasecmp s key \<le> 0 \<Longrightarrow>
    str_pos (pre @ map Some t @ rest) key (int (length pre)) = Ret (int (length pre + length t))"
proof (induction t arbitrary: pre)
  case Nil
  with assms show ?case
    by (cases rest) (auto simp: str_pos.simps [of _ key "int (length pre)"] split: option.split)
next
  case (Cons x t)
  from Cons.IH [of "pre @ [Some x]"] Cons.prems show ?case
    by (subst str_pos.simps) (simp add: add.commute)
qed

lemma str_shift_spec:
  "str_shift (pre @ map Some ys @ replicate (Suc m) None) (Some b) (int (length pre)) =
   Ret (pre @ Some b # map Some ys @ replicate m None)"
proof (induction ys arbitrary: pre b)
  case Nil
  have "str_shift ((pre @ [Some b]) @ replicate m None) None x = Ret ((pre @ [Some b]) @ replicate m None)" for x
    by (subst str_shift.simps) simp
  then show ?case by (subst str_shift.simps) simp
next
  case (Cons y ys)
  from Cons.IH [of "pre @ [Some b]" y] show ?case by (subst str_shift.simps) (simp add: add.commute)
qed

lemma keys_insert_str_at:
  assumes "\<forall>s \<in> set t. strcasecmp s key \<le> 0" "d = [] \<or> \<not> strcasecmp (hd d) key \<le> 0"
  shows "keys_insert_sorted_string (map Some (t @ d) @ replicate (Suc m) None) key =
    Ret (map Some (t @ key # d) @ replicate m None)"
proof -
  have "pred_option (\<lambda>s. \<not> strcasecmp s key \<le> 0) (hd (map Some d @ replicate (Suc m) None))"
    using assms(2) by (cases d) auto
  then have pos: "str_pos (map Some t @ map Some d @ replicate (Suc m) None) key 0 = Ret (int (length t))"
    using str_pos_spec [of "map Some d @ replicate (Suc m) None" key t "[]"] assms(1) by simp
  show ?thesis
  proof (cases d)
    case Nil
    have "str_shift (map Some t @ Some key # replicate m None) None x = Ret (map Some t @ Some key # replicate m None)" for x
      by (subst str_shift.simps) simp
    with pos Nil show ?thesis
      by (simp add: keys_insert_sorted_string_def nth_append list_update_append)
  next
    case (Cons y ys)
    from str_shift_spec [of "map Some t @ [Some key]" ys m y] pos Cons show ?thesis
      by (simp add: keys_insert_sorted_string_def nth_append list_update_append add.commute)
  qed
qed

lemma insert_all_str:
  "\<exists>ys. insert_all keys_insert_sorted_string (map Some xs @ replicate (length ks) None) ks = Ret (map Some ys) \<and>
     mset ys = mset xs + mset ks"
proof (induction ks arbitrary: xs)
  case (Cons k ks)
  define t where "t = takeWhile (\<lambda>s. strcasecmp s k \<le> 0) xs"
  define d where "d = dropWhile (\<lambda>s. strcasecmp s k \<le> 0) xs"
  have xs: "xs = t @ d" by (simp add: t_def d_def)
  have t: "\<forall>s \<in> set t. strcasecmp s k \<le> 0" by (auto simp: t_def dest: set_takeWhileD)
  have d: "d = [] \<or> \<not> strcasecmp (hd d) k \<le> 0" using hd_dropWhile [of "\<lambda>s. strcasecmp s k \<le> 0" xs] by (auto simp: d_def)
  from Cons.IH [of "t @ k # d"] obtain ys where
    "insert_all keys_insert_sorted_string (map Some (t @ k # d) @ replicate (length ks) None) ks = Ret (map Some ys)"
    "mset ys = mset (t @ k # d) + mset ks" by blast
  with keys_insert_str_at [OF t d, of "length ks"] show ?case
    unfolding xs by (intro exI [of _ ys]) simp
qed simp


section \<open>Loaded managers\<close>

text \<open>
  What loading establishes for a section: complete rows, and for a section with keys a table
  that leads to rows other than the defaults and an array of the keys.
\<close>

definition section_loaded ::
  "cm_section \<Rightarrow> cm_matrix \<Rightarrow> cm_hash option \<Rightarrow> cm_key list option \<Rightarrow> bool" where
  "section_loaded sec m hash keys \<longleftrightarrow>
     matrix_full (\<lambda>s. True) sec m \<and>
     (case s_key_type sec of
        KTYPE_NONE \<Rightarrow> True
      | KTYPE_INTEGER \<Rightarrow>
          (\<exists>h ks. hash = Some (Hash_i h) \<and> int_table (m_num_rows m) h \<and> keys = Some (map Key_i ks) \<and>
             length ks = AST_HASH_LENGTH_NOLOCK h \<and>
             (- 1 \<notin> set (map fst (AST_HASH_TRAVERSE_NOLOCK h)) \<longrightarrow>
                ks = sort (map fst (AST_HASH_TRAVERSE_NOLOCK h))))
      | KTYPE_STRING \<Rightarrow>
          (\<exists>h ks. hash = Some (Hash_c h) \<and> str_table (m_num_rows m) h \<and>
             keys = Some (map (\<lambda>k. Key_c (Some k)) ks) \<and>
             mset ks = mset (map fst (AST_HASH_TRAVERSE_NOLOCK h))))"

definition loaded_wf :: "cm \<Rightarrow> bool" where
  "loaded_wf cm \<longleftrightarrow>
     cm_state cm = CM_LOADED \<and> secs_wf (cm_secs cm) \<and>
     length (cm_vals cm) = length (cm_secs cm) \<and> length (cm_hashes cm) = length (cm_secs cm) \<and>
     length (cm_key_arrays cm) = length (cm_secs cm) \<and>
     (\<forall>i < length (cm_secs cm).
        section_loaded (cm_secs cm ! i) (cm_vals cm ! i) (cm_hashes cm ! i) (cm_key_arrays cm ! i))"

text \<open>
  The array of integer keys when -1, the mark of a free element, is among the keys: an insertion
  still finds a free element, so that it stays within the array.
\<close>

lemma int_pos_some:
  "- 1 \<in> set (drop k keys) \<Longrightarrow> \<exists>j. int_pos keys key (int k) = Ret (int j) \<and> k \<le> j \<and> j < length keys \<and> - 1 \<in> set (drop j keys)"
proof (induction "length keys - k" arbitrary: k)
  case (Suc d)
  then have k: "k < length keys" by simp
  then have dr: "drop k keys = keys ! k # drop (Suc k) keys" by (rule Cons_nth_drop_Suc [symmetric])
  show ?case
  proof (cases "keys ! k \<noteq> - 1 \<and> keys ! k \<le> key")
    case True
    then have "\<exists>j. int_pos keys key (int (Suc k)) = Ret (int j) \<and> Suc k \<le> j \<and> j < length keys \<and> - 1 \<in> set (drop j keys)"
      using Suc dr by (intro Suc.hyps(1)) auto
    with True k show ?thesis by (subst int_pos.simps) (auto simp: add.commute)
  next
    case False
    with k Suc.prems show ?thesis by (subst int_pos.simps) (auto intro!: exI [of _ k])
  qed
qed simp

definition free_count :: "int list \<Rightarrow> nat" where
  "free_count keys = count_list keys (- 1)"

lemma count_list_update:
  assumes "k < length xs"
  shows "count_list (xs[k := y]) v + (if xs ! k = v then 1 else 0) = count_list xs v + (if y = v then 1 else 0)"
  using assms
proof (induction xs arbitrary: k)
  case (Cons x xs)
  show ?case
  proof (cases k)
    case (Suc j)
    with Cons.IH [of j] Cons.prems show ?thesis by auto
  qed simp
qed simp

lemma int_shift_some:
  "b = - 1 \<or> - 1 \<in> set (drop k keys) \<Longrightarrow> \<exists>keys'. int_shift keys b (int k) = Ret keys' \<and> length keys' = length keys \<and>
     free_count keys \<le> free_count keys' + (if b = - 1 then 0 else 1)"
proof (induction "length keys - k" arbitrary: k keys b)
  case 0
  then show ?case by (subst int_shift.simps) auto
next
  case (Suc d)
  show ?case
  proof (cases "b = - 1")
    case True
    then show ?thesis by (subst int_shift.simps) auto
  next
    case False
    have k: "k < length keys" using Suc.hyps(2) by simp
    then have dr: "drop k keys = keys ! k # drop (Suc k) keys" by (rule Cons_nth_drop_Suc [symmetric])
    have d: "d = length (keys[k := b]) - Suc k" using Suc.hyps(2) by simp
    have "keys ! k = - 1 \<or> - 1 \<in> set (drop (Suc k) (keys[k := b]))" using Suc.prems False dr by auto
    then obtain keys' where "int_shift (keys[k := b]) (keys ! k) (int (Suc k)) = Ret keys'" "length keys' = length keys"
      "free_count (keys[k := b]) \<le> free_count keys' + (if keys ! k = - 1 then 0 else 1)"
      using Suc.hyps(1) [OF d] by auto
    moreover have "free_count (keys[k := b]) + (if keys ! k = - 1 then 1 else 0) = free_count keys"
      using count_list_update [OF k, of b "- 1"] False by (simp add: free_count_def)
    ultimately show ?thesis
      using False k by (subst int_shift.simps) (auto simp: add.commute split: if_splits)
  qed
qed

lemma keys_insert_int_some:
  assumes "0 < free_count keys"
  shows "\<exists>keys'. keys_insert_sorted_int keys key = Ret keys' \<and> length keys' = length keys \<and>
    free_count keys \<le> free_count keys' + 1"
proof -
  have "- 1 \<in> set (drop 0 keys)" using assms by (auto simp: free_count_def intro: count_list_0_iff [THEN iffD2] ccontr)
  then obtain j where j: "int_pos keys key 0 = Ret (int j)" "j < length keys" "- 1 \<in> set (drop j keys)"
    using int_pos_some [of 0 keys key] by auto
  have dr: "drop j keys = keys ! j # drop (Suc j) keys" using j(2) by (rule Cons_nth_drop_Suc [symmetric])
  have "keys ! j = - 1 \<or> - 1 \<in> set (drop (Suc j) (keys[j := key]))" using j(3) dr by auto
  from int_shift_some [OF this] obtain keys' where
    "int_shift (keys[j := key]) (keys ! j) (int (Suc j)) = Ret keys'" "length keys' = length keys"
    "free_count (keys[j := key]) \<le> free_count keys' + (if keys ! j = - 1 then 0 else 1)" by auto
  moreover have "free_count keys \<le> free_count (keys[j := key]) + (if keys ! j = - 1 then 1 else 0)"
    using count_list_update [OF j(2), of key "- 1"] by (auto simp: free_count_def split: if_splits)
  ultimately show ?thesis
    using j(1,2) by (auto simp: keys_insert_sorted_int_def add.commute split: if_splits)
qed

lemma insert_all_int_some:
  "length ks \<le> free_count keys \<Longrightarrow>
   \<exists>keys'. insert_all keys_insert_sorted_int keys ks = Ret keys' \<and> length keys' = length keys"
proof (induction ks arbitrary: keys)
  case (Cons k ks)
  then obtain keys1 where "keys_insert_sorted_int keys k = Ret keys1" "length keys1 = length keys"
    "free_count keys \<le> free_count keys1 + 1"
    using keys_insert_int_some [of keys k] by auto
  with Cons.IH [of keys1] Cons.prems show ?case by auto
qed simp

lemma free_count_replicate: "free_count (replicate n (- 1)) = n"
  by (induction n) (auto simp: free_count_def)

lemma matrix_full_weaken: "matrix_full P sec m \<Longrightarrow> matrix_full (\<lambda>s. True) sec m"
  unfolding matrix_full_def row_ok_def by (fastforce simp: option.pred_True)

lemma init_keys_int:
  assumes "int_table N h"
  shows "\<exists>ks. init_keys (Some (Hash_i h)) KTYPE_INTEGER keys = Ret (Some (map Key_i ks)) \<and>
    length ks = AST_HASH_LENGTH_NOLOCK h \<and>
    (- 1 \<notin> set (map fst (AST_HASH_TRAVERSE_NOLOCK h)) \<longrightarrow> ks = sort (map fst (AST_HASH_TRAVERSE_NOLOCK h)))"
proof -
  let ?ks = "map fst (AST_HASH_TRAVERSE_NOLOCK h)"
  have len: "length ?ks = AST_HASH_LENGTH_NOLOCK h"
    using assms int_hash.built_length [of HASHSIZE h] by (simp add: int_table_def)
  obtain ks where ks: "insert_all keys_insert_sorted_int (replicate (length ?ks) (- 1)) ?ks = Ret ks"
    "length ks = length ?ks"
    using insert_all_int_some [of ?ks "replicate (length ?ks) (- 1)"] by (auto simp: free_count_replicate)
  moreover have "- 1 \<notin> set ?ks \<longrightarrow> ks = sort ?ks" using init_int_keys_sort [of ?ks] ks(1) by auto
  ultimately show ?thesis using len by (intro exI [of _ ks]) (simp add: init_keys_def)
qed

lemma init_keys_str:
  assumes "str_table N h"
  shows "\<exists>ks. init_keys (Some (Hash_c h)) KTYPE_STRING keys = Ret (Some (map (\<lambda>k. Key_c (Some k)) ks)) \<and>
    mset ks = mset (map fst (AST_HASH_TRAVERSE_NOLOCK h))"
proof -
  let ?ks = "map fst (AST_HASH_TRAVERSE_NOLOCK h)"
  have len: "length ?ks = AST_HASH_LENGTH_NOLOCK h"
    using assms str_hash.built_length [of HASHSIZE h] by (simp add: str_table_def)
  obtain ks where "insert_all keys_insert_sorted_string (replicate (length ?ks) None) ?ks = Ret (map Some ks)"
    "mset ks = mset ?ks"
    using insert_all_str [of "[]" ?ks] by auto
  with len show ?thesis by (intro exI [of _ ks]) (simp add: init_keys_def)
qed

lemma finish_section_ok:
  assumes "0 < num_directives sec" "s_key_type sec \<noteq> KTYPE_NONE \<longrightarrow> s_key_field sec \<noteq> None"
    and "matrix_ok ranges_end (num_directives sec) m"
  shows "\<exists>m' hash' keys'. finish_section start0 sec m None keys = Ret (m', hash', keys') \<and>
    section_loaded sec m' hash' keys'"
proof -
  obtain m' where m': "fill_defaults sec m = Ret m'" "matrix_full ranges_end sec m'"
    using fill_defaults_full [OF assms(1,3)] by blast
  note full = matrix_full_weaken [OF m'(2)]
  show ?thesis
  proof (cases "s_key_type sec")
    case KTYPE_NONE
    with m' full show ?thesis by (simp add: finish_section_def section_loaded_def)
  next
    case KTYPE_INTEGER
    then obtain field where f: "s_key_field sec = Some field" using assms(2) by auto
    have "\<exists>h. hash_categories start0 sec m' None = Ret (Some (Hash_i h)) \<and> int_table (m_num_rows m') h"
    proof (cases "get_col sec field < 0")
      case True
      with KTYPE_INTEGER f int_table_init show ?thesis by (auto simp: hash_categories_def)
    next
      case False
      then have "0 \<le> get_col sec field" "get_col sec field < int (num_directives sec)"
        using get_col_range [OF assms(1), of field] by auto
      from hash_rows_int_ok [OF m'(2) assms(1) this, of 1 "AST_HASH_INIT_INT 0 HASHSIZE" start0]
      show ?thesis using KTYPE_INTEGER f False int_table_init by (auto simp: hash_categories_def Let_def)
    qed
    then obtain h where h: "hash_categories start0 sec m' None = Ret (Some (Hash_i h))" "int_table (m_num_rows m') h" by blast
    obtain ks where ks: "init_keys (Some (Hash_i h)) KTYPE_INTEGER keys = Ret (Some (map Key_i ks))"
      "length ks = AST_HASH_LENGTH_NOLOCK h"
      "- 1 \<notin> set (map fst (AST_HASH_TRAVERSE_NOLOCK h)) \<longrightarrow> ks = sort (map fst (AST_HASH_TRAVERSE_NOLOCK h))"
      using init_keys_int [OF h(2), of keys] by blast
    then have "section_loaded sec m' (Some (Hash_i h)) (Some (map Key_i ks))"
      using full h(2) unfolding section_loaded_def KTYPE_INTEGER ktype.case by blast
    with h m' ks(1) KTYPE_INTEGER show ?thesis by (simp add: finish_section_def)
  next
    case KTYPE_STRING
    then obtain field where f: "s_key_field sec = Some field" using assms(2) by auto
    have "\<exists>h. hash_categories start0 sec m' None = Ret (Some (Hash_c h)) \<and> str_table (m_num_rows m') h"
    proof (cases "get_col sec field < 0")
      case True
      with KTYPE_STRING f str_table_init show ?thesis by (auto simp: hash_categories_def)
    next
      case False
      then have "0 \<le> get_col sec field" "get_col sec field < int (num_directives sec)"
        using get_col_range [OF assms(1), of field] by auto
      from hash_rows_str_ok [OF m'(2) assms(1) this, of 1 "AST_HASH_INIT_STR 0 HASHSIZE"]
      show ?thesis using KTYPE_STRING f False str_table_init by (auto simp: hash_categories_def Let_def)
    qed
    then obtain h where h: "hash_categories start0 sec m' None = Ret (Some (Hash_c h))" "str_table (m_num_rows m') h" by blast
    from init_keys_str [OF h(2), of keys] h m' full KTYPE_STRING show ?thesis
      by (auto simp: finish_section_def section_loaded_def)
  qed
qed

lemma finish_sections_ok:
  "secs_wf secs \<Longrightarrow> vals_ok ranges_end secs ms \<Longrightarrow> length ks = length secs \<Longrightarrow>
   \<exists>ms' hs' ks'. finish_sections start0 secs ms (replicate (length secs) None) ks = Ret (ms', hs', ks') \<and>
     length ms' = length secs \<and> length hs' = length secs \<and> length ks' = length secs \<and>
     (\<forall>i < length secs. section_loaded (secs ! i) (ms' ! i) (hs' ! i) (ks' ! i))"
proof (induction secs arbitrary: ms ks)
  case Nil
  then show ?case by (simp add: vals_ok_def)
next
  case (Cons s ss)
  obtain m ms1 where ms: "ms = m # ms1" "matrix_ok ranges_end (num_directives s) m" "vals_ok ranges_end ss ms1"
    using Cons.prems(2) by (auto simp: vals_ok_def list_all2_Cons1)
  obtain k ks1 where ks: "ks = k # ks1" "length ks1 = length ss" using Cons.prems(3) by (cases ks) auto
  have s: "0 < num_directives s" "s_key_type s \<noteq> KTYPE_NONE \<longrightarrow> s_key_field s \<noteq> None" "secs_wf ss"
    using Cons.prems(1) by (auto simp: secs_wf_def)
  obtain m' h' k' where 1: "finish_section start0 s m None k = Ret (m', h', k')" "section_loaded s m' h' k'"
    using finish_section_ok [OF s(1,2) ms(2)] by blast
  obtain ms' hs' ks' where 2: "finish_sections start0 ss ms1 (replicate (length ss) None) ks1 = Ret (ms', hs', ks')"
    "length ms' = length ss" "length hs' = length ss" "length ks' = length ss"
    "\<forall>i < length ss. section_loaded (ss ! i) (ms' ! i) (hs' ! i) (ks' ! i)"
    using Cons.IH [OF s(3) ms(3) ks(2)] by blast
  have "section_loaded ((s # ss) ! i) ((m' # ms') ! i) ((h' # hs') ! i) ((k' # ks') ! i)" if "i < Suc (length ss)" for i
    using that 1(2) 2(5) by (cases i) auto
  with 1 2 ms(1) ks(1) show ?case by simp
qed

text \<open>A manager as \<open>cm_create\<close> leaves it.\<close>

definition created_wf :: "cm \<Rightarrow> bool" where
  "created_wf cm \<longleftrightarrow>
     cm_state cm = CM_CREATED \<and> secs_wf (cm_secs cm) \<and>
     cm_vals cm = replicate (length (cm_secs cm)) \<lparr>m_num_rows = 0, m_rows = []\<rparr> \<and>
     cm_hashes cm = replicate (length (cm_secs cm)) None \<and>
     cm_key_arrays cm = replicate (length (cm_secs cm)) None"

lemma cm_lock_simps [simp]:
  "cm_state (cm_LOCK cm) = cm_state cm" "cm_secs (cm_LOCK cm) = cm_secs cm" "cm_vals (cm_LOCK cm) = cm_vals cm"
  "cm_hashes (cm_LOCK cm) = cm_hashes cm" "cm_key_arrays (cm_LOCK cm) = cm_key_arrays cm"
  "cm_UNLOCK (cm_LOCK cm) = cm"
  by (simp_all add: cm_LOCK_def cm_UNLOCK_def)

lemma cm_load_wf:
  assumes "created_wf cm" "cfg_ok ranges_end cfg"
  shows "\<exists>cm'. cm_load True start0 (Some cfg) (Some cm) filename = Ret (Some cm', 0) \<and> loaded_wf cm' \<and>
    cm_lock cm' = cm_lock cm \<and> cm_secs cm' = cm_secs cm"
proof -
  have secs: "secs_wf (cm_secs cm)" using assms(1) by (simp add: created_wf_def)
  have "vals_ok ranges_end (cm_secs cm) (cm_vals cm)"
    using assms(1) by (auto simp: created_wf_def vals_ok_def list_all2_conv_all_nth matrix_ok_empty)
  from read_categories_ok [OF secs comma_closed_ranges assms(2) this] obtain vals where
    v: "read_categories (cm_secs cm) (cm_vals cm) cfg = Ret vals" "vals_ok ranges_end (cm_secs cm) vals" by blast
  obtain ms hs ks where f: "finish_sections start0 (cm_secs cm) vals (cm_hashes cm) (cm_key_arrays cm) = Ret (ms, hs, ks)"
    "length ms = length (cm_secs cm)" "length hs = length (cm_secs cm)" "length ks = length (cm_secs cm)"
    "\<forall>i < length (cm_secs cm). section_loaded (cm_secs cm ! i) (ms ! i) (hs ! i) (ks ! i)"
    using finish_sections_ok [OF secs v(2), of "cm_key_arrays cm" start0] assms(1)
    by (auto simp: created_wf_def)
  show ?thesis
    using assms(1) v(1) f secs
    by (auto simp: cm_load_def created_wf_def Let_def loaded_wf_def cm_LOCK_def cm_UNLOCK_def)
qed


section \<open>Values of a loaded manager\<close>

definition id_matches :: "cm_section \<Rightarrow> cm_id \<Rightarrow> bool" where
  "id_matches sec ident \<longleftrightarrow>
     (case s_key_type sec of
        KTYPE_NONE \<Rightarrow> True
      | KTYPE_INTEGER \<Rightarrow> (\<exists>n. ident = Id_int n)
      | KTYPE_STRING \<Rightarrow> (\<exists>s. ident = Id_str s))"

lemma key_row_loaded:
  assumes "section_loaded sec m hash keys" "id_matches sec ident"
  shows "\<exists>r. key_row sec hash ident = Ret r \<and> pred_option (\<lambda>v. 1 \<le> v \<and> v < m_num_rows m) r"
proof (cases "s_key_type sec")
  case KTYPE_INTEGER
  then obtain h n where "hash = Some (Hash_i h)" "int_table (m_num_rows m) h" "ident = Id_int n"
    using assms by (auto simp: section_loaded_def id_matches_def)
  with KTYPE_INTEGER int_hash.built_lookup_vals [of HASHSIZE h "m_num_rows m" n] show ?thesis
    by (auto simp: key_row_def int_table_def)
next
  case KTYPE_STRING
  then obtain h n where "hash = Some (Hash_c h)" "str_table (m_num_rows m) h" "ident = Id_str n"
    using assms by (auto simp: section_loaded_def id_matches_def)
  with KTYPE_STRING str_hash.built_lookup_vals [of HASHSIZE h "m_num_rows m" n] show ?thesis
    by (auto simp: key_row_def str_table_def)
qed (simp add: key_row_def)

definition row_val :: "cm_matrix \<Rightarrow> nat \<Rightarrow> nat \<Rightarrow> string option" where
  "row_val m i j = the (m_rows m ! i) ! j"

lemma get_val_full:
  assumes "matrix_full P sec m" "0 \<le> row" "row < m_num_rows m" "0 \<le> elem" "elem < int (num_directives sec)"
  shows "get_val m row elem = Ret (row_val m (nat row) (nat elem))"
proof -
  have i: "nat row < length (m_rows m)" using assms(1-3) by (auto simp: matrix_full_def)
  obtain r where r: "m_rows m ! nat row = Some r" "length r = num_directives sec"
  proof (cases "nat row = 0")
    case True
    with assms(1) that show ?thesis by (auto simp: matrix_full_def)
  next
    case False
    with assms(1) i that show ?thesis by (auto simp: matrix_full_def row_ok_def)
  qed
  with assms i show ?thesis
    by (simp add: get_val_def arr_get_nat matrix_full_def row_val_def)
qed

text \<open>The value a row of a section has for a directive: its own, or that of the defaults.\<close>

definition effective :: "cm_matrix \<Rightarrow> nat \<Rightarrow> nat \<Rightarrow> string option" where
  "effective m i j = (case row_val m i j of Some v \<Rightarrow> Some v | None \<Rightarrow> row_val m 0 j)"

lemma cm_get_loaded:
  assumes "loaded_wf cm" "s < length (cm_secs cm)" "e < num_directives (cm_secs cm ! s)" "0 < n"
    and "id_matches (cm_secs cm ! s) ident"
  shows "\<exists>r. key_row (cm_secs cm ! s) (cm_hashes cm ! s) ident = Ret r \<and>
    pred_option (\<lambda>v. 1 \<le> v \<and> v < m_num_rows (cm_vals cm ! s)) r \<and>
    cm_get (Some cm) True n (int s) (int e) ident =
      Ret (Some cm,
        if s_key_type (cm_secs cm ! s) = KTYPE_NONE then copy_out (effective (cm_vals cm ! s) 0 e) n
        else (case r of
                None \<Rightarrow> (- 1, None)
              | Some row \<Rightarrow> copy_out (effective (cm_vals cm ! s) (nat row) e) n))"
proof -
  let ?sec = "cm_secs cm ! s" let ?m = "cm_vals cm ! s"
  have sl: "section_loaded ?sec ?m (cm_hashes cm ! s) (cm_key_arrays cm ! s)" and st: "cm_state cm = CM_LOADED"
    and len: "length (cm_vals cm) = length (cm_secs cm)" "length (cm_hashes cm) = length (cm_secs cm)"
    using assms(1,2) by (auto simp: loaded_wf_def)
  then have full: "matrix_full (\<lambda>s. True) ?sec ?m" by (simp add: section_loaded_def)
  then have n0: "0 < m_num_rows ?m" by (auto simp: matrix_full_def)
  obtain r where r: "key_row ?sec (cm_hashes cm ! s) ident = Ret r"
    "pred_option (\<lambda>v. 1 \<le> v \<and> v < m_num_rows ?m) r"
    using key_row_loaded [OF sl assms(5)] by blast
  have v0: "get_val ?m 0 (int e) = Ret (row_val ?m 0 e)"
    using get_val_full [OF full, of 0 "int e"] n0 assms(3) by simp
  have v: "get_val ?m row (int e) = Ret (row_val ?m (nat row) e)" if "r = Some row" for row
    using get_val_full [OF full, of row "int e"] r(2) that assms(3) by simp
  show ?thesis
    using r v0 v st len assms(2-4)
    by (auto simp: cm_get_def Let_def effective_def split: option.split)
qed


section \<open>Directives given more than once\<close>

fun join_onto :: "string option \<Rightarrow> string list \<Rightarrow> string option" where
  "join_onto acc [] = acc"
| "join_onto acc (x # xs) = join_onto (Some (case acc of Some s \<Rightarrow> s @ '','' @ x | None \<Rightarrow> x)) xs"

definition column_vals :: "cm_section \<Rightarrow> (string \<times> string) list \<Rightarrow> nat \<Rightarrow> string list" where
  "column_vals sec v c = map snd (filter (\<lambda>(name, val). get_col sec name = int c) v)"

lemma read_vars_joins:
  assumes "0 < num_directives sec"
  shows "length row = num_directives sec \<Longrightarrow>
    \<exists>row'. read_vars sec row v = Ret row' \<and> length row' = num_directives sec \<and>
      (\<forall>c < num_directives sec. row' ! c = join_onto (row ! c) (column_vals sec v c))"
proof (induction v arbitrary: row)
  case Nil
  then show ?case by (simp add: column_vals_def)
next
  case (Cons nv v)
  obtain name val where nv: "nv = (name, val)" by force
  show ?case
  proof (cases "get_col sec name \<ge> 0")
    case False
    then have "column_vals sec (nv # v) c = column_vals sec v c" for c
      by (auto simp: column_vals_def nv)
    with False Cons nv show ?thesis by simp
  next
    case True
    define p where "p = nat (get_col sec name)"
    have p: "get_col sec name = int p" "p < length row"
      using True get_col_range [OF assms, of name] Cons.prems by (auto simp: p_def)
    let ?s = "Some (case row ! p of Some s \<Rightarrow> s @ '','' @ val | None \<Rightarrow> val)"
    obtain row' where r: "read_vars sec (row[p := ?s]) v = Ret row'" "length row' = num_directives sec"
      "\<forall>c < num_directives sec. row' ! c = join_onto (row[p := ?s] ! c) (column_vals sec v c)"
      using Cons.IH [of "row[p := ?s]"] Cons.prems by auto
    have "row' ! c = join_onto (row ! c) (column_vals sec (nv # v) c)" if "c < num_directives sec" for c
      using r(3) that p Cons.prems by (cases "c = p") (auto simp: column_vals_def nv)
    with r p nv show ?thesis by (simp add: Let_def)
  qed
qed

lemma join_onto_tokens:
  "join_onto (Some s) xs = Some s' \<Longrightarrow> split_on (CHR '','') s' = split_on (CHR '','') s @ concat (map (split_on (CHR '','')) xs)"
  by (induction xs arbitrary: s) (auto simp: split_on_append)


section \<open>The keys of a list of ranges\<close>

definition token_keys :: "string \<Rightarrow> int set" where
  "token_keys t =
     (case sscanf_d_d t of
        (n, Some a, Some b) \<Rightarrow> {a..b}
      | (n, Some a, None) \<Rightarrow> {a}
      | (n, None, _) \<Rightarrow> {})"

definition token_wf :: "string \<Rightarrow> bool" where
  "token_wf t \<longleftrightarrow> t = [] \<or> fst (sscanf_d t) = 1"

abbreviation small_table :: "(int, int) hash \<Rightarrow> bool" where
  "small_table h \<equiv> direct_inv modolo_hash eq_int 512 {0..<512} h"

lemma small_insert:
  assumes "small_table h" "0 \<le> k" "k < 512"
  shows "\<exists>h' re. AST_HASH_INSERT_NOLOCK h k i = Ret (h', re) \<and> small_table h' \<and>
    hash_abs h' = (\<lambda>x. if x = k \<and> hash_abs h x = None then Some i else hash_abs h x)"
proof (cases "hash_abs h k = None")
  case True
  with int_direct.direct_insert_new [OF assms(1) _ True, of i] assms obtain h' where
    "AST_HASH_INSERT_NOLOCK h k i = Ret (h', 0)" "small_table h'" "hash_abs h' = (hash_abs h)(k \<mapsto> i)" by auto
  with True show ?thesis by (auto simp: fun_eq_iff)
next
  case False
  with int_direct.direct_insert_old [OF assms(1) _ False, of i] assms show ?thesis
    by (auto simp: fun_eq_iff)
qed

lemma hash_range_keys:
  "small_table h \<Longrightarrow> 0 \<le> a \<Longrightarrow> b < 512 \<Longrightarrow>
   \<exists>h' s. hash_range h a b i = Ret (h', s) \<and> s = max a (b + 1) \<and> small_table h' \<and>
     hash_abs h' = (\<lambda>x. if x \<in> {a..b} \<and> hash_abs h x = None then Some i else hash_abs h x)"
proof (induction "nat (b + 1 - a)" arbitrary: h a)
  case 0
  then show ?case by (subst hash_range.simps) (auto simp: fun_eq_iff)
next
  case (Suc d)
  then have ab: "a \<le> b" by simp
  obtain h1 re where h1: "AST_HASH_INSERT_NOLOCK h a i = Ret (h1, re)" "small_table h1"
    "hash_abs h1 = (\<lambda>x. if x = a \<and> hash_abs h x = None then Some i else hash_abs h x)"
    using small_insert [OF Suc.prems(1,2), of i] ab Suc.prems(3) by auto
  have "d = nat (b + 1 - (a + 1))" using Suc.hyps(2) by simp
  from Suc.hyps(1) [OF this h1(2)] Suc.prems obtain h' s where
    h': "hash_range h1 (a + 1) b i = Ret (h', s)" "s = max (a + 1) (b + 1)" "small_table h'"
    "hash_abs h' = (\<lambda>x. if x \<in> {a + 1..b} \<and> hash_abs h1 x = None then Some i else hash_abs h1 x)" by auto
  have "hash_range h a b i = Ret (h', s)"
    using ab Suc.prems(3) h1(1) h'(1) by (subst hash_range.simps) auto
  with h' h1(3) show ?case using ab by (auto simp: fun_eq_iff)
qed

lemma token_scan:
  assumes "fst (sscanf_d t) = 1"
  obtains a where "sscanf_d t = (1, Some a)" and
    "sscanf_d_d t = (1, Some a, None) \<or> (\<exists>b. sscanf_d_d t = (2, Some a, Some b))"
  using assms that
  by (auto simp: sscanf_d_def sscanf_d_d_def split: scan.splits list.splits if_splits)

lemma hash_tokens_keys:
  "small_table h \<Longrightarrow> \<forall>t \<in> set ts. token_wf t \<and> token_keys t \<subseteq> {0..<512} \<Longrightarrow>
   \<exists>h' s. hash_tokens h start ts i = Ret (h', s) \<and> small_table h' \<and>
     hash_abs h' = (\<lambda>x. if x \<in> (\<Union>t \<in> set ts. token_keys t) \<and> hash_abs h x = None then Some i else hash_abs h x)"
proof (induction ts arbitrary: h start)
  case Nil
  then show ?case by auto
next
  case (Cons t ts)
  have IH: "\<exists>h' s. hash_tokens h1 x ts i = Ret (h', s) \<and> small_table h' \<and>
     hash_abs h' = (\<lambda>x. if x \<in> (\<Union>t \<in> set ts. token_keys t) \<and> hash_abs h1 x = None then Some i else hash_abs h1 x)"
    if "small_table h1" for h1 x using Cons.IH [OF that] Cons.prems(2) by simp
  show ?case
  proof (cases "t = []")
    case True
    moreover have "token_keys [] = {}" by (simp add: token_keys_def sscanf_d_d_def scan_int_def)
    ultimately show ?thesis using IH [OF Cons.prems(1), of start] by simp
  next
    case False
    then obtain a where a: "sscanf_d t = (1, Some a)"
      "sscanf_d_d t = (1, Some a, None) \<or> (\<exists>b. sscanf_d_d t = (2, Some a, Some b))"
      using Cons.prems(2) token_scan [of t] by (auto simp: token_wf_def)
    have step: "\<exists>h1 s1. hash_tokens h start (t # ts) i = hash_tokens h1 s1 ts i \<and> small_table h1 \<and>
        hash_abs h1 = (\<lambda>x. if x \<in> token_keys t \<and> hash_abs h x = None then Some i else hash_abs h x)"
    proof (cases "sscanf_d_d t = (1, Some a, None)")
      case True
      then have k: "token_keys t = {a}" by (simp add: token_keys_def)
      then obtain h' re where h': "AST_HASH_INSERT_NOLOCK h a i = Ret (h', re)" "small_table h'"
        "hash_abs h' = (\<lambda>x. if x = a \<and> hash_abs h x = None then Some i else hash_abs h x)"
        using small_insert [OF Cons.prems(1), of a i] Cons.prems(2) by auto
      have "hash_tokens h start (t # ts) i = hash_tokens h' a ts i"
        using True a(1) False h'(1) by (simp add: Let_def)
      with h'(2,3) k show ?thesis by auto
    next
      case False2: False
      then obtain b where b: "sscanf_d_d t = (2, Some a, Some b)" using a(2) by auto
      then have k: "token_keys t = {a..b}" by (simp add: token_keys_def)
      show ?thesis
      proof (cases "a \<le> b")
        case True
        then have "0 \<le> a" "b < 512" using Cons.prems(2) k by auto
        then obtain h' s' where h': "hash_range h a b i = Ret (h', s')" "small_table h'"
          "hash_abs h' = (\<lambda>x. if x \<in> {a..b} \<and> hash_abs h x = None then Some i else hash_abs h x)"
          using hash_range_keys [OF Cons.prems(1), of a b i] by blast
        have "hash_tokens h start (t # ts) i = hash_tokens h' s' ts i"
          using b False h'(1) by (simp add: Let_def)
        with h'(2,3) k show ?thesis by auto
      next
        case gt: False
        then have "hash_range h a b i = Ret (h, a)" by (subst hash_range.simps) simp
        then have "hash_tokens h start (t # ts) i = hash_tokens h a ts i" using b False by (simp add: Let_def)
        moreover have "hash_abs h = (\<lambda>x. if x \<in> token_keys t \<and> hash_abs h x = None then Some i else hash_abs h x)"
          using gt k by auto
        ultimately show ?thesis using Cons.prems(1) by blast
      qed
    qed
    then obtain h1 s1 where 1: "hash_tokens h start (t # ts) i = hash_tokens h1 s1 ts i" "small_table h1"
      "hash_abs h1 = (\<lambda>x. if x \<in> token_keys t \<and> hash_abs h x = None then Some i else hash_abs h x)" by blast
    from IH [OF 1(2), of s1] 1 show ?thesis by (auto simp: fun_eq_iff)
  qed
qed


section \<open>Going through the keys\<close>

fun iterate_ids :: "nat \<Rightarrow> cm option \<Rightarrow> int \<Rightarrow> cm_key option \<Rightarrow> cm_key list run" where
  "iterate_ids 0 cm_p sec_id prev = Hang"
| "iterate_ids (Suc fuel) cm_p sec_id prev =
     run_bind (cm_get_next_id cm_p sec_id prev) (\<lambda>(cm_p, re, next).
       if re = 0 then Ret []
       else run_map (\<lambda>ids. the next # ids) (iterate_ids fuel cm_p sec_id next))"

lemma find_int_key:
  assumes "distinct ks" "i < length ks"
  shows "j \<le> i \<Longrightarrow> find_key (is_int_key (ks ! i)) (map Key_i ks) (int (length ks)) (int j) = Ret (int i)"
proof (induction "i - j" arbitrary: j)
  case 0
  then have "j = i" by simp
  with assms(2) show ?case by (subst find_key.simps) (simp add: is_int_key_def)
next
  case (Suc d)
  then have "j < i" by simp
  then have "ks ! j \<noteq> ks ! i" using assms by (simp add: nth_eq_iff_index_eq)
  moreover have "find_key (is_int_key (ks ! i)) (map Key_i ks) (int (length ks)) (int (Suc j)) = Ret (int i)"
    using Suc.hyps(2) \<open>j < i\<close> by (intro Suc.hyps(1)) auto
  ultimately show ?case using \<open>j < i\<close> assms(2)
    by (subst find_key.simps) (simp add: is_int_key_def add.commute)
qed

lemma next_id_int:
  assumes "loaded_wf cm" "s < length (cm_secs cm)" "s_key_type (cm_secs cm ! s) = KTYPE_INTEGER"
    and "cm_hashes cm ! s = Some (Hash_i h)" "cm_key_arrays cm ! s = Some (map Key_i ks)"
    and "length ks = AST_HASH_LENGTH_NOLOCK h" "distinct ks" "\<forall>k \<in> set ks. 0 \<le> k"
  shows "cm_get_next_id (Some cm) (int s) None =
      Ret (Some cm, if ks = [] then (0, None) else (1, Some (Key_i (ks ! 0))))"
    and "i < length ks \<Longrightarrow> cm_get_next_id (Some cm) (int s) (Some (Key_i (ks ! i))) =
      Ret (Some cm, if Suc i < length ks then (1, Some (Key_i (ks ! Suc i))) else (0, None))"
proof -
  have st: "cm_state cm = CM_LOADED" "length (cm_hashes cm) = length (cm_secs cm)"
    "length (cm_key_arrays cm) = length (cm_secs cm)" using assms(1) by (auto simp: loaded_wf_def)
  show "cm_get_next_id (Some cm) (int s) None = Ret (Some cm, if ks = [] then (0, None) else (1, Some (Key_i (ks ! 0))))"
    using st assms(2-6) by (cases ks) (auto simp: cm_get_next_id_def Let_def arr_get_def)
  show "cm_get_next_id (Some cm) (int s) (Some (Key_i (ks ! i))) =
      Ret (Some cm, if Suc i < length ks then (1, Some (Key_i (ks ! Suc i))) else (0, None))" if "i < length ks"
  proof -
    have "\<not> ks ! i < 0" using assms(8) that by (simp add: not_less)
    moreover have "next_key (is_int_key (ks ! i)) (map Key_i ks) (int (length ks)) =
        Ret (if Suc i < length ks then Some (Key_i (ks ! Suc i)) else None)"
      using find_int_key [OF assms(7) that, of 0] that
      by (auto simp: next_key_def arr_get_def nat_add_distrib)
    moreover have "int (length ks) \<noteq> 0" using that by auto
    ultimately show ?thesis using st assms(2-6) by (simp add: cm_get_next_id_def Let_def)
  qed
qed

lemma iterate_ids_int:
  assumes "loaded_wf cm" "s < length (cm_secs cm)" "s_key_type (cm_secs cm ! s) = KTYPE_INTEGER"
    and "cm_hashes cm ! s = Some (Hash_i h)" "cm_key_arrays cm ! s = Some (map Key_i ks)"
    and "length ks = AST_HASH_LENGTH_NOLOCK h" "distinct ks" "\<forall>k \<in> set ks. 0 \<le> k"
  shows "iterate_ids (Suc (length ks)) (Some cm) (int s) None = Ret (map Key_i ks)"
proof -
  note nx = next_id_int [OF assms]
  have tail: "i < length ks \<Longrightarrow> iterate_ids (length ks - i) (Some cm) (int s) (Some (Key_i (ks ! i))) =
      Ret (map Key_i (drop (Suc i) ks))" for i
  proof (induction "length ks - i" arbitrary: i)
    case (Suc d)
    have m: "length ks - i = Suc (length ks - Suc i)" using Suc.prems by simp
    show ?case
    proof (cases "Suc i < length ks")
      case True
      then have "drop (Suc i) ks = ks ! Suc i # drop (Suc (Suc i)) ks" by (rule Cons_nth_drop_Suc [symmetric])
      moreover have "iterate_ids (length ks - Suc i) (Some cm) (int s) (Some (Key_i (ks ! Suc i))) =
          Ret (map Key_i (drop (Suc (Suc i)) ks))"
        using Suc.hyps(2) True by (intro Suc.hyps(1)) auto
      ultimately show ?thesis using True nx(2) [OF Suc.prems] unfolding m by simp
    next
      case False
      then show ?thesis using nx(2) [OF Suc.prems] unfolding m by simp
    qed
  qed simp
  show ?thesis
  proof (cases ks)
    case Nil
    then show ?thesis using nx(1) by simp
  next
    case (Cons k ks1)
    then show ?thesis using nx(1) tail [of 0] by simp
  qed
qed


lemma init_small: "small_table (AST_HASH_INIT_INT 0 HASHSIZE)"
  using int_direct.direct_init by (simp add: AST_HASH_INIT_INT_def HASHSIZE_def)

lemma hash_abs_init_small: "hash_abs (AST_HASH_INIT_INT (0::int) HASHSIZE) = Map.empty"
  using int_direct.hash_abs_init by (simp add: AST_HASH_INIT_INT_def HASHSIZE_def)

text \<open>The keys of a table in which every key has a slot of its own: no key appears twice.\<close>

lemma small_table_keys:
  assumes "small_table h"
  shows "distinct (map fst (AST_HASH_TRAVERSE_NOLOCK h))"
    and "set (map fst (AST_HASH_TRAVERSE_NOLOCK h)) = dom (hash_abs h)"
proof -
  have h: "direct {0..<512} h" "h_hash_f h = modolo_hash" "h_size h = 512"
    using assms by (auto simp: direct_inv_def)
  then have data: "take (h_size h) (h_data h) = map (slot h) [0..<512]"
    by (intro nth_equalityI) (auto simp: direct_def hash_wf_def slot_def)
  have keys: "map fst (AST_HASH_TRAVERSE_NOLOCK h) = map (\<lambda>i. e_key (slot h i)) (filter (\<lambda>i. e_used (slot h i)) [0..<512])"
    by (simp add: AST_HASH_TRAVERSE_NOLOCK_def data filter_map o_def)
  have home: "e_key (slot h i) = int i" if "i < 512" "e_used (slot h i)" for i
    using h that modolo_hash_small [of "e_key (slot h i)" 512] by (auto simp: direct_def)
  show "distinct (map fst (AST_HASH_TRAVERSE_NOLOCK h))"
    unfolding keys by (simp add: distinct_map) (auto simp: inj_on_def home)
  have "hash_abs h k = None" if "k \<notin> {0..<512}" for k
    using int_direct.hash_abs_outside [OF assms that] .
  moreover have "hash_abs h (int i) = (if e_used (slot h i) then Some (e_val (slot h i)) else None)" if "i < 512" for i
    using that h home [of i] by (simp add: hash_abs_def Let_def modolo_hash_small)
  ultimately show "set (map fst (AST_HASH_TRAVERSE_NOLOCK h)) = dom (hash_abs h)"
    unfolding keys using home
    by (auto simp: dom_def image_iff split: if_splits) (metis atLeastLessThan_iff nat_0_le nat_less_iff of_nat_numeral option.distinct(1))+
qed

lemmas scan_defs = sscanf_d_d_def sscanf_d_def scan_int_def scan_digits_def isspace_def isdigit_def clamp_int_def


section \<open>Properties\<close>

text \<open>
  C3. Loading a file into a fresh manager succeeds, whatever its categories and directives are
  (unless a range of keys ends at the largest integer, for which the loop over it has no end): no
  row, column, table or array is accessed outside its bounds, no loop runs for ever, and the manager
  is well formed. Every row has a value or NULL for each directive, row 0 has every default, keyed
  sections have a table into the rows and an array of its keys; the lock is released.
\<close>

theorem cm_load_total:
  assumes "created_wf cm" "cfg_ok ranges_end cfg"
  shows "\<exists>cm'. cm_load True start0 (Some cfg) (Some cm) filename = Ret (Some cm', 0) \<and> loaded_wf cm' \<and>
    cm_lock cm' = cm_lock cm \<and> cm_secs cm' = cm_secs cm"
  using assms by (rule cm_load_wf)

definition demo_cm :: cm where
  "demo_cm =
     (let secs =
        [\<lparr>s_name = ''general'', s_default_name = None, s_key_field = None, s_key_type = KTYPE_NONE,
          s_directives = [\<lparr>d_name = None, d_def = None, d_desc = None\<rparr>,
                          \<lparr>d_name = Some ''debug'', d_def = Some ''0'', d_desc = None\<rparr>]\<rparr>,
         \<lparr>s_name = ''port'', s_default_name = Some ''default'', s_key_field = Some ''channel'',
          s_key_type = KTYPE_INTEGER,
          s_directives = [\<lparr>d_name = Some ''name'', d_def = None, d_desc = None\<rparr>,
                          \<lparr>d_name = Some ''channel'', d_def = None, d_desc = None\<rparr>,
                          \<lparr>d_name = Some ''context'', d_def = Some ''default'', d_desc = None\<rparr>]\<rparr>] in
      \<lparr>cm_lock = 0, cm_state = CM_CREATED, cm_modname = ''gsm'', cm_filename = None, cm_secs = secs,
       cm_vals = replicate 2 \<lparr>m_num_rows = 0, m_rows = []\<rparr>, cm_hashes = replicate 2 None,
       cm_key_arrays = replicate 2 None, cm_clis = []\<rparr>)"

lemma demo_created: "created_wf demo_cm"
  by (simp add: created_wf_def demo_cm_def secs_wf_def num_directives_def Let_def numeral_2_eq_2)

lemma demo_cfg: "cfg_ok ranges_end [(''isdn'', [(''channel'', ''1-3,7'')])]"
  by (simp add: cfg_ok_def ranges_end_def sscanf_d_d_def scan_int_def scan_digits_def isspace_def isdigit_def
      clamp_int_def Let_def)

theorem cm_load_total_witness:
  "\<exists>cm'. cm_load True 0 (Some [(''isdn'', [(''channel'', ''1-3,7'')])]) (Some demo_cm) ''gsm.conf'' = Ret (Some cm', 0) \<and>
    loaded_wf cm' \<and> cm_lock cm' = cm_lock demo_cm \<and> cm_secs cm' = cm_secs demo_cm"
  by (rule cm_load_total [OF demo_created demo_cfg])

text \<open>A table with the single key \<open>k\<close>, for row 1.\<close>

definition one_key :: "nat \<Rightarrow> (int, int) hash" where
  "one_key k = put (AST_HASH_INIT_INT 0 HASHSIZE) (int k) 1 k None"

definition demo_loaded :: cm where
  "demo_loaded =
     demo_cm\<lparr>cm_state := CM_LOADED,
       cm_vals := [\<lparr>m_num_rows = 1, m_rows = [Some [Some ''general'', Some ''0'']]\<rparr>,
                   \<lparr>m_num_rows = 2, m_rows = [Some [Some ''default'', None, Some ''default''],
                                             Some [Some ''isdn'', Some ''5'', None]]\<rparr>],
       cm_hashes := [None, Some (Hash_i (one_key 5))],
       cm_key_arrays := [None, Some [Key_i 5]]\<rparr>"

lemma one_key_insert:
  assumes "k < HASHSIZE"
  shows "AST_HASH_INSERT_NOLOCK (AST_HASH_INIT_INT 0 HASHSIZE :: (int, int) hash) (int k) 1 = Ret (one_key k, 0)"
proof -
  let ?h = "AST_HASH_INIT_INT 0 HASHSIZE :: (int, int) hash"
  have wf: "hash_wf ?h" by (simp add: AST_HASH_INIT_INT_def wf_init HASHSIZE_def)
  have s: "\<not> e_used (slot ?h k)" "k < h_size ?h" using assms by (simp_all add: AST_HASH_INIT_INT_def HASHSIZE_def)
  have home: "h_hash_f ?h (int k) (h_size ?h) = int k"
    using assms by (simp add: AST_HASH_INIT_INT_def HASHSIZE_def modolo_hash_small)
  show ?thesis
    using insert_cases [OF wf s(2) home, of 1] s(1) by (simp add: insert_result_def one_key_def)
qed

lemma one_key_table:
  assumes "k < HASHSIZE"
  shows "int_table 2 (one_key k)" "AST_HASH_TRAVERSE_NOLOCK (one_key k) = [(int k, 1)]"
proof -
  show "int_table 2 (one_key k)"
    using int_table_insert [OF int_table_init, of 1 2 "int k"] one_key_insert [OF assms] by auto
  have "h_data (one_key k) = (replicate 512 \<lparr>e_used = False, e_next = - 1, e_key = 0, e_val = 0\<rparr>)
      [k := \<lparr>e_used = True, e_next = - 1, e_key = int k, e_val = 1\<rparr>]"
    using assms by (simp add: one_key_def put_def slot_def AST_HASH_INIT_INT_def hash_init_def HASHSIZE_def)
  moreover have "h_size (one_key k) = 512" by (simp add: one_key_def AST_HASH_INIT_INT_def HASHSIZE_def)
  ultimately show "AST_HASH_TRAVERSE_NOLOCK (one_key k) = [(int k, 1)]"
    using assms by (simp add: AST_HASH_TRAVERSE_NOLOCK_def upd_conv_take_nth_drop HASHSIZE_def)
qed

lemma one_key_small:
  assumes "k < HASHSIZE"
  shows "small_table (one_key k)" "hash_abs (one_key k) = [int k \<mapsto> 1]"
  using small_insert [OF init_small, of "int k" 1] one_key_insert [OF assms] assms hash_abs_init_small
  by (auto simp: HASHSIZE_def fun_eq_iff)

lemma one_key_lookup:
  "k < HASHSIZE \<Longrightarrow> j \<in> {0..<512} \<Longrightarrow> AST_HASH_LOOKUP_NOLOCK (one_key k) j = Ret (if j = int k then Some 1 else None)"
  using int_direct.direct_lookup [OF one_key_small(1), of k j] by (simp add: one_key_small(2))

lemma one_key_length: "k < HASHSIZE \<Longrightarrow> AST_HASH_LENGTH_NOLOCK (one_key k) = 1"
  using int_hash.built_length [of HASHSIZE "one_key k"] one_key_table [of k] by (simp add: int_table_def)

lemma all_less_Suc: "(\<forall>i < Suc n. P i) \<longleftrightarrow> (\<forall>i < n. P i) \<and> P n"
  by (auto simp: less_Suc_eq)

lemma demo_loaded_wf: "loaded_wf demo_loaded"
proof -
  have "section_loaded (cm_secs demo_loaded ! 1) (cm_vals demo_loaded ! 1) (Some (Hash_i (one_key 5))) (Some [Key_i 5])"
    using one_key_table [of 5] one_key_length [of 5]
    by (simp add: section_loaded_def demo_loaded_def demo_cm_def Let_def matrix_full_def num_directives_def
        row_ok_def all_less_Suc numeral_2_eq_2 numeral_3_eq_3 HASHSIZE_def exI [of _ "[5]"])
  moreover have "section_loaded (cm_secs demo_loaded ! 0) (cm_vals demo_loaded ! 0) None None"
    by (simp add: section_loaded_def demo_loaded_def demo_cm_def Let_def matrix_full_def num_directives_def
        row_ok_def all_less_Suc numeral_2_eq_2)
  moreover have "secs_wf (cm_secs demo_loaded)" using demo_created by (simp add: created_wf_def demo_loaded_def)
  moreover have "length (cm_secs demo_loaded) = 2" by (simp add: demo_loaded_def demo_cm_def Let_def)
  ultimately show ?thesis
    by (simp add: loaded_wf_def numeral_2_eq_2 all_less_Suc) (simp add: demo_loaded_def)
qed

text \<open>
  The row of a section that an identifier selects, \<open>None\<close> for an unknown key: row 0 in a section
  without keys, the row the table of the section has for the key otherwise.
\<close>

definition selects :: "cm \<Rightarrow> nat \<Rightarrow> cm_id \<Rightarrow> nat option \<Rightarrow> bool" where
  "selects cm s ident r \<longleftrightarrow>
     (case s_key_type (cm_secs cm ! s) of
        KTYPE_NONE \<Rightarrow> r = Some 0
      | KTYPE_INTEGER \<Rightarrow>
          (\<exists>h k. cm_hashes cm ! s = Some (Hash_i h) \<and> ident = Id_int k \<and>
             AST_HASH_LOOKUP_NOLOCK h k = Ret (map_option int r))
      | KTYPE_STRING \<Rightarrow>
          (\<exists>h k. cm_hashes cm ! s = Some (Hash_c h) \<and> ident = Id_str k \<and>
             AST_HASH_LOOKUP_NOLOCK h k = Ret (map_option int r)))"

lemma key_row_selects:
  assumes "section_loaded (cm_secs cm ! s) m (cm_hashes cm ! s) keys" "id_matches (cm_secs cm ! s) ident"
    and "s_key_type (cm_secs cm ! s) \<noteq> KTYPE_NONE"
    and "key_row (cm_secs cm ! s) (cm_hashes cm ! s) ident = Ret r" "pred_option (\<lambda>v. 1 \<le> v) r"
  shows "selects cm s ident (map_option nat r)"
proof -
  have "map_option int (map_option nat r) = r" using assms(5) by (cases r) auto
  with assms show ?thesis
    by (auto simp: selects_def section_loaded_def id_matches_def key_row_def split: ktype.splits)
qed

lemma full_row:
  assumes "matrix_full P sec m" "int i < m_num_rows m"
  shows "\<exists>cells. i < length (m_rows m) \<and> m_rows m ! i = Some cells \<and> length cells = num_directives sec"
proof -
  have "i < length (m_rows m)" using assms by (auto simp: matrix_full_def)
  with assms(1) show ?thesis by (cases "i = 0") (auto simp: matrix_full_def row_ok_def)
qed

text \<open>
  C4. In a loaded manager a directive of a section reads as the value of the row that the key
  selects (row 0, the defaults, in a section without keys), or, when that row has none, as the value
  of the defaults. A value shorter than the buffer is copied and the call returns 0; a value that
  does not fit with its final NUL, and a missing one, is an error with the empty string in the
  buffer; an unknown key is an error that leaves the buffer alone. In every case the manager is
  unchanged and its lock released. Section and directive are in range, the buffer is not empty and
  the key is of the kind the section has.
\<close>

theorem cm_get_value:
  assumes "loaded_wf cm" "s < length (cm_secs cm)" "e < num_directives (cm_secs cm ! s)" "0 < n"
    and "id_matches (cm_secs cm ! s) ident"
  shows "\<exists>r. selects cm s ident r \<and>
    (case r of
       None \<Rightarrow> cm_get (Some cm) True n (int s) (int e) ident = Ret (Some cm, - 1, None)
     | Some i \<Rightarrow>
         \<exists>own defaults. i < length (m_rows (cm_vals cm ! s)) \<and>
           m_rows (cm_vals cm ! s) ! i = Some own \<and> e < length own \<and>
           m_rows (cm_vals cm ! s) ! 0 = Some defaults \<and> e < length defaults \<and>
           (let val = if own ! e = None then defaults ! e else own ! e in
            cm_get (Some cm) True n (int s) (int e) ident =
              Ret (Some cm, if val \<noteq> None \<and> length (the val) < n then (0, val) else (- 1, Some []))))"
proof -
  let ?sec = "cm_secs cm ! s" let ?m = "cm_vals cm ! s"
  have sl: "section_loaded ?sec ?m (cm_hashes cm ! s) (cm_key_arrays cm ! s)"
    using assms(1,2) by (simp add: loaded_wf_def)
  then have full: "matrix_full (\<lambda>s. True) ?sec ?m" by (simp add: section_loaded_def)
  then have n0: "int 0 < m_num_rows ?m" by (auto simp: matrix_full_def)
  obtain r where r: "key_row ?sec (cm_hashes cm ! s) ident = Ret r"
    "pred_option (\<lambda>v. 1 \<le> v \<and> v < m_num_rows ?m) r"
    "cm_get (Some cm) True n (int s) (int e) ident =
      Ret (Some cm,
        if s_key_type ?sec = KTYPE_NONE then copy_out (effective ?m 0 e) n
        else (case r of None \<Rightarrow> (- 1, None) | Some row \<Rightarrow> copy_out (effective ?m (nat row) e) n))"
    using cm_get_loaded [OF assms] by blast
  define r' where "r' = (if s_key_type ?sec = KTYPE_NONE then Some 0 else map_option nat r)"
  have sel: "selects cm s ident r'"
  proof (cases "s_key_type ?sec = KTYPE_NONE")
    case True
    then show ?thesis by (simp add: r'_def selects_def)
  next
    case False
    with key_row_selects [OF sl assms(5) False r(1)] r(2) show ?thesis by (cases r) (auto simp: r'_def)
  qed
  have res: "cm_get (Some cm) True n (int s) (int e) ident =
      Ret (Some cm, case r' of None \<Rightarrow> (- 1, None) | Some i \<Rightarrow> copy_out (effective ?m i e) n)"
    using r(3) by (cases r) (auto simp: r'_def)
  have "int i < m_num_rows ?m" if "r' = Some i" for i
    using that n0 r(2) by (cases r) (auto simp: r'_def split: if_splits)
  then have rows: "\<exists>own. i < length (m_rows ?m) \<and> m_rows ?m ! i = Some own \<and> length own = num_directives ?sec" if "r' = Some i" for i
    using full_row [OF full] that by blast
  obtain defaults where d: "m_rows ?m ! 0 = Some defaults" "length defaults = num_directives ?sec"
    using full_row [OF full n0] by blast
  show ?thesis
  proof (cases r')
    case None
    with sel res show ?thesis by auto
  next
    case (Some i)
    with rows obtain own where own: "i < length (m_rows ?m)" "m_rows ?m ! i = Some own" "length own = num_directives ?sec"
      by blast
    with sel res Some d assms(3) show ?thesis
      by (intro exI [of _ r'])
         (auto simp: effective_def row_val_def copy_out_def Let_def split: option.splits)
  qed
qed

text \<open>
  The section \<open>port\<close> of the example with the key 5: its own value, the same value with a buffer
  that is too short, the value of the defaults, and the answer to an unknown key.
\<close>

theorem cm_get_value_witness:
  "cm_get (Some demo_loaded) True 5 1 0 (Id_int 5) = Ret (Some demo_loaded, 0, Some ''isdn'') \<and>
   cm_get (Some demo_loaded) True 4 1 0 (Id_int 5) = Ret (Some demo_loaded, - 1, Some []) \<and>
   cm_get (Some demo_loaded) True 32 1 2 (Id_int 5) = Ret (Some demo_loaded, 0, Some ''default'') \<and>
   cm_get (Some demo_loaded) True 32 1 0 (Id_int 6) = Ret (Some demo_loaded, - 1, None)"
proof -
  have secs: "cm_hashes demo_loaded ! Suc 0 = Some (Hash_i (one_key 5))" "length (cm_secs demo_loaded) = 2"
    "num_directives (cm_secs demo_loaded ! Suc 0) = 3" "id_matches (cm_secs demo_loaded ! Suc 0) (Id_int k)"
    "s_key_type (cm_secs demo_loaded ! Suc 0) = KTYPE_INTEGER"
    "cm_vals demo_loaded ! Suc 0 = \<lparr>m_num_rows = 2, m_rows = [Some [Some ''default'', None, Some ''default''],
                                             Some [Some ''isdn'', Some ''5'', None]]\<rparr>" for k
    by (simp_all add: demo_loaded_def demo_cm_def num_directives_def id_matches_def Let_def)
  have sel: "selects demo_loaded (Suc 0) (Id_int k) r \<longleftrightarrow> r = (if k = 5 then Some 1 else None)" if "k \<in> {5, 6}" for k r
    using that one_key_lookup [of 5 k] secs(5)
    by (cases r) (auto simp: selects_def secs(1) HASHSIZE_def)
  show ?thesis
    using cm_get_value [OF demo_loaded_wf, of 1 0 5 "Id_int 5"] cm_get_value [OF demo_loaded_wf, of 1 0 4 "Id_int 5"]
      cm_get_value [OF demo_loaded_wf, of 1 2 32 "Id_int 5"] cm_get_value [OF demo_loaded_wf, of 1 0 32 "Id_int 6"]
    by (simp add: sel secs Let_def)
qed


lemma demo_rows:
  "read_categories (cm_secs demo_cm) (cm_vals demo_cm) [(''isdn'', [(''channel'', ''1-3,7'')])] =
     Ret [\<lparr>m_num_rows = 0, m_rows = []\<rparr>,
          \<lparr>m_num_rows = 2, m_rows = [None, Some [Some ''isdn'', Some ''1-3,7'', None]]\<rparr>]"
  by (simp add: demo_cm_def Let_def read_category_def read_category_n_def names_category_def find_row.simps read_row_at_def read_row_def
      get_col_def arr_get_def arr_set_def num_directives_def tolower_def numeral_2_eq_2 numeral_3_eq_3)

lemma demo_table:
  assumes "hash_tokens (AST_HASH_INIT_INT 0 HASHSIZE) 0 (split_on (CHR '','') ''1-3,7'') 1 = Ret (h, st)"
    and "cm_load True 0 (Some [(''isdn'', [(''channel'', ''1-3,7'')])]) (Some demo_cm) ''gsm.conf'' = Ret (Some cm', 0)"
  shows "cm_hashes cm' ! 1 = Some (Hash_i h)"
proof -
  have "hash_rows_int \<lparr>m_num_rows = 2, m_rows = [r, Some [a, Some ''1-3,7'', b]]\<rparr> 1 (AST_HASH_INIT_INT 0 HASHSIZE) 0 1 = Ret h" for r a b
    using assms(1) by (subst hash_rows_int.simps, subst hash_rows_int.simps) (simp add: arr_get_def)
  with assms(2) show ?thesis using demo_rows
    by (cases "init_keys (Some (Hash_i h)) KTYPE_INTEGER None")
       (auto simp: cm_load_def finish_section_def fill_defaults_def hash_categories_def get_col_def demo_cm_def Let_def
        num_directives_def arr_get_def arr_set_def tolower_def cm_LOCK_def cm_UNLOCK_def numeral_2_eq_2 numeral_3_eq_3)
qed


text \<open>
  C6. A key field with a list of numbers and ranges, as \<open>1-3,7\<close>, enters exactly the keys of the
  list into the table, with the row they belong to; keys that were there keep their row (keys below
  the size of the table, every element of the list a number or a range).
\<close>

theorem channel_list_keys:
  assumes "small_table h" "\<forall>t \<in> set (split_on (CHR '','') s). token_wf t \<and> token_keys t \<subseteq> {0..<512}"
  shows "\<exists>h' st. hash_tokens h start (split_on (CHR '','') s) i = Ret (h', st) \<and> small_table h' \<and>
    (\<forall>k \<in> {0..<512}. AST_HASH_LOOKUP_NOLOCK h' k =
      (if k \<in> (\<Union>t \<in> set (split_on (CHR '','') s). token_keys t) \<and> AST_HASH_LOOKUP_NOLOCK h k = Ret None
       then Ret (Some i) else AST_HASH_LOOKUP_NOLOCK h k))"
proof -
  obtain h' st where h': "hash_tokens h start (split_on (CHR '','') s) i = Ret (h', st)" "small_table h'"
    "hash_abs h' = (\<lambda>x. if x \<in> (\<Union>t \<in> set (split_on (CHR '','') s). token_keys t) \<and> hash_abs h x = None
       then Some i else hash_abs h x)"
    using hash_tokens_keys [OF assms] by blast
  then show ?thesis
    using int_direct.direct_lookup [OF assms(1)] int_direct.direct_lookup [OF h'(2)] by auto
qed

theorem channel_list_keys_witness:
  "\<exists>h' st. hash_tokens (AST_HASH_INIT_INT 0 HASHSIZE) 0 (split_on (CHR '','') ''1-3,7'') 1 = Ret (h', st) \<and>
    AST_HASH_LOOKUP_NOLOCK h' 2 = Ret (Some 1) \<and> AST_HASH_LOOKUP_NOLOCK h' 4 = Ret None"
proof -
  have tok: "set (split_on (CHR '','') ''1-3,7'') = {''1-3'', ''7''}" by auto
  have keys: "token_keys ''1-3'' = {1..3}" "token_keys ''7'' = {7}" "token_wf ''1-3''" "token_wf ''7''"
    by (simp_all add: token_keys_def token_wf_def scan_defs)
  have look: "AST_HASH_LOOKUP_NOLOCK (AST_HASH_INIT_INT 0 HASHSIZE) k = Ret (None :: int option)" if "k \<in> {0..<512}" for k
    using int_direct.direct_lookup [OF init_small that] by (simp add: hash_abs_init_small)
  from channel_list_keys [OF init_small, of "''1-3,7''" 0 1, unfolded tok] keys look show ?thesis by fastforce
qed

text \<open>
  A list element of blanks only is taken for a number: \<open>sscanf\<close> reports the end of the
  input, which is not 0, and the key entered is what the previous element left in \<open>start\<close>. After
  \<open>1-3, ,9\<close> the table has the key 4, which the list does not have.
\<close>

theorem blank_element_enters_key:
  "4 \<notin> token_keys ''1-3'' \<union> token_keys '' '' \<union> token_keys ''9'' \<and>
   (\<exists>h st. hash_tokens (AST_HASH_INIT_INT 0 HASHSIZE) start0 (split_on (CHR '','') ''1-3, ,9'') 1 = Ret (h, st) \<and>
      AST_HASH_LOOKUP_NOLOCK h 4 = Ret (Some 1))"
proof -
  let ?h = "AST_HASH_INIT_INT 0 HASHSIZE :: (int, int) hash"
  have tok: "split_on (CHR '','') ''1-3, ,9'' = [''1-3'', '' '', ''9'']" by simp
  have s: "sscanf_d_d ''1-3'' = (2, Some 1, Some 3)" "sscanf_d_d '' '' = (- 1, None, None)"
    "sscanf_d '' '' = (- 1, None)" "sscanf_d_d ''9'' = (1, Some 9, None)" "sscanf_d ''9'' = (1, Some 9)"
    by (simp_all add: scan_defs)
  obtain h1 where h1: "hash_range ?h 1 3 1 = Ret (h1, 4)" "small_table h1"
    "hash_abs h1 = (\<lambda>x. if x \<in> {1..3} \<and> hash_abs ?h x = None then Some 1 else hash_abs ?h x)"
    using hash_range_keys [OF init_small, of 1 3 1] by fastforce
  obtain h2 re where h2: "AST_HASH_INSERT_NOLOCK h1 4 1 = Ret (h2, re)" "small_table h2"
    "hash_abs h2 = (\<lambda>x. if x = 4 \<and> hash_abs h1 x = None then Some 1 else hash_abs h1 x)"
    using small_insert [OF h1(2), of 4 1] by auto
  obtain h3 re3 where h3: "AST_HASH_INSERT_NOLOCK h2 9 1 = Ret (h3, re3)" "small_table h3"
    "hash_abs h3 = (\<lambda>x. if x = 9 \<and> hash_abs h2 x = None then Some 1 else hash_abs h2 x)"
    using small_insert [OF h2(2), of 9 1] by auto
  have "hash_tokens ?h start0 [''1-3'', '' '', ''9''] 1 = Ret (h3, 9)"
    using h1(1) h2(1) h3(1) by (simp add: s)
  moreover have "AST_HASH_LOOKUP_NOLOCK h3 4 = Ret (Some 1)"
    using int_direct.direct_lookup [OF h3(2), of 4] h1(3) h2(3) h3(3) fun_cong [OF hash_abs_init_small, of 4]
    by simp
  moreover have "4 \<notin> token_keys ''1-3'' \<union> token_keys '' '' \<union> token_keys ''9''"
    by (simp add: token_keys_def s)
  ultimately show ?thesis unfolding tok by blast
qed

text \<open>
  A new row has for each directive the values of all its occurrences in the category, in
  order, joined with commas, and NULL without one; the first column starts with the name of the
  category. Joining does not change the elements of a list: they are those of the parts.
\<close>

theorem read_row_joins:
  assumes "0 < num_directives sec"
  shows "\<exists>row. read_row sec None cat v = Ret row \<and> length row = num_directives sec \<and>
    (\<forall>c < num_directives sec.
       row ! c = join_onto (if c = 0 then Some cat else None) (column_vals sec v c)) \<and>
    (\<forall>x xs s. join_onto None (x # xs) = Some s \<longrightarrow>
       split_on (CHR '','') s = concat (map (split_on (CHR '','')) (x # xs)))"
proof -
  let ?row = "(replicate (num_directives sec) None)[0 := Some cat]"
  obtain row where r: "read_vars sec ?row v = Ret row" "length row = num_directives sec"
    "\<forall>c < num_directives sec. row ! c = join_onto (?row ! c) (column_vals sec v c)"
    using read_vars_joins [OF assms, of ?row v] by auto
  have "read_row sec None cat v = Ret row"
    using assms r(1) by (simp add: read_row_def Let_def arr_get_nat arr_set_nat)
  moreover have "row ! c = join_onto (if c = 0 then Some cat else None) (column_vals sec v c)"
    if "c < num_directives sec" for c using r(3) that by (auto simp: nth_list_update)
  ultimately show ?thesis using r(2) by (auto simp: join_onto_tokens)
qed

theorem read_row_joins_witness:
  "\<exists>row. read_row (cm_secs demo_cm ! 1) None ''isdn'' [(''channel'', ''1''), (''channel'', ''4'')] = Ret row \<and>
    row ! 0 = Some ''isdn'' \<and> row ! 1 = Some ''1,4'' \<and> row ! 2 = None"
proof -
  let ?sec = "cm_secs demo_cm ! 1" let ?v = "[(''channel'', ''1''), (''channel'', ''4'')]"
  have n: "num_directives ?sec = 3" by (simp add: demo_cm_def num_directives_def Let_def)
  have "get_col ?sec ''channel'' = 1" by (simp add: demo_cm_def get_col_def Let_def tolower_def)
  then have "column_vals ?sec ?v 0 = []" "column_vals ?sec ?v 1 = [''1'', ''4'']" "column_vals ?sec ?v 2 = []"
    by (simp_all add: column_vals_def)
  moreover obtain row where "read_row ?sec None ''isdn'' ?v = Ret row"
    "\<forall>c < 3. row ! c = join_onto (if c = 0 then Some ''isdn'' else None) (column_vals ?sec ?v c)"
    using read_row_joins [of ?sec "''isdn''" ?v] n by auto
  ultimately show ?thesis by (intro exI [of _ row]) auto
qed

end
