(* ===== verification/Configman_Cli.thy ===== *)
theory Configman_Cli
  imports Configman
begin

text \<open>
  The console commands of the configuration manager (\<open>chan_gsm/compat/res_configman.c\<close>): the
  completion of words and the three commands a module gets, and the list of modules.

  The commands read managers under their lock and change nothing; what they print is a list of
  texts. \<open>color\<close> stands for \<open>term_color\<close> (with the colour as its first argument).
\<close>

declare run_bind_cong [fundef_cong]


section \<open>Printing\<close>

fun show_nat_loop :: "nat \<Rightarrow> nat \<Rightarrow> string" where
  "show_nat_loop 0 n = []"
| "show_nat_loop (Suc fuel) n =
     (if n < 10 then [char_of (48 + n)] else show_nat_loop fuel (n div 10) @ [char_of (48 + n mod 10)])"

definition show_int :: "int \<Rightarrow> string" where
  "show_int i =
     (if i < 0 then CHR ''-'' # show_nat_loop (Suc (nat (- i))) (nat (- i)) else show_nat_loop (Suc (nat i)) (nat i))"

datatype color = YELLOW | BRWHITE

definition newline :: string where "newline = [CHR 0x0A]"
definition tab :: string where "tab = [CHR 0x09]"

text \<open>\<open>printf\<close> writes (null) for a NULL string; \<open>term_color\<close> reads its argument.\<close>

definition printf_s :: "string option \<Rightarrow> string" where
  "printf_s s = (case s of Some s \<Rightarrow> s | None \<Rightarrow> ''(null)'')"

definition show_config_description ::
  "(color \<Rightarrow> string \<Rightarrow> string) \<Rightarrow> cm_section \<Rightarrow> int \<Rightarrow> string run" where
  "show_config_description color sec col =
     run_bind (arr_get (s_directives sec) col) (\<lambda>d.
       case d_name d of
         None \<Rightarrow> Fault
       | Some name \<Rightarrow>
           (let name = color BRWHITE name; sect = color YELLOW (s_name sec) in
            case d_def d of
              Some (c # cs) \<Rightarrow>
                Ret (''['' @ sect @ ''] '' @ name @ ''   (Default: '' @ (c # cs) @ '')'' @ newline @ tab @
                     printf_s (d_desc d) @ newline)
            | _ \<Rightarrow> Ret (''['' @ sect @ ''] '' @ name @ newline @ tab @ printf_s (d_desc d) @ newline)))"


section \<open>Completion\<close>

text \<open>
  The loop that all completions share: the candidate number \<open>state\<close> (from 0) among those that
  start with the word. A candidate NULL is dereferenced.
\<close>

fun complete_loop :: "string option list \<Rightarrow> string \<Rightarrow> int \<Rightarrow> int \<Rightarrow> string option run" where
  "complete_loop [] word which state = Ret None"
| "complete_loop (None # cs) word which state =
     (if word = [] then (if which + 1 > state then Fault else complete_loop cs word (which + 1) state) else Fault)"
| "complete_loop (Some c # cs) word which state =
     (if word = [] \<or> strncmp_prefix word c then
        (if which + 1 > state then Ret (Some c) else complete_loop cs word (which + 1) state)
      else complete_loop cs word which state)"

definition complete_section :: "cm \<Rightarrow> string \<Rightarrow> int \<Rightarrow> string option run" where
  "complete_section cm word state = complete_loop (map (\<lambda>s. Some (s_name s)) (cm_secs cm)) word 0 state"

definition complete_directive :: "cm \<Rightarrow> string \<Rightarrow> int \<Rightarrow> string option run" where
  "complete_directive cm word state =
     complete_loop (concat (map (\<lambda>s. map d_name (drop 1 (s_directives s))) (cm_secs cm))) word 0 state"

fun key_text :: "cm_key \<Rightarrow> string option" where
  "key_text (Key_i n) = Some (show_int n)"
| "key_text (Key_c s) = s"

definition complete_keys :: "cm \<Rightarrow> nat \<Rightarrow> string \<Rightarrow> int \<Rightarrow> string option run" where
  "complete_keys cm sec_id word state =
     (if sec_id \<ge> length (cm_secs cm) then Ret None
      else
        run_bind (arr_get (cm_hashes cm) (int sec_id)) (\<lambda>hash.
        run_bind (arr_get (cm_key_arrays cm) (int sec_id)) (\<lambda>keys.
          case hash of
            None \<Rightarrow> Fault
          | Some hash \<Rightarrow>
              (let len = cm_hash_length hash;
                   keys = (case keys of None \<Rightarrow> [] | Some ks \<Rightarrow> take len ks)
               in if length keys < len then Fault
                  else
                    (case s_key_type (cm_secs cm ! sec_id) of
                       KTYPE_STRING \<Rightarrow> complete_loop (map key_text keys) word 0 state
                     | KTYPE_INTEGER \<Rightarrow>
                         if word = [] then
                           (if state \<ge> int len then Ret None
                            else run_map key_text (arr_get keys state))
                         else complete_loop (map key_text keys) word 0 state
                     | KTYPE_NONE \<Rightarrow> Ret None)))))"


section \<open>Words of the command line\<close>

definition skip_space :: "string \<Rightarrow> string" where
  "skip_space s = dropWhile isspace s"

text \<open>
  The conversion \<open>%<w>s\<close> into an array of \<open>n\<close> characters: at most \<open>w\<close> characters of a word
  and a NUL are stored, which is outside the array when the stored word has \<open>n\<close> characters or
  more. \<open>None\<close>: the input ended.
\<close>

definition scan_word :: "nat \<Rightarrow> nat \<Rightarrow> string \<Rightarrow> (string \<times> string) option run" where
  "scan_word w n s =
     (let s = skip_space s; word = take w (takeWhile (\<lambda>c. \<not> isspace c) s) in
      if word = [] then Ret None
      else if length word \<ge> n then Fault
      else Ret (Some (word, drop (length word) s)))"

text \<open>A literal word of the format: white space in the format skips white space.\<close>

definition scan_lit :: "string \<Rightarrow> string \<Rightarrow> string option" where
  "scan_lit lit s = (if take (length lit) s = lit then Some (drop (length lit) s) else None)"

definition get_cm_from_hash :: "cm_world \<Rightarrow> string \<Rightarrow> cm option run" where
  "get_cm_from_hash w modname =
     run_map (\<lambda>(objs, r). case r of None \<Rightarrow> None | Some a \<Rightarrow> w_cms w a) (AST_HASH_LOOKUP (w_objs w) modname)"

definition get_cm_from_line :: "cm_world \<Rightarrow> string \<Rightarrow> cm option run" where
  "get_cm_from_line w line =
     run_bind (scan_word 128 128 line) (\<lambda>r.
       case r of None \<Rightarrow> Ret None | Some (modname, _) \<Rightarrow> get_cm_from_hash w modname)"

fun find_section :: "cm_section list \<Rightarrow> string \<Rightarrow> nat \<Rightarrow> nat option" where
  "find_section [] name i = None"
| "find_section (s # ss) name i =
     (if strcasecmp (s_name s) name = 0 then Some i else find_section ss name (i + 1))"

text \<open>\<open>sscanf(line, "%127s show config %128s %128s", ...)\<close> and the search for the section.\<close>

definition get_sec_from_line :: "cm \<Rightarrow> string \<Rightarrow> nat option run" where
  "get_sec_from_line cm line =
     run_bind (scan_word 127 128 line) (\<lambda>r.
       case r of
         None \<Rightarrow> Ret None
       | Some (_, s) \<Rightarrow>
           (case scan_lit ''show'' (skip_space s) of
              None \<Rightarrow> Ret None
            | Some s \<Rightarrow>
                (case scan_lit ''config'' (skip_space s) of
                   None \<Rightarrow> Ret None
                 | Some s \<Rightarrow>
                     run_bind (scan_word 128 128 s) (\<lambda>r.
                       case r of
                         None \<Rightarrow> Ret None
                       | Some (_, s) \<Rightarrow>
                           run_bind (scan_word 128 128 s) (\<lambda>r.
                             case r of
                               None \<Rightarrow> Ret None
                             | Some (name, _) \<Rightarrow> Ret (find_section (cm_secs cm) name 0))))))"


section \<open>The commands\<close>

record cli_args =
  a_line :: string
  a_word :: string
  a_pos :: int
  a_n :: int
  a_argv :: "string list"

text \<open>
  \<open>CLI_INIT\<close>: the command's name, cut off by \<open>snprintf\<close>; nothing when \<open>malloc\<close> fails. The usage
  text was set when the manager was created or loaded.
\<close>

definition cli_init :: "bool \<Rightarrow> string \<Rightarrow> string \<Rightarrow> string \<Rightarrow> cli_result" where
  "cli_init malloc_ok modname rest usage =
     (if malloc_ok then Cli_registered (take 254 (modname @ rest)) usage else Cli_null)"

definition completion :: "string option \<Rightarrow> cli_result" where
  "completion r = (case r of None \<Rightarrow> Cli_null | Some s \<Rightarrow> Cli_completion s)"

definition cli_show_config_description_completer ::
  "cm_world \<Rightarrow> string \<Rightarrow> string \<Rightarrow> int \<Rightarrow> int \<Rightarrow> string option run" where
  "cli_show_config_description_completer w line word pos state =
     (if pos \<noteq> 4 then Ret None
      else
        run_bind (get_cm_from_line w line) (\<lambda>cm.
          case cm of None \<Rightarrow> Ret None | Some cm \<Rightarrow> complete_directive cm word state))"

definition cli_show_config_descriptions_completer ::
  "cm_world \<Rightarrow> string \<Rightarrow> string \<Rightarrow> int \<Rightarrow> int \<Rightarrow> string option run" where
  "cli_show_config_descriptions_completer w line word pos state =
     (if pos \<noteq> 4 then Ret None
      else
        run_bind (get_cm_from_line w line) (\<lambda>cm.
          case cm of None \<Rightarrow> Ret None | Some cm \<Rightarrow> complete_section cm word state))"

definition cli_show_config_values_completer ::
  "cm_world \<Rightarrow> string \<Rightarrow> string \<Rightarrow> int \<Rightarrow> int \<Rightarrow> string option run" where
  "cli_show_config_values_completer w line word pos state =
     run_bind (get_cm_from_line w line) (\<lambda>cm.
       case cm of
         None \<Rightarrow> Ret None
       | Some cm \<Rightarrow>
           if pos = 4 then complete_section cm word state
           else if pos = 5 then
             run_bind (get_sec_from_line cm line) (\<lambda>sec.
               case sec of
                 None \<Rightarrow> Ret None
               | Some i \<Rightarrow>
                   if s_key_type (cm_secs cm ! i) \<noteq> KTYPE_NONE then complete_keys cm i word state else Ret None)
           else Ret None)"

text \<open>The description of one directive, in every section that has it in a column other than 0.\<close>

fun describe_in :: "(color \<Rightarrow> string \<Rightarrow> string) \<Rightarrow> cm_section list \<Rightarrow> string \<Rightarrow> string list run" where
  "describe_in color [] name = Ret []"
| "describe_in color (s # ss) name =
     (let col = get_col s name in
      if col > 0 then
        run_bind (show_config_description color s col) (\<lambda>text.
          run_map (\<lambda>ts. text # ts) (describe_in color ss name))
      else describe_in color ss name)"

text \<open>The result with the error: what was printed, and whether the usage is shown.\<close>

type_synonym cli_run = "(string list \<times> bool) run"

definition cli_show_config_description ::
  "(color \<Rightarrow> string \<Rightarrow> string) \<Rightarrow> cm_world \<Rightarrow> string list \<Rightarrow> cli_run" where
  "cli_show_config_description color w argv =
     (if length argv \<noteq> 5 then Ret ([], False)
      else
        run_bind (get_cm_from_hash w (argv ! 0)) (\<lambda>cm.
          case cm of
            None \<Rightarrow> Ret ([], False)
          | Some cm \<Rightarrow>
              run_map (\<lambda>out. if out = [] then ([''No such directive: '' @ argv ! 4 @ newline], False) else (out, True))
                (describe_in color (cm_secs cm) (argv ! 4))))"

fun describe_all :: "(color \<Rightarrow> string \<Rightarrow> string) \<Rightarrow> cm_section \<Rightarrow> nat \<Rightarrow> nat \<Rightarrow> string list run" where
  "describe_all color sec 0 j = Ret []"
| "describe_all color sec (Suc k) j =
     run_bind (show_config_description color sec (int j)) (\<lambda>text.
       run_map (\<lambda>ts. text # ts) (describe_all color sec k (j + 1)))"

text \<open>
  The loop over the sections: \<open>None\<close> for all sections, a name for the first section with that
  name. The second component says whether a section was found.
\<close>

fun describe_sections ::
  "(color \<Rightarrow> string \<Rightarrow> string) \<Rightarrow> cm_section list \<Rightarrow> string option \<Rightarrow> cli_run" where
  "describe_sections color [] name = Ret ([], False)"
| "describe_sections color (s # ss) name =
     (case name of
        None \<Rightarrow>
          run_bind (describe_all color s (num_directives s - 1) 1) (\<lambda>out.
            run_map (\<lambda>(ts, _). (out @ ts, True)) (describe_sections color ss name))
      | Some n \<Rightarrow>
          if strcasecmp (s_name s) n = 0
          then run_map (\<lambda>out. (out, True)) (describe_all color s (num_directives s - 1) 1)
          else describe_sections color ss name)"

definition cli_show_config_descriptions ::
  "(color \<Rightarrow> string \<Rightarrow> string) \<Rightarrow> cm_world \<Rightarrow> string list \<Rightarrow> cli_run" where
  "cli_show_config_descriptions color w argv =
     (if length argv \<noteq> 4 \<and> length argv \<noteq> 5 then Ret ([], False)
      else
        run_bind (get_cm_from_hash w (argv ! 0)) (\<lambda>cm.
          case cm of
            None \<Rightarrow> Ret ([], False)
          | Some cm \<Rightarrow>
              run_map (\<lambda>(out, found).
                  if \<not> found \<and> length argv = 5 then (out @ [''No such section: '' @ argv ! 4 @ newline], False)
                  else (out, found))
                (describe_sections color (cm_secs cm) (if length argv = 5 then Some (argv ! 4) else None))))"

definition show_config_values_header :: "(color \<Rightarrow> string \<Rightarrow> string) \<Rightarrow> string \<Rightarrow> string" where
  "show_config_values_header color name = ''['' @ color YELLOW name @ '']'' @ newline"

text \<open>The values of a row, without the key column.\<close>

fun show_cols ::
  "(color \<Rightarrow> string \<Rightarrow> string) \<Rightarrow> cm_matrix \<Rightarrow> int \<Rightarrow> int \<Rightarrow> cm_dir list \<Rightarrow> int \<Rightarrow> string list run" where
  "show_cols color matrix row col [] i = Ret []"
| "show_cols color matrix row col (d # ds) i =
     (if i = col then show_cols color matrix row col ds (i + 1)
      else
        run_bind (get_val matrix row i) (\<lambda>val.
        run_bind (if val = None then get_val matrix 0 i else Ret val) (\<lambda>val.
          run_map (\<lambda>ts. ('' -> '' @ printf_s (d_name d) @ '': '' @
                        color BRWHITE (case val of None \<Rightarrow> [] | Some v \<Rightarrow> v) @ newline) # ts)
            (show_cols color matrix row col ds (i + 1)))))"

definition show_config_values ::
  "(color \<Rightarrow> string \<Rightarrow> string) \<Rightarrow> cm \<Rightarrow> nat \<Rightarrow> int \<Rightarrow> string list run" where
  "show_config_values color cm sec_id row =
     (let sec = cm_secs cm ! sec_id in
      case (if s_key_type sec = KTYPE_NONE then Some 0 else map_option (get_col sec) (s_key_field sec)) of
        None \<Rightarrow> Fault
      | Some col \<Rightarrow>
          run_bind (arr_get (cm_vals cm) (int sec_id)) (\<lambda>matrix.
            show_cols color matrix row col (s_directives sec) 0))"

fun show_keys ::
  "(color \<Rightarrow> string \<Rightarrow> string) \<Rightarrow> cm \<Rightarrow> nat \<Rightarrow> cm_hash \<Rightarrow> cm_key list \<Rightarrow> string list run" where
  "show_keys color cm sec_id hash [] = Ret []"
| "show_keys color cm sec_id hash (k # ks) =
     run_bind (case (hash, k) of
                 (Hash_i h, Key_i n) \<Rightarrow> AST_HASH_LOOKUP_NOLOCK h n
               | (Hash_c h, Key_c (Some s)) \<Rightarrow> AST_HASH_LOOKUP_NOLOCK h s
               | _ \<Rightarrow> Fault) (\<lambda>row.
       case row of
         None \<Rightarrow> show_keys color cm sec_id hash ks
       | Some row \<Rightarrow>
           run_bind (show_config_values color cm sec_id row) (\<lambda>out.
             run_map (\<lambda>ts. show_config_values_header color (printf_s (key_text k)) # out @ ts)
               (show_keys color cm sec_id hash ks)))"

definition show_config_values_list ::
  "(color \<Rightarrow> string \<Rightarrow> string) \<Rightarrow> cm \<Rightarrow> nat \<Rightarrow> string list run" where
  "show_config_values_list color cm sec_id =
     (if s_key_type (cm_secs cm ! sec_id) = KTYPE_NONE then
        run_map (\<lambda>out. show_config_values_header color (s_name (cm_secs cm ! sec_id)) # out)
          (show_config_values color cm sec_id 0)
      else
        run_bind (arr_get (cm_hashes cm) (int sec_id)) (\<lambda>hash.
        run_bind (arr_get (cm_key_arrays cm) (int sec_id)) (\<lambda>keys.
          case hash of
            None \<Rightarrow> Fault
          | Some hash \<Rightarrow>
              (let len = cm_hash_length hash; keys = (case keys of None \<Rightarrow> [] | Some ks \<Rightarrow> take len ks) in
               if length keys < len then Fault else show_keys color cm sec_id hash keys))))"

fun show_sections :: "(color \<Rightarrow> string \<Rightarrow> string) \<Rightarrow> cm \<Rightarrow> nat list \<Rightarrow> string list run" where
  "show_sections color cm [] = Ret []"
| "show_sections color cm (i # is) =
     run_bind (show_config_values_list color cm i) (\<lambda>out.
       run_map (\<lambda>ts. out @ ts) (show_sections color cm is))"

fun section_named :: "cm_section list \<Rightarrow> string \<Rightarrow> nat \<Rightarrow> nat option" where
  "section_named [] name i = None"
| "section_named (s # ss) name i = (if s_name s = name then Some i else section_named ss name (i + 1))"

definition cli_show_config_values ::
  "(color \<Rightarrow> string \<Rightarrow> string) \<Rightarrow> cm_world \<Rightarrow> string list \<Rightarrow> cli_run" where
  "cli_show_config_values color w argv =
     (let argc = length argv in
      if argc < 4 \<or> argc > 6 then Ret ([], False)
      else
        run_bind (get_cm_from_hash w (argv ! 0)) (\<lambda>cm.
          case cm of
            None \<Rightarrow> Ret ([], False)
          | Some cm \<Rightarrow>
              if argc = 4 then
                run_map (\<lambda>out. (out, True)) (show_sections color cm [0..<length (cm_secs cm)])
              else
                (case section_named (cm_secs cm) (argv ! 4) 0 of
                   None \<Rightarrow> Ret ([''No such section: '' @ argv ! 4 @ newline], False)
                 | Some i \<Rightarrow>
                     if argc = 5 then run_map (\<lambda>out. (out, True)) (show_config_values_list color cm i)
                     else if s_key_type (cm_secs cm ! i) = KTYPE_NONE then
                       Ret ([''Section '' @ [CHR 0x22] @ argv ! 4 @ [CHR 0x22] @ '' has no key field!'' @ newline], False)
                     else
                       run_bind (arr_get (cm_hashes cm) (int i)) (\<lambda>hash.
                       run_bind (case (s_key_type (cm_secs cm ! i), hash) of
                                   (KTYPE_INTEGER, Some (Hash_i h)) \<Rightarrow>
                                     (case sscanf_d (argv ! 5) of
                                        (n, Some v) \<Rightarrow> AST_HASH_LOOKUP_NOLOCK h v
                                      | (n, None) \<Rightarrow> Ret None)
                                 | (KTYPE_STRING, Some (Hash_c h)) \<Rightarrow> AST_HASH_LOOKUP_NOLOCK h (argv ! 5)
                                 | _ \<Rightarrow> Fault) (\<lambda>row.
                         case row of
                           None \<Rightarrow> Ret ([''Unknown ID: '' @ argv ! 5 @ newline], False)
                         | Some row \<Rightarrow>
                             run_map (\<lambda>out. (show_config_values_header color (argv ! 5) # out, True))
                               (show_config_values color cm i row))))))"

definition configman_list_modules :: "cm_world \<Rightarrow> cli_cmd \<Rightarrow> cli_result" where
  "configman_list_modules w cmd =
     (case cmd of
        CLI_INIT \<Rightarrow> Cli_registered ''configman list modules'' (''Usage: configman list modules'' @ newline)
      | CLI_GENERATE \<Rightarrow> Cli_null
      | CLI_HANDLER \<Rightarrow>
          Cli_success ((''Modules using configman: '' @ show_int (int (AST_HASH_LENGTH_NOLOCK (w_objs w))) @ newline) #
            map (\<lambda>(key, cm). '' >> '' @ key @ newline) (AST_HASH_TRAVERSE_NOLOCK (w_objs w))))"

text \<open>
  The three commands as the console calls them: the phases \<open>CLI_INIT\<close> and \<open>CLI_GENERATE\<close>, then
  the command itself.
\<close>

definition cli_result_of :: "cli_run \<Rightarrow> (string list \<times> cli_result) run" where
  "cli_result_of r = run_map (\<lambda>(out, ok). if ok then ([], Cli_success out) else (out, Cli_showusage)) r"

datatype cli_command = Show_description | Show_descriptions | Show_values

definition cli_handler ::
  "(color \<Rightarrow> string \<Rightarrow> string) \<Rightarrow> bool \<Rightarrow> cli_command \<Rightarrow> string \<Rightarrow> string \<Rightarrow> cm_world \<Rightarrow> cli_cmd \<Rightarrow> cli_args \<Rightarrow>
   (string list \<times> cli_result) run" where
  "cli_handler color malloc_ok command modname usage w cmd a =
     (case cmd of
        CLI_INIT \<Rightarrow>
          Ret ([], cli_init malloc_ok modname
            (case command of
               Show_description \<Rightarrow> '' show config description''
             | Show_descriptions \<Rightarrow> '' show config descriptions''
             | Show_values \<Rightarrow> '' show config values'') usage)
      | CLI_GENERATE \<Rightarrow>
          run_map (\<lambda>r. ([], completion r))
            (case command of
               Show_description \<Rightarrow> cli_show_config_description_completer w (a_line a) (a_word a) (a_pos a) (a_n a)
             | Show_descriptions \<Rightarrow> cli_show_config_descriptions_completer w (a_line a) (a_word a) (a_pos a) (a_n a)
             | Show_values \<Rightarrow> cli_show_config_values_completer w (a_line a) (a_word a) (a_pos a) (a_n a))
      | CLI_HANDLER \<Rightarrow>
          cli_result_of
            (case command of
               Show_description \<Rightarrow> cli_show_config_description color w (a_argv a)
             | Show_descriptions \<Rightarrow> cli_show_config_descriptions color w (a_argv a)
             | Show_values \<Rightarrow> cli_show_config_values color w (a_argv a)))"


section \<open>Properties\<close>

lemma complete_loop_nth:
  assumes "0 \<le> state"
  shows "complete_loop (map Some cs) word (int which) (int which + state) =
    Ret (let ms = filter (\<lambda>c. word = [] \<or> strncmp_prefix word c) cs in
         if nat state < length ms then Some (ms ! nat state) else None)"
  using assms
proof (induction cs arbitrary: which state)
  case (Cons c cs)
  show ?case
  proof (cases "word = [] \<or> strncmp_prefix word c")
    case False
    with Cons.IH [OF Cons.prems, of which] show ?thesis by (simp add: Let_def)
  next
    case True
    show ?thesis
    proof (cases "state = 0")
      case True2: True
      with True show ?thesis by (simp add: Let_def)
    next
      case False
      then have "complete_loop (map Some cs) word (int (Suc which)) (int (Suc which) + (state - 1)) =
          Ret (let ms = filter (\<lambda>c. word = [] \<or> strncmp_prefix word c) cs in
               if nat (state - 1) < length ms then Some (ms ! nat (state - 1)) else None)"
        using Cons.prems by (intro Cons.IH) auto
      moreover have "nat state = Suc (nat (state - 1))" using False Cons.prems by simp
      ultimately show ?thesis using True False Cons.prems by (simp add: Let_def add.commute)
    qed
  qed
qed simp

text \<open>
  Completing the name of a section: the console asks for candidate 0, 1, 2, ... and gets the
  names that start with the word, each once, in the order of the sections, and then nothing.
\<close>

theorem complete_section_enumerates:
  "complete_section cm word (int n) =
    Ret (let ms = filter (strncmp_prefix word) (map s_name (cm_secs cm)) in
         if n < length ms then Some (ms ! n) else None)"
proof -
  have "filter (\<lambda>c. word = [] \<or> strncmp_prefix word c) cs = filter (strncmp_prefix word) cs" for cs
    by (rule filter_cong) (auto simp: strncmp_prefix_def)
  with complete_loop_nth [of "int n" "map s_name (cm_secs cm)" word 0] show ?thesis
    by (simp add: complete_section_def o_def Let_def)
qed

text \<open>
  A command line that starts with a word of 128 characters or more makes the completion write
  outside its buffer: \<open>%128s\<close> stores 128 characters and a NUL into an array of 128.
\<close>

theorem completion_overruns_buffer:
  assumes "128 \<le> length modname" "\<forall>c \<in> set modname. \<not> isspace c"
  shows "cli_show_config_descriptions_completer w (modname @ rest) word 4 state = Fault"
proof -
  obtain c cs where m: "modname = c # cs" using assms(1) by (cases modname) auto
  have "skip_space (modname @ rest) = modname @ rest" using assms(2) m by (simp add: skip_space_def)
  moreover have "takeWhile (\<lambda>c. \<not> isspace c) (modname @ rest) = modname @ takeWhile (\<lambda>c. \<not> isspace c) rest"
    using assms(2) by (intro takeWhile_append2) auto
  ultimately have "scan_word 128 128 (modname @ rest) = Fault"
    using assms(1) by (simp add: scan_word_def Let_def m)
  then show ?thesis
    by (simp add: cli_show_config_descriptions_completer_def get_cm_from_line_def)
qed

theorem completion_overruns_buffer_witness:
  "cli_show_config_descriptions_completer
     \<lparr>w_objs = lhash_init_str 0 512, w_cms = Map.empty, w_next = 0, w_refs = 0\<rparr>
     (replicate 200 (CHR ''x'') @ '' show'') [] 4 0 = Fault"
  by (rule completion_overruns_buffer) (simp_all add: isspace_def)

end
