(* ===== verification/Gsm_Config.thy ===== *)
theory Gsm_Config
  imports Configman_Proofs
begin

text \<open>
  The configuration of the GSM driver (\<open>chan_gsm/chan_gsm.c\<close>): its sections and directives, and
  the functions that create, load and destroy its configuration manager. They use the
  configuration manager through the contract \<open>config_schema\<close> of a description of sections.
\<close>


section \<open>Sections and directives (chan_gsm.c)\<close>

definition dir :: "string \<Rightarrow> string option \<Rightarrow> string \<Rightarrow> cm_dir" where
  "dir name def desc = \<lparr>d_name = Some name, d_def = def, d_desc = Some desc\<rparr>"

definition gen_dirs :: "cm_dir list" where
  "gen_dirs =
    [\<lparr>d_name = None, d_def = None, d_desc = None\<rparr>,
     dir ''debug'' (Some ''0'') ''debug level'',
     dir ''syslogdebug'' (Some ''no'') (''Say yes to debug in syslog with identy '' @ [CHR 0x27] @ ''chan_gsm'' @ [CHR 0x27] @ ''.''),
     dir ''smsdir'' (Some ''/var/spool/asterisk/smsin'') ''The directory where inbound sms are stored'',
     dir ''check_homezone'' (Some ''no'') ''whether the homezone should be checked every 10 seconds.'',
     dir ''skip_plus'' (Some ''no'') (''if the number comes with a '' @ [CHR 0x27] @ ''+'' @ [CHR 0x27] @ '' prefix, we skip it.''),
     dir ''relaxdtmf'' (Some ''no'') ''whether radio/gsm optimzed dtmf detection mechanism should be used'',
     dir ''dtmfbegin'' (Some ''yes'') ''whether dtmf regeneration should start at the beginning of the dtmf frame'']"

definition port_dirs :: "cm_dir list" where
  "port_dirs =
    [dir ''name'' None ''name of the group'',
     dir ''channel'' None ''comma separated list of channel numbers'',
     dir ''slot'' None ''default slot (none given means 0)'',
     dir ''pin'' (Some []) ''PIN for all ports in this group'',
     dir ''context'' (Some ''default'') ''context to use for incoming calls'',
     dir ''exten'' (Some ''s'') ''extension to use for incoming calls'',
     dir ''initfile'' (Some []) ''filename containing an alternative module init sequence'',
     dir ''hidecallerid'' (Some ''no'') ''if set to yes hide the callerid'',
     dir ''smsc'' (Some []) ''The number of your SMS Service Provider'',
     dir ''sms_pdu_mode'' (Some []) ''If the SMS should be provided in PDU or ClearText mode.'',
     dir ''provider'' (Some [])
       (''Name of your GSM Provider (Number Format, try '' @ [CHR 0x22] @ ''gsm show ops'' @ [CHR 0x22] @
        '' to get a list of all possible values''),
     dir ''method'' (Some ''standard'') ''Strategy for choosing channels in a group.'',
     dir ''cid_prefix'' (Some [])
       (''If the callerid comes without Internation Code and without '' @ [CHR 0x27] @ ''+'' @ [CHR 0x27] @
        '' prefix, the cidprefix is used as prefix.''),
     dir ''resetinterval'' (Some ''0'')
       (''If you want chan_gsm to restart a module periodically, set this to the amount of seconds which should expire.'' @
        [CHR 0x0A] @
        '' After this time has expired chan_gsm will check if there is a call on this channel and if not restart it, else it will wait again.''),
     dir ''rxgain'' None ''GSM receive gain setting, set this to a number between -10 and +10 (0 for default values)'',
     dir ''txgain'' None ''GSM transmit gain setting, set this to a number between -10 and +10 (0 for default values)'']"

definition config_sections :: "cm_section list" where
  "config_sections =
    [\<lparr>s_name = ''general'', s_default_name = None, s_key_field = None, s_key_type = KTYPE_NONE,
      s_directives = gen_dirs\<rparr>,
     \<lparr>s_name = ''port'', s_default_name = Some ''default'', s_key_field = Some ''channel'',
      s_key_type = KTYPE_INTEGER, s_directives = port_dirs\<rparr>]"

datatype cfg_gen =
    CFG_GEN_NAME | CFG_GEN_DEBUG | CFG_GEN_SYSLOG_DEBUG | CFG_GEN_SMS_DIR | CFG_GEN_CHEKHZ
  | CFG_GEN_SKIP_PLUS | CFG_GEN_RELAXDTMF | CFG_GEN_DTMFBEGIN

fun cfg_gen_id :: "cfg_gen \<Rightarrow> nat" where
  "cfg_gen_id CFG_GEN_NAME = 0"
| "cfg_gen_id CFG_GEN_DEBUG = 1"
| "cfg_gen_id CFG_GEN_SYSLOG_DEBUG = 2"
| "cfg_gen_id CFG_GEN_SMS_DIR = 3"
| "cfg_gen_id CFG_GEN_CHEKHZ = 4"
| "cfg_gen_id CFG_GEN_SKIP_PLUS = 5"
| "cfg_gen_id CFG_GEN_RELAXDTMF = 6"
| "cfg_gen_id CFG_GEN_DTMFBEGIN = 7"

datatype cfg_port =
    CFG_PORT_NAME | CFG_PORT_PORTS | CFG_PORT_SLOT | CFG_PORT_PIN | CFG_PORT_CONTEXT | CFG_PORT_EXTEN
  | CFG_PORT_INITFILE | CFG_PORT_HIDECALLERID | CFG_PORT_SMSC | CFG_PORT_SMS_PDU_MODE | CFG_PORT_PROVIDER
  | CFG_PORT_METHOD | CFG_PORT_CID_PREFIX | CFG_PORT_RESET_INTERVAL | CFG_PORT_RX_GAIN | CFG_PORT_TX_GAIN

fun cfg_port_id :: "cfg_port \<Rightarrow> nat" where
  "cfg_port_id CFG_PORT_NAME = 0"
| "cfg_port_id CFG_PORT_PORTS = 1"
| "cfg_port_id CFG_PORT_SLOT = 2"
| "cfg_port_id CFG_PORT_PIN = 3"
| "cfg_port_id CFG_PORT_CONTEXT = 4"
| "cfg_port_id CFG_PORT_EXTEN = 5"
| "cfg_port_id CFG_PORT_INITFILE = 6"
| "cfg_port_id CFG_PORT_HIDECALLERID = 7"
| "cfg_port_id CFG_PORT_SMSC = 8"
| "cfg_port_id CFG_PORT_SMS_PDU_MODE = 9"
| "cfg_port_id CFG_PORT_PROVIDER = 10"
| "cfg_port_id CFG_PORT_METHOD = 11"
| "cfg_port_id CFG_PORT_CID_PREFIX = 12"
| "cfg_port_id CFG_PORT_RESET_INTERVAL = 13"
| "cfg_port_id CFG_PORT_RX_GAIN = 14"
| "cfg_port_id CFG_PORT_TX_GAIN = 15"

definition SECT_GENERAL :: nat where "SECT_GENERAL = 0"
definition SECT_PORT :: nat where "SECT_PORT = 1"


section \<open>Creating and destroying the configuration\<close>

text \<open>\<open>cm_load\<close> on the manager at an address.\<close>

definition cm_load_at ::
  "bool \<Rightarrow> int \<Rightarrow> (string \<times> (string \<times> string) list) list option \<Rightarrow> cm_world \<Rightarrow> nat \<Rightarrow> string \<Rightarrow> (cm_world \<times> int) run" where
  "cm_load_at strdup_ok start0 cfg w a filename =
     run_map (\<lambda>(cm, re). (w\<lparr>w_cms := (w_cms w)(a := cm)\<rparr>, re)) (cm_load strdup_ok start0 cfg (w_cms w a) filename)"

text \<open>The result: the world, the global variable \<open>config\<close> and the return value.\<close>

definition gsm_config_init ::
  "(nat \<Rightarrow> bool) \<Rightarrow> bool \<Rightarrow> int \<Rightarrow> (string \<times> (string \<times> string) list) list option \<Rightarrow> cm_world \<Rightarrow>
   (cm_world \<times> nat option \<times> int) run" where
  "gsm_config_init alloc strdup_ok start0 cfg w =
     run_bind (cm_create alloc w ''gsm'' config_sections) (\<lambda>(w, config).
       case config of
         None \<Rightarrow> Ret (w, None, - 1)
       | Some a \<Rightarrow>
           run_bind (cm_load_at strdup_ok start0 cfg w a ''gsm.conf'') (\<lambda>(w, re).
             if re \<noteq> 0 then run_map (\<lambda>w. (w, None, - 1)) (cm_destroy w config)
             else Ret (w, config, 0)))"

definition gsm_config_exit :: "cm_world \<Rightarrow> nat option \<Rightarrow> (cm_world \<times> nat option) run" where
  "gsm_config_exit w config =
     (case config of
        None \<Rightarrow> Ret (w, None)
      | Some a \<Rightarrow> run_map (\<lambda>w. (w, None)) (cm_destroy w config))"


section \<open>The contract of a description of sections\<close>

text \<open>
  What the manager asks of its user: every section has a directive, and a section with a key
  names its key field.
\<close>

locale config_schema =
  fixes secs :: "cm_section list"
  assumes schema: "secs_wf secs"
begin

text \<open>A module name that is free: its home slot in the table of managers is, and leads nowhere.\<close>

definition name_free :: "cm_world \<Rightarrow> string \<Rightarrow> bool" where
  "name_free w name \<longleftrightarrow>
     (let i = nat (joaat_hash name (h_size (w_objs w))) in
      hash_wf (w_objs w) \<and> h_hash_f (w_objs w) = joaat_hash \<and> h_eq_f (w_objs w) = eq_str \<and>
      \<not> e_used (slot (w_objs w) i) \<and> e_next (slot (w_objs w) i) = - 1)"

lemma free_lookup:
  assumes "name_free w name"
  shows "AST_HASH_LOOKUP (w_objs w) name = Ret (w_objs w, None)"
proof -
  let ?h = "AST_HASH_LOCK (w_objs w)"
  have wf: "hash_wf ?h" using assms by (simp add: name_free_def Let_def)
  have i: "nat (joaat_hash name (h_size (w_objs w))) < h_size ?h"
    "h_hash_f ?h name (h_size ?h) = int (nat (joaat_hash name (h_size (w_objs w))))"
    using joaat_hash_range [of "h_size (w_objs w)" name] assms by (auto simp: name_free_def hash_wf_def Let_def)
  obtain m where "h_size ?h = Suc m" using i(1) by (cases "h_size ?h") auto
  with lookup_step [OF wf i(1), of m name] i assms
  have "AST_HASH_LOOKUP_NOLOCK ?h name = Ret None"
    by (simp add: AST_HASH_LOOKUP_NOLOCK_def name_free_def next_slot_def slot_def AST_HASH_LOCK_def Let_def)
  then show ?thesis by (simp add: AST_HASH_LOOKUP_def AST_HASH_LOCK_def AST_HASH_UNLOCK_def)
qed

text \<open>Entering the name makes it known, and taking it out again leaves the table without it.\<close>

lemma register_name:
  assumes "name_free w name"
  obtains objs objs' where "AST_HASH_INSERT (w_objs w) name a = Ret (objs, 0)"
    "AST_HASH_LOOKUP objs name = Ret (objs, Some a)"
    "AST_HASH_REMOVE objs name = Ret objs'" "AST_HASH_LOOKUP objs' name = Ret (objs', None)"
proof -
  let ?h = "AST_HASH_LOCK (w_objs w)"
  let ?i = "nat (joaat_hash name (h_size (w_objs w)))"
  have wf: "hash_wf ?h" and f: "h_hash_f ?h = joaat_hash" "h_eq_f ?h = eq_str"
    using assms by (simp_all add: name_free_def Let_def)
  have i: "?i < h_size ?h" "h_hash_f ?h name (h_size ?h) = int ?i"
    using joaat_hash_range [of "h_size (w_objs w)" name] assms f
    by (auto simp: name_free_def hash_wf_def Let_def)
  have free: "\<not> e_used (slot ?h ?i)" "e_next (slot ?h ?i) = - 1"
    using assms by (simp_all add: name_free_def slot_def AST_HASH_LOCK_def Let_def)
  let ?p = "put ?h name a ?i None"
  have ins: "AST_HASH_INSERT (w_objs w) name a = Ret (AST_HASH_UNLOCK ?p, 0)"
    using insert_cases [OF wf i, of a] free by (simp add: AST_HASH_INSERT_def insert_result_def)
  have relock: "AST_HASH_LOCK (AST_HASH_UNLOCK ?p) = ?p"
    by (simp add: AST_HASH_LOCK_def AST_HASH_UNLOCK_def put_def Let_def)
  have look: "AST_HASH_LOOKUP_NOLOCK ?p name = Ret (Some a)"
    by (rule put_home_lookup [OF wf i free(1)]) (use f in \<open>simp add: eq_str_def\<close>)
  have wfp: "hash_wf ?p" using wf i(1) free by (intro wf_put) auto
  obtain m where m: "h_size ?p = Suc m" using i(1) by (cases "h_size ?h") auto
  have "e_used (slot ?p ?i) \<and> h_eq_f ?p (e_key (slot ?p ?i)) name"
    using wf i(1) f by (simp add: slot_put hash_wf_def eq_str_def)
  with remove_step [OF wfp, of ?i None m name] i m
  have "AST_HASH_REMOVE_NOLOCK ?p name = Ret (unset ?p ?i None)"
    by (simp add: AST_HASH_REMOVE_NOLOCK_def prev_pos_def)
  then have rem: "AST_HASH_REMOVE (AST_HASH_UNLOCK ?p) name = Ret (AST_HASH_UNLOCK (unset ?p ?i None))"
    unfolding AST_HASH_REMOVE_def relock by simp
  have "name_free (w\<lparr>w_objs := AST_HASH_UNLOCK (unset ?p ?i None)\<rparr>) name"
    using wf_unset [OF wfp, of ?i None] wf i f free assms
    by (simp add: name_free_def Let_def slot_def unset_def put_def hash_wf_def AST_HASH_UNLOCK_def AST_HASH_LOCK_def)
  from free_lookup [OF this]
  have "AST_HASH_LOOKUP (AST_HASH_UNLOCK (unset ?p ?i None)) name = Ret (AST_HASH_UNLOCK (unset ?p ?i None), None)" by simp
  moreover have "AST_HASH_LOOKUP (AST_HASH_UNLOCK ?p) name = Ret (AST_HASH_UNLOCK ?p, Some a)"
    unfolding AST_HASH_LOOKUP_def relock Let_def look by simp
  ultimately show ?thesis using that ins rem by blast
qed

lemma create_registers:
  assumes "name_free w name" "\<forall>i < 5. alloc i"
  shows "\<exists>w' cm. cm_create alloc w name secs = Ret (w', Some (w_next w)) \<and>
    w_cms w' = (w_cms w)(w_next w \<mapsto> cm) \<and> created_wf cm \<and> cm_secs cm = secs \<and> cm_modname cm = name \<and>
    cm_lock cm = 0 \<and> w_refs w' = w_refs w + 1 \<and>
    AST_HASH_LOOKUP (w_objs w') name = Ret (w_objs w', Some (w_next w)) \<and>
    (\<exists>objs. AST_HASH_REMOVE (w_objs w') name = Ret objs \<and> AST_HASH_LOOKUP objs name = Ret (objs, None))"
proof -
  obtain objs objs' where o: "AST_HASH_INSERT (w_objs w) name (w_next w) = Ret (objs, 0)"
    "AST_HASH_LOOKUP objs name = Ret (objs, Some (w_next w))"
    "AST_HASH_REMOVE objs name = Ret objs'" "AST_HASH_LOOKUP objs' name = Ret (objs', None)"
    using register_name [OF assms(1)] .
  let ?cm = "\<lparr>cm_lock = 0, cm_state = CM_CREATED, cm_modname = name, cm_filename = None, cm_secs = secs,
    cm_vals = replicate (length secs) \<lparr>m_num_rows = 0, m_rows = []\<rparr>,
    cm_hashes = replicate (length secs) None, cm_key_arrays = replicate (length secs) None,
    cm_clis = [''description'', ''descriptions'']\<rparr>"
  have "created_wf ?cm" using schema by (simp add: created_wf_def)
  then show ?thesis
    using o assms(2)
    by (intro exI [of _ "w\<lparr>w_objs := objs, w_cms := (w_cms w)(w_next w \<mapsto> ?cm),
          w_next := w_next w + 1, w_refs := w_refs w + 1\<rparr>"] exI [of _ ?cm])
       (simp add: cm_create_def Let_def)
qed

lemma create_undone:
  assumes "name_free w name" "\<not> (\<forall>i < 5. alloc i)"
  shows "\<exists>objs. cm_create alloc w name secs = Ret (w\<lparr>w_objs := objs\<rparr>, None) \<and>
    AST_HASH_LOOKUP objs name = Ret (objs, None)"
proof -
  obtain objs objs' where o: "AST_HASH_INSERT (w_objs w) name (w_next w) = Ret (objs, 0)"
    "AST_HASH_REMOVE objs name = Ret objs'" "AST_HASH_LOOKUP objs' name = Ret (objs', None)"
    using register_name [OF assms(1)] .
  have five: "i < 5 \<longleftrightarrow> i = 0 \<or> i = 1 \<or> i = 2 \<or> i = 3 \<or> i = (4::nat)" for i by auto
  show ?thesis
  proof (cases "alloc 0 \<and> alloc 1")
    case True
    with assms(2) have "\<not> alloc 2 \<or> \<not> alloc 3 \<or> \<not> alloc 4" by (auto simp: five)
    with True o show ?thesis by (intro exI [of _ objs']) (simp add: cm_create_def Let_def)
  next
    case False
    with free_lookup [OF assms(1)] show ?thesis by (intro exI [of _ "w_objs w"]) (auto simp: cm_create_def)
  qed
qed

end

interpretation gsm_schema: config_schema config_sections
  by unfold_locales (simp add: secs_wf_def config_sections_def num_directives_def gen_dirs_def port_dirs_def)

lemma fresh_registry: "gsm_schema.name_free (configman_load_module w) name"
proof -
  have "nat (joaat_hash name 512) < 512" using joaat_hash_range [of 512 name] by auto
  then show ?thesis
    using wf_init [of 512 "[]" "0::nat" joaat_hash eq_str]
    by (simp add: gsm_schema.name_free_def configman_load_module_def lhash_init_str_def AST_HASH_INIT_STR_def Let_def
        HASHSIZE_def hash.defs hash_wf_def slot_def hash_init_def)
qed


section \<open>Properties\<close>

text \<open>
  C25. Initialising the configuration of the driver on a freshly loaded configuration manager ends
  in one of two ways, whatever allocations fail and whether or not there is a file. When the five
  allocations of the manager and the copy of the file name succeed and the file can be read (no
  channel range of it ends at the largest integer), the manager is created, loaded, well formed and
  registered under the name gsm, with one reference to the module. Otherwise the error is reported and
  nothing is left: no manager, no reference, and the registry does not know the name.
\<close>

theorem gsm_config_init_total:
  assumes "pred_option (cfg_ok ranges_end) cfg" "w = configman_load_module w0" "w_cms w0 (w_next w0) = None"
  shows "if (\<forall>i < 5. alloc i) \<and> strdup_ok \<and> cfg \<noteq> None
    then \<exists>w' a cm. gsm_config_init alloc strdup_ok start0 cfg w = Ret (w', Some a, 0) \<and>
      w_cms w' = (w_cms w)(a \<mapsto> cm) \<and> loaded_wf cm \<and> cm_secs cm = config_sections \<and> cm_lock cm = 0 \<and>
      AST_HASH_LOOKUP (w_objs w') ''gsm'' = Ret (w_objs w', Some a) \<and> w_refs w' = w_refs w + 1
    else \<exists>w'. gsm_config_init alloc strdup_ok start0 cfg w = Ret (w', None, - 1) \<and>
      w_cms w' = w_cms w \<and> w_refs w' = w_refs w \<and>
      AST_HASH_LOOKUP (w_objs w') ''gsm'' = Ret (w_objs w', None)"
proof -
  let ?a = "w_next w"
  have name: "gsm_schema.name_free w ''gsm''" and fresh: "w_cms w ?a = None"
    using fresh_registry assms(2,3) by (simp_all add: configman_load_module_def)
  show ?thesis
  proof (cases "\<forall>i < 5. alloc i")
    case False
    from gsm_schema.create_undone [OF name False] obtain objs where
      "cm_create alloc w ''gsm'' config_sections = Ret (w\<lparr>w_objs := objs\<rparr>, None)" "AST_HASH_LOOKUP objs ''gsm'' = Ret (objs, None)"
      by blast
    with False show ?thesis by (simp add: gsm_config_init_def)
  next
    case True
    then obtain w1 cm where c: "cm_create alloc w ''gsm'' config_sections = Ret (w1, Some ?a)"
      "w_cms w1 = (w_cms w)(?a \<mapsto> cm)" "created_wf cm" "cm_secs cm = config_sections" "cm_modname cm = ''gsm''"
      "cm_lock cm = 0" "w_refs w1 = w_refs w + 1" "AST_HASH_LOOKUP (w_objs w1) ''gsm'' = Ret (w_objs w1, Some ?a)"
      "\<exists>objs. AST_HASH_REMOVE (w_objs w1) ''gsm'' = Ret objs \<and> AST_HASH_LOOKUP objs ''gsm'' = Ret (objs, None)"
      using gsm_schema.create_registers [OF name] by blast
    have st: "cm_state cm = CM_CREATED" using c(3) by (simp add: created_wf_def)
    have undo: "(w_cms w)(?a := None) = w_cms w" using fresh by auto
    show ?thesis
    proof (cases "strdup_ok \<and> cfg \<noteq> None")
      case False
      then obtain f where "cm_load strdup_ok start0 cfg (Some cm) ''gsm.conf'' = Ret (Some (cm\<lparr>cm_filename := f\<rparr>), - 1)"
        using st by (cases strdup_ok) (auto simp: cm_load_def cm_LOCK_def cm_UNLOCK_def Let_def)
      with False c(1,2,5,7,9) st undo show ?thesis
        by (auto simp: gsm_config_init_def cm_load_at_def cm_destroy_def)
    next
      case ok: True
      then obtain cfg' where cfg: "cfg = Some cfg'" "cfg_ok ranges_end cfg'" using assms(1) by auto
      from cm_load_wf [OF c(3) this(2)] obtain cm' where
        l: "cm_load True start0 (Some cfg') (Some cm) ''gsm.conf'' = Ret (Some cm', 0)" "loaded_wf cm'"
        "cm_lock cm' = cm_lock cm" "cm_secs cm' = cm_secs cm" by blast
      have "gsm_config_init alloc strdup_ok start0 cfg w = Ret (w1\<lparr>w_cms := (w_cms w1)(?a \<mapsto> cm')\<rparr>, Some ?a, 0)"
        using c(1,2) l(1) ok cfg(1) by (simp add: gsm_config_init_def cm_load_at_def)
      then show ?thesis
        using True ok c(2,4,6-8) l(2-4)
        by (auto intro!: exI [of _ "w1\<lparr>w_cms := (w_cms w1)(?a \<mapsto> cm')\<rparr>"] exI [of _ ?a] exI [of _ cm'])
    qed
  qed
qed

text \<open>On an empty world: with a file, and with a third allocation that fails.\<close>

theorem gsm_config_init_total_witness:
  "(\<exists>w' a. gsm_config_init (\<lambda>_. True) True 0 (Some [(''isdn'', [(''channel'', ''1-3,7'')])])
     (configman_load_module \<lparr>w_objs = lhash_init_str 0 1, w_cms = Map.empty, w_next = 8, w_refs = 0\<rparr>) = Ret (w', Some a, 0)) \<and>
   (\<exists>w'. gsm_config_init (\<lambda>i. i \<noteq> 2) True 0 (Some [(''isdn'', [(''channel'', ''1-3,7'')])])
     (configman_load_module \<lparr>w_objs = lhash_init_str 0 1, w_cms = Map.empty, w_next = 8, w_refs = 0\<rparr>) = Ret (w', None, - 1) \<and>
     w_cms w' = Map.empty \<and> w_refs w' = 0 \<and> AST_HASH_LOOKUP (w_objs w') ''gsm'' = Ret (w_objs w', None))"
proof -
  let ?w = "\<lparr>w_objs = lhash_init_str 0 1, w_cms = Map.empty, w_next = 8, w_refs = 0\<rparr> :: cm_world"
  note init = gsm_config_init_total [of "Some [(''isdn'', [(''channel'', ''1-3,7'')])]", OF _ refl, of ?w]
  have "\<not> (\<forall>i < 5. i \<noteq> (2::nat))" by auto
  with init [of "\<lambda>_. True" True 0] init [of "\<lambda>i. i \<noteq> 2" True 0] demo_cfg show ?thesis
    by (auto simp: configman_load_module_def split: if_splits)
qed

text \<open>
  The indices the driver uses are those of its tables: each enumeration names the directives in
  the order of the table, so that an index selects the directive of its name.
\<close>

theorem config_indices_name_directives:
  "d_name (port_dirs ! cfg_port_id CFG_PORT_PORTS) = s_key_field (config_sections ! SECT_PORT) \<and>
   map (\<lambda>i. d_name (port_dirs ! cfg_port_id i))
     [CFG_PORT_NAME, CFG_PORT_SLOT, CFG_PORT_PIN, CFG_PORT_CONTEXT, CFG_PORT_EXTEN, CFG_PORT_INITFILE,
      CFG_PORT_HIDECALLERID, CFG_PORT_SMSC, CFG_PORT_SMS_PDU_MODE, CFG_PORT_PROVIDER, CFG_PORT_METHOD,
      CFG_PORT_CID_PREFIX, CFG_PORT_RESET_INTERVAL, CFG_PORT_RX_GAIN, CFG_PORT_TX_GAIN] =
   map Some [''name'', ''slot'', ''pin'', ''context'', ''exten'', ''initfile'', ''hidecallerid'', ''smsc'',
     ''sms_pdu_mode'', ''provider'', ''method'', ''cid_prefix'', ''resetinterval'', ''rxgain'', ''txgain''] \<and>
   map (\<lambda>i. d_name (gen_dirs ! cfg_gen_id i))
     [CFG_GEN_DEBUG, CFG_GEN_SYSLOG_DEBUG, CFG_GEN_SMS_DIR, CFG_GEN_CHEKHZ, CFG_GEN_SKIP_PLUS,
      CFG_GEN_RELAXDTMF, CFG_GEN_DTMFBEGIN] =
   map Some [''debug'', ''syslogdebug'', ''smsdir'', ''check_homezone'', ''skip_plus'', ''relaxdtmf'', ''dtmfbegin'']"
  by (simp add: port_dirs_def gen_dirs_def dir_def config_sections_def SECT_PORT_def)

end
