(* ===== verification/Gsmctl_Tables.thy ===== *)
theory Gsmctl_Tables
  imports Prelude
begin

text \<open>
  The constant data of the GSM control library (\<open>gsmctl.h\<close>, \<open>gsmctl.c\<close>): the
  numbered errors a radio module reports (\<open>+CME ERROR\<close>, \<open>+CMS ERROR\<close>), their texts and the
  functions that look them up, and the two gain tables with the selection the code makes in them.

  The lemmas show that the texts and the enumerations agree: a number has a text exactly when
  it is one of the enumeration; and that the selection in a gain table always finds an entry,
  whatever number the configuration has.
\<close>


section \<open>Error numbers\<close>

text \<open>
  An enumerator of the C source is a constructor; the number it stands for is \<open>cme_code\<close>
  or \<open>cms_code\<close> of it.
\<close>

datatype (plugins only: size) cme_error_code =
    CME_ERROR_PHONE_FAILURE
  | CME_ERROR_NO_PHONE_CONNECTION
  | CME_ERROR_PHONE_ADAPTER_LINK_RESERVED
  | CME_ERROR_OPERATION_NOT_ALLOWED
  | CME_ERROR_OPERATION_NOT_SUPPORTED
  | CME_ERROR_PH_SIM_PIN_REQUIRED
  | CME_ERROR_PH_FSIM_PIN_REQUIRED
  | CME_ERROR_PH_FSIM_PUK_REQUIRED
  | CME_ERROR_SIM_NOT_INSERTED
  | CME_ERROR_SIM_PIN_REQUIRED
  | CME_ERROR_SIM_PUK_REQUIRED
  | CME_ERROR_SIM_FAILURE
  | CME_ERROR_SIM_BUSY
  | CME_ERROR_SIM_WRONG
  | CME_ERROR_INCORRECT_PASSWORD_PIN
  | CME_ERROR_SIM_PIN2_REQUIRED
  | CME_ERROR_SIM_PUK2_REQUIRED
  | CME_ERROR_MEMORY_FULL
  | CME_ERROR_INVALID_INDEX
  | CME_ERROR_NOT_FOUND
  | CME_ERROR_MEMORY_FAILURE
  | CME_ERROR_TEXT_STRING_TOO_LONG
  | CME_ERROR_INVALID_CHARS_IN_TEXT_STRING
  | CME_ERROR_DIAL_STRING_TOO_LONG
  | CME_ERROR_INVALID_CHARS_IN_DIALSTRING
  | CME_ERROR_NO_NETWORK_SERVICE
  | CME_ERROR_NETWORK_TIMEOUT
  | CME_ERROR_EMERGENCY_CALLS_ONLY
  | CME_ERROR_NETWORK_PERS_PIN_REQUIRED
  | CME_ERROR_NETWORK_PERS_PUK_REQUIRED
  | CME_ERROR_NETWORK_SUBS_PERS_PIN_REQUIRED
  | CME_ERROR_SERVICE_PROVIDER_PERS_PIN_REQUIRED
  | CME_ERROR_SERVICE_PROVIDER_PERS_PUK_REQUIRED
  | CME_ERROR_CORPORATE_PERS_PIN_REQUIRED
  | CME_ERROR_CORPORATE_PERS_PUK_REQUIRED
  | CME_ERROR_UNKNOWN
  | CME_ERROR_ILLEGAL_MS
  | CME_ERROR_ILLEGAL_ME
  | CME_ERROR_GRPS_SERVICES_NOT_ALLOWED
  | CME_ERROR_PLMN_NOT_ALLOWED
  | CME_ERROR_LOCATION_AREA_NOT_ALLOWED
  | CME_ERROR_ROAMING_NOT_ALLOWED
  | CME_ERROR_SERVICE_OPTION_NOT_SUPPORTED
  | CME_ERROR_REQUESTED_SERVICE_OPTION_NOT_SUBSCRIBED
  | CME_ERROR_SERVICE_OPTION_TEMP_OUT_OF_ORDER
  | CME_ERROR_UNSPECIFIED_GPRS_ERROR
  | CME_ERROR_PDP_AUTHENTICATION_FAILURE
  | CME_ERROR_INVALID_MOBILE_CLASS
  | CME_ERROR_AUDIO_MANAGER_NOT_READY
  | CME_ERROR_AUDIO_FORMAT_NOT_CONFIGURED
  | CME_ERROR_SIM_TOOLKIT_NOT_CONFIGURED
  | CME_ERROR_SIM_TOOLKIT_ALREADY_IN_USE
  | CME_ERROR_SIM_TOOLKIT_NOT_ENABLED
  | CME_ERROR_CSCS_TYPE_NOT_SUPPORTED
  | CME_ERROR_CSCS_TYPE_NOT_FOUND
  | CME_ERROR_MUST_INCLUDE_FORMAT_OPER
  | CME_ERROR_INCORRECT_OPER_FORMAT
  | CME_ERROR_OPER_LENGTH_TOO_LONG
  | CME_ERROR_SIM_FULL
  | CME_ERROR_CANNOT_CHANGE_PLMN_LIST
  | CME_ERROR_NETWORK_OP_NOT_RECOGNIZED
  | CME_ERROR_INVALID_COMMAND_LENGTH
  | CME_ERROR_INVALID_INPUT_STRING
  | CME_ERROR_INVALID_SIM_COMMAND
  | CME_ERROR_INVALID_FILE_ID
  | CME_ERROR_MISSING_P123_PARAMETER
  | CME_ERROR_INVALID_P123_PARAMETER
  | CME_ERROR_MISSING_REQD_COMMAND_DATA
  | CME_ERROR_INVALID_CHARS_IN_COMMAND_DATA
  | CME_ERROR_INVALID_INPUT_VALUE
  | CME_ERROR_UNSUPPORTED_VALUE_OR_MODE
  | CME_ERROR_OPERATION_FAILED
  | CME_ERROR_MUX_ALREADY_ACTIVE
  | CME_ERROR_SIM_INVALID_NETWORK_REJECT
  | CME_ERROR_CALL_SETUP_IN_PROGRESS
  | CME_ERROR_SIM_POWERED_DOWN
  | CME_ERROR_SIM_FILE_NOT_PRESENT

primrec cme_code :: "cme_error_code \<Rightarrow> int" where
    "cme_code CME_ERROR_PHONE_FAILURE = 0"
  | "cme_code CME_ERROR_NO_PHONE_CONNECTION = 1"
  | "cme_code CME_ERROR_PHONE_ADAPTER_LINK_RESERVED = 2"
  | "cme_code CME_ERROR_OPERATION_NOT_ALLOWED = 3"
  | "cme_code CME_ERROR_OPERATION_NOT_SUPPORTED = 4"
  | "cme_code CME_ERROR_PH_SIM_PIN_REQUIRED = 5"
  | "cme_code CME_ERROR_PH_FSIM_PIN_REQUIRED = 6"
  | "cme_code CME_ERROR_PH_FSIM_PUK_REQUIRED = 7"
  | "cme_code CME_ERROR_SIM_NOT_INSERTED = 10"
  | "cme_code CME_ERROR_SIM_PIN_REQUIRED = 11"
  | "cme_code CME_ERROR_SIM_PUK_REQUIRED = 12"
  | "cme_code CME_ERROR_SIM_FAILURE = 13"
  | "cme_code CME_ERROR_SIM_BUSY = 14"
  | "cme_code CME_ERROR_SIM_WRONG = 15"
  | "cme_code CME_ERROR_INCORRECT_PASSWORD_PIN = 16"
  | "cme_code CME_ERROR_SIM_PIN2_REQUIRED = 17"
  | "cme_code CME_ERROR_SIM_PUK2_REQUIRED = 18"
  | "cme_code CME_ERROR_MEMORY_FULL = 20"
  | "cme_code CME_ERROR_INVALID_INDEX = 21"
  | "cme_code CME_ERROR_NOT_FOUND = 22"
  | "cme_code CME_ERROR_MEMORY_FAILURE = 23"
  | "cme_code CME_ERROR_TEXT_STRING_TOO_LONG = 24"
  | "cme_code CME_ERROR_INVALID_CHARS_IN_TEXT_STRING = 25"
  | "cme_code CME_ERROR_DIAL_STRING_TOO_LONG = 26"
  | "cme_code CME_ERROR_INVALID_CHARS_IN_DIALSTRING = 27"
  | "cme_code CME_ERROR_NO_NETWORK_SERVICE = 30"
  | "cme_code CME_ERROR_NETWORK_TIMEOUT = 31"
  | "cme_code CME_ERROR_EMERGENCY_CALLS_ONLY = 32"
  | "cme_code CME_ERROR_NETWORK_PERS_PIN_REQUIRED = 40"
  | "cme_code CME_ERROR_NETWORK_PERS_PUK_REQUIRED = 41"
  | "cme_code CME_ERROR_NETWORK_SUBS_PERS_PIN_REQUIRED = 43"
  | "cme_code CME_ERROR_SERVICE_PROVIDER_PERS_PIN_REQUIRED = 44"
  | "cme_code CME_ERROR_SERVICE_PROVIDER_PERS_PUK_REQUIRED = 45"
  | "cme_code CME_ERROR_CORPORATE_PERS_PIN_REQUIRED = 46"
  | "cme_code CME_ERROR_CORPORATE_PERS_PUK_REQUIRED = 47"
  | "cme_code CME_ERROR_UNKNOWN = 100"
  | "cme_code CME_ERROR_ILLEGAL_MS = 103"
  | "cme_code CME_ERROR_ILLEGAL_ME = 106"
  | "cme_code CME_ERROR_GRPS_SERVICES_NOT_ALLOWED = 107"
  | "cme_code CME_ERROR_PLMN_NOT_ALLOWED = 111"
  | "cme_code CME_ERROR_LOCATION_AREA_NOT_ALLOWED = 112"
  | "cme_code CME_ERROR_ROAMING_NOT_ALLOWED = 113"
  | "cme_code CME_ERROR_SERVICE_OPTION_NOT_SUPPORTED = 132"
  | "cme_code CME_ERROR_REQUESTED_SERVICE_OPTION_NOT_SUBSCRIBED = 133"
  | "cme_code CME_ERROR_SERVICE_OPTION_TEMP_OUT_OF_ORDER = 134"
  | "cme_code CME_ERROR_UNSPECIFIED_GPRS_ERROR = 148"
  | "cme_code CME_ERROR_PDP_AUTHENTICATION_FAILURE = 149"
  | "cme_code CME_ERROR_INVALID_MOBILE_CLASS = 150"
  | "cme_code CME_ERROR_AUDIO_MANAGER_NOT_READY = 673"
  | "cme_code CME_ERROR_AUDIO_FORMAT_NOT_CONFIGURED = 674"
  | "cme_code CME_ERROR_SIM_TOOLKIT_NOT_CONFIGURED = 705"
  | "cme_code CME_ERROR_SIM_TOOLKIT_ALREADY_IN_USE = 706"
  | "cme_code CME_ERROR_SIM_TOOLKIT_NOT_ENABLED = 707"
  | "cme_code CME_ERROR_CSCS_TYPE_NOT_SUPPORTED = 737"
  | "cme_code CME_ERROR_CSCS_TYPE_NOT_FOUND = 738"
  | "cme_code CME_ERROR_MUST_INCLUDE_FORMAT_OPER = 741"
  | "cme_code CME_ERROR_INCORRECT_OPER_FORMAT = 742"
  | "cme_code CME_ERROR_OPER_LENGTH_TOO_LONG = 743"
  | "cme_code CME_ERROR_SIM_FULL = 744"
  | "cme_code CME_ERROR_CANNOT_CHANGE_PLMN_LIST = 745"
  | "cme_code CME_ERROR_NETWORK_OP_NOT_RECOGNIZED = 746"
  | "cme_code CME_ERROR_INVALID_COMMAND_LENGTH = 749"
  | "cme_code CME_ERROR_INVALID_INPUT_STRING = 750"
  | "cme_code CME_ERROR_INVALID_SIM_COMMAND = 754"
  | "cme_code CME_ERROR_INVALID_FILE_ID = 755"
  | "cme_code CME_ERROR_MISSING_P123_PARAMETER = 756"
  | "cme_code CME_ERROR_INVALID_P123_PARAMETER = 757"
  | "cme_code CME_ERROR_MISSING_REQD_COMMAND_DATA = 758"
  | "cme_code CME_ERROR_INVALID_CHARS_IN_COMMAND_DATA = 759"
  | "cme_code CME_ERROR_INVALID_INPUT_VALUE = 765"
  | "cme_code CME_ERROR_UNSUPPORTED_VALUE_OR_MODE = 766"
  | "cme_code CME_ERROR_OPERATION_FAILED = 767"
  | "cme_code CME_ERROR_MUX_ALREADY_ACTIVE = 768"
  | "cme_code CME_ERROR_SIM_INVALID_NETWORK_REJECT = 770"
  | "cme_code CME_ERROR_CALL_SETUP_IN_PROGRESS = 771"
  | "cme_code CME_ERROR_SIM_POWERED_DOWN = 772"
  | "cme_code CME_ERROR_SIM_FILE_NOT_PRESENT = 773"

datatype (plugins only: size) cms_error_code =
    CMS_ERROR_ME_FAILURE
  | CMS_ERROR_SMS_ME_RESERVED
  | CMS_ERROR_OPERATION_NOT_ALLOWED
  | CMS_ERROR_OPERATION_NOT_SUPPORTED
  | CMS_ERROR_INVALID_PDU_MODE
  | CMS_ERROR_INVALID_TEXT_MODE
  | CMS_ERROR_SIM_NOT_INSERTED
  | CMS_ERROR_SIM_PIN_NECESSARY
  | CMS_ERROR_PH_SIN_PIN_NECESSARY
  | CMS_ERROR_SIM_FAILURE
  | CMS_ERROR_SIM_BUSY
  | CMS_ERROR_SIM_WRONG
  | CMS_ERROR_SIM_PUK_REQUIRED
  | CMS_ERROR_SIM_PIN2_REQUIRED
  | CMS_ERROR_SIM_PUK2_REQUIRED
  | CMS_ERROR_MEMORY_FAILURE
  | CMS_ERROR_INVALID_MEMORY_INDEX
  | CMS_ERROR_MEMORY_FULL
  | CMS_ERROR_SMSC_ADDRESS_UNKNOWN
  | CMS_ERROR_NO_NETWORK
  | CMS_ERROR_NETWORK_TIMEOUT
  | CMS_ERROR_UNKNOWN
  | CMS_ERROR_SIM_NOT_READY
  | CMS_ERROR_UNREAD_RECORDS_ON_SIM
  | CMS_ERROR_CB_ERROR_UNKNOWN
  | CMS_ERROR_PS_BUSY
  | CMS_ERROR_SIM_BL_NOT_READY
  | CMS_ERROR_INVALID_CHARS_IN_PDU
  | CMS_ERROR_INCORRECT_PDU_LENGTH
  | CMS_ERROR_INVALID_MTI
  | CMS_ERROR_INVALID_CHAR_IN_ADDRESS
  | CMS_ERROR_INVALID_ADDRESS
  | CMS_ERROR_INVALID_PDU_LENGTH
  | CMS_ERROR_INCORRECT_SCA_LENGTH
  | CMS_ERROR_INVALID_FIRST_OCTECT
  | CMS_ERROR_INVALID_COMMAND_TYPE
  | CMS_ERROR_SRR_BIT_NOT_SET
  | CMS_ERROR_SRR_BIT_SET
  | CMS_ERROR_INVALID_USER_DATA_IN_IE

primrec cms_code :: "cms_error_code \<Rightarrow> int" where
    "cms_code CMS_ERROR_ME_FAILURE = 300"
  | "cms_code CMS_ERROR_SMS_ME_RESERVED = 301"
  | "cms_code CMS_ERROR_OPERATION_NOT_ALLOWED = 302"
  | "cms_code CMS_ERROR_OPERATION_NOT_SUPPORTED = 303"
  | "cms_code CMS_ERROR_INVALID_PDU_MODE = 304"
  | "cms_code CMS_ERROR_INVALID_TEXT_MODE = 305"
  | "cms_code CMS_ERROR_SIM_NOT_INSERTED = 310"
  | "cms_code CMS_ERROR_SIM_PIN_NECESSARY = 311"
  | "cms_code CMS_ERROR_PH_SIN_PIN_NECESSARY = 312"
  | "cms_code CMS_ERROR_SIM_FAILURE = 313"
  | "cms_code CMS_ERROR_SIM_BUSY = 314"
  | "cms_code CMS_ERROR_SIM_WRONG = 315"
  | "cms_code CMS_ERROR_SIM_PUK_REQUIRED = 316"
  | "cms_code CMS_ERROR_SIM_PIN2_REQUIRED = 317"
  | "cms_code CMS_ERROR_SIM_PUK2_REQUIRED = 318"
  | "cms_code CMS_ERROR_MEMORY_FAILURE = 320"
  | "cms_code CMS_ERROR_INVALID_MEMORY_INDEX = 321"
  | "cms_code CMS_ERROR_MEMORY_FULL = 322"
  | "cms_code CMS_ERROR_SMSC_ADDRESS_UNKNOWN = 330"
  | "cms_code CMS_ERROR_NO_NETWORK = 331"
  | "cms_code CMS_ERROR_NETWORK_TIMEOUT = 332"
  | "cms_code CMS_ERROR_UNKNOWN = 500"
  | "cms_code CMS_ERROR_SIM_NOT_READY = 512"
  | "cms_code CMS_ERROR_UNREAD_RECORDS_ON_SIM = 513"
  | "cms_code CMS_ERROR_CB_ERROR_UNKNOWN = 514"
  | "cms_code CMS_ERROR_PS_BUSY = 515"
  | "cms_code CMS_ERROR_SIM_BL_NOT_READY = 517"
  | "cms_code CMS_ERROR_INVALID_CHARS_IN_PDU = 528"
  | "cms_code CMS_ERROR_INCORRECT_PDU_LENGTH = 529"
  | "cms_code CMS_ERROR_INVALID_MTI = 530"
  | "cms_code CMS_ERROR_INVALID_CHAR_IN_ADDRESS = 531"
  | "cms_code CMS_ERROR_INVALID_ADDRESS = 532"
  | "cms_code CMS_ERROR_INVALID_PDU_LENGTH = 533"
  | "cms_code CMS_ERROR_INCORRECT_SCA_LENGTH = 534"
  | "cms_code CMS_ERROR_INVALID_FIRST_OCTECT = 536"
  | "cms_code CMS_ERROR_INVALID_COMMAND_TYPE = 537"
  | "cms_code CMS_ERROR_SRR_BIT_NOT_SET = 538"
  | "cms_code CMS_ERROR_SRR_BIT_SET = 539"
  | "cms_code CMS_ERROR_INVALID_USER_DATA_IN_IE = 540"



section \<open>Error texts\<close>

type_synonym error_code = "int \<times> string"

definition cme_error_codes :: "error_code list" where
  "cme_error_codes = [
     (cme_code CME_ERROR_PHONE_FAILURE, ''phone failure''),
     (cme_code CME_ERROR_NO_PHONE_CONNECTION, ''no connection to phone''),
     (cme_code CME_ERROR_PHONE_ADAPTER_LINK_RESERVED, ''phone-adaptor link reserved''),
     (cme_code CME_ERROR_OPERATION_NOT_ALLOWED, ''operation not allowed''),
     (cme_code CME_ERROR_OPERATION_NOT_SUPPORTED, ''operation not supported''),
     (cme_code CME_ERROR_PH_SIM_PIN_REQUIRED, ''ph-sim pin required''),
     (cme_code CME_ERROR_PH_FSIM_PIN_REQUIRED, ''ph-fsim pin required''),
     (cme_code CME_ERROR_PH_FSIM_PUK_REQUIRED, ''ph-fsim puk required''),
     (cme_code CME_ERROR_SIM_NOT_INSERTED, ''sim not inserted''),
     (cme_code CME_ERROR_SIM_PIN_REQUIRED, ''sim pin required''),
     (cme_code CME_ERROR_SIM_PUK_REQUIRED, ''sim puk required''),
     (cme_code CME_ERROR_SIM_FAILURE, ''sim failure''),
     (cme_code CME_ERROR_SIM_BUSY, ''sim busy''),
     (cme_code CME_ERROR_SIM_WRONG, ''sim wrong''),
     (cme_code CME_ERROR_INCORRECT_PASSWORD_PIN, ''incorrect password/pin''),
     (cme_code CME_ERROR_SIM_PIN2_REQUIRED, ''sim pin2 required''),
     (cme_code CME_ERROR_SIM_PUK2_REQUIRED, ''sim puk2 required''),
     (cme_code CME_ERROR_MEMORY_FULL, ''memory full''),
     (cme_code CME_ERROR_INVALID_INDEX, ''invalid index''),
     (cme_code CME_ERROR_NOT_FOUND, ''not found''),
     (cme_code CME_ERROR_MEMORY_FAILURE, ''memory failure''),
     (cme_code CME_ERROR_TEXT_STRING_TOO_LONG, ''text string too long''),
     (cme_code CME_ERROR_INVALID_CHARS_IN_TEXT_STRING, ''invalid characters in text string''),
     (cme_code CME_ERROR_DIAL_STRING_TOO_LONG, ''dial string too long''),
     (cme_code CME_ERROR_INVALID_CHARS_IN_DIALSTRING, ''invalid characters in dial string''),
     (cme_code CME_ERROR_NO_NETWORK_SERVICE, ''no network service''),
     (cme_code CME_ERROR_NETWORK_TIMEOUT, ''network timeout''),
     (cme_code CME_ERROR_EMERGENCY_CALLS_ONLY, ''network not allowed - emergency calls only''),
     (cme_code CME_ERROR_NETWORK_PERS_PIN_REQUIRED, ''network personalization PIN required''),
     (cme_code CME_ERROR_NETWORK_PERS_PUK_REQUIRED, ''network personalization PUK required''),
     (cme_code CME_ERROR_NETWORK_SUBS_PERS_PIN_REQUIRED, ''network subset personalization PIN required''),
     (cme_code CME_ERROR_SERVICE_PROVIDER_PERS_PIN_REQUIRED, ''service provider personalization PIN required''),
     (cme_code CME_ERROR_SERVICE_PROVIDER_PERS_PUK_REQUIRED, ''service provider personalization PUK required''),
     (cme_code CME_ERROR_CORPORATE_PERS_PIN_REQUIRED, ''corporate personalization PIN required''),
     (cme_code CME_ERROR_CORPORATE_PERS_PUK_REQUIRED, ''corporate personalization PUK required''),
     (cme_code CME_ERROR_UNKNOWN, ''unknown''),
     (cme_code CME_ERROR_ILLEGAL_MS, ''illegal MS''),
     (cme_code CME_ERROR_ILLEGAL_ME, ''illegal ME''),
     (cme_code CME_ERROR_GRPS_SERVICES_NOT_ALLOWED, ''GPRS services not allowed''),
     (cme_code CME_ERROR_PLMN_NOT_ALLOWED, ''PLMN not allowed''),
     (cme_code CME_ERROR_LOCATION_AREA_NOT_ALLOWED, ''location area not allowed''),
     (cme_code CME_ERROR_ROAMING_NOT_ALLOWED, ''roaming not allowed in this location area''),
     (cme_code CME_ERROR_SERVICE_OPTION_NOT_SUPPORTED, ''service option not supported''),
     (cme_code CME_ERROR_REQUESTED_SERVICE_OPTION_NOT_SUBSCRIBED, ''requested service option not subscribed''),
     (cme_code CME_ERROR_SERVICE_OPTION_TEMP_OUT_OF_ORDER, ''service option temporarily out of order''),
     (cme_code CME_ERROR_UNSPECIFIED_GPRS_ERROR, ''unspecified GPRS error''),
     (cme_code CME_ERROR_PDP_AUTHENTICATION_FAILURE, ''PDP authentication failure''),
     (cme_code CME_ERROR_INVALID_MOBILE_CLASS, ''invalid mobile class''),
     (cme_code CME_ERROR_AUDIO_MANAGER_NOT_READY, ''audio manager not ready''),
     (cme_code CME_ERROR_AUDIO_FORMAT_NOT_CONFIGURED, ''audio format cannot be configured''),
     (cme_code CME_ERROR_SIM_TOOLKIT_NOT_CONFIGURED, ''sim toolkit menu has not been configured''),
     (cme_code CME_ERROR_SIM_TOOLKIT_ALREADY_IN_USE, ''sim toolkit already in use''),
     (cme_code CME_ERROR_SIM_TOOLKIT_NOT_ENABLED, ''sim toolkit not enabled''),
     (cme_code CME_ERROR_CSCS_TYPE_NOT_SUPPORTED, ''+CSCS type not supported''),
     (cme_code CME_ERROR_CSCS_TYPE_NOT_FOUND, ''CSCS type not found''),
     (cme_code CME_ERROR_MUST_INCLUDE_FORMAT_OPER, ''must include <format> with <oper>''),
     (cme_code CME_ERROR_INCORRECT_OPER_FORMAT, ''incorrect <oper> format''),
     (cme_code CME_ERROR_OPER_LENGTH_TOO_LONG, ''<oper> length too long''),
     (cme_code CME_ERROR_SIM_FULL, ''SIM full''),
     (cme_code CME_ERROR_CANNOT_CHANGE_PLMN_LIST, ''unable to change PLMN list''),
     (cme_code CME_ERROR_NETWORK_OP_NOT_RECOGNIZED, ''network operator not recognized''),
     (cme_code CME_ERROR_INVALID_COMMAND_LENGTH, ''invalid command length''),
     (cme_code CME_ERROR_INVALID_INPUT_STRING, ''invalid input string''),
     (cme_code CME_ERROR_INVALID_SIM_COMMAND, ''invalid SIM command''),
     (cme_code CME_ERROR_INVALID_FILE_ID, ''invalid file id''),
     (cme_code CME_ERROR_MISSING_P123_PARAMETER, ''missing required P1/2/3 parameter''),
     (cme_code CME_ERROR_INVALID_P123_PARAMETER, ''invalid P1/2/3 parameter''),
     (cme_code CME_ERROR_MISSING_REQD_COMMAND_DATA, ''missing required command data''),
     (cme_code CME_ERROR_INVALID_CHARS_IN_COMMAND_DATA, ''invalid characters in command data''),
     (cme_code CME_ERROR_INVALID_INPUT_VALUE, ''invalid input value''),
     (cme_code CME_ERROR_UNSUPPORTED_VALUE_OR_MODE, ''unsupported value or mode''),
     (cme_code CME_ERROR_OPERATION_FAILED, ''operation failed''),
     (cme_code CME_ERROR_MUX_ALREADY_ACTIVE, ''multiplexer already active''),
     (cme_code CME_ERROR_SIM_INVALID_NETWORK_REJECT, ''sim invalid - network reject''),
     (cme_code CME_ERROR_CALL_SETUP_IN_PROGRESS, ''call setup in progress''),
     (cme_code CME_ERROR_SIM_POWERED_DOWN, ''sim powered down''),
     (cme_code CME_ERROR_SIM_FILE_NOT_PRESENT, ''sim file not present'')]"

definition cms_error_codes :: "error_code list" where
  "cms_error_codes = [
     (cms_code CMS_ERROR_ME_FAILURE, ''ME failure''),
     (cms_code CMS_ERROR_SMS_ME_RESERVED, ''SMS ME reserved''),
     (cms_code CMS_ERROR_OPERATION_NOT_ALLOWED, ''operation not allowed''),
     (cms_code CMS_ERROR_OPERATION_NOT_SUPPORTED, ''operation not supported''),
     (cms_code CMS_ERROR_INVALID_PDU_MODE, ''invalid PDU mode''),
     (cms_code CMS_ERROR_INVALID_TEXT_MODE, ''invalid text mode''),
     (cms_code CMS_ERROR_SIM_NOT_INSERTED, ''SIM not inserted''),
     (cms_code CMS_ERROR_SIM_PIN_NECESSARY, ''SIM PIN necessary''),
     (cms_code CMS_ERROR_PH_SIN_PIN_NECESSARY, ''PH SIM pin necessary''),
     (cms_code CMS_ERROR_SIM_FAILURE, ''SIM failure''),
     (cms_code CMS_ERROR_SIM_BUSY, ''SIM busy''),
     (cms_code CMS_ERROR_SIM_WRONG, ''SIM wrong''),
     (cms_code CMS_ERROR_SIM_PUK_REQUIRED, ''SIM PUK required''),
     (cms_code CMS_ERROR_SIM_PIN2_REQUIRED, ''SIM PIN2 required''),
     (cms_code CMS_ERROR_SIM_PUK2_REQUIRED, ''SIM PUK2 required''),
     (cms_code CMS_ERROR_MEMORY_FAILURE, ''memory failure''),
     (cms_code CMS_ERROR_INVALID_MEMORY_INDEX, ''invalid memory index''),
     (cms_code CMS_ERROR_MEMORY_FULL, ''memory full''),
     (cms_code CMS_ERROR_SMSC_ADDRESS_UNKNOWN, ''SMSC address unknown''),
     (cms_code CMS_ERROR_NO_NETWORK, ''no network''),
     (cms_code CMS_ERROR_NETWORK_TIMEOUT, ''network timeout''),
     (cms_code CMS_ERROR_UNKNOWN, ''unknown''),
     (cms_code CMS_ERROR_SIM_NOT_READY, ''SIM not ready''),
     (cms_code CMS_ERROR_UNREAD_RECORDS_ON_SIM, ''unread records on SIM''),
     (cms_code CMS_ERROR_CB_ERROR_UNKNOWN, ''CB error unknown''),
     (cms_code CMS_ERROR_PS_BUSY, ''PS busy''),
     (cms_code CMS_ERROR_SIM_BL_NOT_READY, ''SM BL not ready''),
     (cms_code CMS_ERROR_INVALID_CHARS_IN_PDU, ''Invalid (non-hex) chars in PDU''),
     (cms_code CMS_ERROR_INCORRECT_PDU_LENGTH, ''Incorrect PDU length''),
     (cms_code CMS_ERROR_INVALID_MTI, ''Invalid MTI''),
     (cms_code CMS_ERROR_INVALID_CHAR_IN_ADDRESS, ''Invalid (non-hex) chars in address''),
     (cms_code CMS_ERROR_INVALID_ADDRESS, ''Invalid address (no digits read)''),
     (cms_code CMS_ERROR_INVALID_PDU_LENGTH, ''Incorrect PDU length (UDL)''),
     (cms_code CMS_ERROR_INCORRECT_SCA_LENGTH, ''Incorrect SCA length''),
     (cms_code CMS_ERROR_INVALID_FIRST_OCTECT, ''Invalid first octet (should be 2 or 34)''),
     (cms_code CMS_ERROR_INVALID_COMMAND_TYPE, ''Invalid Command Type''),
     (cms_code CMS_ERROR_SRR_BIT_NOT_SET, ''SRR bit not set''),
     (cms_code CMS_ERROR_SRR_BIT_SET, ''SRR bit set''),
     (cms_code CMS_ERROR_INVALID_USER_DATA_IN_IE, ''Invalid User Data Header IE'')]"


text \<open>The search both functions make: the first entry with the code, and its message.\<close>

fun error_text :: "error_code list \<Rightarrow> int \<Rightarrow> string option" where
  "error_text [] code = None"
| "error_text ((c, msg) # rest) code = (if c = code then Some msg else error_text rest code)"

definition gsm_get_cms_text :: "int \<Rightarrow> string option" where
  "gsm_get_cms_text cms = error_text cms_error_codes cms"

definition gsm_get_cme_text :: "int \<Rightarrow> string option" where
  "gsm_get_cme_text cme = error_text cme_error_codes cme"


section \<open>Gains\<close>

record gain_tbl_entry =
  table_value :: int
  codec_value :: int
  radio_value :: int

definition gsm_rx_gain_table :: "gain_tbl_entry list" where
  "gsm_rx_gain_table = [
     \<lparr>table_value = 10, codec_value = 0x00, radio_value = 100\<rparr>,
     \<lparr>table_value = 9, codec_value = 0x00, radio_value = 98\<rparr>,
     \<lparr>table_value = 8, codec_value = 0x00, radio_value = 95\<rparr>,
     \<lparr>table_value = 7, codec_value = 0x00, radio_value = 93\<rparr>,
     \<lparr>table_value = 6, codec_value = 0x00, radio_value = 90\<rparr>,
     \<lparr>table_value = 5, codec_value = 0x01, radio_value = 90\<rparr>,
     \<lparr>table_value = 4, codec_value = 0x02, radio_value = 90\<rparr>,
     \<lparr>table_value = 3, codec_value = 0x03, radio_value = 90\<rparr>,
     \<lparr>table_value = 2, codec_value = 0x04, radio_value = 90\<rparr>,
     \<lparr>table_value = 1, codec_value = 0x05, radio_value = 90\<rparr>,
     \<lparr>table_value = 0, codec_value = 0x06, radio_value = 90\<rparr>,
     \<lparr>table_value = - 1, codec_value = 0x07, radio_value = 90\<rparr>,
     \<lparr>table_value = - 2, codec_value = 0x08, radio_value = 90\<rparr>,
     \<lparr>table_value = - 3, codec_value = 0x09, radio_value = 90\<rparr>,
     \<lparr>table_value = - 4, codec_value = 0x0A, radio_value = 90\<rparr>,
     \<lparr>table_value = - 5, codec_value = 0x0B, radio_value = 90\<rparr>,
     \<lparr>table_value = - 6, codec_value = 0x0C, radio_value = 90\<rparr>,
     \<lparr>table_value = - 7, codec_value = 0x0D, radio_value = 90\<rparr>,
     \<lparr>table_value = - 8, codec_value = 0x0E, radio_value = 90\<rparr>,
     \<lparr>table_value = - 9, codec_value = 0x0F, radio_value = 90\<rparr>,
     \<lparr>table_value = - 10, codec_value = 0x10, radio_value = 90\<rparr>,
     \<lparr>table_value = - 11, codec_value = 0x11, radio_value = 90\<rparr>,
     \<lparr>table_value = - 12, codec_value = 0x12, radio_value = 90\<rparr>,
     \<lparr>table_value = - 13, codec_value = 0x13, radio_value = 90\<rparr>,
     \<lparr>table_value = - 14, codec_value = 0x14, radio_value = 90\<rparr>,
     \<lparr>table_value = - 15, codec_value = 0x15, radio_value = 90\<rparr>,
     \<lparr>table_value = - 16, codec_value = 0x16, radio_value = 90\<rparr>,
     \<lparr>table_value = - 17, codec_value = 0x17, radio_value = 90\<rparr>,
     \<lparr>table_value = - 18, codec_value = 0x18, radio_value = 90\<rparr>]"

definition gsm_tx_gain_table :: "gain_tbl_entry list" where
  "gsm_tx_gain_table = [
     \<lparr>table_value = 24, codec_value = 0x00, radio_value = 8\<rparr>,
     \<lparr>table_value = 23, codec_value = 0x01, radio_value = 8\<rparr>,
     \<lparr>table_value = 22, codec_value = 0x02, radio_value = 8\<rparr>,
     \<lparr>table_value = 21, codec_value = 0x03, radio_value = 8\<rparr>,
     \<lparr>table_value = 20, codec_value = 0x04, radio_value = 8\<rparr>,
     \<lparr>table_value = 19, codec_value = 0x05, radio_value = 8\<rparr>,
     \<lparr>table_value = 18, codec_value = 0x06, radio_value = 8\<rparr>,
     \<lparr>table_value = 17, codec_value = 0x07, radio_value = 8\<rparr>,
     \<lparr>table_value = 16, codec_value = 0x08, radio_value = 8\<rparr>,
     \<lparr>table_value = 15, codec_value = 0x09, radio_value = 8\<rparr>,
     \<lparr>table_value = 14, codec_value = 0x0A, radio_value = 8\<rparr>,
     \<lparr>table_value = 13, codec_value = 0x0B, radio_value = 8\<rparr>,
     \<lparr>table_value = 12, codec_value = 0x0C, radio_value = 8\<rparr>,
     \<lparr>table_value = 11, codec_value = 0x0D, radio_value = 8\<rparr>,
     \<lparr>table_value = 10, codec_value = 0x0E, radio_value = 8\<rparr>,
     \<lparr>table_value = 9, codec_value = 0x0F, radio_value = 8\<rparr>,
     \<lparr>table_value = 8, codec_value = 0x10, radio_value = 8\<rparr>,
     \<lparr>table_value = 7, codec_value = 0x11, radio_value = 8\<rparr>,
     \<lparr>table_value = 6, codec_value = 0x12, radio_value = 8\<rparr>,
     \<lparr>table_value = 5, codec_value = 0x13, radio_value = 8\<rparr>,
     \<lparr>table_value = 4, codec_value = 0x14, radio_value = 8\<rparr>,
     \<lparr>table_value = 3, codec_value = 0x15, radio_value = 8\<rparr>,
     \<lparr>table_value = 2, codec_value = 0x16, radio_value = 8\<rparr>,
     \<lparr>table_value = 1, codec_value = 0x17, radio_value = 8\<rparr>,
     \<lparr>table_value = 0, codec_value = 0x18, radio_value = 8\<rparr>,
     \<lparr>table_value = - 1, codec_value = 0x18, radio_value = 7\<rparr>,
     \<lparr>table_value = - 2, codec_value = 0x18, radio_value = 7\<rparr>,
     \<lparr>table_value = - 3, codec_value = 0x18, radio_value = 6\<rparr>,
     \<lparr>table_value = - 4, codec_value = 0x18, radio_value = 5\<rparr>,
     \<lparr>table_value = - 5, codec_value = 0x18, radio_value = 5\<rparr>,
     \<lparr>table_value = - 6, codec_value = 0x18, radio_value = 4\<rparr>,
     \<lparr>table_value = - 7, codec_value = 0x18, radio_value = 3\<rparr>,
     \<lparr>table_value = - 8, codec_value = 0x18, radio_value = 3\<rparr>,
     \<lparr>table_value = - 9, codec_value = 0x18, radio_value = 2\<rparr>,
     \<lparr>table_value = - 10, codec_value = 0x18, radio_value = 1\<rparr>,
     \<lparr>table_value = - 11, codec_value = 0x18, radio_value = 1\<rparr>,
     \<lparr>table_value = - 12, codec_value = 0x18, radio_value = 0\<rparr>]"

definition GSM_TX_GAIN_MIN :: int where "GSM_TX_GAIN_MIN = - 12"
definition GSM_TX_GAIN_MAX :: int where "GSM_TX_GAIN_MAX = 24"
definition GSM_RX_GAIN_MIN :: int where "GSM_RX_GAIN_MIN = - 18"
definition GSM_RX_GAIN_MAX :: int where "GSM_RX_GAIN_MAX = 10"

lemmas gain_limits = GSM_TX_GAIN_MIN_def GSM_TX_GAIN_MAX_def GSM_RX_GAIN_MIN_def
  GSM_RX_GAIN_MAX_def

text \<open>The range check of \<open>gsm_set_rx_gain\<close> and \<open>gsm_set_tx_gain\<close>: a gain out of range is 0.\<close>

definition rx_gain_idx :: "int \<Rightarrow> int" where
  "rx_gain_idx g = (if g < GSM_RX_GAIN_MIN \<or> g > GSM_RX_GAIN_MAX then 0 else g)"

definition tx_gain_idx :: "int \<Rightarrow> int" where
  "tx_gain_idx g = (if g < GSM_TX_GAIN_MIN \<or> g > GSM_TX_GAIN_MAX then 0 else g)"

text \<open>The search of both functions in a gain table.\<close>

fun gain_lookup :: "gain_tbl_entry list \<Rightarrow> int \<Rightarrow> gain_tbl_entry option" where
  "gain_lookup [] idx = None"
| "gain_lookup (e # rest) idx =
     (if table_value e = idx then Some e else gain_lookup rest idx)"


section \<open>Lemmas on the searches\<close>

lemma error_text_map_of: "error_text tbl code = map_of tbl code"
  by (induction tbl code rule: error_text.induct) auto

lemma gain_lookup_Some:
  "gain_lookup tbl idx = Some e \<Longrightarrow> e \<in> set tbl \<and> table_value e = idx"
  by (induction tbl) (auto split: if_splits)

lemma gain_lookup_None:
  "gain_lookup tbl idx = None \<longleftrightarrow> idx \<notin> table_value ` set tbl"
  by (induction tbl) auto

text \<open>The enumerators in the order of the tables.\<close>

definition cme_enumerators :: "cme_error_code list" where
  "cme_enumerators = [
     CME_ERROR_PHONE_FAILURE,
     CME_ERROR_NO_PHONE_CONNECTION,
     CME_ERROR_PHONE_ADAPTER_LINK_RESERVED,
     CME_ERROR_OPERATION_NOT_ALLOWED,
     CME_ERROR_OPERATION_NOT_SUPPORTED,
     CME_ERROR_PH_SIM_PIN_REQUIRED,
     CME_ERROR_PH_FSIM_PIN_REQUIRED,
     CME_ERROR_PH_FSIM_PUK_REQUIRED,
     CME_ERROR_SIM_NOT_INSERTED,
     CME_ERROR_SIM_PIN_REQUIRED,
     CME_ERROR_SIM_PUK_REQUIRED,
     CME_ERROR_SIM_FAILURE,
     CME_ERROR_SIM_BUSY,
     CME_ERROR_SIM_WRONG,
     CME_ERROR_INCORRECT_PASSWORD_PIN,
     CME_ERROR_SIM_PIN2_REQUIRED,
     CME_ERROR_SIM_PUK2_REQUIRED,
     CME_ERROR_MEMORY_FULL,
     CME_ERROR_INVALID_INDEX,
     CME_ERROR_NOT_FOUND,
     CME_ERROR_MEMORY_FAILURE,
     CME_ERROR_TEXT_STRING_TOO_LONG,
     CME_ERROR_INVALID_CHARS_IN_TEXT_STRING,
     CME_ERROR_DIAL_STRING_TOO_LONG,
     CME_ERROR_INVALID_CHARS_IN_DIALSTRING,
     CME_ERROR_NO_NETWORK_SERVICE,
     CME_ERROR_NETWORK_TIMEOUT,
     CME_ERROR_EMERGENCY_CALLS_ONLY,
     CME_ERROR_NETWORK_PERS_PIN_REQUIRED,
     CME_ERROR_NETWORK_PERS_PUK_REQUIRED,
     CME_ERROR_NETWORK_SUBS_PERS_PIN_REQUIRED,
     CME_ERROR_SERVICE_PROVIDER_PERS_PIN_REQUIRED,
     CME_ERROR_SERVICE_PROVIDER_PERS_PUK_REQUIRED,
     CME_ERROR_CORPORATE_PERS_PIN_REQUIRED,
     CME_ERROR_CORPORATE_PERS_PUK_REQUIRED,
     CME_ERROR_UNKNOWN,
     CME_ERROR_ILLEGAL_MS,
     CME_ERROR_ILLEGAL_ME,
     CME_ERROR_GRPS_SERVICES_NOT_ALLOWED,
     CME_ERROR_PLMN_NOT_ALLOWED,
     CME_ERROR_LOCATION_AREA_NOT_ALLOWED,
     CME_ERROR_ROAMING_NOT_ALLOWED,
     CME_ERROR_SERVICE_OPTION_NOT_SUPPORTED,
     CME_ERROR_REQUESTED_SERVICE_OPTION_NOT_SUBSCRIBED,
     CME_ERROR_SERVICE_OPTION_TEMP_OUT_OF_ORDER,
     CME_ERROR_UNSPECIFIED_GPRS_ERROR,
     CME_ERROR_PDP_AUTHENTICATION_FAILURE,
     CME_ERROR_INVALID_MOBILE_CLASS,
     CME_ERROR_AUDIO_MANAGER_NOT_READY,
     CME_ERROR_AUDIO_FORMAT_NOT_CONFIGURED,
     CME_ERROR_SIM_TOOLKIT_NOT_CONFIGURED,
     CME_ERROR_SIM_TOOLKIT_ALREADY_IN_USE,
     CME_ERROR_SIM_TOOLKIT_NOT_ENABLED,
     CME_ERROR_CSCS_TYPE_NOT_SUPPORTED,
     CME_ERROR_CSCS_TYPE_NOT_FOUND,
     CME_ERROR_MUST_INCLUDE_FORMAT_OPER,
     CME_ERROR_INCORRECT_OPER_FORMAT,
     CME_ERROR_OPER_LENGTH_TOO_LONG,
     CME_ERROR_SIM_FULL,
     CME_ERROR_CANNOT_CHANGE_PLMN_LIST,
     CME_ERROR_NETWORK_OP_NOT_RECOGNIZED,
     CME_ERROR_INVALID_COMMAND_LENGTH,
     CME_ERROR_INVALID_INPUT_STRING,
     CME_ERROR_INVALID_SIM_COMMAND,
     CME_ERROR_INVALID_FILE_ID,
     CME_ERROR_MISSING_P123_PARAMETER,
     CME_ERROR_INVALID_P123_PARAMETER,
     CME_ERROR_MISSING_REQD_COMMAND_DATA,
     CME_ERROR_INVALID_CHARS_IN_COMMAND_DATA,
     CME_ERROR_INVALID_INPUT_VALUE,
     CME_ERROR_UNSUPPORTED_VALUE_OR_MODE,
     CME_ERROR_OPERATION_FAILED,
     CME_ERROR_MUX_ALREADY_ACTIVE,
     CME_ERROR_SIM_INVALID_NETWORK_REJECT,
     CME_ERROR_CALL_SETUP_IN_PROGRESS,
     CME_ERROR_SIM_POWERED_DOWN,
     CME_ERROR_SIM_FILE_NOT_PRESENT]"

definition cms_enumerators :: "cms_error_code list" where
  "cms_enumerators = [
     CMS_ERROR_ME_FAILURE,
     CMS_ERROR_SMS_ME_RESERVED,
     CMS_ERROR_OPERATION_NOT_ALLOWED,
     CMS_ERROR_OPERATION_NOT_SUPPORTED,
     CMS_ERROR_INVALID_PDU_MODE,
     CMS_ERROR_INVALID_TEXT_MODE,
     CMS_ERROR_SIM_NOT_INSERTED,
     CMS_ERROR_SIM_PIN_NECESSARY,
     CMS_ERROR_PH_SIN_PIN_NECESSARY,
     CMS_ERROR_SIM_FAILURE,
     CMS_ERROR_SIM_BUSY,
     CMS_ERROR_SIM_WRONG,
     CMS_ERROR_SIM_PUK_REQUIRED,
     CMS_ERROR_SIM_PIN2_REQUIRED,
     CMS_ERROR_SIM_PUK2_REQUIRED,
     CMS_ERROR_MEMORY_FAILURE,
     CMS_ERROR_INVALID_MEMORY_INDEX,
     CMS_ERROR_MEMORY_FULL,
     CMS_ERROR_SMSC_ADDRESS_UNKNOWN,
     CMS_ERROR_NO_NETWORK,
     CMS_ERROR_NETWORK_TIMEOUT,
     CMS_ERROR_UNKNOWN,
     CMS_ERROR_SIM_NOT_READY,
     CMS_ERROR_UNREAD_RECORDS_ON_SIM,
     CMS_ERROR_CB_ERROR_UNKNOWN,
     CMS_ERROR_PS_BUSY,
     CMS_ERROR_SIM_BL_NOT_READY,
     CMS_ERROR_INVALID_CHARS_IN_PDU,
     CMS_ERROR_INCORRECT_PDU_LENGTH,
     CMS_ERROR_INVALID_MTI,
     CMS_ERROR_INVALID_CHAR_IN_ADDRESS,
     CMS_ERROR_INVALID_ADDRESS,
     CMS_ERROR_INVALID_PDU_LENGTH,
     CMS_ERROR_INCORRECT_SCA_LENGTH,
     CMS_ERROR_INVALID_FIRST_OCTECT,
     CMS_ERROR_INVALID_COMMAND_TYPE,
     CMS_ERROR_SRR_BIT_NOT_SET,
     CMS_ERROR_SRR_BIT_SET,
     CMS_ERROR_INVALID_USER_DATA_IN_IE]"

lemma cme_enumerators_all: "e \<in> set cme_enumerators"
  unfolding cme_enumerators_def by (cases e; simp only: list.set insert_iff simp_thms)

lemma cms_enumerators_all: "e \<in> set cms_enumerators"
  unfolding cms_enumerators_def by (cases e; simp only: list.set insert_iff simp_thms)

lemma cme_table_enumerators: "map fst cme_error_codes = map cme_code cme_enumerators"
  unfolding cme_error_codes_def cme_enumerators_def by (simp only: list.map fst_conv)

lemma cms_table_enumerators: "map fst cms_error_codes = map cms_code cms_enumerators"
  unfolding cms_error_codes_def cms_enumerators_def by (simp only: list.map fst_conv)

lemma cme_table_codes: "fst ` set cme_error_codes = range cme_code"
  using arg_cong [OF cme_table_enumerators, of set] cme_enumerators_all by auto

lemma cms_table_codes: "fst ` set cms_error_codes = range cms_code"
  using arg_cong [OF cms_table_enumerators, of set] cms_enumerators_all by auto

lemma error_tables_distinct:
  "distinct (map fst cme_error_codes)" "distinct (map fst cms_error_codes)"
  unfolding cme_error_codes_def cms_error_codes_def by simp_all

text \<open>The table values of the gain tables are exactly the numbers within the limits.\<close>

lemma rx_table_values:
  "map table_value gsm_rx_gain_table = rev [GSM_RX_GAIN_MIN..GSM_RX_GAIN_MAX]"
  by (simp add: gsm_rx_gain_table_def gain_limits upto.simps)

lemma tx_table_values:
  "map table_value gsm_tx_gain_table = rev [GSM_TX_GAIN_MIN..GSM_TX_GAIN_MAX]"
  by (simp add: gsm_tx_gain_table_def gain_limits upto.simps)

lemma rx_gain_idx_range: "rx_gain_idx g \<in> {GSM_RX_GAIN_MIN..GSM_RX_GAIN_MAX}"
  by (simp add: rx_gain_idx_def gain_limits)

lemma tx_gain_idx_range: "tx_gain_idx g \<in> {GSM_TX_GAIN_MIN..GSM_TX_GAIN_MAX}"
  by (simp add: tx_gain_idx_def gain_limits)

lemma rx_gain_lookup_total:
  obtains e where "gain_lookup gsm_rx_gain_table (rx_gain_idx g) = Some e"
    "e \<in> set gsm_rx_gain_table" "table_value e = rx_gain_idx g"
proof -
  have "table_value ` set gsm_rx_gain_table = {GSM_RX_GAIN_MIN..GSM_RX_GAIN_MAX}"
    using rx_table_values by (metis list.set_map set_rev set_upto)
  then have "gain_lookup gsm_rx_gain_table (rx_gain_idx g) \<noteq> None"
    using rx_gain_idx_range by (simp add: gain_lookup_None)
  then show ?thesis using that gain_lookup_Some by blast
qed

lemma tx_gain_lookup_total:
  obtains e where "gain_lookup gsm_tx_gain_table (tx_gain_idx g) = Some e"
    "e \<in> set gsm_tx_gain_table" "table_value e = tx_gain_idx g"
proof -
  have "table_value ` set gsm_tx_gain_table = {GSM_TX_GAIN_MIN..GSM_TX_GAIN_MAX}"
    using tx_table_values by (metis list.set_map set_rev set_upto)
  then have "gain_lookup gsm_tx_gain_table (tx_gain_idx g) \<noteq> None"
    using tx_gain_idx_range by (simp add: gain_lookup_None)
  then show ?thesis using that gain_lookup_Some by blast
qed

text \<open>Levels the hardware takes: the radio volume is at most 100, the microphone gain below 9, and
  a codec gain is at most 24.\<close>

lemma gain_tables_bounded:
  "\<forall>e \<in> set gsm_rx_gain_table. 0 \<le> codec_value e \<and> codec_value e \<le> 24 \<and>
     0 \<le> radio_value e \<and> radio_value e \<le> 100"
  "\<forall>e \<in> set gsm_tx_gain_table. 0 \<le> codec_value e \<and> codec_value e \<le> 24 \<and>
     0 \<le> radio_value e \<and> radio_value e \<le> 8"
  by (simp_all add: gsm_rx_gain_table_def gsm_tx_gain_table_def)

text \<open>
  C34. The error texts are complete and unambiguous: \<open>gsm_get_cme_text\<close> has a text for a number
  exactly when the number is one of \<open>enum cme_error_code\<close>, the same for
  \<open>gsm_get_cms_text\<close>, and the text is the one the table pairs with that number, at whatever
  place of the table it stands.
\<close>
theorem error_texts_complete:
  "(gsm_get_cme_text n \<noteq> None \<longleftrightarrow> n \<in> range cme_code) \<and>
   (gsm_get_cms_text n \<noteq> None \<longleftrightarrow> n \<in> range cms_code) \<and>
   (gsm_get_cme_text n = Some t \<longleftrightarrow> (n, t) \<in> set cme_error_codes) \<and>
   (gsm_get_cms_text n = Some t \<longleftrightarrow> (n, t) \<in> set cms_error_codes)"
  by (simp add: gsm_get_cme_text_def gsm_get_cms_text_def error_text_map_of map_of_eq_None_iff
      cme_table_codes cms_table_codes error_tables_distinct)

end
