(* ===== verification/Statements.thy ===== *)
theory Statements
  imports Prelude
begin

text \<open>
  Statements of the drivers that share a state. A function of the source is a value of type
  \<open>('w, 'a) st\<close>: given a state \<open>'w\<close> it returns a result and the state it leaves, or it faults
  (NULL dereference, array overrun) or hangs (blocks for ever). \<open>gbind\<close> is the sequencing of
  statements.

  \<open>wp m Q w\<close>: running \<open>m\<close> on \<open>w\<close> returns, in a result and a state that satisfy \<open>Q\<close>.
  Its rules are the collection \<open>wp\<close>, and they reduce a property of a function to one of the
  calls it makes.
\<close>

named_theorems geval \<comment> \<open>definitions of operations, for the evaluation of examples\<close>
named_theorems wp \<comment> \<open>weakest preconditions of the statements and of the system calls\<close>

type_synonym ('w, 'a) st = "'w \<Rightarrow> ('a \<times> 'w) run"

definition ret :: "'a \<Rightarrow> ('w, 'a) st" where
  "ret x = (\<lambda>w. Ret (x, w))"

definition gbind :: "('w, 'a) st \<Rightarrow> ('a \<Rightarrow> ('w, 'b) st) \<Rightarrow> ('w, 'b) st" where
  "gbind m f = (\<lambda>w. run_bind (m w) (\<lambda>(x, w'). f x w'))"

definition gthen :: "('w, 'a) st \<Rightarrow> ('w, 'b) st \<Rightarrow> ('w, 'b) st" where
  "gthen m n = gbind m (\<lambda>_. n)"

definition fault :: "('w, 'a) st" where
  "fault = (\<lambda>w. Fault)"

definition hang :: "('w, 'a) st" where
  "hang = (\<lambda>w. Hang)"

definition gets :: "('w \<Rightarrow> 'a) \<Rightarrow> ('w, 'a) st" where
  "gets f = (\<lambda>w. Ret (f w, w))"

definition modify :: "('w \<Rightarrow> 'w) \<Rightarrow> ('w, unit) st" where
  "modify f = (\<lambda>w. Ret ((), f w))"

definition wp :: "('w, 'a) st \<Rightarrow> ('a \<Rightarrow> 'w \<Rightarrow> bool) \<Rightarrow> 'w \<Rightarrow> bool" where
  "wp m Q w \<longleftrightarrow> (\<exists>x w'. m w = Ret (x, w') \<and> Q x w')"

lemma wp_ret [wp]: "wp (ret x) Q w = Q x w"
  by (simp add: wp_def ret_def)

lemma wp_gbind [wp]: "wp (gbind m f) Q w = wp m (\<lambda>x. wp (f x) Q) w"
  by (auto simp: wp_def gbind_def run_bind_Ret_iff)

lemma wp_gthen [wp]: "wp (gthen m n) Q w = wp m (\<lambda>_. wp n Q) w"
  by (simp add: gthen_def wp_gbind)

lemma wp_fault [wp]: "\<not> wp fault Q w"
  by (simp add: wp_def fault_def)

lemma wp_hang [wp]: "\<not> wp hang Q w"
  by (simp add: wp_def hang_def)

lemma wp_gets [wp]: "wp (gets f) Q w = Q (f w) w"
  by (simp add: wp_def gets_def)

lemma wp_modify [wp]: "wp (modify f) Q w = Q () (f w)"
  by (simp add: wp_def modify_def)

lemma wp_if [wp]: "wp (if b then m else n) Q w = (if b then wp m Q w else wp n Q w)"
  by simp

text \<open>The rules for sequences, for statements under a binder.\<close>

lemma wp_fun:
  "wp (ret x) Q = Q x" "wp (gbind m f) Q = wp m (\<lambda>x. wp (f x) Q)" "wp (gthen m n) Q = wp m (\<lambda>_. wp n Q)"
  by (simp_all add: fun_eq_iff wp)

lemma wp_mono:
  assumes "wp m P w" "\<And>x w'. P x w' \<Longrightarrow> Q x w'"
  shows "wp m Q w"
  using assms by (auto simp: wp_def)

lemma wp_conj: "wp m P w \<Longrightarrow> wp m Q w \<Longrightarrow> wp m (\<lambda>x w'. P x w' \<and> Q x w') w"
  by (auto simp: wp_def)

text \<open>
  Congruence rules that make the simplifier run a statement only when the ones before it are done,
  and the collection of definitions it unfolds then: evaluation of examples.
\<close>

lemma wp_lazy: "m = m' \<Longrightarrow> w = w' \<Longrightarrow> wp m Q w = wp m' Q w'"
  by simp

lemma gbind_lazy: "m = m' \<Longrightarrow> gbind m f = gbind m' f"
  by simp

lemma gthen_lazy: "m = m' \<Longrightarrow> gthen m n = gthen m' n"
  by simp

lemmas lazy = wp_lazy gbind_lazy gthen_lazy

lemma wp_Ret: "wp m (\<lambda>x w'. x = y \<and> w' = v) w \<longleftrightarrow> m w = Ret (y, v)"
  by (auto simp: wp_def)

lemma wp_returns: "wp m Q w \<Longrightarrow> returns (m w)"
  by (auto simp: wp_def returns_def)


text \<open>
  \<open>triple I m J\<close>: from every state in which \<open>I\<close> holds, \<open>m\<close> returns, in a state in which
  \<open>J\<close> does. The rules are the collection \<open>triple\<close>.
\<close>

named_theorems triple

definition triple :: "('w \<Rightarrow> bool) \<Rightarrow> ('w, 'a) st \<Rightarrow> ('w \<Rightarrow> bool) \<Rightarrow> bool" where
  "triple I m J \<longleftrightarrow> (\<forall>w. I w \<longrightarrow> wp m (\<lambda>_. J) w)"

lemma tripleI: "(\<And>w. I w \<Longrightarrow> wp m (\<lambda>_. J) w) \<Longrightarrow> triple I m J"
  by (simp add: triple_def)

lemma tripleD: "triple I m J \<Longrightarrow> I w \<Longrightarrow> wp m (\<lambda>_. J) w"
  by (simp add: triple_def)

lemma triple_ret [triple]: "triple I (ret x) I"
  by (simp add: triple_def wp)

lemma triple_gthen [triple]: "triple I m J \<Longrightarrow> triple J n K \<Longrightarrow> triple I (gthen m n) K"
  unfolding triple_def wp_gthen by (meson wp_mono)

lemma triple_gbind: "triple I m J \<Longrightarrow> (\<And>x. triple J (f x) K) \<Longrightarrow> triple I (gbind m f) K"
  unfolding triple_def wp_gbind by (meson wp_mono)

lemma triple_gets [triple]: "(\<And>w. I w \<Longrightarrow> triple I (f (g w)) K) \<Longrightarrow> triple I (gbind (gets g) f) K"
  by (simp add: triple_def wp)

lemma triple_modify: "(\<And>w. I w \<Longrightarrow> J (f w)) \<Longrightarrow> triple I (modify f) J"
  by (simp add: triple_def wp)

lemma triple_if [triple]: "(b \<Longrightarrow> triple I m J) \<Longrightarrow> (\<not> b \<Longrightarrow> triple I n J) \<Longrightarrow> triple I (if b then m else n) J"
  by simp

end
