(* ===== verification/Gsm_World.thy ===== *)
theory Gsm_World
  imports Gsmctl_Tables Statements
begin

text \<open>
  The state of the GSM control library and the calls it makes to the C library and the
  kernel. \<open>gsm_world\<close> holds the static variables of \<open>gsmctl.c\<close> together with what its
  system calls act on: POSIX semaphores, System V message queues, watchdog timers, files, the
  bytes of each radio module that are there to be read, and a trace of what was written, closed and
  reported. A read of more than the bytes that are there blocks, unless the stream of the module
  has ended (\<open>modem_eof\<close>).

  A function of the source is a value of type \<open>'a gm\<close>: given a world it returns a result
  and the world it leaves, or it faults (NULL dereference, array overrun) or hangs (blocks for
  ever). \<open>gbind\<close> is the sequencing of statements. A call whose outcome the environment decides
  (opening a device, \<open>select\<close>, \<open>ioctl\<close>, \<open>malloc\<close>, ...) asks the next value of
  \<open>env\<close>, an arbitrary sequence of integers, so a theorem about all worlds is a theorem about
  all outcomes. Log output and delays are left out.
\<close>


section \<open>Data of the library\<close>

definition GSM_MAX_STR :: nat where "GSM_MAX_STR = 255"
definition MAX_GSM_PORTS :: nat where "MAX_GSM_PORTS = 32"
definition GSM_CMD_LENGTH :: nat where "GSM_CMD_LENGTH = 255"
definition LINE_BUFFER_SIZE :: nat where "LINE_BUFFER_SIZE = 4096"
definition GSM_WAIT_TIMEOUT :: int where "GSM_WAIT_TIMEOUT = 10"
definition IMEI_SZ :: nat where "IMEI_SZ = 32"
definition IMSI_SZ :: nat where "IMSI_SZ = 32"
definition FW_REV_SZ :: nat where "FW_REV_SZ = 128"
definition EWRONGPIN :: int where "EWRONGPIN = 2"
definition ENODEV :: int where "ENODEV = 19"

lemmas gsm_limits = GSM_MAX_STR_def MAX_GSM_PORTS_def GSM_CMD_LENGTH_def LINE_BUFFER_SIZE_def
  IMEI_SZ_def IMSI_SZ_def FW_REV_SZ_def

text \<open>The requests of the kernel driver: \<open>_IO('G', n)\<close>, and the states they carry.\<close>

definition GSM_IO :: "int \<Rightarrow> int" where "GSM_IO n = 0x4700 + n"
definition GSM_SETLED :: int where "GSM_SETLED = GSM_IO 0"
definition GSM_SETSTATE :: int where "GSM_SETSTATE = GSM_IO 2"
definition GSM_KILLME :: int where "GSM_KILLME = GSM_IO 4"
definition GSM_POWERCYCLE_RADIO :: int where "GSM_POWERCYCLE_RADIO = GSM_IO 7"
definition GSM_SET_RX_GAIN :: int where "GSM_SET_RX_GAIN = GSM_IO 8"
definition GSM_SET_TX_GAIN :: int where "GSM_SET_TX_GAIN = GSM_IO 9"
definition STATE_CONNECTED :: int where "STATE_CONNECTED = 1"
definition STATE_HANGUP :: int where "STATE_HANGUP = 2"

record gsm_config =
  cfg_port :: int
  initfile :: string
  pin :: string
  smsc :: string
  sms_pdu_mode :: int
  rx_gain :: int
  tx_gain :: int

datatype ctlport_state =
  CTLPORT_STATE_NONE | CTLPORT_STATE_SMS | CTLPORT_STATE_KILLME | CTLPORT_STATE_KILLED

datatype modem_state = MODEM_OK | MODEM_WAIT_FOR_RESPONSE | MODEM_RECEIVED_RESPONSE

text \<open>
  \<open>struct ctlport\<close>. A stream is its descriptor (\<open>None\<close>: NULL), \<open>cp_cfg\<close> the index of
  the configuration the pointer points to, \<open>cp_priv\<close> the pointer of the channel driver. The
  strings are those their buffers hold. The thread handles are in the world (\<open>writer\<close>,
  \<open>reader\<close>).
\<close>

record ctlport =
  fpw :: "int option"
  fpr :: "int option"
  cp_fd :: int
  cp_port :: int
  in_use :: int
  cp_cfg :: "int option"
  cp_state :: ctlport_state
  cp_modem :: modem_state
  cp_priv :: "nat option"
  write_mq_id :: int
  msg_count :: int
  last_cmd_sent :: string
  imei :: string
  imsi :: string
  fw_rev_info :: string

text \<open>The structure after \<open>memset (..., 0, ...)\<close>.\<close>

definition ctlport_zero :: ctlport where
  "ctlport_zero =
     \<lparr>fpw = None, fpr = None, cp_fd = 0, cp_port = 0, in_use = 0, cp_cfg = None,
      cp_state = CTLPORT_STATE_NONE, cp_modem = MODEM_OK, cp_priv = None, write_mq_id = 0,
      msg_count = 0, last_cmd_sent = [], imei = [], imsi = [], fw_rev_info = []\<rparr>"

text \<open>The three arrays of semaphores.\<close>

datatype semaphore = ready | write_sem | avail_sem

text \<open>
  A watchdog timer: no timer, the zero of a static variable no timer was ever stored in, or a
  timer and the seconds after which it expires (0: disarmed).
\<close>

datatype timer_id = INVALID_TIMER_ID | Timer_unset | Timer int

text \<open>
  Where a writer thread stands: not created, at the head of its loop, about to wait for
  \<open>write_sem\<close>, past it, waiting for \<open>avail_sem\<close> with a command taken from the queue, past
  it, past the check of the state, after the command was sent, and returned. A reader thread: not created, before its
  initialisation, at the head of its loop, past the check of the state, reading the prompt of an
  SMS, returned.
\<close>

datatype writer_pc =
    W_none | W_head | W_wait | W_woken | W_avail string | W_send string | W_write string | W_sent
  | W_done

datatype reader_pc = R_none | R_start | R_loop | R_read | R_prompt | R_done

datatype effect =
    Written int string          \<comment> \<open>bytes put to the stream with this descriptor\<close>
  | Ioctl int int int
  | Event int string            \<comment> \<open>a call of \<open>cbEvents\<close>\<close>
  | Closed int
  | Verbose string

record gsm_world =
  debug :: int
  ctlport :: "ctlport list"
  sems :: "semaphore \<Rightarrow> nat option list"
  wdog_timer :: "timer_id list"
  gsm_cfg :: "gsm_config list"
  cbEvents :: bool
  channel_mask :: int
  mqueue :: "int \<Rightarrow> string list option"
  files :: "string \<Rightarrow> string option"
  modem_in :: "nat \<Rightarrow> string"
  modem_eof :: "nat \<Rightarrow> bool"
  writer :: "nat \<Rightarrow> writer_pc"
  reader :: "nat \<Rightarrow> reader_pc"
  trace :: "effect list"
  env :: "nat \<Rightarrow> int"
  calls :: nat
  junk :: string
  junk_int :: int


type_synonym 'a gm = "(gsm_world, 'a) st"


section \<open>Arrays of the world\<close>

definition ctl_get :: "int \<Rightarrow> ctlport gm" where
  "ctl_get i = (\<lambda>w. run_map (\<lambda>c. (c, w)) (arr_get (ctlport w) i))"

definition ctl_upd :: "int \<Rightarrow> (ctlport \<Rightarrow> ctlport) \<Rightarrow> unit gm" where
  "ctl_upd i f = gbind (ctl_get i) (\<lambda>c.
     \<lambda>w. run_map (\<lambda>cs. ((), w\<lparr>ctlport := cs\<rparr>)) (arr_set (ctlport w) i (f c)))"

definition cfg_get :: "int \<Rightarrow> gsm_config gm" where
  "cfg_get i = (\<lambda>w. run_map (\<lambda>c. (c, w)) (arr_get (gsm_cfg w) i))"

definition timer_get :: "int \<Rightarrow> timer_id gm" where
  "timer_get i = (\<lambda>w. run_map (\<lambda>c. (c, w)) (arr_get (wdog_timer w) i))"

definition timer_put :: "int \<Rightarrow> timer_id \<Rightarrow> unit gm" where
  "timer_put i t =
     (\<lambda>w. run_map (\<lambda>ts. ((), w\<lparr>wdog_timer := ts\<rparr>)) (arr_set (wdog_timer w) i t))"

abbreviation in_range :: "int \<Rightarrow> 'a list \<Rightarrow> bool" where
  "in_range i xs \<equiv> 0 \<le> i \<and> i < int (length xs)"

lemma wp_ctl_get [wp]:
  "wp (ctl_get i) Q w \<longleftrightarrow> in_range i (ctlport w) \<and> Q (ctlport w ! nat i) w"
  by (auto simp: wp_def ctl_get_def arr_get_def)

lemma wp_ctl_upd [wp]:
  "wp (ctl_upd i f) Q w \<longleftrightarrow> in_range i (ctlport w) \<and>
     Q () (w\<lparr>ctlport := (ctlport w)[nat i := f (ctlport w ! nat i)]\<rparr>)"
  by (auto simp: ctl_upd_def wp) (auto simp: wp_def arr_set_def)

lemma wp_cfg_get [wp]:
  "wp (cfg_get i) Q w \<longleftrightarrow> in_range i (gsm_cfg w) \<and> Q (gsm_cfg w ! nat i) w"
  by (auto simp: wp_def cfg_get_def arr_get_def)

lemma wp_timer_get [wp]:
  "wp (timer_get i) Q w \<longleftrightarrow> in_range i (wdog_timer w) \<and> Q (wdog_timer w ! nat i) w"
  by (auto simp: wp_def timer_get_def arr_get_def)

lemma wp_timer_put [wp]:
  "wp (timer_put i t) Q w \<longleftrightarrow> in_range i (wdog_timer w) \<and>
     Q () (w\<lparr>wdog_timer := (wdog_timer w)[nat i := t]\<rparr>)"
  by (auto simp: wp_def timer_put_def arr_set_def)


section \<open>System calls\<close>

text \<open>The next answer of the environment.\<close>

definition ask :: "int gm" where
  "ask = (\<lambda>w. Ret (env w (calls w), w\<lparr>calls := calls w + 1\<rparr>))"

lemma wp_ask [wp]: "wp ask Q w = Q (env w (calls w)) (w\<lparr>calls := calls w + 1\<rparr>)"
  by (simp add: wp_def ask_def)

definition emit :: "effect \<Rightarrow> unit gm" where
  "emit e = modify (\<lambda>w. w\<lparr>trace := trace w @ [e]\<rparr>)"

lemma wp_emit [wp]: "wp (emit e) Q w = Q () (w\<lparr>trace := trace w @ [e]\<rparr>)"
  by (simp add: emit_def wp)

text \<open>Opening a device: its descriptor, or NULL.\<close>

definition fopen_dev :: "int option gm" where
  "fopen_dev = gbind ask (\<lambda>r. ret (if r < 0 then None else Some r))"

definition ioctl :: "int \<Rightarrow> int \<Rightarrow> int \<Rightarrow> int gm" where
  "ioctl fd cmd arg = gthen (emit (Ioctl fd cmd arg)) ask"

text \<open>\<open>fputs\<close> and \<open>fflush\<close> on a stream; NULL is a fault.\<close>

definition fputs :: "string \<Rightarrow> int option \<Rightarrow> unit gm" where
  "fputs s fp = (case fp of None \<Rightarrow> fault | Some fd \<Rightarrow> emit (Written fd s))"

lemma wp_fputs [wp]:
  "wp (fputs s fp) Q w \<longleftrightarrow>
     (\<exists>fd. fp = Some fd \<and> Q () (w\<lparr>trace := trace w @ [Written fd s]\<rparr>))"
  by (cases fp) (simp_all add: fputs_def wp)

text \<open>
  Semaphores: the value, or \<open>None\<close> for one that is not initialised, on which every call
  fails with \<open>EINVAL\<close>. \<open>sem_wait\<close> on a semaphore at 0 blocks.
\<close>

definition sem_get :: "semaphore \<Rightarrow> int \<Rightarrow> nat option gm" where
  "sem_get s i = (\<lambda>w. run_map (\<lambda>v. (v, w)) (arr_get (sems w s) i))"

definition sem_put :: "semaphore \<Rightarrow> int \<Rightarrow> nat option \<Rightarrow> unit gm" where
  "sem_put s i v =
     (\<lambda>w. run_map (\<lambda>vs. ((), w\<lparr>sems := (sems w)(s := vs)\<rparr>)) (arr_set (sems w s) i v))"

lemma wp_sem_get [wp]:
  "wp (sem_get s i) Q w \<longleftrightarrow> in_range i (sems w s) \<and> Q (sems w s ! nat i) w"
  by (auto simp: wp_def sem_get_def arr_get_def)

lemma wp_sem_put [wp]:
  "wp (sem_put s i v) Q w \<longleftrightarrow> in_range i (sems w s) \<and>
     Q () (w\<lparr>sems := (sems w)(s := (sems w s)[nat i := v])\<rparr>)"
  by (auto simp: wp_def sem_put_def arr_set_def)

definition sem_init :: "semaphore \<Rightarrow> int \<Rightarrow> nat \<Rightarrow> unit gm" where
  "sem_init s i v = sem_put s i (Some v)"

definition sem_destroy :: "semaphore \<Rightarrow> int \<Rightarrow> unit gm" where
  "sem_destroy s i = sem_put s i None"

definition sem_post :: "semaphore \<Rightarrow> int \<Rightarrow> unit gm" where
  "sem_post s i = gbind (sem_get s i) (\<lambda>v.
     case v of None \<Rightarrow> ret () | Some n \<Rightarrow> sem_put s i (Some (Suc n)))"

definition sem_wait :: "semaphore \<Rightarrow> int \<Rightarrow> unit gm" where
  "sem_wait s i = gbind (sem_get s i) (\<lambda>v.
     case v of None \<Rightarrow> ret ()
     | Some 0 \<Rightarrow> hang
     | Some (Suc n) \<Rightarrow> sem_put s i (Some n))"

text \<open>
  \<open>sem_timedwait\<close>: \<open>others\<close> is what the other threads do until the semaphore is posted or
  the time is over. The result is 0, or -1 when the semaphore is still at 0.
\<close>

definition sem_timedwait :: "unit gm \<Rightarrow> semaphore \<Rightarrow> int \<Rightarrow> int gm" where
  "sem_timedwait others s i = gthen others (gbind (sem_get s i) (\<lambda>v.
     case v of Some (Suc n) \<Rightarrow> gthen (sem_put s i (Some n)) (ret 0)
     | _ \<Rightarrow> ret (- 1)))"

text \<open>
  Message queues. The kernel keeps one queue per key and the library uses one key per port; the
  model uses the port as the identifier. A send fails when the queue does not exist or the
  kernel refuses (it is full); a receive without waiting fails when there is no message.
\<close>

definition msgget :: "int \<Rightarrow> int gm" where
  "msgget p = gbind ask (\<lambda>r. if r < 0 then ret (- 1)
     else gthen (modify (\<lambda>w. if mqueue w p = None then w\<lparr>mqueue := (mqueue w)(p := Some [])\<rparr>
                             else w))
                (ret p))"

definition msgsnd :: "int \<Rightarrow> string \<Rightarrow> int gm" where
  "msgsnd q m = gbind (gets (\<lambda>w. mqueue w q)) (\<lambda>mq. case mq of
       None \<Rightarrow> ret (- 1)
     | Some ms \<Rightarrow> gbind ask (\<lambda>r. if r < 0 then ret (- 1)
         else gthen (modify (\<lambda>w. w\<lparr>mqueue := (mqueue w)(q := Some (ms @ [m]))\<rparr>)) (ret 0)))"

definition msgrcv :: "int \<Rightarrow> string option gm" where
  "msgrcv q = gbind (gets (\<lambda>w. mqueue w q)) (\<lambda>mq. case mq of
       Some (m # ms) \<Rightarrow>
         gthen (modify (\<lambda>w. w\<lparr>mqueue := (mqueue w)(q := Some ms)\<rparr>)) (ret (Some m))
     | _ \<Rightarrow> ret None)"

definition msgctl_rmid :: "int \<Rightarrow> unit gm" where
  "msgctl_rmid q = modify (\<lambda>w. w\<lparr>mqueue := (mqueue w)(q := None)\<rparr>)"

text \<open>
  Timers. Setting a timer that was never created is undefined and a fault; the kernel may refuse.
\<close>

definition timer_settime :: "int \<Rightarrow> int \<Rightarrow> int gm" where
  "timer_settime i secs = gbind (timer_get i) (\<lambda>t. case t of
       Timer _ \<Rightarrow> gbind ask (\<lambda>r. if r < 0 then ret (- 1)
         else gthen (timer_put i (Timer secs)) (ret 0))
     | _ \<Rightarrow> fault)"

definition timer_create :: "int \<Rightarrow> int gm" where
  "timer_create i = gbind ask (\<lambda>r. if r < 0 then ret (- 1)
     else gthen (timer_put i (Timer 0)) (ret 0))"

text \<open>\<open>sprintf\<close> or \<open>strcpy\<close> of a text into a buffer of \<open>n\<close> bytes.\<close>

definition into_buffer :: "nat \<Rightarrow> string \<Rightarrow> string gm" where
  "into_buffer n s = (if length s < n then ret s else fault)"

lemma wp_into_buffer [wp]: "wp (into_buffer n s) Q w \<longleftrightarrow> length s < n \<and> Q s w"
  by (simp add: into_buffer_def wp)


section \<open>Text of files and streams\<close>

abbreviation LF :: char where "LF \<equiv> CHR 0x0A"
abbreviation CR :: char where "CR \<equiv> CHR 0x0D"
abbreviation NUL :: char where "NUL \<equiv> CHR 0x00"

text \<open>At most \<open>n\<close> characters, up to and with the first line feed; and the rest.\<close>

fun take_line :: "nat \<Rightarrow> string \<Rightarrow> string \<times> string" where
  "take_line 0 s = ([], s)"
| "take_line (Suc n) [] = ([], [])"
| "take_line (Suc n) (c # s) =
     (if c = LF then ([c], s) else let (l, r) = take_line n s in (c # l, r))"

text \<open>\<open>fgets\<close> into a buffer of \<open>size\<close> bytes: NULL at the end of the stream.\<close>

definition fgets :: "nat \<Rightarrow> string \<Rightarrow> (string \<times> string) option" where
  "fgets n s = (if s = [] then None else Some (take_line (n - 1) s))"

lemma take_line_append: "take_line n s = (l, r) \<Longrightarrow> s = l @ r"
  by (induction n s arbitrary: l r rule: take_line.induct)
     (auto split: if_splits prod.splits)

lemma take_line_length: "length (fst (take_line n s)) \<le> n"
  by (induction n s rule: take_line.induct) (auto split: prod.splits)

lemma take_line_progress: "0 < n \<Longrightarrow> s \<noteq> [] \<Longrightarrow> length (snd (take_line n s)) < length s"
proof (cases n; cases s)
  fix m c s'
  assume "n = Suc m" "s = c # s'"
  then show ?thesis
    using take_line_append [of m s'] by (auto split: prod.splits)
qed auto

lemma fgets_length: "fgets n s = Some (l, r) \<Longrightarrow> length l \<le> n - 1"
  using take_line_length [of "n - 1" s] by (auto simp: fgets_def split: if_splits)

lemma fgets_progress: "fgets n s = Some (l, r) \<Longrightarrow> 1 < n \<Longrightarrow> length r < length s"
  using take_line_progress [of "n - 1" s] by (auto simp: fgets_def split: if_splits)

text \<open>
  Whether \<open>fgets\<close> on a stream blocks with the bytes that are there: the stream has not ended, and
  the bytes neither have a line end within the buffer nor fill it.
\<close>

definition fgets_blocks :: "bool \<Rightarrow> nat \<Rightarrow> string \<Rightarrow> bool" where
  "fgets_blocks eof n s \<longleftrightarrow> \<not> eof \<and> LF \<notin> set s \<and> length s < n - 1"

lemma fgets_blocks_eof [simp]: "\<not> fgets_blocks True n s"
  by (simp add: fgets_blocks_def)

text \<open>The C string in the buffer after a line was read: it ends at the first NUL.\<close>

definition line_text :: "string \<Rightarrow> string" where
  "line_text l = cut_at CR (cut_at NUL l)"

lemma length_cut_at: "length (cut_at c s) \<le> length s"
  by (simp add: cut_at_def length_takeWhile_le)

lemma length_line_text: "length (line_text l) \<le> length l"
  using length_cut_at [of CR] length_cut_at [of NUL] order_trans
  unfolding line_text_def by blast

text \<open>\<open>strtol\<close> with base 10 (a \<open>long\<close> has 32 bits) and its use by \<open>%d\<close>.\<close>

fun number :: "nat \<Rightarrow> string \<Rightarrow> nat \<times> string" where
  "number n [] = (n, [])"
| "number n (c # s) =
     (if isdigit c then number (10 * n + (of_char c - 48)) s else (n, c # s))"

definition signed_number :: "string \<Rightarrow> int option \<times> string" where
  "signed_number s =
     (let s1 = dropWhile isspace s;
          neg = (s1 \<noteq> [] \<and> hd s1 = CHR ''-'');
          s2 = (if s1 \<noteq> [] \<and> hd s1 \<in> {CHR ''-'', CHR ''+''} then tl s1 else s1);
          (n, rest) = number 0 s2
      in if s2 \<noteq> [] \<and> isdigit (hd s2) then (Some (if neg then - int n else int n), rest)
         else (None, s1))"

definition strtol :: "string \<Rightarrow> int" where
  "strtol s = (case fst (signed_number s) of None \<Rightarrow> 0
               | Some i \<Rightarrow> max (- (2 ^ 31)) (min (2 ^ 31 - 1) i))"


lemmas [geval] = ctlport_zero_def MAX_GSM_PORTS_def GSM_CMD_LENGTH_def fopen_dev_def ioctl_def fputs_def
  sem_init_def sem_destroy_def sem_post_def sem_wait_def msgget_def msgsnd_def msgrcv_def msgctl_rmid_def
  timer_settime_def timer_create_def into_buffer_def

end
