(* ===== verification/Gsmctl.thy ===== *)
theory Gsmctl
  imports Gsm_World
begin

text \<open>
  The operations of \<open>gsmctl.c\<close>, in the order of the source: the table of control ports and
  its accessors, the files of the kernel driver, the watchdog timers, the exchange of commands
  with a radio module, the initialisation of a module, the writer and the reader thread, and
  the start and the end of a port and of the library. A \<open>struct ctlport\<close> pointer is the index of
  the port in \<open>ctlport\<close>, \<open>None\<close> for NULL. The threads are step functions:
  one call of \<open>writer_step\<close> or \<open>reader_step\<close> runs the thread to the next point where
  another thread may interfere, and returns whether it could run.
\<close>

unbundle bit_operations_syntax


section \<open>The table of ports\<close>

definition gsm_set_debuglevel :: "int \<Rightarrow> unit gm" where
  "gsm_set_debuglevel d = modify (\<lambda>w. w\<lparr>debug := d\<rparr>)"

definition port_indices :: "int list" where
  "port_indices = map int [1..<MAX_GSM_PORTS]"

definition getctlport :: "int \<Rightarrow> int option gm" where
  "getctlport p = gets (\<lambda>w. if p = 0 then None
     else find (\<lambda>i. cp_port (ctlport w ! nat i) = p) port_indices)"

definition getctlport_bypriv :: "nat option \<Rightarrow> int option gm" where
  "getctlport_bypriv q = gets (\<lambda>w. if q = None then None
     else find (\<lambda>i. cp_priv (ctlport w ! nat i) = q) port_indices)"

text \<open>Use of a \<open>struct ctlport\<close> pointer.\<close>

definition deref :: "int option \<Rightarrow> (int \<Rightarrow> 'a gm) \<Rightarrow> 'a gm" where
  "deref ctl f = (case ctl of None \<Rightarrow> fault | Some i \<Rightarrow> f i)"

definition gsm_port_is_valid :: "int \<Rightarrow> bool gm" where
  "gsm_port_is_valid p = gbind (getctlport p) (\<lambda>ctl. ret (ctl \<noteq> None))"

text \<open>
  \<open>gsm_port_fetch\<close> tests \<open>in_use\<close> (\<open>gsm_fetch_check\<close>: the port when it is free) and sets it
  (\<open>gsm_fetch_take\<close>); another thread may run between the two.
\<close>

definition gsm_fetch_check :: "int \<Rightarrow> int option gm" where
  "gsm_fetch_check p = gbind (getctlport p) (\<lambda>ctl. case ctl of
       Some i \<Rightarrow> gbind (ctl_get i) (\<lambda>c. ret (if in_use c = 0 then Some i else None))
     | None \<Rightarrow> ret None)"

definition gsm_fetch_take :: "int option \<Rightarrow> int gm" where
  "gsm_fetch_take free = (case free of
       Some i \<Rightarrow> gthen (ctl_upd i (\<lambda>c. c\<lparr>in_use := 1\<rparr>)) (ret 1)
     | None \<Rightarrow> ret 0)"

definition gsm_port_fetch :: "int \<Rightarrow> int gm" where
  "gsm_port_fetch p = gbind (gsm_fetch_check p) gsm_fetch_take"

definition gsm_port_release :: "int \<Rightarrow> int gm" where
  "gsm_port_release p = gbind (getctlport p) (\<lambda>ctl. case ctl of
       Some i \<Rightarrow> gthen (ctl_upd i (\<lambda>c. c\<lparr>in_use := 0\<rparr>)) (ret 0)
     | None \<Rightarrow> ret 0)"

definition gsm_port_in_use_get :: "int \<Rightarrow> int gm" where
  "gsm_port_in_use_get p = gbind (getctlport p) (\<lambda>ctl. case ctl of
       Some i \<Rightarrow> gbind (ctl_get i) (\<lambda>c. ret (in_use c))
     | None \<Rightarrow> ret 0)"

definition gsm_sms_enter :: "int \<Rightarrow> int gm" where
  "gsm_sms_enter p = gbind (getctlport p) (\<lambda>ctl. deref ctl (\<lambda>i.
     gthen (ctl_upd i (\<lambda>c. c\<lparr>cp_state := CTLPORT_STATE_SMS\<rparr>)) (ret 0)))"


section \<open>Files of the driver\<close>

definition slot_path :: "int \<Rightarrow> string" where
  "slot_path p = ''/sys/class/gsm/ctl'' @ itoa p @ ''/channel_sim_slot''"

definition slot_next_path :: "int \<Rightarrow> string" where
  "slot_next_path p = ''/sys/class/gsm/ctl'' @ itoa p @ ''/channel_sim_slot_next''"

text \<open>One \<open>fgets\<close> into \<open>char buf[16]\<close>, which stays uninitialised when the file is empty.\<close>

definition read_slot :: "string \<Rightarrow> gsm_world \<Rightarrow> int" where
  "read_slot content w =
     (case fgets 16 content of None \<Rightarrow> strtol (junk w) | Some (l, _) \<Rightarrow> strtol (cut_at NUL l))"

definition gsm_simslot_get :: "int \<Rightarrow> int gm" where
  "gsm_simslot_get p = gets (\<lambda>w. case files w (slot_path p) of
       Some content \<Rightarrow> read_slot content w
     | None \<Rightarrow> 0)"

definition gsm_simslot_next_get :: "int \<Rightarrow> int gm" where
  "gsm_simslot_next_get p = gets (\<lambda>w. case files w (slot_next_path p) of
       Some content \<Rightarrow> read_slot content w
     | None \<Rightarrow> - 1)"

definition gsm_set_next_simslot :: "int \<Rightarrow> int \<Rightarrow> int gm" where
  "gsm_set_next_simslot p slot = gbind (gsm_simslot_get p) (\<lambda>cur.
     if cur = slot then ret 0
     else gbind (gets (\<lambda>w. files w (slot_next_path p))) (\<lambda>f. case f of
         Some _ \<Rightarrow> gthen (modify (\<lambda>w. w\<lparr>files := (files w)
                      (slot_next_path p \<mapsto> itoa (if slot \<noteq> 0 then 1 else 0))\<rparr>)) (ret 1)
       | None \<Rightarrow> ret (- 1)))"

definition gsm_check_port :: "int \<Rightarrow> int gm" where
  "gsm_check_port p =
     gets (\<lambda>w. if files w (''/dev/gsm/ctl'' @ itoa p) \<noteq> None then 1 else 0)"

definition gsm_set_led :: "int \<Rightarrow> int \<Rightarrow> int gm" where
  "gsm_set_led p ledstate = gbind (getctlport p) (\<lambda>ctl. case ctl of
       None \<Rightarrow> ret 0
     | Some i \<Rightarrow> gbind (ctl_get i) (\<lambda>c. case fpw c of
         None \<Rightarrow> ret 0
       | Some fd \<Rightarrow> if fd \<le> 0 then ret 0 else ioctl fd GSM_SETLED ledstate))"

definition gsm_audio_start :: "int \<Rightarrow> int gm" where
  "gsm_audio_start p = gbind (getctlport p) (\<lambda>ctl. case ctl of
       None \<Rightarrow> ret (- 1)
     | Some i \<Rightarrow> gbind (ctl_get i) (\<lambda>c. ioctl (cp_fd c) GSM_SETSTATE STATE_CONNECTED))"

definition gsm_audio_stop :: "int \<Rightarrow> int gm" where
  "gsm_audio_stop p = gbind (getctlport p) (\<lambda>ctl. deref ctl (\<lambda>i.
     gbind (ctl_get i) (\<lambda>c. ioctl (cp_fd c) GSM_SETSTATE STATE_HANGUP)))"

definition gsm_audio_open :: "int \<Rightarrow> int gm" where
  "gsm_audio_open p = gbind (getctlport p) (\<lambda>ctl. deref ctl (\<lambda>i.
     gbind ask (\<lambda>fd. gthen (ctl_upd i (\<lambda>c. c\<lparr>cp_fd := fd\<rparr>)) (ret fd))))"

text \<open>
  The scan \<open>%*s %*s %[^/]%*1c%s\<close> of \<open>/proc/driver/taco\<close>: the two conversions it
  stores, as far as it gets.
\<close>

definition scan_word :: "string \<Rightarrow> (string \<times> string) option" where
  "scan_word s = (let s1 = dropWhile isspace s; v = takeWhile (\<lambda>c. \<not> isspace c) s1 in
     if v = [] then None else Some (v, dropWhile (\<lambda>c. \<not> isspace c) s1))"

definition scan_taco :: "string \<Rightarrow> string option \<times> string option" where
  "scan_taco s = (case scan_word s of None \<Rightarrow> (None, None)
     | Some (_, s1) \<Rightarrow> (case scan_word s1 of None \<Rightarrow> (None, None)
     | Some (_, s2) \<Rightarrow>
         (let s3 = dropWhile isspace s2; m1 = takeWhile (\<lambda>c. c \<noteq> CHR ''/'') s3;
              s4 = dropWhile (\<lambda>c. c \<noteq> CHR ''/'') s3
          in if m1 = [] then (None, None)
             else (Some m1, if s4 = [] then None else map_option fst (scan_word (tl s4))))))"

definition gsm_get_channel_mask :: "int gm" where
  "gsm_get_channel_mask = gbind (gets (\<lambda>w. files w ''/proc/driver/taco'')) (\<lambda>f. case f of
       None \<Rightarrow> ret (- 1)
     | Some content \<Rightarrow> (case scan_taco content of
         (Some m1, Some m2) \<Rightarrow>
           gthen (into_buffer GSM_MAX_STR m1) (gthen (into_buffer GSM_MAX_STR m2)
             (ret ((if strncmp_prefix ''GSM'' m1 then 0x03 else 0) OR
                   (if strncmp_prefix ''GSM'' m2 then 0x30 else 0))))
       | (Some m1, None) \<Rightarrow> gthen (into_buffer GSM_MAX_STR m1) (ret (- 2))
       | (None, _) \<Rightarrow> ret (- 2)))"

definition gsm_get_channel_offset :: "int gm" where
  "gsm_get_channel_offset =
     gthen (gbind (gets channel_mask) (\<lambda>m. if m < 0
              then gbind gsm_get_channel_mask (\<lambda>m'. modify (\<lambda>w. w\<lparr>channel_mask := m'\<rparr>))
              else ret ()))
           (gbind (gets channel_mask) (\<lambda>m. ret (if m = 0x30 then 4 else 0)))"

definition gsm_translate_channel :: "int \<Rightarrow> (int \<times> int option) gm" where
  "gsm_translate_channel channel_id = gbind gsm_get_channel_offset (\<lambda>off.
     if channel_id \<ge> 1 \<and> channel_id \<le> 4
     then ret (0, Some ([1, 2, 5, 6] ! nat (channel_id - 1) + off))
     else ret (- 1, None))"

definition gsm_audio_close :: "int \<Rightarrow> unit gm" where
  "gsm_audio_close p = gbind (getctlport p) (\<lambda>ctl. deref ctl (\<lambda>i.
     gbind (ctl_get i) (\<lambda>c. emit (Closed (cp_fd c)))))"

definition gsm_get_priv :: "int \<Rightarrow> nat option gm" where
  "gsm_get_priv p = gbind (getctlport p) (\<lambda>ctl. deref ctl (\<lambda>i.
     gbind (ctl_get i) (\<lambda>c. ret (cp_priv c))))"

definition gsm_put_priv :: "int \<Rightarrow> nat option \<Rightarrow> unit gm" where
  "gsm_put_priv p q = gbind (getctlport p) (\<lambda>ctl. deref ctl (\<lambda>i.
     ctl_upd i (\<lambda>c. c\<lparr>cp_priv := q\<rparr>)))"

definition gsm_masq_priv :: "nat option \<Rightarrow> nat option \<Rightarrow> unit gm" where
  "gsm_masq_priv oldpriv newpriv = gbind (getctlport_bypriv oldpriv) (\<lambda>ctl. case ctl of
       Some i \<Rightarrow> ctl_upd i (\<lambda>c. c\<lparr>cp_priv := newpriv\<rparr>)
     | None \<Rightarrow> ret ())"


section \<open>Watchdog timers and the permission to send\<close>

definition gsm_start_check_timer :: "int \<Rightarrow> unit gm" where
  "gsm_start_check_timer p = gbind (gsm_port_is_valid p) (\<lambda>v. if \<not> v then ret ()
     else gbind (timer_get p) (\<lambda>t.
       gbind (if t = INVALID_TIMER_ID then timer_create p else ret 0) (\<lambda>st.
         if st < 0 then ret ()
         else gthen (timer_settime p GSM_WAIT_TIMEOUT) (ret ()))))"

definition gsm_stop_check_timer :: "int \<Rightarrow> unit gm" where
  "gsm_stop_check_timer p = gbind (gsm_port_is_valid p) (\<lambda>v. if \<not> v then ret ()
     else gbind (timer_get p) (\<lambda>t. if t = INVALID_TIMER_ID then ret ()
       else gthen (timer_settime p 0) (ret ())))"

definition gsm_destroy_check_timer :: "int \<Rightarrow> unit gm" where
  "gsm_destroy_check_timer p = gbind (gsm_port_is_valid p) (\<lambda>v. if \<not> v then ret ()
     else gbind (timer_get p) (\<lambda>t. if t = INVALID_TIMER_ID then ret ()
       else gthen (gsm_stop_check_timer p) (timer_put p INVALID_TIMER_ID)))"

text \<open>
  \<open>gsm_post_next_msg\<close> reads the value of \<open>avail_sem\<close> (\<open>gsm_post_check\<close>) and posts
  it when the value is 0 (\<open>gsm_post_grant\<close>); another thread may run between the two.
\<close>

definition gsm_post_check :: "int \<Rightarrow> bool gm" where
  "gsm_post_check p = gbind (getctlport p) (\<lambda>ctl. gbind (gsm_port_is_valid p) (\<lambda>v.
     if \<not> v then ret False
     else deref ctl (\<lambda>i. gbind (ctl_get i) (\<lambda>c.
       gbind (sem_get avail_sem (cp_port c)) (\<lambda>m_count. ret (m_count = Some 0))))))"

definition gsm_post_grant :: "int \<Rightarrow> unit gm" where
  "gsm_post_grant p = gthen (gsm_stop_check_timer p) (sem_post avail_sem p)"

definition gsm_post_next_msg :: "int \<Rightarrow> unit gm" where
  "gsm_post_next_msg p =
     gbind (gsm_post_check p) (\<lambda>free. if free then gsm_post_grant p else ret ())"

definition gsm_check_timer_expired :: "int \<Rightarrow> unit gm" where
  "gsm_check_timer_expired p = gbind (gsm_port_is_valid p) (\<lambda>v. if \<not> v then ret ()
     else gsm_post_next_msg p)"


section \<open>Exchange with a module\<close>

text \<open>
  \<open>gsm_close_port\<close>: \<open>fclose\<close> of both streams; one that fails to close is kept.
\<close>

definition gsm_close_port :: "int \<Rightarrow> unit gm" where
  "gsm_close_port p =
     gthen (gbind (ctl_get p) (\<lambda>c. case fpw c of None \<Rightarrow> ret ()
              | Some fd \<Rightarrow> gbind ask (\<lambda>r. if r < 0 then ret ()
                  else gthen (emit (Closed fd)) (ctl_upd p (\<lambda>c. c\<lparr>fpw := None\<rparr>)))))
           (gbind (ctl_get p) (\<lambda>c. case fpr c of None \<Rightarrow> ret ()
              | Some fd \<Rightarrow> gbind ask (\<lambda>r. if r < 0 then ret ()
                  else gthen (emit (Closed fd)) (ctl_upd p (\<lambda>c. c\<lparr>fpr := None\<rparr>)))))"

definition wait4mod :: "int \<Rightarrow> bool \<Rightarrow> int gm" where
  "wait4mod i for_write = gbind (ctl_get i) (\<lambda>c. case (fpw c, fpr c) of
       (Some fw, Some fr) \<Rightarrow>
         if (if for_write then fw else fr) < 0 then ret (- 1)
         else gbind ask (\<lambda>r. ret (if r = 0 then - 1 else if r < 0 then - 2 else 1))
     | _ \<Rightarrow> ret (- 1))"

definition wait4mod_r :: "int \<Rightarrow> int gm" where
  "wait4mod_r i = wait4mod i False"

definition wait4mod_w :: "int \<Rightarrow> int gm" where
  "wait4mod_w i = wait4mod i True"

definition gsm_send_raw :: "int \<Rightarrow> string \<Rightarrow> int gm" where
  "gsm_send_raw p s = gbind (getctlport p) (\<lambda>ctl. case ctl of
       None \<Rightarrow> ret (- 1)
     | Some i \<Rightarrow> gbind (wait4mod_w i) (\<lambda>r. if r < 0
         then gbind (ctl_get i) (\<lambda>c. gthen (gsm_close_port (cp_port c)) (ret (- 1)))
         else gbind (ctl_get i) (\<lambda>c.
           gthen (if fpw c \<noteq> None then fputs (cut_at LF s) (fpw c) else ret ()) (ret 0))))"

text \<open>
  \<open>gsm_send\<close> puts the command in the queue of the port (\<open>gsm_send_enqueue\<close>, up to
  \<open>msgsnd\<close>), then posts \<open>write_sem\<close>. Between the two the writer thread may run.
\<close>

definition gsm_send_enqueue :: "int \<Rightarrow> string \<Rightarrow> int gm" where
  "gsm_send_enqueue p s = gbind (getctlport p) (\<lambda>ctl.
     gthen (into_buffer (GSM_CMD_LENGTH + 1) s) (deref ctl (\<lambda>i. gbind (ctl_get i) (\<lambda>c.
       gbind (msgsnd (write_mq_id c) s) (\<lambda>r. if r < 0 then ret (- 1)
         else gthen (ctl_upd i (\<lambda>c. c\<lparr>cp_modem := MODEM_WAIT_FOR_RESPONSE\<rparr>)) (ret 0))))))"

definition gsm_send :: "int \<Rightarrow> string \<Rightarrow> int gm" where
  "gsm_send p s = gbind (gsm_send_enqueue p s) (\<lambda>r. if r < 0 then ret (- 1)
     else gthen (sem_post write_sem p) (ret 0))"

definition gsm_send_command :: "int \<Rightarrow> string \<Rightarrow> int gm" where
  "gsm_send_command p s = gbind (getctlport p) (\<lambda>ctl. deref ctl (\<lambda>i.
     gthen (ctl_upd i (\<lambda>c. c\<lparr>last_cmd_sent := take GSM_CMD_LENGTH s\<rparr>))
       (gbind (into_buffer (GSM_CMD_LENGTH + 3) (s @ [CR, LF])) (\<lambda>msg.
         gthen (gsm_send_raw p msg) (ret 0)))))"

text \<open>
  The reading loop of \<open>send_expect\<close> on the bytes of the module, \<open>eof\<close> saying whether its stream
  has ended: the return value, the response it stores, and the bytes that are left. Where \<open>fgets\<close>
  blocks, so does the loop: the caller is the thread that would read more.
\<close>

function expect_loop ::
  "bool \<Rightarrow> string \<Rightarrow> string \<Rightarrow> bool \<Rightarrow> string \<Rightarrow> (int \<times> string option \<times> string) run"
where
  "expect_loop eof send exp wait inp = (if fgets_blocks eof 255 inp then Hang else case fgets 255 inp of
       None \<Rightarrow> Ret (- 1, None, inp)
     | Some (raw, rest) \<Rightarrow>
         if strcasecmp (line_text raw) send = 0 then expect_loop eof send exp wait rest
         else if strcasecmp (line_text raw) exp = 0 then Ret (1, None, rest)
         else if wait then
           (if strstr (line_text raw) ''KILLME'' then Ret (0, None, rest)
            else expect_loop eof send exp wait rest)
         else Ret (0, Some (line_text raw), rest))"
  by pat_completeness auto
termination
  by (relation "measure (\<lambda>(_, _, _, _, inp). length inp)") (auto dest: fgets_progress)

declare expect_loop.simps [simp del]

text \<open>
  \<open>send_expect\<close>: the return value, and the response where the caller passes a pointer for
  one. With an empty command the array \<open>send\<close> is compared uninitialised.
\<close>

definition read_answer :: "int \<Rightarrow> string \<Rightarrow> string \<Rightarrow> bool \<Rightarrow> (int \<times> string option) gm" where
  "read_answer i s exp wait =
     gbind (\<lambda>w. run_map (\<lambda>x. (x, w)) (expect_loop (modem_eof w (nat i)) (if s = [] then junk w else s) exp wait
                                       (modem_in w (nat i)))) (\<lambda>(res, resp, rest).
       gthen (modify (\<lambda>w. w\<lparr>modem_in := (modem_in w)(nat i := rest)\<rparr>)) (ret (res, resp)))"

definition send_expect :: "int \<Rightarrow> string \<Rightarrow> string \<Rightarrow> bool \<Rightarrow> (int \<times> string option) gm" where
  "send_expect i s exp wait =
     gbind (if s = [] then ret True
            else gbind (wait4mod_w i) (\<lambda>r. gbind (ctl_get i) (\<lambda>c. if r < 0
                then gthen (gsm_close_port (cp_port c)) (ret False)
                else gthen (fputs s (fpw c)) (gthen (fputs [CR, LF] (fpw c)) (ret True)))))
       (\<lambda>writable. if \<not> writable then ret (- 1, None)
        else gbind (wait4mod_r i) (\<lambda>r. gbind (ctl_get i) (\<lambda>c. if r < 0
          then gthen (if r = - 2 then gsm_close_port (cp_port c) else ret ()) (ret (- 1, None))
          else if fpr c = None then fault
          else read_answer i s exp wait)))"


section \<open>Gains\<close>

definition cfg_rx_gain :: "int option \<Rightarrow> int gm" where
  "cfg_rx_gain cfg = (case cfg of None \<Rightarrow> ret 0 | Some k \<Rightarrow> gbind (cfg_get k) (\<lambda>g. ret (rx_gain g)))"

definition cfg_tx_gain :: "int option \<Rightarrow> int gm" where
  "cfg_tx_gain cfg = (case cfg of None \<Rightarrow> ret 0 | Some k \<Rightarrow> gbind (cfg_get k) (\<lambda>g. ret (tx_gain g)))"

text \<open>The body both functions share: the command to the radio, then the request to the codec.\<close>

definition apply_gain :: "int option \<Rightarrow> int \<Rightarrow> string \<Rightarrow> int \<Rightarrow> gain_tbl_entry option \<Rightarrow> unit gm" where
  "apply_gain ctl fdw cmd req entry = (case entry of None \<Rightarrow> ret ()
     | Some e \<Rightarrow> deref ctl (\<lambda>i.
         gthen (send_expect i (cmd @ itoa (radio_value e)) ''OK'' True)
               (gthen (ioctl fdw req (codec_value e)) (ret ()))))"

definition gsm_set_rx_gain :: "int \<Rightarrow> int option \<Rightarrow> unit gm" where
  "gsm_set_rx_gain p cfg = gbind (getctlport p) (\<lambda>ctl. gbind (ctl_get p) (\<lambda>c. case fpw c of
       None \<Rightarrow> ret ()
     | Some fdw \<Rightarrow> if fdw < 0 then ret ()
         else gbind (cfg_rx_gain cfg) (\<lambda>g. apply_gain ctl fdw ''AT+CLVL='' GSM_SET_TX_GAIN
           (gain_lookup gsm_rx_gain_table (rx_gain_idx g)))))"

definition gsm_set_tx_gain :: "int \<Rightarrow> int option \<Rightarrow> unit gm" where
  "gsm_set_tx_gain p cfg = gbind (getctlport p) (\<lambda>ctl. gbind (ctl_get p) (\<lambda>c. case fpw c of
       None \<Rightarrow> ret ()
     | Some fdw \<Rightarrow> if fdw < 0 then ret ()
         else gbind (cfg_tx_gain cfg) (\<lambda>g. apply_gain ctl fdw ''AT+CMIC=0,'' GSM_SET_RX_GAIN
           (gain_lookup gsm_tx_gain_table (tx_gain_idx g)))))"


lemma port_indices_eval: "port_indices = [1, 2, 3, 4, 5, 6, 7, 8, 9, 10, 11, 12, 13, 14, 15, 16, 17, 18,
    19, 20, 21, 22, 23, 24, 25, 26, 27, 28, 29, 30, 31]"
  by code_simp

lemma expect_loop_end: "expect_loop True s e b [] = Ret (- 1, None, [])"
  by (simp add: expect_loop.simps fgets_def)

lemma wp_read_answer [wp]:
  "wp (read_answer i s exp wait) Q w \<longleftrightarrow>
     (\<exists>r resp rest. expect_loop (modem_eof w (nat i)) (if s = [] then junk w else s) exp wait (modem_in w (nat i)) =
        Ret (r, resp, rest) \<and> Q (r, resp) (w\<lparr>modem_in := (modem_in w)(nat i := rest)\<rparr>))"
  by (cases "expect_loop (modem_eof w (nat i)) (if s = [] then junk w else s) exp wait (modem_in w (nat i))")
     (auto simp: read_answer_def wp_def gbind_def gthen_def modify_def ret_def)

lemmas [geval] = getctlport_def port_indices_eval deref_def gsm_port_is_valid_def gsm_start_check_timer_def
  gsm_stop_check_timer_def gsm_destroy_check_timer_def gsm_post_next_msg_def gsm_post_check_def
  gsm_post_grant_def gsm_close_port_def wait4mod_def wait4mod_r_def wait4mod_w_def gsm_send_raw_def
  gsm_send_enqueue_def gsm_send_def gsm_send_command_def send_expect_def expect_loop_end cfg_rx_gain_def
  cfg_tx_gain_def apply_gain_def gsm_set_rx_gain_def gsm_set_tx_gain_def rx_gain_idx_def tx_gain_idx_def
  gain_limits

end
