(* ===== verification/Gsmctl_Port.thy ===== *)
theory Gsmctl_Port
  imports Gsmctl
begin

text \<open>
  The second half of \<open>gsmctl.c\<close>: the initialisation of a module (\<open>init_mod\<close>), the writer
  and the reader thread as step functions, the information kept of a module, and
  the start and the end of a port and of the library.
\<close>


section \<open>Initialisation of a module\<close>

text \<open>The lines \<open>fgets (line, 255, fp)\<close> reads from a file, one after the other.\<close>

function file_lines :: "string \<Rightarrow> string list" where
  "file_lines s = (case fgets 255 s of None \<Rightarrow> []
     | Some (l, rest) \<Rightarrow> cut_at NUL l # file_lines rest)"
  by pat_completeness auto
termination
  by (relation "measure length") (auto dest: fgets_progress)

declare file_lines.simps [simp del]

text \<open>
  \<open>sscanf (line, "%s\t%s\t%d\t%d", ...)\<close>: the values it converts. What it does not
  convert stays uninitialised. The delay only sets a sleep.
\<close>

definition scan_init_line :: "string \<Rightarrow> string option \<times> string option \<times> int option" where
  "scan_init_line line = (case scan_word line of None \<Rightarrow> (None, None, None)
     | Some (cmd, s1) \<Rightarrow> (case scan_word s1 of None \<Rightarrow> (Some cmd, None, None)
     | Some (expect, s2) \<Rightarrow> (case signed_number s2 of
           (None, _) \<Rightarrow> (Some cmd, Some expect, None)
         | (Some delay, s3) \<Rightarrow> (Some cmd, Some expect, fst (signed_number s3)))))"

text \<open>
  The pointer \<open>resp\<close> of \<open>init_mod\<close>: NULL, allocated by \<open>strdup\<close>, or already passed to
  \<open>free\<close>, which nothing resets.
\<close>

datatype resp_ptr = Resp_null | Resp_live | Resp_freed

definition free_resp :: "resp_ptr \<Rightarrow> resp_ptr gm" where
  "free_resp p = (case p of Resp_null \<Rightarrow> ret Resp_null | Resp_live \<Rightarrow> ret Resp_freed
     | Resp_freed \<Rightarrow> fault)"

definition is_at_line :: "string \<Rightarrow> bool" where
  "is_at_line line \<longleftrightarrow> map tolower (take 2 line) = ''at''"

primrec init_file_loop :: "int \<Rightarrow> string list \<Rightarrow> resp_ptr \<Rightarrow> resp_ptr gm" where
  "init_file_loop i [] p = ret p"
| "init_file_loop i (line # ls) p =
     (if is_at_line line then
        gbind (gets (\<lambda>w. case scan_init_line line of (cmd, expect, wait) \<Rightarrow>
            (case cmd of None \<Rightarrow> junk w | Some s \<Rightarrow> s,
             case expect of None \<Rightarrow> junk w | Some s \<Rightarrow> s,
             case wait of None \<Rightarrow> junk_int w | Some n \<Rightarrow> n))) (\<lambda>(cmd, expect, wait).
          gbind (send_expect i cmd expect (wait \<noteq> 0)) (\<lambda>(r, resp).
            gbind (ret (if resp \<noteq> None then Resp_live else p)) (\<lambda>p1.
              if r \<le> 0 then gbind (free_resp p1) (\<lambda>p2. init_file_loop i ls p2)
              else init_file_loop i ls p1)))
      else init_file_loop i ls p)"

text \<open>A command the initialisation sends and waits for, ignoring the outcome.\<close>

definition at_ok :: "int \<Rightarrow> string \<Rightarrow> unit gm" where
  "at_ok i cmd = gthen (send_expect i cmd ''OK'' True) (ret ())"

primrec at_all :: "int \<Rightarrow> string list \<Rightarrow> unit gm" where
  "at_all i [] = ret ()"
| "at_all i (cmd # cmds) = gthen (at_ok i cmd) (at_all i cmds)"

definition sms_mode :: "int \<Rightarrow> gsm_config \<Rightarrow> unit gm" where
  "sms_mode i g = at_ok i (if sms_pdu_mode g \<noteq> 0 then ''AT+CMGF=0'' else ''AT+CMGF=1'')"

definition sms_center :: "int \<Rightarrow> gsm_config \<Rightarrow> unit gm" where
  "sms_center i g =
     (if smsc g \<noteq> [] \<and> strcasecmp (smsc g) ''none'' \<noteq> 0
      then gbind (into_buffer 256 (''AT+CSCA='' @ [CHR 0x22] @ smsc g @ [CHR 0x22])) (at_ok i)
      else ret ())"

text \<open>The PIN: whether the module answered something else than \<open>OK\<close>.\<close>

definition send_pin :: "int \<Rightarrow> gsm_config \<Rightarrow> bool gm" where
  "send_pin i g =
     (if strcasecmp (pin g) ''none'' \<noteq> 0
      then gbind (into_buffer 256 (''AT+CPIN='' @ [CHR 0x22] @ pin g @ [CHR 0x22])) (\<lambda>buf.
        gbind (send_expect i buf ''OK'' False) (\<lambda>(r, _). ret (r = 0)))
      else ret False)"

definition default_init_commands :: "string list" where
  "default_init_commands =
     [''AT&C0'', ''ATE0'', ''AT+CREG=1'', ''AT+CREG?'', ''AT+SIDET=0'', ''AT+CSDT=1'',
      ''AT+CSMINS=1'', ''AT+CLIP=1'']"

text \<open>The two ways to initialise: by the commands of a file, and by default.\<close>

definition init_from_file :: "int \<Rightarrow> gsm_config \<Rightarrow> string \<Rightarrow> int gm" where
  "init_from_file i g content =
     gthen (init_file_loop i (file_lines content) Resp_null)
     (gthen (send_pin i g)
     (gthen (sms_mode i g)
     (gthen (sms_center i g) (ret 0))))"

definition init_default :: "int \<Rightarrow> gsm_config \<Rightarrow> int gm" where
  "init_default i g =
     gthen (at_all i default_init_commands)
     (gthen (sms_mode i g)
     (gthen (sms_center i g)
     (gbind (send_pin i g) (\<lambda>wrong. ret (if wrong then - EWRONGPIN else 0)))))"

definition init_commands :: "int \<Rightarrow> gsm_config \<Rightarrow> string option \<Rightarrow> int gm" where
  "init_commands i g fp =
     gthen (wait4mod_w i)
     (gthen (send_expect i [] ''Call Ready'' False)
     (gthen (send_expect i ''AT'' ''OK'' False)
     (case fp of Some content \<Rightarrow> init_from_file i g content | None \<Rightarrow> init_default i g)))"

definition init_mod :: "int \<Rightarrow> int gm" where
  "init_mod i = gbind (ctl_get i) (\<lambda>ctl. deref (cp_cfg ctl) (\<lambda>k. gbind (cfg_get k) (\<lambda>g.
     gbind (gets (\<lambda>w. if initfile g \<noteq> [] then files w (initfile g) else None)) (\<lambda>fp.
     gbind (init_commands i g fp) (\<lambda>r. if r < 0 then ret r
       else gthen (gsm_set_rx_gain (cp_port ctl) (cp_cfg ctl))
              (gthen (gsm_set_tx_gain (cp_port ctl) (cp_cfg ctl)) (ret 0)))))))"

definition init_mod_port :: "int \<Rightarrow> int gm" where
  "init_mod_port p = gbind (getctlport p) (\<lambda>ctl. case ctl of
       Some i \<Rightarrow> init_mod i
     | None \<Rightarrow> ret (- ENODEV))"


section \<open>The writer thread\<close>

definition set_writer :: "int \<Rightarrow> writer_pc \<Rightarrow> unit gm" where
  "set_writer i pc = modify (\<lambda>w. w\<lparr>writer := (writer w)(nat i := pc)\<rparr>)"

text \<open>Whether \<open>sem_wait\<close> would block.\<close>

definition would_block :: "semaphore \<Rightarrow> int \<Rightarrow> bool gm" where
  "would_block s p = gbind (sem_get s p) (\<lambda>v. ret (v = Some 0))"

text \<open>
  The loop iteration after \<open>avail_sem\<close>, in three steps: the check of the state, the write, and what
  follows it, the count and the watchdog timer.
\<close>

definition write_check :: "int \<Rightarrow> string \<Rightarrow> unit gm" where
  "write_check i m = gbind (ctl_get i) (\<lambda>c.
     set_writer i (if cp_state c = CTLPORT_STATE_KILLME then W_done else W_write m))"

definition write_command :: "int \<Rightarrow> string \<Rightarrow> unit gm" where
  "write_command i m = gbind (ctl_get i) (\<lambda>c.
     gthen (gsm_send_command (cp_port c) m) (set_writer i W_sent))"

definition write_finish :: "int \<Rightarrow> unit gm" where
  "write_finish i = gbind (ctl_get i) (\<lambda>c.
     gthen (ctl_upd i (\<lambda>c. c\<lparr>msg_count := msg_count c + 1\<rparr>))
     (gthen (gsm_start_check_timer (cp_port c)) (set_writer i W_head)))"

text \<open>\<open>sem_wait\<close> where it does not block, and the point the thread is at afterwards.\<close>

definition wait_then :: "int \<Rightarrow> semaphore \<Rightarrow> int \<Rightarrow> writer_pc \<Rightarrow> bool gm" where
  "wait_then i s p pc = gbind (would_block s p) (\<lambda>b. if b then ret False
     else gthen (sem_wait s p) (gthen (set_writer i pc) (ret True)))"

text \<open>\<open>write_thread\<close> from one point of interference to the next; the result is whether it ran.\<close>

definition writer_at :: "int \<Rightarrow> ctlport \<Rightarrow> writer_pc \<Rightarrow> bool gm" where
  "writer_at i c pc = (case pc of
       W_head \<Rightarrow> gthen (set_writer i (if cp_state c \<noteq> CTLPORT_STATE_KILLME then W_wait else W_done))
                       (ret True)
     | W_wait \<Rightarrow> wait_then i write_sem (cp_port c) W_woken
     | W_woken \<Rightarrow> (if cp_state c = CTLPORT_STATE_KILLME
         then gthen (set_writer i W_done) (ret True)
         else gbind (msgrcv (write_mq_id c)) (\<lambda>r.
           gthen (set_writer i (case r of Some m \<Rightarrow> W_avail m | None \<Rightarrow> W_head)) (ret True)))
     | W_avail m \<Rightarrow> wait_then i avail_sem (cp_port c) (W_send m)
     | W_send m \<Rightarrow> gthen (write_check i m) (ret True)
     | W_write m \<Rightarrow> gthen (write_command i m) (ret True)
     | W_sent \<Rightarrow> gthen (write_finish i) (ret True)
     | W_none \<Rightarrow> ret False
     | W_done \<Rightarrow> ret False)"

definition writer_step :: "int \<Rightarrow> bool gm" where
  "writer_step i =
     gbind (ctl_get i) (\<lambda>c. gbind (gets (\<lambda>w. writer w (nat i))) (\<lambda>pc. writer_at i c pc))"


section \<open>The reader thread\<close>

definition gsm_check_response :: "string \<Rightarrow> bool" where
  "gsm_check_response cmd \<longleftrightarrow>
     strstr cmd ''OK'' \<or> strstr cmd ''BUSY'' \<or> strstr cmd ''NO CARRIER'' \<or>
     strstr cmd ''ERROR'' \<or> strstr cmd ''CMS_ERROR'' \<or> strstr cmd ''CME_ERROR''"

definition errtostr :: "string list" where
  "errtostr = [''Module initialization error 0'', ''Module initialization error'',
     ''WRONG PIN/ SIM Not Present'']"

definition set_reader :: "int \<Rightarrow> reader_pc \<Rightarrow> unit gm" where
  "set_reader i pc = modify (\<lambda>w. w\<lparr>reader := (reader w)(nat i := pc)\<rparr>)"

definition event :: "int \<Rightarrow> string \<Rightarrow> unit gm" where
  "event p s = gbind (gets cbEvents) (\<lambda>cb. if cb then emit (Event p s) else ret ())"

primrec send_list :: "int \<Rightarrow> string list \<Rightarrow> unit gm" where
  "send_list p [] = ret ()"
| "send_list p (s # ss) = gthen (gsm_send p s) (send_list p ss)"

definition initial_queries :: "string list" where
  "initial_queries = [''AT+GSN'', ''AT+CSMINS?'', ''AT+CREG?'', ''AT+GMR'']"

text \<open>\<open>read_thread\<close> up to its loop: \<open>r\<close> is the result of \<open>init_mod\<close>.\<close>

definition errtostr_get :: "int \<Rightarrow> string gm" where
  "errtostr_get k = (\<lambda>w. run_map (\<lambda>t. (t, w)) (arr_get errtostr k))"

definition read_thread_ready :: "int \<Rightarrow> int \<Rightarrow> unit gm" where
  "read_thread_ready i r = gbind (ctl_get i) (\<lambda>c.
     if r < 0 \<or> fpr c = None then
       gthen (sem_post ready (cp_port c))
       (gbind (errtostr_get (- r)) (\<lambda>text.
         gthen (event (cp_port c) (''GSMINIT: PORT NOT INITIALIZED: '' @ text))
               (set_reader i R_done)))
     else gbind ask (\<lambda>line. if line < 0 then set_reader i R_done
       else gthen (sem_post ready (cp_port c))
           (gthen (send_list (cp_port c) initial_queries)
           (gthen (event (cp_port c) ''GSMINIT: PORT INITIALIZED'')
                  (set_reader i R_loop)))))"

definition read_thread_start :: "int \<Rightarrow> unit gm" where
  "read_thread_start i = gbind (init_mod i) (read_thread_ready i)"

text \<open>
  The reading of the prompt of an SMS: the first two characters that follow line ends. At the end of the stream
  \<open>fgetc\<close> gives \<open>EOF\<close>, stored as the character 0xFF; before it, \<open>fgetc\<close> blocks until the
  characters are there.
\<close>

definition prompt_blocks :: "bool \<Rightarrow> string \<Rightarrow> bool" where
  "prompt_blocks eof inp \<longleftrightarrow> \<not> eof \<and> length (dropWhile (\<lambda>c. c = LF \<or> c = CR) inp) < 2"

definition sms_prompt :: "string \<Rightarrow> string \<times> string" where
  "sms_prompt inp = (let s = dropWhile (\<lambda>c. c = LF \<or> c = CR) inp;
       c0 = (case s of [] \<Rightarrow> CHR 0xFF | c # _ \<Rightarrow> c);
       s1 = drop 1 s;
       c1 = (case s1 of [] \<Rightarrow> CHR 0xFF | c # _ \<Rightarrow> c)
     in (cut_at NUL [c0, c1], drop 1 s1))"

text \<open>One iteration of the loop: what was read is checked and reported.\<close>

definition take_input :: "int \<Rightarrow> string \<Rightarrow> unit gm" where
  "take_input i rest = modify (\<lambda>w. w\<lparr>modem_in := (modem_in w)(nat i := rest)\<rparr>)"

definition report_line :: "int \<Rightarrow> string \<Rightarrow> unit gm" where
  "report_line i line = gbind (ctl_get i) (\<lambda>c.
     gthen (if cp_modem c = MODEM_WAIT_FOR_RESPONSE \<and> gsm_check_response line
            then ctl_upd i (\<lambda>c. c\<lparr>cp_modem := MODEM_RECEIVED_RESPONSE\<rparr>) else ret ())
           (gthen (event (cp_port c) line) (set_reader i R_loop)))"

text \<open>
  The prompt is read in a step of its own: the thread has seen the state SMS before, and sets the state
  when it has the two characters, whatever the state is then. The result of both functions is
  whether the thread ran; it did not when the read blocks.
\<close>

definition read_prompt :: "int \<Rightarrow> bool gm" where
  "read_prompt i = gbind (ctl_get i) (\<lambda>c. gbind (gets (\<lambda>w. (modem_eof w (nat i), modem_in w (nat i)))) (\<lambda>(eof, inp).
     if fpr c = None then fault
     else if prompt_blocks eof inp then ret False
     else (case sms_prompt inp of (line, rest) \<Rightarrow> gthen (take_input i rest)
       (gthen (ctl_upd i (\<lambda>c. c\<lparr>cp_state := CTLPORT_STATE_NONE\<rparr>)) (gthen (report_line i line) (ret True))))))"

definition read_iteration :: "int \<Rightarrow> bool gm" where
  "read_iteration i = gbind (ctl_get i) (\<lambda>c. gbind (gets (\<lambda>w. (modem_eof w (nat i), modem_in w (nat i)))) (\<lambda>(eof, inp).
     if cp_state c = CTLPORT_STATE_SMS then gthen (set_reader i R_prompt) (ret True)
     else if fpr c = None then fault
     else if fgets_blocks eof (LINE_BUFFER_SIZE - 1) inp then ret False
     else (case fgets (LINE_BUFFER_SIZE - 1) inp of
         None \<Rightarrow> gthen (set_reader i R_done) (ret True)
       | Some (raw, rest) \<Rightarrow> gthen (take_input i rest) (gthen (report_line i (line_text raw)) (ret True)))))"

text \<open>
  \<open>read_thread\<close>: its start, the check at the head of its loop, an iteration, the prompt.
\<close>

definition reader_step :: "int \<Rightarrow> bool gm" where
  "reader_step i = gbind (ctl_get i) (\<lambda>c. gbind (gets (\<lambda>w. reader w (nat i))) (\<lambda>pc. case pc of
       R_start \<Rightarrow> gthen (read_thread_start i) (ret True)
     | R_loop \<Rightarrow> gthen (set_reader i (if cp_state c \<noteq> CTLPORT_STATE_KILLME then R_read else R_done))
                       (ret True)
     | R_read \<Rightarrow> read_iteration i
     | R_prompt \<Rightarrow> read_prompt i
     | _ \<Rightarrow> ret False))"


section \<open>Information kept of a module\<close>

definition ctl_info :: "(ctlport \<Rightarrow> string) \<Rightarrow> int \<Rightarrow> string gm" where
  "ctl_info f p = gbind (getctlport p) (\<lambda>ctl. case ctl of
       Some i \<Rightarrow> gbind (ctl_get i) (\<lambda>c. ret (f c))
     | None \<Rightarrow> ret ''INVALID'')"

definition gsm_get_imei_number :: "int \<Rightarrow> string gm" where
  "gsm_get_imei_number p = ctl_info imei p"

definition gsm_get_imsi_number :: "int \<Rightarrow> string gm" where
  "gsm_get_imsi_number p = ctl_info imsi p"

definition gsm_get_firmware_info :: "int \<Rightarrow> string gm" where
  "gsm_get_firmware_info p = ctl_info fw_rev_info p"

definition gsm_get_last_command :: "int \<Rightarrow> string gm" where
  "gsm_get_last_command p = ctl_info last_cmd_sent p"

definition gsm_handle_unknown_event :: "int \<Rightarrow> string \<Rightarrow> unit gm" where
  "gsm_handle_unknown_event p ev = gbind (getctlport p) (\<lambda>ctl. deref ctl (\<lambda>i.
     gbind (ctl_get i) (\<lambda>c.
       if last_cmd_sent c = ''AT+GSN'' then ctl_upd i (\<lambda>c. c\<lparr>imei := take IMEI_SZ ev\<rparr>)
       else if last_cmd_sent c = ''AT+CIMI'' then ctl_upd i (\<lambda>c. c\<lparr>imsi := take IMSI_SZ ev\<rparr>)
       else if last_cmd_sent c = ''AT+GMR'' then ctl_upd i (\<lambda>c. c\<lparr>fw_rev_info := take FW_REV_SZ ev\<rparr>)
       else if strstr ev ''*TENGMODE'' then emit (Verbose ev)
       else ret ())))"


section \<open>Start and end of a port\<close>

text \<open>
  \<open>gsm_init_port\<close> in the two parts another thread can see: up to \<open>pthread_create\<close>, and the
  initialisation of the semaphores, the timer and the queue that follows it.
\<close>

definition gsm_init_port_threads :: "int \<Rightarrow> int option \<Rightarrow> bool gm" where
  "gsm_init_port_threads p cfg =
     gthen (ctl_upd p (\<lambda>_. ctlport_zero\<lparr>cp_port := p\<rparr>))
     (gbind fopen_dev (\<lambda>fw. gthen (ctl_upd p (\<lambda>c. c\<lparr>fpw := fw\<rparr>))
     (gbind fopen_dev (\<lambda>fr. gthen (ctl_upd p (\<lambda>c. c\<lparr>fpr := fr, cp_cfg := cfg\<rparr>))
     (gthen (sem_init ready p 0)
     (if fw = None \<or> fr = None then ret False
      else gthen (set_reader p R_start) (gthen (set_writer p W_head) (ret True))))))))"

definition gsm_init_port_sems :: "int \<Rightarrow> unit gm" where
  "gsm_init_port_sems p =
     gthen (sem_init write_sem p 0)
     (gthen (sem_init avail_sem p 1)
     (gthen (timer_put p INVALID_TIMER_ID)
     (gbind (msgget p) (\<lambda>q. gthen (ctl_upd p (\<lambda>c. c\<lparr>write_mq_id := q\<rparr>))
       (ctl_upd p (\<lambda>c. c\<lparr>msg_count := 0\<rparr>))))))"

definition gsm_init_port :: "int \<Rightarrow> int option \<Rightarrow> int gm" where
  "gsm_init_port p cfg = gbind (gsm_init_port_threads p cfg) (\<lambda>ok.
     if \<not> ok then ret (- 1) else gthen (gsm_init_port_sems p) (ret 0))"

text \<open>
  \<open>pthread_join\<close>: the thread runs until it returns. Joining a thread that was never created is a
  fault; one that blocks for ever makes the caller hang. Where the state stays
  \<open>CTLPORT_STATE_KILLME\<close> a thread takes at most four steps; the fuel given is eight.
\<close>

definition join_fuel :: nat where "join_fuel = 8"

primrec join_writer :: "nat \<Rightarrow> int \<Rightarrow> unit gm" where
  "join_writer 0 i = gbind (gets (\<lambda>w. writer w (nat i))) (\<lambda>pc. if pc = W_done then ret () else hang)"
| "join_writer (Suc n) i = gbind (gets (\<lambda>w. writer w (nat i))) (\<lambda>pc.
     if pc = W_none then fault
     else if pc = W_done then ret ()
     else gbind (writer_step i) (\<lambda>ran. if ran then join_writer n i else hang))"

primrec join_reader :: "nat \<Rightarrow> int \<Rightarrow> unit gm" where
  "join_reader 0 i = gbind (gets (\<lambda>w. reader w (nat i))) (\<lambda>pc. if pc = R_done then ret () else hang)"
| "join_reader (Suc n) i = gbind (gets (\<lambda>w. reader w (nat i))) (\<lambda>pc.
     if pc = R_none then fault
     else if pc = R_done then ret ()
     else gbind (reader_step i) (\<lambda>ran. if ran then join_reader n i else hang))"

text \<open>
  The request \<open>GSM_KILLME\<close>: the kernel driver (\<open>pika_warp_gsm/pika-gsm.c\<close>) puts the line \<open>KILLME\<close>
  behind the bytes of the module.
\<close>

definition ioctl_killme :: "int \<Rightarrow> int \<Rightarrow> int gm" where
  "ioctl_killme i fd =
     gthen (modify (\<lambda>w. w\<lparr>modem_in := (modem_in w)(nat i := modem_in w (nat i) @ ''KILLME'' @ [CR, LF])\<rparr>))
           (ioctl fd GSM_KILLME 0)"

definition shutdown_reader :: "int \<Rightarrow> int option \<Rightarrow> unit gm" where
  "shutdown_reader p fr = (case fr of None \<Rightarrow> ret ()
     | Some fd \<Rightarrow> if fd < 0 then ret ()
         else gthen (ioctl_killme p fd)
             (gthen (gsm_send_raw p (''ATH'' @ [CR, LF])) (join_reader join_fuel p)))"

definition powercycle_radio :: "int \<Rightarrow> int \<Rightarrow> unit gm" where
  "powercycle_radio p powercycle = gbind (ctl_get p) (\<lambda>c. case fpw c of None \<Rightarrow> ret ()
     | Some fdw \<Rightarrow> if powercycle \<noteq> 0 \<and> fdw \<ge> 0
         then gthen (ioctl fdw GSM_POWERCYCLE_RADIO 1) (ret ()) else ret ())"

text \<open>The last part of \<open>gsm_shutdown_port\<close>, when both threads have returned.\<close>

definition shutdown_close :: "int \<Rightarrow> int \<Rightarrow> int gm" where
  "shutdown_close p powercycle =
     gthen (gsm_audio_stop p)
     (gthen (gsm_audio_close p)
     (gthen (powercycle_radio p powercycle)
     (gthen (gsm_close_port p)
     (gthen (sem_destroy ready p)
     (gthen (sem_destroy write_sem p)
     (gthen (sem_destroy avail_sem p)
     (gbind (ctl_get p) (\<lambda>c. gthen (msgctl_rmid (write_mq_id c))
     (gthen (ctl_upd p (\<lambda>c. c\<lparr>cp_state := CTLPORT_STATE_KILLED\<rparr>)) (ret 0))))))))))"

definition gsm_shutdown_port :: "int \<Rightarrow> int \<Rightarrow> int gm" where
  "gsm_shutdown_port p powercycle = gbind (getctlport p) (\<lambda>ctl. case ctl of None \<Rightarrow> ret (- 1)
     | Some _ \<Rightarrow> gbind (ctl_get p) (\<lambda>c. if cp_state c = CTLPORT_STATE_KILLED then ret 0
       else gthen (ctl_upd p (\<lambda>c. c\<lparr>cp_state := CTLPORT_STATE_KILLME\<rparr>))
           (gthen (gsm_destroy_check_timer p)
           (gthen (gsm_post_next_msg p)
           (gthen (sem_post write_sem p)
           (gthen (join_writer join_fuel p)
           (gthen (shutdown_reader p (fpr c)) (shutdown_close p powercycle))))))))"

definition gsm_wait_ready :: "int \<Rightarrow> int gm" where
  "gsm_wait_ready p = gthen (sem_wait ready p) (ret 0)"

definition gsm_wait_ready_with_timeout :: "unit gm \<Rightarrow> int \<Rightarrow> int gm" where
  "gsm_wait_ready_with_timeout others p = gbind ask (\<lambda>r.
     if r = 0 then sem_timedwait others ready p else ret r)"

definition gsm_do_ioctl :: "int \<Rightarrow> int \<Rightarrow> int \<Rightarrow> int gm" where
  "gsm_do_ioctl p cmd arg = gbind (getctlport p) (\<lambda>ctl. case ctl of
       None \<Rightarrow> ret 0
     | Some i \<Rightarrow> gbind (ctl_get i) (\<lambda>c. case fpw c of
         None \<Rightarrow> ret 0
       | Some fd \<Rightarrow> if fd \<le> 0 then ret (- 1) else ioctl fd cmd arg))"


section \<open>Start and end of the library\<close>

primrec init_ports :: "int list \<Rightarrow> int gm" where
  "init_ports [] = ret 0"
| "init_ports (i # is) = gbind (cfg_get i) (\<lambda>g.
     if cfg_port g \<noteq> 0 then gbind (gsm_init_port i (Some i)) (\<lambda>r.
       if r < 0 then ret (- 1) else init_ports is)
     else init_ports is)"

text \<open>A port that is not ready in time: the module is told to give up and the port is closed.\<close>

definition give_up_port :: "int \<Rightarrow> unit gm" where
  "give_up_port i = gbind (getctlport i) (\<lambda>ctl.
     gthen (case ctl of None \<Rightarrow> ret ()
            | Some j \<Rightarrow> gbind (ctl_get j) (\<lambda>c. case fpr c of None \<Rightarrow> ret ()
                | Some fd \<Rightarrow> gthen (ioctl_killme j fd) (ret ())))
     (gthen (gsm_close_port i)
       (modify (\<lambda>w. w\<lparr>gsm_cfg := (gsm_cfg w)[nat i := (gsm_cfg w ! nat i)\<lparr>cfg_port := 0\<rparr>]\<rparr>))))"

primrec await_ports :: "(int \<Rightarrow> unit gm) \<Rightarrow> int list \<Rightarrow> unit gm" where
  "await_ports others [] = ret ()"
| "await_ports others (i # is) = gbind (cfg_get i) (\<lambda>g.
     if cfg_port g \<noteq> 0 then gbind (gsm_wait_ready_with_timeout (others i) i) (\<lambda>r.
       gthen (if r < 0 then give_up_port i else ret ()) (await_ports others is))
     else await_ports others is)"

primrec query_ports :: "int list \<Rightarrow> unit gm" where
  "query_ports [] = ret ()"
| "query_ports (i # is) = gbind (cfg_get i) (\<lambda>g.
     gthen (if cfg_port g \<noteq> 0 then gthen (gsm_send i ''AT+CREG?'') (ret ()) else ret ())
           (query_ports is))"

text \<open>\<open>others i\<close> is what the threads do while the caller waits for port \<open>i\<close>.\<close>

definition gsm_init :: "(int \<Rightarrow> unit gm) \<Rightarrow> bool \<Rightarrow> gsm_config list \<Rightarrow> int \<Rightarrow> int gm" where
  "gsm_init others cb cfgs sysdebug =
     gthen (modify (\<lambda>w. w\<lparr>cbEvents := cb, gsm_cfg := cfgs,
                         debug := (if sysdebug \<noteq> 0 then 1 else debug w)\<rparr>))
     (gbind (init_ports port_indices) (\<lambda>r. if r < 0 then ret (- 1)
       else gthen (await_ports others port_indices) (gthen (query_ports port_indices) (ret 0))))"

primrec shutdown_ports :: "int list \<Rightarrow> unit gm" where
  "shutdown_ports [] = ret ()"
| "shutdown_ports (i # is) = gbind (ctl_get i) (\<lambda>c.
     gthen (if cp_port c \<noteq> 0 then gthen (gsm_shutdown_port i 0) (ret ()) else ret ())
           (shutdown_ports is))"

definition gsm_shutdown :: "unit gm" where
  "gsm_shutdown = shutdown_ports port_indices"


lemmas [geval] = at_ok_def at_all_def sms_mode_def sms_center_def send_pin_def default_init_commands_def
  init_default_def init_commands_def init_mod_def set_writer_def would_block_def write_check_def write_command_def write_finish_def
  wait_then_def writer_at_def writer_step_def errtostr_get_def set_reader_def event_def initial_queries_def
  read_thread_ready_def read_thread_start_def gsm_init_port_threads_def gsm_init_port_sems_def
  gsm_init_port_def

end
