(* ===== verification/Gsmctl_Proofs.thy ===== *)
theory Gsmctl_Proofs
  imports Gsmctl_Port
begin

text \<open>
  The invariant of the GSM control library and the behaviour of its operations.

  \<open>gsm_inv\<close> is what the static variables satisfy at every moment: an entry of the table of
  ports holds its own number or none, the strings stay within their buffers, descriptors are not
  negative, every queued command fits a message. \<open>port_open p\<close> adds that port \<open>p\<close> was
  started. The first group of lemmas shows that each operation on a started port
  returns, without a fault, and keeps both. The second group is about the exchange with a
  module: what \<open>send_expect\<close> answers, how \<open>init_mod\<close> ends, which gain is set.
\<close>


section \<open>The invariant\<close>

definition ctl_good :: "int \<Rightarrow> ctlport \<Rightarrow> bool" where
  "ctl_good i c \<longleftrightarrow> (cp_port c = 0 \<or> cp_port c = i) \<and>
     length (last_cmd_sent c) \<le> GSM_CMD_LENGTH \<and> length (imei c) \<le> IMEI_SZ \<and>
     length (imsi c) \<le> IMSI_SZ \<and> length (fw_rev_info c) \<le> FW_REV_SZ \<and>
     (\<forall>fd. fpw c = Some fd \<longrightarrow> 0 \<le> fd) \<and> (\<forall>fd. fpr c = Some fd \<longrightarrow> 0 \<le> fd) \<and>
     (\<forall>k. cp_cfg c = Some k \<longrightarrow> 0 \<le> k \<and> k < int MAX_GSM_PORTS)"

definition short_commands :: "string list option \<Rightarrow> bool" where
  "short_commands mq \<longleftrightarrow> (\<forall>ms. mq = Some ms \<longrightarrow> (\<forall>m \<in> set ms. length m \<le> GSM_CMD_LENGTH))"

definition writer_good :: "writer_pc \<Rightarrow> bool" where
  "writer_good pc \<longleftrightarrow> (\<forall>m. pc = W_avail m \<or> pc = W_send m \<or> pc = W_write m \<longrightarrow>
     length m \<le> GSM_CMD_LENGTH)"

definition gsm_inv :: "gsm_world \<Rightarrow> bool" where
  "gsm_inv w \<longleftrightarrow>
     length (ctlport w) = MAX_GSM_PORTS \<and> length (wdog_timer w) = MAX_GSM_PORTS \<and>
     length (gsm_cfg w) = MAX_GSM_PORTS \<and> (\<forall>s. length (sems w s) = MAX_GSM_PORTS) \<and>
     (\<forall>i. 0 \<le> i \<and> i < int MAX_GSM_PORTS \<longrightarrow> ctl_good i (ctlport w ! nat i)) \<and>
     (\<forall>q. short_commands (mqueue w q)) \<and> (\<forall>i. writer_good (writer w i))"

definition port_open :: "int \<Rightarrow> gsm_world \<Rightarrow> bool" where
  "port_open p w \<longleftrightarrow> gsm_inv w \<and> 0 < p \<and> p < int MAX_GSM_PORTS \<and>
     cp_port (ctlport w ! nat p) = p \<and> cp_cfg (ctlport w ! nat p) \<noteq> None \<and>
     wdog_timer w ! nat p \<noteq> Timer_unset"

text \<open>Parts of the world the invariant does not read.\<close>

lemma gsm_inv_frame [simp]:
  "gsm_inv (w\<lparr>trace := t\<rparr>) = gsm_inv w"
  "gsm_inv (w\<lparr>calls := n\<rparr>) = gsm_inv w"
  "gsm_inv (w\<lparr>modem_in := mi\<rparr>) = gsm_inv w"
  "gsm_inv (w\<lparr>modem_eof := me\<rparr>) = gsm_inv w"
  "gsm_inv (w\<lparr>reader := rd\<rparr>) = gsm_inv w"
  "gsm_inv (w\<lparr>debug := d\<rparr>) = gsm_inv w"
  "gsm_inv (w\<lparr>files := f\<rparr>) = gsm_inv w"
  "gsm_inv (w\<lparr>channel_mask := m\<rparr>) = gsm_inv w"
  "gsm_inv (w\<lparr>cbEvents := cb\<rparr>) = gsm_inv w"
  by (simp_all add: gsm_inv_def)

lemma port_open_frame [simp]:
  "port_open p (w\<lparr>trace := t\<rparr>) = port_open p w"
  "port_open p (w\<lparr>calls := n\<rparr>) = port_open p w"
  "port_open p (w\<lparr>modem_in := mi\<rparr>) = port_open p w"
  "port_open p (w\<lparr>modem_eof := me\<rparr>) = port_open p w"
  "port_open p (w\<lparr>reader := rd\<rparr>) = port_open p w"
  "port_open p (w\<lparr>debug := d\<rparr>) = port_open p w"
  "port_open p (w\<lparr>files := f\<rparr>) = port_open p w"
  "port_open p (w\<lparr>channel_mask := m\<rparr>) = port_open p w"
  "port_open p (w\<lparr>cbEvents := cb\<rparr>) = port_open p w"
  by (simp_all add: port_open_def)

lemma gsm_inv_lengths:
  assumes "gsm_inv w"
  shows "length (ctlport w) = 32" "length (wdog_timer w) = 32" "length (gsm_cfg w) = 32"
    "length (sems w s) = 32"
  using assms by (simp_all add: gsm_inv_def MAX_GSM_PORTS_def)

lemma port_openD:
  assumes "port_open p w"
  shows "gsm_inv w" "0 < p" "0 \<le> p" "p < 32" "nat p < 32" "p \<noteq> 0" "cp_port (ctlport w ! nat p) = p"
    "wdog_timer w ! nat p \<noteq> Timer_unset"
    "length (ctlport w) = 32" "length (wdog_timer w) = 32" "length (gsm_cfg w) = 32"
    "length (sems w s) = 32"
  using assms by (auto simp: port_open_def MAX_GSM_PORTS_def gsm_inv_def)

lemma port_open_ctl_good: "port_open p w \<Longrightarrow> ctl_good p (ctlport w ! nat p)"
  by (auto simp: port_open_def gsm_inv_def)

lemma port_open_cfg:
  assumes "port_open p w"
  obtains k where "cp_cfg (ctlport w ! nat p) = Some k" "0 \<le> k" "k < 32"
  using assms port_open_ctl_good [OF assms]
  by (auto simp: port_open_def ctl_good_def MAX_GSM_PORTS_def)

text \<open>Updates that keep the invariant.\<close>

lemma gsm_inv_ctl_upd:
  assumes "gsm_inv w" "ctl_good i c" "0 \<le> i" "i < 32"
  shows "gsm_inv (w\<lparr>ctlport := (ctlport w)[nat i := c]\<rparr>)"
proof -
  have "ctl_good j ((ctlport w)[nat i := c] ! nat j)"
    if "0 \<le> j" "j < int MAX_GSM_PORTS" for j
    using assms that by (cases "i = j") (auto simp: gsm_inv_def MAX_GSM_PORTS_def nth_list_update)
  then show ?thesis using assms by (simp add: gsm_inv_def)
qed

lemma port_open_ctl_upd:
  assumes "port_open p w" "ctl_good p c" "cp_port c = p" "cp_cfg c \<noteq> None"
  shows "port_open p (w\<lparr>ctlport := (ctlport w)[nat p := c]\<rparr>)"
  using assms gsm_inv_ctl_upd [of w p c]
  by (auto simp: port_open_def gsm_inv_def MAX_GSM_PORTS_def)

lemma port_open_sems:
  assumes "port_open p w" "\<And>s. length (f s) = 32"
  shows "port_open p (w\<lparr>sems := f\<rparr>)"
  using assms by (auto simp: port_open_def gsm_inv_def MAX_GSM_PORTS_def)

lemma port_open_sem_put [simp]:
  "port_open p w \<Longrightarrow> sems w = f \<Longrightarrow> port_open p (w\<lparr>sems := f(s := (f s)[i := v])\<rparr>)"
  by (rule port_open_sems) (auto simp: port_openD)

lemma port_open_timer_put [simp]:
  "port_open p w \<Longrightarrow> length ts = 32 \<Longrightarrow> ts ! nat p \<noteq> Timer_unset \<Longrightarrow>
     port_open p (w\<lparr>wdog_timer := ts\<rparr>)"
  by (auto simp: port_open_def gsm_inv_def MAX_GSM_PORTS_def)

lemma port_open_mqueue [simp]:
  "port_open p w \<Longrightarrow> mqueue w = f \<Longrightarrow> short_commands mq \<Longrightarrow>
     port_open p (w\<lparr>mqueue := f(q := mq)\<rparr>)"
  by (auto simp: port_open_def gsm_inv_def)

lemma port_open_writer [simp]:
  "port_open p w \<Longrightarrow> writer w = f \<Longrightarrow> writer_good pc \<Longrightarrow>
     port_open p (w\<lparr>writer := f(i := pc)\<rparr>)"
  by (auto simp: port_open_def gsm_inv_def)

lemma writer_good_simps [simp]:
  "writer_good W_none" "writer_good W_head" "writer_good W_wait" "writer_good W_woken"
  "writer_good W_done" "writer_good W_sent"
  "writer_good (W_avail m) \<longleftrightarrow> length m \<le> 255" "writer_good (W_send m) \<longleftrightarrow> length m \<le> 255"
  "writer_good (W_write m) \<longleftrightarrow> length m \<le> 255"
  by (simp_all add: writer_good_def GSM_CMD_LENGTH_def)

lemma short_commands_simps [simp]:
  "short_commands None" "short_commands (Some [])"
  "short_commands (Some (m # ms)) \<longleftrightarrow> length m \<le> 255 \<and> short_commands (Some ms)"
  "short_commands (Some (ms @ ms')) \<longleftrightarrow> short_commands (Some ms) \<and> short_commands (Some ms')"
  by (auto simp: short_commands_def GSM_CMD_LENGTH_def)

lemma port_open_queue: "port_open p w \<Longrightarrow> short_commands (mqueue w q)"
  by (simp add: port_open_def gsm_inv_def)

lemma port_open_writer_good: "port_open p w \<Longrightarrow> writer_good (writer w i)"
  by (simp add: port_open_def gsm_inv_def)


section \<open>Lookup of a port\<close>

lemma find_port:
  assumes "gsm_inv w" "p \<noteq> 0"
  shows "find (\<lambda>i. cp_port (ctlport w ! nat i) = p) port_indices =
    (if 0 < p \<and> p < 32 \<and> cp_port (ctlport w ! nat p) = p then Some p else None)"
proof -
  let ?P = "\<lambda>i. cp_port (ctlport w ! nat i) = p"
  have only: "i = p" if "?P i" "0 < i" "i < 32" for i
  proof -
    have "ctl_good i (ctlport w ! nat i)"
      using assms(1) that by (simp add: gsm_inv_def MAX_GSM_PORTS_def)
    then show ?thesis using that assms(2) by (auto simp: ctl_good_def)
  qed
  have range: "i \<in> set port_indices \<longleftrightarrow> 0 < i \<and> i < 32" for i
    by (auto simp: port_indices_def MAX_GSM_PORTS_def image_int_atLeastLessThan)
  show ?thesis
  proof (cases "find ?P port_indices")
    case None
    then have "\<not> (\<exists>i. i \<in> set port_indices \<and> ?P i)" by (simp only: find_None_iff not_False_eq_True)
    then have "\<not> (0 < p \<and> p < 32 \<and> ?P p)" using range [of p] by blast
    then show ?thesis by (simp only: None if_False)
  next
    case (Some i)
    then have "?P i" "i \<in> set port_indices"
      unfolding find_Some_iff by (metis, metis nth_mem)
    then have "i = p" "0 < p \<and> p < 32 \<and> ?P p" using range [of i] only [of i] by auto
    then show ?thesis by (simp only: Some if_True simp_thms)
  qed
qed

lemma wp_getctlport_inv:
  assumes "gsm_inv w"
  shows "wp (getctlport p) Q w =
    Q (if 0 < p \<and> p < 32 \<and> cp_port (ctlport w ! nat p) = p then Some p else None) w"
  using find_port [OF assms, of p] by (auto simp: getctlport_def wp)

lemma wp_getctlport [simp]: "port_open p w \<Longrightarrow> wp (getctlport p) Q w = Q (Some p) w"
  by (simp add: wp_getctlport_inv port_openD)

lemma wp_gsm_port_is_valid [simp]: "port_open p w \<Longrightarrow> wp (gsm_port_is_valid p) Q w = Q True w"
  by (simp add: gsm_port_is_valid_def wp)

lemma wp_deref [wp, simp]: "wp (deref (Some i) f) Q w = wp (f i) Q w" "\<not> wp (deref None f) Q w"
  by (simp_all add: deref_def wp)


section \<open>Every operation returns and keeps the invariant\<close>

text \<open>The loop of \<open>send_expect\<close> never faults, and blocks only while the stream is open.\<close>

lemma expect_loop_cases:
  "(\<exists>r resp rest. expect_loop eof send exp wait inp = Ret (r, resp, rest)) \<or>
   \<not> eof \<and> expect_loop eof send exp wait inp = Hang"
proof (induction eof send exp wait inp rule: expect_loop.induct)
  case (1 eof send exp wait inp)
  show ?case
  proof (cases "fgets 255 inp")
    case None
    then show ?thesis using expect_loop.simps [of eof send exp wait inp] by (auto simp: fgets_blocks_def)
  next
    case (Some z)
    then obtain raw rest where z: "fgets 255 inp = Some (raw, rest)" by (cases z) auto
    show ?thesis
    proof (cases "fgets_blocks eof 255 inp")
      case True
      then show ?thesis using expect_loop.simps [of eof send exp wait inp] by (auto simp: fgets_blocks_def)
    next
      case False
      show ?thesis
        using 1(1) [OF False z refl] 1(2) [OF False z refl] False
        by (subst (1 2) expect_loop.simps) (auto simp: z)
    qed
  qed
qed

named_theorems safe \<comment> \<open>rules of \<open>safe\<close>, for statements and operations\<close>

lemma ctl_good_updates [simp]:
  "ctl_good p (c\<lparr>in_use := u\<rparr>) = ctl_good p c"
  "ctl_good p (c\<lparr>cp_state := st\<rparr>) = ctl_good p c"
  "ctl_good p (c\<lparr>cp_modem := mo\<rparr>) = ctl_good p c"
  "ctl_good p (c\<lparr>cp_priv := q\<rparr>) = ctl_good p c"
  "ctl_good p (c\<lparr>cp_fd := fd\<rparr>) = ctl_good p c"
  "ctl_good p (c\<lparr>write_mq_id := mq\<rparr>) = ctl_good p c"
  "ctl_good p (c\<lparr>msg_count := n\<rparr>) = ctl_good p c"
  "ctl_good p c \<Longrightarrow> ctl_good p (c\<lparr>fpw := None\<rparr>)"
  "ctl_good p c \<Longrightarrow> ctl_good p (c\<lparr>fpr := None\<rparr>)"
  "ctl_good p c \<Longrightarrow> length l \<le> GSM_CMD_LENGTH \<Longrightarrow> ctl_good p (c\<lparr>last_cmd_sent := l\<rparr>)"
  "ctl_good p c \<Longrightarrow> length l \<le> IMEI_SZ \<Longrightarrow> ctl_good p (c\<lparr>imei := l\<rparr>)"
  "ctl_good p c \<Longrightarrow> length l \<le> IMSI_SZ \<Longrightarrow> ctl_good p (c\<lparr>imsi := l\<rparr>)"
  "ctl_good p c \<Longrightarrow> length l \<le> FW_REV_SZ \<Longrightarrow> ctl_good p (c\<lparr>fw_rev_info := l\<rparr>)"
  by (simp_all add: ctl_good_def)

text \<open>A configuration index comes from the entry of a port, so it is in range.\<close>

lemma ctl_good_cfg: "ctl_good p c \<Longrightarrow> cp_cfg c = Some k \<Longrightarrow> 0 \<le> k \<and> k < 32"
  by (simp add: ctl_good_def MAX_GSM_PORTS_def)

lemma wp_timer_id_case [wp]:
  "wp (case t of INVALID_TIMER_ID \<Rightarrow> m | Timer_unset \<Rightarrow> n | Timer x \<Rightarrow> f x) Q w =
     (case t of INVALID_TIMER_ID \<Rightarrow> wp m Q w | Timer_unset \<Rightarrow> wp n Q w | Timer x \<Rightarrow> wp (f x) Q w)"
  by (cases t) auto

definition short_texts :: "gsm_config \<Rightarrow> bool" where
  "short_texts g \<longleftrightarrow> length (pin g) \<le> 245 \<and> length (smsc g) \<le> 245"


text \<open>The configuration of the port, and that \<open>init_mod\<close> opens no file for it.\<close>

definition port_cfg :: "int \<Rightarrow> gsm_world \<Rightarrow> gsm_config" where
  "port_cfg p w = gsm_cfg w ! nat (the (cp_cfg (ctlport w ! nat p)))"

definition no_init_file :: "int \<Rightarrow> gsm_world \<Rightarrow> bool" where
  "no_init_file p w \<longleftrightarrow> initfile (port_cfg p w) = [] \<or> files w (initfile (port_cfg p w)) = None"

text \<open>Which values an operation can return.\<close>

definition yields :: "'a gm \<Rightarrow> ('a \<Rightarrow> bool) \<Rightarrow> bool" where
  "yields m P \<longleftrightarrow> (\<forall>w x w'. m w = Ret (x, w') \<longrightarrow> P x)"

lemma yields_ret: "P x \<Longrightarrow> yields (ret x) P"
  by (simp add: yields_def ret_def)

lemma yields_fault: "yields fault P"
  by (simp add: yields_def fault_def)

lemma yields_gbind: "yields m R \<Longrightarrow> (\<And>x. R x \<Longrightarrow> yields (f x) P) \<Longrightarrow> yields (gbind m f) P"
  by (fastforce simp: yields_def gbind_def run_bind_Ret_iff)

lemma yields_gthen: "yields n P \<Longrightarrow> yields (gthen m n) P"
  by (auto simp: yields_def gthen_def gbind_def run_bind_Ret_iff)

lemma yields_any: "yields m (\<lambda>_. True)"
  by (simp add: yields_def)

lemma init_mod_yields: "yields (init_mod i) (\<lambda>r. r = 0 \<or> r = - EWRONGPIN)"
proof -
  let ?P = "\<lambda>r. r = 0 \<or> r = - EWRONGPIN"
  have from_file: "yields (init_from_file i g t) ?P" for g t
    unfolding init_from_file_def by (intro yields_gthen yields_ret) simp
  have by_default: "yields (init_default i g) ?P" for g
    unfolding init_default_def
    by (intro yields_gthen yields_gbind [OF yields_any] yields_ret) simp
  have commands: "yields (init_commands i g fp) ?P" for g fp
    unfolding init_commands_def by (intro yields_gthen) (auto split: option.split intro: from_file by_default)
  have last: "yields (if r < 0 then ret r else gthen m (gthen n (ret 0))) ?P" if "?P r"
    for r :: int and m n :: "unit gm"
    using that by (auto intro: yields_ret yields_gthen)
  have deref: "yields (deref ctl f) ?P" if "\<And>k. yields (f k) ?P" for ctl f
    using that by (cases ctl) (auto simp: deref_def yields_fault)
  show ?thesis
    unfolding init_mod_def
    by (intro yields_gbind [OF yields_any] deref yields_gbind [OF commands] last)
qed


text \<open>
  A property \<open>P\<close> of the entry of a port that only \<open>gsm_port_fetch\<close>, \<open>gsm_port_release\<close> and
  the start of the port can change: what every other operation promises is proved once, for
  any such \<open>P\<close>.
\<close>

locale entry_property =
  fixes P :: "ctlport \<Rightarrow> bool" and E :: "int \<Rightarrow> (nat \<Rightarrow> bool) \<Rightarrow> bool"
  assumes P_updates:
    "P c \<Longrightarrow> P (c\<lparr>fpw := None\<rparr>)" "P c \<Longrightarrow> P (c\<lparr>fpr := None\<rparr>)" "P c \<Longrightarrow> P (c\<lparr>cp_fd := fd\<rparr>)"
    "P c \<Longrightarrow> P (c\<lparr>cp_state := st\<rparr>)" "P c \<Longrightarrow> P (c\<lparr>cp_modem := mo\<rparr>)"
    "P c \<Longrightarrow> P (c\<lparr>cp_priv := q\<rparr>)" "P c \<Longrightarrow> P (c\<lparr>msg_count := n\<rparr>)"
    "P c \<Longrightarrow> P (c\<lparr>last_cmd_sent := l\<rparr>)" "P c \<Longrightarrow> P (c\<lparr>imei := l\<rparr>)"
    "P c \<Longrightarrow> P (c\<lparr>imsi := l\<rparr>)" "P c \<Longrightarrow> P (c\<lparr>fw_rev_info := l\<rparr>)"
begin

definition opened :: "int \<Rightarrow> gsm_world \<Rightarrow> bool" where
  "opened p w \<longleftrightarrow> port_open p w \<and> P (ctlport w ! nat p) \<and> E p (modem_eof w)"

lemma opened_frame [simp]:
  "opened p (w\<lparr>trace := t\<rparr>) = opened p w"
  "opened p (w\<lparr>calls := n\<rparr>) = opened p w"
  "opened p (w\<lparr>modem_in := mi\<rparr>) = opened p w"
  "opened p (w\<lparr>reader := rd\<rparr>) = opened p w"
  "opened p (w\<lparr>debug := d\<rparr>) = opened p w"
  "opened p (w\<lparr>files := fs\<rparr>) = opened p w"
  by (simp_all add: opened_def)

lemma opened_updates [simp]:
  "opened p w \<Longrightarrow> sems w = f \<Longrightarrow> opened p (w\<lparr>sems := f(s := (f s)[i := v])\<rparr>)"
  "opened p w \<Longrightarrow> length ts = 32 \<Longrightarrow> ts ! nat p \<noteq> Timer_unset \<Longrightarrow> opened p (w\<lparr>wdog_timer := ts\<rparr>)"
  "opened p w \<Longrightarrow> mqueue w = g \<Longrightarrow> short_commands mq \<Longrightarrow> opened p (w\<lparr>mqueue := g(q := mq)\<rparr>)"
  "opened p w \<Longrightarrow> writer w = h \<Longrightarrow> writer_good pc \<Longrightarrow> opened p (w\<lparr>writer := h(j := pc)\<rparr>)"
  by (simp_all add: opened_def)

lemma opened_port_open: "opened p w \<Longrightarrow> port_open p w"
  by (simp add: opened_def)

lemmas openedD = port_openD [OF opened_port_open]
lemmas opened_ctl_good = port_open_ctl_good [OF opened_port_open]
lemmas opened_cfg = port_open_cfg [OF opened_port_open]
lemmas opened_queue = port_open_queue [OF opened_port_open]
lemmas opened_writer_good = port_open_writer_good [OF opened_port_open]

lemma opened_entry: "opened p w \<Longrightarrow> P (ctlport w ! nat p)"
  by (simp add: opened_def)

lemma opened_ctl_upd:
  assumes "opened p w" "ctl_good p c" "cp_port c = p" "cp_cfg c \<noteq> None" "P c"
  shows "opened p (w\<lparr>ctlport := (ctlport w)[nat p := c]\<rparr>)"
  using assms port_open_ctl_upd [of p w c] openedD [OF assms(1)] by (simp add: opened_def)

lemma wp_opened [simp]:
  "opened p w \<Longrightarrow> wp (getctlport p) Q w = Q (Some p) w"
  "opened p w \<Longrightarrow> wp (gsm_port_is_valid p) R w = R True w"
  by (simp_all add: opened_def)

text \<open>\<open>safe p m\<close>: on a started port \<open>p\<close>, \<open>m\<close> returns and the port is still started.\<close>

definition safe :: "int \<Rightarrow> 'a gm \<Rightarrow> bool" where
  "safe p m \<longleftrightarrow> (\<forall>w. opened p w \<longrightarrow> wp m (\<lambda>_. opened p) w)"

lemma safeI: "(\<And>w. opened p w \<Longrightarrow> wp m (\<lambda>_. opened p) w) \<Longrightarrow> safe p m"
  by (simp add: safe_def)

lemma safeD: "safe p m \<Longrightarrow> opened p w \<Longrightarrow> wp m (\<lambda>_. opened p) w"
  by (simp add: safe_def)

lemma safe_ret [safe]: "safe p (ret x)"
  by (simp add: safe_def wp)

lemma safe_gets [safe]: "safe p (gets f)"
  by (simp add: safe_def wp)

lemma safe_ask [safe]: "safe p ask"
  by (simp add: safe_def wp)

lemma safe_emit [safe]: "safe p (emit e)"
  by (simp add: safe_def wp)

lemma safe_gbind: "safe p m \<Longrightarrow> (\<And>x. safe p (f x)) \<Longrightarrow> safe p (gbind m f)"
  by (simp add: safe_def wp) (blast intro: wp_mono)

lemma safe_gthen [safe]: "safe p m \<Longrightarrow> safe p n \<Longrightarrow> safe p (gthen m n)"
  by (simp add: gthen_def safe_gbind)

lemma safe_if [safe]: "(b \<Longrightarrow> safe p m) \<Longrightarrow> (\<not> b \<Longrightarrow> safe p n) \<Longrightarrow> safe p (if b then m else n)"
  by simp

lemma safe_option [safe]:
  "safe p m \<Longrightarrow> (\<And>x. safe p (f x)) \<Longrightarrow> safe p (case v of None \<Rightarrow> m | Some x \<Rightarrow> f x)"
  by (cases v) auto

lemma safe_getctlport: "safe p (f (Some p)) \<Longrightarrow> safe p (gbind (getctlport p) f)"
  by (simp add: safe_def wp)

lemma safe_is_valid: "safe p (f True) \<Longrightarrow> safe p (gbind (gsm_port_is_valid p) f)"
  by (simp add: safe_def wp)

lemma safe_Some: "safe p (f x) \<Longrightarrow> safe p (case Some x of None \<Rightarrow> m | Some y \<Rightarrow> f y)"
  by simp

lemma safe_deref [safe]: "safe p (f i) \<Longrightarrow> safe p (deref (Some i) f)"
  by (simp add: deref_def)

text \<open>What reading the entry of the port gives.\<close>

lemma safe_ctl_get:
  assumes "\<And>c. ctl_good p c \<Longrightarrow> cp_port c = p \<Longrightarrow> cp_cfg c \<noteq> None \<Longrightarrow> safe p (f c)"
  shows "safe p (gbind (ctl_get p) f)"
proof (rule safeI)
  fix w assume w: "opened p w"
  have "safe p (f (ctlport w ! nat p))"
    by (rule assms) (use opened_ctl_good [OF w] w in \<open>auto simp: opened_def port_open_def\<close>)
  with w show "wp (gbind (ctl_get p) f) (\<lambda>_. opened p) w"
    by (simp add: wp openedD [OF w] safeD)
qed

lemma safe_ctl_upd [safe]:
  assumes "\<And>c. ctl_good p c \<Longrightarrow> ctl_good p (f c) \<and> cp_port (f c) = cp_port c \<and> cp_cfg (f c) = cp_cfg c"
    and "\<And>c. P c \<Longrightarrow> P (f c)"
  shows "safe p (ctl_upd p f)"
proof (rule safeI)
  fix w assume w: "opened p w"
  let ?c = "ctlport w ! nat p"
  have "ctl_good p (f ?c) \<and> cp_port (f ?c) = cp_port ?c \<and> cp_cfg (f ?c) = cp_cfg ?c"
    by (rule assms(1) [OF opened_ctl_good [OF w]])
  then have "opened p (w\<lparr>ctlport := (ctlport w)[nat p := f ?c]\<rparr>)"
    using w by (intro opened_ctl_upd [OF w] assms(2) opened_entry)
      (auto simp: opened_def port_open_def)
  then show "wp (ctl_upd p f) (\<lambda>_. opened p) w"
    by (simp add: wp openedD [OF w])
qed

lemma safe_cfg_get:
  assumes "0 \<le> k" "k < 32" "\<And>g. safe p (f g)"
  shows "safe p (gbind (cfg_get k) f)"
  using assms by (auto simp: safe_def wp openedD)

lemma safe_sem_get [safe]: "safe p (sem_get s p)"
  by (auto simp: safe_def wp openedD)

lemma safe_sem_put [safe]: "safe p (sem_put s p v)"
  by (auto simp: safe_def wp openedD)

lemma safe_sem_post [safe]: "safe p (sem_post s p)"
  unfolding sem_post_def by (intro safe safe_gbind)

lemma safe_timer_get: "(\<And>t. t \<noteq> Timer_unset \<Longrightarrow> safe p (f t)) \<Longrightarrow> safe p (gbind (timer_get p) f)"
  by (auto simp: safe_def wp openedD)

lemma safe_timer_put [safe]: "t \<noteq> Timer_unset \<Longrightarrow> safe p (timer_put p t)"
  by (auto simp: safe_def wp openedD)

lemma safe_ioctl [safe]: "safe p (ioctl fd cmd arg)"
  unfolding ioctl_def by (intro safe)

lemma safe_set_reader [safe]: "safe p (set_reader i pc)"
  by (simp add: safe_def set_reader_def wp)

lemma safe_set_writer [safe]: "writer_good pc \<Longrightarrow> safe p (set_writer i pc)"
  by (simp add: safe_def set_writer_def wp)

lemma safe_take_input [safe]: "safe p (take_input i rest)"
  by (simp add: safe_def take_input_def wp)

lemma safe_event [safe]: "safe p (event q s)"
  unfolding event_def by (intro safe safe_gbind)

lemmas safe_first = safe_Some safe_getctlport safe_is_valid safe_ctl_get safe_timer_get

text \<open>The accessors of the table.\<close>

lemma safe_gsm_sms_enter [safe]: "safe p (gsm_sms_enter p)"
  unfolding gsm_sms_enter_def
  by (rule safe_first | rule safe safe_gbind | simp add: P_updates)+

lemma safe_gsm_set_led [safe]: "safe p (gsm_set_led p l)"
  unfolding gsm_set_led_def
  by (rule safe_first | rule safe safe_gbind | simp add: P_updates)+

lemma safe_gsm_audio [safe]:
  "safe p (gsm_audio_start p)" "safe p (gsm_audio_stop p)" "safe p (gsm_audio_open p)"
  "safe p (gsm_audio_close p)"
  unfolding gsm_audio_start_def gsm_audio_stop_def gsm_audio_open_def gsm_audio_close_def
  by (rule safe_first | rule safe safe_gbind | simp add: P_updates)+

lemma safe_gsm_put_priv [safe]: "safe p (gsm_put_priv p q)" "safe p (gsm_get_priv p)"
  unfolding gsm_put_priv_def gsm_get_priv_def
  by (rule safe_first | rule safe safe_gbind | simp add: P_updates)+

lemma safe_gsm_port_in_use_get [safe]: "safe p (gsm_port_in_use_get p)"
  unfolding gsm_port_in_use_get_def by (rule safe_first | rule safe)+

lemma safe_ctl_info: "safe p (ctl_info f p)"
  unfolding ctl_info_def by (rule safe_first | rule safe)+

lemma safe_gsm_get_info [safe]:
  "safe p (gsm_get_imei_number p)" "safe p (gsm_get_imsi_number p)" "safe p (gsm_get_firmware_info p)"
  "safe p (gsm_get_last_command p)"
  unfolding gsm_get_imei_number_def gsm_get_imsi_number_def gsm_get_firmware_info_def
    gsm_get_last_command_def by (rule safe_ctl_info)+

lemma safe_gsm_set_debuglevel [safe]: "safe p (gsm_set_debuglevel v)"
  by (simp add: safe_def gsm_set_debuglevel_def wp)

lemma safe_gsm_simslot [safe]:
  "safe p (gsm_simslot_get q)" "safe p (gsm_simslot_next_get q)" "safe p (gsm_check_port q)"
  "safe p (gsm_set_next_simslot q s)"
  by (auto simp: safe_def gsm_simslot_get_def gsm_simslot_next_get_def gsm_check_port_def
      gsm_set_next_simslot_def wp split: option.split)

text \<open>\<open>gsm_masq_priv\<close> may change the entry of another port.\<close>

lemma safe_gsm_masq_priv [safe]: "safe p (gsm_masq_priv q q')"
proof (rule safeI)
  fix w assume w: "opened p w"
  have i: "0 < i \<and> i < 32 \<and> opened p (w\<lparr>ctlport := (ctlport w)[nat i := (ctlport w ! nat i)\<lparr>cp_priv := q'\<rparr>]\<rparr>)"
    if "find (\<lambda>i. cp_priv (ctlport w ! nat i) = q) port_indices = Some i" for i
  proof -
    have i: "0 < i" "i < 32"
      using that by (auto simp: find_Some_iff port_indices_def MAX_GSM_PORTS_def)
    moreover have "ctl_good i (ctlport w ! nat i)"
      using i openedD(1) [OF w] by (simp add: gsm_inv_def MAX_GSM_PORTS_def)
    then have "gsm_inv (w\<lparr>ctlport := (ctlport w)[nat i := (ctlport w ! nat i)\<lparr>cp_priv := q'\<rparr>]\<rparr>)"
      using gsm_inv_ctl_upd [OF openedD(1) [OF w], of i] i by simp
    ultimately show ?thesis
      using w openedD [OF w]
      by (cases "i = p") (auto simp: opened_def port_open_def P_updates nth_list_update)
  qed
  show "wp (gsm_masq_priv q q') (\<lambda>_. opened p) w"
    using w i openedD [OF w]
    by (auto simp: gsm_masq_priv_def getctlport_bypriv_def wp split: option.split)
qed

text \<open>Timers and the permission to send.\<close>

lemma safe_gsm_start_check_timer [safe]: "safe p (gsm_start_check_timer p)"
proof (rule safeI)
  fix w assume w: "opened p w"
  show "wp (gsm_start_check_timer p) (\<lambda>_. opened p) w"
    using w openedD [OF w]
    by (cases "wdog_timer w ! nat p")
       (simp_all add: gsm_start_check_timer_def timer_create_def timer_settime_def wp)
qed

lemma safe_gsm_stop_check_timer [safe]: "safe p (gsm_stop_check_timer p)"
proof (rule safeI)
  fix w assume w: "opened p w"
  show "wp (gsm_stop_check_timer p) (\<lambda>_. opened p) w"
    using w openedD [OF w]
    by (cases "wdog_timer w ! nat p")
       (simp_all add: gsm_stop_check_timer_def timer_settime_def wp)
qed

lemma safe_gsm_destroy_check_timer [safe]: "safe p (gsm_destroy_check_timer p)"
  unfolding gsm_destroy_check_timer_def
  by (rule safe_first | rule safe safe_gbind | simp add: P_updates)+

lemma safe_gsm_post_grant [safe]: "safe p (gsm_post_grant p)"
  unfolding gsm_post_grant_def by (intro safe)

lemma safe_gsm_post_next_msg [safe]: "safe p (gsm_post_next_msg p)"
  unfolding gsm_post_next_msg_def gsm_post_check_def
  by (rule safe_first | rule safe safe_gbind | simp add: P_updates)+

lemma safe_gsm_check_timer_expired [safe]: "safe p (gsm_check_timer_expired p)"
  unfolding gsm_check_timer_expired_def
  by (rule safe_first | rule safe safe_gbind | simp add: P_updates)+

text \<open>The exchange with a module.\<close>

lemma safe_gsm_close_port [safe]: "safe p (gsm_close_port p)"
  unfolding gsm_close_port_def
  by (rule safe_first | rule safe safe_gbind | simp add: P_updates)+

lemma safe_wait4mod [safe]: "safe p (wait4mod p b)"
  unfolding wait4mod_def
  by (rule safe_ctl_get) (auto split: option.split intro!: safe safe_gbind)


lemma safe_wait4mod_w [safe]: "safe p (wait4mod_w p)"
  unfolding wait4mod_w_def by (rule safe)

lemma safe_wait4mod_r [safe]: "safe p (wait4mod_r p)"
  unfolding wait4mod_r_def by (rule safe)

lemma safe_fputs: "fp \<noteq> None \<Longrightarrow> safe p (fputs s fp)"
  by (auto simp: fputs_def intro: safe)

lemma safe_gsm_send_raw [safe]: "safe p (gsm_send_raw p s)"
  unfolding gsm_send_raw_def
  by (rule safe_first safe_fputs | rule safe safe_gbind | simp add: P_updates)+

lemma safe_msgsnd:
  assumes "length m \<le> 255"
  shows "safe p (msgsnd q m)"
proof (rule safeI)
  fix w assume w: "opened p w"
  show "wp (msgsnd q m) (\<lambda>_. opened p) w"
    using w assms opened_queue [OF w, of q]
    by (cases "mqueue w q") (simp_all add: msgsnd_def wp)
qed

lemma safe_into_buffer: "length s < n \<Longrightarrow> safe p (into_buffer n s)"
  by (simp add: into_buffer_def safe)

lemma safe_gsm_send_enqueue: "length s \<le> 255 \<Longrightarrow> safe p (gsm_send_enqueue p s)"
  unfolding gsm_send_enqueue_def
  by (rule safe_first safe_msgsnd safe_into_buffer | rule safe safe_gbind |
      simp add: GSM_CMD_LENGTH_def P_updates)+

lemma safe_gsm_send: "length s \<le> 255 \<Longrightarrow> safe p (gsm_send p s)"
  unfolding gsm_send_def by (intro safe safe_gbind safe_gsm_send_enqueue)

lemma safe_gsm_send_command: "length s \<le> 255 \<Longrightarrow> safe p (gsm_send_command p s)"
  unfolding gsm_send_command_def
  by (rule safe_first safe_into_buffer | rule safe safe_gbind | simp add: GSM_CMD_LENGTH_def P_updates)+

text \<open>
  After a successful \<open>wait4mod\<close> both streams are open, so neither \<open>fputs\<close> nor \<open>fgets\<close> gets
  NULL.
\<close>

lemma wait4mod_positive:
  assumes "opened p w"
  shows "wp (wait4mod p b) (\<lambda>r w'. opened p w' \<and>
    (0 \<le> r \<longrightarrow> fpw (ctlport w' ! nat p) \<noteq> None \<and> fpr (ctlport w' ! nat p) \<noteq> None)) w"
  using assms openedD [OF assms]
  by (auto simp: wait4mod_def wp split: option.split)

lemma safe_wait4mod_bind:
  fixes f :: "int \<Rightarrow> 'a gm"
  assumes "\<And>r. r < 0 \<Longrightarrow> safe p (f r)"
    and "\<And>r w. opened p w \<Longrightarrow> fpw (ctlport w ! nat p) \<noteq> None \<Longrightarrow>
      fpr (ctlport w ! nat p) \<noteq> None \<Longrightarrow> \<not> r < 0 \<Longrightarrow> wp (f r) (\<lambda>_. opened p) w"
  shows "safe p (gbind (wait4mod p b) f)"
proof (rule safeI)
  fix w assume w: "opened p w"
  show "wp (gbind (wait4mod p b) f) (\<lambda>_. opened p) w"
    unfolding wp_gbind
  proof (rule wp_mono [OF wait4mod_positive [OF w]])
    fix r :: int and w'
    assume "opened p w' \<and> (0 \<le> r \<longrightarrow> fpw (ctlport w' ! nat p) \<noteq> None \<and>
      fpr (ctlport w' ! nat p) \<noteq> None)"
    then show "wp (f r) (\<lambda>_. opened p) w'"
      using assms by (cases "r < 0") (auto dest: safeD)
  qed
qed

text \<open>
  Operations that read from the module may wait for ever. \<open>mild p m\<close>: on a started port \<open>p\<close>, \<open>m\<close> does
  not fault, it blocks only if \<open>E\<close> leaves open whether the stream of the module has ended, and when it
  returns the port is still started.
\<close>

definition may_block :: "int \<Rightarrow> bool" where
  "may_block p \<longleftrightarrow> (\<exists>e. E p e \<and> \<not> e (nat p))"

definition mild :: "int \<Rightarrow> 'a gm \<Rightarrow> bool" where
  "mild p m \<longleftrightarrow> (\<forall>w. opened p w \<longrightarrow> wp m (\<lambda>_. opened p) w \<or> may_block p \<and> m w = Hang)"

lemma mildD: "mild p m \<Longrightarrow> opened p w \<Longrightarrow> wp m (\<lambda>_. opened p) w \<or> may_block p \<and> m w = Hang"
  by (simp add: mild_def)

lemma mild_safe: "safe p m \<Longrightarrow> mild p m"
  by (simp add: mild_def safe_def)

lemma mild_gbind:
  assumes "mild p m" "\<And>x. mild p (f x)"
  shows "mild p (gbind m f)"
  unfolding mild_def
proof (intro allI impI)
  fix w assume "opened p w"
  then consider x w' where "m w = Ret (x, w')" "opened p w'" | "may_block p" "m w = Hang"
    using mildD [OF assms(1)] unfolding wp_def by blast
  then show "wp (gbind m f) (\<lambda>_. opened p) w \<or> may_block p \<and> gbind m f w = Hang"
    by cases (use mildD [OF assms(2)] in \<open>auto simp: gbind_def wp_def\<close>)
qed

lemma mild_gthen: "mild p m \<Longrightarrow> mild p n \<Longrightarrow> mild p (gthen m n)"
  by (simp add: gthen_def mild_gbind)

lemma mild_if: "(b \<Longrightarrow> mild p m) \<Longrightarrow> (\<not> b \<Longrightarrow> mild p n) \<Longrightarrow> mild p (if b then m else n)"
  by simp

lemma mild_option: "mild p m \<Longrightarrow> (\<And>x. mild p (f x)) \<Longrightarrow> mild p (case v of None \<Rightarrow> m | Some x \<Rightarrow> f x)"
  by (cases v) auto

lemma mild_deref: "mild p (f i) \<Longrightarrow> mild p (deref (Some i) f)"
  by (simp add: deref_def)

lemma mild_prod: "mild p (f (fst z) (snd z)) \<Longrightarrow> mild p (case z of (x, y) \<Rightarrow> f x y)"
  by (simp add: case_prod_unfold)

lemma mild_read:
  assumes "\<And>w. opened p w \<Longrightarrow> \<exists>x. m w = Ret (x, w) \<and> mild p (f x)"
  shows "mild p (gbind m f)"
  unfolding mild_def
proof (intro allI impI)
  fix w assume w: "opened p w"
  then obtain x where "m w = Ret (x, w)" "mild p (f x)" using assms by blast
  then show "wp (gbind m f) (\<lambda>_. opened p) w \<or> may_block p \<and> gbind m f w = Hang"
    using mildD [OF _ w] by (simp add: gbind_def wp_def)
qed

lemma mild_getctlport: "mild p (f (Some p)) \<Longrightarrow> mild p (gbind (getctlport p) f)"
  by (rule mild_read) (simp flip: wp_Ret)

lemma mild_ctl_get:
  assumes "\<And>c. ctl_good p c \<Longrightarrow> cp_port c = p \<Longrightarrow> cp_cfg c \<noteq> None \<Longrightarrow> mild p (f c)"
  shows "mild p (gbind (ctl_get p) f)"
proof (rule mild_read)
  fix w assume w: "opened p w"
  have "mild p (f (ctlport w ! nat p))"
    by (rule assms) (use opened_ctl_good [OF w] w in \<open>auto simp: opened_def port_open_def\<close>)
  moreover have "ctl_get p w = Ret (ctlport w ! nat p, w)"
    unfolding wp_Ret [symmetric] by (simp add: wp openedD [OF w])
  ultimately show "\<exists>x. ctl_get p w = Ret (x, w) \<and> mild p (f x)" by blast
qed

lemmas mild = mild_gthen mild_if mild_option mild_deref mild_prod

lemma mild_read_answer: "mild p (read_answer p s exp wait)"
  unfolding mild_def
proof (intro allI impI)
  fix w assume w: "opened p w"
  let ?r = "expect_loop (modem_eof w (nat p)) (if s = [] then junk w else s) exp wait (modem_in w (nat p))"
  have "\<not> modem_eof w (nat p) \<Longrightarrow> may_block p" using w by (auto simp: opened_def may_block_def)
  then show "wp (read_answer p s exp wait) (\<lambda>_. opened p) w \<or> may_block p \<and> read_answer p s exp wait w = Hang"
    using w expect_loop_cases [of "modem_eof w (nat p)" "if s = [] then junk w else s" exp wait "modem_in w (nat p)"]
    by (auto simp: wp) (auto simp: read_answer_def gbind_def)
qed

lemma mild_wait4mod_bind:
  fixes f :: "int \<Rightarrow> 'a gm"
  assumes "\<And>r. r < 0 \<Longrightarrow> mild p (f r)"
    and "\<And>r w. opened p w \<Longrightarrow> fpw (ctlport w ! nat p) \<noteq> None \<Longrightarrow> fpr (ctlport w ! nat p) \<noteq> None \<Longrightarrow>
      \<not> r < 0 \<Longrightarrow> wp (f r) (\<lambda>_. opened p) w \<or> may_block p \<and> f r w = Hang"
  shows "mild p (gbind (wait4mod p b) f)"
  unfolding mild_def
proof (intro allI impI)
  fix w assume "opened p w"
  then obtain r w' where r: "wait4mod p b w = Ret (r, w')" "opened p w'"
    "0 \<le> r \<longrightarrow> fpw (ctlport w' ! nat p) \<noteq> None \<and> fpr (ctlport w' ! nat p) \<noteq> None"
    using wait4mod_positive [of p w b] by (auto simp: wp_def)
  have "wp (f r) (\<lambda>_. opened p) w' \<or> may_block p \<and> f r w' = Hang"
    using r mildD [OF assms(1) r(2)] assms(2) [OF r(2)] by (cases "r < 0") auto
  then show "wp (gbind (wait4mod p b) f) (\<lambda>_. opened p) w \<or> may_block p \<and> gbind (wait4mod p b) f w = Hang"
    using r(1) by (auto simp: gbind_def wp_def)
qed

lemma safe_send_line:
  "safe p (if s = [] then ret True
     else gbind (wait4mod p b) (\<lambda>r. gbind (ctl_get p) (\<lambda>c. if r < 0
         then gthen (gsm_close_port (cp_port c)) (ret False)
         else gthen (fputs s (fpw c)) (gthen (fputs [CR, LF] (fpw c)) (ret True)))))"
  apply (rule safe_if safe_ret safe_wait4mod_bind)+
  subgoal by (rule safe_first safe_gbind safe | simp add: P_updates)+
  subgoal for r w by (auto simp: wp openedD)
  done

lemma mild_send_expect: "mild p (send_expect p s exp wait)"
  unfolding send_expect_def wait4mod_w_def wait4mod_r_def
  apply (rule mild_gbind)
  subgoal by (rule mild_safe safe_send_line)+
  subgoal
    apply (rule mild_if)
     apply (rule mild_safe [OF safe_ret])
    apply (rule mild_wait4mod_bind)
    subgoal by (rule mild_safe) (rule safe_first safe_gbind safe | simp add: P_updates)+
    subgoal premises prems for r w
      using mildD [OF mild_read_answer, of p w s exp wait] openedD [OF prems(2)] prems
      by (auto simp: gbind_def wp_def ctl_get_def arr_get_def)
    done
  done

text \<open>The gains.\<close>

lemma safe_cfg_gain:
  assumes "ctl_good p c"
  shows "safe p (cfg_rx_gain (cp_cfg c))" "safe p (cfg_tx_gain (cp_cfg c))"
  unfolding cfg_rx_gain_def cfg_tx_gain_def
  by (cases "cp_cfg c"; use ctl_good_cfg [OF assms] in \<open>simp add: safe safe_cfg_get\<close>)+

lemma mild_apply_gain: "mild p (apply_gain (Some p) fdw cmd req e)"
  unfolding apply_gain_def
  by (intro mild mild_send_expect mild_safe [OF safe_ret] mild_safe [OF safe_ioctl])

lemma mild_gsm_set_gain:
  assumes "ctl_good p c"
  shows "mild p (gsm_set_rx_gain p (cp_cfg c))" "mild p (gsm_set_tx_gain p (cp_cfg c))"
  unfolding gsm_set_rx_gain_def gsm_set_tx_gain_def
  by (intro mild_getctlport mild_ctl_get mild mild_gbind mild_apply_gain mild_safe [OF safe_ret]
      mild_safe [OF safe_cfg_gain(1)] mild_safe [OF safe_cfg_gain(2)] assms)+

text \<open>
  The initialisation: the texts built from the PIN and from the message centre go to an array of 256
  bytes, so these must have at most 245 characters.
\<close>

lemma mild_at_ok: "mild p (at_ok p cmd)"
  unfolding at_ok_def by (intro mild mild_send_expect mild_safe [OF safe_ret])

lemma mild_at_all: "mild p (at_all p cmds)"
  by (induction cmds) (auto intro: mild mild_at_ok mild_safe [OF safe_ret])

lemma mild_sms_mode: "mild p (sms_mode p g)"
  unfolding sms_mode_def by (rule mild_at_ok)

lemma mild_sms_center: "short_texts g \<Longrightarrow> mild p (sms_center p g)"
  unfolding sms_center_def
  by (intro mild mild_gbind mild_at_ok mild_safe [OF safe_ret] mild_safe [OF safe_into_buffer])
     (simp add: short_texts_def)

lemma mild_send_pin: "short_texts g \<Longrightarrow> mild p (send_pin p g)"
  unfolding send_pin_def
  by (intro mild mild_gbind mild_send_expect mild_safe [OF safe_ret] mild_safe [OF safe_into_buffer])
     (simp add: short_texts_def)

lemma mild_init_commands: "short_texts g \<Longrightarrow> mild p (init_commands p g None)"
  unfolding init_commands_def init_default_def wait4mod_w_def
  by (simp, intro mild mild_gbind mild_at_all mild_sms_mode mild_sms_center mild_send_pin
      mild_send_expect mild_safe [OF safe_ret] mild_safe [OF safe_wait4mod])

lemma init_mod_default:
  assumes w: "opened p w" and "no_init_file p w" "short_texts (port_cfg p w)"
  shows "wp (init_mod p) (\<lambda>_. opened p) w \<or> may_block p \<and> init_mod p w = Hang"
proof -
  let ?c = "ctlport w ! nat p" and ?g = "port_cfg p w"
  obtain k where k: "cp_cfg ?c = Some k" "0 \<le> k" "k < 32" using opened_cfg [OF w] .
  let ?m = "gbind (init_commands p ?g None) (\<lambda>r. if r < 0 then ret r
       else gthen (gsm_set_rx_gain (cp_port ?c) (cp_cfg ?c))
              (gthen (gsm_set_tx_gain (cp_port ?c) (cp_cfg ?c)) (ret 0)))"
  have "mild p ?m"
    using assms(3) opened_ctl_good [OF w] unfolding openedD(7) [OF w]
    by (intro mild mild_gbind mild_init_commands mild_gsm_set_gain mild_safe [OF safe_ret])
  moreover have "init_mod p w = ?m w"
    using assms k openedD [OF w]
    by (auto simp: init_mod_def gbind_def ctl_get_def cfg_get_def arr_get_def deref_def gets_def
        no_init_file_def port_cfg_def)
  ultimately show ?thesis using mildD [OF _ w, of ?m] by (simp add: wp_def)
qed

text \<open>The threads.\<close>

lemma safe_send_list: "\<forall>s \<in> set ss. length s \<le> 255 \<Longrightarrow> safe p (send_list p ss)"
  by (induction ss) (auto intro: safe safe_gsm_send)

lemma safe_initial_queries: "safe p (send_list p initial_queries)"
  by (rule safe_send_list) (simp add: initial_queries_def)

lemma safe_write_command: "length m \<le> 255 \<Longrightarrow> safe p (write_command p m)"
  unfolding write_command_def
  by (rule safe_first safe_gsm_send_command | rule safe safe_gbind | simp add: P_updates)+

lemma safe_write_check: "length m \<le> 255 \<Longrightarrow> safe p (write_check p m)"
  unfolding write_check_def by (rule safe_first | rule safe | simp)+

lemma safe_write_finish: "safe p (write_finish p)"
  unfolding write_finish_def by (rule safe_first | rule safe safe_gbind | simp add: P_updates)+

lemma safe_msgrcv_bind:
  assumes "\<And>m. length m \<le> 255 \<Longrightarrow> safe p (f (Some m))" "safe p (f None)"
  shows "safe p (gbind (msgrcv q) f)"
proof (rule safeI)
  fix w assume w: "opened p w"
  show "wp (gbind (msgrcv q) f) (\<lambda>_. opened p) w"
    using w opened_queue [OF w, of q] assms
    by (auto simp: msgrcv_def wp safe_def split: option.split list.split)
qed

lemma safe_wait_then:
  assumes "writer_good pc"
  shows "safe p (wait_then p s p pc)"
proof (rule safeI)
  fix w assume w: "opened p w"
  show "wp (wait_then p s p pc) (\<lambda>_. opened p) w"
    using assms w openedD [OF w]
    by (auto simp: wait_then_def would_block_def sem_wait_def set_writer_def wp
        split: option.split nat.split)
qed

lemma safe_writer_at:
  assumes "writer_good pc" "cp_port c = p"
  shows "safe p (writer_at p c pc)"
proof -
  have "safe p (gbind (msgrcv q) (\<lambda>r.
      gthen (set_writer p (case r of Some m \<Rightarrow> W_avail m | None \<Rightarrow> W_head)) (ret True)))" for q
    by (rule safe_msgrcv_bind) (auto intro!: safe)
  then show ?thesis
    using assms
    by (cases pc) (auto simp: writer_at_def intro!: safe safe_wait_then safe_write_check safe_write_command safe_write_finish)
qed

lemma safe_writer_step [safe]: "safe p (writer_step p)"
proof (rule safeI)
  fix w assume w: "opened p w"
  show "wp (writer_step p) (\<lambda>_. opened p) w"
    using opened_writer_good [OF w] openedD [OF w] safeD [OF safe_writer_at w]
    by (simp add: writer_step_def wp)
qed

text \<open>The reader needs its stream: \<open>fgets\<close> on NULL is a fault.\<close>

lemma safe_report_line [safe]: "safe p (report_line p line)"
  unfolding report_line_def by (rule safe_first | rule safe safe_gbind | simp add: P_updates)+

lemma safe_reads:
  assumes w: "opened p w" and "fpr (ctlport w ! nat p) \<noteq> None"
  shows "wp (read_iteration p) (\<lambda>_. opened p) w" "wp (read_prompt p) (\<lambda>_. opened p) w"
proof -
  have sms: "safe p (gthen (take_input p rest)
      (gthen (ctl_upd p (\<lambda>c. c\<lparr>cp_state := CTLPORT_STATE_NONE\<rparr>)) (report_line p line)))" for rest line
    by (intro safe) (simp_all add: P_updates)
  have line: "safe p (gthen (take_input p rest) (report_line p line))" for rest line
    by (intro safe)
  show "wp (read_iteration p) (\<lambda>_. opened p) w"
    using assms openedD [OF w] safeD [OF line w] safeD [OF safe_set_reader w]
    by (auto simp: read_iteration_def wp wp_fun split: prod.split option.split)
  show "wp (read_prompt p) (\<lambda>_. opened p) w"
    using assms openedD [OF w] safeD [OF sms w]
    by (auto simp: read_prompt_def wp wp_fun split: prod.split)
qed

lemma safe_errtostr_get: "r = 0 \<or> r = - EWRONGPIN \<Longrightarrow> safe p (errtostr_get (- r))"
  by (auto simp: safe_def wp_def errtostr_get_def arr_get_def errtostr_def EWRONGPIN_def)

lemma safe_read_thread_ready: "r = 0 \<or> r = - EWRONGPIN \<Longrightarrow> safe p (read_thread_ready p r)"
  unfolding read_thread_ready_def
  by (rule safe_first safe_initial_queries safe_errtostr_get | rule safe safe_gbind | simp add: P_updates)+

lemma read_thread_start_default:
  assumes w: "opened p w" and "no_init_file p w" "short_texts (port_cfg p w)"
  shows "wp (read_thread_start p) (\<lambda>_. opened p) w \<or> may_block p \<and> read_thread_start p w = Hang"
proof (cases "init_mod p w")
  case (Ret z)
  then obtain r w' where r: "init_mod p w = Ret (r, w')" by (cases z) auto
  then have "opened p w'" using init_mod_default [OF assms] by (auto simp: wp_def)
  moreover have "r = 0 \<or> r = - EWRONGPIN"
    using r init_mod_yields [of p] unfolding yields_def by blast
  ultimately show ?thesis
    using safeD [OF safe_read_thread_ready] r by (simp add: read_thread_start_def gbind_def wp_def)
qed (use init_mod_default [OF assms] in \<open>auto simp: read_thread_start_def gbind_def wp_def\<close>)


text \<open>Information kept of a module, and requests to the driver.\<close>

lemma safe_gsm_handle_unknown_event [safe]: "safe p (gsm_handle_unknown_event p ev)"
  unfolding gsm_handle_unknown_event_def
  by (rule safe_first | rule safe safe_gbind | simp add: P_updates)+

lemma safe_gsm_do_ioctl [safe]: "safe p (gsm_do_ioctl p cmd arg)"
  unfolding gsm_do_ioctl_def
  by (rule safe_first | rule safe safe_gbind | simp add: P_updates)+

end

interpretation any_entry: entry_property "\<lambda>_. True" "\<lambda>_ _. True"
  by unfold_locales simp_all

interpretation used_entry: entry_property "\<lambda>c. in_use c \<noteq> 0" "\<lambda>_ _. True"
  by unfold_locales simp_all

text \<open>A port whose module has ended its stream: no read blocks.\<close>

interpretation ended_entry: entry_property "\<lambda>_. True" "\<lambda>p e. e (nat p)"
  by unfold_locales simp_all

lemma ended_entry_never_blocks [simp]: "\<not> ended_entry.may_block p"
  by (simp add: ended_entry.may_block_def)

lemma any_entry_opened [simp]: "any_entry.opened = port_open"
  by (intro ext) (simp add: any_entry.opened_def)

lemma any_entry_safe: "any_entry.safe p m \<longleftrightarrow> (\<forall>w. port_open p w \<longrightarrow> wp m (\<lambda>_. port_open p) w)"
  by (simp add: any_entry.safe_def)

lemma port_open_set_in_use:
  assumes "port_open p w"
  shows "port_open p (w\<lparr>ctlport := (ctlport w)[nat p := (ctlport w ! nat p)\<lparr>in_use := u\<rparr>]\<rparr>)"
proof (rule port_open_ctl_upd [OF assms])
  show "cp_cfg ((ctlport w ! nat p)\<lparr>in_use := u\<rparr>) \<noteq> None" using assms by (simp add: port_open_def)
qed (simp_all add: port_open_ctl_good assms port_openD [OF assms])

lemma wp_gsm_port_fetch:
  "port_open p w \<Longrightarrow> wp (gsm_port_fetch p) Q w =
     (if in_use (ctlport w ! nat p) = 0
      then Q 1 (w\<lparr>ctlport := (ctlport w)[nat p := (ctlport w ! nat p)\<lparr>in_use := 1\<rparr>]\<rparr>)
      else Q 0 w)"
  by (simp add: gsm_port_fetch_def gsm_fetch_check_def gsm_fetch_take_def wp port_openD)

lemma wp_gsm_port_release:
  "port_open p w \<Longrightarrow> wp (gsm_port_release p) Q w =
     Q 0 (w\<lparr>ctlport := (ctlport w)[nat p := (ctlport w ! nat p)\<lparr>in_use := 0\<rparr>]\<rparr>)"
  by (simp add: gsm_port_release_def wp port_openD)

lemma safe_gsm_port_fetch: "any_entry.safe p (gsm_port_fetch p)"
  by (simp add: any_entry_safe wp_gsm_port_fetch port_open_set_in_use)

lemma safe_gsm_port_release: "any_entry.safe p (gsm_port_release p)"
  unfolding gsm_port_release_def
  by (rule any_entry.safe_first | rule safe any_entry.safe_gbind | simp)+

end
