(* ===== verification/Gsmctl_Calls.thy ===== *)
theory Gsmctl_Calls
  imports Gsmctl_Proofs
begin

text \<open>
  Properties of the GSM control library seen from its callers: the start of a port, any
  sequence of calls on a started port, the reservation of a port, the exchange of a command with a
  module, the initialisation of a module, the gains and the numbering of channels.
\<close>

unbundle bit_operations_syntax


section \<open>The start of a port\<close>

text \<open>The static variables before anything ran; the streams of the modules end behind their bytes.\<close>

definition cfg_zero :: gsm_config where
  "cfg_zero = \<lparr>cfg_port = 0, initfile = [], pin = [], smsc = [], sms_pdu_mode = 0, rx_gain = 0,
     tx_gain = 0\<rparr>"

definition static_world :: "(nat \<Rightarrow> int) \<Rightarrow> (nat \<Rightarrow> string) \<Rightarrow> gsm_world" where
  "static_world e inp =
     \<lparr>debug = 0, ctlport = replicate MAX_GSM_PORTS ctlport_zero,
      sems = (\<lambda>_. replicate MAX_GSM_PORTS None),
      wdog_timer = replicate MAX_GSM_PORTS Timer_unset,
      gsm_cfg = replicate MAX_GSM_PORTS cfg_zero, cbEvents = True, channel_mask = - 1,
      mqueue = (\<lambda>_. None), files = (\<lambda>_. None), modem_in = inp, modem_eof = (\<lambda>_. True), writer = (\<lambda>_. W_none),
      reader = (\<lambda>_. R_none), trace = [], env = e, calls = 0, junk = [], junk_int = 0\<rparr>"

lemma ctl_good_zero: "ctl_good i (ctlport_zero\<lparr>cp_port := i\<rparr>)" "ctl_good i ctlport_zero"
  by (simp_all add: ctl_good_def ctlport_zero_def)

lemma static_world_inv: "gsm_inv (static_world e inp)"
  by (auto simp: gsm_inv_def static_world_def ctl_good_zero)

text \<open>
  A port as \<open>gsm_init_port\<close> leaves it: started, both threads created, the right to send one
  command free, nothing queued.
\<close>

definition port_fresh :: "int \<Rightarrow> gsm_world \<Rightarrow> bool" where
  "port_fresh p w \<longleftrightarrow> port_open p w \<and> writer w (nat p) = W_head \<and> reader w (nat p) = R_start \<and>
     sems w write_sem ! nat p = Some 0 \<and> sems w avail_sem ! nat p = Some 1 \<and>
     sems w ready ! nat p = Some 0 \<and> wdog_timer w ! nat p = INVALID_TIMER_ID \<and>
     in_use (ctlport w ! nat p) = 0 \<and> cp_state (ctlport w ! nat p) = CTLPORT_STATE_NONE \<and>
     msg_count (ctlport w ! nat p) = 0"

lemma gsm_inv_updates:
  "gsm_inv w \<Longrightarrow> (\<And>s. length (f s) = 32) \<Longrightarrow> gsm_inv (w\<lparr>sems := f\<rparr>)"
  "gsm_inv w \<Longrightarrow> wdog_timer w = ts \<Longrightarrow> gsm_inv (w\<lparr>wdog_timer := ts[i := t]\<rparr>)"
  "gsm_inv w \<Longrightarrow> mqueue w = g \<Longrightarrow> short_commands mq \<Longrightarrow> gsm_inv (w\<lparr>mqueue := g(q := mq)\<rparr>)"
  "gsm_inv w \<Longrightarrow> writer w = h \<Longrightarrow> writer_good pc \<Longrightarrow> gsm_inv (w\<lparr>writer := h(j := pc)\<rparr>)"
  by (auto simp: gsm_inv_def MAX_GSM_PORTS_def)

lemma gsm_inv_entry:
  "gsm_inv w \<Longrightarrow> ctlport w = cs \<Longrightarrow> ctl_good p c \<Longrightarrow> 0 \<le> p \<Longrightarrow> p < 32 \<Longrightarrow>
   gsm_inv (w\<lparr>ctlport := cs[nat p := c]\<rparr>)"
  using gsm_inv_ctl_upd [of w p c] by simp

lemma gsm_init_port_threads_wp:
  assumes w: "gsm_inv w" and p: "0 < p" "p < 32" and k: "0 \<le> k" "k < 32"
  shows "wp (gsm_init_port_threads p (Some k)) (\<lambda>ok w'. gsm_inv w' \<and>
     cp_port (ctlport w' ! nat p) = p \<and> cp_cfg (ctlport w' ! nat p) = Some k \<and>
     sems w' ready ! nat p = Some 0 \<and> in_use (ctlport w' ! nat p) = 0 \<and>
     cp_state (ctlport w' ! nat p) = CTLPORT_STATE_NONE \<and>
     (ok \<longrightarrow> writer w' (nat p) = W_head \<and> reader w' (nat p) = R_start)) w"
proof -
  have c: "ctl_good p (ctlport_zero\<lparr>cp_port := p, fpw := fw, fpr := fr, cp_cfg := Some k\<rparr>)"
    if "\<forall>fd. fw = Some fd \<longrightarrow> 0 \<le> fd" "\<forall>fd. fr = Some fd \<longrightarrow> 0 \<le> fd" for fw fr
    using k that by (simp add: ctl_good_def ctlport_zero_def MAX_GSM_PORTS_def)
  have zero: "in_use ctlport_zero = 0" "cp_state ctlport_zero = CTLPORT_STATE_NONE"
    by (simp_all add: ctlport_zero_def)
  show ?thesis
    using p gsm_inv_lengths [OF w]
    by (auto simp: gsm_init_port_threads_def fopen_dev_def sem_init_def set_reader_def
        set_writer_def wp zero w intro!: gsm_inv_entry gsm_inv_updates c)
qed

lemma gsm_init_port_sems_wp:
  assumes w: "gsm_inv w" and p: "0 < p" "p < 32"
    and e: "cp_port (ctlport w ! nat p) = p" "cp_cfg (ctlport w ! nat p) \<noteq> None"
  shows "wp (gsm_init_port_sems p) (\<lambda>_ w'. port_open p w' \<and>
     sems w' write_sem ! nat p = Some 0 \<and> sems w' avail_sem ! nat p = Some 1 \<and>
     sems w' ready = sems w ready \<and> wdog_timer w' ! nat p = INVALID_TIMER_ID \<and>
     writer w' = writer w \<and> reader w' = reader w \<and>
     in_use (ctlport w' ! nat p) = in_use (ctlport w ! nat p) \<and>
     cp_state (ctlport w' ! nat p) = cp_state (ctlport w ! nat p) \<and>
     msg_count (ctlport w' ! nat p) = 0) w"
proof -
  have g: "ctl_good p (ctlport w ! nat p)"
    using w p by (auto simp: gsm_inv_def MAX_GSM_PORTS_def)
  have o: "port_open p v" if "gsm_inv v" "cp_port (ctlport v ! nat p) = p"
    "cp_cfg (ctlport v ! nat p) \<noteq> None" "wdog_timer v ! nat p = INVALID_TIMER_ID" for v
    using that p by (simp add: port_open_def MAX_GSM_PORTS_def)
  show ?thesis
    using p e g gsm_inv_lengths [OF w]
    by (auto simp: gsm_init_port_sems_def sem_init_def msgget_def wp w
        intro!: o gsm_inv_entry gsm_inv_updates)
qed

lemma gsm_init_port_fresh:
  assumes "gsm_inv w" "0 < p" "p < 32" "0 \<le> k" "k < 32"
  shows "wp (gsm_init_port p (Some k)) (\<lambda>r w'. gsm_inv w' \<and> (r = 0 \<or> r = - 1) \<and>
     (r = 0 \<longrightarrow> port_fresh p w')) w"
  unfolding gsm_init_port_def wp_gbind
  by (rule wp_mono [OF gsm_init_port_threads_wp [OF assms]])
     (auto simp: wp port_fresh_def port_open_def
       intro!: wp_mono [OF gsm_init_port_sems_wp] assms)


section \<open>Sequences of calls\<close>

text \<open>The calls other parts make on a port, the expiry of its timer and a step of its writer.\<close>

datatype gsm_call =
    Fetch | Release | Sms_enter | Set_led int | Audio_start | Audio_stop | Audio_open | Audio_close
  | Put_priv "nat option" | Start_timer | Stop_timer | Destroy_timer | Post_next | Timer_expired
  | Close_port | Send_raw string | Send string | Unknown_event string | Do_ioctl int int
  | Writer_runs | Masq_priv "nat option" "nat option" | In_use_get | Get_priv | Simslot_get
  | Simslot_next_get | Set_next_simslot int | Check_port | Set_debuglevel int | Get_imei_number
  | Get_imsi_number | Get_firmware_info | Get_last_command

definition void :: "'a gm \<Rightarrow> unit gm" where
  "void m = gthen m (ret ())"

primrec run_call :: "int \<Rightarrow> gsm_call \<Rightarrow> unit gm" where
  "run_call p Fetch = void (gsm_port_fetch p)"
| "run_call p Release = void (gsm_port_release p)"
| "run_call p Sms_enter = void (gsm_sms_enter p)"
| "run_call p (Set_led l) = void (gsm_set_led p l)"
| "run_call p Audio_start = void (gsm_audio_start p)"
| "run_call p Audio_stop = void (gsm_audio_stop p)"
| "run_call p Audio_open = void (gsm_audio_open p)"
| "run_call p Audio_close = gsm_audio_close p"
| "run_call p (Put_priv q) = gsm_put_priv p q"
| "run_call p Start_timer = gsm_start_check_timer p"
| "run_call p Stop_timer = gsm_stop_check_timer p"
| "run_call p Destroy_timer = gsm_destroy_check_timer p"
| "run_call p Post_next = gsm_post_next_msg p"
| "run_call p Timer_expired = gsm_check_timer_expired p"
| "run_call p Close_port = gsm_close_port p"
| "run_call p (Send_raw s) = void (gsm_send_raw p s)"
| "run_call p (Send s) = void (gsm_send p s)"
| "run_call p (Unknown_event s) = gsm_handle_unknown_event p s"
| "run_call p (Do_ioctl cmd arg) = void (gsm_do_ioctl p cmd arg)"
| "run_call p Writer_runs = void (writer_step p)"
| "run_call p (Masq_priv q q') = gsm_masq_priv q q'"
| "run_call p In_use_get = void (gsm_port_in_use_get p)"
| "run_call p Get_priv = void (gsm_get_priv p)"
| "run_call p Simslot_get = void (gsm_simslot_get p)"
| "run_call p Simslot_next_get = void (gsm_simslot_next_get p)"
| "run_call p (Set_next_simslot s) = void (gsm_set_next_simslot p s)"
| "run_call p Check_port = void (gsm_check_port p)"
| "run_call p (Set_debuglevel d) = gsm_set_debuglevel d"
| "run_call p Get_imei_number = void (gsm_get_imei_number p)"
| "run_call p Get_imsi_number = void (gsm_get_imsi_number p)"
| "run_call p Get_firmware_info = void (gsm_get_firmware_info p)"
| "run_call p Get_last_command = void (gsm_get_last_command p)"

primrec run_calls :: "int \<Rightarrow> gsm_call list \<Rightarrow> unit gm" where
  "run_calls p [] = ret ()"
| "run_calls p (c # cs) = gthen (run_call p c) (run_calls p cs)"

text \<open>A queued command must fit the message.\<close>

fun call_fits :: "gsm_call \<Rightarrow> bool" where
  "call_fits (Send s) = (length s \<le> GSM_CMD_LENGTH)"
| "call_fits c = True"

lemma any_entry_run_call: "call_fits c \<Longrightarrow> any_entry.safe p (run_call p c)"
  by (cases c)
     (auto simp: void_def GSM_CMD_LENGTH_def intro!: safe safe_gsm_port_fetch safe_gsm_port_release
       any_entry.safe_gsm_send)

lemma any_entry_run_calls: "\<forall>c \<in> set cs. call_fits c \<Longrightarrow> any_entry.safe p (run_calls p cs)"
  by (induction cs) (auto intro: safe any_entry_run_call)

lemma used_entry_fetch: "used_entry.safe p (gsm_port_fetch p)"
  by (rule used_entry.safeI) (simp add: used_entry.opened_def wp_gsm_port_fetch)

lemma used_entry_run_call: "call_fits c \<Longrightarrow> c \<noteq> Release \<Longrightarrow> used_entry.safe p (run_call p c)"
  by (cases c)
     (auto simp: void_def GSM_CMD_LENGTH_def intro!: safe used_entry_fetch used_entry.safe_gsm_send)

lemma used_entry_run_calls:
  "\<forall>c \<in> set cs. call_fits c \<and> c \<noteq> Release \<Longrightarrow> used_entry.safe p (run_calls p cs)"
  by (induction cs) (auto intro: safe used_entry_run_call)

lemma gsm_send_overflow:
  assumes "port_open p w" "\<not> length s \<le> GSM_CMD_LENGTH"
  shows "gsm_send p s w = Fault"
proof -
  have "getctlport p w = Ret (Some p, w)"
    unfolding wp_Ret [symmetric] by (simp add: assms(1))
  then show ?thesis
    using assms(2)
    by (simp add: gsm_send_def gsm_send_enqueue_def gbind_def gthen_def into_buffer_def fault_def)
qed




text \<open>A world with a started port, for the examples: every system call answers 5.\<close>

definition demo_port :: gsm_world where
  "demo_port = (case gsm_init_port 1 (Some 1) (static_world (\<lambda>_. 5) (\<lambda>_. [])) of
     Ret (_, w) \<Rightarrow> w | _ \<Rightarrow> static_world (\<lambda>_. 5) (\<lambda>_. []))"

lemma demo_port_fresh: "port_fresh 1 demo_port"
proof -
  let ?w = "static_world (\<lambda>_. 5) (\<lambda>_. [])"
  have "wp (gsm_init_port 1 (Some 1)) (\<lambda>r _. r = 0) ?w"
    by (simp add: gsm_init_port_def gsm_init_port_threads_def gsm_init_port_sems_def fopen_dev_def
        sem_init_def set_reader_def set_writer_def msgget_def wp static_world_def
        MAX_GSM_PORTS_def)
  moreover have "wp (gsm_init_port 1 (Some 1)) (\<lambda>r w'. gsm_inv w' \<and> (r = 0 \<or> r = - 1) \<and>
      (r = 0 \<longrightarrow> port_fresh 1 w')) ?w"
    by (rule gsm_init_port_fresh) (simp_all add: static_world_inv)
  ultimately show ?thesis by (auto simp: wp_def demo_port_def)
qed

lemma demo_port_open: "port_open 1 demo_port"
  using demo_port_fresh by (simp add: port_fresh_def)




section \<open>The exchange of a command\<close>

text \<open>
  The specification of \<open>send_expect\<close> by the lines the module sends: lines that echo the command, and
  when waiting every line that is neither the expected one nor a \<open>KILLME\<close>, are passed over; the
  next line is the answer.
\<close>

function stream_lines :: "bool \<Rightarrow> string \<Rightarrow> string list" where
  "stream_lines eof s = (if fgets_blocks eof 255 s then [] else case fgets 255 s of
     None \<Rightarrow> [] | Some (l, rest) \<Rightarrow> l # stream_lines eof rest)"
  by pat_completeness auto
termination
  by (relation "measure (\<lambda>(_, s). length s)") (auto dest: fgets_progress)

declare stream_lines.simps [simp del]

definition expect_skip :: "string \<Rightarrow> string \<Rightarrow> bool \<Rightarrow> string \<Rightarrow> bool" where
  "expect_skip send exp wait l \<longleftrightarrow> strcasecmp (line_text l) send = 0 \<or>
     wait \<and> strcasecmp (line_text l) exp \<noteq> 0 \<and> \<not> strstr (line_text l) ''KILLME''"

definition expect_answer :: "string \<Rightarrow> bool \<Rightarrow> string list \<Rightarrow> int \<times> string option" where
  "expect_answer exp wait ls = (case ls of [] \<Rightarrow> (- 1, None)
     | l # _ \<Rightarrow> if strcasecmp (line_text l) exp = 0 then (1, None)
               else (0, if wait then None else Some (line_text l)))"

lemma expect_answer_simps [simp]:
  "expect_answer exp wait [] = (- 1, None)"
  "expect_answer exp wait (l # ls) = (if strcasecmp (line_text l) exp = 0 then (1, None)
     else (0, if wait then None else Some (line_text l)))"
  by (simp_all add: expect_answer_def)

lemma fgets_blocks_None: "fgets 255 inp = None \<Longrightarrow> fgets_blocks eof 255 inp \<longleftrightarrow> \<not> eof"
  by (cases inp) (auto simp: fgets_blocks_def fgets_def)

lemma expect_loop_spec:
  "let ls = dropWhile (expect_skip send exp wait) (stream_lines eof inp) in
     if ls = [] \<and> \<not> eof then expect_loop eof send exp wait inp = Hang
     else \<exists>rest. expect_loop eof send exp wait inp =
            Ret (fst (expect_answer exp wait ls), snd (expect_answer exp wait ls), rest) \<and>
          stream_lines eof rest = drop 1 ls"
proof (induction eof send exp wait inp rule: expect_loop.induct)
  case (1 eof send exp wait inp)
  note step = expect_loop.simps [of eof send exp wait inp] stream_lines.simps [of eof inp]
  consider "fgets_blocks eof 255 inp" "\<not> eof" | "fgets 255 inp = None" "eof" "\<not> fgets_blocks eof 255 inp"
    | l s where "\<not> fgets_blocks eof 255 inp" "fgets 255 inp = Some (l, s)"
    using fgets_blocks_None [of inp eof] by (cases "fgets 255 inp") (auto simp: fgets_blocks_def)
  then show ?case
  proof cases
    case 3
    show ?thesis
    proof (cases "expect_skip send exp wait l")
      case True
      have "expect_loop eof send exp wait inp = expect_loop eof send exp wait s"
        using True by (auto simp: step(1) 3 expect_skip_def)
      moreover have "let ls = dropWhile (expect_skip send exp wait) (stream_lines eof s) in
         if ls = [] \<and> \<not> eof then expect_loop eof send exp wait s = Hang
         else \<exists>rest. expect_loop eof send exp wait s =
            Ret (fst (expect_answer exp wait ls), snd (expect_answer exp wait ls), rest) \<and>
          stream_lines eof rest = drop 1 ls"
      proof (cases "strcasecmp (line_text l) send = 0")
        case True
        show ?thesis by (rule "1.IH"(1) [OF 3 refl True])
      next
        case False
        then have "strcasecmp (line_text l) exp \<noteq> 0" "wait" "\<not> strstr (line_text l) ''KILLME''"
          using True by (simp_all add: expect_skip_def)
        then show ?thesis using "1.IH"(2) [OF 3 refl False] by blast
      qed
      ultimately show ?thesis using True by (simp only: step(2) 3 if_False option.case prod.case dropWhile.simps if_True)
    next
      case False
      then have "expect_loop eof send exp wait inp = Ret (fst (expect_answer exp wait [l]),
          snd (expect_answer exp wait [l]), s)"
        by (auto simp: step(1) 3 expect_skip_def)
      then show ?thesis using False by (auto simp: step(2) 3 Let_def)
    qed
  next
    case 1
    then have "stream_lines eof inp = []" "expect_loop eof send exp wait inp = Hang"
      by (subst step, simp only: if_True)+
    with 1 show ?thesis by simp
  next
    case 2
    then have "stream_lines eof inp = []" "expect_loop eof send exp wait inp = Ret (- 1, None, inp)"
      by (subst step, simp only: if_False option.case)+
    with 2 show ?thesis by simp
  qed
qed

lemma wp_wait4mod_ready:
  assumes "port_open p w" "fpw (ctlport w ! nat p) = Some fw" "fpr (ctlport w ! nat p) = Some fr"
    "0 < env w (calls w)"
  shows "wp (wait4mod p b) Q w = Q 1 (w\<lparr>calls := calls w + 1\<rparr>)"
  using assms port_openD [OF assms(1)] port_open_ctl_good [OF assms(1)]
  by (auto simp: wait4mod_def wp ctl_good_def)

lemma send_expect_ready:
  assumes "port_open p w" "fpw (ctlport w ! nat p) = Some fw" "fpr (ctlport w ! nat p) = Some fr"
    "0 < env w (calls w)" "0 < env w (calls w + 1)" "s \<noteq> []"
  shows "send_expect p s exp wait w = read_answer p s exp wait
    (w\<lparr>trace := trace w @ [Written fw s, Written fw [CR, LF]], calls := calls w + 2\<rparr>)"
  using assms port_openD [OF assms(1)] port_open_ctl_good [OF assms(1)]
  by (simp add: send_expect_def wait4mod_def wait4mod_w_def wait4mod_r_def gbind_def gthen_def ctl_get_def
      arr_get_def ask_def fputs_def emit_def modify_def ret_def ctl_good_def)

lemma wp_send_expect_answer:
  assumes "port_open p w" "fpw (ctlport w ! nat p) = Some fw" "fpr (ctlport w ! nat p) = Some fr"
    "0 < env w (calls w)" "0 < env w (calls w + 1)" "s \<noteq> []"
    and "expect_loop (modem_eof w (nat p)) s exp wait (modem_in w (nat p)) = Ret (r, resp, rest)"
  shows "wp (send_expect p s exp wait) Q w = Q (r, resp)
    (w\<lparr>trace := trace w @ [Written fw s, Written fw [CR, LF]], calls := calls w + 2,
      modem_in := (modem_in w)(nat p := rest)\<rparr>)"
  using wp_read_answer [of p s exp wait Q "w\<lparr>trace := trace w @ [Written fw s, Written fw [CR, LF]], calls := calls w + 2\<rparr>"]
    send_expect_ready [OF assms(1-6), of exp wait] assms(6,7)
  by (simp add: wp_def)

text \<open>
  C16. \<open>send_expect\<close> on a started port whose streams are open and ready: it writes the command and
  a line end, and its result is decided by the first line of the module that is not passed
  over (the echo of the command is; when \<open>wait\<close> is set, so is every other line but the expected
  one and a \<open>KILLME\<close>): 1 when that line is the expected one up to case, 0 with
  the line as response when it is another, -1 when the stream ends first. Exactly the lines up to
  the answer are consumed. When all the lines there are passed over and the stream has not ended, the
  call blocks in \<open>fgets\<close>: a module that stays silent keeps it for ever.
\<close>
theorem send_expect_exchange:
  assumes "port_open p w" "fpw (ctlport w ! nat p) = Some fw" "fpr (ctlport w ! nat p) = Some fr"
    "0 < env w (calls w)" "0 < env w (calls w + 1)" "s \<noteq> []"
    and "ls = dropWhile (expect_skip s exp wait) (stream_lines (modem_eof w (nat p)) (modem_in w (nat p)))"
  shows "if ls = [] \<and> \<not> modem_eof w (nat p) then send_expect p s exp wait w = Hang
    else \<exists>w'. send_expect p s exp wait w = Ret (expect_answer exp wait ls, w') \<and>
      trace w' = trace w @ [Written fw s, Written fw [CR, LF]] \<and>
      stream_lines (modem_eof w' (nat p)) (modem_in w' (nat p)) = drop 1 ls"
proof (cases "ls = [] \<and> \<not> modem_eof w (nat p)")
  case True
  then have "expect_loop (modem_eof w (nat p)) s exp wait (modem_in w (nat p)) = Hang"
    using expect_loop_spec [of s exp wait "modem_eof w (nat p)" "modem_in w (nat p)"] assms(7) by (simp add: Let_def)
  then have "send_expect p s exp wait w = Hang"
    using assms(6) unfolding send_expect_ready [OF assms(1-6)] by (simp add: read_answer_def gbind_def)
  with True show ?thesis by simp
next
  case False
  then obtain rest where rest: "expect_loop (modem_eof w (nat p)) s exp wait (modem_in w (nat p)) =
      Ret (fst (expect_answer exp wait ls), snd (expect_answer exp wait ls), rest)"
      "stream_lines (modem_eof w (nat p)) rest = drop 1 ls"
    using expect_loop_spec [of s exp wait "modem_eof w (nat p)" "modem_in w (nat p)"] assms(7)
    by (auto simp: Let_def split: if_splits)
  have "wp (send_expect p s exp wait) (\<lambda>x w'. x = expect_answer exp wait ls \<and>
      trace w' = trace w @ [Written fw s, Written fw [CR, LF]] \<and>
      stream_lines (modem_eof w' (nat p)) (modem_in w' (nat p)) = drop 1 ls) w"
    by (simp add: wp_send_expect_answer [OF assms(1-6) rest(1)] rest(2))
  with False show ?thesis by (auto simp: wp_def)
qed

text \<open>The streams of the example port.\<close>

lemma demo_port_streams:
  "fpw (ctlport demo_port ! nat 1) = Some 5" "fpr (ctlport demo_port ! nat 1) = Some 5"
  "env demo_port n = 5" "gsm_cfg demo_port = replicate 32 cfg_zero" "files demo_port = (\<lambda>_. None)"
  "cp_cfg (ctlport demo_port ! nat 1) = Some 1" "trace demo_port = []"
  "mqueue demo_port 1 = Some []" "write_mq_id (ctlport demo_port ! nat 1) = 1"
  "modem_eof demo_port = (\<lambda>_. True)"
proof -
  have "wp (gsm_init_port 1 (Some 1)) (\<lambda>r w'. fpw (ctlport w' ! nat 1) = Some 5 \<and>
      fpr (ctlport w' ! nat 1) = Some 5 \<and> env w' n = 5 \<and> gsm_cfg w' = replicate 32 cfg_zero \<and>
      files w' = (\<lambda>_. None) \<and> cp_cfg (ctlport w' ! nat 1) = Some 1 \<and> trace w' = [] \<and>
      mqueue w' 1 = Some [] \<and> write_mq_id (ctlport w' ! nat 1) = 1 \<and> modem_eof w' = (\<lambda>_. True))
      (static_world (\<lambda>_. 5) (\<lambda>_. []))" (is "wp _ (\<lambda>_. ?Q) _")
    by (simp add: gsm_init_port_def gsm_init_port_threads_def gsm_init_port_sems_def fopen_dev_def
        sem_init_def set_reader_def set_writer_def msgget_def wp static_world_def
        MAX_GSM_PORTS_def)
  then have "?Q demo_port" by (auto simp: wp_def demo_port_def)
  then show "fpw (ctlport demo_port ! nat 1) = Some 5" "fpr (ctlport demo_port ! nat 1) = Some 5"
    "env demo_port n = 5" "gsm_cfg demo_port = replicate 32 cfg_zero" "files demo_port = (\<lambda>_. None)"
    "cp_cfg (ctlport demo_port ! nat 1) = Some 1" "trace demo_port = []"
    "mqueue demo_port 1 = Some []" "write_mq_id (ctlport demo_port ! nat 1) = 1"
    "modem_eof demo_port = (\<lambda>_. True)"
    by blast+
qed

text \<open>The example port when its module sends an echo, a line of no interest and \<open>ok\<close>.\<close>

definition demo_chat :: gsm_world where
  "demo_chat = demo_port\<lparr>modem_in := (\<lambda>_. ''ATE0'' @ [CR, LF] @ ''RING'' @ [CR, LF] @ ''ok'' @ [CR, LF])\<rparr>"

theorem send_expect_exchange_witness:
  "\<exists>w'. send_expect 1 ''ATE0'' ''OK'' True demo_chat = Ret ((1, None), w') \<and>
     trace w' = [Written 5 ''ATE0'', Written 5 [CR, LF]]"
proof -
  have "dropWhile (expect_skip ''ATE0'' ''OK'' True)
      (stream_lines True (''ATE0'' @ [CR, LF] @ ''RING'' @ [CR, LF] @ ''ok'' @ [CR, LF])) =
    [''ok'' @ [CR, LF]]"
    by code_simp
  then show ?thesis
    using send_expect_exchange [of 1 demo_chat 5 5 "''ATE0''" "[''ok'' @ [CR, LF]]" "''OK''" True] demo_port_open
    by (auto simp: demo_chat_def demo_port_streams demo_port_streams [simplified] line_text_def cstring)
qed


section \<open>The initialisation of a module\<close>

lemma read_thread_ready_reader:
  assumes "port_open p w" "r = 0 \<or> r = - EWRONGPIN"
  shows "wp (read_thread_ready p r) (\<lambda>_ w'. port_open p w' \<and>
     (reader w' (nat p) = R_loop \<or> reader w' (nat p) = R_done)) w"
proof -
  have safe: "wp (read_thread_ready p r) (\<lambda>_. port_open p) w"
    using any_entry.safeD [OF any_entry.safe_read_thread_ready, of r p w] assms by simp
  have "reader v' (nat p) = R_loop \<or> reader v' (nat p) = R_done"
    if "read_thread_ready p r v = Ret ((), v')" for v v' :: gsm_world
    using that unfolding read_thread_ready_def
    by (auto simp: gthen_def gbind_def run_bind_Ret_iff set_reader_def modify_def ask_def
        split: if_splits)
  then show ?thesis using safe by (auto simp: wp_def)
qed



text \<open>
  The initialisation by a file of commands can free a pointer twice: \<open>resp\<close> is freed after each
  command that did not get its answer and never reset, so when the first command is answered by
  another line (which is stored) and the second finds the stream at its end (which stores
  nothing), the second \<open>free\<close> gets the pointer freed by the first.
\<close>
theorem init_file_frees_twice:
  "init_file_loop 1 (file_lines (''AT+CLIP=1 OK 0 0'' @ [LF] @ ''AT+CREG=1 OK 0 0'' @ [LF])) Resp_null
     (demo_port\<lparr>modem_in := (\<lambda>_. ''ERROR'' @ [CR, LF])\<rparr>) = Fault"
proof -
  have "faults (init_file_loop 1 (file_lines (''AT+CLIP=1 OK 0 0'' @ [LF] @ ''AT+CREG=1 OK 0 0'' @ [LF]))
     Resp_null (demo_port\<lparr>modem_in := (\<lambda>_. ''ERROR'' @ [CR, LF])\<rparr>))"
    by code_simp
  then show ?thesis by (simp only: faults_iff)
qed


section \<open>Gains\<close>

text \<open>
  A port whose streams are open and whose module and driver answer: the situation of the theorems on
  what is sent.
\<close>

definition port_ready :: "int \<Rightarrow> int \<Rightarrow> gsm_world \<Rightarrow> bool" where
  "port_ready p fw w \<longleftrightarrow> port_open p w \<and> fpw (ctlport w ! nat p) = Some fw \<and>
     fpr (ctlport w ! nat p) \<noteq> None \<and> (\<forall>n. 0 < env w n)"

lemma port_readyD:
  assumes "port_ready p fw w"
  obtains fr where "port_open p w" "fpw (ctlport w ! nat p) = Some fw"
    "fpr (ctlport w ! nat p) = Some fr" "\<And>n. 0 < env w n" "0 \<le> fw"
  using assms port_open_ctl_good [of p w] by (auto simp: port_ready_def ctl_good_def)

lemma wp_apply_gain:
  assumes "port_ready p fw w" "cmd \<noteq> []" "modem_eof w (nat p)"
  shows "wp (apply_gain (Some p) fw cmd req (Some e)) (\<lambda>_ w'. trace w' = trace w @
    [Written fw (cmd @ itoa (radio_value e)), Written fw [CR, LF], Ioctl fw req (codec_value e)]) w"
proof -
  obtain fr where o: "port_open p w" "fpw (ctlport w ! nat p) = Some fw"
    "fpr (ctlport w ! nat p) = Some fr" "\<And>n. 0 < env w n"
    using port_readyD [OF assms(1)] by metis
  obtain r resp rest where
    "expect_loop (modem_eof w (nat p)) (cmd @ itoa (radio_value e)) ''OK'' True (modem_in w (nat p)) = Ret (r, resp, rest)"
    using expect_loop_cases [of True "cmd @ itoa (radio_value e)" "''OK''" True "modem_in w (nat p)"] assms(3) by auto
  then show ?thesis
    using wp_send_expect_answer [OF o(1-3) o(4) o(4)] assms(2)
    by (simp add: apply_gain_def ioctl_def wp)
qed

text \<open>
  The gains of a port take effect whatever numbers the configuration has, where the stream of the
  module ends behind its bytes (a module that leaves the command unanswered keeps the caller waiting):
  \<open>gsm_set_rx_gain\<close> finds an entry of its table for the configured gain, or for 0 when
  that is out of range, sends the radio the volume of the entry (0 to 100) and sets the codec's
  transmit gain to that of the entry (0 to 24); \<open>gsm_set_tx_gain\<close> likewise, with the
  microphone gain (0 to 8) and the receive gain.
\<close>
theorem gains_applied:
  assumes "port_ready p fw w" "modem_eof w (nat p)" "0 \<le> k" "k < 32"
  shows "(\<exists>e w'. e \<in> set gsm_rx_gain_table \<and> table_value e = rx_gain_idx (rx_gain (gsm_cfg w ! nat k)) \<and>
      0 \<le> radio_value e \<and> radio_value e \<le> 100 \<and> 0 \<le> codec_value e \<and> codec_value e \<le> 24 \<and>
      gsm_set_rx_gain p (Some k) w = Ret ((), w') \<and> trace w' = trace w @
        [Written fw (''AT+CLVL='' @ itoa (radio_value e)), Written fw [CR, LF],
         Ioctl fw GSM_SET_TX_GAIN (codec_value e)]) \<and>
    (\<exists>e w'. e \<in> set gsm_tx_gain_table \<and> table_value e = tx_gain_idx (tx_gain (gsm_cfg w ! nat k)) \<and>
      0 \<le> radio_value e \<and> radio_value e \<le> 8 \<and> 0 \<le> codec_value e \<and> codec_value e \<le> 24 \<and>
      gsm_set_tx_gain p (Some k) w = Ret ((), w') \<and> trace w' = trace w @
        [Written fw (''AT+CMIC=0,'' @ itoa (radio_value e)), Written fw [CR, LF],
         Ioctl fw GSM_SET_RX_GAIN (codec_value e)])"
proof -
  obtain fr where o: "port_open p w" "fpw (ctlport w ! nat p) = Some fw" "0 \<le> fw"
    using port_readyD [OF assms(1)] by metis
  obtain rx where rx: "gain_lookup gsm_rx_gain_table (rx_gain_idx (rx_gain (gsm_cfg w ! nat k))) = Some rx"
    "rx \<in> set gsm_rx_gain_table" "table_value rx = rx_gain_idx (rx_gain (gsm_cfg w ! nat k))"
    using rx_gain_lookup_total .
  obtain tx where tx: "gain_lookup gsm_tx_gain_table (tx_gain_idx (tx_gain (gsm_cfg w ! nat k))) = Some tx"
    "tx \<in> set gsm_tx_gain_table" "table_value tx = tx_gain_idx (tx_gain (gsm_cfg w ! nat k))"
    using tx_gain_lookup_total .
  have rx_done: "wp (gsm_set_rx_gain p (Some k)) (\<lambda>_ w'. trace w' = trace w @
      [Written fw (''AT+CLVL='' @ itoa (radio_value rx)), Written fw [CR, LF],
       Ioctl fw GSM_SET_TX_GAIN (codec_value rx)]) w"
    using wp_apply_gain [OF assms(1) _ assms(2), of "''AT+CLVL=''" GSM_SET_TX_GAIN rx] o rx(1) assms
    by (simp add: gsm_set_rx_gain_def cfg_rx_gain_def wp port_openD [OF o(1)])
  have tx_done: "wp (gsm_set_tx_gain p (Some k)) (\<lambda>_ w'. trace w' = trace w @
      [Written fw (''AT+CMIC=0,'' @ itoa (radio_value tx)), Written fw [CR, LF],
       Ioctl fw GSM_SET_RX_GAIN (codec_value tx)]) w"
    using wp_apply_gain [OF assms(1) _ assms(2), of "''AT+CMIC=0,''" GSM_SET_RX_GAIN tx] o tx(1) assms
    by (simp add: gsm_set_tx_gain_def cfg_tx_gain_def wp port_openD [OF o(1)])
  show ?thesis
  proof (intro conjI)
    show "\<exists>e w'. e \<in> set gsm_rx_gain_table \<and> table_value e = rx_gain_idx (rx_gain (gsm_cfg w ! nat k)) \<and>
      0 \<le> radio_value e \<and> radio_value e \<le> 100 \<and> 0 \<le> codec_value e \<and> codec_value e \<le> 24 \<and>
      gsm_set_rx_gain p (Some k) w = Ret ((), w') \<and> trace w' = trace w @
        [Written fw (''AT+CLVL='' @ itoa (radio_value e)), Written fw [CR, LF],
         Ioctl fw GSM_SET_TX_GAIN (codec_value e)]"
      using rx_done rx(2,3) bspec [OF gain_tables_bounded(1) rx(2)]
      by (intro exI [of _ rx]) (auto simp: wp_def)
    show "\<exists>e w'. e \<in> set gsm_tx_gain_table \<and> table_value e = tx_gain_idx (tx_gain (gsm_cfg w ! nat k)) \<and>
      0 \<le> radio_value e \<and> radio_value e \<le> 8 \<and> 0 \<le> codec_value e \<and> codec_value e \<le> 24 \<and>
      gsm_set_tx_gain p (Some k) w = Ret ((), w') \<and> trace w' = trace w @
        [Written fw (''AT+CMIC=0,'' @ itoa (radio_value e)), Written fw [CR, LF],
         Ioctl fw GSM_SET_RX_GAIN (codec_value e)]"
      using tx_done tx(2,3) bspec [OF gain_tables_bounded(2) tx(2)]
      by (intro exI [of _ tx]) (auto simp: wp_def)
  qed
qed

lemma demo_port_ready: "port_ready 1 5 demo_port"
  using demo_port_open by (simp add: port_ready_def demo_port_streams [simplified])

theorem gains_applied_witness:
  "\<exists>(e :: gain_tbl_entry) w'. table_value e = 0 \<and> gsm_set_rx_gain 1 (Some 1) demo_port = Ret ((), w') \<and>
     trace w' = [Written 5 (''AT+CLVL='' @ itoa (radio_value e)), Written 5 [CR, LF],
       Ioctl 5 GSM_SET_TX_GAIN (codec_value e)]"
proof -
  have le: "0 \<le> (1 :: int)" "(1 :: int) < 32" by simp_all
  obtain e :: gain_tbl_entry and w' where e: "table_value e = rx_gain_idx (rx_gain (gsm_cfg demo_port ! nat 1))"
    "gsm_set_rx_gain 1 (Some 1) demo_port = Ret ((), w')"
    "trace w' = trace demo_port @ [Written 5 (''AT+CLVL='' @ itoa (radio_value e)),
       Written 5 [CR, LF], Ioctl 5 GSM_SET_TX_GAIN (codec_value e)]"
    using conjunct1 [OF gains_applied [OF demo_port_ready _ le]] unfolding demo_port_streams(10) by blast
  have "table_value e = 0"
    using e(1) by (simp add: demo_port_streams [simplified] cfg_zero_def rx_gain_idx_def gain_limits)
  then show ?thesis using e(2,3) unfolding demo_port_streams(7) append_Nil by blast
qed


section \<open>Numbering of channels\<close>

text \<open>The text of \<open>/proc/driver/taco\<close>: two words, then the names of the two modules.\<close>

definition wordlike :: "string \<Rightarrow> bool" where
  "wordlike s \<longleftrightarrow> s \<noteq> [] \<and> (\<forall>c \<in> set s. \<not> isspace c)"

definition taco_text :: "string \<Rightarrow> string \<Rightarrow> string \<Rightarrow> string \<Rightarrow> string" where
  "taco_text a b m1 m2 = a @ '' '' @ b @ '' '' @ m1 @ ''/'' @ m2 @ [LF]"

lemma scan_word_word:
  assumes "wordlike v" "rest = [] \<or> isspace (hd rest)"
  shows "scan_word (v @ rest) = Some (v, rest)"
proof -
  obtain c cs where v: "v = c # cs" "\<not> isspace c" using assms(1) by (cases v) (auto simp: wordlike_def)
  have all: "\<forall>c \<in> set v. \<not> isspace c" using assms(1) by (simp add: wordlike_def)
  have "dropWhile isspace (v @ rest) = v @ rest" using v by simp
  moreover have "takeWhile (\<lambda>c. \<not> isspace c) (v @ rest) = v"
    using all assms(2) by (cases rest) (auto simp: takeWhile_append2)
  moreover have "dropWhile (\<lambda>c. \<not> isspace c) (v @ rest) = rest"
    using all assms(2) by (cases rest) (auto simp: dropWhile_append2)
  ultimately show ?thesis using v by (simp add: scan_word_def)
qed

lemma isspace_sp [simp]: "isspace (CHR '' '')" "isspace LF"
  by (simp_all add: isspace_def)

lemma scan_word_blank: "isspace c \<Longrightarrow> scan_word (c # s) = scan_word s"
  by (simp add: scan_word_def)

lemma scan_taco_text:
  assumes "wordlike a" "wordlike b" "wordlike m1" "wordlike m2" "CHR ''/'' \<notin> set m1"
  shows "scan_taco (taco_text a b m1 m2) = (Some m1, Some m2)"
proof -
  obtain c cs where m1: "m1 = c # cs" "\<not> isspace c" using assms(3) by (cases m1) (auto simp: wordlike_def)
  have 1: "scan_word (a @ CHR '' '' # s) = Some (a, CHR '' '' # s)" for s
    by (rule scan_word_word) (simp_all add: assms)
  have 2: "scan_word (CHR '' '' # b @ CHR '' '' # s) = Some (b, CHR '' '' # s)" for s
    by (simp add: scan_word_blank) (rule scan_word_word, simp_all add: assms)
  have 3: "scan_word (m2 @ [LF]) = Some (m2, [LF])"
    by (rule scan_word_word) (simp_all add: assms)
  have 4: "takeWhile (\<lambda>c. c \<noteq> CHR ''/'') (m1 @ CHR ''/'' # s) = m1"
    "dropWhile (\<lambda>c. c \<noteq> CHR ''/'') (m1 @ CHR ''/'' # s) = CHR ''/'' # s" for s
    using assms(5) by (auto simp: takeWhile_append dropWhile_append)
  have 5: "dropWhile isspace (CHR '' '' # m1 @ s) = m1 @ s" for s
    using m1 by simp
  show ?thesis
    unfolding scan_taco_def taco_text_def
    by (simp only: append.simps 1 2 3 4 5 option.case prod.case Let_def list.sel option.map fst_conv)
       (use m1 in simp)
qed

text \<open>
  The channels of a system are numbered by the modules its driver reports: with a GSM module in the
  first place the four channels are 1, 2, 5 and 6, with one only in the second place they are 5, 6, 9
  and 10, a number outside 1 to 4 is refused, and two channels never get the same number. The report
  is read once and its result kept.
\<close>
theorem channel_numbers:
  assumes "channel_mask w = - 1" "files w ''/proc/driver/taco'' = Some (taco_text a b m1 m2)"
    and "wordlike a" "wordlike b" "wordlike m1" "wordlike m2" "CHR ''/'' \<notin> set m1"
    and "length m1 < GSM_MAX_STR" "length m2 < GSM_MAX_STR"
    and "ids = (if \<not> strncmp_prefix ''GSM'' m1 \<and> strncmp_prefix ''GSM'' m2 then [5, 6, 9, 10] else [1, 2, 5, 6])"
  shows "(1 \<le> c \<and> c \<le> 4 \<longrightarrow> (\<exists>m. gsm_translate_channel c w =
            Ret ((0, Some (ids ! nat (c - 1))), w\<lparr>channel_mask := m\<rparr>) \<and> 0 \<le> m)) \<and>
         (\<not> (1 \<le> c \<and> c \<le> 4) \<longrightarrow> (\<exists>w'. gsm_translate_channel c w = Ret ((- 1, None), w'))) \<and>
         distinct (ids :: int list)"
proof -
  define m :: int where "m = ((if strncmp_prefix ''GSM'' m1 then 0x03 else 0) OR
    (if strncmp_prefix ''GSM'' m2 then 0x30 else 0))"
  have mask: "wp gsm_get_channel_mask (\<lambda>r w'. r = m \<and> w' = w) w"
    using assms by (simp add: gsm_get_channel_mask_def wp scan_taco_text m_def)
  then have "wp gsm_get_channel_mask Q w = Q m w" for Q by (auto simp: wp_def)
  then have off: "wp gsm_get_channel_offset (\<lambda>r w'. r = (if m = 0x30 then 4 else 0) \<and>
      w' = w\<lparr>channel_mask := m\<rparr>) w"
    using assms(1) by (simp add: gsm_get_channel_offset_def wp)
  have m: "0 \<le> m" "m = 0x30 \<longleftrightarrow> \<not> strncmp_prefix ''GSM'' m1 \<and> strncmp_prefix ''GSM'' m2"
    by (auto simp: m_def)
  have ids: "[1, 2, 5, 6] ! nat (c - 1) + (if m = 0x30 then 4 else 0) = ids ! nat (c - 1)"
    if "1 \<le> c \<and> c \<le> 4"
  proof -
    have "nat (c - 1) \<in> {0, 1, 2, 3}" using that by auto
    then show ?thesis using assms(10) m(2) by (auto simp: numeral_3_eq_3 numeral_2_eq_2)
  qed
  show ?thesis
    using off ids m(1) assms(10)
    by (auto simp: gsm_translate_channel_def gbind_def wp_def ret_def)
qed


definition demo_taco :: gsm_world where
  "demo_taco = (static_world (\<lambda>_. 5) (\<lambda>_. []))
     \<lparr>files := (\<lambda>_. None)(''/proc/driver/taco'' \<mapsto> taco_text ''warp'' ''modules:'' ''FXO'' ''GSM'')\<rparr>"

theorem channel_numbers_witness:
  "\<exists>m. gsm_translate_channel 3 demo_taco = Ret ((0, Some 9), demo_taco\<lparr>channel_mask := m\<rparr>)"
  using channel_numbers [of demo_taco "''warp''" "''modules:''" "''FXO''" "''GSM''" "[5, 6, 9, 10]" 3]
  by (auto simp: demo_taco_def static_world_def wordlike_def isspace_def GSM_MAX_STR_def
      strncmp_prefix_def numeral_2_eq_2)

end
