(* ===== verification/Gsmctl_Threads.thy ===== *)
theory Gsmctl_Threads
  imports Gsmctl_Calls "HOL-Library.Sublist"
begin

text \<open>
  The threads of a port of the GSM control library together: clients that queue commands
  (\<open>gsm_send\<close>), the writer thread, the reader thread, and whoever gives the permission for the next
  command (\<open>gsm_post_next_msg\<close>, called for an answer of the module and by the watchdog timer).

  \<open>port_step\<close> is one atomic step of one of them, with a label for what matters;
  \<open>port_run\<close> a sequence of steps. The invariant \<open>comm_inv\<close> counts commands, semaphore
  values, threads in flight and the texts written to streams (\<open>writes\<close> of the trace of system calls). It
  gives the order and the completeness of what is written, and that each permission lets one command out. The last sections are about the end of a port, and about two orders
  of steps the code does not exclude.
\<close>


section \<open>What the exchange with a module leaves alone\<close>

lemma wp_RetD: "wp m P w \<Longrightarrow> m w = Ret (x, w') \<Longrightarrow> P x w'"
  by (auto simp: wp_def)

lemma wp_seq: "wp m (\<lambda>_. P) w \<Longrightarrow> (\<And>w'. P w' \<Longrightarrow> wp n Q w') \<Longrightarrow> wp (gthen m n) Q w"
  unfolding wp_gthen by (rule wp_mono)

lemma getctlport_open: "port_open p w \<Longrightarrow> getctlport p w = Ret (Some p, w)"
  unfolding wp_Ret [symmetric] by simp

text \<open>What was written to streams, with the descriptors, and the part of the world the threads communicate through.\<close>

fun written :: "effect \<Rightarrow> (int \<times> string) list" where
  "written (Written fd s) = [(fd, s)]" | "written _ = []"

definition writes :: "gsm_world \<Rightarrow> (int \<times> string) list" where
  "writes w = concat (map written (trace w))"

definition comm_part ::
  "gsm_world \<Rightarrow> (int \<Rightarrow> string list option) \<times> nat option list \<times> nat option list \<times> (nat \<Rightarrow> writer_pc) \<times>
    (int \<times> bool) list \<times> (int \<times> string) list"
where
  "comm_part w = (mqueue w, sems w write_sem, sems w avail_sem, writer w,
     map (\<lambda>c. (write_mq_id c, cp_state c = CTLPORT_STATE_KILLME)) (ctlport w), writes w)"

lemma writes_frame [simp]:
  "writes (w\<lparr>calls := n\<rparr>) = writes w" "writes (w\<lparr>modem_in := mi\<rparr>) = writes w"
  "writes (w\<lparr>modem_eof := me\<rparr>) = writes w" "writes (w\<lparr>reader := rd\<rparr>) = writes w"
  "writes (w\<lparr>writer := h\<rparr>) = writes w" "writes (w\<lparr>mqueue := q\<rparr>) = writes w"
  "writes (w\<lparr>sems := f\<rparr>) = writes w" "writes (w\<lparr>ctlport := cs\<rparr>) = writes w"
  "writes (w\<lparr>wdog_timer := ts\<rparr>) = writes w" "writes (w\<lparr>files := fs\<rparr>) = writes w"
  "writes (w\<lparr>debug := d\<rparr>) = writes w"
  "writes (w\<lparr>trace := trace w @ es\<rparr>) = writes w @ concat (map written es)"
  by (simp_all add: writes_def)

definition quiet :: "'a gm \<Rightarrow> bool" where
  "quiet m \<longleftrightarrow> (\<forall>w x w'. m w = Ret (x, w') \<longrightarrow> comm_part w' = comm_part w)"

named_theorems quiet \<comment> \<open>statements and operations that leave \<open>comm_part\<close> alone\<close>

lemma quietD: "quiet m \<Longrightarrow> m w = Ret (x, w') \<Longrightarrow> comm_part w' = comm_part w"
  by (simp add: quiet_def)

lemma quiet_basic [quiet]:
  "quiet (ret x)" "quiet fault" "quiet hang" "quiet (gets f)" "quiet ask"
  "quiet (emit (Ioctl fd cmd arg))" "quiet (emit (Event i s))" "quiet (emit (Closed fd))" "quiet (emit (Verbose s))"
  by (simp_all add: quiet_def ret_def fault_def hang_def gets_def ask_def emit_def modify_def comm_part_def)

lemma quiet_gbind [quiet]: "quiet m \<Longrightarrow> (\<And>x. quiet (f x)) \<Longrightarrow> quiet (gbind m f)"
  by (fastforce simp: quiet_def gbind_def run_bind_Ret_iff)

lemma quiet_gthen [quiet]: "quiet m \<Longrightarrow> quiet n \<Longrightarrow> quiet (gthen m n)"
  by (simp add: gthen_def quiet_gbind)

lemma quiet_if [quiet]: "quiet m \<Longrightarrow> quiet n \<Longrightarrow> quiet (if b then m else n)"
  by simp

lemma quiet_option [quiet]:
  "quiet m \<Longrightarrow> (\<And>x. quiet (f x)) \<Longrightarrow> quiet (case v of None \<Rightarrow> m | Some x \<Rightarrow> f x)"
  by (cases v) auto

lemma quiet_prod [quiet]: "(\<And>x y. quiet (f x y)) \<Longrightarrow> quiet (case z of (x, y) \<Rightarrow> f x y)"
  by (cases z) auto

lemma quiet_deref [quiet]: "(\<And>i. quiet (f i)) \<Longrightarrow> quiet (deref ctl f)"
  by (cases ctl) (simp_all add: deref_def quiet)

lemma quiet_reads [quiet]:
  "quiet (ctl_get i)" "quiet (cfg_get i)" "quiet (timer_get i)" "quiet (sem_get s i)"
  "quiet (getctlport p)" "quiet (gsm_port_is_valid p)"
  by (auto simp: quiet_def ctl_get_def cfg_get_def timer_get_def sem_get_def run_map_Ret_iff
      getctlport_def gsm_port_is_valid_def gets_def gbind_def ret_def)

lemma quiet_writes [quiet]:
  "quiet (timer_put i t)" "quiet (set_reader i pc)" "quiet (take_input i rest)"
  "quiet (modify (\<lambda>w. w\<lparr>modem_in := mi w\<rparr>))" "quiet (modify (\<lambda>w. w\<lparr>files := fs w\<rparr>))"
  "quiet (modify (\<lambda>w. w\<lparr>debug := d\<rparr>))" "quiet (sem_put ready i v)"
  by (auto simp: quiet_def timer_put_def run_map_Ret_iff comm_part_def set_reader_def
      take_input_def modify_def sem_put_def)

lemma map_update_same: "f y = f (xs ! n) \<Longrightarrow> map f (xs[n := y]) = map f xs"
  by (cases "n < length xs") (simp_all add: map_update list_update_same_conv list_update_beyond not_less)

lemma quiet_ctl_upd [quiet]:
  assumes "\<And>c. write_mq_id (f c) = write_mq_id c"
    and "\<And>c. (cp_state (f c) = CTLPORT_STATE_KILLME) = (cp_state c = CTLPORT_STATE_KILLME)"
  shows "quiet (ctl_upd i f)"
proof -
  have "map (\<lambda>c. (write_mq_id c, cp_state c = CTLPORT_STATE_KILLME)) (cs[n := f (cs ! n)]) =
      map (\<lambda>c. (write_mq_id c, cp_state c = CTLPORT_STATE_KILLME)) cs" for cs n
    using assms by (intro map_update_same) simp
  then show ?thesis
    by (auto simp: quiet_def ctl_upd_def ctl_get_def gbind_def run_bind_Ret_iff run_map_Ret_iff
        comm_part_def arr_get_def arr_set_def split: if_splits)
qed

lemma quiet_timers [quiet]:
  "quiet (timer_settime i n)" "quiet (timer_create i)" "quiet (gsm_start_check_timer i)"
  "quiet (gsm_stop_check_timer i)" "quiet (ioctl fd cmd arg)"
  "quiet (into_buffer k s)"
proof -
  show s: "quiet (timer_settime i n)" for i n
    unfolding timer_settime_def by (intro quiet) (auto split: timer_id.split intro!: quiet)
  show c: "quiet (timer_create i)" for i
    unfolding timer_create_def by (intro quiet)
  show "quiet (gsm_start_check_timer i)" unfolding gsm_start_check_timer_def by (intro quiet s c)
  show "quiet (gsm_stop_check_timer i)" unfolding gsm_stop_check_timer_def by (intro quiet s c)
  show "quiet (ioctl fd cmd arg)" unfolding ioctl_def by (intro quiet)
  show "quiet (into_buffer k s)" unfolding into_buffer_def by (intro quiet)
qed

lemma quiet_gsm_close_port [quiet]: "quiet (gsm_close_port p)"
  unfolding gsm_close_port_def by (rule quiet | simp)+

lemma quiet_wait4mod [quiet]: "quiet (wait4mod_w i)" "quiet (wait4mod_r i)"
  unfolding wait4mod_w_def wait4mod_r_def wait4mod_def by (rule quiet | simp)+

lemma quiet_event [quiet]: "quiet (event p s)"
  unfolding event_def by (intro quiet)

lemma quiet_report_line [quiet]: "quiet (report_line i line)"
  unfolding report_line_def by (rule quiet | simp)+

text \<open>A change of the state that is no \<open>KILLME\<close> before nor after.\<close>

lemma comm_part_state_upd:
  assumes "cp_state (ctlport w ! nat i) \<noteq> CTLPORT_STATE_KILLME" "st \<noteq> CTLPORT_STATE_KILLME"
    and "ctl_upd i (\<lambda>c. c\<lparr>cp_state := st\<rparr>) w = Ret (x, w')"
  shows "comm_part w' = comm_part w"
proof -
  have "map (\<lambda>c. (write_mq_id c, cp_state c = CTLPORT_STATE_KILLME))
      ((ctlport w)[nat i := (ctlport w ! nat i)\<lparr>cp_state := st\<rparr>]) =
    map (\<lambda>c. (write_mq_id c, cp_state c = CTLPORT_STATE_KILLME)) (ctlport w)"
    using assms(1,2) by (intro map_update_same) simp
  then show ?thesis
    using assms(3) by (auto simp: ctl_upd_def ctl_get_def gbind_def run_bind_Ret_iff run_map_Ret_iff
        comm_part_def arr_get_def arr_set_def split: if_splits)
qed

lemma quiet_read_iteration [quiet]: "quiet (read_iteration i)"
  unfolding read_iteration_def by (rule quiet | simp)+

lemma read_prompt_part:
  assumes "cp_state (ctlport w ! nat i) \<noteq> CTLPORT_STATE_KILLME" "read_prompt i w = Ret (x, w')"
  shows "comm_part w' = comm_part w"
proof (cases "prompt_blocks (modem_eof w (nat i)) (modem_in w (nat i))")
  case True
  then show ?thesis
    using assms(2) by (auto simp: read_prompt_def gbind_def run_bind_Ret_iff ctl_get_def arr_get_def
        run_map_Ret_iff gets_def fault_def ret_def split: if_splits)
next
  case False
  obtain line rest where sms: "sms_prompt (modem_in w (nat i)) = (line, rest)" by fastforce
  define w1 where "w1 = w\<lparr>modem_in := (modem_in w)(nat i := rest)\<rparr>"
  have w1: "comm_part w1 = comm_part w" "cp_state (ctlport w1 ! nat i) \<noteq> CTLPORT_STATE_KILLME"
    using assms(1) by (simp_all add: w1_def comm_part_def)
  obtain y w2 where w2: "ctl_upd i (\<lambda>c. c\<lparr>cp_state := CTLPORT_STATE_NONE\<rparr>) w1 = Ret (y, w2)"
    and w': "report_line i line w2 = Ret ((), w')"
    using assms(2) False sms
    by (auto simp: read_prompt_def gbind_def gthen_def run_bind_Ret_iff ctl_get_def arr_get_def
        run_map_Ret_iff gets_def fault_def take_input_def modify_def w1_def ret_def split: if_splits)
  show ?thesis
    using comm_part_state_upd [OF w1(2) _ w2] quietD [OF quiet_report_line w'] w1(1) by simp
qed

text \<open>
  What \<open>gsm_send_raw\<close> writes, and where to: nothing when a stream of the port is closed or the wait for the
  module fails; the streams are closed then.
\<close>

definition target :: "int \<Rightarrow> gsm_world \<Rightarrow> int option" where
  "target p w = (case (fpw (ctlport w ! nat p), fpr (ctlport w ! nat p)) of
     (Some fw, Some fr) \<Rightarrow> if 0 < env w (calls w) then Some fw else None | _ \<Rightarrow> None)"

definition line_to :: "string \<Rightarrow> int option \<Rightarrow> (int \<times> string) list" where
  "line_to s tgt = (case tgt of None \<Rightarrow> [] | Some fd \<Rightarrow> [(fd, cut_at LF s)])"

lemma send_raw_effect:
  assumes o: "port_open p w" and run: "gsm_send_raw p s w = Ret (r, w')"
  shows "port_open p w' \<and> comm_part w' =
    comm_part (w\<lparr>trace := trace w @ map (\<lambda>(fd, l). Written fd l) (line_to s (target p w))\<rparr>)"
proof -
  have "port_open p w'"
    using any_entry.safeD [OF any_entry.safe_gsm_send_raw, of p w] assms by (auto dest: wp_RetD)
  moreover have "comm_part w' = comm_part (w\<lparr>trace := trace w @ map (\<lambda>(fd, l). Written fd l) (line_to s (target p w))\<rparr>)"
  proof (cases "target p w")
    case None
    have neg: "wp (wait4mod p True) (\<lambda>r w'. r < 0 \<and> comm_part w' = comm_part w \<and> port_open p w') w"
      using o None port_openD [OF o] port_open_ctl_good [OF o]
      by (auto simp: wait4mod_def target_def wp comm_part_def ctl_good_def split: option.splits if_splits)
    then obtain n v where v: "wait4mod p True w = Ret (n, v)" "n < 0" "comm_part v = comm_part w" "port_open p v"
      by (auto simp: wp_def)
    have "quiet (gthen (gsm_close_port p) (ret (- 1 :: int)))" by (intro quiet quiet_gsm_close_port)
    moreover have "gthen (gsm_close_port p) (ret (- 1)) v = Ret (r, w')"
      using run o v getctlport_open [OF o] port_openD [OF v(4)]
      by (simp add: gsm_send_raw_def wait4mod_w_def gbind_def ctl_get_def arr_get_def)
    ultimately show ?thesis using v(3) None quietD by (fastforce simp: line_to_def)
  next
    case (Some fw)
    then have "wp (gsm_send_raw p s) (\<lambda>_ w'. comm_part w' = comm_part (w\<lparr>trace := trace w @ [Written fw (cut_at LF s)]\<rparr>)) w"
      using o port_openD [OF o] port_open_ctl_good [OF o]
      by (auto simp: gsm_send_raw_def wait4mod_w_def wait4mod_def target_def wp comm_part_def writes_def ctl_good_def
          split: option.splits if_splits)
    then show ?thesis using run Some by (auto simp: line_to_def dest: wp_RetD)
  qed
  ultimately show ?thesis by simp
qed

lemma send_command_effect:
  assumes o: "port_open p w" and m: "length m \<le> 255" and run: "gsm_send_command p m w = Ret (r, w')"
  shows "port_open p w' \<and> comm_part w' =
    comm_part (w\<lparr>trace := trace w @ map (\<lambda>(fd, l). Written fd l) (line_to (m @ [CR, LF]) (target p w))\<rparr>)"
proof -
  define v where "v = w\<lparr>ctlport := (ctlport w)[nat p := (ctlport w ! nat p)\<lparr>last_cmd_sent := take GSM_CMD_LENGTH m\<rparr>]\<rparr>"
  have v: "port_open p v" unfolding v_def
    using o port_openD [OF o] by (intro port_open_ctl_upd) (auto simp: port_open_ctl_good port_open_def GSM_CMD_LENGTH_def)
  have "target p v = target p w" "comm_part (v\<lparr>trace := trace v @ es\<rparr>) = comm_part (w\<lparr>trace := trace w @ es\<rparr>)" for es
    using port_openD [OF o] by (simp_all add: v_def target_def comm_part_def map_update_same writes_def split: option.split)
  moreover obtain r' where "gsm_send_raw p (m @ [CR, LF]) v = Ret (r', w')"
    using run o m getctlport_open [OF o] port_openD [OF o]
    by (auto simp: gsm_send_command_def gbind_def gthen_def deref_def ctl_upd_def ctl_get_def arr_get_def arr_set_def
        run_bind_Ret_iff into_buffer_def GSM_CMD_LENGTH_def ret_def v_def)
  ultimately show ?thesis using send_raw_effect [OF v] by metis
qed


section \<open>Steps and runs\<close>

text \<open>
  The world, the clients between \<open>msgsnd\<close> and \<open>sem_post\<close> in \<open>gsm_send\<close>, and the threads in
  \<open>gsm_post_next_msg\<close> that have seen \<open>avail_sem\<close> at 0 and not posted it yet. \<open>Sent\<close> is the call of
  \<open>gsm_send_command\<close> by the writer, \<open>Raw\<close> a call of \<open>gsm_send_raw\<close>; both carry the descriptor the text goes to,
  if any. The module may send bytes and end its stream at any moment.
\<close>

type_synonym port_state = "gsm_world \<times> nat \<times> nat"

datatype label = Enqueued string | Granted | Sent string "int option" | Raw string "int option" | Silent

text \<open>The calls that are no part of the flow of commands.\<close>

fun side_call :: "gsm_call \<Rightarrow> bool" where
  "side_call (Send_raw _) = False" | "side_call (Send _) = False" | "side_call Start_timer = False"
| "side_call Stop_timer = False" | "side_call Destroy_timer = False" | "side_call Post_next = False"
| "side_call Timer_expired = False" | "side_call Writer_runs = False" | "side_call _ = True"

inductive port_step :: "int \<Rightarrow> port_state \<Rightarrow> label \<Rightarrow> port_state \<Rightarrow> bool" for p where
  enqueue: "gsm_send_enqueue p s w = Ret (0, w') \<Longrightarrow>
    port_step p (w, a, g) (Enqueued s) (w', Suc a, g)"
| refuse: "gsm_send_enqueue p s w = Ret (- 1, w') \<Longrightarrow> port_step p (w, a, g) Silent (w', a, g)"
| wake: "sem_post write_sem p w = Ret ((), w') \<Longrightarrow> port_step p (w, Suc a, g) Silent (w', a, g)"
| observe: "gsm_post_check p w = Ret (True, w') \<Longrightarrow> port_step p (w, a, g) Silent (w', a, Suc g)"
| grant: "gsm_post_grant p w = Ret ((), w') \<Longrightarrow> port_step p (w, a, Suc g) Granted (w', a, g)"
| transmit: "writer_step p w = Ret (True, w') \<Longrightarrow> writer w (nat p) = W_write m \<Longrightarrow>
    port_step p (w, a, g) (Sent m (target p w)) (w', a, g)"
| advance: "writer_step p w = Ret (True, w') \<Longrightarrow> (\<And>m. writer w (nat p) \<noteq> W_write m) \<Longrightarrow>
    port_step p (w, a, g) Silent (w', a, g)"
| raw: "gsm_send_raw p s w = Ret (r, w') \<Longrightarrow> port_step p (w, a, g) (Raw s (target p w)) (w', a, g)"
| receive: "reader_step p w = Ret (True, w') \<Longrightarrow> reader w (nat p) \<in> {R_loop, R_read, R_prompt} \<Longrightarrow>
    port_step p (w, a, g) Silent (w', a, g)"
| arrive: "port_step p (w, a, g) Silent (w\<lparr>modem_in := (modem_in w)(nat p := modem_in w (nat p) @ s)\<rparr>, a, g)"
| hang_up: "port_step p (w, a, g) Silent (w\<lparr>modem_eof := (modem_eof w)(nat p := True)\<rparr>, a, g)"
| side: "run_call p c w = Ret ((), w') \<Longrightarrow> side_call c \<Longrightarrow> port_step p (w, a, g) Silent (w', a, g)"

inductive port_run :: "int \<Rightarrow> port_state \<Rightarrow> label list \<Rightarrow> port_state \<Rightarrow> bool" for p s where
  run_nil: "port_run p s [] s"
| run_snoc: "port_run p s ls s' \<Longrightarrow> port_step p s' l s'' \<Longrightarrow> port_run p s (ls @ [l]) s''"

fun enqueued :: "label \<Rightarrow> string list" where
  "enqueued (Enqueued s) = [s]" | "enqueued _ = []"

fun sent :: "label \<Rightarrow> string list" where
  "sent (Sent s tgt) = [s]" | "sent _ = []"

fun raw :: "label \<Rightarrow> nat" where
  "raw (Raw s tgt) = 1" | "raw _ = 0"

fun dropped :: "label \<Rightarrow> nat" where
  "dropped (Sent s None) = 1" | "dropped (Raw s None) = 1" | "dropped _ = 0"

text \<open>The lines a step writes.\<close>

fun lines_of :: "label \<Rightarrow> (int \<times> string) list" where
  "lines_of (Sent m tgt) = line_to (m @ [CR, LF]) tgt" | "lines_of (Raw s tgt) = line_to s tgt" | "lines_of _ = []"

definition enqueued_of :: "label list \<Rightarrow> string list" where
  "enqueued_of ls = concat (map enqueued ls)"

definition sent_of :: "label list \<Rightarrow> string list" where
  "sent_of ls = concat (map sent ls)"

definition granted_of :: "label list \<Rightarrow> nat" where
  "granted_of ls = length (filter (\<lambda>l. l = Granted) ls)"

definition raw_of :: "label list \<Rightarrow> nat" where
  "raw_of ls = sum_list (map raw ls)"

definition dropped_of :: "label list \<Rightarrow> nat" where
  "dropped_of ls = sum_list (map dropped ls)"

definition written_of :: "label list \<Rightarrow> (int \<times> string) list" where
  "written_of ls = concat (map lines_of ls)"


section \<open>The accounts of a port\<close>

text \<open>The command the writer holds; whether it took a token of \<open>write_sem\<close>, and of \<open>avail_sem\<close>.\<close>

fun held :: "writer_pc \<Rightarrow> string list" where
  "held (W_avail m) = [m]" | "held (W_send m) = [m]" | "held (W_write m) = [m]" | "held _ = []"

definition woken :: "writer_pc \<Rightarrow> nat" where
  "woken pc = (if pc = W_woken then 1 else 0)"

fun sending :: "writer_pc \<Rightarrow> nat" where
  "sending (W_send m) = 1" | "sending (W_write m) = 1" | "sending _ = 0"

definition comm_inv :: "int \<Rightarrow> (int \<times> string) list \<Rightarrow> label list \<Rightarrow> port_state \<Rightarrow> bool" where
  "comm_inv p t0 ls = (\<lambda>(w, a, g). port_open p w \<and> writes w = t0 @ written_of ls \<and>
     cp_state (ctlport w ! nat p) \<noteq> CTLPORT_STATE_KILLME \<and> write_mq_id (ctlport w ! nat p) = p \<and>
     writer w (nat p) \<notin> {W_none, W_done} \<and> (\<exists>q ws av. mqueue w p = Some q \<and> sems w write_sem ! nat p = Some ws \<and>
        sems w avail_sem ! nat p = Some av \<and>
        enqueued_of ls = sent_of ls @ held (writer w (nat p)) @ q \<and>
        length q = ws + a + woken (writer w (nat p)) \<and>
        length (sent_of ls) + sending (writer w (nat p)) + av = 1 + granted_of ls))"

text \<open>The part of the world the accounts read.\<close>

lemma comm_inv_part:
  assumes "comm_inv p t0 ls (w, a, g)" "port_open p w'" "comm_part w' = comm_part w"
    and "enqueued_of ls' = enqueued_of ls" "sent_of ls' = sent_of ls" "granted_of ls' = granted_of ls"
    "written_of ls' = written_of ls"
  shows "comm_inv p t0 ls' (w', a, g')"
proof -
  have eq: "mqueue w' = mqueue w" "sems w' write_sem = sems w write_sem"
    "sems w' avail_sem = sems w avail_sem" "writer w' = writer w"
    "map (\<lambda>c. (write_mq_id c, cp_state c = CTLPORT_STATE_KILLME)) (ctlport w') =
     map (\<lambda>c. (write_mq_id c, cp_state c = CTLPORT_STATE_KILLME)) (ctlport w)" "writes w' = writes w"
    using assms(3) by (simp_all add: comm_part_def)
  have o: "port_open p w" using assms(1) by (simp add: comm_inv_def)
  have "write_mq_id (ctlport w' ! nat p) = write_mq_id (ctlport w ! nat p) \<and>
    (cp_state (ctlport w' ! nat p) = CTLPORT_STATE_KILLME) =
    (cp_state (ctlport w ! nat p) = CTLPORT_STATE_KILLME)"
    using arg_cong [OF eq(5), of "\<lambda>xs. xs ! nat p"] port_openD [OF o] port_openD [OF assms(2)] by simp
  then show ?thesis using assms eq by (simp add: comm_inv_def)
qed

text \<open>A port as it starts: fresh, with its queue created empty.\<close>

definition comm_start :: "int \<Rightarrow> gsm_world \<Rightarrow> bool" where
  "comm_start p w \<longleftrightarrow> port_fresh p w \<and> mqueue w p = Some [] \<and> write_mq_id (ctlport w ! nat p) = p"

lemma comm_inv_start: "comm_start p w \<Longrightarrow> comm_inv p (writes w) [] (w, 0, 0)"
  by (simp add: comm_start_def comm_inv_def port_fresh_def enqueued_of_def sent_of_def granted_of_def
      written_of_def woken_def)


text \<open>What each step does to the parts the accounts read.\<close>

lemma send_enqueue_effect:
  assumes "port_open p w" "write_mq_id (ctlport w ! nat p) = p" "mqueue w p = Some q"
    and run: "gsm_send_enqueue p s w = Ret (r, w')"
  shows "port_open p w' \<and> (r = - 1 \<longrightarrow> comm_part w' = comm_part w) \<and>
    (r = 0 \<longrightarrow> comm_part w' = comm_part (w\<lparr>mqueue := (mqueue w)(p := Some (q @ [s]))\<rparr>))"
proof -
  have s: "length s \<le> 255"
    using run assms(1)
    by (auto simp: gsm_send_enqueue_def gbind_def gthen_def run_bind_Ret_iff into_buffer_def
        GSM_CMD_LENGTH_def ret_def fault_def split: if_splits)
  have "wp (gsm_send_enqueue p s) (\<lambda>_. port_open p) w"
    using any_entry.safeD [OF any_entry.safe_gsm_send_enqueue [OF s], of p w] assms(1) by simp
  moreover have "wp (gsm_send_enqueue p s) (\<lambda>r w'. (r = - 1 \<longrightarrow> comm_part w' = comm_part w) \<and>
      (r = 0 \<longrightarrow> comm_part w' = comm_part (w\<lparr>mqueue := (mqueue w)(p := Some (q @ [s]))\<rparr>))) w"
    using assms(1-3) s
    by (simp add: gsm_send_enqueue_def msgsnd_def wp port_openD [OF assms(1)] GSM_CMD_LENGTH_def)
       (simp add: comm_part_def map_update_same)
  ultimately show ?thesis using run by (auto dest: wp_RetD)
qed

lemma sem_post_effect:
  assumes "port_open p w" "sems w s ! nat p = Some n" "sem_post s p w = Ret ((), w')"
  shows "w' = w\<lparr>sems := (sems w)(s := (sems w s)[nat p := Some (Suc n)])\<rparr>"
proof -
  have "wp (sem_post s p) (\<lambda>_ w'. w' = w\<lparr>sems := (sems w)(s := (sems w s)[nat p := Some (Suc n)])\<rparr>) w"
    using assms(1,2) by (simp add: sem_post_def wp port_openD [OF assms(1)])
  then show ?thesis using assms(3) by (auto dest: wp_RetD)
qed

lemma post_grant_effect:
  assumes "port_open p w" "sems w avail_sem ! nat p = Some n" "gsm_post_grant p w = Ret ((), w')"
  shows "port_open p w' \<and> comm_part w' =
    comm_part (w\<lparr>sems := (sems w)(avail_sem := (sems w avail_sem)[nat p := Some (Suc n)])\<rparr>)"
proof -
  obtain x w1 where w1: "gsm_stop_check_timer p w = Ret (x, w1)" "sem_post avail_sem p w1 = Ret ((), w')"
    using assms(3) by (auto simp: gsm_post_grant_def gthen_def gbind_def run_bind_Ret_iff)
  have o: "port_open p w1"
    using any_entry.safeD [OF any_entry.safe_gsm_stop_check_timer, of p w] assms(1) w1(1)
    by (auto dest: wp_RetD)
  have c: "comm_part w1 = comm_part w"
    by (rule quietD [OF quiet_timers(4) w1(1)])
  have n: "sems w1 avail_sem ! nat p = Some n" using c assms(2) by (simp add: comm_part_def)
  have w': "w' = w1\<lparr>sems := (sems w1)(avail_sem := (sems w1 avail_sem)[nat p := Some (Suc n)])\<rparr>"
    by (rule sem_post_effect [OF o n w1(2)])
  have "port_open p w'" unfolding w' using o by simp
  then show ?thesis using w' c by (simp add: comm_part_def)
qed


lemma writer_step_at:
  "port_open p w \<Longrightarrow> writer_step p w = writer_at p (ctlport w ! nat p) (writer w (nat p)) w"
  by (simp add: writer_step_def gbind_def ctl_get_def arr_get_def gets_def port_openD)

lemma writer_step_open:
  assumes "port_open p w" "writer_step p w = Ret (b, w')"
  shows "port_open p w'"
  using any_entry.safeD [OF any_entry.safe_writer_step, of p w] assms by (auto dest: wp_RetD)

lemma writer_step_head:
  assumes "port_open p w" "writer w (nat p) = W_head"
    "cp_state (ctlport w ! nat p) \<noteq> CTLPORT_STATE_KILLME"
  shows "writer_step p w = Ret (True, w\<lparr>writer := (writer w)(nat p := W_wait)\<rparr>)"
  using assms
  by (simp add: writer_step_at writer_at_def gthen_def gbind_def set_writer_def modify_def ret_def)

lemma wait_then_effect:
  assumes "port_open p w" "sems w s ! nat p = Some n"
  shows "wait_then p s p pc w = (case n of 0 \<Rightarrow> Ret (False, w)
    | Suc k \<Rightarrow> Ret (True, w\<lparr>sems := (sems w)(s := (sems w s)[nat p := Some k]),
        writer := (writer w)(nat p := pc)\<rparr>))"
proof (cases n)
  case 0
  have "wp (wait_then p s p pc) (\<lambda>r w'. r = False \<and> w' = w) w"
    using assms port_openD [OF assms(1)] 0
    by (simp add: wait_then_def would_block_def wp)
  then show ?thesis using 0 by (simp only: wp_Ret nat.case)
next
  case (Suc k)
  have "wp (wait_then p s p pc) (\<lambda>r w'. r = True \<and> w' = w\<lparr>sems := (sems w)
      (s := (sems w s)[nat p := Some k]), writer := (writer w)(nat p := pc)\<rparr>) w"
    using assms port_openD [OF assms(1)] Suc
    by (simp add: wait_then_def would_block_def sem_wait_def set_writer_def wp)
  then show ?thesis using Suc by (simp only: wp_Ret nat.case)
qed

lemma writer_step_woken:
  assumes "port_open p w" "writer w (nat p) = W_woken" "write_mq_id (ctlport w ! nat p) = p"
    "cp_state (ctlport w ! nat p) \<noteq> CTLPORT_STATE_KILLME" "mqueue w p = Some (m # ms)"
  shows "writer_step p w = Ret (True, w\<lparr>mqueue := (mqueue w)(p := Some ms),
    writer := (writer w)(nat p := W_avail m)\<rparr>)"
  using assms
  by (simp add: writer_step_at writer_at_def msgrcv_def gthen_def gbind_def set_writer_def modify_def
      ret_def gets_def)

lemma writer_step_send:
  assumes "port_open p w" "writer w (nat p) = W_send m"
    "cp_state (ctlport w ! nat p) \<noteq> CTLPORT_STATE_KILLME"
  shows "writer_step p w = Ret (True, w\<lparr>writer := (writer w)(nat p := W_write m)\<rparr>)"
  using assms port_openD [OF assms(1)]
  by (simp add: writer_step_at writer_at_def write_check_def ctl_get_def arr_get_def gthen_def gbind_def
      set_writer_def modify_def ret_def)

lemma writer_step_write:
  assumes "port_open p w" "writer w (nat p) = W_write m" "writer_step p w = Ret (b, w')"
  shows "comm_part w' = comm_part (w\<lparr>writer := (writer w)(nat p := W_sent),
    trace := trace w @ map (\<lambda>(fd, l). Written fd l) (line_to (m @ [CR, LF]) (target p w))\<rparr>) \<and> b"
proof -
  have m: "length m \<le> 255" using port_open_writer_good [OF assms(1), of "nat p"] assms(2) by simp
  obtain r v where v: "gsm_send_command p m w = Ret (r, v)" "w' = v\<lparr>writer := (writer v)(nat p := W_sent)\<rparr>" "b"
    using assms port_openD [OF assms(1)]
    by (auto simp: writer_step_at writer_at_def write_command_def ctl_get_def arr_get_def gthen_def gbind_def
        set_writer_def modify_def ret_def run_bind_Ret_iff)
  then show ?thesis using send_command_effect [OF assms(1) m v(1)] by (simp add: comm_part_def writes_def)
qed

lemma writer_step_sent:
  assumes "port_open p w" "writer w (nat p) = W_sent" "writer_step p w = Ret (b, w')"
  shows "comm_part w' = comm_part (w\<lparr>writer := (writer w)(nat p := W_head)\<rparr>) \<and> b"
proof -
  let ?m = "gthen (ctl_upd p (\<lambda>c. c\<lparr>msg_count := msg_count c + 1\<rparr>)) (gsm_start_check_timer p)"
  have q: "quiet ?m" by (rule quiet | simp)+
  obtain v where v: "?m w = Ret ((), v)" "w' = v\<lparr>writer := (writer v)(nat p := W_head)\<rparr>" "b"
    using assms port_openD [OF assms(1)]
    by (auto simp: writer_step_at writer_at_def write_finish_def ctl_get_def [of p] arr_get_def gthen_def gbind_def
        set_writer_def modify_def ret_def run_bind_Ret_iff)
  then show ?thesis using quietD [OF q v(1)] by (simp add: comm_part_def)
qed


text \<open>The steps of the writer keep the accounts.\<close>

lemma labels_snoc [simp]:
  "enqueued_of (ls @ [l]) = enqueued_of ls @ enqueued l" "sent_of (ls @ [l]) = sent_of ls @ sent l"
  "granted_of (ls @ [l]) = granted_of ls + (if l = Granted then 1 else 0)"
  "written_of (ls @ [l]) = written_of ls @ lines_of l" "raw_of (ls @ [l]) = raw_of ls + raw l"
  "dropped_of (ls @ [l]) = dropped_of ls + dropped l"
  by (simp_all add: enqueued_of_def sent_of_def granted_of_def written_of_def raw_of_def dropped_of_def)

lemma written_line_to [simp]: "concat (map written (map (\<lambda>(fd, l). Written fd l) (line_to s tgt))) = line_to s tgt"
  by (cases tgt) (simp_all add: line_to_def)

lemma comm_inv_write:
  assumes inv: "comm_inv p t0 ls (w, a, g)" and step: "writer_step p w = Ret (True, w')"
    and l: "l = (case writer w (nat p) of W_write m \<Rightarrow> Sent m (target p w) | _ \<Rightarrow> Silent)"
  shows "comm_inv p t0 (ls @ [l]) (w', a, g)"
proof -
  obtain q ws av where o: "port_open p w" "cp_state (ctlport w ! nat p) \<noteq> CTLPORT_STATE_KILLME"
      "write_mq_id (ctlport w ! nat p) = p" "mqueue w p = Some q"
      "sems w write_sem ! nat p = Some ws" "sems w avail_sem ! nat p = Some av"
    and eqs: "enqueued_of ls = sent_of ls @ held (writer w (nat p)) @ q"
      "length q = ws + a + woken (writer w (nat p))"
      "length (sent_of ls) + sending (writer w (nat p)) + av = 1 + granted_of ls" "writes w = t0 @ written_of ls"
    using inv by (auto simp: comm_inv_def)
  note d = port_openD [OF o(1)]
  have o': "port_open p w'" using writer_step_open [OF o(1) step] .
  show ?thesis
  proof (cases "writer w (nat p)")
    case W_head
    then have "w' = w\<lparr>writer := (writer w)(nat p := W_wait)\<rparr>"
      using step writer_step_head [OF o(1) _ o(2)] by simp
    then show ?thesis using o o' eqs W_head l by (simp add: comm_inv_def woken_def)
  next
    case W_wait
    then have "w' = w\<lparr>sems := (sems w)(write_sem := (sems w write_sem)[nat p := Some (ws - 1)]),
        writer := (writer w)(nat p := W_woken)\<rparr> \<and> 0 < ws"
      using step wait_then_effect [OF o(1) o(5), of W_woken] o(1) d
      by (auto simp: writer_step_at writer_at_def split: nat.splits)
    then show ?thesis using o o' eqs W_wait l d by (simp add: comm_inv_def woken_def)
  next
    case W_woken
    then obtain m ms where q: "q = m # ms" using eqs(2) by (cases q) (auto simp: woken_def)
    then have "w' = w\<lparr>mqueue := (mqueue w)(p := Some ms), writer := (writer w)(nat p := W_avail m)\<rparr>"
      using step writer_step_woken [OF o(1) W_woken o(3,2)] o(4) by simp
    then show ?thesis using o o' eqs W_woken l q by (simp add: comm_inv_def woken_def)
  next
    case (W_avail m)
    then have "w' = w\<lparr>sems := (sems w)(avail_sem := (sems w avail_sem)[nat p := Some (av - 1)]),
        writer := (writer w)(nat p := W_send m)\<rparr> \<and> 0 < av"
      using step wait_then_effect [OF o(1) o(6), of "W_send m"] o(1) d
      by (auto simp: writer_step_at writer_at_def split: nat.splits)
    then show ?thesis using o o' eqs W_avail l d by (simp add: comm_inv_def woken_def)
  next
    case (W_send m)
    then have "w' = w\<lparr>writer := (writer w)(nat p := W_write m)\<rparr>"
      using step writer_step_send [OF o(1) W_send o(2)] by simp
    then show ?thesis using o o' eqs W_send l by (simp add: comm_inv_def woken_def)
  next
    case (W_write m)
    let ?v = "w\<lparr>writer := (writer w)(nat p := W_sent),
      trace := trace w @ map (\<lambda>(fd, l). Written fd l) (line_to (m @ [CR, LF]) (target p w))\<rparr>"
    have part: "comm_part w' = comm_part ?v"
      using writer_step_write [OF o(1) W_write step] by simp
    have "writes ?v = writes w @ line_to (m @ [CR, LF]) (target p w)"
      using written_line_to [of "m @ [CR, LF]" "target p w"] by (simp add: writes_def)
    then have "comm_inv p t0 (ls @ [l]) (?v, a, g)"
      using o eqs W_write l by (simp add: comm_inv_def woken_def)
    then show ?thesis by (rule comm_inv_part [OF _ o' part]) simp_all
  next
    case W_sent
    have part: "comm_part w' = comm_part (w\<lparr>writer := (writer w)(nat p := W_head)\<rparr>)"
      using writer_step_sent [OF o(1) W_sent step] by simp
    have "comm_inv p t0 (ls @ [l]) (w\<lparr>writer := (writer w)(nat p := W_head)\<rparr>, a, g)"
      using o eqs W_sent l by (simp add: comm_inv_def woken_def)
    then show ?thesis by (rule comm_inv_part [OF _ o' part]) simp_all
  qed (use step o(1) in \<open>simp_all add: writer_step_at writer_at_def ret_def\<close>)
qed


text \<open>The other calls leave the accounts alone.\<close>

lemma quiet_side [quiet]:
  "quiet (gsm_port_fetch p)" "quiet (gsm_port_release p)" "quiet (gsm_set_led p l)"
  "quiet (gsm_audio_start p)" "quiet (gsm_audio_stop p)" "quiet (gsm_audio_open p)"
  "quiet (gsm_audio_close p)" "quiet (gsm_put_priv p q)" "quiet (gsm_get_priv p)"
  "quiet (gsm_handle_unknown_event p ev)" "quiet (gsm_do_ioctl p cmd arg)" "quiet (gsm_port_in_use_get p)"
  "quiet (gsm_simslot_get p)" "quiet (gsm_simslot_next_get p)" "quiet (gsm_set_next_simslot p s)"
  "quiet (gsm_check_port p)" "quiet (gsm_set_debuglevel n)" "quiet (ctl_info f p)" "quiet (gsm_masq_priv q q')"
  unfolding gsm_port_fetch_def gsm_fetch_check_def gsm_fetch_take_def gsm_port_release_def gsm_set_led_def
    gsm_audio_start_def gsm_audio_stop_def gsm_audio_open_def gsm_audio_close_def gsm_put_priv_def gsm_get_priv_def
    gsm_handle_unknown_event_def gsm_do_ioctl_def gsm_port_in_use_get_def gsm_simslot_get_def
    gsm_simslot_next_get_def gsm_set_next_simslot_def gsm_check_port_def gsm_set_debuglevel_def ctl_info_def
    gsm_masq_priv_def getctlport_bypriv_def
  by (rule quiet | simp)+

lemma quiet_void [quiet]: "quiet m \<Longrightarrow> quiet (void m)"
  unfolding void_def by (intro quiet)

lemma quiet_side_call: "side_call c \<Longrightarrow> c \<noteq> Sms_enter \<Longrightarrow> quiet (run_call p c)"
  by (cases c) (auto simp: gsm_get_imei_number_def gsm_get_imsi_number_def gsm_get_firmware_info_def
    gsm_get_last_command_def intro: quiet_void quiet_side quiet_gsm_close_port)

lemma sms_enter_part:
  assumes "port_open p w" "cp_state (ctlport w ! nat p) \<noteq> CTLPORT_STATE_KILLME"
    and "run_call p Sms_enter w = Ret (x, w')"
  shows "comm_part w' = comm_part w"
proof -
  have "wp (getctlport p) (\<lambda>r w'. r = Some p \<and> w' = w) w" using assms(1) by simp
  then have "getctlport p w = Ret (Some p, w)" by (simp only: wp_Ret)
  then obtain y where "ctl_upd p (\<lambda>c. c\<lparr>cp_state := CTLPORT_STATE_SMS\<rparr>) w = Ret (y, w')"
    using assms(3) by (auto simp: void_def gsm_sms_enter_def gthen_def gbind_def run_bind_Ret_iff
        deref_def ret_def)
  then show ?thesis using comm_part_state_upd [OF assms(2), of CTLPORT_STATE_SMS] by simp
qed

lemma comm_inv_side:
  assumes inv: "comm_inv p t0 ls (w, a, g)" and run: "run_call p c w = Ret ((), w')" and c: "side_call c"
  shows "comm_inv p t0 (ls @ [Silent]) (w', a, g)"
proof -
  have o: "port_open p w" "cp_state (ctlport w ! nat p) \<noteq> CTLPORT_STATE_KILLME"
    using inv by (auto simp: comm_inv_def)
  have "call_fits c" using c by (cases c) auto
  then have "port_open p w'"
    using any_entry.safeD [OF any_entry_run_call, of c p w] o run by (auto dest: wp_RetD)
  moreover have "comm_part w' = comm_part w"
  proof (cases "c = Sms_enter")
    case True
    then show ?thesis using sms_enter_part [OF o] run by simp
  next
    case False
    then show ?thesis using quietD [OF quiet_side_call [OF c]] run by blast
  qed
  ultimately show ?thesis by (rule comm_inv_part [OF inv]) simp_all
qed

lemma reader_step_at:
  assumes "port_open p w"
  shows "reader_step p w = (case reader w (nat p) of
       R_start \<Rightarrow> gthen (read_thread_start p) (ret True)
     | R_loop \<Rightarrow> gthen (set_reader p (if cp_state (ctlport w ! nat p) \<noteq> CTLPORT_STATE_KILLME then R_read else R_done))
                       (ret True)
     | R_read \<Rightarrow> read_iteration p
     | R_prompt \<Rightarrow> read_prompt p
     | _ \<Rightarrow> ret False) w"
  using port_openD [OF assms] by (simp add: reader_step_def gbind_def ctl_get_def arr_get_def gets_def)

text \<open>A read that ran had a stream, or did not come to it.\<close>

lemma reads_open:
  assumes o: "port_open p w"
  shows "read_iteration p w = Ret (x, w') \<Longrightarrow> port_open p w'" "read_prompt p w = Ret (x, w') \<Longrightarrow> port_open p w'"
proof -
  note d = port_openD [OF o]
  assume it: "read_iteration p w = Ret (x, w')"
  show "port_open p w'"
  proof (cases "fpr (ctlport w ! nat p)")
    case None
    then show ?thesis
      using it d o by (auto simp: read_iteration_def gbind_def gthen_def ctl_get_def arr_get_def gets_def fault_def
          set_reader_def modify_def ret_def split: if_splits)
  next
    case Some
    then show ?thesis using any_entry.safe_reads(1) [of p w] o it by (auto dest: wp_RetD)
  qed
next
  note d = port_openD [OF o]
  assume it: "read_prompt p w = Ret (x, w')"
  have "fpr (ctlport w ! nat p) \<noteq> None"
    using it d by (auto simp: read_prompt_def gbind_def ctl_get_def arr_get_def gets_def fault_def split: if_splits)
  then show "port_open p w'" using any_entry.safe_reads(2) [of p w] o it by (auto dest: wp_RetD)
qed

lemma comm_inv_read:
  assumes inv: "comm_inv p t0 ls (w, a, g)" and run: "reader_step p w = Ret (True, w')"
    and pc: "reader w (nat p) \<in> {R_loop, R_read, R_prompt}"
  shows "comm_inv p t0 (ls @ [Silent]) (w', a, g)"
proof -
  have o: "port_open p w" "cp_state (ctlport w ! nat p) \<noteq> CTLPORT_STATE_KILLME"
    using inv by (auto simp: comm_inv_def)
  consider "w' = w\<lparr>reader := (reader w)(nat p := R_read)\<rparr>" | "read_iteration p w = Ret (True, w')"
    | "read_prompt p w = Ret (True, w')"
    using pc run o by (auto simp: reader_step_at gthen_def gbind_def set_reader_def modify_def ret_def)
  then have "comm_part w' = comm_part w \<and> port_open p w'"
    using o quietD [OF quiet_read_iteration] read_prompt_part [OF o(2)] reads_open [OF o(1)]
    by cases (auto simp: comm_part_def)
  then show ?thesis using comm_inv_part [OF inv] by simp
qed

text \<open>Every step keeps the accounts.\<close>

lemma comm_inv_step:
  assumes "port_step p s l s'" "comm_inv p t0 ls s"
  shows "comm_inv p t0 (ls @ [l]) s'"
  using assms
proof (cases rule: port_step.cases)
  case (enqueue m w w' a g)
  obtain q where q: "mqueue w p = Some q" "port_open p w" "write_mq_id (ctlport w ! nat p) = p"
    using assms(2) enqueue by (auto simp: comm_inv_def)
  note e = send_enqueue_effect [OF q(2,3,1) enqueue(4)]
  have "comm_inv p t0 (ls @ [l]) (w\<lparr>mqueue := (mqueue w)(p := Some (q @ [m]))\<rparr>, Suc a, g)"
  proof -
    have "short_commands (Some (q @ [m]))"
      using e port_open_queue [of p w' p] by (auto simp: comm_part_def)
    then have "port_open p (w\<lparr>mqueue := (mqueue w)(p := Some (q @ [m]))\<rparr>)" using q by simp
    then show ?thesis using assms(2) enqueue(1-3) q by (auto simp: comm_inv_def)
  qed
  then show ?thesis using comm_inv_part e enqueue(3) by auto
next
  case (refuse m w w' a g)
  then show ?thesis
    using send_enqueue_effect [of p w _ m "- 1" w'] assms(2) comm_inv_part [OF assms(2) [unfolded refuse(1)]]
    by (auto simp: comm_inv_def)
next
  case (wake w w' a g)
  obtain ws where ws: "sems w write_sem ! nat p = Some ws" "port_open p w"
    using assms(2) wake by (auto simp: comm_inv_def)
  then have "w' = w\<lparr>sems := (sems w)(write_sem := (sems w write_sem)[nat p := Some (Suc ws)])\<rparr>"
    using sem_post_effect wake(4) by auto
  then show ?thesis
    using assms(2) wake ws port_openD [OF ws(2)] by (auto simp: comm_inv_def)
next
  case (observe w w' a g)
  have o: "port_open p w" using assms(2) observe by (auto simp: comm_inv_def)
  have "wp (gsm_post_check p) (\<lambda>_ w'. w' = w) w"
    using o port_openD [OF o] by (simp add: gsm_post_check_def wp)
  then have "w' = w" using observe(4) by (auto dest: wp_RetD)
  then show ?thesis using assms(2) observe by (auto simp: comm_inv_def)
next
  case (grant w w' a g)
  obtain av where av: "sems w avail_sem ! nat p = Some av" "port_open p w"
    using assms(2) grant by (auto simp: comm_inv_def)
  note e = post_grant_effect [OF av(2,1) grant(4)]
  have "comm_inv p t0 (ls @ [l])
    (w\<lparr>sems := (sems w)(avail_sem := (sems w avail_sem)[nat p := Some (Suc av)])\<rparr>, a, g)"
    using assms(2) grant(1-3) av port_openD [OF av(2)] by (auto simp: comm_inv_def)
  then show ?thesis using comm_inv_part e grant(3) by auto
next
  case (transmit w w' m a g)
  then show ?thesis using comm_inv_write [of p t0 ls w a g w' l] assms(2) by simp
next
  case (advance w w' a g)
  then show ?thesis using comm_inv_write [of p t0 ls w a g w' l] assms(2)
    by (auto split: writer_pc.split)
next
  case (raw s w r w' a g)
  have o: "port_open p w" using assms(2) raw by (simp add: comm_inv_def)
  let ?v = "w\<lparr>trace := trace w @ map (\<lambda>(fd, l). Written fd l) (line_to s (target p w))\<rparr>"
  have e: "port_open p w'" "comm_part w' = comm_part ?v" using send_raw_effect [OF o raw(4)] by simp_all
  have "writes ?v = writes w @ line_to s (target p w)"
    using written_line_to [of s "target p w"] by (simp add: writes_def)
  then have "comm_inv p t0 (ls @ [l]) (?v, a, g)" using assms(2) raw(1-3) by (auto simp: comm_inv_def)
  then show ?thesis using comm_inv_part e raw(3) by auto
next
  case (arrive w a g s)
  then show ?thesis using assms(2) by (auto simp: comm_inv_def)
next
  case (hang_up w a g)
  then show ?thesis using assms(2) by (auto simp: comm_inv_def)
next
  case (receive w w' a g)
  then show ?thesis using comm_inv_read assms(2) by auto
next
  case (side c w w' a g)
  then show ?thesis using comm_inv_side assms(2) by auto
qed


lemma comm_inv_run: "port_run p s ls s' \<Longrightarrow> comm_inv p t0 [] s \<Longrightarrow> comm_inv p t0 ls s'"
  by (induction rule: port_run.induct) (auto intro: comm_inv_step)


lemma written_count: "length (written_of ls) + dropped_of ls = length (sent_of ls) + raw_of ls"
proof (induction ls rule: rev_induct)
  case (snoc l ls)
  have "length (lines_of l) + dropped l = length (sent l) + raw l"
    by (cases l) (auto simp: line_to_def split: option.split)
  with snoc show ?case by simp
qed (simp add: written_of_def dropped_of_def sent_of_def raw_of_def)



section \<open>Progress of the writer\<close>

text \<open>How many steps the writer is away from having written a command.\<close>

fun distance :: "writer_pc \<Rightarrow> nat" where
  "distance W_sent = 7" | "distance W_head = 6" | "distance W_wait = 5" | "distance W_woken = 4"
| "distance (W_avail m) = 3" | "distance (W_send m) = 2" | "distance (W_write m) = 1" | "distance _ = 0"

definition permitted :: "int \<Rightarrow> gsm_world \<Rightarrow> bool" where
  "permitted p w \<longleftrightarrow> (\<exists>av. sems w avail_sem ! nat p = Some (Suc av)) \<or> sending (writer w (nat p)) = 1"

lemma port_ready_frame [simp]:
  "port_open p (w\<lparr>writer := h\<rparr>) \<Longrightarrow> port_ready p fw w \<Longrightarrow> port_ready p fw (w\<lparr>writer := h\<rparr>)"
  "port_open p (w\<lparr>sems := f, writer := h\<rparr>) \<Longrightarrow> port_ready p fw w \<Longrightarrow> port_ready p fw (w\<lparr>sems := f, writer := h\<rparr>)"
  "port_open p (w\<lparr>mqueue := f', writer := h\<rparr>) \<Longrightarrow> port_ready p fw w \<Longrightarrow> port_ready p fw (w\<lparr>mqueue := f', writer := h\<rparr>)"
  by (simp_all add: port_ready_def)

lemma writer_step_sent_ready:
  assumes "port_ready p fw w" "writer w (nat p) = W_sent"
  shows "wp (writer_step p) (\<lambda>b w'. b \<and> port_ready p fw w' \<and> writer w' (nat p) = W_head \<and>
    sems w' avail_sem = sems w avail_sem) w"
proof -
  have o: "port_open p w" using assms(1) by (simp add: port_ready_def)
  note d = port_openD [OF o]
  define v where "v = w\<lparr>ctlport := (ctlport w)[nat p := (ctlport w ! nat p)\<lparr>msg_count := msg_count (ctlport w ! nat p) + 1\<rparr>]\<rparr>"
  have v: "port_open p v" "port_ready p fw v" "sems v = sems w"
    using port_open_ctl_upd [OF o, of "(ctlport w ! nat p)\<lparr>msg_count := msg_count (ctlport w ! nat p) + 1\<rparr>"]
      o d assms(1) port_open_ctl_good [OF o] by (auto simp: v_def port_ready_def port_open_def)
  have "wp (gsm_start_check_timer p) (\<lambda>_ w'. port_ready p fw w' \<and> sems w' = sems w) v"
    using v port_openD [OF v(1)]
    by (cases "wdog_timer v ! nat p")
       (auto simp: gsm_start_check_timer_def timer_create_def timer_settime_def wp port_ready_def)
  then have "wp (gthen (gsm_start_check_timer p) (set_writer p W_head))
      (\<lambda>_ w'. port_ready p fw w' \<and> writer w' (nat p) = W_head \<and> sems w' avail_sem = sems w avail_sem) v"
    by (rule wp_mono [where m = "gsm_start_check_timer p", unfolded wp_gthen [symmetric]] | rule wp_seq)
       (auto simp: set_writer_def wp port_ready_def)
  then show ?thesis
    using assms d o by (simp add: writer_step_def writer_at_def write_finish_def wp wp_fun v_def)
qed

lemma writer_progress:
  assumes inv: "comm_inv p t0 ls (w, 0, g)" and next_one: "length (sent_of ls) < length (enqueued_of ls)"
    and perm: "permitted p w" and ready: "port_ready p fw w" and pc: "\<And>m. writer w (nat p) \<noteq> W_write m"
  obtains w' where "writer_step p w = Ret (True, w')" "permitted p w'" "port_ready p fw w'"
    "distance (writer w' (nat p)) < distance (writer w (nat p))"
proof -
  obtain q ws av where o: "port_open p w" "cp_state (ctlport w ! nat p) \<noteq> CTLPORT_STATE_KILLME"
      "write_mq_id (ctlport w ! nat p) = p" "mqueue w p = Some q"
      "sems w write_sem ! nat p = Some ws" "sems w avail_sem ! nat p = Some av"
    and eqs: "enqueued_of ls = sent_of ls @ held (writer w (nat p)) @ q"
      "length q = ws + woken (writer w (nat p))" "writer w (nat p) \<notin> {W_none, W_done}"
    using inv by (auto simp: comm_inv_def)
  note d = port_openD [OF o(1)] and open_after = writer_step_open [OF o(1)]
  show ?thesis
  proof (cases "writer w (nat p)")
    case W_head
    then show ?thesis
      using that writer_step_head [OF o(1) _ o(2)] perm open_after ready by (simp add: permitted_def)
  next
    case W_wait
    then obtain k where "ws = Suc k" using eqs next_one by (cases ws) (auto simp: woken_def)
    then have "writer_step p w = Ret (True, w\<lparr>sems := (sems w)(write_sem := (sems w write_sem)[nat p := Some k]),
        writer := (writer w)(nat p := W_woken)\<rparr>)"
      using wait_then_effect [OF o(1) o(5), of W_woken] W_wait o(1) d by (simp add: writer_step_at writer_at_def)
    then show ?thesis using that W_wait perm ready open_after by (simp add: permitted_def)
  next
    case W_woken
    then obtain m ms where "q = m # ms" using eqs by (cases q) (auto simp: woken_def)
    then show ?thesis
      using that writer_step_woken [OF o(1) W_woken o(3,2)] o(4) W_woken perm ready open_after
      by (simp add: permitted_def)
  next
    case (W_avail m)
    then obtain k where "av = Suc k" using perm o(6) by (cases av) (auto simp: permitted_def)
    then have "writer_step p w = Ret (True, w\<lparr>sems := (sems w)(avail_sem := (sems w avail_sem)[nat p := Some k]),
        writer := (writer w)(nat p := W_send m)\<rparr>)"
      using wait_then_effect [OF o(1) o(6), of "W_send m"] W_avail o(1) d by (simp add: writer_step_at writer_at_def)
    then show ?thesis using that W_avail ready open_after by (simp add: permitted_def)
  next
    case (W_send m)
    then show ?thesis
      using that writer_step_send [OF o(1) W_send o(2)] open_after ready by (simp add: permitted_def)
  next
    case W_sent
    then show ?thesis
      using that writer_step_sent_ready [OF ready] perm by (auto simp: wp_def permitted_def)
  qed (use eqs pc in auto)
qed

text \<open>The step that writes, on a port whose streams are open and ready.\<close>

lemma writer_step_writes:
  assumes inv: "comm_inv p t0 ls (w, a, g)" and ready: "port_ready p fw w" and pc: "writer w (nat p) = W_write m"
  obtains w' where "writer_step p w = Ret (True, w')" "writes w' = writes w @ [(fw, cut_at LF (m @ [CR, LF]))]"
    "writer w' (nat p) = W_sent"
proof -
  have o: "port_open p w" using ready by (simp add: port_ready_def)
  obtain b w' where w': "writer_step p w = Ret (b, w')"
    using any_entry.safeD [OF any_entry.safe_writer_step, of p w] o by (auto simp: wp_def)
  have "target p w = Some fw" using ready by (auto simp: target_def port_ready_def)
  then show ?thesis
    using that writer_step_write [OF o pc w'] w' by (auto simp: comm_part_def line_to_def writes_def)
qed

lemma next_command_written:
  assumes "comm_start p w0" "port_run p (w0, 0, 0) ls (w, 0, g)"
    and "length (sent_of ls) < length (enqueued_of ls)" "permitted p w" "port_ready p fw w"
  shows "\<exists>k w' m. k < distance (writer w (nat p)) \<and> m = enqueued_of ls ! length (sent_of ls) \<and>
     port_run p (w0, 0, 0) (ls @ replicate k Silent @ [Sent m (Some fw)]) (w', 0, g) \<and>
     writes w' = writes w @ [(fw, cut_at LF (m @ [CR, LF]))] \<and> writer w' (nat p) = W_sent"
  using assms(2-5)
proof (induction "distance (writer w (nat p))" arbitrary: w ls rule: less_induct)
  case less
  have inv: "comm_inv p (writes w0) ls (w, 0, g)"
    by (rule comm_inv_run [OF less.prems(1) comm_inv_start [OF assms(1)]])
  show ?case
  proof (cases "\<exists>m. writer w (nat p) = W_write m")
    case True
    then obtain m where m: "writer w (nat p) = W_write m" ..
    obtain w' where w': "writer_step p w = Ret (True, w')"
      "writes w' = writes w @ [(fw, cut_at LF (m @ [CR, LF]))]" "writer w' (nat p) = W_sent"
      using writer_step_writes [OF inv less.prems(4) m] .
    have "target p w = Some fw" using less.prems(4) by (auto simp: target_def port_ready_def)
    then have "port_run p (w0, 0, 0) (ls @ [Sent m (Some fw)]) (w', 0, g)"
      using run_snoc [OF less.prems(1) port_step.transmit [OF w'(1) m]] by simp
    moreover have "enqueued_of ls = sent_of ls @ m # the (mqueue w p)"
      using inv m by (auto simp: comm_inv_def)
    ultimately show ?thesis using m w'(2,3) by (intro exI [of _ 0] exI [of _ w'] exI [of _ m]) simp
  next
    case False
    obtain w' where w': "writer_step p w = Ret (True, w')" "permitted p w'" "port_ready p fw w'"
      "distance (writer w' (nat p)) < distance (writer w (nat p))"
      using writer_progress [OF inv less.prems(2-4)] False by blast
    have run: "port_run p (w0, 0, 0) (ls @ [Silent]) (w', 0, g)"
      using less.prems(1) w'(1) False by (auto intro: port_run.intros port_step.advance)
    have same: "writes w' = writes w"
      using inv comm_inv_run [OF run comm_inv_start [OF assms(1)]] by (auto simp: comm_inv_def)
    obtain k w'' m where "k < distance (writer w' (nat p))" "m = enqueued_of ls ! length (sent_of ls)"
      "port_run p (w0, 0, 0) ((ls @ [Silent]) @ replicate k Silent @ [Sent m (Some fw)]) (w'', 0, g)"
      "writes w'' = writes w @ [(fw, cut_at LF (m @ [CR, LF]))]" "writer w'' (nat p) = W_sent"
      using less.hyps [OF w'(4) run _ w'(2,3)] less.prems(2) same by auto
    then show ?thesis using w'(4)
      by (intro exI [of _ "Suc k"] exI [of _ w''] exI [of _ m]) auto
  qed
qed



section \<open>An example\<close>

lemma demo_port_start: "comm_start 1 demo_port"
  using demo_port_fresh by (simp add: comm_start_def demo_port_streams [simplified])

text \<open>The example port after one \<open>gsm_send\<close>.\<close>

lemma demo_port_sent:
  obtains w where "port_run 1 (demo_port, 0, 0) [Enqueued ''AT+GSN'', Silent] (w, 0, 0)" "port_ready 1 5 w"
    "permitted 1 w"
proof -
  note d = port_openD [OF demo_port_open]
  have sems: "sems demo_port avail_sem ! 1 = Some 1" "sems demo_port write_sem ! 1 = Some 0"
    using demo_port_fresh by (simp_all add: port_fresh_def)
  have "wp (gsm_send_enqueue 1 ''AT+GSN'') (\<lambda>_. port_open 1) demo_port"
    using any_entry.safeD [OF any_entry.safe_gsm_send_enqueue, of "''AT+GSN''" 1 demo_port] demo_port_open by simp
  moreover have "wp (gsm_send_enqueue 1 ''AT+GSN'') (\<lambda>r w. r = 0 \<and> sems w = sems demo_port \<and> env w = env demo_port \<and>
      fpw (ctlport w ! 1) = Some 5 \<and> fpr (ctlport w ! 1) = Some 5) demo_port"
    using d demo_port_open
    by (simp add: gsm_send_enqueue_def msgsnd_def wp GSM_CMD_LENGTH_def demo_port_streams demo_port_streams [simplified])
  ultimately obtain w where w: "gsm_send_enqueue 1 ''AT+GSN'' demo_port = Ret (0, w)" "port_open 1 w"
    "sems w = sems demo_port" "env w = env demo_port" "fpw (ctlport w ! 1) = Some 5" "fpr (ctlport w ! 1) = Some 5"
    by (auto simp: wp_def)
  define v where "v = w\<lparr>sems := (sems w)(write_sem := (sems w write_sem)[1 := Some 1])\<rparr>"
  have "wp (sem_post write_sem 1) (\<lambda>r w'. r = () \<and> w' = v) w"
    using sems w(3) port_openD [OF w(2)] by (simp add: sem_post_def wp v_def)
  then have "sem_post write_sem 1 w = Ret ((), v)" by (simp only: wp_Ret)
  moreover have "port_run 1 (demo_port, 0, 0) ([] @ [Enqueued ''AT+GSN'']) (w, 1, 0)"
    by (rule run_snoc [OF run_nil]) (use port_step.enqueue [OF w(1)] in simp)
  ultimately have "port_run 1 (demo_port, 0, 0) ([Enqueued ''AT+GSN''] @ [Silent]) (v, 0, 0)"
    by (intro run_snoc [OF _ port_step.wake]) simp_all
  then show ?thesis
    using that [of v] w(2-6) sems by (simp add: v_def port_ready_def permitted_def demo_port_streams)
qed

text \<open>The labels of a run: a client queues a command, the writer takes it and the permission, and writes it.\<close>

definition demo_labels :: "nat \<Rightarrow> label list" where
  "demo_labels k = [Enqueued ''AT+GSN'', Silent] @ replicate k Silent @ [Sent ''AT+GSN'' (Some 5)]"

lemma demo_labels_counts:
  "enqueued_of (demo_labels k) = [''AT+GSN'']" "sent_of (demo_labels k) = [''AT+GSN'']"
  "written_of (demo_labels k) = [(5, ''AT+GSN'' @ [CR])]" "granted_of (demo_labels k) = 0"
  "raw_of (demo_labels k) = 0" "dropped_of (demo_labels k) = 0"
proof -
  have "cut_at LF (''AT+GSN'' @ [CR, LF]) = ''AT+GSN'' @ [CR]" by (simp add: cut_at_def)
  then show "enqueued_of (demo_labels k) = [''AT+GSN'']" "sent_of (demo_labels k) = [''AT+GSN'']"
    "written_of (demo_labels k) = [(5, ''AT+GSN'' @ [CR])]" "granted_of (demo_labels k) = 0"
    "raw_of (demo_labels k) = 0" "dropped_of (demo_labels k) = 0"
    by (induction k) (simp_all add: demo_labels_def enqueued_of_def sent_of_def written_of_def granted_of_def
      raw_of_def dropped_of_def line_to_def)
qed

lemma demo_run:
  obtains k w where "port_run 1 (demo_port, 0, 0) (demo_labels k) (w, 0, 0)" "writer w 1 = W_sent"
    "sems w avail_sem ! nat 1 = Some 0"
proof -
  obtain w where run: "port_run 1 (demo_port, 0, 0) [Enqueued ''AT+GSN'', Silent] (w, 0, 0)"
    and w: "port_ready 1 5 w" "permitted 1 w" by (rule demo_port_sent)
  obtain k w' where r: "port_run 1 (demo_port, 0, 0) (demo_labels k) (w', 0, 0)" "writer w' 1 = W_sent"
    using next_command_written [OF demo_port_start run _ w(2,1)]
    by (auto simp: enqueued_of_def sent_of_def demo_labels_def)
  moreover have "sems w' avail_sem ! nat 1 = Some 0"
    using comm_inv_run [OF r(1) comm_inv_start [OF demo_port_start]] r(2)
    by (auto simp: comm_inv_def demo_labels_counts)
  ultimately show ?thesis using that by blast
qed





section \<open>Two permissions for one answer\<close>

lemma observe_ok:
  assumes "port_open p w" "sems w avail_sem ! nat p = Some 0"
  shows "port_step p (w, a, g) Silent (w, a, Suc g)"
proof -
  have "wp (gsm_post_check p) (\<lambda>r w'. r = True \<and> w' = w) w"
    using assms port_openD [OF assms(1)] by (simp add: gsm_post_check_def wp)
  then show ?thesis by (intro port_step.observe) (simp only: wp_Ret)
qed

lemma grant_ok:
  assumes "port_open p w" "sems w avail_sem ! nat p = Some n"
  obtains w' where "port_step p (w, a, Suc g) Granted (w', a, g)" "port_open p w'"
    "sems w' avail_sem ! nat p = Some (Suc n)"
proof -
  obtain w' where w': "gsm_post_grant p w = Ret ((), w')"
    using any_entry.safeD [OF any_entry.safe_gsm_post_grant, of p w] assms(1) by (auto simp: wp_def)
  have "port_open p w' \<and> sems w' avail_sem ! nat p = Some (Suc n)"
    using post_grant_effect [OF assms w'] port_openD [OF assms(1)] by (auto simp: comm_part_def)
  then show ?thesis using that port_step.grant [OF w'] by blast
qed

text \<open>
  C40. The permission can be given twice: \<open>gsm_post_next_msg\<close> looks at the value of \<open>avail_sem\<close> and posts it
  in two steps, and it is called by the reader thread (an answer came) and by the
  thread of the watchdog timer (no answer came in time). When both find 0 before either
  posts, \<open>avail_sem\<close> ends at 2, and the next two commands go to the module without an answer
  between them.
\<close>
theorem double_permission:
  assumes "comm_start p w0" "port_run p (w0, 0, 0) ls (w, a, g)" "sems w avail_sem ! nat p = Some 0"
  shows "\<exists>w'. port_run p (w0, 0, 0) (ls @ [Silent, Silent, Granted, Granted]) (w', a, g) \<and>
    sems w' avail_sem ! nat p = Some 2"
proof -
  have o: "port_open p w"
    using comm_inv_run [OF assms(2) comm_inv_start [OF assms(1)]] by (simp add: comm_inv_def)
  obtain w1 where w1: "port_step p (w, a, Suc (Suc g)) Granted (w1, a, Suc g)" "port_open p w1"
    "sems w1 avail_sem ! nat p = Some 1"
    using grant_ok [OF o assms(3)] by (metis One_nat_def)
  obtain w2 where w2: "port_step p (w1, a, Suc g) Granted (w2, a, g)"
    "sems w2 avail_sem ! nat p = Some 2"
    using grant_ok [OF w1(2,3)] by (metis Suc_1)
  have "port_run p (w0, 0, 0) ((((ls @ [Silent]) @ [Silent]) @ [Granted]) @ [Granted]) (w2, a, g)"
    by (rule run_snoc run_snoc [OF run_snoc [OF assms(2) observe_ok [OF o assms(3)]]
        observe_ok [OF o assms(3)]] w1(1) w2(1))+
  then show ?thesis using w2(2) by auto
qed

theorem double_permission_witness:
  "\<exists>ls w' g. port_run 1 (demo_port, 0, 0) ls (w', 0, g) \<and> sems w' avail_sem ! 1 = Some 2"
proof -
  obtain k w where "port_run 1 (demo_port, 0, 0) (demo_labels k) (w, 0, 0)" "sems w avail_sem ! nat 1 = Some 0"
    using demo_run by metis
  then show ?thesis using double_permission [OF demo_port_start] by force
qed


section \<open>A reader that is faster than the start of its port\<close>

text \<open>
  \<open>gsm_init_port\<close> creates the reader thread before the queue and the semaphores of the port.
  A reader that comes through the initialisation of its module before
  \<open>gsm_init_port\<close> goes on loses its four first queries (the IMEI, the SIM, the registration, the
  firmware): the port is reported as initialised, and its queue is empty. In the other order all
  four are queued.
\<close>
theorem start_race_loses_queries:
  "(\<exists>w. gthen (gsm_init_port_threads 1 (Some 1)) (gthen (read_thread_start 1) (gsm_init_port_sems 1))
      (static_world (\<lambda>_. 5) (\<lambda>_. [])) = Ret ((), w) \<and>
      last (trace w) = Event 1 ''GSMINIT: PORT INITIALIZED'' \<and> mqueue w 1 = Some []) \<and>
   (\<exists>w. gthen (gsm_init_port_threads 1 (Some 1)) (gthen (gsm_init_port_sems 1) (read_thread_start 1))
      (static_world (\<lambda>_. 5) (\<lambda>_. [])) = Ret ((), w) \<and>
      last (trace w) = Event 1 ''GSMINIT: PORT INITIALIZED'' \<and> mqueue w 1 = Some initial_queries)"
proof -
  let ?w = "static_world (\<lambda>_. 5) (\<lambda>_. [])"
  have "wp (gthen (gsm_init_port_threads 1 (Some 1)) (gthen (read_thread_start 1) (gsm_init_port_sems 1)))
      (\<lambda>_ w. last (trace w) = Event 1 ''GSMINIT: PORT INITIALIZED'' \<and> mqueue w 1 = Some []) ?w"
    by (simp add: wp geval static_world_def cfg_zero_def gsm_rx_gain_table_def gsm_tx_gain_table_def
        cong: lazy)
  moreover have "wp (gthen (gsm_init_port_threads 1 (Some 1)) (gthen (gsm_init_port_sems 1) (read_thread_start 1)))
      (\<lambda>_ w. last (trace w) = Event 1 ''GSMINIT: PORT INITIALIZED'' \<and> mqueue w 1 = Some initial_queries) ?w"
    by (simp add: wp geval static_world_def cfg_zero_def gsm_rx_gain_table_def gsm_tx_gain_table_def
        cong: lazy)
  ultimately show ?thesis by (simp add: wp_def)
qed


section \<open>The end of a port\<close>

text \<open>A port that is being shut down, with its streams open; and what its reader thread works on.\<close>

definition ending :: "int \<Rightarrow> int \<Rightarrow> gsm_world \<Rightarrow> bool" where
  "ending p fw w \<longleftrightarrow> port_ready p fw w \<and> cp_state (ctlport w ! nat p) = CTLPORT_STATE_KILLME"

definition reader_part :: "gsm_world \<Rightarrow> (nat \<Rightarrow> reader_pc) \<times> (nat \<Rightarrow> string) \<times> (nat \<Rightarrow> bool)" where
  "reader_part w = (reader w, modem_in w, modem_eof w)"

lemma reader_part_frame [simp]:
  "reader_part (w\<lparr>trace := t\<rparr>) = reader_part w" "reader_part (w\<lparr>calls := n\<rparr>) = reader_part w"
  "reader_part (w\<lparr>wdog_timer := ts\<rparr>) = reader_part w" "reader_part (w\<lparr>sems := f\<rparr>) = reader_part w"
  "reader_part (w\<lparr>writer := h\<rparr>) = reader_part w" "reader_part (w\<lparr>ctlport := cs\<rparr>) = reader_part w"
  by (simp_all add: reader_part_def)

lemma ending_open: "ending p fw w \<Longrightarrow> port_open p w"
  by (simp add: ending_def port_ready_def)

lemma ending_frame [simp]:
  "ending p fw (w\<lparr>trace := t\<rparr>) = ending p fw w" "ending p fw (w\<lparr>calls := n\<rparr>) = ending p fw w"
  "ending p fw (w\<lparr>modem_in := mi\<rparr>) = ending p fw w" "ending p fw (w\<lparr>reader := rd\<rparr>) = ending p fw w"
  "ending p fw w \<Longrightarrow> length ts = 32 \<Longrightarrow> ts ! nat p \<noteq> Timer_unset \<Longrightarrow> ending p fw (w\<lparr>wdog_timer := ts\<rparr>)"
  "ending p fw w \<Longrightarrow> sems w = f \<Longrightarrow> ending p fw (w\<lparr>sems := f(s := (f s)[i := v])\<rparr>)"
  "ending p fw w \<Longrightarrow> writer w = h \<Longrightarrow> writer_good pc \<Longrightarrow> ending p fw (w\<lparr>writer := h(j := pc)\<rparr>)"
  by (simp_all add: ending_def port_ready_def)

lemma ending_entry [simp]:
  assumes "ending p fw w" "ctlport w = cs"
  shows "ending p fw (w\<lparr>ctlport := cs[nat p := (cs ! nat p)\<lparr>cp_modem := mo\<rparr>]\<rparr>)"
    "ending p fw (w\<lparr>ctlport := cs[nat p := (cs ! nat p)\<lparr>msg_count := k\<rparr>]\<rparr>)"
    "length l \<le> 255 \<Longrightarrow> ending p fw (w\<lparr>ctlport := cs[nat p := (cs ! nat p)\<lparr>last_cmd_sent := l\<rparr>]\<rparr>)"
proof -
  have o: "port_open p w" using ending_open [OF assms(1)] .
  have "ending p fw (w\<lparr>ctlport := cs[nat p := c]\<rparr>)"
    if "ctl_good p c" "cp_port c = p" "cp_cfg c \<noteq> None" "fpw c = Some fw" "fpr c \<noteq> None"
      "cp_state c = CTLPORT_STATE_KILLME" for c
    using that assms port_open_ctl_upd [OF o that(1-3)] port_openD [OF o] by (simp add: ending_def port_ready_def)
  then show "ending p fw (w\<lparr>ctlport := cs[nat p := (cs ! nat p)\<lparr>cp_modem := mo\<rparr>]\<rparr>)"
    "ending p fw (w\<lparr>ctlport := cs[nat p := (cs ! nat p)\<lparr>msg_count := k\<rparr>]\<rparr>)"
    "length l \<le> 255 \<Longrightarrow> ending p fw (w\<lparr>ctlport := cs[nat p := (cs ! nat p)\<lparr>last_cmd_sent := l\<rparr>]\<rparr>)"
    using assms o port_openD [OF o] port_open_ctl_good [OF o]
    by (simp_all add: ending_def port_ready_def port_open_def GSM_CMD_LENGTH_def)
qed

lemma ending_stop_timer:
  assumes "ending p fw w"
  shows "wp (gsm_stop_check_timer p) (\<lambda>_ w'. ending p fw w' \<and> sems w' = sems w \<and> writer w' = writer w \<and>
    reader_part w' = reader_part w) w"
  using assms port_openD [OF ending_open [OF assms]] ending_open [OF assms]
  by (cases "wdog_timer w ! nat p") (simp_all add: gsm_stop_check_timer_def timer_settime_def wp)

lemma ending_destroy_timer:
  assumes "ending p fw w"
  shows "wp (gsm_destroy_check_timer p) (\<lambda>_ w'. ending p fw w' \<and> sems w' = sems w \<and> writer w' = writer w \<and>
    reader_part w' = reader_part w) w"
proof -
  let ?R = "\<lambda>w'. ending p fw w' \<and> sems w' = sems w \<and> writer w' = writer w \<and> reader_part w' = reader_part w"
  have put: "wp (timer_put p INVALID_TIMER_ID) (\<lambda>_. ?R) w'" if "?R w'" for w'
    using that port_openD [OF ending_open, of p fw w'] by (simp add: wp)
  have "wp (gthen (gsm_stop_check_timer p) (timer_put p INVALID_TIMER_ID)) (\<lambda>_. ?R) w"
    using ending_stop_timer [OF assms] put by (rule wp_seq)
  then show ?thesis
    using assms ending_open [OF assms] port_openD [OF ending_open [OF assms]]
    by (auto simp: gsm_destroy_check_timer_def wp)
qed

definition avail_positive :: "int \<Rightarrow> gsm_world \<Rightarrow> bool" where
  "avail_positive p w \<longleftrightarrow> (\<exists>k. sems w avail_sem ! nat p = Some (Suc k))"

lemma ending_post:
  assumes "ending p fw w" "sems w avail_sem ! nat p = Some n"
  shows "wp (gsm_post_next_msg p) (\<lambda>_ w'. ending p fw w' \<and> avail_positive p w' \<and>
    sems w' write_sem = sems w write_sem \<and> writer w' = writer w \<and> reader_part w' = reader_part w) w"
proof -
  let ?R = "\<lambda>w'. ending p fw w' \<and> avail_positive p w' \<and>
      sems w' write_sem = sems w write_sem \<and> writer w' = writer w \<and> reader_part w' = reader_part w"
  have o: "port_open p w" using ending_open [OF assms(1)] .
  have post: "wp (sem_post avail_sem p) (\<lambda>_. ?R) w'"
    if "ending p fw w' \<and> sems w' = sems w \<and> writer w' = writer w \<and> reader_part w' = reader_part w" for w'
    using that port_openD [OF ending_open, of p fw w'] assms(2)
    by (simp add: sem_post_def wp avail_positive_def)
  have "wp (gsm_post_grant p) (\<lambda>_. ?R) w"
    unfolding gsm_post_grant_def using ending_stop_timer [OF assms(1)] post by (rule wp_seq)
  then show ?thesis
    using assms o port_openD [OF o] by (cases n)
      (auto simp: gsm_post_next_msg_def gsm_post_check_def wp avail_positive_def)
qed

text \<open>The writer returns: each of its waits finds its semaphore posted.\<close>

lemma wp_wait_then:
  assumes "port_open p w" "sems w s ! nat p = Some (Suc k)"
  shows "wp (wait_then p s p pc) Q w = Q True (w\<lparr>sems := (sems w)(s := (sems w s)[nat p := Some k]),
    writer := (writer w)(nat p := pc)\<rparr>)"
  using wait_then_effect [OF assms, of pc] by (auto simp: wp_def)

lemma wp_gsm_send_raw_ready:
  assumes "port_ready p fw w"
  shows "wp (gsm_send_raw p s) Q w =
    Q 0 (w\<lparr>calls := calls w + 1, trace := trace w @ [Written fw (cut_at LF s)]\<rparr>)"
proof -
  obtain fr where o: "port_open p w" "fpw (ctlport w ! nat p) = Some fw"
    "fpr (ctlport w ! nat p) = Some fr" "\<And>n. 0 < env w n"
    using port_readyD [OF assms] by metis
  then show ?thesis
    using port_openD [OF o(1)] by (simp add: gsm_send_raw_def wait4mod_w_def wp wp_wait4mod_ready)
qed

lemma ending_write:
  assumes "ending p fw w" "length m \<le> 255"
  shows "wp (write_command p m) (\<lambda>_ w'. ending p fw w' \<and> writer w' (nat p) = W_sent \<and> reader_part w' = reader_part w) w"
proof -
  let ?v = "w\<lparr>ctlport := (ctlport w)[nat p := (ctlport w ! nat p)\<lparr>last_cmd_sent := take GSM_CMD_LENGTH m\<rparr>]\<rparr>"
  have o: "port_open p w" using ending_open [OF assms(1)] .
  have v: "ending p fw ?v" using assms by (simp add: GSM_CMD_LENGTH_def)
  then have "port_ready p fw ?v" by (simp add: ending_def)
  then show ?thesis
    using v assms o port_openD [OF o]
    by (simp add: write_command_def gsm_send_command_def set_writer_def wp wp_gsm_send_raw_ready GSM_CMD_LENGTH_def)
qed

lemma ending_finish:
  assumes "ending p fw w"
  shows "wp (write_finish p) (\<lambda>_ w'. ending p fw w' \<and> writer w' (nat p) = W_head \<and> reader_part w' = reader_part w) w"
proof -
  define v where "v = w\<lparr>ctlport := (ctlport w)[nat p := (ctlport w ! nat p)\<lparr>msg_count := msg_count (ctlport w ! nat p) + 1\<rparr>]\<rparr>"
  have o: "port_open p w" using ending_open [OF assms(1)] .
  have v: "ending p fw v" "reader_part v = reader_part w" using assms by (simp_all add: v_def)
  have "wp (gsm_start_check_timer p) (\<lambda>_ w'. ending p fw w' \<and> reader_part w' = reader_part w) v"
    using v port_openD [OF ending_open [OF v(1)]] ending_open [OF v(1)]
    by (cases "wdog_timer v ! nat p")
       (auto simp: gsm_start_check_timer_def timer_create_def timer_settime_def wp)
  then have "wp (gthen (gsm_start_check_timer p) (set_writer p W_head)) (\<lambda>_ w'. ending p fw w' \<and>
      writer w' (nat p) = W_head \<and> reader_part w' = reader_part w) v"
    by (rule wp_seq) (simp add: set_writer_def wp)
  then show ?thesis using o port_openD [OF o] by (simp add: write_finish_def wp v_def)
qed

definition writer_ended :: "int \<Rightarrow> int \<Rightarrow> gsm_world \<Rightarrow> gsm_world \<Rightarrow> bool" where
  "writer_ended p fw w w' \<longleftrightarrow> ending p fw w' \<and> writer w' (nat p) = W_done \<and> reader_part w' = reader_part w"

lemma writer_ended_part: "reader_part v = reader_part w \<Longrightarrow> writer_ended p fw v = writer_ended p fw w"
  by (simp add: writer_ended_def fun_eq_iff)

lemma ending_join_head:
  assumes "ending p fw w" "writer w (nat p) \<in> {W_head, W_woken, W_done} \<union> range W_send"
  shows "wp (join_writer (Suc (Suc n)) p) (\<lambda>_. writer_ended p fw w) w"
proof -
  have o: "port_open p w" using ending_open [OF assms(1)] .
  have "cp_state (ctlport w ! nat p) = CTLPORT_STATE_KILLME" using assms(1) by (simp add: ending_def)
  then show ?thesis
    using assms port_openD [OF o] o
    by (auto simp: wp writer_step_def writer_at_def write_check_def set_writer_def writer_ended_def)
qed

lemma ending_join_step:
  assumes "writer w (nat p) \<notin> {W_none, W_done}" "wp (writer_step p) (\<lambda>b w'. b \<and> R w') w"
    and "\<And>w'. R w' \<Longrightarrow> wp (join_writer n p) Q w'"
  shows "wp (join_writer (Suc n) p) Q w"
  using assms by (auto simp: wp elim!: wp_mono)

lemma ending_join_writer:
  assumes "ending p fw w" "avail_positive p w" "sems w write_sem ! nat p = Some (Suc n)"
    "writer w (nat p) \<noteq> W_none"
  shows "wp (join_writer (Suc (Suc (Suc (Suc k)))) p) (\<lambda>_. writer_ended p fw w) w"
proof -
  have o: "port_open p w" using ending_open [OF assms(1)] .
  note d = port_openD [OF o] and good = port_open_writer_good [OF o, of "nat p"]
  have sent: "wp (join_writer (Suc (Suc (Suc j))) p) (\<lambda>_. writer_ended p fw w) v"
    if v: "ending p fw v" "writer v (nat p) = W_sent" "reader_part v = reader_part w" for v j
    unfolding writer_ended_part [OF v(3), symmetric]
  proof (rule ending_join_step)
    show "wp (writer_step p) (\<lambda>b w'. b \<and> ending p fw w' \<and> writer w' (nat p) = W_head \<and> reader_part w' = reader_part v) v"
      using ending_finish [OF v(1)] v(2) port_openD [OF ending_open [OF v(1)]]
      by (simp add: writer_step_def writer_at_def wp wp_fun)
    show "wp (join_writer (Suc (Suc j)) p) (\<lambda>_. writer_ended p fw v) v'"
      if "ending p fw v' \<and> writer v' (nat p) = W_head \<and> reader_part v' = reader_part v" for v'
      using ending_join_head [of p fw v' j] writer_ended_part [of v' v] that by (simp del: join_writer.simps)
  qed (use v in auto)
  have step: "wp (join_writer (Suc (Suc (Suc (Suc k)))) p) (\<lambda>_. writer_ended p fw w) w"
    if "wp (writer_step p) (\<lambda>b w'. b \<and> ending p fw w' \<and> reader_part w' = reader_part w \<and>
        writer w' (nat p) \<in> {W_head, W_woken, W_done} \<union> range W_send) w" "writer w (nat p) \<notin> {W_none, W_done}"
    by (rule ending_join_step [OF that(2,1)])
       (metis ending_join_head writer_ended_part)
  show ?thesis
  proof (cases "writer w (nat p)")
    case W_wait
    then show ?thesis
      by (intro step) (use assms(1,3) o d W_wait in \<open>auto simp: writer_step_def writer_at_def wp wp_wait_then\<close>)
  next
    case (W_avail m)
    then show ?thesis
      by (intro step) (use assms(1,2) o d W_avail good in
          \<open>auto simp: writer_step_def writer_at_def wp wp_wait_then avail_positive_def\<close>)
  next
    case (W_write m)
    show ?thesis
    proof (rule ending_join_step)
      show "wp (writer_step p) (\<lambda>b w'. b \<and> ending p fw w' \<and> writer w' (nat p) = W_sent \<and> reader_part w' = reader_part w) w"
        using ending_write [OF assms(1), of m] W_write good d by (simp add: writer_step_def writer_at_def wp wp_fun)
    qed (use sent W_write in \<open>auto simp del: join_writer.simps\<close>)
  next
    case W_sent
    then show ?thesis using sent [of w "Suc k"] assms(1) by simp
  qed (use assms(1,4) ending_join_head [of p fw w "Suc (Suc k)"] in \<open>simp_all del: join_writer.simps\<close>)
qed


text \<open>
  The reader returns: \<open>GSM_KILLME\<close> has put a line behind the bytes of the module, so it reads one more line if it
  had come to that, and then sees the state.
\<close>

lemma ending_read_iteration:
  assumes "ending p fw w" "LF \<in> set (modem_in w (nat p))"
  shows "wp (read_iteration p) (\<lambda>b w'. b \<and> ending p fw w' \<and> writer w' = writer w \<and>
    reader w' (nat p) \<in> {R_loop, R_done}) w"
proof -
  have o: "port_open p w" using ending_open [OF assms(1)] .
  note d = port_openD [OF o]
  have s: "cp_state (ctlport w ! nat p) = CTLPORT_STATE_KILLME" "fpr (ctlport w ! nat p) \<noteq> None"
    using assms(1) by (simp_all add: ending_def port_ready_def)
  have line: "wp (report_line p line) (\<lambda>_ w'. ending p fw w' \<and> writer w' = writer w \<and>
      reader w' (nat p) \<in> {R_loop, R_done}) (w\<lparr>modem_in := mi\<rparr>)" for line mi
    using d assms(1) by (auto simp: report_line_def event_def set_reader_def wp)
  show ?thesis
    using d s line assms
    by (auto simp: read_iteration_def take_input_def set_reader_def fgets_blocks_def wp wp_fun split: option.split)
qed

lemma ending_join_reader:
  assumes "ending p fw w" "LF \<in> set (modem_in w (nat p))" "reader w (nat p) \<in> {R_loop, R_read, R_done}"
  shows "wp (join_reader (Suc (Suc (Suc (Suc k)))) p) (\<lambda>_ w'. ending p fw w' \<and> writer w' = writer w \<and>
    reader w' (nat p) = R_done) w"
proof -
  have from_loop: "wp (join_reader (Suc (Suc n)) p) (\<lambda>_ w'. ending p fw w' \<and> writer w' = writer w \<and>
      reader w' (nat p) = R_done) v"
    if "ending p fw v" "writer v = writer w" "reader v (nat p) \<in> {R_loop, R_done}" for v n
    using that port_openD [OF ending_open [OF that(1)]]
    by (auto simp: reader_step_def set_reader_def wp ending_def [of p fw v])
  show ?thesis
  proof (cases "reader w (nat p) = R_read")
    case True
    have o: "port_open p w" using ending_open [OF assms(1)] .
    have "wp (gbind (reader_step p) (\<lambda>ran. if ran then join_reader (Suc (Suc (Suc k))) p else hang))
      (\<lambda>_ w'. ending p fw w' \<and> writer w' = writer w \<and> reader w' (nat p) = R_done) w"
      using True port_openD [OF o] wp_mono [OF ending_read_iteration [OF assms(1,2)]] from_loop
      by (simp add: reader_step_def wp del: join_reader.simps)
    then show ?thesis using True by (simp add: wp del: join_reader.simps(1))
  next
    case False
    then show ?thesis using from_loop [OF assms(1) refl] assms(3)
      by (auto simp del: join_reader.simps)
  qed
qed

text \<open>The state of the port when \<open>pthread_join\<close> is called for the reader.\<close>

lemma wp_shutdown_reader:
  assumes "ending p fw w" "0 \<le> fr"
    and "\<And>w'. ending p fw w' \<Longrightarrow> writer w' = writer w \<Longrightarrow> reader w' = reader w \<Longrightarrow> modem_eof w' = modem_eof w \<Longrightarrow>
      LF \<in> set (modem_in w' (nat p)) \<Longrightarrow> wp (join_reader join_fuel p) Q w'"
  shows "wp (shutdown_reader p (Some fr)) Q w"
proof -
  let ?w = "w\<lparr>modem_in := (modem_in w)(nat p := modem_in w (nat p) @ ''KILLME'' @ [CR, LF]),
    trace := trace w @ [Ioctl fr GSM_KILLME 0], calls := Suc (calls w)\<rparr>"
  have "port_ready p fw ?w" using assms(1) by (simp add: ending_def port_ready_def)
  then show ?thesis
    using assms(1,2) assms(3)
    by (simp add: shutdown_reader_def ioctl_killme_def ioctl_def wp wp_gsm_send_raw_ready)
qed

lemma ending_close:
  assumes "ending p fw w" "writer w (nat p) = W_done" "reader w (nat p) = R_done"
  shows "wp (shutdown_close p pc)
    (\<lambda>r w'. r = (0 :: int) \<and> cp_state (ctlport w' ! nat p) = CTLPORT_STATE_KILLED \<and>
      fpw (ctlport w' ! nat p) = None \<and> fpr (ctlport w' ! nat p) = None \<and>
      writer w' (nat p) = W_done \<and> reader w' (nat p) = R_done \<and>
      (\<forall>s. sems w' s ! nat p = None) \<and> mqueue w' (write_mq_id (ctlport w' ! nat p)) = None) w"
proof -
  have o: "port_open p w" using ending_open [OF assms(1)] .
  obtain fr where f: "fpw (ctlport w ! nat p) = Some fw" "fpr (ctlport w ! nat p) = Some fr"
    "\<And>n. 0 < env w n" "0 \<le> fw"
    using port_readyD [of p fw w] assms(1) by (auto simp: ending_def)
  have env: "\<not> env w n < 0" for n using f(3) [of n] by simp
  have all: "(\<forall>s. P s) = (P ready \<and> P write_sem \<and> P avail_sem)" for P :: "semaphore \<Rightarrow> bool"
    by (metis semaphore.exhaust)
  show ?thesis
    using port_openD [OF o] f(1,2,4) env o assms(2,3)
    by (simp add: shutdown_close_def gsm_audio_stop_def gsm_audio_close_def powercycle_radio_def gsm_close_port_def
        sem_destroy_def msgctl_rmid_def ioctl_def wp all)
qed

text \<open>
  \<open>gsm_shutdown_port\<close> up to the return of the writer: the state is set, the timer destroyed, both semaphores posted.
  \<open>K\<close> is what follows.
\<close>

definition before_join :: "int \<Rightarrow> unit gm" where
  "before_join p = gthen (ctl_upd p (\<lambda>c. c\<lparr>cp_state := CTLPORT_STATE_KILLME\<rparr>))
     (gthen (gsm_destroy_check_timer p) (gthen (gsm_post_next_msg p)
     (gthen (sem_post write_sem p) (join_writer join_fuel p))))"

lemma gthen_assoc: "gthen (gthen m n) k = gthen m (gthen n k)"
  by (simp add: gthen_def gbind_def fun_eq_iff run_bind_assoc split_def)

lemma shutdown_before_join:
  assumes "port_open p w" "cp_state (ctlport w ! nat p) \<noteq> CTLPORT_STATE_KILLED"
  shows "gsm_shutdown_port p powercycle w = gthen (before_join p)
    (gthen (shutdown_reader p (fpr (ctlport w ! nat p))) (shutdown_close p powercycle)) w"
  using assms port_openD [OF assms(1)] getctlport_open [OF assms(1)]
  by (simp add: gsm_shutdown_port_def before_join_def gthen_assoc gbind_def ctl_get_def arr_get_def)

lemma join_fuel_Suc: "join_fuel = Suc (Suc (Suc (Suc (join_fuel - 4))))"
  by (simp add: join_fuel_def)

lemma before_join_ends:
  assumes "port_ready p fw w" "sems w write_sem ! nat p = Some ws" "sems w avail_sem ! nat p = Some av"
    "writer w (nat p) \<noteq> W_none"
  shows "wp (before_join p) (\<lambda>_. writer_ended p fw w) w"
proof -
  have o: "port_open p w" using assms(1) by (simp add: port_ready_def)
  define w1 where "w1 = w\<lparr>ctlport := (ctlport w)[nat p :=
    (ctlport w ! nat p)\<lparr>cp_state := CTLPORT_STATE_KILLME\<rparr>]\<rparr>"
  have "port_open p w1" unfolding w1_def
    using o port_openD [OF o]
    by (intro port_open_ctl_upd) (auto simp: port_open_ctl_good port_open_def)
  then have e1: "ending p fw w1"
    using assms port_openD [OF o] by (simp add: ending_def port_ready_def w1_def)
  have s1: "sems w1 = sems w" "writer w1 = writer w" "reader_part w1 = reader_part w" by (simp_all add: w1_def)
  let ?sems = "\<lambda>v. ending p fw v \<and> avail_positive p v \<and> writer v = writer w \<and>
    sems v write_sem ! nat p = Some (Suc ws) \<and> reader_part v = reader_part w"
  have post: "wp (sem_post write_sem p) (\<lambda>_. ?sems) v"
    if "ending p fw v \<and> avail_positive p v \<and> sems v write_sem ! nat p = Some ws \<and> writer v = writer w \<and>
      reader_part v = reader_part w" for v
    using that port_openD [OF ending_open, of p fw v]
    by (simp add: sem_post_def wp avail_positive_def)
  have next_msg: "wp (gsm_post_next_msg p) (\<lambda>_ v. ending p fw v \<and> avail_positive p v \<and>
      sems v write_sem ! nat p = Some ws \<and> writer v = writer w \<and> reader_part v = reader_part w) v"
    if "ending p fw v \<and> sems v = sems w1 \<and> writer v = writer w1 \<and> reader_part v = reader_part w1" for v
    by (rule wp_mono [OF ending_post [of p fw v av]]) (use that assms(2,3) s1 in auto)
  have join: "wp (join_writer join_fuel p) (\<lambda>_. writer_ended p fw w) v" if "?sems v" for v
    using that ending_join_writer [of p fw v ws "join_fuel - 4"] assms(4)
      writer_ended_part [of v w] by (subst join_fuel_Suc) (simp del: join_writer.simps)
  have "wp (gthen (gsm_destroy_check_timer p) (gthen (gsm_post_next_msg p)
     (gthen (sem_post write_sem p) (join_writer join_fuel p)))) (\<lambda>_. writer_ended p fw w) w1"
    using join by (blast intro: wp_seq [OF ending_destroy_timer [OF e1]] wp_seq [OF next_msg] wp_seq [OF post])
  then show ?thesis
    using o port_openD [OF o] by (simp add: before_join_def wp_gthen [of "ctl_upd _ _"] wp_ctl_upd w1_def [symmetric])
qed





section \<open>A shutdown that does not return\<close>

text \<open>
  The reader of a port whose state is neither \<open>KILLME\<close> nor \<open>SMS\<close> and whose module has not ended its stream never
  returns: it reads the lines there are and waits for more.
\<close>

definition reads_on :: "int \<Rightarrow> gsm_world \<Rightarrow> bool" where
  "reads_on p w \<longleftrightarrow> port_open p w \<and> fpr (ctlport w ! nat p) \<noteq> None \<and>
     cp_state (ctlport w ! nat p) = CTLPORT_STATE_NONE \<and> \<not> modem_eof w (nat p) \<and> reader w (nat p) \<in> {R_loop, R_read}"

lemma reads_on_report:
  assumes "port_open p w" "fpr (ctlport w ! nat p) \<noteq> None" "cp_state (ctlport w ! nat p) = CTLPORT_STATE_NONE"
    "\<not> modem_eof w (nat p)"
  shows "wp (report_line p line) (\<lambda>_. reads_on p) w"
proof -
  have "port_open p (w\<lparr>ctlport := (ctlport w)[nat p := (ctlport w ! nat p)\<lparr>cp_modem := m\<rparr>]\<rparr>)" for m
    using assms(1) port_openD [OF assms(1)] by (intro port_open_ctl_upd) (auto simp: port_open_ctl_good port_open_def)
  then show ?thesis
    using assms port_openD [OF assms(1)]
    by (auto simp: report_line_def event_def set_reader_def wp reads_on_def)
qed

lemma reads_on_step:
  assumes "reads_on p w"
  shows "wp (reader_step p) (\<lambda>ran w'. ran \<longrightarrow> reads_on p w') w"
proof -
  have o: "port_open p w" "fpr (ctlport w ! nat p) \<noteq> None" "cp_state (ctlport w ! nat p) = CTLPORT_STATE_NONE"
    "\<not> modem_eof w (nat p)" "reader w (nat p) \<in> {R_loop, R_read}" using assms by (auto simp: reads_on_def)
  note d = port_openD [OF o(1)]
  have none: "fgets_blocks False (LINE_BUFFER_SIZE - Suc 0) inp" if "fgets (LINE_BUFFER_SIZE - Suc 0) inp = None" for inp
    using that by (cases inp) (auto simp: fgets_blocks_def fgets_def LINE_BUFFER_SIZE_def)
  have line: "wp (report_line p line) (\<lambda>_. reads_on p) (w\<lparr>modem_in := mi\<rparr>)" for line mi
    using reads_on_report [of p "w\<lparr>modem_in := mi\<rparr>"] o by simp
  show ?thesis
  proof (cases "reader w (nat p) = R_loop")
    case True
    then show ?thesis using o d by (auto simp: reader_step_def set_reader_def wp reads_on_def)
  next
    case False
    then have "reader w (nat p) = R_read" using o(5) by simp
    then show ?thesis
      using o(1-4) d line none
      by (auto simp: reader_step_def read_iteration_def take_input_def wp wp_fun split: option.split)
  qed
qed

lemma reads_on_forever: "reads_on p w \<Longrightarrow> join_reader n p w = Hang"
proof (induction n arbitrary: w)
  case 0
  then show ?case by (auto simp: reads_on_def gbind_def gets_def hang_def)
next
  case (Suc n)
  obtain ran w' where "reader_step p w = Ret (ran, w')" "ran \<longrightarrow> reads_on p w'"
    using reads_on_step [OF Suc.prems] by (auto simp: wp_def)
  then show ?case
    using Suc.prems Suc.IH [of w'] by (auto simp: reads_on_def gbind_def gets_def hang_def)
qed

lemma prompt_forever:
  assumes "port_ready p fw w" "reader w (nat p) = R_prompt" "\<not> modem_eof w (nat p)"
  shows "join_reader n p w = Hang"
proof (cases n)
  case 0
  then show ?thesis using assms(2) by (simp add: gbind_def gets_def hang_def)
next
  case (Suc k)
  have o: "port_open p w" "fpr (ctlport w ! nat p) \<noteq> None" using assms(1) by (simp_all add: port_ready_def)
  note d = port_openD [OF o(1)]
  have report: "wp (report_line p line) (\<lambda>_. reads_on p)
      (w\<lparr>modem_in := mi, ctlport := (ctlport w)[nat p := (ctlport w ! nat p)\<lparr>cp_state := CTLPORT_STATE_NONE\<rparr>]\<rparr>)" for line mi
  proof (rule reads_on_report)
    show "port_open p (w\<lparr>modem_in := mi, ctlport := (ctlport w)[nat p := (ctlport w ! nat p)\<lparr>cp_state := CTLPORT_STATE_NONE\<rparr>]\<rparr>)"
      using port_open_ctl_upd [of p "w\<lparr>modem_in := mi\<rparr>" "(ctlport w ! nat p)\<lparr>cp_state := CTLPORT_STATE_NONE\<rparr>"] o d
        port_open_ctl_good [OF o(1)] by (auto simp: port_open_def)
  qed (use o d assms(3) in auto)
  have "wp (reader_step p) (\<lambda>ran w'. ran \<longrightarrow> reads_on p w') w"
    using assms(2) o d report
    by (auto simp: reader_step_def read_prompt_def take_input_def wp wp_fun split: prod.split)
  then obtain ran w' where "reader_step p w = Ret (ran, w')" "ran \<longrightarrow> reads_on p w'" by (auto simp: wp_def)
  then show ?thesis
    using assms(2) Suc reads_on_forever [of p w' k] by (auto simp: gbind_def gets_def hang_def)
qed

lemma hang_seq: "wp m (\<lambda>_. P) w \<Longrightarrow> (\<And>w'. P w' \<Longrightarrow> n w' = Hang) \<Longrightarrow> gthen m n w = Hang"
  by (auto simp: wp_def gthen_def gbind_def)

text \<open>
  C99. A reader that waits for the prompt of an SMS can keep the shutdown of its port for ever: having read two
  characters (the first two of the line the driver sends for \<open>GSM_KILLME\<close> are enough), it sets the state
  of the port to NONE over the KILLME of the shutdown, and goes back to its loop. Under the conditions of
  \<open>shutdown_returns\<close>, but with the reader at the prompt and a module that has not ended its stream,
  \<open>gsm_shutdown_port\<close> never returns; and no number of steps of the reader is enough for the join.
\<close>
theorem shutdown_waits_for_prompt:
  assumes "port_ready p fw w" "cp_state (ctlport w ! nat p) \<noteq> CTLPORT_STATE_KILLED"
    and "sems w write_sem ! nat p = Some ws" "sems w avail_sem ! nat p = Some av"
    and "writer w (nat p) \<noteq> W_none" "reader w (nat p) = R_prompt" "\<not> modem_eof w (nat p)"
  shows "gsm_shutdown_port p powercycle w = Hang \<and> (\<forall>n. join_reader n p w = Hang)"
proof -
  obtain fr where o: "port_open p w" "fpr (ctlport w ! nat p) = Some fr"
    using port_readyD [OF assms(1)] by metis
  have fr: "0 \<le> fr" "\<not> fr < 0" using port_open_ctl_good [OF o(1)] o(2) by (auto simp: ctl_good_def)
  have join: "shutdown_reader p (Some fr) v = Hang" if "writer_ended p fw w v" for v
  proof -
    have v: "ending p fw v" "reader v (nat p) = R_prompt" "\<not> modem_eof v (nat p)"
      using that assms(6,7) by (simp_all add: writer_ended_def reader_part_def)
    let ?v = "v\<lparr>modem_in := (modem_in v)(nat p := modem_in v (nat p) @ ''KILLME'' @ [CR, LF]),
      trace := trace v @ [Ioctl fr GSM_KILLME 0], calls := Suc (calls v)\<rparr>"
    have ready: "port_ready p fw ?v" using v(1) by (simp add: ending_def port_ready_def)
    have "wp (gthen (ioctl_killme p fr) (gsm_send_raw p (''ATH'' @ [CR, LF])))
        (\<lambda>_ v'. port_ready p fw v' \<and> reader v' (nat p) = R_prompt \<and> \<not> modem_eof v' (nat p)) v"
      using v(2,3) ready by (simp add: ioctl_killme_def ioctl_def wp wp_gsm_send_raw_ready)
        (simp add: port_ready_def)
    then have "gthen (gthen (ioctl_killme p fr) (gsm_send_raw p (''ATH'' @ [CR, LF]))) (join_reader join_fuel p) v = Hang"
      by (rule hang_seq) (blast intro: prompt_forever)
    then show ?thesis using fr by (simp add: shutdown_reader_def gthen_assoc)
  qed
  have "gthen (shutdown_reader p (Some fr)) (shutdown_close p powercycle) v = Hang" if "writer_ended p fw w v" for v
    using join [OF that] by (simp add: gthen_def gbind_def)
  then have "gsm_shutdown_port p powercycle w = Hang"
    unfolding shutdown_before_join [OF o(1) assms(2)] o(2) by (rule hang_seq [OF before_join_ends [OF assms(1,3-5)]])
  then show ?thesis using prompt_forever [OF assms(1,6,7)] by blast
qed

theorem shutdown_waits_for_prompt_witness:
  "gsm_shutdown_port 1 0 (demo_port\<lparr>reader := (\<lambda>_. R_prompt), modem_eof := (\<lambda>_. False)\<rparr>) = Hang"
  using shutdown_waits_for_prompt [of 1 5 "demo_port\<lparr>reader := (\<lambda>_. R_prompt), modem_eof := (\<lambda>_. False)\<rparr>" 0 1 0]
    demo_port_fresh demo_port_ready
  by (auto simp: port_ready_def port_fresh_def)

end
