(* ===== verification/Gsm_Driver.thy ===== *)
theory Gsm_Driver
  imports Gsmctl_Calls Gsm_Config Csel
begin

text \<open>
  The state of the GSM channel driver (\<open>chan_gsm/chan_gsm.c\<close>) and its helpers. \<open>gsm_drv\<close>
  holds the static variables of the driver, the GSM control library it calls (\<open>lib\<close>, the world of
  \<open>Gsm_World\<close>), its configuration, the blocks it allocates, the channels Asterisk allocates for
  it, its queues of outgoing messages, and a trace of what it asked of Asterisk and of the files it
  wrote. A pointer is an address, \<open>None\<close> for NULL; use of an address whose block was freed is a
  fault. The outcomes of Asterisk's and the system's calls are the next values of \<open>answers\<close>,
  an arbitrary sequence. Each operation runs without interruption by another
  thread. Log output and delays are left out.
\<close>


section \<open>Enumerations and structures\<close>

datatype gsm_state =
    GSM_STATE_ATD_OUT | GSM_STATE_PROCEEDING | GSM_STATE_ALERTING | GSM_STATE_ANSWERED
  | GSM_STATE_HANGUPED | GSM_STATE_RINGING | GSM_STATE_NONE | GSM_STATE_COLLISION

datatype channel_state = CHANNEL_STATE_DOWN | CHANNEL_STATE_IN_USE | CHANNEL_STATE_READY

datatype gsm_status_t =
    GSM_STATUS_NOTCONFIGURED | GSM_STATUS_UNAVAILABLE | GSM_STATUS_UNINITIALIZED
  | GSM_STATUS_INITIALIZED | GSM_STATUS_UNREGISTERED | GSM_STATUS_REGISTERED

datatype gsm_sms_work = GSM_SMS_WORK_SHOW | GSM_SMS_WORK_FETCH | GSM_SMS_WORK_FLUSH

datatype gsm_sms_state =
    GSM_SMS_STATE_NONE | GSM_SMS_STATE_EXPECTING_OK | GSM_SMS_STATE_EXPECTING_PROMPT
  | GSM_SMS_STATE_EXPECTING_SMSLIST | GSM_SMS_STATE_SMS_SENT | GSM_SMS_STATE_SMS_OK
  | GSM_SMS_STATE_LIST | GSM_SMS_STATE_GET_TEXT | GSM_SMS_STATE_FLUSHING

definition SMS_MSG_SZ :: nat where "SMS_MSG_SZ = 256"
definition SMS_NUM_SZ :: nat where "SMS_NUM_SZ = 32"

record gsm_sms_message =
  mtype :: int
  sms_index :: int
  msg_number :: string
  msg_date :: string
  msg_text :: string
  pdu_len :: int

definition sms_message_zero :: gsm_sms_message where
  "sms_message_zero =
     \<lparr>mtype = 0, sms_index = 0, msg_number = [], msg_date = [], msg_text = [], pdu_len = 0\<rparr>"

text \<open>The pointers to the manager session (\<open>s\<close>, \<open>m\<close>), stored and never read, are left out.\<close>

record gsm_sms =
  sms_state :: gsm_sms_state
  sms_text :: string
  sms_number :: string
  sms_work :: gsm_sms_work
  inbound_msg :: gsm_sms_message
  outbound_msg :: gsm_sms_message
  sms_mq_id :: int

record gsm_status_s =
  st_status :: gsm_status_t
  st_provider :: string
  st_homezone :: int
  st_rssi :: int

text \<open>
  Of \<open>struct gsm_slcc\<close> the members the driver uses; \<open>idx\<close> to \<open>tca\<close> are never read or written.
\<close>

record gsm_slcc =
  slcc_channel_state :: channel_state
  slcc_callerid :: string
  slcc_type :: int
  slcc_ringcount :: int
  slcc_ringing :: int

definition slcc_zero :: gsm_slcc where
  "slcc_zero = \<lparr>slcc_channel_state = CHANNEL_STATE_DOWN, slcc_callerid = [], slcc_type = 0,
     slcc_ringcount = 0, slcc_ringing = 0\<rparr>"

text \<open>
  \<open>struct gsm_pvt\<close>: \<open>pv_dsp\<close> is the DTMF detector, with the flag for its relaxed mode, \<open>pv_trans\<close>
  whether there is a translator. The frame and its buffer are the result of \<open>gsm_read\<close>.
\<close>

record gsm_pvt =
  pv_state :: gsm_state
  pv_port :: int
  pv_portfd :: int
  pv_context :: string
  pv_exten :: string
  pv_ast_chan :: "nat option"
  pv_hidecallerid :: int
  pv_dsp :: "bool option"
  pv_trans :: bool

definition gsm_pvt_zero :: gsm_pvt where
  "gsm_pvt_zero = \<lparr>pv_state = GSM_STATE_ATD_OUT, pv_port = 0, pv_portfd = 0, pv_context = [],
     pv_exten = [], pv_ast_chan = None, pv_hidecallerid = 0, pv_dsp = None, pv_trans = False\<rparr>"

text \<open>The members of Asterisk's \<open>struct ast_channel\<close> the driver uses.\<close>

record ast_channel =
  ch_name :: string
  ch_tech_pvt :: "nat option"
  ch_fd :: "int option"
  ch_exten :: string
  ch_context :: string
  ch_cid_num :: "string option"
  ch_hangupcause :: int

datatype ast_control =
    AST_CONTROL_ANSWER | AST_CONTROL_PROCEEDING | AST_CONTROL_RINGING | AST_CONTROL_BUSY
  | AST_CONTROL_CONGESTION | AST_CONTROL_VIDUPDATE | AST_CONTROL_HOLD | AST_CONTROL_UNHOLD
  | AST_CONTROL_none | AST_CONTROL_other int

datatype ast_effect =
    Manager_event string string
  | Queue_hangup nat
  | Queue_control "nat option" ast_control
  | Pbx_start "nat option"
  | Sms_shown int gsm_sms_message
  | File_written string string
  | Audio_written int string

record gsm_drv =
  lib :: gsm_world
  gsm_status :: "gsm_status_s list"
  gsm_sms :: "gsm_sms list"
  gsm_slcc :: "gsm_slcc list"
  sms_idx :: "int list"
  gsm_save_out_msgs :: int
  config :: "cm option"
  pvts :: "nat \<Rightarrow> gsm_pvt option"
  chans :: "nat \<Rightarrow> ast_channel option"
  heap_next :: nat
  sms_queue :: "int \<Rightarrow> gsm_sms_message list option"
  ast_trace :: "ast_effect list"
  answers :: "nat \<Rightarrow> int"
  asked :: nat

type_synonym 'a dm = "(gsm_drv, 'a) st"

text \<open>
  The functions of Asterisk the driver calls for a value (the last two on a detector and a translator
  that have a state of their own, hence the number of the call), and what the threads of the library do
  while the driver waits for a port. A frame of Asterisk: its type, length and data.
\<close>

datatype frame_type = AST_FRAME_VOICE | AST_FRAME_DTMF | AST_FRAME_other int

record ast_frame =
  frametype :: frame_type
  datalen :: int
  frame_data :: string

record gsm_par =
  ast_true :: "string \<Rightarrow> int"
  ast_translate :: "nat \<Rightarrow> ast_frame \<Rightarrow> ast_frame option"
  ast_dsp_process :: "nat \<Rightarrow> ast_frame option \<Rightarrow> ast_frame option"
  others :: "int \<Rightarrow> unit gm"


section \<open>Access to the state\<close>

text \<open>A call of the GSM control library.\<close>

definition on_lib :: "'a gm \<Rightarrow> 'a dm" where
  "on_lib m = (\<lambda>d. run_map (\<lambda>(x, w). (x, d\<lparr>lib := w\<rparr>)) (m (lib d)))"

definition answer :: "int dm" where
  "answer = (\<lambda>d. Ret (answers d (asked d), d\<lparr>asked := asked d + 1\<rparr>))"

definition effect :: "ast_effect \<Rightarrow> unit dm" where
  "effect e = modify (\<lambda>d. d\<lparr>ast_trace := ast_trace d @ [e]\<rparr>)"

definition status_get :: "int \<Rightarrow> gsm_status_s dm" where
  "status_get i = (\<lambda>d. run_map (\<lambda>x. (x, d)) (arr_get (gsm_status d) i))"

definition status_upd :: "int \<Rightarrow> (gsm_status_s \<Rightarrow> gsm_status_s) \<Rightarrow> unit dm" where
  "status_upd i f = gbind (status_get i) (\<lambda>x.
     \<lambda>d. run_map (\<lambda>xs. ((), d\<lparr>gsm_status := xs\<rparr>)) (arr_set (gsm_status d) i (f x)))"

definition sms_get :: "int \<Rightarrow> gsm_sms dm" where
  "sms_get i = (\<lambda>d. run_map (\<lambda>x. (x, d)) (arr_get (gsm_sms d) i))"

definition sms_upd :: "int \<Rightarrow> (gsm_sms \<Rightarrow> gsm_sms) \<Rightarrow> unit dm" where
  "sms_upd i f = gbind (sms_get i) (\<lambda>x.
     \<lambda>d. run_map (\<lambda>xs. ((), d\<lparr>gsm_sms := xs\<rparr>)) (arr_set (gsm_sms d) i (f x)))"

definition slcc_get :: "int \<Rightarrow> gsm_slcc dm" where
  "slcc_get i = (\<lambda>d. run_map (\<lambda>x. (x, d)) (arr_get (gsm_slcc d) i))"

definition slcc_upd :: "int \<Rightarrow> (gsm_slcc \<Rightarrow> gsm_slcc) \<Rightarrow> unit dm" where
  "slcc_upd i f = gbind (slcc_get i) (\<lambda>x.
     \<lambda>d. run_map (\<lambda>xs. ((), d\<lparr>gsm_slcc := xs\<rparr>)) (arr_set (gsm_slcc d) i (f x)))"

text \<open>Blocks: \<open>malloc\<close> and \<open>ast_channel_alloc\<close> give a new address or NULL.\<close>

definition pvt_get :: "nat \<Rightarrow> gsm_pvt dm" where
  "pvt_get a = gbind (gets (\<lambda>d. pvts d a)) (\<lambda>v. case v of None \<Rightarrow> fault | Some x \<Rightarrow> ret x)"

definition pvt_upd :: "nat \<Rightarrow> (gsm_pvt \<Rightarrow> gsm_pvt) \<Rightarrow> unit dm" where
  "pvt_upd a f = gbind (pvt_get a) (\<lambda>x. modify (\<lambda>d. d\<lparr>pvts := (pvts d)(a \<mapsto> f x)\<rparr>))"

definition pvt_alloc :: "gsm_pvt \<Rightarrow> nat option dm" where
  "pvt_alloc x = gbind answer (\<lambda>r. if r < 0 then ret None
     else gbind (gets heap_next) (\<lambda>a.
       gthen (modify (\<lambda>d. d\<lparr>pvts := (pvts d)(a \<mapsto> x), heap_next := Suc a\<rparr>)) (ret (Some a))))"

definition pvt_free :: "nat \<Rightarrow> unit dm" where
  "pvt_free a = gthen (pvt_get a) (modify (\<lambda>d. d\<lparr>pvts := (pvts d)(a := None)\<rparr>))"

definition chan_get :: "nat \<Rightarrow> ast_channel dm" where
  "chan_get a = gbind (gets (\<lambda>d. chans d a)) (\<lambda>v. case v of None \<Rightarrow> fault | Some x \<Rightarrow> ret x)"

definition chan_upd :: "nat \<Rightarrow> (ast_channel \<Rightarrow> ast_channel) \<Rightarrow> unit dm" where
  "chan_upd a f = gbind (chan_get a) (\<lambda>x. modify (\<lambda>d. d\<lparr>chans := (chans d)(a \<mapsto> f x)\<rparr>))"

definition chan_alloc :: "ast_channel \<Rightarrow> nat option dm" where
  "chan_alloc x = gbind answer (\<lambda>r. if r < 0 then ret None
     else gbind (gets heap_next) (\<lambda>a.
       gthen (modify (\<lambda>d. d\<lparr>chans := (chans d)(a \<mapsto> x), heap_next := Suc a\<rparr>)) (ret (Some a))))"

text \<open>Use of a pointer.\<close>

definition ptr :: "'a option \<Rightarrow> ('a \<Rightarrow> ('w, 'b) st) \<Rightarrow> ('w, 'b) st" where
  "ptr p f = (case p of None \<Rightarrow> fault | Some a \<Rightarrow> f a)"

text \<open>A text written to a buffer of \<open>n\<close> bytes.\<close>

definition fits :: "nat \<Rightarrow> string \<Rightarrow> ('w, string) st" where
  "fits n s = (if length s < n then ret s else fault)"

text \<open>\<open>ast_copy_string\<close> to a buffer of \<open>n\<close> bytes.\<close>

definition ast_copy_string :: "nat \<Rightarrow> string \<Rightarrow> string" where
  "ast_copy_string n s = take (n - 1) s"

text \<open>\<open>strsep\<close>: the token, and what the pointer points to afterwards.\<close>

definition strsep :: "string \<Rightarrow> string option \<Rightarrow> string option \<times> string option" where
  "strsep delims p = (case p of None \<Rightarrow> (None, None)
     | Some s \<Rightarrow> (Some (takeWhile (\<lambda>c. c \<notin> set delims) s),
         case dropWhile (\<lambda>c. c \<notin> set delims) s of [] \<Rightarrow> None | _ # r \<Rightarrow> Some r))"

text \<open>The part of a string after the first occurrence of a character (\<open>strchr\<close>, plus one).\<close>

definition after :: "char \<Rightarrow> string \<Rightarrow> string option" where
  "after c s = (case dropWhile (\<lambda>x. x \<noteq> c) s of [] \<Rightarrow> None | _ # r \<Rightarrow> Some r)"

abbreviation QUOTE :: char where "QUOTE \<equiv> CHR 0x22"

definition no_provider :: string where
  "no_provider = [QUOTE] @ ''none'' @ [QUOTE] @ ''   ''"


section \<open>The configuration\<close>

text \<open>
  \<open>cm_get\<close> to a buffer of \<open>n\<close> bytes: the return value and the string in the buffer, which
  keeps its indeterminate content when nothing is written.
\<close>

definition cfg_read :: "nat \<Rightarrow> nat \<Rightarrow> nat \<Rightarrow> cm_id \<Rightarrow> (int \<times> string) dm" where
  "cfg_read n sec elem ident = (\<lambda>d. run_map (\<lambda>(cm, re, v).
       ((re, case v of Some s \<Rightarrow> s | None \<Rightarrow> junk (lib d)), d\<lparr>config := cm\<rparr>))
     (cm_get (config d) True n (int sec) (int elem) ident))"

text \<open>With a text to use when the call fails.\<close>

definition cfg_read_or :: "string \<Rightarrow> nat \<Rightarrow> nat \<Rightarrow> nat \<Rightarrow> cm_id \<Rightarrow> string dm" where
  "cfg_read_or def n sec elem ident =
     gbind (cfg_read n sec elem ident) (\<lambda>(re, v). ret (if re \<noteq> 0 then def else v))"

definition gsm_config_get_bool :: "gsm_par \<Rightarrow> nat \<Rightarrow> nat \<Rightarrow> int dm" where
  "gsm_config_get_bool par sec parameter = gbind (cfg_read 16 sec parameter Id_none) (\<lambda>(_, t).
     ret (if ast_true par t = - 1 then 1 else ast_true par t))"

text \<open>The macro \<open>gsm_cfg_get_array\<close>: the value for a SIM slot.\<close>

definition gsm_cfg_get_array :: "string \<Rightarrow> int \<Rightarrow> string" where
  "gsm_cfg_get_array buf simslot =
     (case strsep '','' (Some buf) of (p1, s) \<Rightarrow> (case strsep '','' s of (p2, _) \<Rightarrow>
        (if simslot \<noteq> 0 \<and> p2 \<noteq> None then the p2
         else (case p1 of Some t \<Rightarrow> t | None \<Rightarrow> buf))))"

end
