(* ===== verification/Gsm_Chan.thy ===== *)
theory Gsm_Chan
  imports Gsm_Driver
begin

text \<open>
  The operations of the GSM channel driver (\<open>chan_gsm/chan_gsm.c\<close>) that Asterisk and the
  periodic tasks call, in the order of the source: the channel states shown on the display, the
  tasks, sending and listing short messages, the start and the end of a port, the methods of a
  channel, the request of a channel, and the files and indices of received messages.
\<close>


section \<open>States of the channels\<close>

definition channel_state_text :: "channel_state \<Rightarrow> string" where
  "channel_state_text s = (case s of CHANNEL_STATE_DOWN \<Rightarrow> ''CHANNEL_DOWN''
     | CHANNEL_STATE_IN_USE \<Rightarrow> ''CHANNEL_IN_USE'' | CHANNEL_STATE_READY \<Rightarrow> ''CHANNEL_READY'')"

definition gsm_send_channel_state :: "int \<Rightarrow> channel_state \<Rightarrow> unit dm" where
  "gsm_send_channel_state channel s = gthen (on_lib gsm_get_channel_offset)
     (gbind (on_lib (gsm_translate_channel channel)) (\<lambda>(r, num). case num of
         Some channel_number \<Rightarrow> if r \<ge> 0
           then effect (Manager_event ''ChannelStatus'' (''Channel: PIKA/gsm/'' @ itoa channel_number @
             [CR, LF] @ ''State: '' @ channel_state_text s @ [CR, LF]))
           else ret ()
       | None \<Rightarrow> ret ()))"

definition gsm_set_channel_state :: "int \<Rightarrow> channel_state \<Rightarrow> unit dm" where
  "gsm_set_channel_state channel s =
     (if 1 \<le> channel \<and> channel < int MAX_GSM_PORTS
      then slcc_upd channel (\<lambda>x. x\<lparr>slcc_channel_state := s\<rparr>) else ret ())"

text \<open>The result: 0 and the state, or -1.\<close>

definition gsm_get_channel_state :: "int \<Rightarrow> channel_state option dm" where
  "gsm_get_channel_state channel = gbind (on_lib (gsm_port_is_valid channel)) (\<lambda>v.
     if v \<and> 1 \<le> channel \<and> channel < int MAX_GSM_PORTS
     then gbind (slcc_get channel) (\<lambda>x. ret (Some (slcc_channel_state x))) else ret None)"

definition rssi2txt :: "int \<Rightarrow> string dm" where
  "rssi2txt rssi =
     (if rssi = 99 then ret ''not measurable''
      else if rssi = 0 then ret ''<= -113 dbm''
      else if rssi = 31 then ret ''>= -51dbm''
      else fits 8 (''-'' @ itoa (113 - 2 * rssi) @ ''dbm''))"


section \<open>Short messages to send\<close>

definition all_ports :: "int list" where
  "all_ports = map int [0..<MAX_GSM_PORTS]"

primrec for_ports :: "(int \<Rightarrow> unit dm) \<Rightarrow> int list \<Rightarrow> unit dm" where
  "for_ports f [] = ret ()"
| "for_ports f (p # ps) = gthen (f p) (for_ports f ps)"

text \<open>The queues of outgoing messages.\<close>

definition sms_msgsnd :: "int \<Rightarrow> gsm_sms_message \<Rightarrow> int dm" where
  "sms_msgsnd q m = gbind (gets (\<lambda>d. sms_queue d q)) (\<lambda>mq. case mq of
       None \<Rightarrow> ret (- 1)
     | Some ms \<Rightarrow> gbind answer (\<lambda>r. if r < 0 then ret (- 1)
         else gthen (modify (\<lambda>d. d\<lparr>sms_queue := (sms_queue d)(q \<mapsto> ms @ [m])\<rparr>)) (ret 0)))"

definition sms_msgrcv :: "int \<Rightarrow> gsm_sms_message option dm" where
  "sms_msgrcv q = gbind (gets (\<lambda>d. sms_queue d q)) (\<lambda>mq. case mq of
       Some (m # ms) \<Rightarrow>
         gthen (modify (\<lambda>d. d\<lparr>sms_queue := (sms_queue d)(q \<mapsto> ms)\<rparr>)) (ret (Some m))
     | _ \<Rightarrow> ret None)"

definition gsm_send_sms :: "int \<Rightarrow> string \<Rightarrow> string \<Rightarrow> int dm" where
  "gsm_send_sms port num sms =
     gbind (fits SMS_NUM_SZ num) (\<lambda>num. gthen (sms_upd port (\<lambda>x. x\<lparr>sms_number := num\<rparr>))
     (gbind (fits SMS_MSG_SZ sms) (\<lambda>sms. gthen (sms_upd port (\<lambda>x. x\<lparr>sms_text := sms\<rparr>))
     (gbind (sms_get port) (\<lambda>x. if sms_state x \<noteq> GSM_SMS_STATE_NONE then ret (- 1)
       else gthen (sms_upd port (\<lambda>x. x\<lparr>sms_state := GSM_SMS_STATE_EXPECTING_OK\<rparr>))
           (gthen (on_lib (gsm_send port ''AT+CMGF=1'')) (ret 0)))))))"

definition gsm_queue_sms :: "int \<Rightarrow> string \<Rightarrow> string \<Rightarrow> int dm" where
  "gsm_queue_sms port num sms =
     gbind (fits SMS_NUM_SZ num) (\<lambda>num. gbind (fits SMS_MSG_SZ sms) (\<lambda>sms.
     gbind (sms_get port) (\<lambda>x.
     gbind (sms_msgsnd (sms_mq_id x) (sms_message_zero\<lparr>mtype := 1, msg_number := num, msg_text := sms\<rparr>))
       (\<lambda>r. ret (if r < 0 then - 1 else 0)))))"

definition gsm_list_sms :: "int \<Rightarrow> int dm" where
  "gsm_list_sms port = gbind (on_lib (cfg_get port)) (\<lambda>g.
     gthen (sms_upd port (\<lambda>x. x\<lparr>sms_state := GSM_SMS_STATE_EXPECTING_SMSLIST\<rparr>))
     (gthen (on_lib (gsm_send port (if sms_pdu_mode g \<noteq> 0 then ''AT+CMGL=4''
         else ''AT+CMGL='' @ [QUOTE] @ ''ALL'' @ [QUOTE]))) (ret 0)))"


section \<open>Periodic tasks\<close>

text \<open>The call on a channel: its structure, NULL without one.\<close>

definition chan_pvt :: "nat option \<Rightarrow> nat option dm" where
  "chan_pvt ast = (case ast of None \<Rightarrow> ret None
     | Some a \<Rightarrow> gbind (chan_get a) (\<lambda>c. ret (ch_tech_pvt c)))"

definition setting_up :: "gsm_state \<Rightarrow> bool" where
  "setting_up s \<longleftrightarrow> s = GSM_STATE_ATD_OUT \<or> s = GSM_STATE_ALERTING \<or> s = GSM_STATE_PROCEEDING"

text \<open>Whether the port has a call that is being set up.\<close>

definition port_setting_up :: "int \<Rightarrow> bool dm" where
  "port_setting_up port = gbind (on_lib (gsm_get_priv port)) (\<lambda>ast. gbind (chan_pvt ast) (\<lambda>gsm.
     case gsm of None \<Rightarrow> ret False
     | Some a \<Rightarrow> gbind (pvt_get a) (\<lambda>g. ret (setting_up (pv_state g)))))"

text \<open>The body of the loop of \<open>gsm_sms_sender_func\<close>.\<close>

definition gsm_sms_sender_port :: "int \<Rightarrow> unit dm" where
  "gsm_sms_sender_port port = gbind (status_get port) (\<lambda>st. gbind (sms_get port) (\<lambda>x.
     if st_status st = GSM_STATUS_REGISTERED \<and> sms_state x = GSM_SMS_STATE_NONE then
       gbind (slcc_get port) (\<lambda>s. if slcc_ringing s \<noteq> 0 then ret ()
         else gbind (port_setting_up port) (\<lambda>busy. if busy then ret ()
           else gbind (sms_msgrcv (sms_mq_id x)) (\<lambda>r. case r of
               Some m \<Rightarrow> gthen (sms_upd port (\<lambda>x. x\<lparr>outbound_msg := m\<rparr>))
                        (gthen (gsm_send_sms port (msg_number m) (msg_text m)) (ret ()))
             | None \<Rightarrow> ret ())))
     else ret ()))"

definition gsm_sms_sender_func :: "int dm" where
  "gsm_sms_sender_func = gthen (for_ports gsm_sms_sender_port all_ports) (ret 1)"

definition gsm_query_call_port :: "int \<Rightarrow> unit dm" where
  "gsm_query_call_port port = gbind (on_lib (gsm_port_is_valid port)) (\<lambda>v.
     if \<not> v then ret () else gbind (status_get port) (\<lambda>st.
       if st_status st = GSM_STATUS_REGISTERED
       then gbind (port_setting_up port) (\<lambda>busy.
         if busy then gthen (on_lib (gsm_send port ''AT+CLCC'')) (ret ()) else ret ())
       else ret ()))"

definition gsm_query_call_state :: "int dm" where
  "gsm_query_call_state = gthen (for_ports gsm_query_call_port all_ports) (ret 1)"

definition gsm_update_lcd_port :: "int \<Rightarrow> unit dm" where
  "gsm_update_lcd_port port = gbind (on_lib (gsm_port_is_valid port)) (\<lambda>v.
     if \<not> v then ret () else gbind (gsm_get_channel_state port) (\<lambda>s. case s of
         Some s \<Rightarrow> gsm_send_channel_state port s
       | None \<Rightarrow> ret ()))"

definition gsm_update_lcd_status :: "int dm" where
  "gsm_update_lcd_status = gthen (for_ports gsm_update_lcd_port all_ports) (ret 0)"


section \<open>Errors of the module\<close>

definition hang_up_call :: "nat \<Rightarrow> nat \<Rightarrow> int \<Rightarrow> unit dm" where
  "hang_up_call ast gsm cause =
     gthen (pvt_upd gsm (\<lambda>g. g\<lparr>pv_state := GSM_STATE_HANGUPED\<rparr>))
     (gthen (chan_upd ast (\<lambda>c. c\<lparr>ch_hangupcause := cause\<rparr>)) (effect (Queue_hangup ast)))"

definition CME_ERROR_PHONE_FAILURE :: int where "CME_ERROR_PHONE_FAILURE = 0"
definition CME_ERROR_EMERGENCY_CALLS_ONLY :: int where "CME_ERROR_EMERGENCY_CALLS_ONLY = 32"
definition CME_ERROR_AUDIO_MANAGER_NOT_READY :: int where "CME_ERROR_AUDIO_MANAGER_NOT_READY = 673"
definition CME_ERROR_AUDIO_FORMAT_NOT_CONFIGURED :: int where
  "CME_ERROR_AUDIO_FORMAT_NOT_CONFIGURED = 674"
definition CME_ERROR_CALL_SETUP_IN_PROGRESS :: int where "CME_ERROR_CALL_SETUP_IN_PROGRESS = 771"
definition CMS_ERROR_ME_FAILURE :: int where "CMS_ERROR_ME_FAILURE = 300"
definition CMS_ERROR_OPERATION_NOT_SUPPORTED :: int where "CMS_ERROR_OPERATION_NOT_SUPPORTED = 303"

definition cme_ends_call :: "int \<Rightarrow> bool" where
  "cme_ends_call code \<longleftrightarrow>
     CME_ERROR_PHONE_FAILURE \<le> code \<and> code \<le> CME_ERROR_EMERGENCY_CALLS_ONLY \<or>
     code = CME_ERROR_AUDIO_MANAGER_NOT_READY \<or> code = CME_ERROR_AUDIO_FORMAT_NOT_CONFIGURED \<or>
     code = CME_ERROR_CALL_SETUP_IN_PROGRESS"

definition cms_ends_call :: "int \<Rightarrow> bool" where
  "cms_ends_call code \<longleftrightarrow> CMS_ERROR_ME_FAILURE \<le> code \<and> code \<le> CMS_ERROR_OPERATION_NOT_SUPPORTED"

definition gsm_handle_cme_error :: "int \<Rightarrow> int \<Rightarrow> int dm" where
  "gsm_handle_cme_error port code = gbind (on_lib (gsm_get_priv port)) (\<lambda>ast.
     gbind (chan_pvt ast) (\<lambda>gsm.
       gthen (if cme_ends_call code then (case (ast, gsm) of
                (Some a, Some g) \<Rightarrow> gbind (pvt_get g) (\<lambda>p.
                  if pv_state p \<noteq> GSM_STATE_HANGUPED then hang_up_call a g 3 else ret ())
              | _ \<Rightarrow> ret ()) else ret ())
             (ret 0)))"

text \<open>Here the structure of the call is used without a check.\<close>

definition gsm_handle_cms_error :: "int \<Rightarrow> int \<Rightarrow> int dm" where
  "gsm_handle_cms_error port code = gbind (on_lib (gsm_get_priv port)) (\<lambda>ast.
     gbind (chan_pvt ast) (\<lambda>gsm.
       gthen (if cms_ends_call code then (case ast of
                Some a \<Rightarrow> ptr gsm (\<lambda>g. gbind (pvt_get g) (\<lambda>p.
                  if pv_state p \<noteq> GSM_STATE_HANGUPED then hang_up_call a g 3 else ret ()))
              | None \<Rightarrow> ret ()) else ret ())
             (ret 0)))"


section \<open>Start and end of a port\<close>

definition gsm_shutdown_port_drv :: "int \<Rightarrow> int \<Rightarrow> int dm" where
  "gsm_shutdown_port_drv port powercycle =
     gthen (status_upd port (\<lambda>s. s\<lparr>st_status := GSM_STATUS_UNINITIALIZED\<rparr>))
     (gthen (on_lib (gsm_shutdown_port port powercycle)) (ret 0))"

definition gsm_cfg_upd :: "int \<Rightarrow> (gsm_config \<Rightarrow> gsm_config) \<Rightarrow> unit dm" where
  "gsm_cfg_upd port f = on_lib (gbind (cfg_get port) (\<lambda>g.
     modify (\<lambda>w. w\<lparr>gsm_cfg := (gsm_cfg w)[nat port := f g]\<rparr>)))"

text \<open>A directive of a port.\<close>

definition port_cfg_or :: "string \<Rightarrow> nat \<Rightarrow> cfg_port \<Rightarrow> int \<Rightarrow> string dm" where
  "port_cfg_or def n d port = cfg_read_or def n SECT_PORT (cfg_port_id d) (Id_int port)"

definition init_mod_port_drv :: "gsm_par \<Rightarrow> int \<Rightarrow> unit dm" where
  "init_mod_port_drv par port = gbind (on_lib (gsm_simslot_next_get port)) (\<lambda>simslot.
     if simslot < 0 then ret ()
     else gthen (status_upd port (\<lambda>s. s\<lparr>st_status := GSM_STATUS_UNAVAILABLE, st_rssi := 99,
                    st_provider := no_provider\<rparr>))
         (gthen (gsm_cfg_upd port (\<lambda>g. g\<lparr>cfg_port := 1\<rparr>))
         (gbind (port_cfg_or [] 256 CFG_PORT_PIN port) (\<lambda>v.
          gthen (gsm_cfg_upd port (\<lambda>g. g\<lparr>pin := gsm_cfg_get_array v simslot\<rparr>))
         (gbind (port_cfg_or [] 256 CFG_PORT_INITFILE port) (\<lambda>v.
          gthen (gsm_cfg_upd port (\<lambda>g. g\<lparr>initfile := gsm_cfg_get_array v simslot\<rparr>))
         (gbind (port_cfg_or [] 256 CFG_PORT_SMSC port) (\<lambda>smsc_v.
          gbind (port_cfg_or ''no'' 256 CFG_PORT_SMS_PDU_MODE port) (\<lambda>v.
          gthen (gsm_cfg_upd port (\<lambda>g. g\<lparr>sms_pdu_mode := (if ast_true par v \<noteq> 0 then 1 else 0)\<rparr>))
         (gthen (gsm_cfg_upd port (\<lambda>g. g\<lparr>smsc := gsm_cfg_get_array smsc_v simslot\<rparr>))
         (gbind (port_cfg_or ''0'' 32 CFG_PORT_RX_GAIN port) (\<lambda>v.
          gthen (gsm_cfg_upd port (\<lambda>g. g\<lparr>rx_gain := strtol v\<rparr>))
         (gbind (port_cfg_or ''0'' 32 CFG_PORT_TX_GAIN port) (\<lambda>v.
          gsm_cfg_upd port (\<lambda>g. g\<lparr>tx_gain := strtol v\<rparr>)))))))))))))))"

definition gsm_init_port_drv :: "gsm_par \<Rightarrow> int \<Rightarrow> int dm" where
  "gsm_init_port_drv par port = gbind (on_lib (gsm_check_port port)) (\<lambda>ok. if ok = 0 then ret (- 1)
     else gthen (init_mod_port_drv par port)
         (gthen (on_lib (gsm_init_port port (Some port)))
         (gthen (on_lib (gsm_wait_ready_with_timeout (others par port) port)) (ret 0))))"

definition gsm_restart_port :: "gsm_par \<Rightarrow> int \<Rightarrow> unit dm" where
  "gsm_restart_port par port = gbind (on_lib (gsm_port_is_valid port)) (\<lambda>v. if \<not> v then ret ()
     else gthen (gsm_shutdown_port_drv port 0) (gthen (gsm_init_port_drv par port) (ret ())))"

definition gsm_resetinterval :: "gsm_par \<Rightarrow> int \<Rightarrow> int dm" where
  "gsm_resetinterval par port =
     gthen (if 0 < port \<and> port < int MAX_GSM_PORTS
            then gbind (on_lib (gsm_port_in_use_get port)) (\<lambda>u.
              if u = 0 then gsm_restart_port par port else ret ())
            else ret ())
           (ret 1)"


section \<open>Methods of a channel\<close>

definition send_dtmf :: "nat \<Rightarrow> char \<Rightarrow> int dm" where
  "send_dtmf c digit = gbind (chan_get c) (\<lambda>ch. case ch_tech_pvt ch of None \<Rightarrow> ret (- 1)
     | Some a \<Rightarrow> gbind (pvt_get a) (\<lambda>g. gbind (fits 16 (''at+vts='' @ [digit])) (\<lambda>buf.
         gthen (on_lib (gsm_send (pv_port g) buf)) (ret 0))))"

definition gsm_digit_begin :: "gsm_par \<Rightarrow> nat \<Rightarrow> char \<Rightarrow> int dm" where
  "gsm_digit_begin par c digit =
     gbind (gsm_config_get_bool par SECT_GENERAL (cfg_gen_id CFG_GEN_DTMFBEGIN)) (\<lambda>b.
       if b \<noteq> 0 then send_dtmf c digit else ret 0)"

definition gsm_digit_end :: "gsm_par \<Rightarrow> nat \<Rightarrow> char \<Rightarrow> int dm" where
  "gsm_digit_end par c digit =
     gbind (gsm_config_get_bool par SECT_GENERAL (cfg_gen_id CFG_GEN_DTMFBEGIN)) (\<lambda>b.
       if b = 0 then send_dtmf c digit else ret 0)"

text \<open>
  \<open>gsm_call\<close>: the number is what follows the first slash; without one the pointer \<open>dad\<close> is NULL.
\<close>

definition dial_number :: "string \<Rightarrow> string option" where
  "dial_number dest = (case strsep ''/'' (Some (ast_copy_string 127 dest)) of (_, p) \<Rightarrow> fst (strsep ''/'' p))"

definition gsm_call :: "nat \<Rightarrow> string \<Rightarrow> int dm" where
  "gsm_call c dest = gbind (chan_get c) (\<lambda>ch. case ch_tech_pvt ch of None \<Rightarrow> ret (- 1)
     | Some a \<Rightarrow> gbind (pvt_get a) (\<lambda>g. ptr (dial_number dest) (\<lambda>dad.
         gbind (fits 128 ((if pv_hidecallerid g \<noteq> 0 then ''ATD#31#'' else ''ATD'') @ dad @ '';'')) (\<lambda>dialstring.
         gbind (slcc_get (pv_port g)) (\<lambda>s. if slcc_ringing s = 0
           then gthen (on_lib (gsm_send (pv_port g) dialstring))
               (gthen (pvt_upd a (\<lambda>g. g\<lparr>pv_state := GSM_STATE_ATD_OUT\<rparr>)) (ret 0))
           else ret (- 1))))))"

definition gsm_answer :: "nat \<Rightarrow> int dm" where
  "gsm_answer c = gbind (chan_get c) (\<lambda>ch. ptr (ch_tech_pvt ch) (\<lambda>a. gbind (pvt_get a) (\<lambda>g.
     gthen (on_lib (gsm_send (pv_port g) ''ATA''))
     (gthen (slcc_upd (pv_port g) (\<lambda>s. s\<lparr>slcc_ringing := 0\<rparr>))
     (gthen (gsm_set_channel_state (pv_port g) CHANNEL_STATE_IN_USE)
     (gthen (gsm_send_channel_state (pv_port g) CHANNEL_STATE_IN_USE) (ret 0)))))))"

text \<open>
  \<open>gsm_hangup\<close> reads \<open>gsm->port\<close> after \<open>free(gsm)\<close>: the value found there is
  \<open>junk_int\<close>, any number.
\<close>

definition gsm_hangup :: "nat \<Rightarrow> int dm" where
  "gsm_hangup c = gbind (chan_get c) (\<lambda>ch. ptr (ch_tech_pvt ch) (\<lambda>a. gbind (pvt_get a) (\<lambda>g.
     gthen (on_lib (gsm_put_priv (pv_port g) None))
     (gthen (if pv_state g \<noteq> GSM_STATE_COLLISION
             then gthen (on_lib (gsm_send (pv_port g) ''ATH'')) (ret ()) else ret ())
     (gthen (on_lib (gsm_audio_stop (pv_port g)))
     (gthen (on_lib (gsm_audio_close (pv_port g)))
     (gthen (pvt_free a)
     (gthen (chan_upd c (\<lambda>ch. ch\<lparr>ch_tech_pvt := None\<rparr>))
     (gthen (slcc_upd (pv_port g) (\<lambda>_. slcc_zero))
     (gthen (on_lib (gsm_port_release (pv_port g)))
     (gbind (gets (\<lambda>d. junk_int (lib d))) (\<lambda>freed_port.
      gthen (gsm_set_channel_state freed_port CHANNEL_STATE_READY)
     (gthen (gsm_send_channel_state (pv_port g) CHANNEL_STATE_READY) (ret 0))))))))))))))"

text \<open>
  Audio. \<open>write\<close> returns how many bytes it took, or an error with its number. The loop makes a second
  attempt when the first took too few.
\<close>

definition EAGAIN :: int where "EAGAIN = 11"

definition write_once :: "nat \<Rightarrow> int \<Rightarrow> ast_frame \<Rightarrow> (int \<Rightarrow> unit dm) \<Rightarrow> unit dm" where
  "write_once c fd f rest = gbind answer (\<lambda>len.
     if len < 0 then gbind answer (\<lambda>errno. if errno = EAGAIN then ret () else effect (Queue_hangup c))
     else gthen (effect (Audio_written fd (take (nat len) (frame_data f)))) (rest len))"

primrec write_loop :: "nat \<Rightarrow> nat \<Rightarrow> int \<Rightarrow> ast_frame \<Rightarrow> int \<Rightarrow> unit dm" where
  "write_loop 0 c fd f done = write_once c fd f (\<lambda>len. ret ())"
| "write_loop (Suc again) c fd f done = write_once c fd f (\<lambda>len.
     if done + len < datalen f then write_loop again c fd f (done + len) else ret ())"

definition gsm_write :: "nat \<Rightarrow> ast_frame \<Rightarrow> int dm" where
  "gsm_write c f = gbind (chan_get c) (\<lambda>ch. ptr (ch_tech_pvt ch) (\<lambda>a. gbind (pvt_get a) (\<lambda>g.
     case frametype f of
       AST_FRAME_VOICE \<Rightarrow> gthen (write_loop 1 c (pv_portfd g) f 0) (ret 0)
     | _ \<Rightarrow> ret (- 1))))"

text \<open>
  \<open>read\<close> of at most 160 bytes: the bytes, or an error, whose -1 becomes the length of the frame. With
  a translator and a detector the frame goes through both, and a detected digit is what is returned.
\<close>

definition gsm_read :: "gsm_par \<Rightarrow> string \<Rightarrow> nat \<Rightarrow> ast_frame dm" where
  "gsm_read par audio c = gbind (chan_get c) (\<lambda>ch. ptr (ch_tech_pvt ch) (\<lambda>a. gbind (pvt_get a) (\<lambda>g.
     gbind answer (\<lambda>r. gbind (gets asked) (\<lambda>k.
       ret (let dat = take (nat (min r 160)) audio;
                voice = \<lparr>frametype = AST_FRAME_VOICE, datalen = (if r < 0 then - 1 else int (length dat)),
                         frame_data = dat\<rparr>
            in if pv_trans g \<and> pv_dsp g \<noteq> None
               then (case ast_dsp_process par k (ast_translate par k voice) of
                   Some f \<Rightarrow> if frametype f = AST_FRAME_DTMF then f else voice
                 | None \<Rightarrow> voice)
               else voice))))))"

definition gsm_fixup :: "nat \<Rightarrow> nat \<Rightarrow> int dm" where
  "gsm_fixup oldchan newchan = gbind (chan_get newchan) (\<lambda>ch. ptr (ch_tech_pvt ch) (\<lambda>a.
     gbind (pvt_get a) (\<lambda>p.
       gthen (if pv_ast_chan p = Some oldchan
              then pvt_upd a (\<lambda>p. p\<lparr>pv_ast_chan := Some newchan\<rparr>) else ret ())
       (gthen (on_lib (gsm_masq_priv (Some oldchan) (Some newchan))) (ret 0)))))"

definition gsm_indicate :: "ast_control \<Rightarrow> int" where
  "gsm_indicate cond = (case cond of
       AST_CONTROL_BUSY \<Rightarrow> - 1 | AST_CONTROL_CONGESTION \<Rightarrow> - 1 | AST_CONTROL_RINGING \<Rightarrow> - 1
     | AST_CONTROL_none \<Rightarrow> 0
     | AST_CONTROL_VIDUPDATE \<Rightarrow> 0 | AST_CONTROL_HOLD \<Rightarrow> 0 | AST_CONTROL_UNHOLD \<Rightarrow> 0
     | _ \<Rightarrow> - 1)"


section \<open>New channels\<close>

definition AST_MAX_EXTENSION :: nat where "AST_MAX_EXTENSION = 80"
definition AST_MAX_CONTEXT :: nat where "AST_MAX_CONTEXT = 80"

definition gsm_new :: "gsm_par \<Rightarrow> nat \<Rightarrow> string option \<Rightarrow> string option \<Rightarrow> nat option dm" where
  "gsm_new par a exten cidnum = gbind (pvt_get a) (\<lambda>g.
     gbind (chan_alloc \<lparr>ch_name = ''GSM/'' @ itoa (pv_port g), ch_tech_pvt = Some a, ch_fd = None,
         ch_exten = (case exten of Some e \<Rightarrow> ast_copy_string AST_MAX_EXTENSION e | None \<Rightarrow> []),
         ch_context = ast_copy_string AST_MAX_CONTEXT (pv_context g), ch_cid_num = cidnum,
         ch_hangupcause = 0\<rparr>) (\<lambda>tmp.
     gthen (case tmp of None \<Rightarrow> ret ()
            | Some c \<Rightarrow> gbind (on_lib (gsm_audio_open (pv_port g))) (\<lambda>fd.
                gthen (pvt_upd a (\<lambda>g. g\<lparr>pv_portfd := fd\<rparr>))
                  (if fd \<ge> 0 then chan_upd c (\<lambda>ch. ch\<lparr>ch_fd := Some fd\<rparr>) else ret ())))
     (gthen (pvt_upd a (\<lambda>g. g\<lparr>pv_ast_chan := tmp\<rparr>))
     (gbind answer (\<lambda>dsp.
      gthen (if dsp < 0 then pvt_upd a (\<lambda>g. g\<lparr>pv_dsp := None\<rparr>)
             else gbind (gsm_config_get_bool par SECT_GENERAL (cfg_gen_id CFG_GEN_RELAXDTMF)) (\<lambda>relax.
               pvt_upd a (\<lambda>g. g\<lparr>pv_dsp := Some (relax \<noteq> 0)\<rparr>)))
     (gbind answer (\<lambda>trans.
      gthen (pvt_upd a (\<lambda>g. g\<lparr>pv_trans := (trans \<ge> 0)\<rparr>))
     (gthen (on_lib (gsm_put_priv (pv_port g) tmp))
     (gthen (pvt_upd a (\<lambda>g. g\<lparr>pv_state := GSM_STATE_NONE\<rparr>)) (ret tmp))))))))))"

definition configure_gsm :: "gsm_par \<Rightarrow> nat \<Rightarrow> unit dm" where
  "configure_gsm par a = gbind (pvt_get a) (\<lambda>g.
     gbind (on_lib (gsm_simslot_get (pv_port g))) (\<lambda>simslot.
     gbind (port_cfg_or ''default'' 256 CFG_PORT_CONTEXT (pv_port g)) (\<lambda>context.
     gthen (pvt_upd a (\<lambda>g. g\<lparr>pv_context := gsm_cfg_get_array context simslot\<rparr>))
     (gbind (port_cfg_or ''s'' 256 CFG_PORT_EXTEN (pv_port g)) (\<lambda>exten.
     gthen (pvt_upd a (\<lambda>g. g\<lparr>pv_exten := gsm_cfg_get_array exten simslot\<rparr>))
     (gbind (port_cfg_or ''no'' 32 CFG_PORT_HIDECALLERID (pv_port g)) (\<lambda>hc.
      pvt_upd a (\<lambda>g. g\<lparr>pv_hidecallerid := ast_true par (gsm_cfg_get_array hc simslot)\<rparr>))))))))"

definition check_and_fetch_port :: "int \<Rightarrow> int dm" where
  "check_and_fetch_port port = gbind (on_lib (gsm_port_is_valid port)) (\<lambda>v. if \<not> v then ret (- 1)
     else gbind (status_get port) (\<lambda>st. if st_status st \<noteq> GSM_STATUS_REGISTERED then ret (- 1)
       else gbind (on_lib (gsm_port_fetch port)) (\<lambda>r. ret (if r = 0 then - 1 else 0))))"

text \<open>The pointer \<open>csel_occupy\<close> returns is the number of the port.\<close>

definition csel_occupy :: "int \<Rightarrow> int option dm" where
  "csel_occupy port = gbind (check_and_fetch_port port) (\<lambda>r.
     ret (if r = 0 \<and> port \<noteq> 0 then Some port else None))"

text \<open>
  As the callback of \<open>res_csel.c\<close>: the state is the outcome so far, and after a fault nothing runs.
\<close>

definition occupy_cb :: "int \<Rightarrow> gsm_drv run \<Rightarrow> int option \<times> gsm_drv run" where
  "occupy_cb port r = (case run_bind r (csel_occupy port) of
       Ret (p, d) \<Rightarrow> (p, Ret d) | Fault \<Rightarrow> (None, Fault) | Hang \<Rightarrow> (None, Hang))"

text \<open>
  The table \<open>csel_groups\<close>: the name and the selector of a group.
\<close>

type_synonym gsm_csel = "(int, int, gsm_drv run) csel"
type_synonym csel_groups = "(string \<times> gsm_csel) option list"

fun find_group :: "csel_groups \<Rightarrow> string \<Rightarrow> nat \<Rightarrow> nat option" where
  "find_group [] grp i = None"
| "find_group (None # gs) grp i = find_group gs grp (Suc i)"
| "find_group (Some (name, cs) # gs) grp i =
     (if strcasecmp name grp = 0 then Some i else find_group gs grp (Suc i))"

definition csel_next :: "(seed \<Rightarrow> nat \<times> seed) \<Rightarrow> gsm_csel \<Rightarrow> seed \<Rightarrow> (int option \<times> gsm_csel \<times> seed) dm" where
  "csel_next random cs s = (\<lambda>d. run_bind (csel_get_next strategies random cs s (Ret d))
     (\<lambda>(p, cs, s, r). run_map (\<lambda>d. ((p, cs, s), d)) r))"

text \<open>The port a request names: by group, or by number. The groups and the seed are state, too.\<close>

definition request_port :: "(seed \<Rightarrow> nat \<times> seed) \<Rightarrow> csel_groups \<Rightarrow> seed \<Rightarrow> string \<Rightarrow>
    (int option \<times> csel_groups \<times> seed) dm" where
  "request_port random groups s port_str =
     (if take 2 port_str = ''g:'' then
        (case find_group groups (drop 2 port_str) 0 of
           None \<Rightarrow> ret (None, groups, s)
         | Some i \<Rightarrow> (case groups ! i of None \<Rightarrow> ret (None, groups, s)
             | Some (name, cs) \<Rightarrow> gbind (csel_next random cs s) (\<lambda>(p, cs, s).
                 ret (p, groups[i := Some (name, cs)], s))))
      else gbind (check_and_fetch_port (strtol port_str)) (\<lambda>r.
        ret (if r < 0 then None else Some (strtol port_str), groups, s)))"

text \<open>The call on a port that was reserved.\<close>

definition request_call :: "gsm_par \<Rightarrow> string option \<Rightarrow> int \<Rightarrow> nat option dm" where
  "request_call par ext port = gbind (pvt_alloc (gsm_pvt_zero\<lparr>pv_port := port\<rparr>)) (\<lambda>gsm.
     case gsm of None \<Rightarrow> ret None
     | Some a \<Rightarrow> gthen (configure_gsm par a)
         (gthen (gsm_set_channel_state port CHANNEL_STATE_IN_USE)
         (gthen (gsm_send_channel_state port CHANNEL_STATE_IN_USE) (gsm_new par a ext None))))"

definition gsm_request :: "gsm_par \<Rightarrow> (seed \<Rightarrow> nat \<times> seed) \<Rightarrow> csel_groups \<Rightarrow> seed \<Rightarrow> string \<Rightarrow>
    (nat option \<times> csel_groups \<times> seed) dm" where
  "gsm_request par random groups s dat =
     (case strsep ''/'' (Some (ast_copy_string 127 dat)) of (port_str, p) \<Rightarrow>
        (case strsep ''/'' p of (ext, _) \<Rightarrow>
           ptr port_str (\<lambda>port_str. gbind (request_port random groups s port_str) (\<lambda>(port, groups, s).
             gbind (case port of None \<Rightarrow> ret None | Some port \<Rightarrow> request_call par ext port) (\<lambda>chan.
               ret (chan, groups, s))))))"


section \<open>Received short messages\<close>

definition output_sms :: "int \<Rightarrow> gsm_sms_message \<Rightarrow> unit dm" where
  "output_sms port msg = effect (Sms_shown port msg)"

text \<open>\<open>gettimeofday\<close>: seconds and microseconds.\<close>

definition gettimeofday :: "(int \<times> int) dm" where
  "gettimeofday = gbind answer (\<lambda>s. gbind answer (\<lambda>u. ret (s mod 2 ^ 31, u mod 1000000)))"

definition sms_file_text :: "int \<Rightarrow> int \<Rightarrow> gsm_sms_message \<Rightarrow> string" where
  "sms_file_text port pdu msg = ''port='' @ itoa port @ [LF] @
     (if pdu \<noteq> 0 then ''pdu_len='' @ itoa (pdu_len msg) @ [LF]
      else ''callerid='' @ msg_number msg @ [LF] @ ''date='' @ msg_date msg @ [LF]) @
     ''text='' @ msg_text msg @ [LF]"

definition sms_event :: "int \<Rightarrow> int \<Rightarrow> gsm_sms_message \<Rightarrow> ast_effect" where
  "sms_event port pdu msg =
     (if pdu \<noteq> 0 then Manager_event ''NewSMS_PDU'' (''Port: '' @ itoa port @ [CR, LF] @
          ''PDU_LEN: '' @ itoa (pdu_len msg) @ [CR, LF] @ ''Text: '' @ msg_text msg @ [CR, LF])
      else Manager_event ''NewSMS'' (''Port: '' @ itoa port @ [CR, LF] @
          ''CallerID: '' @ msg_number msg @ [CR, LF] @ ''Date: '' @ msg_date msg @ [CR, LF] @
          ''Text: '' @ msg_text msg @ [CR, LF]))"

definition save_sms :: "int \<Rightarrow> gsm_sms_message \<Rightarrow> unit dm" where
  "save_sms port msg = gbind (cfg_read 96 SECT_GENERAL (cfg_gen_id CFG_GEN_SMS_DIR) Id_none) (\<lambda>(_, dir).
     if dir = [] then ret ()
     else gbind gettimeofday (\<lambda>(sec, usec).
       gbind (fits 64 (''/'' @ itoa sec @ ''-'' @ itoa usec @ ''-port-'' @ itoa port @ ''.sms'')) (\<lambda>name.
       gbind (fits 128 (dir @ name)) (\<lambda>filename.
       gbind answer (\<lambda>f. if f < 0 then ret ()
         else gbind (on_lib (cfg_get port)) (\<lambda>g.
           gthen (effect (File_written filename (sms_file_text port (sms_pdu_mode g) msg)))
                 (effect (sms_event port (sms_pdu_mode g) msg))))))))"

text \<open>The indices of the messages to delete: an array of 256 numbers, 0 for a free place.\<close>

fun idx_add :: "int \<Rightarrow> int list \<Rightarrow> int list" where
  "idx_add i [] = []"
| "idx_add i (x # xs) = (if x = 0 then i # xs else x # idx_add i xs)"

fun idx_get_next :: "int list \<Rightarrow> int \<times> int list" where
  "idx_get_next [] = (0, [])"
| "idx_get_next (x # xs) =
     (if x \<noteq> 0 then (x, 0 # xs) else case idx_get_next xs of (i, ys) \<Rightarrow> (i, x # ys))"

definition sms_idx_add :: "int \<Rightarrow> unit dm" where
  "sms_idx_add i = modify (\<lambda>d. d\<lparr>sms_idx := idx_add i (sms_idx d)\<rparr>)"

definition sms_idx_get_next :: "int dm" where
  "sms_idx_get_next = gbind (gets (\<lambda>d. idx_get_next (sms_idx d))) (\<lambda>(i, xs).
     gthen (modify (\<lambda>d. d\<lparr>sms_idx := xs\<rparr>)) (ret i))"

end
