(* ===== verification/Gsm_Events.thy ===== *)
theory Gsm_Events
  imports Gsm_Chan
begin

text \<open>
  The events of the GSM channel driver (\<open>chan_gsm/chan_gsm.c\<close>): how a line of a module is
  classified (\<open>parse_events\<close>), and \<open>cb_events\<close>, which the reader thread of a port
  calls with every line: the handling of short messages, of a line while the port has no call, and of a
  line while it has one.
\<close>

unbundle bit_operations_syntax


section \<open>Classification of lines\<close>

datatype gsm_events =
    GSM_EVENT_NONE | GSM_EVENT_RING | GSM_EVENT_BUSY | GSM_EVENT_NO_CARRIER | GSM_EVENT_OK
  | GSM_EVENT_CLCC_CALL_0 | GSM_EVENT_CLCC_CALL_1 | GSM_EVENT_CLCC_CALL_2 | GSM_EVENT_CLCC_CALL_3
  | GSM_EVENT_CSQ | GSM_EVENT_CREG_SERVICE_0 | GSM_EVENT_CREG_SERVICE_1 | GSM_EVENT_CREG_SERVICE_2
  | GSM_EVENT_CREG_SERVICE_3 | GSM_EVENT_CREG_SERVICE_4 | GSM_EVENT_CREG_SERVICE_5
  | GSM_EVENT_ENTER_SMS | GSM_EVENT_SMS_ECHO | GSM_EVENT_SMS_CMGL_ECHO | GSM_EVENT_SMS_TRANSMITTED
  | GSM_EVENT_SMS_NEW_MESSAGE | GSM_EVENT_SMS_INCOMING_MESSAGE | GSM_EVENT_ERROR | GSM_EVENT_COPS
  | GSM_EVENT_INIT | GSM_EVENT_CUSD | GSM_EVENT_MODEM_CHECK_ERROR | GSM_EVENT_CALL_READY
  | GSM_EVENT_COPN | GSM_EVENT_CLIP | GSM_EVENT_CME_ERROR | GSM_EVENT_CMS_ERROR
  | GSM_EVENT_SIM_INSERTED | GSM_EVENT_SIM_REMOVED

definition parse_current_call_state :: "string \<Rightarrow> gsm_events" where
  "parse_current_call_state ev =
     (if strstr ev ''+CLCC: 1,0,0'' then GSM_EVENT_CLCC_CALL_0
      else if strstr ev ''+CLCC: 1,0,3'' then GSM_EVENT_CLCC_CALL_3
      else if strstr ev ''+CLCC: 1,0,2'' then GSM_EVENT_CLCC_CALL_2
      else if strstr ev ''+CLCC: 1,1'' then GSM_EVENT_CLCC_CALL_1
      else GSM_EVENT_NONE)"

text \<open>The three forms of a registration report that one test looks for.\<close>

definition creg :: "string \<Rightarrow> char \<Rightarrow> bool" where
  "creg ev n \<longleftrightarrow> strstr ev (''+CREG: 1,'' @ [n]) \<or> strstr ev (''+CREG: 0,'' @ [n]) \<or> strstr ev (''+CREG: '' @ [n])"

definition parse_events :: "string \<Rightarrow> gsm_events" where
  "parse_events ev =
     (if strstr ev ''RING'' then GSM_EVENT_RING
      else if strstr ev ''BUSY'' then GSM_EVENT_BUSY
      else if strstr ev ''OK'' then GSM_EVENT_OK
      else if strstr ev ''NO CARRIER'' then GSM_EVENT_NO_CARRIER
      else if strstr ev ''+CLCC: 1'' then parse_current_call_state ev
      else if strstr ev ''+CSQ: '' then GSM_EVENT_CSQ
      else if creg ev CHR ''0'' then GSM_EVENT_CREG_SERVICE_0
      else if creg ev CHR ''1'' then GSM_EVENT_CREG_SERVICE_1
      else if creg ev CHR ''2'' then GSM_EVENT_CREG_SERVICE_2
      else if creg ev CHR ''3'' then GSM_EVENT_CREG_SERVICE_3
      else if creg ev CHR ''4'' then GSM_EVENT_CREG_SERVICE_4
      else if creg ev CHR ''5'' then GSM_EVENT_CREG_SERVICE_5
      else if strstr ev ''+CREG: 1'' then GSM_EVENT_CREG_SERVICE_1
      else if strstr ev ''+CREG:'' then GSM_EVENT_CREG_SERVICE_0
      else if strstr ev ''Call Ready'' then GSM_EVENT_CALL_READY
      else if strstr ev ''> '' then GSM_EVENT_ENTER_SMS
      else if strstr ev ''+CMGW: '' then GSM_EVENT_SMS_ECHO
      else if strstr ev ''+CMGS: '' \<or> strstr ev ''+CMSS: '' then GSM_EVENT_SMS_TRANSMITTED
      else if strstr ev (''AT+CMGL='' @ [QUOTE] @ ''ALL'' @ [QUOTE]) then GSM_EVENT_SMS_CMGL_ECHO
      else if strstr ev ''+CMGL: '' then GSM_EVENT_SMS_NEW_MESSAGE
      else if strstr ev ''+CMTI: '' then GSM_EVENT_SMS_INCOMING_MESSAGE
      else if strstr ev ''+COPS:'' then GSM_EVENT_COPS
      else if strstr ev ''GSMINIT:'' then GSM_EVENT_INIT
      else if strstr ev ''MODEM_CHECK_ERROR'' then GSM_EVENT_MODEM_CHECK_ERROR
      else if strstr ev ''+CUSD:'' then GSM_EVENT_CUSD
      else if strstr ev ''+COPN:'' then GSM_EVENT_COPN
      else if strstr ev ''+CLIP:'' then GSM_EVENT_CLIP
      else if strstr ev ''+CME ERROR:'' then GSM_EVENT_CME_ERROR
      else if strstr ev ''+CMS ERROR:'' then GSM_EVENT_CMS_ERROR
      else if strstr ev ''ERROR'' then GSM_EVENT_ERROR
      else if strstr ev ''+CSMINS: 1,0'' then GSM_EVENT_SIM_REMOVED
      else if strstr ev ''+CSMINS: 1,1'' then GSM_EVENT_SIM_INSERTED
      else GSM_EVENT_NONE)"


section \<open>Short messages\<close>

definition msg_upd :: "int \<Rightarrow> (gsm_sms_message \<Rightarrow> gsm_sms_message) \<Rightarrow> unit dm" where
  "msg_upd port f = sms_upd port (\<lambda>x. x\<lparr>inbound_msg := f (inbound_msg x)\<rparr>)"

definition set_sms_state :: "int \<Rightarrow> gsm_sms_state \<Rightarrow> unit dm" where
  "set_sms_state port s = sms_upd port (\<lambda>x. x\<lparr>sms_state := s\<rparr>)"

text \<open>The next token; without one the handling ends (\<open>if (!r) break\<close>).\<close>

definition token :: "string \<Rightarrow> string option \<Rightarrow> (string \<Rightarrow> string option \<Rightarrow> unit dm) \<Rightarrow> unit dm" where
  "token delims p f = (case strsep delims p of (None, _) \<Rightarrow> ret () | (Some r, p) \<Rightarrow> f r p)"

text \<open>The message that is complete: it is shown or saved, as the command asked for.\<close>

definition finish_message :: "int \<Rightarrow> unit dm" where
  "finish_message port =
     gthen (gbind (sms_get port) (\<lambda>x. if sms_work x = GSM_SMS_WORK_SHOW
              then gthen (output_sms port (inbound_msg x)) (msg_upd port (\<lambda>_. sms_message_zero)) else ret ()))
           (gbind (sms_get port) (\<lambda>x. if sms_work x = GSM_SMS_WORK_FETCH
              then gthen (save_sms port (inbound_msg x)) (sms_idx_add (sms_index (inbound_msg x))) else ret ()))"

text \<open>The header of a message in text mode, and in PDU mode.\<close>

definition text_header :: "int \<Rightarrow> string \<Rightarrow> unit dm" where
  "text_header port ev =
     token '':'' (Some ev) (\<lambda>_ p. token '','' p (\<lambda>r p.
     gthen (msg_upd port (\<lambda>m. m\<lparr>sms_index := strtol r\<rparr>))
     (token '','' p (\<lambda>_ p. token [QUOTE] p (\<lambda>_ p. token [QUOTE] p (\<lambda>r p.
     gbind (fits SMS_NUM_SZ r) (\<lambda>r. gthen (msg_upd port (\<lambda>m. m\<lparr>msg_number := r\<rparr>))
     (token [QUOTE] p (\<lambda>_ p. token [QUOTE] p (\<lambda>r p.
     gbind (fits 32 r) (\<lambda>r. gthen (msg_upd port (\<lambda>m. m\<lparr>msg_date := r\<rparr>))
     (gthen (set_sms_state port GSM_SMS_STATE_GET_TEXT)
       (msg_upd port (\<lambda>m. m\<lparr>msg_text := []\<rparr>))))))))))))))"

definition pdu_header :: "int \<Rightarrow> string \<Rightarrow> unit dm" where
  "pdu_header port ev =
     token '':'' (Some ev) (\<lambda>_ p. token '','' p (\<lambda>r p.
     gthen (msg_upd port (\<lambda>m. m\<lparr>sms_index := strtol r\<rparr>))
     (token '','' p (\<lambda>_ p. token '','' p (\<lambda>_ p. token '',)'' p (\<lambda>r p.
     gthen (msg_upd port (\<lambda>m. m\<lparr>pdu_len := strtol r, msg_text := []\<rparr>))
     (gthen (set_sms_state port GSM_SMS_STATE_GET_TEXT)
       (msg_upd port (\<lambda>m. m\<lparr>msg_number := [], msg_date := []\<rparr>)))))))))"

text \<open>The next stored message is deleted; false when there is none left.\<close>

definition delete_next :: "int \<Rightarrow> bool dm" where
  "delete_next port = gbind sms_idx_get_next (\<lambda>i. if i = 0 then ret False
     else gbind (fits 32 (''AT+CMGD='' @ itoa i)) (\<lambda>buf.
       gthen (set_sms_state port GSM_SMS_STATE_FLUSHING)
       (gthen (on_lib (gsm_send port buf)) (ret True))))"

definition sms_idle :: "int \<Rightarrow> unit dm" where
  "sms_idle port = sms_upd port (\<lambda>x. x\<lparr>sms_state := GSM_SMS_STATE_NONE, sms_work := GSM_SMS_WORK_SHOW\<rparr>)"

text \<open>
  \<open>OK\<close> while short messages are handled: after the mode was set the number is sent; after a list
  the last message is finished and the saved ones are deleted one by one; otherwise the
  handling is over.
\<close>

definition sms_send_number :: "int \<Rightarrow> unit dm" where
  "sms_send_number port = gthen (set_sms_state port GSM_SMS_STATE_EXPECTING_PROMPT)
     (gbind (sms_get port) (\<lambda>x. gbind (gets gsm_save_out_msgs) (\<lambda>save.
       gbind (fits 40 ((if save \<noteq> 0 then ''AT+CMGW='' else ''AT+CMGS='') @ [QUOTE] @ sms_number x @ [QUOTE])) (\<lambda>buf.
         gthen (on_lib (gsm_send port buf)) (gthen (on_lib (gsm_sms_enter port)) (ret ()))))))"

definition sms_ok :: "int \<Rightarrow> unit dm" where
  "sms_ok port = gbind (sms_get port) (\<lambda>x.
     if sms_state x = GSM_SMS_STATE_EXPECTING_OK then sms_send_number port
     else gbind (if sms_state x = GSM_SMS_STATE_GET_TEXT
                 then gthen (finish_message port) (delete_next port) else ret False) (\<lambda>stop.
       if stop then ret ()
       else gbind (sms_get port) (\<lambda>x. gbind (if sms_state x = GSM_SMS_STATE_FLUSHING
                   then delete_next port else ret False) (\<lambda>stop.
         if stop then ret () else sms_idle port))))"

definition sms_new_message :: "int \<Rightarrow> string \<Rightarrow> unit dm" where
  "sms_new_message port ev = gbind (sms_get port) (\<lambda>x.
     gthen (if sms_state x = GSM_SMS_STATE_GET_TEXT then finish_message port else ret ())
     (gbind (on_lib (cfg_get port)) (\<lambda>g.
       if sms_pdu_mode g = 0 then text_header port ev else pdu_header port ev)))"

definition sms_transmitted :: "int \<Rightarrow> unit dm" where
  "sms_transmitted port =
     gthen (sms_upd port (\<lambda>x. x\<lparr>sms_state := GSM_SMS_STATE_NONE, outbound_msg := sms_message_zero\<rparr>))
     (gbind (on_lib (cfg_get port)) (\<lambda>g. if sms_pdu_mode g \<noteq> 0
       then gthen (on_lib (gsm_send port ''AT+CMGF=0'')) (ret ()) else ret ()))"

definition sms_echo :: "int \<Rightarrow> string \<Rightarrow> unit dm" where
  "sms_echo port ev = gbind (gets gsm_save_out_msgs) (\<lambda>save. if save = 0 then ret ()
     else (case after CHR '':'' ev of None \<Rightarrow> ret ()
       | Some p \<Rightarrow> gbind (fits 100 (''AT+CMSS='' @ itoa (strtol p))) (\<lambda>txt.
           gthen (on_lib (gsm_send port txt)) (ret ()))))"

text \<open>The prompt: the text, ended by control-Z.\<close>

definition sms_prompted :: "int \<Rightarrow> unit dm" where
  "sms_prompted port = gthen (set_sms_state port GSM_SMS_STATE_SMS_SENT)
     (gbind (sms_get port) (\<lambda>x. gbind (fits 1048 (sms_text x @ [CHR 0x1A])) (\<lambda>buf.
       gthen (on_lib (gsm_send_raw port buf)) (ret ()))))"

definition cb_sms :: "int \<Rightarrow> gsm_events \<Rightarrow> string \<Rightarrow> unit dm" where
  "cb_sms port ev line = (case ev of
       GSM_EVENT_SMS_CMGL_ECHO \<Rightarrow> set_sms_state port GSM_SMS_STATE_LIST
     | GSM_EVENT_SMS_NEW_MESSAGE \<Rightarrow> sms_new_message port line
     | GSM_EVENT_NONE \<Rightarrow> gbind (sms_get port) (\<lambda>x. if sms_state x = GSM_SMS_STATE_GET_TEXT
         then gbind (fits SMS_MSG_SZ (msg_text (inbound_msg x) @ line)) (\<lambda>t. msg_upd port (\<lambda>m. m\<lparr>msg_text := t\<rparr>))
         else ret ())
     | GSM_EVENT_OK \<Rightarrow> sms_ok port
     | GSM_EVENT_SMS_TRANSMITTED \<Rightarrow> sms_transmitted port
     | GSM_EVENT_SMS_ECHO \<Rightarrow> sms_echo port line
     | GSM_EVENT_ENTER_SMS \<Rightarrow> sms_prompted port
     | _ \<Rightarrow> ret ())"


section \<open>Without a call\<close>

definition LED_GREEN :: int where "LED_GREEN = 1"
definition LED_RED :: int where "LED_RED = 2"
definition LED_BLINK :: int where "LED_BLINK = 16"

definition send_all :: "int \<Rightarrow> string list \<Rightarrow> unit dm" where
  "send_all port cmds = on_lib (send_list port cmds)"

definition show_state :: "int \<Rightarrow> channel_state \<Rightarrow> unit dm" where
  "show_state port s = gthen (gsm_set_channel_state port s) (gsm_send_channel_state port s)"

text \<open>The reports of the registration.\<close>

definition creg_not_registered :: "int \<Rightarrow> unit dm" where
  "creg_not_registered port =
     gthen (status_upd port (\<lambda>s. s\<lparr>st_status := GSM_STATUS_UNREGISTERED, st_rssi := 0,
              st_provider := no_provider, st_homezone := 0\<rparr>))
     (gthen (on_lib (gsm_set_led port LED_RED))
     (gthen (send_all port [''AT+CSQ'']) (show_state port CHANNEL_STATE_DOWN)))"

definition creg_home :: "int \<Rightarrow> unit dm" where
  "creg_home port =
     gthen (status_upd port (\<lambda>s. s\<lparr>st_status := GSM_STATUS_REGISTERED\<rparr>))
     (gthen (send_all port [''AT+COPS?''])
     (gthen (status_upd port (\<lambda>s. s\<lparr>st_homezone := 1\<rparr>))
     (gthen (send_all port [''AT+CSQ'', ''AT+CCWA=0,0'']) (show_state port CHANNEL_STATE_READY))))"

definition creg_searching :: "int \<Rightarrow> unit dm" where
  "creg_searching port =
     gthen (status_upd port (\<lambda>s. s\<lparr>st_status := GSM_STATUS_UNREGISTERED, st_rssi := 0,
              st_provider := no_provider, st_homezone := 0\<rparr>))
     (gthen (send_all port [''AT+CSQ'']) (show_state port CHANNEL_STATE_DOWN))"

definition creg_denied :: "int \<Rightarrow> unit dm" where
  "creg_denied port =
     gthen (status_upd port (\<lambda>s. s\<lparr>st_status := GSM_STATUS_UNREGISTERED,
              st_provider := no_provider, st_homezone := 0\<rparr>))
     (gthen (send_all port [''AT+CSQ'']) (show_state port CHANNEL_STATE_DOWN))"

definition creg_roaming :: "int \<Rightarrow> unit dm" where
  "creg_roaming port =
     gthen (status_upd port (\<lambda>s. s\<lparr>st_status := GSM_STATUS_REGISTERED\<rparr>))
     (gthen (send_all port [''AT+COPS?'', ''AT+CSQ'', ''AT+CCWA=0,0''])
     (gthen (status_upd port (\<lambda>s. s\<lparr>st_homezone := 0\<rparr>)) (show_state port CHANNEL_STATE_READY)))"

text \<open>The initialisation of the module and its provider.\<close>

definition ev_init :: "int \<Rightarrow> string \<Rightarrow> unit dm" where
  "ev_init port line =
     (if strstr line ''GSMINIT: PORT NOT INITIALIZED:''
      then gthen (status_upd port (\<lambda>s. s\<lparr>st_status := GSM_STATUS_UNINITIALIZED\<rparr>))
          (gthen (on_lib (gsm_set_led port LED_RED)) (ret ()))
      else gthen (on_lib (gsm_set_led port (LED_GREEN OR LED_BLINK)))
          (status_upd port (\<lambda>s. s\<lparr>st_status := GSM_STATUS_INITIALIZED\<rparr>)))"

definition cops_provider :: "string \<Rightarrow> string option" where
  "cops_provider line = (case strsep '','' (Some line) of (_, p) \<Rightarrow> (case strsep '','' p of (_, p) \<Rightarrow>
     fst (strsep '','' p)))"

definition ev_cops :: "int \<Rightarrow> string \<Rightarrow> unit dm" where
  "ev_cops port line =
     gthen (if strcasecmp line ''+COPS: 1'' = 0 then status_upd port (\<lambda>s. s\<lparr>st_provider := no_provider\<rparr>)
            else (case cops_provider line of
                Some prov \<Rightarrow> gbind (fits 128 prov) (\<lambda>prov. status_upd port (\<lambda>s. s\<lparr>st_provider := prov\<rparr>))
              | None \<Rightarrow> status_upd port (\<lambda>s. s\<lparr>st_provider := no_provider\<rparr>)))
           (send_all port [''AT+CSQ''])"

text \<open>
  \<open>sscanf(event, "+CLIP: \"%[+0-9]\",%d", ...)\<close>: the number and the type, as far as the
  line matches.
\<close>

definition clip_char :: "char \<Rightarrow> bool" where
  "clip_char c \<longleftrightarrow> c = CHR ''+'' \<or> isdigit c"

definition scan_clip :: "string \<Rightarrow> string option \<times> int option" where
  "scan_clip line =
     (if \<not> strncmp_prefix ''+CLIP:'' line then (None, None)
      else case dropWhile isspace (drop 6 line) of
          [] \<Rightarrow> (None, None)
        | c # s \<Rightarrow>
            if c \<noteq> QUOTE then (None, None)
            else let num = takeWhile clip_char s; rest = dropWhile clip_char s in
              if num = [] then (None, None)
              else (Some num,
                if strncmp_prefix [QUOTE, CHR '',''] rest
                then (case scan_int (drop 2 rest) of Scan_ok i _ \<Rightarrow> Some i | _ \<Rightarrow> None) else None))"

definition ev_clip :: "int \<Rightarrow> string \<Rightarrow> unit dm" where
  "ev_clip port line = (case scan_clip line of (num, typ) \<Rightarrow>
     gthen (case num of Some n \<Rightarrow> gbind (fits 64 n) (\<lambda>n. slcc_upd port (\<lambda>s. s\<lparr>slcc_callerid := n\<rparr>))
            | None \<Rightarrow> ret ())
           (case typ of Some t \<Rightarrow> slcc_upd port (\<lambda>s. s\<lparr>slcc_type := t\<rparr>) | None \<Rightarrow> ret ()))"

text \<open>
  A ring. The number of the caller that the channel gets: with \<open>skip_plus\<close> the first character of
  an international number is skipped, before a national one the configured prefix is put. The result is
  whether the function returns at once, and the structure of the new call.
\<close>

definition caller_number :: "gsm_par \<Rightarrow> int \<Rightarrow> string dm" where
  "caller_number par port = gbind (slcc_get port) (\<lambda>s.
     gbind (gsm_config_get_bool par SECT_GENERAL (cfg_gen_id CFG_GEN_SKIP_PLUS)) (\<lambda>skip.
     gbind (ret (if skip \<noteq> 0 \<and> slcc_callerid s \<noteq> [] \<and> slcc_type s = 145 then tl (slcc_callerid s)
                 else slcc_callerid s)) (\<lambda>cid.
       if slcc_type s = 129 then
         gbind (cfg_read 16 SECT_PORT (cfg_port_id CFG_PORT_CID_PREFIX) (Id_int port)) (\<lambda>(_, prefix).
           if prefix \<noteq> [] then fits 64 (prefix @ slcc_callerid s) else ret cid)
       else ret cid)))"

datatype ring_outcome = Ring_return | Ring_break | Ring_call nat

text \<open>From the second ring on: the call is configured, the channel created and the dialplan started.\<close>

definition ring_call :: "gsm_par \<Rightarrow> int \<Rightarrow> nat \<Rightarrow> ring_outcome dm" where
  "ring_call par port a = gthen (configure_gsm par a) (gbind (caller_number par port) (\<lambda>cid.
     gbind (pvt_get a) (\<lambda>g. gbind (gsm_new par a (Some (pv_exten g)) (Some cid)) (\<lambda>chan.
       gthen (effect (Pbx_start chan)) (ret (Ring_call a))))))"

definition ring_alloc :: "gsm_par \<Rightarrow> int \<Rightarrow> ring_outcome dm" where
  "ring_alloc par port = gbind (pvt_alloc (gsm_pvt_zero\<lparr>pv_port := port\<rparr>)) (\<lambda>gsm.
     case gsm of None \<Rightarrow> ret Ring_return | Some a \<Rightarrow> ring_call par port a)"

definition ring_fetch :: "gsm_par \<Rightarrow> int \<Rightarrow> ring_outcome dm" where
  "ring_fetch par port = gbind (on_lib (gsm_port_fetch port)) (\<lambda>r.
     if r = 0 then gthen (on_lib (gsm_send port ''ATH'')) (ret Ring_break) else ring_alloc par port)"

definition ev_ring :: "gsm_par \<Rightarrow> int \<Rightarrow> ring_outcome dm" where
  "ev_ring par port = gthen (slcc_upd port (\<lambda>s. s\<lparr>slcc_ringing := 1\<rparr>))
     (gbind (slcc_get port) (\<lambda>s.
       if slcc_ringcount s = 0 then
         gthen (slcc_upd port (\<lambda>s. s\<lparr>slcc_ringcount := slcc_ringcount s + 1\<rparr>)) (ret Ring_return)
       else gthen (slcc_upd port (\<lambda>s. s\<lparr>slcc_ringcount := 0\<rparr>)) (ring_fetch par port)))"

text \<open>Reports passed on to the manager interface.\<close>

definition find_after :: "string \<Rightarrow> string \<Rightarrow> string option" where
  "find_after pat s = (case find (\<lambda>i. strncmp_prefix pat (drop i s)) [0..<Suc (length s)] of
       Some i \<Rightarrow> Some (drop (i + length pat) s) | None \<Rightarrow> None)"

definition ev_cusd :: "int \<Rightarrow> string \<Rightarrow> unit dm" where
  "ev_cusd port line = (case find_after ''+CUSD: '' line of None \<Rightarrow> ret ()
     | Some p \<Rightarrow> effect (Manager_event ''GSM_USSD''
         (''Port: '' @ itoa port @ [CR, LF] @ ''Message: '' @ p @ [CR, LF])))"

definition ev_incoming_sms :: "int \<Rightarrow> string \<Rightarrow> unit dm" where
  "ev_incoming_sms port line =
     (if strstr line ''+CMTI:'' then (case after CHR '','' line of None \<Rightarrow> ret ()
        | Some p \<Rightarrow> gbind (on_lib (cfg_get port)) (\<lambda>g.
            effect (Manager_event (if sms_pdu_mode g \<noteq> 0 then ''IncomingSMS_PDU'' else ''IncomingSMS'')
              (''Port: '' @ itoa port @ [CR, LF] @ ''Index: '' @ itoa (strtol p) @ [CR, LF]))))
      else ret ())"

text \<open>Errors. The code is the number after the colon.\<close>

definition error_code :: "string \<Rightarrow> int" where
  "error_code line = (case after CHR '':'' line of Some p \<Rightarrow> strtol p | None \<Rightarrow> - 1)"

definition ev_cme_error :: "int \<Rightarrow> string \<Rightarrow> unit dm" where
  "ev_cme_error port line =
     gthen (gsm_handle_cme_error port (error_code line)) (on_lib (gsm_post_next_msg port))"

definition back_to_pdu_mode :: "int \<Rightarrow> unit dm" where
  "back_to_pdu_mode port = gbind (on_lib (cfg_get port)) (\<lambda>g.
     if sms_pdu_mode g \<noteq> 0 then gthen (on_lib (gsm_send port ''AT+CMGF=0'')) (ret ()) else ret ())"

definition requeue_sms :: "int \<Rightarrow> unit dm" where
  "requeue_sms port = gbind (sms_get port) (\<lambda>x.
     if sms_state x = GSM_SMS_STATE_SMS_SENT \<and> msg_number (outbound_msg x) \<noteq> [] \<and> msg_text (outbound_msg x) \<noteq> []
     then gthen (gsm_queue_sms port (msg_number (outbound_msg x)) (msg_text (outbound_msg x))) (ret ())
     else ret ())"

definition ev_cms_error :: "int \<Rightarrow> string \<Rightarrow> unit dm" where
  "ev_cms_error port line =
     gthen (gsm_handle_cms_error port (error_code line))
     (gthen (back_to_pdu_mode port)
     (gthen (requeue_sms port)
     (gthen (set_sms_state port GSM_SMS_STATE_NONE) (on_lib (gsm_post_next_msg port)))))"

text \<open>The switch of the events without a call; the result as for a ring.\<close>

definition plain :: "unit dm \<Rightarrow> ring_outcome dm" where
  "plain m = gthen m (ret Ring_break)"

definition cb_precall :: "gsm_par \<Rightarrow> int \<Rightarrow> gsm_events \<Rightarrow> string \<Rightarrow> ring_outcome dm" where
  "cb_precall par port ev line = (case ev of
       GSM_EVENT_NO_CARRIER \<Rightarrow> plain (slcc_upd port (\<lambda>s. s\<lparr>slcc_ringing := 0, slcc_ringcount := 0\<rparr>))
     | GSM_EVENT_CREG_SERVICE_0 \<Rightarrow> plain (creg_not_registered port)
     | GSM_EVENT_CREG_SERVICE_1 \<Rightarrow> plain (creg_home port)
     | GSM_EVENT_CREG_SERVICE_2 \<Rightarrow> plain (creg_searching port)
     | GSM_EVENT_CREG_SERVICE_3 \<Rightarrow> plain (creg_denied port)
     | GSM_EVENT_CREG_SERVICE_5 \<Rightarrow> plain (creg_roaming port)
     | GSM_EVENT_CSQ \<Rightarrow> plain (case after CHR '':'' line of
           Some p \<Rightarrow> status_upd port (\<lambda>s. s\<lparr>st_rssi := strtol p\<rparr>) | None \<Rightarrow> ret ())
     | GSM_EVENT_INIT \<Rightarrow> plain (ev_init port line)
     | GSM_EVENT_COPS \<Rightarrow> plain (ev_cops port line)
     | GSM_EVENT_CLIP \<Rightarrow> plain (ev_clip port line)
     | GSM_EVENT_RING \<Rightarrow> ev_ring par port
     | GSM_EVENT_CUSD \<Rightarrow> plain (ev_cusd port line)
     | GSM_EVENT_SMS_INCOMING_MESSAGE \<Rightarrow> plain (ev_incoming_sms port line)
     | GSM_EVENT_ERROR \<Rightarrow> plain (on_lib (gsm_post_next_msg port))
     | GSM_EVENT_CME_ERROR \<Rightarrow> plain (ev_cme_error port line)
     | GSM_EVENT_CMS_ERROR \<Rightarrow> plain (ev_cms_error port line)
     | GSM_EVENT_OK \<Rightarrow> plain (on_lib (gsm_post_next_msg port))
     | GSM_EVENT_SIM_INSERTED \<Rightarrow> plain (send_all port [''AT+CIMI''])
     | GSM_EVENT_SIM_REMOVED \<Rightarrow> plain (send_all port [''AT+CFUN=0'', ''AT+CFUN=1''])
     | _ \<Rightarrow> ret Ring_break)"


section \<open>During a call\<close>

text \<open>\<open>ast\<close> is the channel, NULL when the call was created by this very line; \<open>a\<close> the call.\<close>

definition set_call_state :: "nat \<Rightarrow> gsm_state \<Rightarrow> unit dm" where
  "set_call_state a s = pvt_upd a (\<lambda>g. g\<lparr>pv_state := s\<rparr>)"

definition in_busy :: "int \<Rightarrow> nat option \<Rightarrow> nat \<Rightarrow> unit dm" where
  "in_busy port ast a = gbind (pvt_get a) (\<lambda>g.
     gthen (case ast of Some c \<Rightarrow> if pv_state g \<noteq> GSM_STATE_HANGUPED then hang_up_call c a 17 else ret ()
            | None \<Rightarrow> ret ())
     (gthen (slcc_upd (pv_port g) (\<lambda>s. s\<lparr>slcc_ringing := 0\<rparr>)) (on_lib (gsm_post_next_msg port))))"

definition in_connected :: "nat option \<Rightarrow> nat \<Rightarrow> unit dm" where
  "in_connected ast a = gbind (pvt_get a) (\<lambda>g. if pv_state g = GSM_STATE_ANSWERED then ret ()
     else gthen (effect (Queue_control ast AST_CONTROL_ANSWER))
         (gthen (on_lib (gsm_audio_start (pv_port g))) (set_call_state a GSM_STATE_ANSWERED)))"

definition in_dialing :: "nat option \<Rightarrow> nat \<Rightarrow> unit dm" where
  "in_dialing ast a = gbind (pvt_get a) (\<lambda>g. if pv_state g \<noteq> GSM_STATE_ATD_OUT then ret ()
     else gthen (effect (Queue_control ast AST_CONTROL_PROCEEDING)) (set_call_state a GSM_STATE_PROCEEDING))"

definition in_alerting :: "nat option \<Rightarrow> nat \<Rightarrow> unit dm" where
  "in_alerting ast a = gbind (pvt_get a) (\<lambda>g. gthen (on_lib (gsm_audio_start (pv_port g)))
     (if pv_state g = GSM_STATE_PROCEEDING
      then gthen (effect (Queue_control ast AST_CONTROL_RINGING)) (set_call_state a GSM_STATE_ALERTING)
      else ret ()))"

definition in_cms_error :: "int \<Rightarrow> string \<Rightarrow> unit dm" where
  "in_cms_error port line =
     gthen (gsm_handle_cms_error port (error_code line))
     (gthen (back_to_pdu_mode port)
     (gthen (set_sms_state port GSM_SMS_STATE_NONE) (on_lib (gsm_post_next_msg port))))"

definition cb_incall :: "int \<Rightarrow> nat option \<Rightarrow> nat \<Rightarrow> gsm_events \<Rightarrow> string \<Rightarrow> unit dm" where
  "cb_incall port ast a ev line = (case ev of
       GSM_EVENT_NO_CARRIER \<Rightarrow> in_busy port ast a
     | GSM_EVENT_BUSY \<Rightarrow> in_busy port ast a
     | GSM_EVENT_OK \<Rightarrow> on_lib (gsm_post_next_msg port)
     | GSM_EVENT_CLCC_CALL_0 \<Rightarrow> in_connected ast a
     | GSM_EVENT_CLCC_CALL_2 \<Rightarrow> in_dialing ast a
     | GSM_EVENT_CLCC_CALL_3 \<Rightarrow> in_alerting ast a
     | GSM_EVENT_CME_ERROR \<Rightarrow> ev_cme_error port line
     | GSM_EVENT_CMS_ERROR \<Rightarrow> in_cms_error port line
     | GSM_EVENT_ERROR \<Rightarrow> on_lib (gsm_post_next_msg port)
     | _ \<Rightarrow> ret ())"


section \<open>A line of the module\<close>

definition ev_modem_check :: "gsm_par \<Rightarrow> int \<Rightarrow> nat option \<Rightarrow> nat option \<Rightarrow> unit dm" where
  "ev_modem_check par port ast gsm =
     gthen (case (ast, gsm) of
         (Some c, Some a) \<Rightarrow> gbind (pvt_get a) (\<lambda>g.
           if pv_state g = GSM_STATE_ATD_OUT then hang_up_call c a 22 else ret ())
       | _ \<Rightarrow> ret ())
     (gsm_restart_port par port)"

definition cb_events :: "gsm_par \<Rightarrow> int \<Rightarrow> string \<Rightarrow> unit dm" where
  "cb_events par port line = gbind (on_lib (gsm_get_priv port)) (\<lambda>ast. gbind (chan_pvt ast) (\<lambda>gsm.
     let ev = parse_events line in
     if line = [] then ret ()
     else gthen (if ev = GSM_EVENT_NONE then on_lib (gsm_handle_unknown_event port line) else ret ())
       (if ev = GSM_EVENT_MODEM_CHECK_ERROR then ev_modem_check par port ast gsm
        else gbind (sms_get port) (\<lambda>x.
          gthen (if sms_state x \<noteq> GSM_SMS_STATE_NONE then cb_sms port ev line else ret ())
          (case gsm of
             Some a \<Rightarrow> cb_incall port ast a ev line
           | None \<Rightarrow> gbind (cb_precall par port ev line) (\<lambda>r. case r of
               Ring_call a \<Rightarrow> cb_incall port ast a ev line
             | _ \<Rightarrow> ret ()))))))"

text \<open>A sequence of lines.\<close>

primrec cb_lines :: "gsm_par \<Rightarrow> int \<Rightarrow> string list \<Rightarrow> unit dm" where
  "cb_lines par port [] = ret ()"
| "cb_lines par port (l # ls) = gthen (cb_events par port l) (cb_lines par port ls)"

end
