(* ===== verification/Gsm_Driver_Proofs.thy ===== *)
theory Gsm_Driver_Proofs
  imports Gsm_Events
begin

text \<open>
  Rules for the statements of the GSM channel driver, and what it relies on from the GSM control library:
  each call it makes on a started port returns and leaves the port started, and apart from the ones made for
  that purpose none changes the configuration, the reservation of the port or its channel.
\<close>


section \<open>Weakest preconditions\<close>

lemma wp_on_lib [wp]: "wp (on_lib m) Q d = wp m (\<lambda>x w. Q x (d\<lparr>lib := w\<rparr>)) (lib d)"
  by (cases "m (lib d)") (auto simp: wp_def on_lib_def)

lemma wp_answer [wp]: "wp answer Q d = Q (answers d (asked d)) (d\<lparr>asked := asked d + 1\<rparr>)"
  by (simp add: wp_def answer_def)

lemma wp_effect [wp]: "wp (effect e) Q d = Q () (d\<lparr>ast_trace := ast_trace d @ [e]\<rparr>)"
  by (simp add: effect_def wp)

lemma wp_status_get [wp]:
  "wp (status_get i) Q d \<longleftrightarrow> in_range i (gsm_status d) \<and> Q (gsm_status d ! nat i) d"
  by (auto simp: wp_def status_get_def arr_get_def)

lemma wp_status_upd [wp]:
  "wp (status_upd i f) Q d \<longleftrightarrow> in_range i (gsm_status d) \<and>
     Q () (d\<lparr>gsm_status := (gsm_status d)[nat i := f (gsm_status d ! nat i)]\<rparr>)"
  by (auto simp: status_upd_def wp) (auto simp: wp_def arr_set_def)

lemma wp_sms_get [wp]:
  "wp (sms_get i) Q d \<longleftrightarrow> in_range i (gsm_sms d) \<and> Q (gsm_sms d ! nat i) d"
  by (auto simp: wp_def sms_get_def arr_get_def)

lemma wp_sms_upd [wp]:
  "wp (sms_upd i f) Q d \<longleftrightarrow> in_range i (gsm_sms d) \<and>
     Q () (d\<lparr>gsm_sms := (gsm_sms d)[nat i := f (gsm_sms d ! nat i)]\<rparr>)"
  by (auto simp: sms_upd_def wp) (auto simp: wp_def arr_set_def)

lemma wp_slcc_get [wp]:
  "wp (slcc_get i) Q d \<longleftrightarrow> in_range i (gsm_slcc d) \<and> Q (gsm_slcc d ! nat i) d"
  by (auto simp: wp_def slcc_get_def arr_get_def)

lemma wp_slcc_upd [wp]:
  "wp (slcc_upd i f) Q d \<longleftrightarrow> in_range i (gsm_slcc d) \<and>
     Q () (d\<lparr>gsm_slcc := (gsm_slcc d)[nat i := f (gsm_slcc d ! nat i)]\<rparr>)"
  by (auto simp: slcc_upd_def wp) (auto simp: wp_def arr_set_def)

lemma wp_pvt_get [wp]: "wp (pvt_get a) Q d \<longleftrightarrow> (\<exists>g. pvts d a = Some g \<and> Q g d)"
  by (cases "pvts d a") (auto simp: pvt_get_def wp)

lemma wp_pvt_upd [wp]:
  "wp (pvt_upd a f) Q d \<longleftrightarrow> (\<exists>g. pvts d a = Some g \<and> Q () (d\<lparr>pvts := (pvts d)(a \<mapsto> f g)\<rparr>))"
  by (auto simp: pvt_upd_def wp)

lemma wp_pvt_free [wp]:
  "wp (pvt_free a) Q d \<longleftrightarrow> pvts d a \<noteq> None \<and> Q () (d\<lparr>pvts := (pvts d)(a := None)\<rparr>)"
  by (auto simp: pvt_free_def wp)

lemma wp_pvt_alloc [wp]:
  "wp (pvt_alloc x) Q d \<longleftrightarrow> (let d = d\<lparr>asked := asked d + 1\<rparr> in
     if answers d (asked d - 1) < 0 then Q None d
     else Q (Some (heap_next d)) (d\<lparr>pvts := (pvts d)(heap_next d \<mapsto> x), heap_next := Suc (heap_next d)\<rparr>))"
  by (auto simp: pvt_alloc_def wp)

lemma wp_channel_get [wp]: "wp (chan_get a) Q d \<longleftrightarrow> (\<exists>g. chans d a = Some g \<and> Q g d)"
  by (cases "chans d a") (auto simp: chan_get_def wp)

lemma wp_channel_upd [wp]:
  "wp (chan_upd a f) Q d \<longleftrightarrow> (\<exists>g. chans d a = Some g \<and> Q () (d\<lparr>chans := (chans d)(a \<mapsto> f g)\<rparr>))"
  by (auto simp: chan_upd_def wp)

lemma wp_chan_alloc [wp]:
  "wp (chan_alloc x) Q d \<longleftrightarrow> (let d = d\<lparr>asked := asked d + 1\<rparr> in
     if answers d (asked d - 1) < 0 then Q None d
     else Q (Some (heap_next d)) (d\<lparr>chans := (chans d)(heap_next d \<mapsto> x), heap_next := Suc (heap_next d)\<rparr>))"
  by (auto simp: chan_alloc_def wp)

lemma wp_ptr [wp]: "wp (ptr p f) Q d \<longleftrightarrow> (\<exists>a. p = Some a \<and> wp (f a) Q d)"
  by (cases p) (auto simp: ptr_def wp)

lemma wp_fits [wp]: "wp (fits n s) Q d \<longleftrightarrow> length s < n \<and> Q s d"
  by (simp add: fits_def wp)


section \<open>What the library keeps\<close>

text \<open>What the driver sees of the library, apart from what a call returns.\<close>

definition view :: "int \<Rightarrow> gsm_world \<Rightarrow>
    (string \<Rightarrow> string option) \<times> gsm_config list \<times> string \<times> int \<times> nat option \<times> int" where
  "view p w = (files w, gsm_cfg w, junk w, junk_int w, cp_priv (ctlport w ! nat p), in_use (ctlport w ! nat p))"

definition keeps :: "int \<Rightarrow> 'a gm \<Rightarrow> bool" where
  "keeps p m \<longleftrightarrow> (\<forall>w x w'. m w = Ret (x, w') \<longrightarrow> view p w' = view p w)"

named_theorems keeps

lemma keeps_iff: "keeps p m \<longleftrightarrow> (\<forall>w Q. wp m Q w \<longrightarrow> wp m (\<lambda>x w'. Q x w' \<and> view p w' = view p w) w)"
proof
  assume "keeps p m"
  then show "\<forall>w Q. wp m Q w \<longrightarrow> wp m (\<lambda>x w'. Q x w' \<and> view p w' = view p w) w"
    by (auto simp: keeps_def wp_def)
next
  assume h: "\<forall>w Q. wp m Q w \<longrightarrow> wp m (\<lambda>x w'. Q x w' \<and> view p w' = view p w) w"
  show "keeps p m"
    unfolding keeps_def
  proof (intro allI impI)
    fix w x w' assume m: "m w = Ret (x, w')"
    then have "wp m (\<lambda>_ _. True) w" by (simp add: wp_def)
    with h have "wp m (\<lambda>x v. True \<and> view p v = view p w) w" by blast
    with m show "view p w' = view p w" by (auto simp: wp_def)
  qed
qed

lemma keeps_ret [keeps]: "keeps p (ret x)"
  by (simp add: keeps_def ret_def)

lemma keeps_gets [keeps]: "keeps p (gets f)"
  by (simp add: keeps_def gets_def)

lemma keeps_fault [keeps]: "keeps p fault"
  by (simp add: keeps_def fault_def)

lemma keeps_bind [keeps]: "keeps p m \<Longrightarrow> (\<And>x. keeps p (f x)) \<Longrightarrow> keeps p (gbind m f)"
  by (fastforce simp: keeps_def gbind_def run_bind_Ret_iff)

lemma keeps_gthen [keeps]: "keeps p m \<Longrightarrow> keeps p n \<Longrightarrow> keeps p (gthen m n)"
  by (simp add: gthen_def keeps_bind)

lemma keeps_if [keeps]: "keeps p m \<Longrightarrow> keeps p n \<Longrightarrow> keeps p (if b then m else n)"
  by simp

lemma keeps_option [keeps]: "keeps p m \<Longrightarrow> (\<And>x. keeps p (f x)) \<Longrightarrow> keeps p (case z of None \<Rightarrow> m | Some x \<Rightarrow> f x)"
  by (cases z) auto

lemma keeps_modify [keeps]: "(\<And>w. view p (f w) = view p w) \<Longrightarrow> keeps p (modify f)"
  by (simp add: keeps_def modify_def)

lemma keeps_ctl_get [keeps]: "keeps p (ctl_get i)"
  by (auto simp: keeps_def ctl_get_def run_map_Ret_iff)

lemma keeps_ctl_upd [keeps]:
  "(\<And>c. cp_priv (f c) = cp_priv c \<and> in_use (f c) = in_use c) \<Longrightarrow> keeps p (ctl_upd i f)"
  by (auto simp: keeps_def ctl_upd_def ctl_get_def gbind_def run_map_Ret_iff run_bind_Ret_iff arr_get_def
      arr_set_def view_def nth_list_update split: if_splits)

lemma keeps_timer [keeps]: "keeps p (timer_get i)" "keeps p (timer_put i t)"
  by (auto simp: keeps_def timer_get_def timer_put_def run_map_Ret_iff view_def)

lemma keeps_sem [keeps]: "keeps p (sem_get s i)" "keeps p (sem_put s i v)"
  by (auto simp: keeps_def sem_get_def sem_put_def run_map_Ret_iff view_def)

lemma keeps_ask [keeps]: "keeps p ask"
  by (simp add: keeps_def ask_def view_def)

lemma keeps_emit [keeps]: "keeps p (emit e)"
  unfolding emit_def by (rule keeps) (simp add: view_def)

lemma keeps_into_buffer [keeps]: "keeps p (into_buffer n s)"
  unfolding into_buffer_def by (intro keeps)

lemma keeps_deref [keeps]: "(\<And>i. keeps p (f i)) \<Longrightarrow> keeps p (deref ctl f)"
  unfolding deref_def by (intro keeps)

lemma keeps_getctlport [keeps]: "keeps p (getctlport q)"
  unfolding getctlport_def by (intro keeps)

lemma keeps_is_valid [keeps]: "keeps p (gsm_port_is_valid q)"
  unfolding gsm_port_is_valid_def by (intro keeps)

lemma keeps_fputs [keeps]: "keeps p (fputs s fp)"
  unfolding fputs_def by (intro keeps)

lemma keeps_ioctl [keeps]: "keeps p (ioctl fd cmd arg)"
  unfolding ioctl_def by (intro keeps)

lemma keeps_msgsnd [keeps]: "keeps p (msgsnd q m)"
  unfolding msgsnd_def by (intro keeps) (simp add: view_def)

lemma keeps_sem_post [keeps]: "keeps p (sem_post s i)"
  unfolding sem_post_def by (intro keeps)

lemma keeps_timer_settime [keeps]: "keeps p (timer_settime i secs)"
  unfolding timer_settime_def by (intro keeps) (auto split: timer_id.split intro: keeps)

lemma keeps_wait4mod [keeps]: "keeps p (wait4mod_w i)"
  unfolding wait4mod_w_def wait4mod_def by (intro keeps) (auto split: option.split intro!: keeps)

lemma keeps_close [keeps]: "keeps p (gsm_close_port q)"
  unfolding gsm_close_port_def by (intro keeps) auto

lemma keeps_gsm_send_raw [keeps]: "keeps p (gsm_send_raw q s)"
  unfolding gsm_send_raw_def by (intro keeps)

lemma keeps_gsm_send [keeps]: "keeps p (gsm_send q s)"
  unfolding gsm_send_def gsm_send_enqueue_def by (intro keeps) simp_all

lemma keeps_gsm_post_next_msg [keeps]: "keeps p (gsm_post_next_msg q)"
  unfolding gsm_post_next_msg_def gsm_post_check_def gsm_post_grant_def gsm_stop_check_timer_def
  by (intro keeps)

lemma keeps_gsm_sms_enter [keeps]: "keeps p (gsm_sms_enter q)"
  unfolding gsm_sms_enter_def by (intro keeps) simp_all

lemma keeps_gsm_set_led [keeps]: "keeps p (gsm_set_led q l)"
  unfolding gsm_set_led_def by (intro keeps)

lemma keeps_gsm_audio [keeps]:
  "keeps p (gsm_audio_start q)" "keeps p (gsm_audio_stop q)" "keeps p (gsm_audio_open q)" "keeps p (gsm_audio_close q)"
  unfolding gsm_audio_start_def gsm_audio_stop_def gsm_audio_open_def gsm_audio_close_def
  by (intro keeps; simp)+

lemma keeps_gsm_handle_unknown_event [keeps]: "keeps p (gsm_handle_unknown_event q ev)"
  unfolding gsm_handle_unknown_event_def by (intro keeps) simp_all

lemma keeps_send_list [keeps]: "keeps p (send_list q cmds)"
  by (induction cmds) (auto intro: keeps)

lemma keeps_gsm_get_priv [keeps]: "keeps p (gsm_get_priv q)"
  unfolding gsm_get_priv_def by (intro keeps)


text \<open>The table of modules the kernel driver reports fits the buffers it is read to.\<close>

definition taco_short :: "gsm_world \<Rightarrow> bool" where
  "taco_short w \<longleftrightarrow> (\<forall>content. files w ''/proc/driver/taco'' = Some content \<longrightarrow> length content < GSM_MAX_STR)"

definition lib_ok :: "int \<Rightarrow> gsm_world \<Rightarrow> bool" where
  "lib_ok p w \<longleftrightarrow> port_open p w \<and> taco_short w"

text \<open>\<open>quiet p m\<close>: on a started port \<open>m\<close> returns and keeps what the driver sees.\<close>

definition quiet :: "int \<Rightarrow> 'a gm \<Rightarrow> bool" where
  "quiet p m \<longleftrightarrow> (\<forall>w. lib_ok p w \<longrightarrow> wp m (\<lambda>_ w'. lib_ok p w' \<and> view p w' = view p w) w)"

named_theorems quiet

lemma taco_short_view: "view p w = view p w' \<Longrightarrow> taco_short w = taco_short w'"
  by (simp add: view_def taco_short_def)

lemma quietI: "any_entry.safe p m \<Longrightarrow> keeps p m \<Longrightarrow> quiet p m"
  unfolding quiet_def lib_ok_def any_entry_safe keeps_iff
proof (intro allI impI)
  fix w
  assume s: "\<forall>w. port_open p w \<longrightarrow> wp m (\<lambda>_. port_open p) w"
    and k: "\<forall>w Q. wp m Q w \<longrightarrow> wp m (\<lambda>x w'. Q x w' \<and> view p w' = view p w) w"
    and w: "port_open p w \<and> taco_short w"
  have "wp m (\<lambda>x w'. port_open p w' \<and> view p w' = view p w) w" using s k w by blast
  then show "wp m (\<lambda>_ w'. (port_open p w' \<and> taco_short w') \<and> view p w' = view p w) w"
    by (rule wp_mono) (use w taco_short_view in blast)
qed

lemma quiet_wp:
  assumes "quiet p m" "lib_ok p (lib d)"
    and "\<And>x w'. m (lib d) = Ret (x, w') \<Longrightarrow> lib_ok p w' \<Longrightarrow> view p w' = view p (lib d) \<Longrightarrow> Q x (d\<lparr>lib := w'\<rparr>)"
  shows "wp (on_lib m) Q d"
  using assms unfolding quiet_def wp_on_lib by (auto simp: wp_def)

lemma quiet_gsm_send [quiet]: "length s \<le> 255 \<Longrightarrow> quiet p (gsm_send p s)"
  by (rule quietI) (auto intro: any_entry.safe_gsm_send keeps)

lemma quiet_send_list [quiet]: "\<forall>s \<in> set cmds. length s \<le> 255 \<Longrightarrow> quiet p (send_list p cmds)"
  by (rule quietI) (auto intro: any_entry.safe_send_list keeps)

lemma quiet_calls [quiet]:
  "quiet p (gsm_post_next_msg p)" "quiet p (gsm_sms_enter p)" "quiet p (gsm_send_raw p s)"
  "quiet p (gsm_set_led p l)" "quiet p (gsm_audio_start p)" "quiet p (gsm_audio_stop p)"
  "quiet p (gsm_audio_open p)" "quiet p (gsm_audio_close p)" "quiet p (gsm_handle_unknown_event p ev)"
  by (rule quietI, rule safe, rule keeps)+

lemma scan_word_length: "scan_word s = Some (a, r) \<Longrightarrow> length a \<le> length s \<and> length r \<le> length s"
  using length_takeWhile_le [of "\<lambda>c. \<not> isspace c" "dropWhile isspace s"] length_dropWhile_le [of isspace s]
    length_dropWhile_le [of "\<lambda>c. \<not> isspace c" "dropWhile isspace s"]
  by (auto simp: scan_word_def Let_def split: if_splits)

lemma scan_taco_length:
  assumes "scan_taco s = (Some a, r)"
  shows "length a \<le> length s \<and> (\<forall>b. r = Some b \<longrightarrow> length b \<le> length s)"
proof -
  obtain x s1 y s2 where w: "scan_word s = Some (x, s1)" "scan_word s1 = Some (y, s2)"
    using assms by (auto simp: scan_taco_def split: option.splits prod.splits)
  let ?s = "dropWhile isspace s2"
  have le: "length s2 \<le> length s" using scan_word_length [OF w(1)] scan_word_length [OF w(2)] by simp
  have a: "a = takeWhile (\<lambda>c. c \<noteq> CHR ''/'') ?s"
    and r: "r = (if dropWhile (\<lambda>c. c \<noteq> CHR ''/'') ?s = [] then None
      else map_option fst (scan_word (tl (dropWhile (\<lambda>c. c \<noteq> CHR ''/'') ?s))))"
    using assms w by (auto simp: scan_taco_def Let_def split: if_splits)
  have 1: "length ?s \<le> length s" using length_dropWhile_le [of isspace s2] le by simp
  have 2: "length (tl (dropWhile (\<lambda>c. c \<noteq> CHR ''/'') ?s)) \<le> length s"
    using length_dropWhile_le [of "\<lambda>c. c \<noteq> CHR ''/''" ?s] 1 by simp
  show ?thesis
    using a r 1 2 length_takeWhile_le [of "\<lambda>c. c \<noteq> CHR ''/''" ?s] scan_word_length
    by (fastforce split: if_splits)
qed

lemma mask_returns: "taco_short w \<Longrightarrow> \<exists>r. gsm_get_channel_mask w = Ret (r, w)"
proof -
  assume t: "taco_short w"
  have "wp gsm_get_channel_mask (\<lambda>_ w'. w' = w) w"
    using t scan_taco_length
    by (fastforce simp: gsm_get_channel_mask_def wp taco_short_def split: option.split prod.split)
  then show ?thesis by (auto simp: wp_def)
qed

lemma view_channel_mask [simp]: "view p (w\<lparr>channel_mask := m\<rparr>) = view p w"
  by (simp add: view_def)

lemma quiet_offset [quiet]: "quiet p gsm_get_channel_offset"
  unfolding quiet_def
proof (intro allI impI)
  fix w assume w: "lib_ok p w"
  obtain r where r: "gsm_get_channel_mask w = Ret (r, w)" using w mask_returns by (auto simp: lib_ok_def)
  then have "wp gsm_get_channel_mask Q w = Q r w" for Q by (simp add: wp_def)
  with w show "wp gsm_get_channel_offset (\<lambda>_ w'. lib_ok p w' \<and> view p w' = view p w) w"
    by (auto simp: gsm_get_channel_offset_def wp lib_ok_def taco_short_def)
qed

lemma quiet_bind: "quiet p m \<Longrightarrow> (\<And>x. quiet p (f x)) \<Longrightarrow> quiet p (gbind m f)"
  unfolding quiet_def wp_gbind
proof (intro allI impI)
  fix w
  assume m: "\<forall>w. lib_ok p w \<longrightarrow> wp m (\<lambda>_ w'. lib_ok p w' \<and> view p w' = view p w) w"
    and f: "\<And>x. \<forall>w. lib_ok p w \<longrightarrow> wp (f x) (\<lambda>_ w'. lib_ok p w' \<and> view p w' = view p w) w"
    and w: "lib_ok p w"
  show "wp m (\<lambda>x. wp (f x) (\<lambda>_ w'. lib_ok p w' \<and> view p w' = view p w)) w"
    by (rule wp_mono [OF m [rule_format, OF w]]) (use f in \<open>fastforce elim: wp_mono\<close>)
qed

lemma quiet_ret [quiet]: "quiet p (ret x)"
  by (simp add: quiet_def wp)

lemma quiet_translate [quiet]: "quiet p (gsm_translate_channel c)"
  unfolding gsm_translate_channel_def by (rule quiet_bind [OF quiet_offset]) (auto intro: quiet)

end
