(* ===== verification/Gsm_Port_Inv.thy ===== *)
theory Gsm_Port_Inv
  imports Gsm_Driver_Proofs
begin

text \<open>
  The invariant of a port of the GSM channel driver, and the contract its operations are proved
  against: a locale for the properties of a port that only the start and the end of a call change.
\<close>


section \<open>Lengths of texts\<close>

lemma digits_length: "n < 10 ^ k \<Longrightarrow> 0 < k \<Longrightarrow> length (digits n) \<le> k"
proof (induction k arbitrary: n)
  case (Suc k)
  show ?case
  proof (cases "n < 10")
    case True
    then show ?thesis by (simp add: digits.simps [of n])
  next
    case False
    then have "0 < k" using Suc.prems(1) by (cases k) auto
    moreover have "n div 10 < 10 ^ k" using Suc.prems(1) by (simp add: div_less_iff_less_mult mult.commute)
    ultimately show ?thesis using Suc.IH [of "n div 10"] False by (simp add: digits.simps [of n])
  qed
qed simp

lemma itoa_length: "0 \<le> i \<Longrightarrow> i < 10 ^ k \<Longrightarrow> 0 < k \<Longrightarrow> length (itoa i) \<le> k"
  using digits_length [of "nat i" k] by (simp add: itoa_def nat_less_iff)

abbreviation int32 :: "int \<Rightarrow> bool" where
  "int32 i \<equiv> - (2 ^ 31) \<le> i \<and> i < 2 ^ 31"

lemma itoa_int32: "int32 i \<Longrightarrow> length (itoa i) \<le> 11"
  using digits_length [of "nat (- i)" 10] digits_length [of "nat i" 10]
  by (cases "i < 0") (simp_all add: itoa_def nat_less_iff)

lemma strtol_int32: "int32 (strtol s)"
  by (auto simp: strtol_def split: option.split)

lemma strsep_length:
  "strsep ds (Some s) = (Some t, q) \<Longrightarrow> length t \<le> length s \<and> (\<forall>u. q = Some u \<longrightarrow> length u \<le> length s)"
  using length_takeWhile_le [of "\<lambda>c. c \<notin> set ds" s] length_dropWhile_le [of "\<lambda>c. c \<notin> set ds" s]
  by (auto simp: strsep_def split: list.splits)

lemma strsep_Some: "strsep ds (Some s) = (Some (takeWhile (\<lambda>c. c \<notin> set ds) s), snd (strsep ds (Some s)))"
  by (simp add: strsep_def)


section \<open>Reading the configuration\<close>

text \<open>
  The configuration is loaded, with the driver's sections, and has a row for the port.
\<close>

definition configured :: "int \<Rightarrow> cm option \<Rightarrow> bool" where
  "configured p c \<longleftrightarrow> (\<exists>cm. c = Some cm \<and> loaded_wf cm \<and> cm_secs cm = config_sections \<and>
     (\<exists>row. key_row (cm_secs cm ! 1) (cm_hashes cm ! 1) (Id_int p) = Ret (Some row)))"

lemma config_sections_facts:
  "length config_sections = 2" "num_directives (config_sections ! 0) = 8"
  "num_directives (config_sections ! 1) = 16" "s_key_type (config_sections ! 0) = KTYPE_NONE"
  "s_key_type (config_sections ! 1) = KTYPE_INTEGER"
  by (simp_all add: config_sections_def num_directives_def gen_dirs_def port_dirs_def)

lemma copy_out_text: "0 < n \<Longrightarrow> \<exists>re v. copy_out x n = (re, Some v) \<and> length v < n"
  by (auto simp: copy_out_def split: option.split)

lemma config_same: "config d = c \<Longrightarrow> d\<lparr>config := c\<rparr> = d"
  by (cases d) simp

lemma wp_cfg_read_general:
  assumes "configured p (config d)" "e < 8" "0 < n" "\<And>re v. length v < n \<Longrightarrow> Q (re, v) d"
  shows "wp (cfg_read n SECT_GENERAL e Id_none) Q d"
proof -
  obtain cm where cm: "config d = Some cm" "loaded_wf cm" "cm_secs cm = config_sections"
    using assms(1) by (auto simp: configured_def)
  obtain re v where v: "copy_out (effective (cm_vals cm ! 0) 0 e) n = (re, Some v)" "length v < n"
    using copy_out_text [OF assms(3)] by blast
  have "cm_get (Some cm) True n (int 0) (int e) Id_none = Ret (Some cm, re, Some v)"
    using cm_get_loaded [OF cm(2), of 0 e n Id_none] cm(3) config_sections_facts assms(2,3) v(1)
    by (auto simp: id_matches_def)
  then show ?thesis
    using cm(1) assms(4) [OF v(2)] by (simp add: wp_def cfg_read_def SECT_GENERAL_def config_same)
qed

lemma wp_cfg_read_port:
  assumes "configured p (config d)" "0 < n" "\<And>re v. length v < n \<Longrightarrow> Q (re, v) d"
  shows "wp (cfg_read n SECT_PORT (cfg_port_id k) (Id_int p)) Q d"
proof -
  let ?e = "cfg_port_id k"
  obtain cm row where cm: "config d = Some cm" "loaded_wf cm" "cm_secs cm = config_sections"
    "key_row (cm_secs cm ! 1) (cm_hashes cm ! 1) (Id_int p) = Ret (Some row)"
    using assms(1) by (auto simp: configured_def)
  have e: "?e < 16" by (cases k) simp_all
  obtain re v where v: "copy_out (effective (cm_vals cm ! 1) (nat row) ?e) n = (re, Some v)" "length v < n"
    using copy_out_text [OF assms(2)] by blast
  have "cm_get (Some cm) True n (int 1) (int ?e) (Id_int p) = Ret (Some cm, re, Some v)"
    using cm_get_loaded [OF cm(2), of 1 ?e n "Id_int p"] cm(3,4) config_sections_facts assms(2) v(1) e
    by (auto simp: id_matches_def)
  then show ?thesis
    using cm(1) assms(3) [OF v(2)] by (simp add: wp_def cfg_read_def SECT_PORT_def config_same)
qed

lemma cfg_gen_id_less: "cfg_gen_id k < 8"
  by (cases k) simp_all

lemma wp_get_bool:
  assumes "configured p (config d)" "\<And>b. Q b d"
  shows "wp (gsm_config_get_bool par SECT_GENERAL (cfg_gen_id k)) Q d"
  unfolding gsm_config_get_bool_def wp_gbind
  by (rule wp_cfg_read_general [OF assms(1) cfg_gen_id_less]) (simp_all add: wp assms(2))

lemma wp_port_cfg_or:
  assumes "configured p (config d)" "0 < n" "length def < n" "\<And>v. length v < n \<Longrightarrow> Q v d"
  shows "wp (port_cfg_or def n k p) Q d"
  unfolding port_cfg_or_def cfg_read_or_def wp_gbind
  by (rule wp_cfg_read_port [OF assms(1,2)]) (simp add: wp assms)


section \<open>The invariant of a port\<close>

text \<open>A message that can be sent: the command with its number fits the buffer of 40 bytes.\<close>

definition msg_fine :: "gsm_sms_message \<Rightarrow> bool" where
  "msg_fine m \<longleftrightarrow> length (msg_number m) \<le> 29 \<and> length (msg_text m) < SMS_MSG_SZ"

definition sms_fine :: "gsm_sms \<Rightarrow> bool" where
  "sms_fine x \<longleftrightarrow> length (sms_number x) \<le> 29 \<and> length (sms_text x) < SMS_MSG_SZ \<and> msg_fine (outbound_msg x) \<and>
     length (msg_text (inbound_msg x)) < SMS_MSG_SZ \<and> length (msg_number (inbound_msg x)) < SMS_NUM_SZ \<and>
     length (msg_date (inbound_msg x)) < 32 \<and> int32 (sms_index (inbound_msg x))"

text \<open>The number of a caller leaves room for the prefix of 15 characters.\<close>

definition slcc_fine :: "gsm_slcc \<Rightarrow> bool" where
  "slcc_fine s \<longleftrightarrow> length (slcc_callerid s) \<le> 47"

definition base :: "int \<Rightarrow> gsm_drv \<Rightarrow> bool" where
  "base p d \<longleftrightarrow> lib_ok p (lib d) \<and> length (gsm_status d) = 32 \<and> length (gsm_sms d) = 32 \<and>
     length (gsm_slcc d) = 32 \<and> sms_fine (gsm_sms d ! nat p) \<and> slcc_fine (gsm_slcc d ! nat p) \<and>
     (\<forall>q ms. sms_queue d q = Some ms \<longrightarrow> (\<forall>m \<in> set ms. msg_fine m)) \<and> (\<forall>i \<in> set (sms_idx d). int32 i) \<and>
     configured p (config d)"

definition priv :: "int \<Rightarrow> gsm_drv \<Rightarrow> nat option" where
  "priv p d = cp_priv (ctlport (lib d) ! nat p)"

definition heap_fresh :: "gsm_drv \<Rightarrow> bool" where
  "heap_fresh d \<longleftrightarrow> (\<forall>a \<ge> heap_next d. pvts d a = None \<and> chans d a = None)"

text \<open>A port without a call, and one with the call \<open>a\<close> on the channel \<open>c\<close>.\<close>

definition no_call :: "int \<Rightarrow> gsm_drv \<Rightarrow> bool" where
  "no_call p d \<longleftrightarrow> base p d \<and> heap_fresh d \<and> priv p d = None"

definition on_call :: "int \<Rightarrow> nat \<Rightarrow> nat \<Rightarrow> gsm_drv \<Rightarrow> bool" where
  "on_call p c a d \<longleftrightarrow> base p d \<and> heap_fresh d \<and> priv p d = Some c \<and>
     (\<exists>ch. chans d c = Some ch \<and> ch_tech_pvt ch = Some a) \<and> (\<exists>g. pvts d a = Some g \<and> pv_port g = p) \<and>
     in_use (ctlport (lib d) ! nat p) \<noteq> 0"

definition port_inv :: "int \<Rightarrow> gsm_drv \<Rightarrow> bool" where
  "port_inv p d \<longleftrightarrow> no_call p d \<or> (\<exists>c a. on_call p c a d)"

lemma baseD:
  assumes "base p d"
  shows "lib_ok p (lib d)" "port_open p (lib d)" "0 < p" "0 \<le> p" "p < 32" "nat p < 32"
    "length (gsm_status d) = 32" "length (gsm_sms d) = 32" "length (gsm_slcc d) = 32"
    "length (gsm_cfg (lib d)) = 32" "sms_fine (gsm_sms d ! nat p)" "slcc_fine (gsm_slcc d ! nat p)"
    "configured p (config d)"
  using assms port_openD [of p "lib d"] by (auto simp: base_def lib_ok_def)

lemma base_frame [simp]:
  "base p (d\<lparr>ast_trace := t\<rparr>) = base p d" "base p (d\<lparr>asked := n\<rparr>) = base p d"
  "base p (d\<lparr>pvts := h\<rparr>) = base p d" "base p (d\<lparr>chans := k\<rparr>) = base p d"
  "base p (d\<lparr>heap_next := n\<rparr>) = base p d"
  by (simp_all add: base_def)

lemma base_lib: "base p d \<Longrightarrow> lib_ok p w \<Longrightarrow> base p (d\<lparr>lib := w\<rparr>)"
  by (simp add: base_def)

lemma base_status: "base p d \<Longrightarrow> base p (d\<lparr>gsm_status := (gsm_status d)[i := s]\<rparr>)"
  by (simp add: base_def)

lemma base_sms: "base p d \<Longrightarrow> sms_fine x \<Longrightarrow> base p (d\<lparr>gsm_sms := (gsm_sms d)[nat p := x]\<rparr>)"
  using baseD(6,8) [of p d] by (simp add: base_def)

lemma base_slcc: "base p d \<Longrightarrow> slcc_fine s \<Longrightarrow> base p (d\<lparr>gsm_slcc := (gsm_slcc d)[nat i := s]\<rparr>)"
  using baseD(6,9) [of p d] by (cases "nat i = nat p") (simp_all add: base_def nth_list_update)

lemma base_sms_idx: "base p d \<Longrightarrow> \<forall>i \<in> set xs. int32 i \<Longrightarrow> base p (d\<lparr>sms_idx := xs\<rparr>)"
  by (simp add: base_def)

lemma base_queue: "base p d \<Longrightarrow> \<forall>m \<in> set ms. msg_fine m \<Longrightarrow> sms_queue d = qs \<Longrightarrow> base p (d\<lparr>sms_queue := qs(q \<mapsto> ms)\<rparr>)"
  by (auto simp: base_def)

lemma base_msg: "base p d \<Longrightarrow> sms_queue d q = Some ms \<Longrightarrow> m \<in> set ms \<Longrightarrow> msg_fine m"
  by (auto simp: base_def)

lemma idx_add_set: "set (idx_add i xs) \<subseteq> insert i (set xs)"
  by (induction i xs rule: idx_add.induct) auto

lemma idx_get_next_set: "fst (idx_get_next xs) \<in> insert 0 (set xs)" "set (snd (idx_get_next xs)) \<subseteq> insert 0 (set xs)"
  by (induction xs) (auto split: prod.splits)


section \<open>Properties of a port that only the start and the end of a call change\<close>

text \<open>What Asterisk is told of a call, as opposed to reports to the manager interface and files.\<close>

fun call_effect :: "ast_effect \<Rightarrow> bool" where
  "call_effect (Queue_hangup c) = True"
| "call_effect (Queue_control c s) = True"
| "call_effect (Pbx_start c) = True"
| "call_effect e = False"

definition shown :: "gsm_drv \<Rightarrow> ast_effect list" where
  "shown d = filter call_effect (ast_trace d)"

lemma shown_frame [simp]:
  "shown (d\<lparr>lib := w\<rparr>) = shown d" "shown (d\<lparr>gsm_status := ss\<rparr>) = shown d" "shown (d\<lparr>gsm_sms := ms\<rparr>) = shown d"
  "shown (d\<lparr>gsm_slcc := ls\<rparr>) = shown d" "shown (d\<lparr>sms_idx := is\<rparr>) = shown d" "shown (d\<lparr>sms_queue := qs\<rparr>) = shown d"
  "shown (d\<lparr>asked := n\<rparr>) = shown d" "shown (d\<lparr>pvts := h\<rparr>) = shown d" "shown (d\<lparr>chans := k\<rparr>) = shown d"
  "shown (d\<lparr>heap_next := n\<rparr>) = shown d"
  "shown (d\<lparr>ast_trace := ast_trace d' @ [e]\<rparr>) = shown d' @ (if call_effect e then [e] else [])"
  by (simp_all add: shown_def)

named_theorems kept

lemma plain_effects [kept]:
  "\<not> call_effect (Manager_event x y)" "\<not> call_effect (Sms_shown i m)" "\<not> call_effect (File_written x y)"
  "\<not> call_effect (sms_event i j m)"
  by (simp_all add: sms_event_def)

locale port_state =
  fixes p :: int and I :: "gsm_drv \<Rightarrow> bool"
  assumes I_base: "I d \<Longrightarrow> base p d"
    and I_frame: "I d \<Longrightarrow> base p d' \<Longrightarrow> view p (lib d') = view p (lib d) \<Longrightarrow> pvts d' = pvts d \<Longrightarrow>
      chans d' = chans d \<Longrightarrow> heap_next d' = heap_next d \<Longrightarrow> shown d' = shown d \<Longrightarrow> I d'"
begin

definition keep :: "'a dm \<Rightarrow> bool" where
  "keep m \<longleftrightarrow> triple I m I"

lemma keepI: "(\<And>d. I d \<Longrightarrow> wp m (\<lambda>_. I) d) \<Longrightarrow> keep m"
  by (simp add: keep_def triple_def)

lemma keepD: "keep m \<Longrightarrow> I d \<Longrightarrow> wp m (\<lambda>_. I) d"
  by (simp add: keep_def triple_def)

lemma keep_ret [kept]: "keep (ret x)"
  by (simp add: keep_def triple_ret)

lemma keep_gthen [kept]: "keep m \<Longrightarrow> keep n \<Longrightarrow> keep (gthen m n)"
  unfolding keep_def by (rule triple_gthen)

lemma keep_gbind: "keep m \<Longrightarrow> (\<And>x. keep (f x)) \<Longrightarrow> keep (gbind m f)"
  unfolding keep_def by (rule triple_gbind)

lemma keep_if [kept]: "(b \<Longrightarrow> keep m) \<Longrightarrow> (\<not> b \<Longrightarrow> keep n) \<Longrightarrow> keep (if b then m else n)"
  by simp

lemma keep_option [kept]: "keep m \<Longrightarrow> (\<And>x. keep (f x)) \<Longrightarrow> keep (case z of None \<Rightarrow> m | Some x \<Rightarrow> f x)"
  by (cases z) auto

lemma keep_quiet [kept]: "quiet p m \<Longrightarrow> keep (on_lib m)"
proof (rule keepI)
  fix d assume m: "quiet p m" and d: "I d"
  show "wp (on_lib m) (\<lambda>_. I) d"
    by (rule quiet_wp [OF m baseD(1) [OF I_base [OF d]]], rule I_frame [OF d base_lib [OF I_base [OF d]]]) simp_all
qed

lemma keep_effect [kept]: "\<not> call_effect e \<Longrightarrow> keep (effect e)"
  by (rule keepI) (auto simp: wp I_base intro: I_frame)

lemma keep_answer [kept]: "keep answer"
  by (rule keepI) (auto simp: wp I_base intro: I_frame)

lemma keep_status_get [kept]: "keep (status_get p)"
  by (rule keepI) (use baseD [OF I_base] in \<open>auto simp: wp\<close>)

lemma keep_status_upd [kept]: "keep (status_upd p f)"
  by (rule keepI) (use baseD [OF I_base] in \<open>auto simp: wp base_status I_base intro: I_frame\<close>)

lemma keep_sms_get:
  assumes "\<And>x. sms_fine x \<Longrightarrow> keep (f x)"
  shows "keep (gbind (sms_get p) f)"
proof (rule keepI)
  fix d assume d: "I d"
  then show "wp (gbind (sms_get p) f) (\<lambda>_. I) d"
    using baseD [OF I_base [OF d]] keepD [OF assms] by (simp add: wp)
qed

lemma keep_sms_upd [kept]:
  assumes "\<And>x. sms_fine x \<Longrightarrow> sms_fine (f x)"
  shows "keep (sms_upd p f)"
  by (rule keepI)
     (use baseD [OF I_base] assms in \<open>auto simp: wp base_sms I_base intro: I_frame\<close>)

lemma keep_slcc_get:
  assumes "\<And>x. slcc_fine x \<Longrightarrow> keep (f x)"
  shows "keep (gbind (slcc_get p) f)"
proof (rule keepI)
  fix d assume d: "I d"
  then show "wp (gbind (slcc_get p) f) (\<lambda>_. I) d"
    using baseD [OF I_base [OF d]] keepD [OF assms] by (simp add: wp)
qed

lemma keep_slcc_upd [kept]:
  assumes "\<And>x. slcc_fine x \<Longrightarrow> slcc_fine (f x)"
  shows "keep (slcc_upd p f)"
  by (rule keepI)
     (use baseD [OF I_base] assms in \<open>auto simp: wp base_slcc I_base intro: I_frame\<close>)

lemma keep_cfg_get: "(\<And>g. keep (f g)) \<Longrightarrow> keep (gbind (on_lib (cfg_get p)) f)"
proof (rule keepI)
  fix d assume f: "\<And>g. keep (f g)" and d: "I d"
  have "d\<lparr>lib := lib d\<rparr> = d" by simp
  with d f show "wp (gbind (on_lib (cfg_get p)) f) (\<lambda>_. I) d"
    using baseD [OF I_base [OF d]] by (simp add: wp keepD)
qed

lemma keep_gets: "(\<And>d. I d \<Longrightarrow> keep (f (g d))) \<Longrightarrow> keep (gbind (gets g) f)"
  unfolding keep_def by (rule triple_gets)

lemma keep_fits: "length s < n \<Longrightarrow> keep (f s) \<Longrightarrow> keep (gbind (fits n s) f)"
  by (auto simp: keep_def triple_def wp)

lemma keep_cfg_read_general:
  assumes "0 < n" "\<And>re v. length v < n \<Longrightarrow> keep (f (re, v))"
  shows "keep (gbind (cfg_read n SECT_GENERAL (cfg_gen_id k) Id_none) f)"
  by (rule keepI)
     (auto simp: wp intro!: wp_cfg_read_general [OF baseD(13) [OF I_base] cfg_gen_id_less] assms keepD)

lemma keep_cfg_read_port:
  assumes "0 < n" "\<And>re v. length v < n \<Longrightarrow> keep (f (re, v))"
  shows "keep (gbind (cfg_read n SECT_PORT (cfg_port_id k) (Id_int p)) f)"
  by (rule keepI) (auto simp: wp intro!: wp_cfg_read_port [OF baseD(13) [OF I_base]] assms keepD)

lemma keep_get_bool [kept]: "keep (gsm_config_get_bool par SECT_GENERAL (cfg_gen_id k))"
  by (rule keepI) (rule wp_get_bool [OF baseD(13) [OF I_base]])

lemma keep_sms_idx_add [kept]:
  assumes "int32 i"
  shows "keep (sms_idx_add i)"
proof (rule keepI)
  fix d assume d: "I d"
  have "\<forall>j \<in> set (idx_add i (sms_idx d)). int32 j"
    using idx_add_set [of i "sms_idx d"] I_base [OF d] assms by (auto simp: base_def)
  then have "base p (d\<lparr>sms_idx := idx_add i (sms_idx d)\<rparr>)" by (rule base_sms_idx [OF I_base [OF d]])
  then show "wp (sms_idx_add i) (\<lambda>_. I) d" by (auto simp: sms_idx_add_def wp intro: I_frame [OF d])
qed

lemma keep_sms_idx_get_next:
  assumes "\<And>i. int32 i \<Longrightarrow> keep (f i)"
  shows "keep (gbind sms_idx_get_next f)"
proof (rule keepI)
  fix d assume d: "I d"
  obtain i xs where g: "idx_get_next (sms_idx d) = (i, xs)" by force
  have b: "\<forall>j \<in> set (sms_idx d). int32 j" using I_base [OF d] by (simp add: base_def)
  have i: "int32 i" and xs: "\<forall>j \<in> set xs. int32 j"
    using idx_get_next_set [of "sms_idx d"] b by (auto simp: g)
  have "I (d\<lparr>sms_idx := xs\<rparr>)" by (rule I_frame [OF d base_sms_idx [OF I_base [OF d] xs]]) simp_all
  then show "wp (gbind sms_idx_get_next f) (\<lambda>_. I) d"
    by (simp add: sms_idx_get_next_def wp g keepD [OF assms [OF i]])
qed

lemma keep_sms_msgsnd [kept]:
  assumes "msg_fine m"
  shows "keep (sms_msgsnd q m)"
proof (rule keepI)
  fix d assume d: "I d"
  have "base p (d\<lparr>asked := n, sms_queue := (sms_queue d)(q \<mapsto> ms @ [m])\<rparr>)" if "sms_queue d q = Some ms" for ms n
    using base_queue [of p "d\<lparr>asked := n\<rparr>" "ms @ [m]"] base_msg [OF I_base [OF d] that] I_base [OF d] assms by auto
  then show "wp (sms_msgsnd q m) (\<lambda>_. I) d"
    by (auto simp: sms_msgsnd_def wp I_base d split: option.split intro!: I_frame [OF d])
qed

lemma keep_sms_msgrcv:
  assumes "keep (f None)" "\<And>m. msg_fine m \<Longrightarrow> keep (f (Some m))"
  shows "keep (gbind (sms_msgrcv q) f)"
proof (rule keepI)
  fix d assume d: "I d"
  show "wp (gbind (sms_msgrcv q) f) (\<lambda>_. I) d"
  proof (cases "sms_queue d q")
    case (Some ms)
    show ?thesis
    proof (cases ms)
      case (Cons m ms')
      have "I (d\<lparr>sms_queue := (sms_queue d)(q \<mapsto> ms')\<rparr>)"
        by (rule I_frame [OF d base_queue [OF I_base [OF d]]]) (use base_msg [OF I_base [OF d] Some] Cons in auto)
      then show ?thesis
        using Some Cons base_msg [OF I_base [OF d] Some, of m] by (simp add: sms_msgrcv_def wp keepD assms)
    qed (simp add: sms_msgrcv_def wp Some keepD assms d)
  qed (simp add: sms_msgrcv_def wp keepD assms d)
qed

lemmas keep_first = keep_sms_get keep_slcc_get keep_cfg_get keep_gets keep_fits keep_sms_idx_get_next

end


section \<open>Lines that fit the buffers\<close>

text \<open>The number and the date in the header of a message.\<close>

definition skip_to_number :: "string \<Rightarrow> string option" where
  "skip_to_number line = snd (strsep [QUOTE] (snd (strsep '','' (snd (strsep '','' (snd (strsep '':'' (Some line))))))))"

definition number_field :: "string \<Rightarrow> string option" where
  "number_field line = fst (strsep [QUOTE] (skip_to_number line))"

definition date_field :: "string \<Rightarrow> string option" where
  "date_field line = fst (strsep [QUOTE] (snd (strsep [QUOTE] (snd (strsep [QUOTE] (skip_to_number line))))))"

abbreviation shorter :: "nat \<Rightarrow> string option \<Rightarrow> bool" where
  "shorter n s \<equiv> pred_option (\<lambda>s. length s < n) s"

text \<open>
  Of the lines that are copied to a buffer: the number and the date of a message, the provider, the number
  of a caller. A module check is left out: it restarts the port.
\<close>

definition line_shape :: "string \<Rightarrow> bool" where
  "line_shape line \<longleftrightarrow> (case parse_events line of
       GSM_EVENT_SMS_NEW_MESSAGE \<Rightarrow> shorter SMS_NUM_SZ (number_field line) \<and> shorter 32 (date_field line)
     | GSM_EVENT_COPS \<Rightarrow> shorter 128 (cops_provider line)
     | GSM_EVENT_CLIP \<Rightarrow> shorter 48 (fst (scan_clip line))
     | ev \<Rightarrow> ev \<noteq> GSM_EVENT_MODEM_CHECK_ERROR)"

text \<open>A line of a message is appended to its text.\<close>

definition line_fits :: "int \<Rightarrow> string \<Rightarrow> gsm_drv \<Rightarrow> bool" where
  "line_fits p line d \<longleftrightarrow> line_shape line \<and>
     (parse_events line = GSM_EVENT_NONE \<and> sms_state (gsm_sms d ! nat p) = GSM_SMS_STATE_GET_TEXT \<longrightarrow>
      length (msg_text (inbound_msg (gsm_sms d ! nat p)) @ line) < SMS_MSG_SZ)"

lemma strsep_cases: "strsep ds q = (None, None) \<and> q = None \<or> (\<exists>t u. strsep ds q = (Some t, u))"
  by (cases q) (auto simp: strsep_def)

lemma sms_fine_updates [simp]:
  "sms_fine x \<Longrightarrow> sms_fine (x\<lparr>sms_state := s\<rparr>)" "sms_fine x \<Longrightarrow> sms_fine (x\<lparr>sms_work := k\<rparr>)"
  "sms_fine x \<Longrightarrow> sms_fine (x\<lparr>inbound_msg := inbound_msg x\<lparr>sms_index := strtol r\<rparr>\<rparr>)"
  "sms_fine x \<Longrightarrow> length r < 32 \<Longrightarrow> sms_fine (x\<lparr>inbound_msg := inbound_msg x\<lparr>msg_number := r\<rparr>\<rparr>)"
  "sms_fine x \<Longrightarrow> length r < 32 \<Longrightarrow> sms_fine (x\<lparr>inbound_msg := inbound_msg x\<lparr>msg_date := r\<rparr>\<rparr>)"
  "sms_fine x \<Longrightarrow> sms_fine (x\<lparr>inbound_msg := inbound_msg x\<lparr>msg_text := []\<rparr>\<rparr>)"
  "sms_fine x \<Longrightarrow> sms_fine (x\<lparr>inbound_msg := inbound_msg x\<lparr>pdu_len := n, msg_text := []\<rparr>\<rparr>)"
  "sms_fine x \<Longrightarrow> sms_fine (x\<lparr>inbound_msg := inbound_msg x\<lparr>msg_number := [], msg_date := []\<rparr>\<rparr>)"
  "sms_fine x \<Longrightarrow> sms_fine (x\<lparr>inbound_msg := sms_message_zero\<rparr>)"
  "sms_fine x \<Longrightarrow> sms_fine (x\<lparr>sms_state := s, outbound_msg := sms_message_zero\<rparr>)"
  "sms_fine x \<Longrightarrow> sms_fine (x\<lparr>sms_state := s, sms_work := k\<rparr>)"
  "sms_fine x \<Longrightarrow> msg_fine m \<Longrightarrow> sms_fine (x\<lparr>outbound_msg := m\<rparr>)"
  "sms_fine x \<Longrightarrow> length num \<le> 29 \<Longrightarrow> sms_fine (x\<lparr>sms_number := num\<rparr>)"
  "sms_fine x \<Longrightarrow> length t < SMS_MSG_SZ \<Longrightarrow> sms_fine (x\<lparr>sms_text := t\<rparr>)"
  using strtol_int32 [of r]
  by (simp_all add: sms_fine_def msg_fine_def sms_message_zero_def SMS_NUM_SZ_def SMS_MSG_SZ_def)

lemma slcc_fine_updates [simp]:
  "slcc_fine (s\<lparr>slcc_channel_state := st\<rparr>) = slcc_fine s" "slcc_fine (s\<lparr>slcc_type := t\<rparr>) = slcc_fine s"
  "slcc_fine (s\<lparr>slcc_ringing := r\<rparr>) = slcc_fine s" "slcc_fine (s\<lparr>slcc_ringcount := n\<rparr>) = slcc_fine s"
  "slcc_fine (s\<lparr>slcc_callerid := c\<rparr>) \<longleftrightarrow> length c \<le> 47" "slcc_fine slcc_zero"
  by (simp_all add: slcc_fine_def slcc_zero_def)

lemma file_name_length:
  assumes "0 < p" "p < 32"
  shows "length (''/'' @ itoa (s mod 2 ^ 31) @ ''-'' @ itoa (u mod 1000000) @ ''-port-'' @ itoa p @ ''.sms'') \<le> 30"
proof -
  have "length (itoa (s mod 2 ^ 31)) \<le> 10"
    by (rule itoa_length) (use pos_mod_bound [of "2 ^ 31" s] in auto)
  moreover have "length (itoa (u mod 1000000)) \<le> 6" by (rule itoa_length) simp_all
  moreover have "length (itoa p) \<le> 2" by (rule itoa_length) (use assms in auto)
  ultimately show ?thesis by simp
qed

context port_state
begin

lemma keep_prod: "keep (f (fst z) (snd z)) \<Longrightarrow> keep (case z of (x, y) \<Rightarrow> f x y)"
  by (cases z) simp

lemma keep_send [kept]: "length s \<le> 255 \<Longrightarrow> keep (on_lib (gsm_send p s))"
  by (intro kept quiet)

lemma keep_send_all [kept]: "\<forall>s \<in> set cmds. length s \<le> 255 \<Longrightarrow> keep (send_all p cmds)"
  unfolding send_all_def by (intro kept quiet)

lemma keep_post_next [kept]: "keep (on_lib (gsm_post_next_msg p))"
  by (intro kept quiet)

lemma keep_set_sms_state [kept]: "keep (set_sms_state p s)"
  unfolding set_sms_state_def by (rule kept) simp

lemma keep_msg_upd [kept]:
  "(\<And>x. sms_fine x \<Longrightarrow> sms_fine (x\<lparr>inbound_msg := f (inbound_msg x)\<rparr>)) \<Longrightarrow> keep (msg_upd p f)"
  unfolding msg_upd_def by (rule kept)

lemma keep_gettimeofday:
  assumes "\<And>s u. keep (f (s mod 2 ^ 31, u mod 1000000))"
  shows "keep (gbind gettimeofday f)"
proof (rule keepI)
  fix d assume d: "I d"
  have "I (d\<lparr>asked := n\<rparr>)" for n by (rule I_frame [OF d]) (simp_all add: I_base [OF d])
  then show "wp (gbind gettimeofday f) (\<lambda>_. I) d"
    using keepD [OF assms] by (simp add: gettimeofday_def wp)
qed

lemma port_range: "I d \<Longrightarrow> 0 < p \<and> p < 32"
  using baseD [OF I_base] by blast

lemma keep_save_sms [kept]: "keep (save_sms p m)"
proof (rule keepI)
  fix d assume d: "I d"
  have n: "length (''/'' @ itoa (s mod 2 ^ 31) @ ''-'' @ itoa (u mod 1000000) @ ''-port-'' @ itoa p @ ''.sms'') < 64"
    "length v < 96 \<Longrightarrow> length (v @ ''/'' @ itoa (s mod 2 ^ 31) @ ''-'' @ itoa (u mod 1000000) @ ''-port-'' @ itoa p @ ''.sms'') < 128"
    for s u and v :: string
    using file_name_length [of p s u] port_range [OF d] by auto
  have "keep (save_sms p m)"
    unfolding save_sms_def
    by (rule keep_cfg_read_general, simp, simp only: prod.case)
       (rule keep_if keep_ret keep_gettimeofday keep_fits n keep_gbind [OF keep_answer] keep_cfg_get kept
         | assumption | simp only: prod.case)+
  then show "wp (save_sms p m) (\<lambda>_. I) d" using d by (rule keepD)
qed

lemma keep_finish_message [kept]: "keep (finish_message p)"
  unfolding finish_message_def output_sms_def
  by (rule keep_first kept | simp)+ (simp_all add: sms_fine_def keep_ret)

lemma keep_token:
  assumes "\<And>r u. strsep ds q = (Some r, u) \<Longrightarrow> keep (f r u)"
  shows "keep (token ds q f)"
  using strsep_cases [of ds q] assms by (auto simp: token_def intro: kept)

lemma keep_text_header:
  assumes "shorter SMS_NUM_SZ (number_field line)" "shorter 32 (date_field line)"
  shows "keep (text_header p line)"
  using assms unfolding text_header_def number_field_def date_field_def skip_to_number_def
  by (intro keep_token kept keep_fits) (simp_all add: SMS_NUM_SZ_def)

lemma keep_pdu_header: "keep (pdu_header p line)"
  unfolding pdu_header_def by (intro keep_token kept) simp_all

lemma keep_delete_next [kept]: "keep (delete_next p)"
  unfolding delete_next_def
  by (rule keep_sms_idx_get_next) (use itoa_int32 in \<open>force intro!: kept keep_fits\<close>)

lemma keep_sms_idle [kept]: "keep (sms_idle p)"
  unfolding sms_idle_def by (rule kept) simp

lemma keep_sms_send_number [kept]: "keep (sms_send_number p)"
  unfolding sms_send_number_def
  by (rule keep_first kept quiet | simp add: sms_fine_def)+

lemma keep_sms_ok [kept]: "keep (sms_ok p)"
  unfolding sms_ok_def by (rule keep_first kept keep_gbind)+

lemma keep_sms_new_message:
  assumes "shorter SMS_NUM_SZ (number_field line)" "shorter 32 (date_field line)"
  shows "keep (sms_new_message p line)"
  unfolding sms_new_message_def
  by (rule keep_first kept keep_text_header keep_pdu_header assms)+

lemma keep_sms_transmitted [kept]: "keep (sms_transmitted p)"
  unfolding sms_transmitted_def by (rule keep_first kept | simp)+

lemma keep_sms_echo [kept]: "keep (sms_echo p line)"
proof -
  have "length (''AT+CMSS='' @ itoa (strtol t)) < 100" "length (''AT+CMSS='' @ itoa (strtol t)) \<le> 255" for t
    using itoa_int32 [OF strtol_int32, of t] by simp_all
  then show ?thesis unfolding sms_echo_def by (intro keep_first kept)
qed

lemma keep_sms_prompted [kept]: "keep (sms_prompted p)"
  unfolding sms_prompted_def
  by (rule keep_first kept quiet | simp add: sms_fine_def SMS_MSG_SZ_def)+

end

context port_state
begin

text \<open>The handling of short messages, in a state in which the line fits.\<close>

lemma cb_sms_keeps:
  assumes "I d" "line_fits p line d"
  shows "wp (cb_sms p (parse_events line) line) (\<lambda>_. I) d"
proof (cases "parse_events line = GSM_EVENT_NONE")
  case True
  let ?x = "gsm_sms d ! nat p"
  note b = baseD [OF I_base [OF assms(1)]]
  have "I (d\<lparr>gsm_sms := (gsm_sms d)[nat p := ?x\<lparr>inbound_msg := inbound_msg ?x\<lparr>msg_text := t\<rparr>\<rparr>]\<rparr>)"
    if "length t < SMS_MSG_SZ" for t
  proof (rule I_frame [OF assms(1) base_sms [OF I_base [OF assms(1)]]])
    show "sms_fine (?x\<lparr>inbound_msg := inbound_msg ?x\<lparr>msg_text := t\<rparr>\<rparr>)"
      using b(11) that by (simp add: sms_fine_def)
  qed simp_all
  then show ?thesis
    using True assms b by (auto simp: cb_sms_def msg_upd_def line_fits_def wp)
next
  case False
  have "keep (cb_sms p (parse_events line) line)"
    using assms(2) False
    by (cases "parse_events line")
       (simp_all add: cb_sms_def line_fits_def line_shape_def kept keep_sms_new_message)
  then show ?thesis using assms(1) by (rule keepD)
qed

lemma keep_send_channel_state [kept]: "keep (gsm_send_channel_state c s)"
  unfolding gsm_send_channel_state_def
  by (rule kept quiet | rule keep_gbind | rule keep_prod)+

lemma keep_set_channel_state [kept]: "keep (gsm_set_channel_state p s)"
  unfolding gsm_set_channel_state_def by (rule kept | simp)+

lemma keep_show_state [kept]: "keep (show_state p s)"
  unfolding show_state_def by (rule kept)+

lemma keep_creg [kept]:
  "keep (creg_not_registered p)" "keep (creg_home p)" "keep (creg_searching p)" "keep (creg_denied p)"
  "keep (creg_roaming p)"
  unfolding creg_not_registered_def creg_home_def creg_searching_def creg_denied_def creg_roaming_def
  by (rule kept quiet | simp)+

lemma keep_ev_init [kept]: "keep (ev_init p line)"
  unfolding ev_init_def by (rule kept quiet)+

lemma keep_ev_cops:
  assumes "shorter 128 (cops_provider line)"
  shows "keep (ev_cops p line)"
  using assms unfolding ev_cops_def
  by (cases "cops_provider line") (simp_all add: kept keep_fits)

lemma keep_ev_clip:
  assumes "shorter 48 (fst (scan_clip line))"
  shows "keep (ev_clip p line)"
  using assms unfolding ev_clip_def
  by (cases "scan_clip line"; cases "fst (scan_clip line)") (auto intro!: kept keep_fits)

lemma keep_ev_cusd [kept]: "keep (ev_cusd p line)"
  unfolding ev_cusd_def by (rule kept)+

lemma keep_ev_incoming_sms [kept]: "keep (ev_incoming_sms p line)"
  unfolding ev_incoming_sms_def by (rule kept keep_cfg_get)+

lemma keep_back_to_pdu_mode [kept]: "keep (back_to_pdu_mode p)"
  unfolding back_to_pdu_mode_def by (rule kept keep_cfg_get | simp)+

lemma keep_gsm_queue_sms [kept]:
  "length num \<le> 29 \<Longrightarrow> length t < SMS_MSG_SZ \<Longrightarrow> keep (gsm_queue_sms p num t)"
  unfolding gsm_queue_sms_def
  by (rule keep_fits keep_sms_get keep_gbind kept | simp add: SMS_NUM_SZ_def msg_fine_def)+

lemma keep_requeue_sms [kept]: "keep (requeue_sms p)"
  unfolding requeue_sms_def by (rule keep_sms_get kept | simp add: sms_fine_def msg_fine_def)+

lemma keep_gsm_send_sms:
  "length num \<le> 29 \<Longrightarrow> length t < SMS_MSG_SZ \<Longrightarrow> keep (gsm_send_sms p num t)"
  unfolding gsm_send_sms_def
  by (rule keep_fits kept keep_sms_get | simp add: SMS_NUM_SZ_def)+

lemma keep_gsm_list_sms [kept]: "keep (gsm_list_sms p)"
  unfolding gsm_list_sms_def by (rule kept keep_cfg_get | simp)+

lemma caller_number_keeps:
  assumes "I d" "\<And>cid. Q cid d"
  shows "wp (caller_number par p) Q d"
proof -
  note b = baseD [OF I_base [OF assms(1)]]
  let ?s = "gsm_slcc d ! nat p"
  have pre: "wp (gbind (cfg_read 16 SECT_PORT (cfg_port_id CFG_PORT_CID_PREFIX) (Id_int p)) (\<lambda>(_, prefix).
      if prefix \<noteq> [] then fits 64 (prefix @ slcc_callerid ?s) else ret cid)) Q d" for cid
    unfolding wp_gbind
    by (rule wp_cfg_read_port [OF b(13)]) (use b(12) in \<open>simp_all add: wp assms(2) slcc_fine_def\<close>)
  show ?thesis
    unfolding caller_number_def wp_gbind wp_slcc_get
  proof (intro conjI, goal_cases)
    case 3
    show ?case
      by (rule wp_get_bool [OF b(13)]) (simp only: wp_ret wp_if pre assms(2) if_cancel simp_thms)
  qed (use b in auto)
qed

end

end
