(* ===== verification/Gsm_Port_Proofs.thy ===== *)
theory Gsm_Port_Proofs
  imports Gsm_Port_Inv
begin

text \<open>
  The operations of the GSM channel driver on a port keep its invariant: the interpretations of
  \<open>port_state\<close> for a port without a call, with one, and for the states between, the start and the
  end of a call, every line of the module, and the methods Asterisk calls.
\<close>


section \<open>Start and end of a call\<close>

text \<open>Between the allocation of a call and that of its channel.\<close>

definition new_call :: "int \<Rightarrow> nat \<Rightarrow> gsm_drv \<Rightarrow> bool" where
  "new_call p a d \<longleftrightarrow> base p d \<and> heap_fresh d \<and> priv p d = None \<and> (\<exists>g. pvts d a = Some g \<and> pv_port g = p) \<and>
     in_use (ctlport (lib d) ! nat p) \<noteq> 0"

lemma heap_fresh_frame: "pvts d' = pvts d \<Longrightarrow> chans d' = chans d \<Longrightarrow> heap_next d' = heap_next d \<Longrightarrow> heap_fresh d' = heap_fresh d"
  by (simp add: heap_fresh_def)

lemma view_priv: "view p w = view p w' \<Longrightarrow> cp_priv (ctlport w ! nat p) = cp_priv (ctlport w' ! nat p) \<and>
    in_use (ctlport w ! nat p) = in_use (ctlport w' ! nat p)"
  by (simp add: view_def)

interpretation idle: port_state p "no_call p" for p
proof unfold_locales
  fix d d' assume "no_call p d" "base p d'" "view p (lib d') = view p (lib d)" "pvts d' = pvts d"
    "chans d' = chans d" "heap_next d' = heap_next d" "shown d' = shown d"
  then show "no_call p d'"
    using heap_fresh_frame [of d' d] view_priv [of p "lib d'" "lib d"] by (simp add: no_call_def priv_def)
qed (simp add: no_call_def)

interpretation busy: port_state p "on_call p c a" for p c a
proof unfold_locales
  fix d d' assume "on_call p c a d" "base p d'" "view p (lib d') = view p (lib d)" "pvts d' = pvts d"
    "chans d' = chans d" "heap_next d' = heap_next d" "shown d' = shown d"
  then show "on_call p c a d'"
    using heap_fresh_frame [of d' d] view_priv [of p "lib d'" "lib d"] by (simp add: on_call_def priv_def)
qed (simp add: on_call_def)

interpretation starting: port_state p "new_call p a" for p a
proof unfold_locales
  fix d d' assume "new_call p a d" "base p d'" "view p (lib d') = view p (lib d)" "pvts d' = pvts d"
    "chans d' = chans d" "heap_next d' = heap_next d" "shown d' = shown d"
  then show "new_call p a d'"
    using heap_fresh_frame [of d' d] view_priv [of p "lib d'" "lib d"] by (simp add: new_call_def priv_def)
qed (simp add: new_call_def)

lemma lib_same [simp]: "d\<lparr>lib := lib d\<rparr> = (d :: gsm_drv)"
  by simp

lemma wp_gsm_get_priv: "base p d \<Longrightarrow> wp (on_lib (gsm_get_priv p)) Q d = Q (priv p d) d"
  using baseD [of p d] port_openD [of p "lib d"]
  by (simp add: gsm_get_priv_def wp priv_def)

lemma on_callE:
  assumes "on_call p c a d"
  obtains ch g where "base p d" "heap_fresh d" "priv p d = Some c" "chans d c = Some ch" "ch_tech_pvt ch = Some a"
    "pvts d a = Some g" "pv_port g = p" "in_use (ctlport (lib d) ! nat p) \<noteq> 0"
  using assms by (auto simp: on_call_def)

lemma wp_chan_pvt:
  "wp (chan_pvt None) Q d = Q None d"
  "chans d c = Some ch \<Longrightarrow> wp (chan_pvt (Some c)) Q d = Q (ch_tech_pvt ch) d"
  by (simp_all add: chan_pvt_def wp)

lemma heap_fresh_less: "heap_fresh d \<Longrightarrow> pvts d a = Some g \<Longrightarrow> a < heap_next d"
  "heap_fresh d \<Longrightarrow> chans d c = Some ch \<Longrightarrow> c < heap_next d"
  by (force simp: heap_fresh_def not_le [symmetric])+

lemma heap_fresh_pvts: "heap_fresh d \<Longrightarrow> a < heap_next d \<Longrightarrow> pvts d = h \<Longrightarrow> heap_fresh (d\<lparr>pvts := h(a := v)\<rparr>)"
  by (auto simp: heap_fresh_def)

lemma heap_fresh_chans: "heap_fresh d \<Longrightarrow> c < heap_next d \<Longrightarrow> chans d = h \<Longrightarrow> heap_fresh (d\<lparr>chans := h(c := v)\<rparr>)"
  by (auto simp: heap_fresh_def)

lemma priv_frame [simp]:
  "priv p (d\<lparr>pvts := h\<rparr>) = priv p d" "priv p (d\<lparr>chans := k\<rparr>) = priv p d" "priv p (d\<lparr>heap_next := n\<rparr>) = priv p d"
  "priv p (d\<lparr>asked := n\<rparr>) = priv p d" "priv p (d\<lparr>ast_trace := t\<rparr>) = priv p d"
  by (simp_all add: priv_def)

lemma busy_effect [kept]: "busy.keep p c a (effect e)"
  by (rule busy.keepI) (auto simp: wp on_call_def heap_fresh_def priv_def)

lemma busy_pvt_upd [kept]:
  assumes "\<And>g. pv_port (f g) = pv_port g"
  shows "busy.keep p c a (pvt_upd a f)"
proof (rule busy.keepI)
  fix d assume "on_call p c a d"
  then show "wp (pvt_upd a f) (\<lambda>_. on_call p c a) d"
    using heap_fresh_pvts [of d a] heap_fresh_less(1) [of d a] assms by (auto elim!: on_callE simp: wp on_call_def)
qed

lemma busy_chan_upd [kept]:
  assumes "\<And>g. ch_tech_pvt (f g) = ch_tech_pvt g"
  shows "busy.keep p c a (chan_upd c f)"
proof (rule busy.keepI)
  fix d assume "on_call p c a d"
  then show "wp (chan_upd c f) (\<lambda>_. on_call p c a) d"
    using heap_fresh_chans [of d c] heap_fresh_less(2) [of d c] assms by (auto elim!: on_callE simp: wp on_call_def)
qed

lemma busy_pvt_get:
  assumes "\<And>g. pv_port g = p \<Longrightarrow> busy.keep p c a (f g)"
  shows "busy.keep p c a (gbind (pvt_get a) f)"
proof (rule busy.keepI)
  fix d assume d: "on_call p c a d"
  then obtain g where "pvts d a = Some g" "pv_port g = p" by (rule on_callE)
  with busy.keepD [OF assms d] show "wp (gbind (pvt_get a) f) (\<lambda>_. on_call p c a) d" by (simp add: wp)
qed

lemma busy_get_priv:
  assumes "busy.keep p c a (f (Some c) (Some a))"
  shows "busy.keep p c a (gbind (on_lib (gsm_get_priv p)) (\<lambda>ast. gbind (chan_pvt ast) (\<lambda>gsm. f ast gsm)))"
proof (rule busy.keepI)
  fix d assume d: "on_call p c a d"
  then obtain ch where "base p d" "priv p d = Some c" "chans d c = Some ch" "ch_tech_pvt ch = Some a" by (rule on_callE)
  with busy.keepD [OF assms d] show "wp (gbind (on_lib (gsm_get_priv p)) (\<lambda>ast. gbind (chan_pvt ast) (\<lambda>gsm. f ast gsm)))
      (\<lambda>_. on_call p c a) d"
    by (simp add: wp_gbind wp_gsm_get_priv wp_chan_pvt)
qed

lemma idle_get_priv:
  assumes "idle.keep p (f None None)"
  shows "idle.keep p (gbind (on_lib (gsm_get_priv p)) (\<lambda>ast. gbind (chan_pvt ast) (\<lambda>gsm. f ast gsm)))"
proof (rule idle.keepI)
  fix d assume d: "no_call p d"
  then have "base p d" "priv p d = None" by (simp_all add: no_call_def)
  with idle.keepD [OF assms d] show "wp (gbind (on_lib (gsm_get_priv p)) (\<lambda>ast. gbind (chan_pvt ast) (\<lambda>gsm. f ast gsm)))
      (\<lambda>_. no_call p) d"
    by (simp add: wp_gbind wp_gsm_get_priv wp_chan_pvt)
qed

lemma busy_hang_up_call [kept]: "busy.keep p c a (hang_up_call c a cause)"
  unfolding hang_up_call_def by (rule kept | simp)+

lemma busy_errors [kept]:
  "busy.keep p c a (gsm_handle_cme_error p code)" "busy.keep p c a (gsm_handle_cms_error p code)"
  unfolding gsm_handle_cme_error_def gsm_handle_cms_error_def
  by (rule busy_get_priv, simp only: ptr_def option.case prod.case, (rule kept busy_pvt_get)+)+

lemma idle_errors [kept]:
  "idle.keep p (gsm_handle_cme_error p code)" "idle.keep p (gsm_handle_cms_error p code)"
  unfolding gsm_handle_cme_error_def gsm_handle_cms_error_def
  by (rule idle_get_priv, simp, (rule kept)+)+

lemma busy_ev_cme_error [kept]: "busy.keep p c a (ev_cme_error p line)"
  unfolding ev_cme_error_def by (rule kept)+

lemma idle_ev_errors [kept]: "idle.keep p (ev_cme_error p line)" "idle.keep p (ev_cms_error p line)"
  unfolding ev_cme_error_def ev_cms_error_def by (rule kept)+

lemma busy_in_busy [kept]: "busy.keep p c a (in_busy p (Some c) a)"
  unfolding in_busy_def by (rule busy_pvt_get) (simp only: option.case, (rule kept | simp)+)

lemma busy_in_connected [kept]: "busy.keep p c a (in_connected ast a)"
  unfolding in_connected_def set_call_state_def
  by (rule busy_pvt_get) (simp only:, (rule kept quiet | simp)+)

lemma busy_in_dialing [kept]: "busy.keep p c a (in_dialing ast a)"
  unfolding in_dialing_def set_call_state_def by (rule busy_pvt_get kept | simp)+

lemma busy_in_alerting [kept]: "busy.keep p c a (in_alerting ast a)"
  unfolding in_alerting_def set_call_state_def
  by (rule busy_pvt_get) (simp only:, (rule kept quiet | simp)+)

lemma busy_in_cms_error [kept]: "busy.keep p c a (in_cms_error p line)"
  unfolding in_cms_error_def by (rule kept)+

lemma busy_cb_incall: "busy.keep p c a (cb_incall p (Some c) a ev line)"
  by (cases ev) (simp_all add: cb_incall_def kept)


section \<open>Channels of a port\<close>

lemma lib_ok_ctl_upd:
  assumes "lib_ok p w" "ctl_good p (f (ctlport w ! nat p))" "cp_port (f (ctlport w ! nat p)) = p" "cp_cfg (f (ctlport w ! nat p)) \<noteq> None"
  shows "lib_ok p (w\<lparr>ctlport := (ctlport w)[nat p := f (ctlport w ! nat p)]\<rparr>)"
  using assms port_open_ctl_upd [of p w "f (ctlport w ! nat p)"] by (simp add: lib_ok_def taco_short_def)

lemma lib_ok_in_use: "lib_ok p w \<Longrightarrow> lib_ok p (w\<lparr>ctlport := (ctlport w)[nat p := (ctlport w ! nat p)\<lparr>in_use := u\<rparr>]\<rparr>)"
  using port_open_set_in_use [of p w u] by (simp add: lib_ok_def taco_short_def)

lemma lib_ok_priv:
  assumes "lib_ok p w"
  shows "lib_ok p (w\<lparr>ctlport := (ctlport w)[nat p := (ctlport w ! nat p)\<lparr>cp_priv := q\<rparr>]\<rparr>)"
proof -
  have o: "port_open p w" using assms by (simp add: lib_ok_def)
  have "port_open p (w\<lparr>ctlport := (ctlport w)[nat p := (ctlport w ! nat p)\<lparr>cp_priv := q\<rparr>]\<rparr>)"
  proof (rule port_open_ctl_upd [OF o])
    show "cp_cfg ((ctlport w ! nat p)\<lparr>cp_priv := q\<rparr>) \<noteq> None" using o by (simp add: port_open_def)
  qed (simp_all add: port_open_ctl_good [OF o] port_openD [OF o])
  then show ?thesis using assms by (simp add: lib_ok_def taco_short_def)
qed

lemma wp_put_priv:
  "base p d \<Longrightarrow> wp (on_lib (gsm_put_priv p q)) Q d = Q () (d\<lparr>lib := lib d
     \<lparr>ctlport := (ctlport (lib d))[nat p := (ctlport (lib d) ! nat p)\<lparr>cp_priv := q\<rparr>]\<rparr>\<rparr>)"
  using baseD [of p d] port_openD [of p "lib d"] by (simp add: gsm_put_priv_def wp)

lemma ctl_nth [simp]:
  "base p d \<Longrightarrow> (ctlport (lib d))[nat p := c] ! nat p = c"
  using baseD [of p d] port_openD [of p "lib d"] by simp

lemma starting_pvt_upd [kept]:
  assumes "\<And>g. pv_port (f g) = pv_port g"
  shows "starting.keep p a (pvt_upd a f)"
proof (rule starting.keepI)
  fix d assume "new_call p a d"
  then show "wp (pvt_upd a f) (\<lambda>_. new_call p a) d"
    using heap_fresh_pvts [of d a] heap_fresh_less(1) [of d a] assms by (auto simp: wp new_call_def)
qed

lemma starting_pvt_get:
  assumes "\<And>g. pv_port g = p \<Longrightarrow> starting.keep p a (f g)"
  shows "starting.keep p a (gbind (pvt_get a) f)"
proof (rule starting.keepI)
  fix d assume d: "new_call p a d"
  then obtain g where "pvts d a = Some g" "pv_port g = p" by (auto simp: new_call_def)
  with starting.keepD [OF assms d] show "wp (gbind (pvt_get a) f) (\<lambda>_. new_call p a) d" by (simp add: wp)
qed

lemma starting_port_cfg [kept]: "0 < n \<Longrightarrow> length def < n \<Longrightarrow> starting.keep p a (port_cfg_or def n k p)"
  by (rule starting.keepI) (rule wp_port_cfg_or [OF baseD(13)], simp_all add: new_call_def)

lemma starting_simslot [kept]: "starting.keep p a (on_lib (gsm_simslot_get p))"
  by (rule starting.keepI) (simp add: gsm_simslot_get_def wp)

lemma starting_configure [kept]: "starting.keep p a (configure_gsm par a)"
  unfolding configure_gsm_def
  by (rule starting_pvt_get) (simp only:, (rule starting.keep_gbind kept | simp)+)

text \<open>\<open>gsm_new\<close> gives the port its channel, or, when Asterisk has none, leaves it without one.\<close>

definition has_chan :: "int \<Rightarrow> nat \<Rightarrow> nat option \<Rightarrow> gsm_drv \<Rightarrow> bool" where
  "has_chan p a tmp d \<longleftrightarrow> new_call p a d \<and> (\<forall>c. tmp = Some c \<longrightarrow> c < heap_next d \<and> (\<exists>ch. chans d c = Some ch \<and> ch_tech_pvt ch = Some a))"

interpretation linking: port_state p "has_chan p a tmp" for p a tmp
proof unfold_locales
  fix d d' assume "has_chan p a tmp d" "base p d'" "view p (lib d') = view p (lib d)" "pvts d' = pvts d"
    "chans d' = chans d" "heap_next d' = heap_next d" "shown d' = shown d"
  then show "has_chan p a tmp d'"
    using starting.I_frame [of p a d d'] by (simp add: has_chan_def)
qed (simp add: has_chan_def new_call_def)

lemma linking_pvt_upd [kept]:
  assumes "\<And>g. pv_port (f g) = pv_port g"
  shows "linking.keep p a tmp (pvt_upd a f)"
proof (rule linking.keepI)
  fix d assume d: "has_chan p a tmp d"
  then have "wp (pvt_upd a f) (\<lambda>_. new_call p a) d"
    using starting.keepD [OF starting_pvt_upd [OF assms]] by (simp add: has_chan_def)
  then show "wp (pvt_upd a f) (\<lambda>_. has_chan p a tmp) d"
    using d by (auto simp: wp has_chan_def)
qed

lemma linking_chan_upd [kept]:
  assumes "\<And>ch. ch_tech_pvt (f ch) = ch_tech_pvt ch"
  shows "linking.keep p a (Some c) (chan_upd c f)"
proof (rule linking.keepI)
  fix d assume "has_chan p a (Some c) d"
  then show "wp (chan_upd c f) (\<lambda>_. has_chan p a (Some c)) d"
    using heap_fresh_chans [of d c] assms by (auto simp: wp has_chan_def new_call_def)
qed

lemma has_chan_alloc:
  assumes "new_call p a d" "ch_tech_pvt ch = Some a"
  shows "wp (chan_alloc ch) (\<lambda>tmp. has_chan p a tmp) d"
  using assms by (auto simp: wp Let_def has_chan_def new_call_def heap_fresh_def)

text \<open>The state after the channel was created: the port has it, or no call.\<close>

definition opened_as :: "int \<Rightarrow> nat \<Rightarrow> nat option \<Rightarrow> gsm_drv \<Rightarrow> bool" where
  "opened_as p a tmp d \<longleftrightarrow> (case tmp of None \<Rightarrow> no_call p d | Some c \<Rightarrow> on_call p c a d)"

lemma opened_as_inv: "opened_as p a tmp d \<Longrightarrow> port_inv p d"
  by (auto simp: port_inv_def opened_as_def split: option.splits)

lemma has_chan_open:
  assumes "has_chan p a tmp d" "\<And>g. pv_port (f g) = pv_port g"
  shows "wp (gthen (on_lib (gsm_put_priv p tmp)) (pvt_upd a f)) (\<lambda>_. opened_as p a tmp) d"
proof -
  have b: "base p d" and f: "heap_fresh d" using assms by (simp_all add: has_chan_def new_call_def)
  obtain g where g: "pvts d a = Some g" "pv_port g = p" using assms(1) by (auto simp: has_chan_def new_call_def)
  let ?w = "lib d\<lparr>ctlport := (ctlport (lib d))[nat p := (ctlport (lib d) ! nat p)\<lparr>cp_priv := tmp\<rparr>]\<rparr>"
  let ?d = "d\<lparr>lib := ?w, pvts := (pvts d)(a \<mapsto> f g)\<rparr>"
  have "base p (d\<lparr>lib := ?w\<rparr>)" by (rule base_lib [OF b lib_ok_priv [OF baseD(1) [OF b]]])
  then have 1: "base p ?d" by simp
  have "priv p ?d = tmp" "in_use (ctlport ?w ! nat p) = in_use (ctlport (lib d) ! nat p)"
    using b by (simp_all add: priv_def)
  moreover have "heap_fresh ?d" using f heap_fresh_less(1) [OF f g(1)] by (auto simp: heap_fresh_def)
  ultimately have "opened_as p a tmp ?d"
    using 1 assms g by (auto simp: opened_as_def no_call_def on_call_def has_chan_def new_call_def split: option.split)
  then show ?thesis by (simp add: wp_gthen wp_put_priv [OF b] wp_pvt_upd g)
qed

lemma gsm_new_opens:
  assumes "new_call p a d"
  shows "wp (gsm_new par a exten cid) (\<lambda>tmp. opened_as p a tmp) d"
proof -
  obtain g where g: "pvts d a = Some g" "pv_port g = p" using assms by (auto simp: new_call_def)
  have last: "wp (gthen (on_lib (gsm_put_priv p tmp)) (gthen (pvt_upd a f) (ret tmp))) (\<lambda>tmp. opened_as p a tmp) d"
    if "has_chan p a tmp d" "\<And>g. pv_port (f g) = pv_port g" for tmp d f
    using has_chan_open [OF that] by (simp add: wp)
  have dsp: "linking.keep p a tmp (if r < 0 then pvt_upd a (\<lambda>g. g\<lparr>pv_dsp := None\<rparr>)
      else gbind (gsm_config_get_bool par SECT_GENERAL (cfg_gen_id CFG_GEN_RELAXDTMF)) (\<lambda>relax.
        pvt_upd a (\<lambda>g. g\<lparr>pv_dsp := Some (relax \<noteq> 0)\<rparr>)))" for tmp and r :: int
    by (rule kept linking.keep_gbind | simp)+
  have audio: "linking.keep p a tmp (case tmp of None \<Rightarrow> ret ()
      | Some c \<Rightarrow> gbind (on_lib (gsm_audio_open p)) (\<lambda>fd. gthen (pvt_upd a (\<lambda>g. g\<lparr>pv_portfd := fd\<rparr>))
          (if fd \<ge> 0 then chan_upd c (\<lambda>ch. ch\<lparr>ch_fd := Some fd\<rparr>) else ret ())))" for tmp
    by (cases tmp) (auto intro!: kept quiet linking.keep_gbind)
  show ?thesis
    unfolding gsm_new_def wp_gbind wp_gthen wp_pvt_get
    apply (intro exI [of _ g] conjI g(1))
    apply (rule wp_mono [OF has_chan_alloc [OF assms]])
     apply simp
    apply (simp only: g(2))
    apply (rule wp_mono [OF linking.keepD [OF audio]], assumption)
    apply (rule wp_mono [OF linking.keepD [OF linking_pvt_upd]], simp, assumption)
    apply (rule wp_mono [OF linking.keepD [OF linking.keep_answer]], assumption)
    apply (rule wp_mono [OF linking.keepD [OF dsp]], assumption)
    apply (rule wp_mono [OF linking.keepD [OF linking.keep_answer]], assumption)
    apply (rule wp_mono [OF linking.keepD [OF linking_pvt_upd]], simp, assumption)
    subgoal for tmp using last [of tmp] by (simp add: wp)
    done
qed


section \<open>Lines of the module keep the invariant\<close>

lemma wp_port_fetch:
  "base p d \<Longrightarrow> wp (on_lib (gsm_port_fetch p)) Q d =
     (if in_use (ctlport (lib d) ! nat p) = 0
      then Q 1 (d\<lparr>lib := lib d\<lparr>ctlport := (ctlport (lib d))[nat p := (ctlport (lib d) ! nat p)\<lparr>in_use := 1\<rparr>]\<rparr>\<rparr>)
      else Q 0 d)"
  using baseD(2) [of p d] by (simp add: wp_on_lib wp_gsm_port_fetch)

text \<open>A reserved port without a call.\<close>

definition reserved :: "int \<Rightarrow> gsm_drv \<Rightarrow> bool" where
  "reserved p d \<longleftrightarrow> no_call p d \<and> in_use (ctlport (lib d) ! nat p) \<noteq> 0"

lemma fetch_reserves:
  assumes "no_call p d"
  shows "wp (on_lib (gsm_port_fetch p)) (\<lambda>r d'. no_call p d' \<and> (r \<noteq> 0 \<longrightarrow> reserved p d')) d"
proof -
  have b: "base p d" using assms by (simp add: no_call_def)
  let ?d = "d\<lparr>lib := lib d\<lparr>ctlport := (ctlport (lib d))[nat p := (ctlport (lib d) ! nat p)\<lparr>in_use := 1\<rparr>]\<rparr>\<rparr>"
  have "base p ?d" by (rule base_lib [OF b lib_ok_in_use [OF baseD(1) [OF b]]])
  moreover have "priv p ?d = None" "heap_fresh ?d" using assms b by (simp_all add: no_call_def priv_def heap_fresh_def)
  ultimately show ?thesis
    using assms b by (simp add: wp_port_fetch no_call_def reserved_def)
qed

lemma alloc_starts:
  assumes "reserved p d" "pv_port g = p"
  shows "wp (pvt_alloc g) (\<lambda>x d'. case x of None \<Rightarrow> no_call p d' | Some a \<Rightarrow> new_call p a d') d"
  using assms by (auto simp: wp Let_def reserved_def no_call_def new_call_def heap_fresh_def)

lemma opened_as_trace: "opened_as p a tmp d \<Longrightarrow> opened_as p a tmp (d\<lparr>ast_trace := t\<rparr>)"
  by (auto simp: opened_as_def no_call_def on_call_def heap_fresh_def split: option.splits)

lemma ring_call_inv:
  assumes "new_call p a d"
  shows "wp (ring_call par p a) (\<lambda>_. port_inv p) d"
proof -
  have e: "wp (gbind (gsm_new par a x y) (\<lambda>chan. gthen (effect (Pbx_start chan)) (ret (Ring_call a)))) (\<lambda>_. port_inv p) d"
    if d: "new_call p a d" for x y d
    unfolding wp_gbind
    by (rule wp_mono [OF gsm_new_opens [OF d]]) (auto simp: wp intro: opened_as_inv opened_as_trace)
  show ?thesis
    unfolding ring_call_def wp_gthen [of "configure_gsm par a"]
  proof (rule wp_mono [OF starting.keepD [OF starting_configure assms]])
    fix x d' assume d': "new_call p a d'"
    then have "\<exists>g. pvts d' a = Some g" by (auto simp: new_call_def)
    then show "wp (gbind (caller_number par p) (\<lambda>cid. gbind (pvt_get a) (\<lambda>g. gbind (gsm_new par a (Some (pv_exten g)) (Some cid))
        (\<lambda>chan. gthen (effect (Pbx_start chan)) (ret (Ring_call a)))))) (\<lambda>_. port_inv p) d'"
      unfolding wp_gbind [of "caller_number par p"]
      by (intro starting.caller_number_keeps [OF d']) (auto simp: wp_gbind [of "pvt_get a"] wp_pvt_get e [OF d'])
  qed
qed

lemma ring_alloc_inv: "reserved p d \<Longrightarrow> wp (ring_alloc par p) (\<lambda>_. port_inv p) d"
  unfolding ring_alloc_def wp_gbind
  by (rule wp_mono [OF alloc_starts]) (auto simp: wp_ret port_inv_def [of p] split: option.splits intro: ring_call_inv)

lemma ring_fetch_inv:
  assumes "no_call p d"
  shows "wp (ring_fetch par p) (\<lambda>_. port_inv p) d"
  unfolding ring_fetch_def wp_gbind
proof (rule wp_mono [OF fetch_reserves [OF assms]], goal_cases)
  case (1 r d')
  have "idle.keep p (gthen (on_lib (gsm_send p ''ATH'')) (ret Ring_break))" by (rule kept | simp)+
  then show ?case using 1 by (auto simp: port_inv_def ring_alloc_inv intro: wp_mono [OF idle.keepD])
qed

lemma ev_ring_inv:
  assumes "no_call p d"
  shows "wp (ev_ring par p) (\<lambda>_. port_inv p) d"
proof -
  have upd: "idle.keep p (slcc_upd p (\<lambda>s. s\<lparr>slcc_ringing := 1\<rparr>))" "idle.keep p (slcc_upd p (\<lambda>s. s\<lparr>slcc_ringcount := 0\<rparr>))"
    "idle.keep p (gthen (slcc_upd p (\<lambda>s. s\<lparr>slcc_ringcount := slcc_ringcount s + 1\<rparr>)) (ret Ring_return))"
    by (rule kept | simp)+
  show ?thesis
    unfolding ev_ring_def wp_gthen [of "slcc_upd p (\<lambda>s. s\<lparr>slcc_ringing := 1\<rparr>)"]
  proof (rule wp_mono [OF idle.keepD [OF upd(1) assms]], goal_cases)
    case (1 x d')
    then show ?case
      using baseD [OF idle.I_base [OF 1]] wp_mono [OF idle.keepD [OF upd(2) 1] ring_fetch_inv]
        wp_mono [OF idle.keepD [OF upd(3) 1], of "\<lambda>_. port_inv p"]
      unfolding wp_gbind [of "slcc_get p"] wp_slcc_get
      by (auto simp: port_inv_def wp_gthen)
  qed
qed

lemma idle_plain: "idle.keep p m \<Longrightarrow> no_call p d \<Longrightarrow> wp (plain m) (\<lambda>r d. r = Ring_break \<and> no_call p d) d"
  unfolding plain_def wp_gthen wp_fun by (rule wp_mono [OF idle.keepD]) simp_all

text \<open>Without a call only a ring can give the port one.\<close>

lemma cb_precall_inv:
  assumes "no_call p d" "line_shape line"
  shows "wp (cb_precall par p (parse_events line) line)
    (\<lambda>r d'. port_inv p d' \<and> (parse_events line \<noteq> GSM_EVENT_RING \<longrightarrow> r = Ring_break \<and> no_call p d')) d"
proof (cases "parse_events line = GSM_EVENT_RING")
  case True
  then show ?thesis using ev_ring_inv [OF assms(1)] by (simp add: cb_precall_def)
next
  case False
  have csq: "idle.keep p (case after CHR '':'' line of Some t \<Rightarrow> status_upd p (\<lambda>s. s\<lparr>st_rssi := strtol t\<rparr>) | None \<Rightarrow> ret ())"
    by (rule kept)+
  have "wp (cb_precall par p (parse_events line) line) (\<lambda>r d. r = Ring_break \<and> no_call p d) d"
    using False assms
    by (cases "parse_events line")
       (auto simp: cb_precall_def line_shape_def wp_ret csq kept
         intro!: idle_plain idle.keep_ev_cops idle.keep_ev_clip idle.keep_slcc_upd)
  then show ?thesis by (rule wp_mono) (auto simp: port_inv_def False)
qed

context port_state
begin

lemma line_then:
  assumes "I d" "line_fits p line d" "\<And>d. I d \<Longrightarrow> wp n Q d"
  shows "wp (gthen (if parse_events line = GSM_EVENT_NONE then on_lib (gsm_handle_unknown_event p line) else ret ())
     (if parse_events line = GSM_EVENT_MODEM_CHECK_ERROR then r
      else gbind (sms_get p) (\<lambda>x. gthen (if sms_state x \<noteq> GSM_SMS_STATE_NONE
        then cb_sms p (parse_events line) line else ret ()) n))) Q d"
proof -
  have m: "parse_events line \<noteq> GSM_EVENT_MODEM_CHECK_ERROR"
    using assms(2) by (auto simp: line_fits_def line_shape_def)
  have sms: "wp (gbind (sms_get p) (\<lambda>x. gthen (if sms_state x \<noteq> GSM_SMS_STATE_NONE
      then cb_sms p (parse_events line) line else ret ()) n)) Q d" if d: "I d" "line_fits p line d" for d
    using wp_mono [OF cb_sms_keeps [OF d], of "\<lambda>_. wp n Q"] assms(3) baseD [OF I_base [OF d(1)]] d(1)
    by (simp add: wp)
  have lib: "line_fits p line (d\<lparr>lib := w\<rparr>) = line_fits p line d" for w
    by (simp add: line_fits_def)
  show ?thesis
  proof (cases "parse_events line = GSM_EVENT_NONE")
    case True
    have "quiet p (gsm_handle_unknown_event p line)" by (rule quiet)
    then have "wp (on_lib (gsm_handle_unknown_event p line)) (\<lambda>_ d'. I d' \<and> line_fits p line d') d"
      by (rule quiet_wp [OF _ baseD(1) [OF I_base [OF assms(1)]]])
         (use assms(2) lib in \<open>auto intro!: I_frame [OF assms(1)] base_lib I_base [OF assms(1)]\<close>)
    then show ?thesis
      using True m unfolding wp_gthen by (auto intro!: sms elim: wp_mono)
  next
    case False
    then show ?thesis using m sms [OF assms(1,2)] by (simp only: wp_gthen wp_ret if_False)
  qed
qed

end

lemma wp_cb_events_idle:
  assumes "no_call p d"
  shows "wp (cb_events par p line) Q d = (if line = [] then Q () d else wp (gthen
      (if parse_events line = GSM_EVENT_NONE then on_lib (gsm_handle_unknown_event p line) else ret ())
      (if parse_events line = GSM_EVENT_MODEM_CHECK_ERROR then ev_modem_check par p None None
       else gbind (sms_get p) (\<lambda>x. gthen (if sms_state x \<noteq> GSM_SMS_STATE_NONE
         then cb_sms p (parse_events line) line else ret ())
         (gbind (cb_precall par p (parse_events line) line) (\<lambda>r. case r of
            Ring_call a \<Rightarrow> cb_incall p None a (parse_events line) line | _ \<Rightarrow> ret ()))))) Q d)"
  using assms
  by (simp only: cb_events_def no_call_def wp_gbind [of "on_lib (gsm_get_priv p)"] wp_gbind [of "chan_pvt None"]
      wp_gsm_get_priv wp_chan_pvt Let_def wp_if wp_ret option.case)

lemma cb_events_idle:
  assumes "no_call p d" "line_fits p line d"
  shows "wp (cb_events par p line) (\<lambda>_ d'. port_inv p d' \<and> (parse_events line \<noteq> GSM_EVENT_RING \<longrightarrow> no_call p d')) d"
    (is "wp _ ?Q d")
proof (cases "line = []")
  case False
  have "line_shape line" using assms(2) by (simp add: line_fits_def)
  then have n: "wp (gbind (cb_precall par p (parse_events line) line) (\<lambda>r. case r of
      Ring_call a \<Rightarrow> cb_incall p None a (parse_events line) line | _ \<Rightarrow> ret ())) ?Q d" if "no_call p d" for d
    unfolding wp_gbind
    by (rule wp_mono [OF cb_precall_inv [OF that]])
       (auto simp: wp_ret cb_incall_def split: ring_outcome.split)
  show ?thesis
    unfolding wp_cb_events_idle [OF assms(1)] if_not_P [OF False] by (rule idle.line_then [OF assms n])
qed (use assms(1) in \<open>simp add: wp_cb_events_idle port_inv_def\<close>)

lemma wp_cb_events_busy:
  assumes "on_call p c a d"
  shows "wp (cb_events par p line) Q d = (if line = [] then Q () d else wp (gthen
      (if parse_events line = GSM_EVENT_NONE then on_lib (gsm_handle_unknown_event p line) else ret ())
      (if parse_events line = GSM_EVENT_MODEM_CHECK_ERROR then ev_modem_check par p (Some c) (Some a)
       else gbind (sms_get p) (\<lambda>x. gthen (if sms_state x \<noteq> GSM_SMS_STATE_NONE
         then cb_sms p (parse_events line) line else ret ())
         (cb_incall p (Some c) a (parse_events line) line)))) Q d)"
proof -
  obtain ch where "base p d" "priv p d = Some c" "chans d c = Some ch" "ch_tech_pvt ch = Some a"
    using assms by (rule on_callE)
  then show ?thesis
    by (simp only: cb_events_def wp_gbind [of "on_lib (gsm_get_priv p)"] wp_gbind [of "chan_pvt (Some c)"]
        wp_gsm_get_priv wp_chan_pvt Let_def wp_if wp_ret option.case)
qed

lemma cb_events_busy:
  assumes "on_call p c a d" "line_fits p line d"
  shows "wp (cb_events par p line) (\<lambda>_. on_call p c a) d"
proof (cases "line = []")
  case False
  show ?thesis
    unfolding wp_cb_events_busy [OF assms(1)] if_not_P [OF False]
    by (rule busy.line_then [OF assms busy.keepD [OF busy_cb_incall]])
qed (simp add: wp_cb_events_busy [OF assms(1)] assms(1))

lemma cb_events_inv:
  assumes "port_inv p d" "line_fits p line d"
  shows "wp (cb_events par p line) (\<lambda>_. port_inv p) d"
proof -
  consider "no_call p d" | c a where "on_call p c a d" using assms(1) by (auto simp: port_inv_def)
  then show ?thesis
  proof cases
    case 1
    show ?thesis by (rule wp_mono [OF cb_events_idle [OF 1 assms(2)]]) simp
  next
    case 2
    show ?thesis by (rule wp_mono [OF cb_events_busy [OF 2 assms(2)]]) (auto simp: port_inv_def)
  qed
qed


section \<open>Methods of a channel keep the invariant\<close>

text \<open>A call that is hung up: the port no longer has its channel.\<close>

definition ending :: "int \<Rightarrow> nat \<Rightarrow> nat \<Rightarrow> gsm_drv \<Rightarrow> bool" where
  "ending p c a d \<longleftrightarrow> base p d \<and> heap_fresh d \<and> priv p d = None \<and>
     (\<exists>ch. chans d c = Some ch \<and> ch_tech_pvt ch = Some a) \<and> (\<exists>g. pvts d a = Some g)"

interpretation hanging: port_state p "ending p c a" for p c a
proof unfold_locales
  fix d d' assume "ending p c a d" "base p d'" "view p (lib d') = view p (lib d)" "pvts d' = pvts d"
    "chans d' = chans d" "heap_next d' = heap_next d" "shown d' = shown d"
  then show "ending p c a d'"
    using heap_fresh_frame [of d' d] view_priv [of p "lib d'" "lib d"] by (simp add: ending_def priv_def)
qed (simp add: ending_def)

lemma put_priv_ends:
  assumes "on_call p c a d"
  shows "wp (on_lib (gsm_put_priv p None)) (\<lambda>_. ending p c a) d"
proof -
  have b: "base p d" using assms by (simp add: on_call_def)
  let ?w = "lib d\<lparr>ctlport := (ctlport (lib d))[nat p := (ctlport (lib d) ! nat p)\<lparr>cp_priv := None\<rparr>]\<rparr>"
  have "base p (d\<lparr>lib := ?w\<rparr>)" by (rule base_lib [OF b lib_ok_priv [OF baseD(1) [OF b]]])
  then show ?thesis
    using assms b by (auto simp: wp_put_priv ending_def on_call_def priv_def heap_fresh_def)
qed

lemma free_ends:
  assumes "ending p c a d"
  shows "wp (gthen (pvt_free a) (chan_upd c (\<lambda>ch. ch\<lparr>ch_tech_pvt := None\<rparr>))) (\<lambda>_. no_call p) d"
  using assms heap_fresh_less(2) [of d c] by (auto simp: wp ending_def no_call_def heap_fresh_def)

lemma base_slcc_any:
  assumes "base p d" "slcc_fine (f (gsm_slcc d ! nat p))"
  shows "base p (d\<lparr>gsm_slcc := (gsm_slcc d)[nat i := f (gsm_slcc d ! nat i)]\<rparr>)"
  using assms baseD(6,9) [of p d] by (cases "nat i = nat p") (simp_all add: base_def nth_list_update)

lemma idle_set_channel_state [kept]: "idle.keep p (gsm_set_channel_state i s)"
proof (rule idle.keepI)
  fix d assume d: "no_call p d"
  have b: "base p d" using d by (simp add: no_call_def)
  have "no_call p (d\<lparr>gsm_slcc := (gsm_slcc d)[nat i := (gsm_slcc d ! nat i)\<lparr>slcc_channel_state := s\<rparr>]\<rparr>)"
    by (rule idle.I_frame [OF d base_slcc_any [OF b]]) (use baseD(12) [OF b] in simp_all)
  then show "wp (gsm_set_channel_state i s) (\<lambda>_. no_call p) d"
    using d baseD(9) [OF b] by (simp add: gsm_set_channel_state_def wp MAX_GSM_PORTS_def)
qed

lemma idle_release:
  assumes "no_call p d"
  shows "wp (on_lib (gsm_port_release p)) (\<lambda>_ d'. no_call p d' \<and> in_use (ctlport (lib d') ! nat p) = 0) d"
proof -
  have b: "base p d" using assms by (simp add: no_call_def)
  let ?w = "lib d\<lparr>ctlport := (ctlport (lib d))[nat p := (ctlport (lib d) ! nat p)\<lparr>in_use := 0\<rparr>]\<rparr>"
  have "base p (d\<lparr>lib := ?w\<rparr>)" by (rule base_lib [OF b lib_ok_in_use [OF baseD(1) [OF b]]])
  then show ?thesis
    using assms b by (simp add: wp_on_lib wp_gsm_port_release [OF baseD(2)] no_call_def priv_def heap_fresh_def)
qed

text \<open>The same, with the port free.\<close>

definition free_port :: "int \<Rightarrow> gsm_drv \<Rightarrow> bool" where
  "free_port p d \<longleftrightarrow> no_call p d \<and> in_use (ctlport (lib d) ! nat p) = 0"

interpretation free: port_state p "free_port p" for p
proof unfold_locales
  fix d d' assume "free_port p d" "base p d'" "view p (lib d') = view p (lib d)" "pvts d' = pvts d"
    "chans d' = chans d" "heap_next d' = heap_next d" "shown d' = shown d"
  then show "free_port p d'"
    using idle.I_frame [of p d d'] view_priv [of p "lib d'" "lib d"] by (simp add: free_port_def)
qed (simp add: free_port_def no_call_def)

lemma free_set_channel_state [kept]: "free.keep p (gsm_set_channel_state i s)"
proof (rule free.keepI)
  fix d assume d: "free_port p d"
  then have "wp (gsm_set_channel_state i s) (\<lambda>_. no_call p) d"
    using idle.keepD [OF idle_set_channel_state] by (simp add: free_port_def)
  then show "wp (gsm_set_channel_state i s) (\<lambda>_. free_port p) d"
    using d by (auto simp: gsm_set_channel_state_def wp free_port_def split: if_splits)
qed

text \<open>The rest of a statement on the channel of a call, with what reading the pointers gives.\<close>

lemma call_triple:
  assumes "\<And>g. pv_port g = p \<Longrightarrow> triple (on_call p c a) (f a g) J"
  shows "triple (on_call p c a) (gbind (chan_get c) (\<lambda>ch. ptr (ch_tech_pvt ch) (\<lambda>a. gbind (pvt_get a) (f a)))) J"
proof (rule tripleI)
  fix d assume d: "on_call p c a d"
  then obtain ch g where "chans d c = Some ch" "ch_tech_pvt ch = Some a" "pvts d a = Some g" "pv_port g = p"
    by (rule on_callE)
  with tripleD [OF assms d, of g]
  show "wp (gbind (chan_get c) (\<lambda>ch. ptr (ch_tech_pvt ch) (\<lambda>a. gbind (pvt_get a) (f a)))) (\<lambda>_. J) d"
    by (simp add: wp_gbind wp_channel_get wp_ptr wp_pvt_get)
qed

lemma hangup_ends: "triple (ending p c a) (gthen (pvt_free a) (gthen (chan_upd c (\<lambda>ch. ch\<lparr>ch_tech_pvt := None\<rparr>)) m)) J"
  if "triple (no_call p) m J"
proof (rule tripleI)
  fix d assume "ending p c a d"
  then have "wp (gthen (pvt_free a) (chan_upd c (\<lambda>ch. ch\<lparr>ch_tech_pvt := None\<rparr>))) (\<lambda>_. wp m (\<lambda>_. J)) d"
    by (rule wp_mono [OF free_ends]) (rule tripleD [OF that])
  then show "wp (gthen (pvt_free a) (gthen (chan_upd c (\<lambda>ch. ch\<lparr>ch_tech_pvt := None\<rparr>)) m)) (\<lambda>_. J) d"
    by (simp add: wp_gthen wp_fun)
qed

lemma gsm_hangup_frees: "triple (on_call p c a) (gsm_hangup c) (free_port p)"
proof -
  have ends: "triple (on_call p c a) (on_lib (gsm_put_priv p None)) (ending p c a)"
    by (rule tripleI) (rule put_priv_ends)
  have ath: "hanging.keep p c a (if s \<noteq> GSM_STATE_COLLISION then gthen (on_lib (gsm_send p ''ATH'')) (ret ()) else ret ())"
    "hanging.keep p c a (on_lib (gsm_audio_stop p))" "hanging.keep p c a (on_lib (gsm_audio_close p))" for s
    by (rule kept quiet | simp)+
  have slcc: "idle.keep p (slcc_upd p (\<lambda>_. slcc_zero))" by (rule kept) simp
  have release: "triple (no_call p) (on_lib (gsm_port_release p)) (free_port p)"
    using idle_release by (simp add: triple_def free_port_def [abs_def])
  have tail: "free.keep p (gthen (gsm_set_channel_state q CHANNEL_STATE_READY)
      (gthen (gsm_send_channel_state p CHANNEL_STATE_READY) (ret 0)))" for q
    by (rule kept)+
  show ?thesis
    unfolding gsm_hangup_def
    by (rule call_triple, simp only:)
       (rule triple_gthen [OF ends] triple_gthen [OF ath(1) [unfolded hanging.keep_def]]
         triple_gthen [OF ath(2) [unfolded hanging.keep_def]] triple_gthen [OF ath(3) [unfolded hanging.keep_def]]
         hangup_ends triple_gthen [OF slcc [unfolded idle.keep_def]] triple_gthen [OF release]
         triple_gets tail [unfolded free.keep_def])+
qed

lemma busy_tech_pvt:
  assumes "\<And>g. pv_port g = p \<Longrightarrow> busy.keep p c a (f g)"
  shows "busy.keep p c a (gbind (chan_get c) (\<lambda>ch. case ch_tech_pvt ch of None \<Rightarrow> m | Some a \<Rightarrow> gbind (pvt_get a) f))"
proof (rule busy.keepI)
  fix d assume d: "on_call p c a d"
  then obtain ch g where "chans d c = Some ch" "ch_tech_pvt ch = Some a" "pvts d a = Some g" "pv_port g = p"
    by (rule on_callE)
  with busy.keepD [OF assms d, of g]
  show "wp (gbind (chan_get c) (\<lambda>ch. case ch_tech_pvt ch of None \<Rightarrow> m | Some a \<Rightarrow> gbind (pvt_get a) f)) (\<lambda>_. on_call p c a) d"
    by (simp add: wp_gbind wp_channel_get wp_pvt_get)
qed

lemma busy_send_dtmf [kept]: "busy.keep p c a (send_dtmf c digit)"
  unfolding send_dtmf_def
  by (rule busy_tech_pvt) (simp only:, (rule busy.keep_fits busy.keep_send kept | simp)+)

lemma busy_digits [kept]: "busy.keep p c a (gsm_digit_begin par c digit)" "busy.keep p c a (gsm_digit_end par c digit)"
  unfolding gsm_digit_begin_def gsm_digit_end_def by (rule busy.keep_gbind kept)+

text \<open>A number that can be dialled.\<close>

definition dial_fits :: "string \<Rightarrow> bool" where
  "dial_fits dest \<longleftrightarrow> (case dial_number dest of None \<Rightarrow> False | Some dad \<Rightarrow> length dad \<le> 119)"

lemma busy_gsm_call:
  assumes "dial_fits dest"
  shows "busy.keep p c a (gsm_call c dest)"
proof -
  obtain dad where dad: "dial_number dest = Some dad" "length dad \<le> 119"
    using assms by (auto simp: dial_fits_def split: option.splits)
  have f: "busy.keep p c a (gbind (fits 128 ((if pv_hidecallerid g \<noteq> 0 then ''ATD#31#'' else ''ATD'') @ dad @ '';'')) (\<lambda>dialstring.
         gbind (slcc_get (pv_port g)) (\<lambda>s. if slcc_ringing s = 0
           then gthen (on_lib (gsm_send (pv_port g) dialstring))
               (gthen (pvt_upd a (\<lambda>g. g\<lparr>pv_state := GSM_STATE_ATD_OUT\<rparr>)) (ret 0))
           else ret (- 1))))" if "pv_port g = p" for g
    using dad(2) by (simp only: that) (rule busy.keep_fits busy.keep_slcc_get kept | simp)+
  show ?thesis
  proof (rule busy.keepI)
    fix d assume d: "on_call p c a d"
    then obtain ch g where "chans d c = Some ch" "ch_tech_pvt ch = Some a" "pvts d a = Some g" "pv_port g = p"
      by (rule on_callE)
    with busy.keepD [OF f d, of g] dad(1) show "wp (gsm_call c dest) (\<lambda>_. on_call p c a) d"
      by (simp add: gsm_call_def wp_gbind [of "chan_get c"] wp_channel_get wp_gbind [of "pvt_get a"] wp_pvt_get wp_ptr)
  qed
qed

lemma gsm_answer_keeps: "triple (on_call p c a) (gsm_answer c) (on_call p c a)"
  unfolding gsm_answer_def
  by (rule call_triple, unfold busy.keep_def [symmetric], simp only:) (rule kept | simp)+

text \<open>The periodic tasks.\<close>

lemma port_setting_up_idle: "no_call p d \<Longrightarrow> wp (port_setting_up p) (\<lambda>b d'. d' = d) d"
  by (simp add: port_setting_up_def no_call_def wp_gbind wp_gsm_get_priv wp_chan_pvt wp_ret)

lemma port_setting_up_busy: "on_call p c a d \<Longrightarrow> wp (port_setting_up p) (\<lambda>b d'. d' = d) d"
  by (auto elim!: on_callE simp: port_setting_up_def wp_gbind wp_gsm_get_priv wp_chan_pvt wp_ret wp_pvt_get)

locale call_state = port_state +
  assumes setting_up: "I d \<Longrightarrow> wp (port_setting_up p) (\<lambda>b d'. d' = d) d"
begin

lemma keep_setting_up [kept]: "keep (port_setting_up p)"
  by (rule keepI) (rule wp_mono [OF setting_up], assumption, simp)

lemma keep_sender [kept]: "keep (gsm_sms_sender_port p)"
proof -
  have s: "msg_fine m \<Longrightarrow> keep (gthen (sms_upd p (\<lambda>x. x\<lparr>outbound_msg := m\<rparr>))
      (gthen (gsm_send_sms p (msg_number m) (msg_text m)) (ret ())))" for m
    by (intro kept keep_gsm_send_sms) (simp_all add: msg_fine_def)
  have r: "keep (gbind (sms_msgrcv q) (\<lambda>r. case r of
      Some m \<Rightarrow> gthen (sms_upd p (\<lambda>x. x\<lparr>outbound_msg := m\<rparr>)) (gthen (gsm_send_sms p (msg_number m) (msg_text m)) (ret ()))
    | None \<Rightarrow> ret ()))" for q
    by (rule keep_sms_msgrcv) (simp_all add: s keep_ret)
  show ?thesis
    unfolding gsm_sms_sender_port_def
    by (rule r keep_gbind [OF keep_status_get] keep_sms_get keep_slcc_get kept keep_gbind [OF keep_setting_up])+
qed

lemma keep_query [kept]: "keep (gsm_query_call_port p)"
proof (rule keepI)
  fix d assume d: "I d"
  have "keep (gbind (status_get p) (\<lambda>st. if st_status st = GSM_STATUS_REGISTERED
      then gbind (port_setting_up p) (\<lambda>b. if b then gthen (on_lib (gsm_send p ''AT+CLCC'')) (ret ()) else ret ()) else ret ()))"
    by (rule keep_gbind [OF keep_status_get] kept keep_gbind [OF keep_setting_up] | simp)+
  from keepD [OF this d] show "wp (gsm_query_call_port p) (\<lambda>_. I) d"
    using baseD(2) [OF I_base [OF d]] by (simp add: gsm_query_call_port_def wp_gbind [of "on_lib (gsm_port_is_valid p)"] wp_on_lib)
qed

end

interpretation idle_call: call_state p "no_call p" for p
  by unfold_locales (rule port_setting_up_idle)

interpretation busy_call: call_state p "on_call p c a" for p c a
  by unfold_locales (rule port_setting_up_busy)

text \<open>The request of a channel on a port by its number.\<close>

definition names_port :: "int \<Rightarrow> string \<Rightarrow> bool" where
  "names_port p dat \<longleftrightarrow> (let s = the (fst (strsep ''/'' (Some (ast_copy_string 127 dat)))) in take 2 s \<noteq> ''g:'' \<and> strtol s = p)"

lemma check_and_fetch_inv:
  assumes "port_inv p d"
  shows "wp (check_and_fetch_port p) (\<lambda>r d'. port_inv p d' \<and> (r = 0 \<or> r = - 1) \<and> (r = 0 \<longrightarrow> reserved p d')) d"
proof -
  have b: "base p d" using assms by (auto simp: port_inv_def no_call_def on_call_def)
  have f: "wp (on_lib (gsm_port_fetch p)) (\<lambda>r d'. port_inv p d' \<and> (r \<noteq> 0 \<longrightarrow> reserved p d')) d"
  proof (cases "no_call p d")
    case True
    show ?thesis by (rule wp_mono [OF fetch_reserves [OF True]]) (auto simp: port_inv_def)
  next
    case False
    then have "in_use (ctlport (lib d) ! nat p) \<noteq> 0" using assms by (auto simp: port_inv_def on_call_def)
    then show ?thesis using assms b by (simp add: wp_port_fetch)
  qed
  have "wp (on_lib (gsm_port_fetch p)) (\<lambda>r. wp (ret (if r = 0 then - 1 else 0 :: int))
      (\<lambda>r d'. port_inv p d' \<and> (r = 0 \<or> r = - 1) \<and> (r = 0 \<longrightarrow> reserved p d'))) d"
    by (rule wp_mono [OF f]) (auto simp: wp_ret)
  then show ?thesis
    using baseD [OF b] assms
    by (simp add: check_and_fetch_port_def wp_gbind wp_status_get wp_ret wp_if wp_on_lib [of "gsm_port_is_valid p"])
qed

lemma request_call_inv:
  assumes "reserved p d"
  shows "wp (request_call par ext p) (\<lambda>_. port_inv p) d"
proof -
  have call: "wp (gthen (configure_gsm par a) (gthen (gsm_set_channel_state p CHANNEL_STATE_IN_USE)
      (gthen (gsm_send_channel_state p CHANNEL_STATE_IN_USE) (gsm_new par a ext None)))) (\<lambda>_. port_inv p) d"
    if "new_call p a d" for a d
  proof -
    have "starting.keep p a (gthen (configure_gsm par a) (gthen (gsm_set_channel_state p CHANNEL_STATE_IN_USE)
      (gsm_send_channel_state p CHANNEL_STATE_IN_USE)))" by (rule kept)+
    from starting.keepD [OF this that] show ?thesis
      unfolding wp_gthen wp_fun
      by (elim wp_mono) (rule wp_mono [OF gsm_new_opens], assumption, rule opened_as_inv)
  qed
  show ?thesis
    unfolding request_call_def wp_gbind
    by (rule wp_mono [OF alloc_starts [OF assms]])
       (auto simp: wp_ret port_inv_def [of p] split: option.splits intro: call)
qed

lemma gsm_request_inv:
  assumes "port_inv p d" "names_port p dat"
  shows "wp (gsm_request par random groups s dat) (\<lambda>_. port_inv p) d"
proof -
  let ?s = "takeWhile (\<lambda>c. c \<notin> set ''/'') (ast_copy_string 127 dat)"
  obtain q where q: "strsep ''/'' (Some (ast_copy_string 127 dat)) = (Some ?s, q)" using strsep_Some by blast
  have s: "take 2 ?s \<noteq> ''g:''" "strtol ?s = p" using assms(2) by (simp_all add: names_port_def Let_def q)
  obtain ext q' where e: "strsep ''/'' q = (ext, q')" by force
  have r: "gsm_request par random groups s dat = gbind (gbind (check_and_fetch_port p) (\<lambda>r.
      ret (if r < 0 then None else Some p, groups, s))) (\<lambda>(port, groups, s).
      gbind (case port of None \<Rightarrow> ret None | Some port \<Rightarrow> request_call par ext port) (\<lambda>chan. ret (chan, groups, s)))"
    by (simp only: gsm_request_def q prod.case e ptr_def option.case request_port_def s if_False)
  show ?thesis
    unfolding r wp_gbind [of "gbind (check_and_fetch_port p) _"] wp_gbind [of "check_and_fetch_port p"]
    by (rule wp_mono [OF check_and_fetch_inv [OF assms(1)]]) (auto simp: wp_gbind wp_fun wp_ret request_call_inv)
qed


section \<open>Everything that happens on a port\<close>

text \<open>
  What the reader thread, Asterisk and the periodic tasks do on a port: a line of the module, the request of a
  channel, the methods of the channel the port has, the tasks, and the commands for short messages.
\<close>

datatype port_op =
    Line string | Request string | Dial string | Answer | Hangup | Digit_begin char | Digit_end char
  | Sms_task | Query_task | Queue_sms string string | List_sms

definition on_channel :: "int \<Rightarrow> (nat \<Rightarrow> 'a dm) \<Rightarrow> unit dm" where
  "on_channel p f = gbind (on_lib (gsm_get_priv p)) (\<lambda>c. case c of None \<Rightarrow> ret () | Some c \<Rightarrow> gthen (f c) (ret ()))"

primrec run_op :: "gsm_par \<Rightarrow> (seed \<Rightarrow> nat \<times> seed) \<Rightarrow> int \<Rightarrow> port_op \<Rightarrow> unit dm" where
  "run_op par random p (Line l) = cb_events par p l"
| "run_op par random p (Request dat) = gthen (gsm_request par random [] 0 dat) (ret ())"
| "run_op par random p (Dial dest) = on_channel p (\<lambda>c. gsm_call c dest)"
| "run_op par random p Answer = on_channel p gsm_answer"
| "run_op par random p Hangup = on_channel p gsm_hangup"
| "run_op par random p (Digit_begin x) = on_channel p (\<lambda>c. gsm_digit_begin par c x)"
| "run_op par random p (Digit_end x) = on_channel p (\<lambda>c. gsm_digit_end par c x)"
| "run_op par random p Sms_task = gsm_sms_sender_port p"
| "run_op par random p Query_task = gsm_query_call_port p"
| "run_op par random p (Queue_sms num text) = gthen (gsm_queue_sms p num text) (ret ())"
| "run_op par random p List_sms = gthen (gsm_list_sms p) (ret ())"

primrec run_ops :: "gsm_par \<Rightarrow> (seed \<Rightarrow> nat \<times> seed) \<Rightarrow> int \<Rightarrow> port_op list \<Rightarrow> unit dm" where
  "run_ops par random p [] = ret ()"
| "run_ops par random p (x # xs) = gthen (run_op par random p x) (run_ops par random p xs)"

text \<open>The texts fit the buffers they are copied to, at the moment they arrive.\<close>

primrec op_fits :: "int \<Rightarrow> port_op \<Rightarrow> gsm_drv \<Rightarrow> bool" where
  "op_fits p (Line l) d = line_fits p l d"
| "op_fits p (Request dat) d = names_port p dat"
| "op_fits p (Dial dest) d = dial_fits dest"
| "op_fits p Answer d = True"
| "op_fits p Hangup d = True"
| "op_fits p (Digit_begin x) d = True"
| "op_fits p (Digit_end x) d = True"
| "op_fits p Sms_task d = True"
| "op_fits p Query_task d = True"
| "op_fits p (Queue_sms num text) d = (length num \<le> 29 \<and> length text < SMS_MSG_SZ)"
| "op_fits p List_sms d = True"

primrec ops_fit :: "gsm_par \<Rightarrow> (seed \<Rightarrow> nat \<times> seed) \<Rightarrow> int \<Rightarrow> port_op list \<Rightarrow> gsm_drv \<Rightarrow> bool" where
  "ops_fit par random p [] d = True"
| "ops_fit par random p (x # xs) d = (op_fits p x d \<and> (case run_op par random p x d of
     Ret (_, d') \<Rightarrow> ops_fit par random p xs d' | _ \<Rightarrow> True))"

lemma on_channel_inv:
  assumes "port_inv p d" "\<And>c a. triple (on_call p c a) (f c) (port_inv p)"
  shows "wp (on_channel p f) (\<lambda>_. port_inv p) d"
proof -
  consider "no_call p d" | c a where "on_call p c a d" using assms(1) by (auto simp: port_inv_def)
  then show ?thesis
  proof cases
    case 1
    then show ?thesis
      using assms(1) by (simp add: on_channel_def no_call_def wp_gbind wp_gsm_get_priv wp_ret)
  next
    case 2
    then show ?thesis
      using tripleD [OF assms(2) 2] by (simp add: on_channel_def on_call_def wp_gbind wp_gsm_get_priv wp_gthen wp_fun)
  qed
qed

lemma triple_conseq: "triple I m J \<Longrightarrow> (\<And>d. J d \<Longrightarrow> K d) \<Longrightarrow> triple I m K"
  unfolding triple_def by (meson wp_mono)

lemma triple_busy: "busy.keep p c a m \<Longrightarrow> triple (on_call p c a) m (port_inv p)"
  unfolding busy.keep_def by (erule triple_conseq) (auto simp: port_inv_def)

lemma port_inv_keep:
  assumes "port_inv p d" "idle.keep p m" "\<And>c a. busy.keep p c a m"
  shows "wp m (\<lambda>_. port_inv p) d"
proof -
  consider "no_call p d" | c a where "on_call p c a d" using assms(1) by (auto simp: port_inv_def)
  then show ?thesis
  proof cases
    case 1
    then show ?thesis by (rule wp_mono [OF idle.keepD [OF assms(2)]]) (simp add: port_inv_def)
  next
    case 2
    then show ?thesis by (rule tripleD [OF triple_busy [OF assms(3)]])
  qed
qed

lemma run_op_inv:
  assumes "port_inv p d" "op_fits p x d"
  shows "wp (run_op par random p x) (\<lambda>_. port_inv p) d"
proof (cases x)
  case (Request dat)
  then show ?thesis using gsm_request_inv [OF assms(1), of dat] assms(2) by (simp add: wp_gthen wp_fun)
next
  case Hangup
  have "triple (on_call p c a) (gsm_hangup c) (port_inv p)" for c a
    by (rule triple_conseq [OF gsm_hangup_frees]) (simp add: port_inv_def free_port_def)
  then show ?thesis using Hangup on_channel_inv [OF assms(1), of gsm_hangup] by simp
next
  case (Queue_sms num t)
  then show ?thesis
    using assms by (auto intro!: port_inv_keep kept)
next
  case List_sms
  then show ?thesis using assms by (auto intro!: port_inv_keep kept)
next
  case Answer
  then show ?thesis
    using on_channel_inv [OF assms(1) triple_busy, of gsm_answer] gsm_answer_keeps by (simp add: busy.keep_def)
qed (use assms in \<open>auto intro!: on_channel_inv triple_busy kept busy_gsm_call cb_events_inv port_inv_keep
  idle_call.keep_sender busy_call.keep_sender idle_call.keep_query busy_call.keep_query\<close>)

lemma run_ops_inv: "port_inv p d \<Longrightarrow> ops_fit par random p xs d \<Longrightarrow> wp (run_ops par random p xs) (\<lambda>_. port_inv p) d"
proof (induction xs arbitrary: d)
  case (Cons x xs)
  obtain d' where "run_op par random p x d = Ret ((), d')" "port_inv p d'"
    using run_op_inv [OF Cons.prems(1), of x par random] Cons.prems(2) by (auto simp: wp_def)
  with Cons show ?case by (simp add: wp_gthen) (simp add: wp_def)
qed (simp add: wp)

end
