(* ===== verification/Gsm_Call_Props.thy ===== *)
theory Gsm_Call_Props
  imports Gsm_Port_Proofs "HOL-Library.Sublist"
begin

text \<open>
  Properties of the calls of the GSM channel driver: the memory safety of everything that happens on a port, and the
  automaton the lines of the module drive a call through; with the example states of the witnesses.
\<close>


section \<open>An example state\<close>

text \<open>Port 1 is started and configured, with the message queue 1; every system call answers 5.\<close>

definition demo_gsm_cm :: cm where
  "demo_gsm_cm =
     \<lparr>cm_lock = 0, cm_state = CM_LOADED, cm_modname = ''gsm'', cm_filename = Some ''gsm.conf'',
      cm_secs = config_sections,
      cm_vals = [\<lparr>m_num_rows = 1, m_rows = [Some (Some ''general'' # map d_def (tl gen_dirs))]\<rparr>,
                 \<lparr>m_num_rows = 2, m_rows = [Some (Some ''default'' # map d_def (tl port_dirs)),
                                           Some (Some ''gsm1'' # Some ''1'' # replicate 14 None)]\<rparr>],
      cm_hashes = [None, Some (Hash_i (one_key 1))], cm_key_arrays = [None, Some [Key_i 1]], cm_clis = []\<rparr>"

definition sms_zero :: gsm_sms where
  "sms_zero = \<lparr>sms_state = GSM_SMS_STATE_NONE, sms_text = [], sms_number = [], sms_work = GSM_SMS_WORK_SHOW,
     inbound_msg = sms_message_zero, outbound_msg = sms_message_zero, sms_mq_id = 1\<rparr>"

definition demo_drv :: gsm_drv where
  "demo_drv =
     \<lparr>lib = demo_port,
      gsm_status = replicate 32 \<lparr>st_status = GSM_STATUS_REGISTERED, st_provider = [], st_homezone = 1, st_rssi = 20\<rparr>,
      gsm_sms = replicate 32 sms_zero, gsm_slcc = replicate 32 slcc_zero, sms_idx = replicate 256 0,
      gsm_save_out_msgs = 0, config = Some demo_gsm_cm, pvts = (\<lambda>_. None), chans = (\<lambda>_. None), heap_next = 0,
      sms_queue = (\<lambda>q. if q = 1 then Some [] else None), ast_trace = [], answers = (\<lambda>_. 5), asked = 0\<rparr>"

definition demo_par :: gsm_par where
  "demo_par = \<lparr>ast_true = (\<lambda>s. if s = ''yes'' then -1 else 0), ast_translate = (\<lambda>_ f. Some f),
     ast_dsp_process = (\<lambda>_ f. f), others = (\<lambda>_. ret ())\<rparr>"

lemma all_less_numeral: "(\<forall>i < numeral k. P i) \<longleftrightarrow> (\<forall>i < pred_numeral k. P i) \<and> P (pred_numeral k)"
  by (simp only: numeral_eq_Suc all_less_Suc)

lemma demo_gsm_cm_wf: "loaded_wf demo_gsm_cm"
proof -
  have n: "num_directives (config_sections ! 0) = 8" "num_directives (config_sections ! 1) = 16"
    by (rule config_sections_facts)+
  have 0: "matrix_full (\<lambda>s. True) (config_sections ! 0) (cm_vals demo_gsm_cm ! 0)"
    by (simp add: matrix_full_def n(1) demo_gsm_cm_def)
       (simp add: config_sections_def gen_dirs_def dir_def all_less_numeral)
  have 1: "matrix_full (\<lambda>s. True) (config_sections ! 1) (cm_vals demo_gsm_cm ! 1)"
    unfolding matrix_full_def n(2) by (simp add: demo_gsm_cm_def less_2_cases_iff row_ok_def)
       (simp add: config_sections_def port_dirs_def dir_def all_less_numeral)
  have "section_loaded (config_sections ! 0) (cm_vals demo_gsm_cm ! 0) None None"
    by (simp only: section_loaded_def 0 config_sections_facts) simp
  moreover have "section_loaded (config_sections ! 1) (cm_vals demo_gsm_cm ! 1) (Some (Hash_i (one_key 1))) (Some [Key_i 1])"
    using one_key_table [of 1] one_key_length [of 1] 1
    by (simp only: section_loaded_def config_sections_facts) (simp add: HASHSIZE_def demo_gsm_cm_def exI [of _ "[1]"])
  moreover have "secs_wf config_sections" by (rule gsm_schema.schema)
  ultimately show ?thesis
    by (simp add: loaded_wf_def demo_gsm_cm_def config_sections_facts less_2_cases_iff all_conj_distrib)
qed

lemma demo_gsm_cm_configured: "configured 1 (Some demo_gsm_cm)"
proof -
  have "AST_HASH_LOOKUP_NOLOCK (one_key 1) 1 = Ret (Some 1)"
    using int_hash.insert_lookup [OF _ _ _ one_key_insert [of 1]]
    by (simp add: AST_HASH_INIT_INT_def wf_init HASHSIZE_def)
  then show ?thesis
    using demo_gsm_cm_wf
    by (simp add: configured_def demo_gsm_cm_def key_row_def config_sections_def)
qed

lemma demo_port_priv: "cp_priv (ctlport demo_port ! 1) = None"
proof -
  have "wp (gsm_init_port 1 (Some 1)) (\<lambda>r w'. cp_priv (ctlport w' ! 1) = None) (static_world (\<lambda>_. 5) (\<lambda>_. []))"
    by (simp add: gsm_init_port_def gsm_init_port_threads_def gsm_init_port_sems_def fopen_dev_def
        sem_init_def set_reader_def set_writer_def msgget_def wp static_world_def
        MAX_GSM_PORTS_def ctlport_zero_def)
  then show ?thesis by (auto simp: wp_def demo_port_def)
qed

lemma demo_drv_no_call: "no_call 1 demo_drv"
proof -
  have "taco_short demo_port" by (simp add: taco_short_def demo_port_streams)
  then show ?thesis
    using demo_port_open demo_gsm_cm_configured demo_port_priv
    by (simp add: no_call_def base_def heap_fresh_def priv_def lib_ok_def demo_drv_def sms_zero_def sms_fine_def
        msg_fine_def sms_message_zero_def SMS_MSG_SZ_def SMS_NUM_SZ_def)
qed

lemma ops_fit_static: "(\<And>x d. x \<in> set xs \<Longrightarrow> op_fits p x d) \<Longrightarrow> ops_fit par random p xs d"
  by (induction xs arbitrary: d) (auto split: run.split)

lemma demo_lines:
  "parse_events ''RING'' = GSM_EVENT_RING" "parse_events ''OK'' = GSM_EVENT_OK"
  "parse_events ''NO CARRIER'' = GSM_EVENT_NO_CARRIER" "parse_events ''> '' = GSM_EVENT_ENTER_SMS"
  "parse_events ''+CLCC: 1,0,2,0,0'' = GSM_EVENT_CLCC_CALL_2" "parse_events ''+CLCC: 1,0,3,0,0'' = GSM_EVENT_CLCC_CALL_3"
  "parse_events ''+CLCC: 1,0,0,0,0'' = GSM_EVENT_CLCC_CALL_0" "parse_events ''+CMGS: 5'' = GSM_EVENT_SMS_TRANSMITTED"
  "parse_events ''+CMS ERROR: 500'' = GSM_EVENT_CMS_ERROR"
  by (simp_all add: parse_events_def parse_current_call_state_def creg_def strncmp_prefix_def)




section \<open>The states of a call\<close>

text \<open>
  The automaton of a call: the state after a line of the module, and what Asterisk is told.
\<close>

definition ended :: "nat \<Rightarrow> gsm_state \<Rightarrow> gsm_state \<times> ast_effect list" where
  "ended c s = (GSM_STATE_HANGUPED, if s = GSM_STATE_HANGUPED then [] else [Queue_hangup c])"

definition call_step :: "nat \<Rightarrow> gsm_state \<Rightarrow> string \<Rightarrow> gsm_state \<times> ast_effect list" where
  "call_step c s line = (case parse_events line of
       GSM_EVENT_NO_CARRIER \<Rightarrow> ended c s
     | GSM_EVENT_BUSY \<Rightarrow> ended c s
     | GSM_EVENT_CLCC_CALL_2 \<Rightarrow> if s = GSM_STATE_ATD_OUT
         then (GSM_STATE_PROCEEDING, [Queue_control (Some c) AST_CONTROL_PROCEEDING]) else (s, [])
     | GSM_EVENT_CLCC_CALL_3 \<Rightarrow> if s = GSM_STATE_PROCEEDING
         then (GSM_STATE_ALERTING, [Queue_control (Some c) AST_CONTROL_RINGING]) else (s, [])
     | GSM_EVENT_CLCC_CALL_0 \<Rightarrow> if s = GSM_STATE_ANSWERED then (s, [])
         else (GSM_STATE_ANSWERED, [Queue_control (Some c) AST_CONTROL_ANSWER])
     | GSM_EVENT_CME_ERROR \<Rightarrow> if cme_ends_call (error_code line) then ended c s else (s, [])
     | GSM_EVENT_CMS_ERROR \<Rightarrow> if cms_ends_call (error_code line) then ended c s else (s, [])
     | _ \<Rightarrow> (s, []))"

primrec call_run :: "nat \<Rightarrow> gsm_state \<Rightarrow> string list \<Rightarrow> gsm_state \<times> ast_effect list" where
  "call_run c s [] = (s, [])"
| "call_run c s (l # ls) = (case call_step c s l of (s, es) \<Rightarrow> case call_run c s ls of (s, es') \<Rightarrow> (s, es @ es'))"

text \<open>The lines fit at the moment they arrive.\<close>

primrec lines_fit :: "gsm_par \<Rightarrow> int \<Rightarrow> string list \<Rightarrow> gsm_drv \<Rightarrow> bool" where
  "lines_fit par p [] d = True"
| "lines_fit par p (l # ls) d = (line_fits p l d \<and> (case cb_events par p l d of
     Ret (_, d') \<Rightarrow> lines_fit par p ls d' | _ \<Rightarrow> True))"

definition call_in :: "int \<Rightarrow> nat \<Rightarrow> nat \<Rightarrow> gsm_state \<Rightarrow> ast_effect list \<Rightarrow> gsm_drv \<Rightarrow> bool" where
  "call_in p c a s es d \<longleftrightarrow> on_call p c a d \<and> map_option pv_state (pvts d a) = Some s \<and> shown d = es"

interpretation calling: port_state p "call_in p c a s es" for p c a s es
proof unfold_locales
  fix d d' assume "call_in p c a s es d" "base p d'" "view p (lib d') = view p (lib d)" "pvts d' = pvts d"
    "chans d' = chans d" "heap_next d' = heap_next d" "shown d' = shown d"
  then show "call_in p c a s es d'"
    using busy.I_frame [of p c a d d'] by (simp add: call_in_def)
qed (simp add: call_in_def on_call_def)

lemma call_inE:
  assumes "call_in p c a s es d"
  obtains ch g where "on_call p c a d" "base p d" "priv p d = Some c" "chans d c = Some ch" "ch_tech_pvt ch = Some a"
    "pvts d a = Some g" "pv_port g = p" "pv_state g = s" "shown d = es"
  using assms by (auto simp: call_in_def elim!: on_callE)

lemma calling_get_priv:
  assumes "triple (call_in p c a s es) (f (Some c) (Some a)) J"
  shows "triple (call_in p c a s es) (gbind (on_lib (gsm_get_priv p)) (\<lambda>ast. gbind (chan_pvt ast) (\<lambda>gsm. f ast gsm))) J"
proof (rule tripleI)
  fix d assume d: "call_in p c a s es d"
  then obtain ch where "base p d" "priv p d = Some c" "chans d c = Some ch" "ch_tech_pvt ch = Some a" by (rule call_inE)
  with tripleD [OF assms d] show "wp (gbind (on_lib (gsm_get_priv p)) (\<lambda>ast. gbind (chan_pvt ast) (\<lambda>gsm. f ast gsm))) (\<lambda>_. J) d"
    by (simp add: wp_gbind wp_gsm_get_priv wp_chan_pvt)
qed

lemma calling_pvt_get:
  assumes "\<And>g. pv_port g = p \<Longrightarrow> pv_state g = s \<Longrightarrow> triple (call_in p c a s es) (f g) J"
  shows "triple (call_in p c a s es) (gbind (pvt_get a) f) J"
proof (rule tripleI)
  fix d assume d: "call_in p c a s es d"
  then obtain g where "pvts d a = Some g" "pv_port g = p" "pv_state g = s" by (rule call_inE)
  with tripleD [OF assms d] show "wp (gbind (pvt_get a) f) (\<lambda>_. J) d" by (simp add: wp)
qed

lemma calling_effect: "call_effect e \<Longrightarrow> triple (call_in p c a s es) (effect e) (call_in p c a s (es @ [e]))"
  by (rule tripleI) (use busy.keepD [OF busy_effect] in \<open>auto simp: call_in_def wp\<close>)

lemma calling_state: "triple (call_in p c a s es) (pvt_upd a (\<lambda>g. g\<lparr>pv_state := s'\<rparr>)) (call_in p c a s' es)"
proof (rule tripleI)
  fix d assume d: "call_in p c a s es d"
  then have "wp (pvt_upd a (\<lambda>g. g\<lparr>pv_state := s'\<rparr>)) (\<lambda>_. on_call p c a) d"
    using busy.keepD [OF busy_pvt_upd [of "\<lambda>g. g\<lparr>pv_state := s'\<rparr>"]] by (auto simp: call_in_def)
  with d show "wp (pvt_upd a (\<lambda>g. g\<lparr>pv_state := s'\<rparr>)) (\<lambda>_. call_in p c a s' es) d"
    by (auto simp: wp call_in_def)
qed

lemma calling_chan_upd:
  assumes "\<And>g. ch_tech_pvt (f g) = ch_tech_pvt g"
  shows "triple (call_in p c a s es) (chan_upd c f) (call_in p c a s es)"
proof (rule tripleI)
  fix d assume d: "call_in p c a s es d"
  then have "wp (chan_upd c f) (\<lambda>_. on_call p c a) d"
    using busy.keepD [OF busy_chan_upd [OF assms]] by (auto simp: call_in_def)
  with d show "wp (chan_upd c f) (\<lambda>_. call_in p c a s es) d" by (auto simp: wp call_in_def)
qed

lemma calling_hang_up:
  "triple (call_in p c a s es) (hang_up_call c a cause) (call_in p c a GSM_STATE_HANGUPED (es @ [Queue_hangup c]))"
  unfolding hang_up_call_def
  by (rule triple_gthen [OF calling_state] triple_gthen [OF calling_chan_upd] calling_effect | simp)+

text \<open>Statements that leave the call alone.\<close>

lemma calling_keep: "calling.keep p c a s es m \<Longrightarrow> triple (call_in p c a s es) m (call_in p c a s es)"
  by (simp add: calling.keep_def)

lemma calling_end:
  "triple (call_in p c a s es) (if s \<noteq> GSM_STATE_HANGUPED then hang_up_call c a cause else ret ())
     (call_in p c a (fst (ended c s)) (es @ snd (ended c s)))"
  using calling_hang_up [of p c a s es cause] calling_keep [OF calling.keep_ret, of p c a s es "()"]
  by (auto simp: ended_def)

abbreviation moved :: "int \<Rightarrow> nat \<Rightarrow> nat \<Rightarrow> gsm_state \<Rightarrow> ast_effect list \<Rightarrow> gsm_state \<times> ast_effect list \<Rightarrow> gsm_drv \<Rightarrow> bool" where
  "moved p c a s es x \<equiv> call_in p c a (fst x) (es @ snd x)"

lemma calling_error:
  assumes "b \<Longrightarrow> m = gbind (pvt_get a) (\<lambda>g. if pv_state g \<noteq> GSM_STATE_HANGUPED then hang_up_call c a 3 else ret ())"
    and "\<not> b \<Longrightarrow> m = ret ()"
  shows "triple (call_in p c a s es) (gthen m (ret (0 :: int))) (moved p c a s es (if b then ended c s else (s, [])))"
proof (cases b)
  case True
  have "triple (call_in p c a s es) m (call_in p c a (fst (ended c s)) (es @ snd (ended c s)))"
    unfolding assms(1) [OF True] by (rule calling_pvt_get) (simp only:, rule calling_end)
  from triple_gthen [OF this triple_ret] True show ?thesis by simp
next
  case False
  then show ?thesis by (simp add: assms(2)) (rule triple_gthen triple_ret)+
qed

lemma calling_errors:
  "triple (call_in p c a s es) (gsm_handle_cme_error p code) (moved p c a s es (if cme_ends_call code then ended c s else (s, [])))"
  "triple (call_in p c a s es) (gsm_handle_cms_error p code) (moved p c a s es (if cms_ends_call code then ended c s else (s, [])))"
  unfolding gsm_handle_cme_error_def gsm_handle_cms_error_def
  by (rule calling_get_priv, rule calling_error, simp add: ptr_def, simp)+

lemma triple_same: "triple I m (moved p c a s es x) \<Longrightarrow> calling.keep p c a (fst x) (es @ snd x) n \<Longrightarrow> triple I (gthen m n) (moved p c a s es x)"
  unfolding calling.keep_def by (rule triple_gthen)

lemma calling_ev_cme_error:
  "triple (call_in p c a s es) (ev_cme_error p line)
     (moved p c a s es (if cme_ends_call (error_code line) then ended c s else (s, [])))"
  unfolding ev_cme_error_def by (rule triple_same [OF calling_errors(1)]) (rule kept)

lemma calling_in_cms_error:
  "triple (call_in p c a s es) (in_cms_error p line)
     (moved p c a s es (if cms_ends_call (error_code line) then ended c s else (s, [])))"
  unfolding in_cms_error_def by (rule triple_same [OF calling_errors(2)]) (rule kept)+

lemma calling_in_busy: "triple (call_in p c a s es) (in_busy p (Some c) a) (moved p c a s es (ended c s))"
  unfolding in_busy_def
  by (rule calling_pvt_get) (simp only: option.case, rule triple_same [OF calling_end], (rule kept | simp)+)

lemma calling_in_connected:
  "triple (call_in p c a s es) (in_connected (Some c) a)
     (moved p c a s es (if s = GSM_STATE_ANSWERED then (s, []) else (GSM_STATE_ANSWERED, [Queue_control (Some c) AST_CONTROL_ANSWER])))"
  unfolding in_connected_def set_call_state_def
  by (rule calling_pvt_get, cases "s = GSM_STATE_ANSWERED")
     (simp_all add: triple_ret, (rule triple_gthen [OF calling_effect] triple_gthen [OF calling_keep] calling_state kept quiet | simp)+)

lemma calling_in_dialing:
  "triple (call_in p c a s es) (in_dialing (Some c) a)
     (moved p c a s es (if s = GSM_STATE_ATD_OUT then (GSM_STATE_PROCEEDING, [Queue_control (Some c) AST_CONTROL_PROCEEDING]) else (s, [])))"
  unfolding in_dialing_def set_call_state_def
  by (rule calling_pvt_get) (auto intro!: triple_ret triple_gthen [OF calling_effect] calling_state)

lemma calling_in_alerting:
  "triple (call_in p c a s es) (in_alerting (Some c) a)
     (moved p c a s es (if s = GSM_STATE_PROCEEDING then (GSM_STATE_ALERTING, [Queue_control (Some c) AST_CONTROL_RINGING]) else (s, [])))"
  unfolding in_alerting_def set_call_state_def
  by (rule calling_pvt_get, cases "s = GSM_STATE_PROCEEDING")
     (simp_all, (rule triple_gthen [OF calling_keep [OF calling.keep_quiet]] triple_gthen [OF calling_effect] triple_ret calling_state kept quiet | simp)+)

lemma calling_cb_incall:
  "triple (call_in p c a s es) (cb_incall p (Some c) a (parse_events line) line) (moved p c a s es (call_step c s line))"
  using calling_in_busy calling_in_connected calling_in_dialing calling_in_alerting calling_ev_cme_error
    calling_in_cms_error
  by (cases "parse_events line") (simp_all add: cb_incall_def call_step_def triple_ret calling_keep kept del: if_split)

lemma call_in_line:
  assumes "call_in p c a s es d" "line_fits p line d"
  shows "wp (cb_events par p line) (\<lambda>_. moved p c a s es (call_step c s line)) d"
proof -
  have c: "on_call p c a d" using assms(1) by (simp add: call_in_def)
  have "parse_events [] = GSM_EVENT_NONE" by (simp add: parse_events_def creg_def)
  then have "moved p c a s es (call_step c s []) d" using assms(1) by (simp add: call_step_def)
  then have e: "moved p c a s es (call_step c s []) d" .
  show ?thesis
  proof (cases "line = []")
    case False
    show ?thesis
      unfolding wp_cb_events_busy [OF c] if_not_P [OF False]
      by (rule calling.line_then [OF assms tripleD [OF calling_cb_incall]])
  qed (simp add: wp_cb_events_busy [OF c] e)
qed

lemma call_in_lines:
  "call_in p c a s es d \<Longrightarrow> lines_fit par p ls d \<Longrightarrow>
   wp (cb_lines par p ls) (\<lambda>_. moved p c a s es (call_run c s ls)) d"
proof (induction ls arbitrary: s es d)
  case (Cons l ls)
  obtain s1 es1 where s1: "call_step c s l = (s1, es1)" by force
  obtain d1 where d1: "cb_events par p l d = Ret ((), d1)" "call_in p c a s1 (es @ es1) d1"
    using call_in_line [OF Cons.prems(1), of l par] Cons.prems(2) s1 by (auto simp: wp_def)
  moreover have "lines_fit par p ls d1" using Cons.prems(2) d1(1) by simp
  ultimately have "wp (cb_lines par p ls) (\<lambda>_. moved p c a s1 (es @ es1) (call_run c s1 ls)) d1" using Cons.IH by blast
  with d1(1) show ?case by (auto simp: wp_def gthen_def gbind_def s1 split: prod.split)
qed (simp add: wp)

text \<open>Up to the end of the call, the indications come in their order, each at most once.\<close>

definition progress :: "nat \<Rightarrow> gsm_state \<Rightarrow> ast_effect list" where
  "progress c s = (case s of
       GSM_STATE_ATD_OUT \<Rightarrow> map (Queue_control (Some c)) [AST_CONTROL_PROCEEDING, AST_CONTROL_RINGING, AST_CONTROL_ANSWER]
     | GSM_STATE_PROCEEDING \<Rightarrow> map (Queue_control (Some c)) [AST_CONTROL_RINGING, AST_CONTROL_ANSWER]
     | GSM_STATE_ANSWERED \<Rightarrow> []
     | _ \<Rightarrow> [Queue_control (Some c) AST_CONTROL_ANSWER])"

lemma call_run_progress:
  "s \<noteq> GSM_STATE_HANGUPED \<Longrightarrow> subseq (takeWhile (\<lambda>e. e \<noteq> Queue_hangup c) (snd (call_run c s ls))) (progress c s)"
proof (induction ls arbitrary: s)
  case (Cons l ls)
  let ?t = "takeWhile (\<lambda>e. e \<noteq> Queue_hangup c)"
  have IH: "subseq (?t (snd (call_run c x ls))) (progress c x)" if "x \<noteq> GSM_STATE_HANGUPED" for x
    using Cons.IH [OF that] .
  have s: "subseq (?t (snd (call_run c s (l # ls)))) (progress c s)"
    if "call_step c s l = (s, [])" using IH [OF Cons.prems] that by (auto split: prod.split)
  have h: "subseq (?t (snd (call_run c s (l # ls)))) (progress c s)"
    if "call_step c s l = ended c s" using Cons.prems that by (auto simp: ended_def split: prod.split)
  have m: "subseq (?t (snd (call_run c s (l # ls)))) (progress c s)"
    if "call_step c s l = (x, [Queue_control (Some c) e])" "x \<noteq> GSM_STATE_HANGUPED"
      "subseq (Queue_control (Some c) e # progress c x) (progress c s)" for x e
    using that(1) subseq_order.trans [OF _ that(3), of "Queue_control (Some c) e # ?t (snd (call_run c x ls))"] IH [OF that(2)]
    by (auto split: prod.split)
  show ?case
    using Cons.prems s h m
    by (cases "parse_events l"; cases s) (auto simp: call_step_def progress_def split: if_splits)
qed simp

text \<open>
  C9. The lines of the module drive a call as an automaton: after any sequence of lines the call is in the state of
  the automaton, and Asterisk was told exactly its indications, whatever else the lines brought, as short messages.
  Of a call that was dialled, the indications up to the hangup are some of proceeding, ringing and answer, in this order, each
  at most once.
\<close>

theorem gsm_call_refines_automaton:
  assumes "on_call p c a d" "pvts d a = Some g" "lines_fit par p ls d"
  shows "\<exists>d' g'. cb_lines par p ls d = Ret ((), d') \<and> on_call p c a d' \<and> pvts d' a = Some g' \<and>
    (pv_state g', shown d') = (fst (call_run c (pv_state g) ls), shown d @ snd (call_run c (pv_state g) ls)) \<and>
    (pv_state g = GSM_STATE_ATD_OUT \<longrightarrow> subseq (takeWhile (\<lambda>e. e \<noteq> Queue_hangup c) (snd (call_run c (pv_state g) ls)))
      (map (Queue_control (Some c)) [AST_CONTROL_PROCEEDING, AST_CONTROL_RINGING, AST_CONTROL_ANSWER]))"
proof -
  have "call_in p c a (pv_state g) (shown d) d" using assms by (simp add: call_in_def)
  from call_in_lines [OF this assms(3)] show ?thesis
    using call_run_progress [of GSM_STATE_ATD_OUT c ls] by (auto simp: wp_def call_in_def progress_def)
qed

text \<open>The example port with a call that was dialled.\<close>

definition demo_call :: gsm_drv where
  "demo_call = demo_drv
     \<lparr>lib := demo_port\<lparr>ctlport := (ctlport demo_port)[1 := (ctlport demo_port ! 1)\<lparr>in_use := 1, cp_priv := Some 1\<rparr>]\<rparr>,
      pvts := [0 \<mapsto> gsm_pvt_zero\<lparr>pv_port := 1\<rparr>],
      chans := [1 \<mapsto> \<lparr>ch_name = ''GSM/1'', ch_tech_pvt = Some 0, ch_fd = Some 5, ch_exten = [], ch_context = [],
                   ch_cid_num = None, ch_hangupcause = 0\<rparr>],
      heap_next := 2\<rparr>"

lemma demo_call_on_call: "on_call 1 1 0 demo_call"
proof -
  have l: "lib_ok 1 demo_port" using demo_drv_no_call by (simp add: no_call_def base_def demo_drv_def)
  then have n: "length (ctlport demo_port) = 32" using port_openD [OF demo_port_open] by simp
  have "lib_ok 1 (lib demo_call)"
    using lib_ok_priv [OF lib_ok_in_use [OF l, of 1], of "Some 1"] n by (simp add: demo_call_def)
  then have "base 1 (demo_drv\<lparr>lib := lib demo_call\<rparr>)" using base_lib demo_drv_no_call by (simp add: no_call_def)
  then have "base 1 demo_call" by (simp add: demo_call_def)
  then show ?thesis
    using n by (simp add: on_call_def demo_call_def heap_fresh_def priv_def)
qed

lemma lines_fit_static: "(\<And>l d. l \<in> set ls \<Longrightarrow> line_fits p l d) \<Longrightarrow> lines_fit par p ls d"
  by (induction ls arbitrary: d) (auto split: run.split)

theorem gsm_call_refines_automaton_witness:
  "\<exists>d'. cb_lines demo_par 1 [''+CLCC: 1,0,2,0,0'', ''+CLCC: 1,0,3,0,0'', ''+CLCC: 1,0,0,0,0'', ''NO CARRIER''] demo_call = Ret ((), d') \<and>
     shown d' = [Queue_control (Some 1) AST_CONTROL_PROCEEDING, Queue_control (Some 1) AST_CONTROL_RINGING,
       Queue_control (Some 1) AST_CONTROL_ANSWER, Queue_hangup 1]"
proof -
  let ?ls = "[''+CLCC: 1,0,2,0,0'', ''+CLCC: 1,0,3,0,0'', ''+CLCC: 1,0,0,0,0'', ''NO CARRIER'']"
  have "lines_fit demo_par 1 ?ls demo_call"
    by (rule lines_fit_static) (auto simp: line_fits_def line_shape_def demo_lines)
  moreover have "pvts demo_call 0 = Some (gsm_pvt_zero\<lparr>pv_port := 1\<rparr>)" by (simp add: demo_call_def)
  moreover have "shown demo_call = []" by (simp add: demo_call_def demo_drv_def shown_def)
  ultimately show ?thesis
    using gsm_call_refines_automaton [OF demo_call_on_call, of "gsm_pvt_zero\<lparr>pv_port := 1\<rparr>" demo_par ?ls]
    by (auto simp: call_step_def demo_lines ended_def gsm_pvt_zero_def)
qed

end
