(* ===== verification/Gsm_Sms_Props.thy ===== *)
theory Gsm_Sms_Props
  imports Gsm_Call_Props
begin

text \<open>
  Properties of the short messages of the GSM channel driver, by the exact sequence of calls it makes of the GSM
  control library: the dialogue that sends a message, and what a module's lines do meanwhile.
\<close>


section \<open>Sending a short message\<close>

text \<open>The world of the library after a sequence of calls on a port.\<close>

definition reached :: "int \<Rightarrow> gsm_world \<Rightarrow> Gsmctl_Calls.gsm_call list \<Rightarrow> gsm_world \<Rightarrow> bool" where
  "reached p w0 cs w \<longleftrightarrow> run_calls p cs w0 = Ret ((), w) \<and> lib_ok p w \<and> view p w = view p w0"

lemma run_calls_append: "run_calls p (cs @ cs') w = run_bind (run_calls p cs w) (\<lambda>(_, w). run_calls p cs' w)"
  by (induction cs arbitrary: w) (auto simp: gthen_def gbind_def ret_def run_bind_assoc split_def)

lemma reached_start: "lib_ok p w \<Longrightarrow> reached p w [] w"
  by (simp add: reached_def ret_def)

lemma reached_trans: "reached p w cs w' \<Longrightarrow> reached p w' cs' w'' \<Longrightarrow> reached p w (cs @ cs') w''"
  by (simp add: reached_def run_calls_append)

lemma reached_call:
  assumes "quiet p m" "\<And>x w'. m w = Ret (x, w') \<Longrightarrow> run_call p c w = Ret ((), w')"
    and "reached p w0 cs w" "\<And>x w'. reached p w0 (cs @ [c]) w' \<Longrightarrow> Q x w'"
  shows "wp m Q w"
proof -
  have "wp m (\<lambda>_ w'. lib_ok p w' \<and> view p w' = view p w) w"
    using assms(1,3) unfolding quiet_def reached_def by blast
  then obtain x w' where "m w = Ret (x, w')" "lib_ok p w'" "view p w' = view p w" by (auto simp: wp_def)
  with assms(2-4) show ?thesis
    by (auto simp: wp_def reached_def run_calls_append gthen_def gbind_def ret_def)
qed

lemma void_Ret: "m w = Ret (x, w') \<Longrightarrow> void m w = Ret ((), w')"
  by (simp add: void_def gthen_def gbind_def ret_def)

lemma reached_send:
  "reached p w0 cs w \<Longrightarrow> length s \<le> 255 \<Longrightarrow> (\<And>x w'. reached p w0 (cs @ [Send s]) w' \<Longrightarrow> Q x w') \<Longrightarrow> wp (gsm_send p s) Q w"
  by (rule reached_call [OF quiet_gsm_send]) (auto intro: void_Ret)

lemma reached_calls:
  "reached p w0 cs w \<Longrightarrow> (\<And>x w'. reached p w0 (cs @ [Post_next]) w' \<Longrightarrow> Q x w') \<Longrightarrow> wp (gsm_post_next_msg p) Q w"
  "reached p w0 cs w \<Longrightarrow> (\<And>x w'. reached p w0 (cs @ [Unknown_event s]) w' \<Longrightarrow> Q x w') \<Longrightarrow> wp (gsm_handle_unknown_event p s) Q w"
  "reached p w0 cs w \<Longrightarrow> (\<And>x w'. reached p w0 (cs @ [Sms_enter]) w' \<Longrightarrow> R x w') \<Longrightarrow> wp (gsm_sms_enter p) R w"
  "reached p w0 cs w \<Longrightarrow> (\<And>x w'. reached p w0 (cs @ [Send_raw s]) w' \<Longrightarrow> R x w') \<Longrightarrow> wp (gsm_send_raw p s) R w"
  using reached_call [OF quiet_calls(1), of p w Post_next] reached_call [OF quiet_calls(9), of p s w "Unknown_event s"]
    reached_call [OF quiet_calls(2), of p w Sms_enter] reached_call [OF quiet_calls(3), of p s w "Send_raw s"]
  by (simp_all add: void_Ret)

lemmas reached_intro = reached_send reached_calls

definition sending :: "gsm_sms_message \<Rightarrow> gsm_sms \<Rightarrow> gsm_sms" where
  "sending m x = x\<lparr>outbound_msg := m, sms_number := msg_number m, sms_text := msg_text m,
     sms_state := GSM_SMS_STATE_EXPECTING_OK\<rparr>"

lemma wp_setting_up_idle: "no_call p d \<Longrightarrow> wp (port_setting_up p) Q d = Q False d"
  by (simp add: port_setting_up_def no_call_def wp_gbind wp_gsm_get_priv wp_chan_pvt wp_ret)

lemma sender_takes:
  assumes "no_call p d" "st_status (gsm_status d ! nat p) = GSM_STATUS_REGISTERED"
    and "sms_state (gsm_sms d ! nat p) = GSM_SMS_STATE_NONE" "slcc_ringing (gsm_slcc d ! nat p) = 0"
    and "sms_queue d (sms_mq_id (gsm_sms d ! nat p)) = Some (m # ms)"
  shows "wp (gsm_sms_sender_port p) (\<lambda>_ d'. reached p (lib d) [Send ''AT+CMGF=1''] (lib d') \<and>
    d' = d\<lparr>sms_queue := (sms_queue d)(sms_mq_id (gsm_sms d ! nat p) \<mapsto> ms),
           gsm_sms := (gsm_sms d)[nat p := sending m (gsm_sms d ! nat p)], lib := lib d'\<rparr>) d"
proof -
  have b: "base p d" "priv p d = None" using assms(1) by (simp_all add: no_call_def)
  note bD = baseD [OF b(1)]
  have m: "msg_fine m" using base_msg [OF b(1) assms(5)] by simp
  have r: "reached p (lib d) [] (lib d)" by (rule reached_start [OF bD(1)])
  show ?thesis
    using assms bD m b
    apply (simp add: gsm_sms_sender_port_def wp_gbind wp_status_get wp_sms_get wp_slcc_get wp_if wp_fun
       wp_setting_up_idle sms_msgrcv_def wp_gets wp_modify wp_ret wp_gthen wp_sms_upd
       gsm_send_sms_def wp_fits msg_fine_def SMS_NUM_SZ_def wp_on_lib)
    apply (rule reached_send [OF r])
     apply simp
    apply (auto simp: sending_def)
    done
qed

lemma parse_events_Nil [simp]: "parse_events [] = GSM_EVENT_NONE"
  by (simp add: parse_events_def creg_def)

text \<open>A line that is an event, while short messages are handled.\<close>

lemma wp_idle_event:
  assumes "no_call p d" "sms_state (gsm_sms d ! nat p) \<noteq> GSM_SMS_STATE_NONE"
    and "parse_events l \<noteq> GSM_EVENT_NONE" "parse_events l \<noteq> GSM_EVENT_MODEM_CHECK_ERROR" "parse_events l \<noteq> GSM_EVENT_RING"
  shows "wp (cb_events par p l) Q d = wp (cb_sms p (parse_events l) l) (\<lambda>_. wp (cb_precall par p (parse_events l) l)
    (\<lambda>r. wp (case r of Ring_call a \<Rightarrow> cb_incall p None a (parse_events l) l | _ \<Rightarrow> ret ()) Q)) d"
proof -
  have l: "l \<noteq> []" using assms(3) by auto
  have "base p d" using assms(1) by (simp add: no_call_def)
  from baseD [OF this] show ?thesis
    using assms(2-5) l by (simp add: wp_cb_events_idle [OF assms(1)] wp_gthen wp_ret wp_gbind wp_sms_get wp_fun)
qed

lemma wp_plain: "wp (plain m) Q d = wp m (\<lambda>_. Q Ring_break) d"
  by (simp add: plain_def wp_gthen wp_fun)

lemma number_step:
  assumes "no_call p d" "sms_state (gsm_sms d ! nat p) = GSM_SMS_STATE_EXPECTING_OK" "parse_events l = GSM_EVENT_OK"
  shows "wp (cb_events par p l) (\<lambda>_ d'. reached p (lib d)
      [Send ((if gsm_save_out_msgs d \<noteq> 0 then ''AT+CMGW='' else ''AT+CMGS='') @ [QUOTE] @ sms_number (gsm_sms d ! nat p) @ [QUOTE]),
       Sms_enter, Post_next] (lib d') \<and>
    d' = d\<lparr>gsm_sms := (gsm_sms d)[nat p := (gsm_sms d ! nat p)\<lparr>sms_state := GSM_SMS_STATE_EXPECTING_PROMPT\<rparr>], lib := lib d'\<rparr>) d"
proof -
  have b: "base p d" using assms(1) by (simp add: no_call_def)
  note bD = baseD [OF b]
  have n: "length (sms_number (gsm_sms d ! nat p)) \<le> 29" using bD(11) by (simp add: sms_fine_def)
  have r: "reached p (lib d) [] (lib d)" by (rule reached_start [OF bD(1)])
  show ?thesis
    using assms bD n r
    apply (simp add: wp_idle_event cb_sms_def cb_precall_def sms_ok_def wp_gbind wp_sms_get sms_send_number_def wp_gthen
        set_sms_state_def wp_sms_upd wp_gets wp_fits wp_on_lib wp_fun wp_plain wp_ret)
    apply (intro conjI impI; erule reached_intro; (erule reached_intro | simp)+)
    done
qed

lemma text_step:
  assumes "no_call p d" "sms_state (gsm_sms d ! nat p) \<noteq> GSM_SMS_STATE_NONE" "parse_events l = GSM_EVENT_ENTER_SMS"
  shows "wp (cb_events par p l) (\<lambda>_ d'. reached p (lib d) [Send_raw (sms_text (gsm_sms d ! nat p) @ [CHR 0x1A])] (lib d') \<and>
    d' = d\<lparr>gsm_sms := (gsm_sms d)[nat p := (gsm_sms d ! nat p)\<lparr>sms_state := GSM_SMS_STATE_SMS_SENT\<rparr>], lib := lib d'\<rparr>) d"
proof -
  have b: "base p d" using assms(1) by (simp add: no_call_def)
  note bD = baseD [OF b]
  have n: "length (sms_text (gsm_sms d ! nat p)) < 1047" using bD(11) by (simp add: sms_fine_def SMS_MSG_SZ_def)
  have r: "reached p (lib d) [] (lib d)" by (rule reached_start [OF bD(1)])
  show ?thesis
    using assms bD n r
    apply (simp add: wp_idle_event cb_sms_def cb_precall_def sms_prompted_def wp_gbind wp_sms_get wp_gthen
        set_sms_state_def wp_sms_upd wp_fits wp_on_lib wp_fun wp_ret)
    apply (erule reached_intro; simp)
    done
qed

text \<open>The command that sets the mode back, when the port is used in PDU mode.\<close>

definition pdu_mode :: "int \<Rightarrow> gsm_drv \<Rightarrow> bool" where
  "pdu_mode p d \<longleftrightarrow> sms_pdu_mode (gsm_cfg (lib d) ! nat p) \<noteq> 0"

definition mode_back :: "int \<Rightarrow> gsm_drv \<Rightarrow> Gsmctl_Calls.gsm_call list" where
  "mode_back p d = (if pdu_mode p d then [Send ''AT+CMGF=0''] else [])"

lemma transmitted_step:
  assumes "no_call p d" "sms_state (gsm_sms d ! nat p) \<noteq> GSM_SMS_STATE_NONE" "parse_events l = GSM_EVENT_SMS_TRANSMITTED"
  shows "wp (cb_events par p l) (\<lambda>_ d'. reached p (lib d) (mode_back p d) (lib d') \<and>
    d' = d\<lparr>gsm_sms := (gsm_sms d)[nat p := (gsm_sms d ! nat p)\<lparr>sms_state := GSM_SMS_STATE_NONE, outbound_msg := sms_message_zero\<rparr>], lib := lib d'\<rparr>) d"
proof -
  have b: "base p d" using assms(1) by (simp add: no_call_def)
  note bD = baseD [OF b]
  have r: "reached p (lib d) [] (lib d)" by (rule reached_start [OF bD(1)])
  show ?thesis
    using assms bD r
    apply (simp add: wp_idle_event cb_sms_def cb_precall_def sms_transmitted_def wp_gbind wp_sms_get wp_gthen
        wp_sms_upd wp_on_lib wp_fun wp_ret wp_if wp_cfg_get mode_back_def pdu_mode_def)
    apply (intro impI; erule reached_intro; simp)
    done
qed

lemma cms_error_step:
  assumes "no_call p d" "sms_state (gsm_sms d ! nat p) = GSM_SMS_STATE_SMS_SENT" "parse_events l = GSM_EVENT_CMS_ERROR"
    and "msg_number (outbound_msg (gsm_sms d ! nat p)) \<noteq> []" "msg_text (outbound_msg (gsm_sms d ! nat p)) \<noteq> []"
    and "sms_queue d (sms_mq_id (gsm_sms d ! nat p)) = Some ms" "0 \<le> answers d (asked d)"
  shows "wp (cb_events par p l) (\<lambda>_ d'. reached p (lib d) (mode_back p d @ [Post_next]) (lib d') \<and>
    sms_state (gsm_sms d' ! nat p) = GSM_SMS_STATE_NONE \<and>
    sms_queue d' = (sms_queue d)(sms_mq_id (gsm_sms d ! nat p) \<mapsto> ms @ [sms_message_zero\<lparr>mtype := 1,
      msg_number := msg_number (outbound_msg (gsm_sms d ! nat p)), msg_text := msg_text (outbound_msg (gsm_sms d ! nat p))\<rparr>])) d"
proof -
  have b: "base p d" "priv p d = None" using assms(1) by (simp_all add: no_call_def)
  note bD = baseD [OF b(1)]
  have n: "length (msg_number (outbound_msg (gsm_sms d ! nat p))) < SMS_NUM_SZ"
     "length (msg_text (outbound_msg (gsm_sms d ! nat p))) < SMS_MSG_SZ"
    using bD(11) by (simp_all add: sms_fine_def msg_fine_def SMS_NUM_SZ_def)
  have r: "reached p (lib d) [] (lib d)" by (rule reached_start [OF bD(1)])
  have e: "wp (gsm_handle_cms_error p code) Q d = Q 0 d" for code Q
    using b by (simp add: gsm_handle_cms_error_def wp_gbind wp_gsm_get_priv wp_chan_pvt wp_gthen wp_if wp_ret)
  show ?thesis
    using assms bD r n
    apply (simp add: wp_idle_event cb_sms_def cb_precall_def wp_plain ev_cms_error_def back_to_pdu_mode_def requeue_sms_def
        gsm_queue_sms_def sms_msgsnd_def set_sms_state_def wp_gbind wp_sms_get wp_gthen wp_gets wp_modify wp_fits wp_answer e
        wp_sms_upd wp_on_lib wp_fun wp_ret wp_if wp_cfg_get mode_back_def pdu_mode_def)
    apply (intro conjI impI; (erule reached_intro | simp)+)
    done
qed

lemma wp_both: "wp m P d \<Longrightarrow> wp m Q d \<Longrightarrow> wp m (\<lambda>x d. P x d \<and> Q x d) d"
  by (auto simp: wp_def)

text \<open>A line that is an event and no ring leaves the port without a call.\<close>

lemma idle_event_keeps:
  assumes "no_call p d" "parse_events l \<notin> {GSM_EVENT_NONE, GSM_EVENT_RING}" "line_shape l" "wp (cb_events par p l) Q d"
  shows "\<exists>d'. cb_events par p l d = Ret ((), d') \<and> no_call p d' \<and> Q () d'"
proof -
  have "wp (cb_events par p l) (\<lambda>_ d'. port_inv p d' \<and> (parse_events l \<noteq> GSM_EVENT_RING \<longrightarrow> no_call p d')) d"
    by (rule cb_events_idle [OF assms(1)]) (use assms(2,3) in \<open>simp add: line_fits_def\<close>)
  from wp_both [OF this assms(4)] assms(2) show ?thesis by (auto simp: wp_def)
qed

definition queued :: "string \<Rightarrow> string \<Rightarrow> gsm_sms_message" where
  "queued num txt = sms_message_zero\<lparr>mtype := 1, msg_number := num, msg_text := txt\<rparr>"

text \<open>The calls of the library that send a message.\<close>

definition sms_calls :: "gsm_drv \<Rightarrow> string \<Rightarrow> string \<Rightarrow> Gsmctl_Calls.gsm_call list" where
  "sms_calls d num txt = [Send ''AT+CMGF=1'',
     Send ((if gsm_save_out_msgs d \<noteq> 0 then ''AT+CMGW='' else ''AT+CMGS='') @ [QUOTE] @ num @ [QUOTE]), Sms_enter, Post_next,
     Send_raw (txt @ [CHR 0x1A])]"

lemma reached_config: "reached p w cs w' \<Longrightarrow> gsm_cfg w' = gsm_cfg w"
  by (simp add: reached_def view_def)

lemma sms_dialogue:
  assumes d: "no_call p d" "st_status (gsm_status d ! nat p) = GSM_STATUS_REGISTERED"
      "sms_state (gsm_sms d ! nat p) = GSM_SMS_STATE_NONE" "slcc_ringing (gsm_slcc d ! nat p) = 0"
      "sms_queue d (sms_mq_id (gsm_sms d ! nat p)) = Some (queued num txt # ms)"
    and l: "parse_events l1 = GSM_EVENT_OK" "parse_events l2 = GSM_EVENT_ENTER_SMS"
  shows "\<exists>d1 d2. gsm_sms_sender_port p d = Ret ((), d1) \<and> cb_lines par p [l1, l2] d1 = Ret ((), d2) \<and> no_call p d2 \<and>
    reached p (lib d) (sms_calls d num txt) (lib d2) \<and> sms_state (gsm_sms d2 ! nat p) = GSM_SMS_STATE_SMS_SENT \<and>
    outbound_msg (gsm_sms d2 ! nat p) = queued num txt \<and> sms_mq_id (gsm_sms d2 ! nat p) = sms_mq_id (gsm_sms d ! nat p) \<and>
    sms_queue d2 = (sms_queue d)(sms_mq_id (gsm_sms d ! nat p) \<mapsto> ms) \<and> answers d2 = answers d \<and> asked d2 = asked d"
proof -
  have n: "nat p < length (gsm_sms d)" using baseD [of p d] d(1) by (simp add: no_call_def)
  have "wp (gsm_sms_sender_port p) (\<lambda>_. no_call p) d" using idle.keepD [OF idle_call.keep_sender d(1)] .
  from wp_both [OF this sender_takes [OF d]] obtain d1 where d1: "gsm_sms_sender_port p d = Ret ((), d1)" "no_call p d1"
    "reached p (lib d) [Send ''AT+CMGF=1''] (lib d1)"
    "d1 = d\<lparr>sms_queue := (sms_queue d)(sms_mq_id (gsm_sms d ! nat p) \<mapsto> ms),
       gsm_sms := (gsm_sms d)[nat p := sending (queued num txt) (gsm_sms d ! nat p)], lib := lib d1\<rparr>"
    by (auto simp: wp_def)
  have x1: "gsm_sms d1 ! nat p = sending (queued num txt) (gsm_sms d ! nat p)" using n by (subst d1(4)) simp
  have "sms_state (gsm_sms d1 ! nat p) = GSM_SMS_STATE_EXPECTING_OK" by (simp add: x1 sending_def)
  from idle_event_keeps [OF d1(2) _ _ number_step [OF d1(2) this l(1)]] l(1)
  obtain d2 where d2: "cb_events par p l1 d1 = Ret ((), d2)" "no_call p d2"
    "reached p (lib d1) [Send ((if gsm_save_out_msgs d1 \<noteq> 0 then ''AT+CMGW='' else ''AT+CMGS='') @ [QUOTE] @
       sms_number (gsm_sms d1 ! nat p) @ [QUOTE]), Sms_enter, Post_next] (lib d2)"
    "d2 = d1\<lparr>gsm_sms := (gsm_sms d1)[nat p := (gsm_sms d1 ! nat p)\<lparr>sms_state := GSM_SMS_STATE_EXPECTING_PROMPT\<rparr>], lib := lib d2\<rparr>"
    by (auto simp: line_shape_def)
  have n1: "length (gsm_sms d1) = length (gsm_sms d)" by (subst d1(4)) simp
  have x2: "gsm_sms d2 ! nat p = (gsm_sms d1 ! nat p)\<lparr>sms_state := GSM_SMS_STATE_EXPECTING_PROMPT\<rparr>"
    using n n1 by (subst d2(4)) simp
  have "sms_state (gsm_sms d2 ! nat p) \<noteq> GSM_SMS_STATE_NONE" by (simp add: x2)
  from idle_event_keeps [OF d2(2) _ _ text_step [OF d2(2) this l(2)]] l(2)
  obtain d3 where d3: "cb_events par p l2 d2 = Ret ((), d3)" "no_call p d3"
    "reached p (lib d2) [Send_raw (sms_text (gsm_sms d2 ! nat p) @ [CHR 0x1A])] (lib d3)"
    "d3 = d2\<lparr>gsm_sms := (gsm_sms d2)[nat p := (gsm_sms d2 ! nat p)\<lparr>sms_state := GSM_SMS_STATE_SMS_SENT\<rparr>], lib := lib d3\<rparr>"
    by (auto simp: line_shape_def)
  have n2: "length (gsm_sms d2) = length (gsm_sms d)" by (subst d2(4)) (simp add: n1)
  have x3: "gsm_sms d3 ! nat p = (gsm_sms d2 ! nat p)\<lparr>sms_state := GSM_SMS_STATE_SMS_SENT\<rparr>"
    using n n2 by (subst d3(4)) simp
  have s: "gsm_save_out_msgs d1 = gsm_save_out_msgs d" by (subst d1(4)) simp
  have "reached p (lib d) (sms_calls d num txt) (lib d3)"
    using reached_trans [OF reached_trans [OF d1(3) d2(3)] d3(3)]
    by (simp add: sms_calls_def x1 x2 s sending_def queued_def)
  moreover have q: "sms_queue d3 = (sms_queue d)(sms_mq_id (gsm_sms d ! nat p) \<mapsto> ms)" "answers d3 = answers d" "asked d3 = asked d"
    by (subst d3(4), simp, subst d2(4), simp, subst d1(4), simp)+
  moreover have "cb_lines par p [l1, l2] d1 = Ret ((), d3)"
    using d2(1) d3(1) by (simp add: gthen_def gbind_def ret_def)
  ultimately show ?thesis
    using d1(1) d3(2) by (intro exI [of _ d1] exI [of _ d3]) (simp add: x1 x2 x3 sending_def)
qed


definition demo_sms :: gsm_drv where
  "demo_sms = demo_drv\<lparr>sms_queue := [1 \<mapsto> [queued ''+49301234'' ''hello'']]\<rparr>"

lemma demo_sms_no_call: "no_call 1 demo_sms"
  using demo_drv_no_call
  by (simp add: demo_sms_def no_call_def base_def heap_fresh_def priv_def msg_fine_def queued_def sms_message_zero_def SMS_MSG_SZ_def)


end
