(* ===== verification/Gsm_Fetch_Props.thy ===== *)
theory Gsm_Fetch_Props
  imports Gsm_Sms_Props
begin

text \<open>
  The messages a GSM module has stored, listed to the channel driver in text mode: the parsing of the list, the files, and the
  deletion of what was saved, as one dialogue from the first line of the list to the last confirmation.
\<close>


section \<open>Fetching stored messages\<close>

text \<open>A message stored in the module, and the lines of the list that show it (text mode).\<close>

record stored_sms =
  at_index :: int
  from_number :: string
  at_date :: string
  body :: "string list"

definition cmgl_header :: "stored_sms \<Rightarrow> string" where
  "cmgl_header m = ''+CMGL: '' @ itoa (at_index m) @ '','' @ [QUOTE] @ ''REC READ'' @ [QUOTE] @ '','' @ [QUOTE] @ from_number m @
     [QUOTE] @ '',,'' @ [QUOTE] @ at_date m @ [QUOTE]"

text \<open>A message that can be listed: the fields fit, and no line of the text looks like an event.\<close>

definition listable :: "stored_sms \<Rightarrow> bool" where
  "listable m \<longleftrightarrow> 0 < at_index m \<and> at_index m < 2 ^ 31 \<and> QUOTE \<notin> set (from_number m) \<and> length (from_number m) < SMS_NUM_SZ \<and>
     QUOTE \<notin> set (at_date m) \<and> length (at_date m) < 32 \<and> length (concat (body m)) < SMS_MSG_SZ \<and>
     parse_events (cmgl_header m) = GSM_EVENT_SMS_NEW_MESSAGE \<and>
     (\<forall>l \<in> set (body m). l \<noteq> [] \<and> parse_events l = GSM_EVENT_NONE)"

lemma strsep_at:
  assumes "\<forall>c \<in> set s. c \<notin> set ds" "x \<in> set ds"
  shows "strsep ds (Some (s @ x # r)) = (Some s, Some r)"
  using assms by (simp add: strsep_def takeWhile_append dropWhile_append)

lemma digits_chars: "c \<in> set (digits n) \<Longrightarrow> isdigit c"
proof (induction n rule: digits.induct)
  case (1 n)
  have d: "isdigit (char_of (48 + k))" if "k < 10" for k :: nat using that by (simp add: isdigit_def)
  show ?case
  proof (cases "n < 10")
    case True
    then show ?thesis using 1(2) d [of n] by (simp add: digits.simps [of n])
  next
    case False
    then show ?thesis using 1 d [of "n mod 10"] by (auto simp: digits.simps [of n])
  qed
qed

lemma number_append: "(\<And>c. c \<in> set s \<Longrightarrow> isdigit c) \<Longrightarrow> number a (s @ r) = number (fst (number a s)) r"
  by (induction s arbitrary: a) auto

lemma number_digits: "number a (digits n) = (a * 10 ^ length (digits n) + n, [])"
proof (induction n arbitrary: a rule: digits.induct)
  case (1 n)
  have d: "isdigit (char_of (48 + k))" "of_char (char_of (48 + k) :: char) = 48 + k" if "k < 10" for k :: nat
    using that by (simp_all add: isdigit_def)
  show ?case
  proof (cases "n < 10")
    case True
    then show ?thesis using d [of n] by (simp add: digits.simps [of n] mult.commute)
  next
    case False
    then show ?thesis
      using 1 d [of "n mod 10"] number_append [of "digits (n div 10)" a "[char_of (48 + n mod 10)]"] digits_chars
      by (simp add: digits.simps [of n] algebra_simps)
  qed
qed

lemma digits_nonempty: "digits n \<noteq> []"
  by (simp add: digits.simps [of n])

lemma strtol_itoa:
  assumes "0 < i" "i < 2 ^ 31"
  shows "strtol (CHR '' '' # itoa i) = i"
proof -
  obtain c s where cs: "itoa i = c # s" "isdigit c"
    using assms digits_nonempty [of "nat i"] digits_chars [of _ "nat i"] by (cases "digits (nat i)") (auto simp: itoa_def)
  then have "\<not> isspace c" "c \<notin> {CHR ''-'', CHR ''+''}" by (auto simp: isdigit_def isspace_def)
  then have "signed_number (CHR '' '' # itoa i) = (Some i, [])"
    using assms cs number_digits [of 0 "nat i"]
    by (simp add: signed_number_def Let_def isspace_def [of "CHR '' ''"] itoa_def)
  then show ?thesis using assms by (simp add: strtol_def)
qed

lemma wp_token: "strsep ds q = (Some r, u) \<Longrightarrow> wp (token ds q f) Q d = wp (f r u) Q d"
  by (simp add: token_def)

lemma header_tokens:
  assumes "listable m"
  obtains r1 r2 t r3 r4 r5 r6 where "strsep '':'' (Some (cmgl_header m)) = (Some ''+CMGL'', Some r1)"
    "strsep '','' (Some r1) = (Some (CHR '' '' # itoa (at_index m)), Some r2)" "strsep '','' (Some r2) = (Some t, Some r3)"
    "strsep [QUOTE] (Some r3) = (Some [], Some r4)" "strsep [QUOTE] (Some r4) = (Some (from_number m), Some r5)"
    "strsep [QUOTE] (Some r5) = (Some '',,'', Some r6)" "strsep [QUOTE] (Some r6) = (Some (at_date m), Some [])"
proof -
  let ?d = "at_date m @ [QUOTE]"
  let ?n = "from_number m @ QUOTE # '',,'' @ QUOTE # ?d"
  have i: "\<forall>c \<in> set (itoa (at_index m)). c \<noteq> CHR '',''"
    using assms digits_chars [of "CHR '',''" "nat (at_index m)"] by (auto simp: listable_def itoa_def isdigit_def)
  have q: "\<forall>c \<in> set (from_number m). c \<notin> set [QUOTE]" "\<forall>c \<in> set (at_date m). c \<notin> set [QUOTE]"
    using assms by (auto simp: listable_def)
  have h: "cmgl_header m = ''+CMGL'' @ CHR '':'' # (CHR '' '' # itoa (at_index m)) @ CHR '','' #
      (QUOTE # ''REC READ'' @ [QUOTE]) @ CHR '','' # [] @ QUOTE # ?n"
    by (simp add: cmgl_header_def)
  have s: "strsep '':'' (Some (cmgl_header m)) = (Some ''+CMGL'', Some ((CHR '' '' # itoa (at_index m)) @ CHR '','' #
      (QUOTE # ''REC READ'' @ [QUOTE]) @ CHR '','' # [] @ QUOTE # ?n))"
    "strsep '','' (Some ((CHR '' '' # itoa (at_index m)) @ CHR '','' # r)) = (Some (CHR '' '' # itoa (at_index m)), Some r)"
    "strsep '','' (Some ((QUOTE # ''REC READ'' @ [QUOTE]) @ CHR '','' # r)) = (Some (QUOTE # ''REC READ'' @ [QUOTE]), Some r)"
    "strsep [QUOTE] (Some ([] @ QUOTE # r)) = (Some [], Some r)"
    "strsep [QUOTE] (Some ?n) = (Some (from_number m), Some ('',,'' @ QUOTE # ?d))"
    "strsep [QUOTE] (Some ('',,'' @ QUOTE # r)) = (Some '',,'', Some r)"
    "strsep [QUOTE] (Some ?d) = (Some (at_date m), Some [])" for r
    by (subst h, rule strsep_at, simp, simp) (rule strsep_at, use i q in \<open>simp_all del: append.simps\<close>)+
  show thesis by (rule that [OF s])
qed

lemma header_shape:
  assumes "listable m"
  shows "line_shape (cmgl_header m)"
proof -
  obtain r1 r2 t r3 r4 r5 r6 where s: "strsep '':'' (Some (cmgl_header m)) = (Some ''+CMGL'', Some r1)"
    "strsep '','' (Some r1) = (Some (CHR '' '' # itoa (at_index m)), Some r2)" "strsep '','' (Some r2) = (Some t, Some r3)"
    "strsep [QUOTE] (Some r3) = (Some [], Some r4)" "strsep [QUOTE] (Some r4) = (Some (from_number m), Some r5)"
    "strsep [QUOTE] (Some r5) = (Some '',,'', Some r6)" "strsep [QUOTE] (Some r6) = (Some (at_date m), Some [])"
    using header_tokens [OF assms] .
  show ?thesis
    using assms by (simp add: line_shape_def listable_def number_field_def date_field_def skip_to_number_def s)
qed

lemma wp_text_header:
  assumes "listable m" "in_range p (gsm_sms d)"
  shows "wp (text_header p (cmgl_header m)) Q d = Q () (d\<lparr>gsm_sms := (gsm_sms d)[nat p := (gsm_sms d ! nat p)
    \<lparr>sms_state := GSM_SMS_STATE_GET_TEXT,
     inbound_msg := (inbound_msg (gsm_sms d ! nat p))\<lparr>sms_index := at_index m, msg_number := from_number m, msg_date := at_date m, msg_text := []\<rparr>\<rparr>]\<rparr>)"
proof -
  obtain r1 r2 t r3 r4 r5 r6 where s: "strsep '':'' (Some (cmgl_header m)) = (Some ''+CMGL'', Some r1)"
    "strsep '','' (Some r1) = (Some (CHR '' '' # itoa (at_index m)), Some r2)" "strsep '','' (Some r2) = (Some t, Some r3)"
    "strsep [QUOTE] (Some r3) = (Some [], Some r4)" "strsep [QUOTE] (Some r4) = (Some (from_number m), Some r5)"
    "strsep [QUOTE] (Some r5) = (Some '',,'', Some r6)" "strsep [QUOTE] (Some r6) = (Some (at_date m), Some [])"
    using header_tokens [OF assms(1)] .
  have n: "nat p < length (gsm_sms d)" using assms(2) by linarith
  show ?thesis
    using assms
    by (simp only: text_header_def wp_token [OF s(1)] wp_token [OF s(2)] wp_token [OF s(3)] wp_token [OF s(4)]
        wp_token [OF s(5)] wp_token [OF s(6)] wp_token [OF s(7)] wp_gthen wp_gbind msg_upd_def wp_sms_upd wp_fits set_sms_state_def)
       (simp add: listable_def strtol_itoa n)
qed

text \<open>The directory for messages, and the contents of the files that were written.\<close>

definition sms_dir :: "gsm_drv \<Rightarrow> string" where
  "sms_dir d = (case cm_get (config d) True 96 (int SECT_GENERAL) (int (cfg_gen_id CFG_GEN_SMS_DIR)) Id_none of
     Ret (_, _, Some s) \<Rightarrow> s | _ \<Rightarrow> [])"

fun file_text :: "ast_effect \<Rightarrow> string list" where
  "file_text (File_written name txt) = [txt]"
| "file_text e = []"

definition saved_files :: "gsm_drv \<Rightarrow> string list" where
  "saved_files d = concat (map file_text (ast_trace d))"

lemma cm_get_sms_dir:
  assumes "loaded_wf cm" "cm_secs cm = config_sections"
  shows "cm_get (Some cm) True 96 (int SECT_GENERAL) (int (cfg_gen_id CFG_GEN_SMS_DIR)) Id_none =
    Ret (Some cm, copy_out (effective (cm_vals cm ! 0) 0 (cfg_gen_id CFG_GEN_SMS_DIR)) 96)"
  using cm_get_loaded [OF assms(1), of 0 "cfg_gen_id CFG_GEN_SMS_DIR" 96 Id_none] assms(2) config_sections_facts
    cfg_gen_id_less [of CFG_GEN_SMS_DIR]
  by (auto simp: id_matches_def SECT_GENERAL_def)

lemma wp_cfg_read_dir:
  assumes "configured p (config d)"
  shows "\<exists>re. cfg_read 96 SECT_GENERAL (cfg_gen_id CFG_GEN_SMS_DIR) Id_none d = Ret ((re, sms_dir d), d) \<and> length (sms_dir d) < 96"
proof -
  obtain cm where cm: "config d = Some cm" "loaded_wf cm" "cm_secs cm = config_sections"
    using assms by (auto simp: configured_def)
  obtain re v where v: "copy_out (effective (cm_vals cm ! 0) 0 (cfg_gen_id CFG_GEN_SMS_DIR)) 96 = (re, Some v)" "length v < 96"
    using copy_out_text [of 96] by fastforce
  show ?thesis
    using cm_get_sms_dir [OF cm(2,3)] v cm(1) by (simp add: cfg_read_def sms_dir_def config_same)
qed

lemma wp_save_sms:
  assumes "base p d" "sms_dir d \<noteq> []" "\<And>n. 0 \<le> answers d n" "\<not> pdu_mode p d"
    and "\<And>f. Q () (d\<lparr>asked := Suc (Suc (Suc (asked d))),
      ast_trace := ast_trace d @ [File_written f (sms_file_text p 0 m)] @ [sms_event p 0 m]\<rparr>)"
  shows "wp (save_sms p m) Q d"
proof -
  note bD = baseD [OF assms(1)]
  obtain re where r: "cfg_read 96 SECT_GENERAL (cfg_gen_id CFG_GEN_SMS_DIR) Id_none d = Ret ((re, sms_dir d), d)" "length (sms_dir d) < 96"
    using wp_cfg_read_dir [OF bD(13)] by blast
  have n: "length (''/'' @ itoa (s mod 2 ^ 31) @ ''-'' @ itoa (u mod 1000000) @ ''-port-'' @ itoa p @ ''.sms'') < 64"
    "length (sms_dir d @ ''/'' @ itoa (s mod 2 ^ 31) @ ''-'' @ itoa (u mod 1000000) @ ''-port-'' @ itoa p @ ''.sms'') < 128" for s u
    using file_name_length [of p s u] bD(3,5) r(2) by auto
  have c: "wp (cfg_read 96 SECT_GENERAL (cfg_gen_id CFG_GEN_SMS_DIR) Id_none) Q d = Q (re, sms_dir d) d" for Q
    by (simp only: wp_def r(1)) simp
  have f: "\<not> answers d (Suc (Suc (asked d))) < 0" using assms(3) by (simp add: not_less)
  show ?thesis
    unfolding save_sms_def wp_gbind [of "cfg_read 96 SECT_GENERAL (cfg_gen_id CFG_GEN_SMS_DIR) Id_none"] c
    using assms(2,4,5) bD(3-5,10) f
      n(1) [of "answers d (asked d)" "answers d (Suc (asked d))"] n(2) [of "answers d (asked d)" "answers d (Suc (asked d))"]
    by (simp add: wp_gbind wp_if wp_ret gettimeofday_def wp_answer wp_fits wp_fun wp_gthen wp_effect wp_on_lib wp_cfg_get pdu_mode_def
        del: append_Cons append_Nil length_append)
qed

lemma wp_finish_message:
  assumes "base p d" "sms_dir d \<noteq> []" "\<And>n. 0 \<le> answers d n" "\<not> pdu_mode p d"
    and "sms_work (gsm_sms d ! nat p) = GSM_SMS_WORK_FETCH"
    and "\<And>f. Q () (d\<lparr>asked := Suc (Suc (Suc (asked d))),
      ast_trace := ast_trace d @ [File_written f (sms_file_text p 0 (inbound_msg (gsm_sms d ! nat p)))] @ [sms_event p 0 (inbound_msg (gsm_sms d ! nat p))],
      sms_idx := idx_add (sms_index (inbound_msg (gsm_sms d ! nat p))) (sms_idx d)\<rparr>)"
  shows "wp (finish_message p) Q d"
  using baseD [OF assms(1)] assms(5,6)
  by (auto simp: finish_message_def wp_gthen wp_gbind wp_sms_get wp_ret wp_fun sms_idx_add_def wp_modify intro!: wp_save_sms [OF assms(1-4)])

text \<open>The state of a fetch: the files written, the calls of the library, the indices to delete.\<close>

definition fetching :: "int \<Rightarrow> gsm_drv \<Rightarrow> string list \<Rightarrow> Gsmctl_Calls.gsm_call list \<Rightarrow> int list \<Rightarrow> gsm_drv \<Rightarrow> bool" where
  "fetching p d0 fs cs xs d \<longleftrightarrow> reached p (lib d0) cs (lib d) \<and> config d = config d0 \<and> answers d = answers d0 \<and>
     saved_files d = saved_files d0 @ fs \<and> sms_idx d = xs"

text \<open>A message of the list of which the text \<open>t\<close> was read.\<close>

definition reading :: "int \<Rightarrow> stored_sms \<Rightarrow> string \<Rightarrow> gsm_drv \<Rightarrow> bool" where
  "reading p m t d \<longleftrightarrow> sms_state (gsm_sms d ! nat p) = GSM_SMS_STATE_GET_TEXT \<and> sms_work (gsm_sms d ! nat p) = GSM_SMS_WORK_FETCH \<and>
     (\<exists>x. inbound_msg (gsm_sms d ! nat p) = x\<lparr>sms_index := at_index m, msg_number := from_number m, msg_date := at_date m, msg_text := t\<rparr>)"

definition stored_file :: "int \<Rightarrow> stored_sms \<Rightarrow> string \<Rightarrow> string" where
  "stored_file p m t = ''port='' @ itoa p @ [LF] @ ''callerid='' @ from_number m @ [LF] @ ''date='' @ at_date m @ [LF] @
     ''text='' @ t @ [LF]"

text \<open>What the fetch needs of the state it starts in: a directory, files that can be opened, text mode.\<close>

definition can_save :: "int \<Rightarrow> gsm_drv \<Rightarrow> bool" where
  "can_save p d \<longleftrightarrow> sms_dir d \<noteq> [] \<and> (\<forall>n. 0 \<le> answers d n) \<and> \<not> pdu_mode p d"

lemma fetching_can_save:
  assumes "fetching p d0 fs cs xs d" "can_save p d0"
  shows "sms_dir d \<noteq> []" "0 \<le> answers d n" "\<not> pdu_mode p d"
  using assms by (auto simp: fetching_def can_save_def sms_dir_def pdu_mode_def dest: reached_config)

lemma wp_finish_reading:
  assumes "base p d" "fetching p d0 fs cs xs d" "can_save p d0" "reading p m t d"
    and "\<And>d'. fetching p d0 (fs @ [stored_file p m t]) cs (idx_add (at_index m) xs) d' \<Longrightarrow> gsm_sms d' = gsm_sms d \<Longrightarrow>
      lib d = lib d' \<Longrightarrow> base p d' \<Longrightarrow> Q () d'"
  shows "wp (finish_message p) Q d"
proof (rule wp_finish_message [OF assms(1) fetching_can_save [OF assms(2,3)]])
  show "sms_work (gsm_sms d ! nat p) = GSM_SMS_WORK_FETCH" using assms(4) by (simp add: reading_def)
next
  fix f
  have i: "int32 (sms_index (inbound_msg (gsm_sms d ! nat p)))" using baseD(11) [OF assms(1)] by (simp add: sms_fine_def)
  have b: "base p (d\<lparr>sms_idx := idx_add (sms_index (inbound_msg (gsm_sms d ! nat p))) (sms_idx d)\<rparr>)"
    by (rule base_sms_idx [OF assms(1)]) (use i assms(1) idx_add_set in \<open>fastforce simp: base_def\<close>)
  show "Q () (d\<lparr>asked := Suc (Suc (Suc (asked d))),
      ast_trace := ast_trace d @ [File_written f (sms_file_text p 0 (inbound_msg (gsm_sms d ! nat p)))] @ [sms_event p 0 (inbound_msg (gsm_sms d ! nat p))],
      sms_idx := idx_add (sms_index (inbound_msg (gsm_sms d ! nat p))) (sms_idx d)\<rparr>)"
    by (intro assms(5)) (use assms(2,4) b in \<open>auto simp: base_def fetching_def reading_def saved_files_def stored_file_def sms_file_text_def sms_event_def\<close>)
qed

lemma fetching_sms [simp]: "fetching p d0 fs cs xs (d\<lparr>gsm_sms := y\<rparr>) = fetching p d0 fs cs xs d"
  by (simp add: fetching_def saved_files_def)

lemma wp_header:
  assumes "listable m" "in_range p (gsm_sms d)" "fetching p d0 fs cs xs d" "sms_work (gsm_sms d ! nat p) = GSM_SMS_WORK_FETCH"
    and "\<And>d'. fetching p d0 fs cs xs d' \<Longrightarrow> reading p m [] d' \<Longrightarrow> Q () d'"
  shows "wp (text_header p (cmgl_header m)) Q d"
proof -
  have n: "nat p < length (gsm_sms d)" using assms(2) by linarith
  show ?thesis
    unfolding wp_text_header [OF assms(1,2)] by (rule assms(5)) (use assms(3,4) n in \<open>auto simp: reading_def\<close>)
qed

text \<open>The header of the first message, and of the next one, which completes the message before it.\<close>

lemma header_event:
  assumes "no_call p d" "listable m" "sms_state (gsm_sms d ! nat p) \<noteq> GSM_SMS_STATE_NONE"
    and "wp (sms_new_message p (cmgl_header m)) (\<lambda>_. Q) d"
  shows "\<exists>d'. cb_events par p (cmgl_header m) d = Ret ((), d') \<and> no_call p d' \<and> Q d'"
proof (rule idle_event_keeps [OF assms(1)])
  have m: "parse_events (cmgl_header m) = GSM_EVENT_SMS_NEW_MESSAGE" using assms(2) by (simp add: listable_def)
  show "parse_events (cmgl_header m) \<notin> {GSM_EVENT_NONE, GSM_EVENT_RING}" by (simp add: m)
  show "line_shape (cmgl_header m)" by (rule header_shape [OF assms(2)])
  show "wp (cb_events par p (cmgl_header m)) (\<lambda>_. Q) d"
    using assms m by (simp add: wp_idle_event cb_sms_def cb_precall_def wp_ret wp_fun)
qed

lemma header_first:
  assumes "no_call p d" "fetching p d0 fs cs xs d" "can_save p d0" "listable m"
    and "sms_state (gsm_sms d ! nat p) \<notin> {GSM_SMS_STATE_NONE, GSM_SMS_STATE_GET_TEXT}" "sms_work (gsm_sms d ! nat p) = GSM_SMS_WORK_FETCH"
  shows "\<exists>d'. cb_events par p (cmgl_header m) d = Ret ((), d') \<and> no_call p d' \<and> fetching p d0 fs cs xs d' \<and> reading p m [] d'"
proof (rule header_event [OF assms(1,4)])
  have b: "base p d" using assms(1) by (simp add: no_call_def)
  show "wp (sms_new_message p (cmgl_header m)) (\<lambda>_ d'. fetching p d0 fs cs xs d' \<and> reading p m [] d') d"
    using assms(5,6) baseD [OF b] fetching_can_save(3) [OF assms(2,3)]
    by (auto simp: sms_new_message_def wp_gbind wp_sms_get wp_gthen wp_on_lib wp_cfg_get wp_ret wp_fun
        pdu_mode_def intro!: wp_header [OF assms(4) _ assms(2)])
qed (use assms(5) in simp)

lemma header_next:
  assumes "no_call p d" "fetching p d0 fs cs xs d" "can_save p d0" "listable m'" "reading p m t d"
  shows "\<exists>d'. cb_events par p (cmgl_header m') d = Ret ((), d') \<and> no_call p d' \<and>
    fetching p d0 (fs @ [stored_file p m t]) cs (idx_add (at_index m) xs) d' \<and> reading p m' [] d'" (is "\<exists>d'. _ \<and> _ \<and> ?F d' \<and> ?R d'")
proof (rule header_event [OF assms(1,4)])
  have b: "base p d" using assms(1) by (simp add: no_call_def)
  have r: "sms_state (gsm_sms d ! nat p) = GSM_SMS_STATE_GET_TEXT" "sms_work (gsm_sms d ! nat p) = GSM_SMS_WORK_FETCH"
    using assms(5) by (simp_all add: reading_def)
  have h: "wp (text_header p (cmgl_header m')) (\<lambda>_ d'. ?F d' \<and> ?R d') d'" if "?F d'" "gsm_sms d' = gsm_sms d" for d'
    by (rule wp_header [OF assms(4) _ that(1)]) (use baseD [OF b] r that(2) in auto)
  show "wp (sms_new_message p (cmgl_header m')) (\<lambda>_ d'. ?F d' \<and> ?R d') d"
    using baseD [OF b] fetching_can_save(3) [OF assms(2,3)] r
    by (auto simp: sms_new_message_def wp_gbind wp_sms_get wp_gthen wp_on_lib wp_cfg_get wp_fun pdu_mode_def h
        intro!: wp_finish_reading [OF b assms(2,3,5)])
qed (use assms(5) in \<open>simp add: reading_def\<close>)

text \<open>A line of the text.\<close>

lemma body_line:
  assumes "no_call p d" "fetching p d0 fs cs xs d" "reading p m t d" "l \<noteq> []" "parse_events l = GSM_EVENT_NONE" "length (t @ l) < SMS_MSG_SZ"
  shows "\<exists>d'. cb_events par p l d = Ret ((), d') \<and> no_call p d' \<and> fetching p d0 fs (cs @ [Unknown_event l]) xs d' \<and> reading p m (t @ l) d'"
proof -
  have b: "base p d" using assms(1) by (simp add: no_call_def)
  have r: "reached p (lib d) [] (lib d)" by (rule reached_start [OF baseD(1) [OF b]])
  have "wp (cb_events par p l) (\<lambda>_ d'. reached p (lib d) [Unknown_event l] (lib d') \<and> d' = d\<lparr>lib := lib d', gsm_sms := (gsm_sms d)[nat p :=
      (gsm_sms d ! nat p)\<lparr>inbound_msg := (inbound_msg (gsm_sms d ! nat p))\<lparr>msg_text := t @ l\<rparr>\<rparr>]\<rparr>) d"
    using assms baseD [OF b] r
    apply (simp add: wp_cb_events_idle wp_gthen wp_gbind wp_on_lib reading_def)
    apply (erule reached_intro)
    apply (auto simp: wp_sms_get cb_sms_def wp_gbind wp_fits msg_upd_def wp_sms_upd cb_precall_def wp_ret wp_fun)
    done
  moreover have "wp (cb_events par p l) (\<lambda>_. no_call p) d"
    using cb_events_idle [OF assms(1), of l par] assms
    by (auto simp: line_fits_def line_shape_def reading_def wp_def)
  ultimately obtain d' where d': "cb_events par p l d = Ret ((), d')" "no_call p d'" "reached p (lib d) [Unknown_event l] (lib d')"
    "d' = d\<lparr>lib := lib d', gsm_sms := (gsm_sms d)[nat p :=
      (gsm_sms d ! nat p)\<lparr>inbound_msg := (inbound_msg (gsm_sms d ! nat p))\<lparr>msg_text := t @ l\<rparr>\<rparr>]\<rparr>"
    by (auto simp: wp_def)
  have "fetching p d0 fs (cs @ [Unknown_event l]) xs d'"
    using assms(2) d'(3) by (subst d'(4)) (auto simp: fetching_def saved_files_def intro: reached_trans)
  moreover have "reading p m (t @ l) d'"
    using assms(3) baseD [OF b] by (subst d'(4)) (auto simp: reading_def)
  ultimately show ?thesis using d'(1,2) by blast
qed

text \<open>The next message is deleted, or there is none left.\<close>

lemma wp_delete_next:
  assumes "base p d" "fetching p d0 fs cs xs d" "idx_get_next xs = (i, ys)"
    and "i = 0 \<Longrightarrow> fetching p d0 fs cs ys (d\<lparr>sms_idx := ys\<rparr>) \<Longrightarrow> Q False (d\<lparr>sms_idx := ys\<rparr>)"
    and "\<And>d'. i \<noteq> 0 \<Longrightarrow> fetching p d0 fs (cs @ [Send (''AT+CMGD='' @ itoa i)]) ys d' \<Longrightarrow>
      gsm_sms d' = (gsm_sms d)[nat p := (gsm_sms d ! nat p)\<lparr>sms_state := GSM_SMS_STATE_FLUSHING\<rparr>] \<Longrightarrow> Q True d'"
  shows "wp (delete_next p) Q d"
proof -
  note bD = baseD [OF assms(1)]
  have r: "reached p (lib d0) cs (lib d)" "sms_idx d = xs" using assms(2) by (simp_all add: fetching_def)
  have "\<forall>j \<in> set xs. int32 j" using assms(1) r(2) by (simp add: base_def)
  then have "int32 i" using idx_get_next_set(1) [of xs] assms(3) by auto
  from itoa_int32 [OF this] show ?thesis
    using bD assms(3) r(2)
    apply (simp add: delete_next_def sms_idx_get_next_def wp_gbind wp_gets wp_gthen wp_modify wp_ret wp_fits set_sms_state_def wp_sms_upd wp_on_lib wp_fun)
    apply (intro conjI impI)
     apply (rule assms(4), simp)
    using assms(2)
     apply (simp add: fetching_def saved_files_def)
    apply (rule reached_send [OF r(1)], simp)
    apply (rule assms(5), simp)
    using assms(2)
     apply (simp add: fetching_def saved_files_def)
    apply simp
    done
qed

text \<open>\<open>OK\<close> ends the list: the last message is completed and the first one deleted; each further \<open>OK\<close> deletes the next.\<close>

lemma ok_event:
  assumes "no_call p d" "parse_events l = GSM_EVENT_OK" "sms_state (gsm_sms d ! nat p) \<noteq> GSM_SMS_STATE_NONE"
    and "wp (sms_ok p) (\<lambda>_ d'. fetching p d0 fs cs xs d' \<and> Q (gsm_sms d')) d"
  shows "\<exists>d'. cb_events par p l d = Ret ((), d') \<and> no_call p d' \<and> fetching p d0 fs (cs @ [Post_next]) xs d' \<and> Q (gsm_sms d')"
proof (rule idle_event_keeps [OF assms(1)])
  show "wp (cb_events par p l) (\<lambda>_ d'. fetching p d0 fs (cs @ [Post_next]) xs d' \<and> Q (gsm_sms d')) d"
    using assms
    apply (simp add: wp_idle_event cb_sms_def cb_precall_def)
    apply (erule wp_mono)
    apply (simp add: wp_plain wp_ret wp_on_lib wp_fun fetching_def)
    apply (elim conjE, erule reached_intro)
    apply (simp add: saved_files_def)
    done
qed (use assms(2) in \<open>auto simp: line_shape_def\<close>)

lemma list_end:
  assumes "no_call p d" "fetching p d0 fs cs xs d" "can_save p d0" "reading p m t d" "parse_events l = GSM_EVENT_OK"
    and "idx_get_next (idx_add (at_index m) xs) = (i, ys)" "i \<noteq> 0"
  shows "\<exists>d'. cb_events par p l d = Ret ((), d') \<and> no_call p d' \<and>
    fetching p d0 (fs @ [stored_file p m t]) (cs @ [Send (''AT+CMGD='' @ itoa i), Post_next]) ys d' \<and>
    sms_state (gsm_sms d' ! nat p) = GSM_SMS_STATE_FLUSHING"
proof -
  have b: "base p d" using assms(1) by (simp add: no_call_def)
  have r: "sms_state (gsm_sms d ! nat p) = GSM_SMS_STATE_GET_TEXT" using assms(4) by (simp add: reading_def)
  have "wp (sms_ok p) (\<lambda>_ d'. fetching p d0 (fs @ [stored_file p m t]) (cs @ [Send (''AT+CMGD='' @ itoa i)]) ys d' \<and>
      sms_state (gsm_sms d' ! nat p) = GSM_SMS_STATE_FLUSHING) d"
    using baseD [OF b] r assms(7)
    by (auto simp: sms_ok_def wp_gbind wp_sms_get wp_gthen wp_fun wp_ret intro!: wp_finish_reading [OF b assms(2-4)] wp_delete_next [OF _ _ assms(6)])
  from ok_event [OF assms(1,5) _ this] r show ?thesis by simp
qed

lemma flush_step:
  assumes "no_call p d" "fetching p d0 fs cs xs d" "sms_state (gsm_sms d ! nat p) = GSM_SMS_STATE_FLUSHING" "parse_events l = GSM_EVENT_OK"
    and "idx_get_next xs = (i, ys)"
  shows "\<exists>d'. cb_events par p l d = Ret ((), d') \<and> no_call p d' \<and>
    fetching p d0 fs (cs @ (if i = 0 then [] else [Send (''AT+CMGD='' @ itoa i)]) @ [Post_next]) ys d' \<and>
    sms_state (gsm_sms d' ! nat p) = (if i = 0 then GSM_SMS_STATE_NONE else GSM_SMS_STATE_FLUSHING)"
proof -
  have b: "base p d" using assms(1) by (simp add: no_call_def)
  have "wp (sms_ok p) (\<lambda>_ d'. fetching p d0 fs (cs @ (if i = 0 then [] else [Send (''AT+CMGD='' @ itoa i)])) ys d' \<and>
      sms_state (gsm_sms d' ! nat p) = (if i = 0 then GSM_SMS_STATE_NONE else GSM_SMS_STATE_FLUSHING)) d"
    using baseD [OF b] assms(3)
    by (auto simp: sms_ok_def wp_gbind wp_sms_get wp_gthen wp_fun wp_ret sms_idle_def wp_sms_upd intro!: wp_delete_next [OF b assms(2,5)])
  from ok_event [OF assms(1,4) _ this] assms(3) show ?thesis by simp
qed

text \<open>The lines that list a message, and the calls of the library while a list is read and messages are deleted.\<close>

definition listing :: "stored_sms \<Rightarrow> string list" where
  "listing m = cmgl_header m # body m"

definition list_calls :: "stored_sms list \<Rightarrow> Gsmctl_Calls.gsm_call list" where
  "list_calls ms = map Unknown_event (concat (map body ms))"

definition delete_calls :: "int list \<Rightarrow> Gsmctl_Calls.gsm_call list" where
  "delete_calls is = concat (map (\<lambda>i. [Send (''AT+CMGD='' @ itoa i), Post_next]) is)"

lemma cb_lines_Cons: "cb_events par p l d = Ret ((), d1) \<Longrightarrow> cb_lines par p (l # ls) d = cb_lines par p ls d1"
  by (simp add: gthen_def gbind_def crun)

lemma cb_lines_append: "cb_lines par p ls d = Ret ((), d1) \<Longrightarrow> cb_lines par p (ls @ ls') d = cb_lines par p ls' d1"
proof (induction ls arbitrary: d)
  case (Cons l ls)
  then obtain d2 where "cb_events par p l d = Ret ((), d2)" "cb_lines par p ls d2 = Ret ((), d1)"
    by (auto simp: gthen_def gbind_def run_bind_Ret_iff)
  with Cons.IH show ?case by (simp only: append_Cons cb_lines_Cons)
qed (simp add: ret_def)

lemma body_lines:
  assumes "no_call p d" "fetching p d0 fs cs xs d" "reading p m t d" "\<forall>l \<in> set ls. l \<noteq> [] \<and> parse_events l = GSM_EVENT_NONE"
    and "length (t @ concat ls) < SMS_MSG_SZ"
  shows "\<exists>d'. cb_lines par p ls d = Ret ((), d') \<and> no_call p d' \<and> fetching p d0 fs (cs @ map Unknown_event ls) xs d' \<and>
    reading p m (t @ concat ls) d'"
  using assms
proof (induction ls arbitrary: d cs t)
  case (Cons l ls)
  have l: "l \<noteq> []" "parse_events l = GSM_EVENT_NONE" "length (t @ l) < SMS_MSG_SZ" using Cons.prems by auto
  obtain d1 where d1: "cb_events par p l d = Ret ((), d1)" "no_call p d1" "fetching p d0 fs (cs @ [Unknown_event l]) xs d1" "reading p m (t @ l) d1"
    using body_line [OF Cons.prems(1-3) l] by blast
  from Cons.IH [OF d1(2-4)] Cons.prems(4,5) show ?case by (simp add: cb_lines_Cons [OF d1(1)] del: cb_lines.simps)
qed (simp add: ret_def)

text \<open>The rest of the list, after the first message was read.\<close>

lemma list_rest:
  assumes "no_call p d" "fetching p d0 fs cs xs d" "can_save p d0" "reading p m (concat (body m)) d" "\<forall>m \<in> set ms. listable m"
  shows "\<exists>d'. cb_lines par p (concat (map listing ms)) d = Ret ((), d') \<and> no_call p d' \<and>
    fetching p d0 (fs @ map (\<lambda>m. stored_file p m (concat (body m))) (butlast (m # ms))) (cs @ list_calls ms)
      (fold idx_add (map at_index (butlast (m # ms))) xs) d' \<and> reading p (last (m # ms)) (concat (body (last (m # ms)))) d'"
  using assms
proof (induction ms arbitrary: d fs cs xs m)
  case (Cons n ms)
  have n: "listable n" "\<forall>l \<in> set (body n). l \<noteq> [] \<and> parse_events l = GSM_EVENT_NONE" "length ([] @ concat (body n)) < SMS_MSG_SZ"
    using Cons.prems(5) by (auto simp: listable_def)
  obtain d1 where d1: "cb_events par p (cmgl_header n) d = Ret ((), d1)" "no_call p d1"
    "fetching p d0 (fs @ [stored_file p m (concat (body m))]) cs (idx_add (at_index m) xs) d1" "reading p n [] d1"
    using header_next [OF Cons.prems(1-3) n(1) Cons.prems(4)] by blast
  obtain d2 where d2: "cb_lines par p (body n) d1 = Ret ((), d2)" "no_call p d2"
    "fetching p d0 (fs @ [stored_file p m (concat (body m))]) (cs @ map Unknown_event (body n)) (idx_add (at_index m) xs) d2"
    "reading p n (concat (body n)) d2"
    using body_lines [OF d1(2-4) n(2,3)] by auto
  have "cb_lines par p (concat (map listing (n # ms))) d = cb_lines par p (concat (map listing ms)) d2"
    using cb_lines_Cons [OF d1(1)] cb_lines_append [OF d2(1)] by (simp add: listing_def del: cb_lines.simps)
  with Cons.IH [OF d2(2,3) Cons.prems(3) d2(4)] Cons.prems(5) show ?case by (simp add: list_calls_def)
qed (simp add: ret_def list_calls_def)

text \<open>The array of indices.\<close>

lemma idx_add_end: "0 \<notin> set xs \<Longrightarrow> idx_add i (xs @ 0 # ys) = xs @ i # ys"
  by (induction xs) auto

lemma fold_idx_add: "0 \<notin> set xs \<Longrightarrow> 0 \<notin> set is \<Longrightarrow> fold idx_add is (xs @ replicate (length is + k) 0) = xs @ is @ replicate k 0"
proof (induction "is" arbitrary: xs)
  case (Cons i "is")
  then show ?case using Cons.IH [of "xs @ [i]"] by (simp add: idx_add_end)
qed simp

lemma idx_get_next_zeros: "idx_get_next (replicate j 0 @ xs) = (case idx_get_next xs of (i, ys) \<Rightarrow> (i, replicate j 0 @ ys))"
  by (induction j) (auto split: prod.split)

lemma idx_get_next_free: "idx_get_next (replicate j 0) = (0, replicate j 0)"
  by (induction j) auto

lemma flush_all:
  assumes "no_call p d" "fetching p d0 fs cs (replicate j 0 @ is @ replicate k 0) d" "sms_state (gsm_sms d ! nat p) = GSM_SMS_STATE_FLUSHING"
    and "0 \<notin> set is" "length ls = Suc (length is)" "\<forall>l \<in> set ls. parse_events l = GSM_EVENT_OK"
  shows "\<exists>d'. cb_lines par p ls d = Ret ((), d') \<and> no_call p d' \<and>
    fetching p d0 fs (cs @ delete_calls is @ [Post_next]) (replicate (j + length is + k) 0) d' \<and> sms_state (gsm_sms d' ! nat p) = GSM_SMS_STATE_NONE"
  using assms
proof (induction "is" arbitrary: d cs j ls)
  case Nil
  then obtain l where l: "ls = [l]" "parse_events l = GSM_EVENT_OK" by (auto simp: length_Suc_conv)
  have "idx_get_next (replicate j 0 @ [] @ replicate k 0) = (0, replicate (j + k) 0)"
    by (simp add: replicate_add [symmetric] idx_get_next_free)
  from flush_step [OF Nil.prems(1-3) l(2) this, of par] obtain d' where d': "cb_events par p l d = Ret ((), d')" "no_call p d'"
    "fetching p d0 fs (cs @ [Post_next]) (replicate (j + k) 0) d'" "sms_state (gsm_sms d' ! nat p) = GSM_SMS_STATE_NONE"
    by auto
  then show ?case by (simp add: l(1) cb_lines_Cons [OF d'(1)] delete_calls_def ret_def del: cb_lines.simps(2))
next
  case (Cons i "is")
  then obtain l ls' where l: "ls = l # ls'" "parse_events l = GSM_EVENT_OK" by (auto simp: length_Suc_conv)
  have "idx_get_next (replicate j 0 @ (i # is) @ replicate k 0) = (i, replicate (Suc j) 0 @ is @ replicate k 0)"
    using Cons.prems(4) by (simp add: idx_get_next_zeros replicate_append_same)
  from flush_step [OF Cons.prems(1-3) l(2) this] Cons.prems(4) obtain d1 where d1: "cb_events par p l d = Ret ((), d1)" "no_call p d1"
    "fetching p d0 fs (cs @ [Send (''AT+CMGD='' @ itoa i), Post_next]) (replicate (Suc j) 0 @ is @ replicate k 0) d1"
    "sms_state (gsm_sms d1 ! nat p) = GSM_SMS_STATE_FLUSHING"
    by auto
  from Cons.IH [OF d1(2-4), of ls'] Cons.prems(4-6) show ?case
    by (simp add: l(1) cb_lines_Cons [OF d1(1)] delete_calls_def del: cb_lines.simps)
qed

text \<open>The whole list.\<close>

lemma list_all_messages:
  assumes "no_call p d" "can_save p d" "sms_work (gsm_sms d ! nat p) = GSM_SMS_WORK_FETCH"
    and "sms_state (gsm_sms d ! nat p) \<in> {GSM_SMS_STATE_EXPECTING_SMSLIST, GSM_SMS_STATE_LIST}" "\<forall>m \<in> set (m # ms). listable m"
  shows "\<exists>d'. cb_lines par p (concat (map listing (m # ms))) d = Ret ((), d') \<and> no_call p d' \<and>
    fetching p d (map (\<lambda>m. stored_file p m (concat (body m))) (butlast (m # ms))) (list_calls (m # ms))
      (fold idx_add (map at_index (butlast (m # ms))) (sms_idx d)) d' \<and> reading p (last (m # ms)) (concat (body (last (m # ms)))) d'"
proof -
  have m: "listable m" "\<forall>l \<in> set (body m). l \<noteq> [] \<and> parse_events l = GSM_EVENT_NONE" "length ([] @ concat (body m)) < SMS_MSG_SZ"
    using assms(5) by (auto simp: listable_def)
  have "base p d" using assms(1) by (simp add: no_call_def)
  from reached_start [OF baseD(1) [OF this]] have "fetching p d [] [] (sms_idx d) d" by (simp add: fetching_def)
  from header_first [OF assms(1) this assms(2) m(1), of par] assms(3,4) obtain d1 where d1: "cb_events par p (cmgl_header m) d = Ret ((), d1)" "no_call p d1"
    "fetching p d [] [] (sms_idx d) d1" "reading p m [] d1" by auto
  obtain d2 where d2: "cb_lines par p (body m) d1 = Ret ((), d2)" "no_call p d2"
    "fetching p d [] (map Unknown_event (body m)) (sms_idx d) d2" "reading p m (concat (body m)) d2"
    using body_lines [OF d1(2-4) m(2,3)] by auto
  have "cb_lines par p (concat (map listing (m # ms))) d = cb_lines par p (concat (map listing ms)) d2"
    using cb_lines_Cons [OF d1(1)] cb_lines_append [OF d2(1)] by (simp add: listing_def del: cb_lines.simps)
  with list_rest [OF d2(2,3) assms(2) d2(4), of ms] assms(5) show ?thesis by (simp add: list_calls_def)
qed

text \<open>The list, and the confirmations that follow.\<close>

lemma listed_messages_fetched:
  assumes "no_call p d" "can_save p d" "sms_work (gsm_sms d ! nat p) = GSM_SMS_WORK_FETCH"
    and "sms_state (gsm_sms d ! nat p) \<in> {GSM_SMS_STATE_EXPECTING_SMSLIST, GSM_SMS_STATE_LIST}" "sms_idx d = replicate 256 0"
    and "ms \<noteq> []" "length ms \<le> 256" "\<forall>m \<in> set ms. listable m"
    and "length oks = Suc (length ms)" "\<forall>l \<in> set oks. parse_events l = GSM_EVENT_OK"
  shows "\<exists>d'. cb_lines par p (concat (map listing ms) @ oks) d = Ret ((), d') \<and> no_call p d' \<and>
    saved_files d' = saved_files d @ map (\<lambda>m. stored_file p m (concat (body m))) ms \<and>
    run_calls p (list_calls ms @ delete_calls (map at_index ms) @ [Post_next]) (lib d) = Ret ((), lib d') \<and>
    sms_idx d' = replicate 256 0 \<and> sms_state (gsm_sms d' ! nat p) = GSM_SMS_STATE_NONE"
proof -
  obtain m ms' where ms: "ms = m # ms'" using assms(6) by (cases ms) auto
  obtain l ls where oks: "oks = l # ls" "parse_events l = GSM_EVENT_OK" using assms(9,10) by (cases oks) auto
  let ?file = "\<lambda>m. stored_file p m (concat (body m))" and ?is = "map at_index ms"
  obtain d1 where d1: "cb_lines par p (concat (map listing ms)) d = Ret ((), d1)" "no_call p d1"
    "fetching p d (map ?file (butlast ms)) (list_calls ms) (fold idx_add (map at_index (butlast ms)) (sms_idx d)) d1"
    "reading p (last ms) (concat (body (last ms))) d1"
    using list_all_messages [OF assms(1-4), of m ms' par] assms(8) unfolding ms by blast
  have i: "0 \<notin> set ?is" using assms(8) by (auto simp: listable_def)
  have "idx_add (at_index (last ms)) (fold idx_add (map at_index (butlast ms)) (sms_idx d)) = fold idx_add (map at_index (butlast ms @ [last ms])) (sms_idx d)"
    by simp
  also have "\<dots> = ?is @ replicate (256 - length ms) 0"
    using fold_idx_add [of "[]" ?is "256 - length ms"] i assms(5-7) by simp
  finally have n: "idx_get_next (idx_add (at_index (last ms)) (fold idx_add (map at_index (butlast ms)) (sms_idx d))) =
      (at_index m, replicate 1 0 @ map at_index ms' @ replicate (256 - length ms) 0)"
    using i by (simp add: ms)
  obtain d2 where d2: "cb_events par p l d1 = Ret ((), d2)" "no_call p d2"
    "fetching p d (map ?file (butlast ms) @ [?file (last ms)]) (list_calls ms @ [Send (''AT+CMGD='' @ itoa (at_index m)), Post_next])
      (replicate 1 0 @ map at_index ms' @ replicate (256 - length ms) 0) d2" "sms_state (gsm_sms d2 ! nat p) = GSM_SMS_STATE_FLUSHING"
    using list_end [OF d1(2,3) assms(2) d1(4) oks(2) n] i by (auto simp: ms)
  obtain d3 where d3: "cb_lines par p ls d2 = Ret ((), d3)" "no_call p d3"
    "fetching p d (map ?file (butlast ms) @ [?file (last ms)]) ((list_calls ms @ [Send (''AT+CMGD='' @ itoa (at_index m)), Post_next]) @
       delete_calls (map at_index ms') @ [Post_next]) (replicate (1 + length (map at_index ms') + (256 - length ms)) 0) d3"
    "sms_state (gsm_sms d3 ! nat p) = GSM_SMS_STATE_NONE"
    using flush_all [OF d2(2-4), of ls par] i assms(9,10) by (auto simp: ms oks(1))
  have f: "map ?file (butlast ms) @ [?file (last ms)] = map ?file ms"
    using assms(6) by (cases ms rule: rev_cases) simp_all
  have z: "1 + length (map at_index ms') + (256 - length ms) = 256" using assms(7) by (simp add: ms)
  have "cb_lines par p (concat (map listing ms) @ oks) d = Ret ((), d3)"
    using cb_lines_append [OF d1(1)] cb_lines_Cons [OF d2(1)] d3(1) by (simp add: oks(1) del: cb_lines.simps)
  then show ?thesis
    using d3(2,4) d3(3) [unfolded f z] by (intro exI [of _ d3]) (auto simp: fetching_def reached_def ms delete_calls_def)
qed

end
