(* ===== verification/Gsm_Cli.thy ===== *)
theory Gsm_Cli
  imports Gsm_Events
begin

text \<open>
  The console commands, manager actions and dialplan applications of the GSM channel driver
  (\<open>chan_gsm/chan_gsm.c\<close>). A handler is called to describe its command (\<open>CLI_INIT\<close>), to
  complete it (\<open>CLI_GENERATE\<close>) or to run it; it returns a result and the texts it prints with \<open>ast_cli\<close>, or
  with \<open>ast_verbose\<close> where that is all it does. Asterisk's division of the data of an application into
  arguments is a parameter.
\<close>


section \<open>Results and numbers\<close>

datatype cli_request = CLI_INIT | CLI_GENERATE | CLI_HANDLER

datatype cli_return =
    CLI_SUCCESS | CLI_SHOWUSAGE | CLI_FAILURE
  | Cli_entry string string
  | Cli_null

type_synonym cli_handler = "cli_request \<Rightarrow> string list \<Rightarrow> (cli_return \<times> string list) dm"

abbreviation TAB :: char where "TAB \<equiv> CHR 0x09"

text \<open>The \<open>switch\<close> all handlers start with.\<close>

definition cli_switch :: "string \<Rightarrow> string \<Rightarrow> (string list \<Rightarrow> (cli_return \<times> string list) dm) \<Rightarrow> cli_handler" where
  "cli_switch name usage body cmd argv = (case cmd of
       CLI_INIT \<Rightarrow> ret (Cli_entry name (''Usage: '' @ usage @ [LF]), [])
     | CLI_GENERATE \<Rightarrow> ret (Cli_null, [])
     | CLI_HANDLER \<Rightarrow> body argv)"

definition argc_is :: "nat \<Rightarrow> string list \<Rightarrow> (cli_return \<times> string list) dm \<Rightarrow> (cli_return \<times> string list) dm" where
  "argc_is n argv body = (if length argv \<noteq> n then ret (CLI_SHOWUSAGE, []) else body)"

text \<open>The macro \<open>CLI_CHECK_PORT\<close>, and the test that follows it in most handlers.\<close>

definition CLI_CHECK_PORT :: "int \<Rightarrow> (cli_return \<times> string list) dm \<Rightarrow> (cli_return \<times> string list) dm" where
  "CLI_CHECK_PORT port body = gbind (status_get port) (\<lambda>st.
     if st_status st = GSM_STATUS_NOTCONFIGURED
     then ret (CLI_FAILURE, [''Port: '' @ itoa port @ '' not configured'' @ [LF]]) else body)"

definition port_valid :: "int \<Rightarrow> (cli_return \<times> string list) dm \<Rightarrow> (cli_return \<times> string list) dm" where
  "port_valid port body = gbind (on_lib (gsm_port_is_valid port)) (\<lambda>v. if \<not> v then ret (CLI_FAILURE, []) else body)"

definition cli_ok :: "'a dm \<Rightarrow> (cli_return \<times> string list) dm" where
  "cli_ok m = gthen m (ret (CLI_SUCCESS, []))"

text \<open>Hexadecimal numbers: \<open>%x\<close> with a width, and \<open>strtoul\<close> with base 16 (a \<open>long\<close> has 32 bits).\<close>

definition hex_digit :: "nat \<Rightarrow> char" where
  "hex_digit n = char_of (if n < 10 then 48 + n else 87 + n)"

fun hex_digits :: "nat \<Rightarrow> string" where
  "hex_digits n = (if n < 16 then [hex_digit n] else hex_digits (n div 16) @ [hex_digit (n mod 16)])"

declare hex_digits.simps [simp del]

definition hex_padded :: "nat \<Rightarrow> int \<Rightarrow> string" where
  "hex_padded w i = (let s = hex_digits (nat (i mod 2 ^ 32)) in replicate (w - length s) CHR ''0'' @ s)"

definition hex_value :: "char \<Rightarrow> nat option" where
  "hex_value c = (let n = of_char c :: nat in
     if 48 \<le> n \<and> n \<le> 57 then Some (n - 48) else if 97 \<le> n \<and> n \<le> 102 then Some (n - 87)
     else if 65 \<le> n \<and> n \<le> 70 then Some (n - 55) else None)"

fun hex_number :: "nat \<Rightarrow> string \<Rightarrow> nat \<times> string" where
  "hex_number n [] = (n, [])"
| "hex_number n (c # s) = (case hex_value c of Some v \<Rightarrow> hex_number (16 * n + v) s | None \<Rightarrow> (n, c # s))"

definition has_digit :: "string \<Rightarrow> bool" where
  "has_digit s \<longleftrightarrow> s \<noteq> [] \<and> hex_value (hd s) \<noteq> None"

definition strtoul_hex :: "string \<Rightarrow> int \<times> string" where
  "strtoul_hex s =
     (let s1 = dropWhile isspace s;
          neg = (s1 \<noteq> [] \<and> hd s1 = CHR ''-'');
          s2 = (if s1 \<noteq> [] \<and> hd s1 \<in> {CHR ''-'', CHR ''+''} then tl s1 else s1);
          s3 = (if (strncmp_prefix ''0x'' s2 \<or> strncmp_prefix ''0X'' s2) \<and> has_digit (drop 2 s2) then drop 2 s2 else s2);
          (n, rest) = hex_number 0 s3
      in if \<not> has_digit s3 then (0, s)
         else (if 2 ^ 32 \<le> n then 2 ^ 32 - 1 else if neg then - int n mod 2 ^ 32 else int n, rest))"

text \<open>\<open>%-15s\<close>.\<close>

definition padded_right :: "nat \<Rightarrow> string \<Rightarrow> string" where
  "padded_right w s = s @ replicate (w - length s) CHR '' ''"

primrec for_print :: "(int \<Rightarrow> string list dm) \<Rightarrow> int list \<Rightarrow> string list dm" where
  "for_print f [] = ret []"
| "for_print f (p # ps) = gbind (f p) (\<lambda>out. gbind (for_print f ps) (\<lambda>more. ret (out @ more)))"


section \<open>Console commands\<close>

definition status2txt :: "gsm_status_t \<Rightarrow> string" where
  "status2txt s = (case s of
       GSM_STATUS_NOTCONFIGURED \<Rightarrow> ''NOT CONFIGURED'' | GSM_STATUS_UNAVAILABLE \<Rightarrow> ''UNAVAILABLE''
     | GSM_STATUS_UNINITIALIZED \<Rightarrow> ''UNINITIALIZED'' | GSM_STATUS_INITIALIZED \<Rightarrow> ''INITIALIZED''
     | GSM_STATUS_UNREGISTERED \<Rightarrow> ''UNREGISTERED'' | GSM_STATUS_REGISTERED \<Rightarrow> ''REGISTERED'')"

definition channel_state_num :: "channel_state \<Rightarrow> int" where
  "channel_state_num s = (case s of CHANNEL_STATE_DOWN \<Rightarrow> 0 | CHANNEL_STATE_IN_USE \<Rightarrow> 1 | CHANNEL_STATE_READY \<Rightarrow> 2)"

definition sms_state_num :: "gsm_sms_state \<Rightarrow> int" where
  "sms_state_num s = (case s of GSM_SMS_STATE_NONE \<Rightarrow> 0 | GSM_SMS_STATE_EXPECTING_OK \<Rightarrow> 1
     | GSM_SMS_STATE_EXPECTING_PROMPT \<Rightarrow> 2 | GSM_SMS_STATE_EXPECTING_SMSLIST \<Rightarrow> 3 | GSM_SMS_STATE_SMS_SENT \<Rightarrow> 4
     | GSM_SMS_STATE_SMS_OK \<Rightarrow> 5 | GSM_SMS_STATE_LIST \<Rightarrow> 6 | GSM_SMS_STATE_GET_TEXT \<Rightarrow> 7 | GSM_SMS_STATE_FLUSHING \<Rightarrow> 8)"

definition sms_work_num :: "gsm_sms_work \<Rightarrow> int" where
  "sms_work_num k = (case k of GSM_SMS_WORK_SHOW \<Rightarrow> 0 | GSM_SMS_WORK_FETCH \<Rightarrow> 1 | GSM_SMS_WORK_FLUSH \<Rightarrow> 2)"

definition request_state_port :: "int \<Rightarrow> string list dm" where
  "request_state_port i = gbind (on_lib (gsm_port_is_valid i)) (\<lambda>v. if \<not> v then ret []
     else gbind (gsm_get_channel_state i) (\<lambda>s. case s of None \<Rightarrow> ret []
       | Some s \<Rightarrow> gthen (gsm_send_channel_state i s)
           (ret [''sending state ('' @ itoa (channel_state_num s) @ '') for channel ('' @ itoa i @ '')'' @ [LF]])))"

definition handle_gsm_request_state :: cli_handler where
  "handle_gsm_request_state = cli_switch ''gsm request state'' ''for astmanproxy only'' (\<lambda>argv.
     gbind (for_print request_state_port all_ports) (\<lambda>out. ret (CLI_SUCCESS, out)))"

text \<open>The mask is read before the \<open>switch\<close>.\<close>

definition handle_gsm_show_info :: cli_handler where
  "handle_gsm_show_info cmd argv = gbind (on_lib gsm_get_channel_mask) (\<lambda>m.
     cli_switch ''gsm show info'' ''gsm show info''
       (\<lambda>_. ret (CLI_SUCCESS, [''Gsm Mask:          0x'' @ hex_padded 4 m @ [LF]])) cmd argv)"

text \<open>\<open>strdup\<close> may fail; the copy is used all the same.\<close>

definition handle_gsm_send_at :: cli_handler where
  "handle_gsm_send_at = cli_switch ''gsm send at'' (''gsm send at <port> '' @ [QUOTE] @ ''<command>'' @ [QUOTE]) (\<lambda>argv.
     argc_is 5 argv (gbind answer (\<lambda>m. let port = strtol (argv ! 3) in
       CLI_CHECK_PORT port
         (if m < 0 then fault
          else cli_ok (on_lib (gsm_send port (map (\<lambda>c. if c = CHR ''/'' then CHR ''?'' else c) (argv ! 4))))))))"

definition handle_gsm_send_sms :: cli_handler where
  "handle_gsm_send_sms = cli_switch ''gsm send sms'' (''gsm send sms <port> <number> '' @ [QUOTE] @ ''<message>'' @ [QUOTE]) (\<lambda>argv.
     argc_is 6 argv (let port = strtol (argv ! 3) in CLI_CHECK_PORT port (port_valid port
       (gbind (gsm_queue_sms port (argv ! 4) (argv ! 5)) (\<lambda>r.
         ret (if r \<ge> 0 then CLI_SUCCESS else CLI_FAILURE, []))))))"

text \<open>The commands \<open>fetch\<close> and \<open>show\<close> differ in what is done with the list.\<close>

definition list_sms_for :: "gsm_sms_work \<Rightarrow> string list \<Rightarrow> (cli_return \<times> string list) dm" where
  "list_sms_for k argv = argc_is 4 argv (let port = strtol (argv ! 3) in CLI_CHECK_PORT port (port_valid port
     (cli_ok (gthen (sms_upd port (\<lambda>x. x\<lparr>sms_work := k\<rparr>)) (gsm_list_sms port)))))"

definition handle_gsm_fetch_sms :: cli_handler where
  "handle_gsm_fetch_sms = cli_switch ''gsm fetch sms'' ''gsm fetch sms <port>'' (list_sms_for GSM_SMS_WORK_FETCH)"

definition handle_gsm_show_sms :: cli_handler where
  "handle_gsm_show_sms = cli_switch ''gsm show sms'' ''gsm show sms <port>'' (list_sms_for GSM_SMS_WORK_SHOW)"

text \<open>The driver's own level \<open>gsm_debug\<close> only controls its log.\<close>

definition handle_gsm_set_debug :: cli_handler where
  "handle_gsm_set_debug = cli_switch ''gsm set debug'' ''gsm set debug <flag>'' (\<lambda>argv.
     argc_is 4 argv (cli_ok (on_lib (gsm_set_debuglevel (strtol (argv ! 3))))))"

definition if_valid :: "int \<Rightarrow> string list dm \<Rightarrow> string list dm" where
  "if_valid port m = gbind (on_lib (gsm_port_is_valid port)) (\<lambda>v. if v then m else ret [])"

definition handle_gsm_debug_info :: cli_handler where
  "handle_gsm_debug_info = cli_switch ''gsm debug info'' ''gsm debug info'' (\<lambda>argv.
     gbind (for_print (\<lambda>port. if_valid port (gbind (sms_get port) (\<lambda>x.
         ret [''Sms_State ('' @ itoa (sms_state_num (sms_state x)) @ '') sms_work ('' @ itoa (sms_work_num (sms_work x)) @ '')'' @ [LF]])))
       all_ports) (\<lambda>states.
     gbind (for_print (\<lambda>port. if_valid port (gbind (on_lib (gsm_get_imei_number port)) (\<lambda>imei.
         gbind (on_lib (gsm_get_firmware_info port)) (\<lambda>fw.
           ret [''Port '' @ itoa port @ '' IMEI ('' @ padded_right 15 imei @ '') Firmware ('' @ fw @ '')'' @ [LF]]))))
       all_ports) (\<lambda>imeis.
     gbind (for_print (\<lambda>port. if_valid port (gbind (on_lib (gsm_get_imsi_number port)) (\<lambda>imsi.
         ret [''Port '' @ itoa port @ '' IMSI ('' @ padded_right 15 imsi @ '')'' @ [LF]])))
       all_ports) (\<lambda>imsis. ret (CLI_SUCCESS, states @ imeis @ imsis)))))"

definition handle_gsm_shutdown_port :: cli_handler where
  "handle_gsm_shutdown_port = cli_switch ''gsm shutdown port'' ''gsm shutdown port <port>'' (\<lambda>argv.
     argc_is 4 argv (let port = strtol (argv ! 3) in CLI_CHECK_PORT port (port_valid port
       (cli_ok (gsm_shutdown_port_drv port 0)))))"

definition handle_gsm_init_port :: "gsm_par \<Rightarrow> cli_handler" where
  "handle_gsm_init_port par = cli_switch ''gsm init port'' ''gsm init port <port>'' (\<lambda>argv.
     argc_is 4 argv (let port = strtol (argv ! 3) in CLI_CHECK_PORT port
       (gbind (status_get port) (\<lambda>st. if st_status st \<noteq> GSM_STATUS_UNINITIALIZED then ret (CLI_FAILURE, [])
          else cli_ok (gsm_init_port_drv par port)))))"

definition handle_gsm_set_next_simslot :: cli_handler where
  "handle_gsm_set_next_simslot = cli_switch ''gsm set next simslot'' ''gsm set next simslot <port> <nextslot>'' (\<lambda>argv.
     argc_is 6 argv (let port = strtol (argv ! 4); ns = strtol (argv ! 5) in CLI_CHECK_PORT port (port_valid port
       (cli_ok (on_lib (gsm_set_next_simslot port ns))))))"

definition handle_gsm_restart_port :: "gsm_par \<Rightarrow> cli_handler" where
  "handle_gsm_restart_port par = cli_switch ''gsm restart port'' ''gsm restart port <port>'' (\<lambda>argv.
     argc_is 4 argv (let port = strtol (argv ! 3) in CLI_CHECK_PORT port (cli_ok (gsm_restart_port par port))))"

definition handle_gsm_show_ops :: cli_handler where
  "handle_gsm_show_ops = cli_switch ''gsm show ops'' ''gsm show ops <port>'' (\<lambda>argv.
     argc_is 4 argv (let port = strtol (argv ! 3) in CLI_CHECK_PORT port (cli_ok (on_lib (gsm_send port ''AT+COPN'')))))"

definition handle_gsm_set_op :: cli_handler where
  "handle_gsm_set_op = cli_switch ''gsm set op'' (''gsm set op <port> '' @ [QUOTE] @ ''<operator>'' @ [QUOTE]) (\<lambda>argv.
     argc_is 5 argv (let port = strtol (argv ! 3) in CLI_CHECK_PORT port
       (gbind (fits 64 (''AT+COPS=1,2,'' @ argv ! 4)) (\<lambda>buf. cli_ok (on_lib (gsm_send port buf))))))"

text \<open>The query of the signal strength: the three conditions on the status are connected by \<open>&&\<close>.\<close>

definition query_strength :: "int \<Rightarrow> unit dm" where
  "query_strength i = gbind (status_get i) (\<lambda>st.
     if st_status st = GSM_STATUS_INITIALIZED \<and> st_status st = GSM_STATUS_UNREGISTERED \<and> st_status st = GSM_STATUS_REGISTERED
     then gbind (on_lib (gsm_port_is_valid i)) (\<lambda>v. if v then gthen (on_lib (gsm_send i ''AT+CSQ'')) (ret ()) else ret ())
     else ret ())"

definition show_status_port :: "int \<Rightarrow> string list dm" where
  "show_status_port i = gbind (status_get i) (\<lambda>st.
     if st_status st \<noteq> GSM_STATUS_UNAVAILABLE \<and> st_status st \<noteq> GSM_STATUS_NOTCONFIGURED
     then gbind (on_lib (gsm_simslot_get i)) (\<lambda>slot. gbind (on_lib (gsm_port_in_use_get i)) (\<lambda>u.
       gbind (rssi2txt (st_rssi st)) (\<lambda>signal.
         ret [itoa i @ '' ('' @ itoa slot @ '')'' @ [TAB] @ status2txt (st_status st) @ [TAB] @
           (if u \<noteq> 0 then ''y'' else ''n'') @ [TAB] @ st_provider st @ [TAB] @
           (if st_homezone st \<noteq> 0 then ''y'' else ''n'') @ [TAB, TAB] @ signal @ [LF]])))
     else ret [])"

definition handle_gsm_show_status :: cli_handler where
  "handle_gsm_show_status = cli_switch ''gsm show status'' ''gsm show status'' (\<lambda>argv.
     gthen (for_ports query_strength port_indices) (gbind (for_print show_status_port port_indices) (\<lambda>out.
       ret (CLI_SUCCESS, [[LF] @ ''Port'' @ [TAB] @ ''Status'' @ [TAB, TAB] @ ''InUse'' @ [TAB] @ ''Provider'' @ [TAB] @ ''Home Zone'' @
         [TAB] @ ''Signal Quality'' @ [LF, LF]] @ out @ [[LF]]))))"

definition handle_gsm_show_version :: cli_handler where
  "handle_gsm_show_version = cli_switch ''gsm show version'' ''gsm show version'' (\<lambda>argv.
     ret (CLI_SUCCESS, [[LF] @ ''chan_gsm version (trunk)'' @ [LF]]))"

text \<open>
  A request to the FPGA through port 1: the result and the value in the request afterwards, which the kernel
  sets if it was asked. The argument is the address of the request.
\<close>

definition GSM_PEEK_FPGA :: int where "GSM_PEEK_FPGA = GSM_IO 5"
definition GSM_POKE_FPGA :: int where "GSM_POKE_FPGA = GSM_IO 6"
definition MAX_FPGA_OFFSET :: int where "MAX_FPGA_OFFSET = 0x4044"

definition fpga_request :: "int \<Rightarrow> int \<Rightarrow> (int \<times> int) dm" where
  "fpga_request cmd value = gbind answer (\<lambda>addr. gbind (gets (\<lambda>d. length (trace (lib d)))) (\<lambda>n.
     gbind (on_lib (gsm_do_ioctl 1 cmd addr)) (\<lambda>r. gbind (gets (\<lambda>d. length (trace (lib d)))) (\<lambda>n'.
       if n' = n then ret (r, value) else gbind answer (\<lambda>v. ret (r, v mod 2 ^ 32))))))"

definition fpga_report :: "int \<Rightarrow> int \<times> int \<Rightarrow> (cli_return \<times> string list) dm" where
  "fpga_report reg = (\<lambda>(r, v). ret (CLI_SUCCESS,
     [if r = 0 then ''register:0x'' @ hex_padded 8 reg @ '' value:0x'' @ hex_padded 8 v @ [LF]
      else ''Invalid register access/error'' @ [LF]]))"

text \<open>An offset: the number, unless it is no number or too large.\<close>

definition fpga_offset :: "string \<Rightarrow> (int \<Rightarrow> (cli_return \<times> string list) dm) \<Rightarrow> (cli_return \<times> string list) dm" where
  "fpga_offset s f = (case strtoul_hex s of (reg, rest) \<Rightarrow>
     if rest \<noteq> [] then ret (CLI_SHOWUSAGE, [''Invalid offset ['' @ s @ '']'' @ [LF]])
     else if reg > MAX_FPGA_OFFSET then ret (CLI_SHOWUSAGE,
       [''Offset ['' @ s @ ''] exceeds valid range [0..'' @ hex_digits (nat MAX_FPGA_OFFSET) @ '']'' @ [LF]])
     else f reg)"

definition handle_gsm_peek :: cli_handler where
  "handle_gsm_peek = cli_switch ''gsm peek'' ''gsm peek <offset>'' (\<lambda>argv.
     argc_is 3 argv (fpga_offset (argv ! 2) (\<lambda>reg. gbind (fpga_request GSM_PEEK_FPGA 0) (fpga_report reg))))"

definition handle_gsm_poke :: cli_handler where
  "handle_gsm_poke = cli_switch ''gsm poke'' ''gsm poke <offset> <value>'' (\<lambda>argv.
     argc_is 4 argv (fpga_offset (argv ! 2) (\<lambda>reg. case strtoul_hex (argv ! 3) of (value, rest) \<Rightarrow>
       if rest \<noteq> [] then ret (CLI_SHOWUSAGE, [''Invalid value ['' @ argv ! 3 @ '']'' @ [LF]])
       else gbind (fpga_request GSM_POKE_FPGA value) (fpga_report reg))))"

definition chan_gsm_clis :: "gsm_par \<Rightarrow> cli_handler list" where
  "chan_gsm_clis par = [handle_gsm_send_at, handle_gsm_send_sms, handle_gsm_fetch_sms, handle_gsm_show_sms,
     handle_gsm_set_debug, handle_gsm_debug_info, handle_gsm_shutdown_port, handle_gsm_init_port par,
     handle_gsm_set_next_simslot, handle_gsm_restart_port par, handle_gsm_show_ops, handle_gsm_show_status,
     handle_gsm_show_version, handle_gsm_peek, handle_gsm_poke, handle_gsm_set_op, handle_gsm_request_state,
     handle_gsm_show_info]"


section \<open>Manager actions\<close>

datatype man_reply = Man_error string | Man_ack string

text \<open>A message: the values of its headers, empty for one that is missing. The index is not checked.\<close>

definition action_send_sms :: "(string \<Rightarrow> string) \<Rightarrow> man_reply dm" where
  "action_send_sms m = (let port = m ''Port''; num = m ''Number''; txt = m ''Text'' in
     if port = [] then ret (Man_error ''No port specified'')
     else if num = [] then ret (Man_error ''No number specified'')
     else if txt = [] then ret (Man_error ''No text specified'')
     else gthen (sms_upd (strtol port) (\<lambda>x. x))
         (gthen (gsm_queue_sms (strtol port) num txt) (ret (Man_ack ''GsmSendSms: Success''))))"

definition action_check_sms_state :: "(string \<Rightarrow> string) \<Rightarrow> man_reply dm" where
  "action_check_sms_state m = (let port = m ''Port'' in
     if port = [] then ret (Man_error ''No port specified'')
     else gbind (sms_get (strtol port)) (\<lambda>x. gbind (fits 256
       (if sms_state x \<noteq> GSM_SMS_STATE_NONE
        then ''GsmCheckSMSState: State-Machine Busy ('' @ itoa (sms_state_num (sms_state x)) @ '')''
        else ''GsmCheckSMSState: State-Machine IDLE'')) (\<lambda>ack. ret (Man_ack ack))))"


section \<open>Applications\<close>

definition gsm_send_sms_exec :: "(string \<Rightarrow> string list) \<Rightarrow> string \<Rightarrow> int dm" where
  "gsm_send_sms_exec app_args dat = (if dat = [] then ret (- 1)
     else let args = app_args dat in
       if length args \<noteq> 3 then ret 0
       else gthen (gsm_queue_sms (strtol (args ! 0)) (args ! 1) (args ! 2)) (ret 0))"

text \<open>The seconds to wait are read and handed on, and not used.\<close>

definition gsm_set_simslot_exec :: "gsm_par \<Rightarrow> (string \<Rightarrow> string list) \<Rightarrow> string \<Rightarrow> int dm" where
  "gsm_set_simslot_exec par app_args dat = (if dat = [] then ret (- 1)
     else let args = app_args dat in
       if length args < 2 then ret 0
       else let port = strtol (args ! 0); slot = strtol (args ! 1) in
         gbind (on_lib (gsm_set_next_simslot port slot)) (\<lambda>i.
           if i < 0 then ret (- 1)
           else if i \<noteq> 0 then gthen (gsm_restart_port par port) (ret 0) else ret 0))"

end
