(* ===== verification/Gsm_Cli_Props.thy ===== *)
theory Gsm_Cli_Props
  imports Gsm_Fetch_Props Gsm_Cli
begin

text \<open>
  Properties of the console commands of the GSM channel driver: they leave a port and its calls alone, and the
  command that fetches the stored messages, with the module's side of the dialogue, saves and deletes them.
\<close>


section \<open>Calls of the library for any port\<close>

lemma quiet_gets [quiet]: "quiet p (gets f)"
  by (simp add: quiet_def wp)

lemma quiet_branch [quiet]: "(b \<Longrightarrow> quiet p m) \<Longrightarrow> (\<not> b \<Longrightarrow> quiet p n) \<Longrightarrow> quiet p (if b then m else n)"
  by simp

lemma quiet_getctlport:
  assumes "quiet p (f None)" "\<And>i. 0 \<le> i \<Longrightarrow> i < 32 \<Longrightarrow> quiet p (f (Some i))"
  shows "quiet p (gbind (getctlport q) f)"
proof -
  have "0 \<le> i \<and> i < 32" if "find P port_indices = Some i" for P i
    using that by (auto simp: find_Some_iff port_indices_def MAX_GSM_PORTS_def)
  then have "quiet p (f (if q = 0 then None else find P port_indices))" for P
    using assms by (cases "find P port_indices") auto
  then show ?thesis by (auto simp: quiet_def getctlport_def wp)
qed

lemma quiet_ctl_get:
  assumes "0 \<le> i" "i < 32" "\<And>c. quiet p (f c)"
  shows "quiet p (gbind (ctl_get i) f)"
proof -
  have "length (ctlport w) = 32" if "lib_ok p w" for w
    using that port_openD [of p w] by (auto simp: lib_ok_def)
  with assms show ?thesis by (auto simp: quiet_def wp)
qed

lemma quiet_any_port [quiet]:
  "quiet p (gsm_port_is_valid q)" "quiet p (gsm_get_imei_number q)" "quiet p (gsm_get_imsi_number q)"
  "quiet p (gsm_get_firmware_info q)" "quiet p (gsm_port_in_use_get q)" "quiet p (gsm_simslot_get q)"
  unfolding gsm_port_is_valid_def gsm_get_imei_number_def gsm_get_imsi_number_def gsm_get_firmware_info_def ctl_info_def
    gsm_port_in_use_get_def gsm_simslot_get_def
  by (auto intro!: quiet quiet_getctlport quiet_ctl_get)

lemma lib_ok_frame [simp]:
  "lib_ok p (w\<lparr>trace := t\<rparr>) = lib_ok p w" "lib_ok p (w\<lparr>calls := n\<rparr>) = lib_ok p w" "lib_ok p (w\<lparr>debug := x\<rparr>) = lib_ok p w"
  by (simp_all add: lib_ok_def taco_short_def)

lemma view_frame [simp]:
  "view p (w\<lparr>trace := t\<rparr>) = view p w" "view p (w\<lparr>calls := n\<rparr>) = view p w" "view p (w\<lparr>debug := x\<rparr>) = view p w"
  by (simp_all add: view_def)

lemma quiet_ioctl [quiet]: "quiet p (gsm_do_ioctl q cmd arg)"
proof -
  have "quiet p (ioctl fd cmd arg)" for fd by (simp add: quiet_def ioctl_def wp)
  then show ?thesis
    unfolding gsm_do_ioctl_def
    by (intro quiet_getctlport quiet_ctl_get | auto intro!: quiet_getctlport quiet_ctl_get quiet split: option.split)+
qed

lemma quiet_set_debuglevel [quiet]: "quiet p (gsm_set_debuglevel x)"
  by (simp add: quiet_def gsm_set_debuglevel_def wp)

lemma quiet_channel_mask [quiet]: "quiet p gsm_get_channel_mask"
  unfolding quiet_def using mask_returns by (force simp: wp_def lib_ok_def)


section \<open>The commands keep the state of a port\<close>

context port_state
begin

lemma keep_switch [kept]: "keep (f argv) \<Longrightarrow> keep (cli_switch name usage f cmd argv)"
  by (auto simp: cli_switch_def intro: kept split: cli_request.split)

lemma keep_argc [kept]: "(length argv = n \<Longrightarrow> keep m) \<Longrightarrow> keep (argc_is n argv m)"
  by (auto simp: argc_is_def intro: kept)

lemma keep_check_port [kept]: "keep m \<Longrightarrow> keep (CLI_CHECK_PORT p m)"
  unfolding CLI_CHECK_PORT_def by (intro keep_gbind kept)

lemma keep_port_valid [kept]: "keep m \<Longrightarrow> keep (port_valid q m)"
  unfolding port_valid_def by (intro keep_gbind kept quiet) auto

lemma keep_cli_ok [kept]: "keep m \<Longrightarrow> keep (cli_ok m)"
  unfolding cli_ok_def by (intro kept)

lemma keep_for_print [kept]: "(\<And>q. q \<in> set qs \<Longrightarrow> keep (f q)) \<Longrightarrow> keep (for_print f qs)"
  by (induction qs) (auto intro!: keep_gbind kept)

lemma keep_any_sms_get: "0 \<le> q \<Longrightarrow> q < 32 \<Longrightarrow> keep (sms_get q)"
  by (rule keepI) (use baseD [OF I_base] in \<open>auto simp: wp\<close>)

lemma keep_any_slcc_get: "0 \<le> q \<Longrightarrow> q < 32 \<Longrightarrow> keep (slcc_get q)"
  by (rule keepI) (use baseD [OF I_base] in \<open>auto simp: wp\<close>)

lemma keep_request_state: "keep (handle_gsm_request_state cmd argv)"
  unfolding handle_gsm_request_state_def request_state_port_def gsm_get_channel_state_def
  by (auto intro!: keep_gbind kept quiet keep_any_slcc_get split: option.split simp: MAX_GSM_PORTS_def)

lemma keep_show_info: "keep (handle_gsm_show_info cmd argv)"
  unfolding handle_gsm_show_info_def by (intro keep_gbind kept quiet)

lemma keep_debug_info: "keep (handle_gsm_debug_info cmd argv)"
  unfolding handle_gsm_debug_info_def if_valid_def
  by (auto intro!: keep_gbind kept quiet keep_any_sms_get simp: all_ports_def MAX_GSM_PORTS_def)

lemma keep_show_version: "keep (handle_gsm_show_version cmd argv)"
  unfolding handle_gsm_show_version_def by (intro kept)

lemma keep_set_debug: "keep (handle_gsm_set_debug cmd argv)"
  unfolding handle_gsm_set_debug_def by (intro kept quiet)

lemma keep_fpga: "keep (fpga_offset s f)" if "\<And>reg. keep (f reg)"
  unfolding fpga_offset_def using that by (auto intro!: kept split: prod.split)

lemma keep_read [kept]: "keep (gets f)"
  by (rule keepI) (simp add: wp)

lemma keep_fpga_request [kept]: "keep (fpga_request c v)"
  unfolding fpga_request_def by (rule keep_gbind kept quiet)+

lemma keep_peek: "keep (handle_gsm_peek cmd argv)"
  unfolding handle_gsm_peek_def fpga_report_def
  by (intro kept keep_fpga keep_gbind) (auto intro: kept split: prod.split)

lemma keep_poke: "keep (handle_gsm_poke cmd argv)"
  unfolding handle_gsm_poke_def fpga_report_def
  by (auto intro!: kept keep_fpga keep_gbind split: prod.split)

lemma keep_list_sms_for:
  assumes "strtol (argv ! 3) = p"
  shows "keep (list_sms_for k argv)"
  unfolding list_sms_for_def Let_def assms by (rule kept | simp)+

lemma keep_send_sms_cmd:
  assumes "strtol (argv ! 3) = p" "length (argv ! 4) \<le> 29" "length (argv ! 5) < SMS_MSG_SZ"
  shows "keep (handle_gsm_send_sms cmd argv)"
  unfolding handle_gsm_send_sms_def Let_def by (rule keep_switch, unfold assms(1)) (rule keep_gbind kept assms(2,3))+

lemma keep_show_ops:
  assumes "strtol (argv ! 3) = p"
  shows "keep (handle_gsm_show_ops cmd argv)"
  unfolding handle_gsm_show_ops_def Let_def by (rule keep_switch, unfold assms) (rule kept quiet | simp)+

lemma keep_set_op:
  assumes "strtol (argv ! 3) = p" "length (argv ! 4) < 52"
  shows "keep (handle_gsm_set_op cmd argv)"
  unfolding handle_gsm_set_op_def Let_def
  by (rule keep_switch, unfold assms(1)) (rule kept keep_fits quiet | (use assms(2) in simp; fail))+

end


text \<open>
  What the console commands leave alone: the invariant of a port, its calls and what Asterisk was told of them.
\<close>

definition undisturbed :: "int \<Rightarrow> gsm_drv \<Rightarrow> gsm_drv \<Rightarrow> bool" where
  "undisturbed p d0 d \<longleftrightarrow> port_inv p d \<and> priv p d = priv p d0 \<and> pvts d = pvts d0 \<and> chans d = chans d0 \<and> shown d = shown d0"

interpretation still: port_state p "undisturbed p d0" for p d0
proof unfold_locales
  fix d assume "undisturbed p d0 d"
  then show "base p d" by (auto simp: undisturbed_def port_inv_def no_call_def on_call_def)
next
  fix d d' assume d: "undisturbed p d0 d" and f: "base p d'" "view p (lib d') = view p (lib d)" "pvts d' = pvts d"
    "chans d' = chans d" "heap_next d' = heap_next d" "shown d' = shown d"
  have "port_inv p d'"
    using d idle.I_frame [OF _ f] busy.I_frame [OF _ f] by (auto simp: undisturbed_def port_inv_def)
  with d f show "undisturbed p d0 d'" by (simp add: undisturbed_def priv_def view_def)
qed

text \<open>The commands, with what is required of the arguments: the port, and texts that fit the buffers they are copied to.\<close>

definition console_commands :: "(cli_handler \<times> (int \<Rightarrow> string list \<Rightarrow> bool)) list" where
  "console_commands =
     [(handle_gsm_send_at, \<lambda>p argv. strtol (argv ! 3) = p \<and> length (argv ! 4) \<le> GSM_CMD_LENGTH),
      (handle_gsm_send_sms, \<lambda>p argv. strtol (argv ! 3) = p \<and> length (argv ! 4) \<le> 29 \<and> length (argv ! 5) < SMS_MSG_SZ),
      (handle_gsm_fetch_sms, \<lambda>p argv. strtol (argv ! 3) = p), (handle_gsm_show_sms, \<lambda>p argv. strtol (argv ! 3) = p),
      (handle_gsm_show_ops, \<lambda>p argv. strtol (argv ! 3) = p),
      (handle_gsm_set_op, \<lambda>p argv. strtol (argv ! 3) = p \<and> length (argv ! 4) < 52),
      (handle_gsm_set_debug, \<lambda>_ _. True), (handle_gsm_debug_info, \<lambda>_ _. True), (handle_gsm_show_version, \<lambda>_ _. True),
      (handle_gsm_peek, \<lambda>_ _. True), (handle_gsm_poke, \<lambda>_ _. True), (handle_gsm_request_state, \<lambda>_ _. True),
      (handle_gsm_show_info, \<lambda>_ _. True)]"

lemma send_at_keeps:
  assumes "undisturbed p d0 d" "0 \<le> answers d (asked d)" "strtol (argv ! 3) = p" "length (argv ! 4) \<le> GSM_CMD_LENGTH"
  shows "wp (handle_gsm_send_at cmd argv) (\<lambda>_. undisturbed p d0) d"
proof -
  have q: "undisturbed p d0 (d\<lparr>asked := asked d + 1\<rparr>)"
    by (rule still.I_frame [OF assms(1)]) (simp_all add: still.I_base [OF assms(1)])
  have "still.keep p d0 (CLI_CHECK_PORT p (cli_ok (on_lib (gsm_send p (map (\<lambda>c. if c = CHR ''/'' then CHR ''?'' else c) (argv ! 4))))))"
    by (intro still.keep_check_port still.keep_cli_ok still.keep_quiet quiet_gsm_send) (use assms(4) in \<open>simp add: GSM_CMD_LENGTH_def\<close>)
  from still.keepD [OF this q] show ?thesis
    using assms(1-3) by (cases cmd) (simp_all add: handle_gsm_send_at_def cli_switch_def argc_is_def wp_ret wp_gbind wp_answer)
qed



section \<open>Faults of the commands\<close>

text \<open>A port outside the table: the macro that should check it reads beyond the array.\<close>

lemma check_port_overrun:
  assumes "length (gsm_status d) = 32" "\<not> (0 \<le> q \<and> q < 32)"
  shows "CLI_CHECK_PORT q m d = Fault"
  using assms by (auto simp: CLI_CHECK_PORT_def gbind_def status_get_def arr_get_def)

text \<open>\<open>gsm show status\<close> never asks for the signal strength.\<close>

lemma query_strength_does_nothing:
  assumes "length (gsm_status d) = 32"
  shows "for_ports query_strength port_indices d = Ret ((), d)"
proof -
  have "for_ports query_strength qs d = Ret ((), d)" if "\<forall>q \<in> set qs. 0 \<le> q \<and> q < 32" for qs
    using that assms by (induction qs) (auto simp: query_strength_def gthen_def gbind_def ret_def status_get_def arr_get_def)
  then show ?thesis by (simp add: port_indices_def MAX_GSM_PORTS_def)
qed


section \<open>The command that fetches messages\<close>

lemma wp_port_valid: "base p d \<Longrightarrow> wp (port_valid p m) Q d = wp m Q d"
  using baseD [of p d] by (simp add: port_valid_def wp_gbind wp_on_lib gsm_port_is_valid_def wp_getctlport wp_ret)

lemma fetch_command:
  assumes "no_call p d" "st_status (gsm_status d ! nat p) \<noteq> GSM_STATUS_NOTCONFIGURED" "length argv = 4" "strtol (argv ! 3) = p" "\<not> pdu_mode p d"
  shows "\<exists>d1. handle_gsm_fetch_sms CLI_HANDLER argv d = Ret ((CLI_SUCCESS, []), d1) \<and> no_call p d1 \<and>
    reached p (lib d) [Send (''AT+CMGL='' @ [QUOTE] @ ''ALL'' @ [QUOTE])] (lib d1) \<and>
    d1 = d\<lparr>gsm_sms := (gsm_sms d)[nat p := (gsm_sms d ! nat p)\<lparr>sms_work := GSM_SMS_WORK_FETCH, sms_state := GSM_SMS_STATE_EXPECTING_SMSLIST\<rparr>], lib := lib d1\<rparr>"
proof -
  have b: "base p d" using assms(1) by (simp add: no_call_def)
  note bD = baseD [OF b]
  have r: "reached p (lib d) [] (lib d)" by (rule reached_start [OF bD(1)])
  have "wp (handle_gsm_fetch_sms CLI_HANDLER argv) (\<lambda>x d1. x = (CLI_SUCCESS, []) \<and>
      reached p (lib d) [Send (''AT+CMGL='' @ [QUOTE] @ ''ALL'' @ [QUOTE])] (lib d1) \<and>
      d1 = d\<lparr>gsm_sms := (gsm_sms d)[nat p := (gsm_sms d ! nat p)\<lparr>sms_work := GSM_SMS_WORK_FETCH, sms_state := GSM_SMS_STATE_EXPECTING_SMSLIST\<rparr>], lib := lib d1\<rparr>) d"
    using assms bD b
    apply (simp add: handle_gsm_fetch_sms_def cli_switch_def list_sms_for_def argc_is_def CLI_CHECK_PORT_def wp_gbind wp_status_get wp_if
       wp_port_valid cli_ok_def wp_gthen wp_sms_upd gsm_list_sms_def wp_on_lib wp_cfg_get pdu_mode_def wp_ret wp_fun)
    apply (rule reached_send [OF r], simp, simp)
    done
  moreover have "wp (handle_gsm_fetch_sms CLI_HANDLER argv) (\<lambda>_. no_call p) d"
    unfolding handle_gsm_fetch_sms_def
    by (rule idle.keepD [OF idle.keep_switch [OF idle.keep_list_sms_for] assms(1)]) (simp add: assms)
  ultimately show ?thesis by (auto simp: wp_def)
qed


definition demo_stored :: "stored_sms list" where
  "demo_stored = [\<lparr>at_index = 3, from_number = ''+49301234'', at_date = ''11/05/01'', body = [''first'', ''line'']\<rparr>,
     \<lparr>at_index = 7, from_number = ''+49305678'', at_date = ''11/05/02'', body = [''second'']\<rparr>]"

lemma demo_can_save: "can_save 1 demo_drv"
proof -
  have s: "cm_secs demo_gsm_cm = config_sections" by (simp add: demo_gsm_cm_def)
  have v: "effective (cm_vals demo_gsm_cm ! 0) 0 (cfg_gen_id CFG_GEN_SMS_DIR) = Some ''/var/spool/asterisk/smsin''"
    by (simp add: effective_def row_val_def demo_gsm_cm_def gen_dirs_def dir_def)
  have "sms_dir demo_drv \<noteq> []"
    using cm_get_sms_dir [OF demo_gsm_cm_wf s] unfolding v by (simp add: sms_dir_def demo_drv_def copy_out_def)
  then show "can_save 1 demo_drv"
    by (simp add: can_save_def pdu_mode_def demo_drv_def demo_port_streams cfg_zero_def)
qed

lemma demo_stored_listable: "\<forall>m \<in> set demo_stored. listable m"
proof -
  have i: "itoa 3 = ''3''" "itoa 7 = ''7''" by code_simp+
  show ?thesis
    by (simp add: demo_stored_def listable_def cmgl_header_def i SMS_NUM_SZ_def SMS_MSG_SZ_def parse_events_def
        parse_current_call_state_def creg_def strncmp_prefix_def)
qed


end
