(* ===== verification/Gsm_Load.thy ===== *)
theory Gsm_Load
  imports Gsm_Events
begin

text \<open>
  Loading, reloading and unloading of the GSM channel driver (\<open>chan_gsm/chan_gsm.c\<close>). \<open>gsm_module\<close> adds to the
  state of the driver the table of channel groups, the configuration managers with the driver's pointer, the
  scheduled tasks and what is registered with Asterisk. The file, the memory for its manager and its first uninitialised
  integer are parameters; other allocations are answers of the system. The mutex that
  excludes loading and reloading at the same time, the thread of the scheduler and delays are left out.
\<close>


section \<open>The module\<close>

datatype gsm_task = Task_reset int | Task_query_call_state | Task_sms_sender | Task_update_lcd

record gsm_module =
  drv :: gsm_drv
  groups :: csel_groups
  csel_refs :: int
  cms :: cm_world
  config_ptr :: "nat option"
  gsm_tasks :: "(int \<times> gsm_task) list option"
  registered :: "string list"
  gsm_initialized :: bool

type_synonym 'a mm = "(gsm_module, 'a) st"

record load_par =
  lp_par :: gsm_par
  lp_alloc :: "nat \<Rightarrow> bool"
  lp_strdup_ok :: bool
  lp_start0 :: int
  lp_file :: "(string \<times> (string \<times> string) list) list option"

definition on_drv :: "'a dm \<Rightarrow> 'a mm" where
  "on_drv m = (\<lambda>x. run_map (\<lambda>(v, d). (v, x\<lparr>drv := d\<rparr>)) (m (drv x)))"

definition register :: "string \<Rightarrow> unit mm" where
  "register s = modify (\<lambda>x. x\<lparr>registered := registered x @ [s]\<rparr>)"

definition unregister :: "string \<Rightarrow> unit mm" where
  "unregister s = modify (\<lambda>x. x\<lparr>registered := removeAll s (registered x)\<rparr>)"

text \<open>A task is added to the scheduler, which is created with the first one.\<close>

definition gsm_tasks_add :: "int \<Rightarrow> gsm_task \<Rightarrow> unit mm" where
  "gsm_tasks_add timeout task = modify (\<lambda>x. x\<lparr>gsm_tasks :=
     Some ((case gsm_tasks x of None \<Rightarrow> [] | Some ts \<Rightarrow> ts) @ [(timeout, task)])\<rparr>)"

definition gsm_tasks_destroy :: "unit mm" where
  "gsm_tasks_destroy = modify (\<lambda>x. x\<lparr>gsm_tasks := None\<rparr>)"

text \<open>
  The configuration: the driver uses the manager \<open>config_ptr\<close> points to, which is written back before it is
  destroyed.
\<close>

definition config_init :: "load_par \<Rightarrow> unit mm" where
  "config_init lp = (\<lambda>x. run_map (\<lambda>(w, a, re). ((), x\<lparr>cms := w, config_ptr := a,
       drv := (drv x)\<lparr>config := (case a of None \<Rightarrow> None | Some a \<Rightarrow> w_cms w a)\<rparr>\<rparr>))
     (gsm_config_init (lp_alloc lp) (lp_strdup_ok lp) (lp_start0 lp) (lp_file lp) (cms x)))"

definition config_exit :: "unit mm" where
  "config_exit = (\<lambda>x. let w = (case config_ptr x of None \<Rightarrow> cms x
       | Some a \<Rightarrow> (cms x)\<lparr>w_cms := (w_cms (cms x))(a := config (drv x))\<rparr>) in
     run_map (\<lambda>(w, a). ((), x\<lparr>cms := w, config_ptr := a, drv := (drv x)\<lparr>config := None\<rparr>\<rparr>))
       (gsm_config_exit w (config_ptr x)))"

text \<open>The directory for messages is created, and the debug level read; it only controls the log.\<close>

definition make_sms_dir :: "unit mm" where
  "make_sms_dir = gthen (on_drv (cfg_read 96 SECT_GENERAL (cfg_gen_id CFG_GEN_SMS_DIR) Id_none)) (gthen (on_drv answer) (ret ()))"

definition read_debug :: "unit mm" where
  "read_debug = gthen (on_drv (cfg_read 16 SECT_GENERAL (cfg_gen_id CFG_GEN_DEBUG) Id_none)) (ret ())"

definition read_sysdebug :: "string mm" where
  "read_sysdebug = on_drv (cfg_read_or ''no'' 16 SECT_GENERAL (cfg_gen_id CFG_GEN_SYSLOG_DEBUG) Id_none)"


section \<open>Channel groups\<close>

definition group_get :: "nat \<Rightarrow> (string \<times> gsm_csel) option mm" where
  "group_get i = (\<lambda>x. run_map (\<lambda>g. (g, x)) (arr_get (groups x) (int i)))"

definition group_put :: "nat \<Rightarrow> (string \<times> gsm_csel) option \<Rightarrow> unit mm" where
  "group_put i g = (\<lambda>x. run_map (\<lambda>gs. ((), x\<lparr>groups := gs\<rparr>)) (arr_set (groups x) (int i) g))"

text \<open>A new group: the copy of the name and the selector are used at once, so that a failed allocation is a fault.\<close>

definition create_group :: "nat \<Rightarrow> string \<Rightarrow> string \<Rightarrow> unit mm" where
  "create_group i name method = gbind (on_drv answer) (\<lambda>r. if r < 0 then fault
     else gbind (on_drv answer) (\<lambda>r1. gbind (on_drv answer) (\<lambda>r2. \<lambda>x.
       run_bind (csel_create (0 \<le> r1) (0 \<le> r2) strategies (Some method) occupy_cb None (csel_refs x) (Ret (drv x)))
         (\<lambda>(cs, refs, _). case cs of None \<Rightarrow> Fault
           | Some cs \<Rightarrow> group_put i (Some (name, cs)) (x\<lparr>csel_refs := refs\<rparr>)))))"

definition add_to_group :: "nat \<Rightarrow> string \<times> gsm_csel \<Rightarrow> int \<Rightarrow> unit mm" where
  "add_to_group i g port = gbind (on_drv answer) (\<lambda>r. \<lambda>x.
     run_bind (csel_add strategies (0 \<le> r) (snd g) port) (\<lambda>(cs, _). group_put i (Some (fst g, cs)) x))"

text \<open>The loop over the groups: a group of the name, or the first free place.\<close>

primrec group_loop :: "string \<Rightarrow> string \<Rightarrow> int \<Rightarrow> nat list \<Rightarrow> unit mm" where
  "group_loop name method port [] = ret ()"
| "group_loop name method port (i # is) =
     gthen (gbind (group_get i) (\<lambda>g. if g = None then create_group i name method else ret ()))
       (gbind (group_get i) (\<lambda>g. case g of None \<Rightarrow> fault
          | Some g \<Rightarrow> if fst g = name then add_to_group i g port else group_loop name method port is))"


section \<open>A configured port\<close>

definition set_slot :: "int \<Rightarrow> unit dm" where
  "set_slot port = gbind (port_cfg_or ''0'' 32 CFG_PORT_SLOT port) (\<lambda>slot.
     gthen (on_lib (gsm_set_next_simslot port (if slot \<noteq> [] \<and> hd slot = CHR ''1'' then 1 else 0))) (ret ()))"

definition group_port :: "int \<Rightarrow> unit mm" where
  "group_port port =
     gbind (on_drv (cfg_read 128 SECT_PORT (cfg_port_id CFG_PORT_NAME) (Id_int port))) (\<lambda>(_, name).
     gbind (on_drv (cfg_read 128 SECT_PORT (cfg_port_id CFG_PORT_METHOD) (Id_int port))) (\<lambda>(_, method).
       group_loop name method port [0..<MAX_GSM_PORTS]))"

text \<open>The ids that are skipped: the last one that is not skipped is one more than the tables have.\<close>

definition usable_port :: "int \<Rightarrow> bool mm" where
  "usable_port port = (if port \<le> 0 \<or> port > int MAX_GSM_PORTS then ret False
     else gbind (on_drv (on_lib (gsm_check_port port))) (\<lambda>ok. ret (ok \<noteq> 0)))"

definition load_port :: "gsm_par \<Rightarrow> int \<Rightarrow> unit mm" where
  "load_port par port = gbind (usable_port port) (\<lambda>u. if \<not> u then ret ()
     else gthen (group_port port) (gthen (on_drv (set_slot port)) (gthen (on_drv (init_mod_port_drv par port))
       (gbind (on_drv (port_cfg_or ''0'' 32 CFG_PORT_RESET_INTERVAL port)) (\<lambda>resetiv.
          if strtol resetiv > 0 then gsm_tasks_add (strtol resetiv * 1000) (Task_reset port) else ret ())))))"

text \<open>The loop over the ids of the ports. Without fuel left it does not return.\<close>

fun for_ids :: "nat \<Rightarrow> (int \<Rightarrow> unit mm) \<Rightarrow> cm_key option \<Rightarrow> unit mm" where
  "for_ids 0 f prev = (\<lambda>_. Hang)"
| "for_ids (Suc n) f prev = (\<lambda>x. run_bind (cm_get_next_id (config (drv x)) (int SECT_PORT) prev) (\<lambda>(cm, re, next).
     (if re = 0 then ret ()
      else (case next of Some (Key_i i) \<Rightarrow> gthen (f i) (for_ids n f next) | _ \<Rightarrow> fault))
     (x\<lparr>drv := (drv x)\<lparr>config := cm\<rparr>\<rparr>)))"


section \<open>Loading\<close>

definition status_zero :: gsm_status_s where
  "status_zero = \<lparr>st_status = GSM_STATUS_NOTCONFIGURED, st_provider = [], st_homezone = 0, st_rssi = 0\<rparr>"

definition gsm_config_zero :: gsm_config where
  "gsm_config_zero = \<lparr>cfg_port = 0, initfile = [], pin = [], smsc = [], sms_pdu_mode = 0, rx_gain = 0, tx_gain = 0\<rparr>"

definition zero_tables :: "unit mm" where
  "zero_tables = modify (\<lambda>x. x\<lparr>groups := replicate MAX_GSM_PORTS None,
     drv := (drv x)\<lparr>lib := (lib (drv x))\<lparr>gsm_cfg := replicate MAX_GSM_PORTS gsm_config_zero\<rparr>,
       gsm_status := replicate MAX_GSM_PORTS status_zero\<rparr>\<rparr>)"

text \<open>The queue of outgoing messages of a port: its identifier, or an error; a new queue is empty.\<close>

definition open_queue :: "int \<Rightarrow> unit dm" where
  "open_queue i = gbind answer (\<lambda>q. gthen (sms_upd i (\<lambda>x. x\<lparr>sms_mq_id := q\<rparr>))
     (if q < 0 then ret ()
      else modify (\<lambda>d. d\<lparr>sms_queue := (case sms_queue d q of Some _ \<Rightarrow> sms_queue d | None \<Rightarrow> (sms_queue d)(q \<mapsto> []))\<rparr>)))"

definition clear_sms_idx :: "unit mm" where
  "clear_sms_idx = on_drv (modify (\<lambda>d. d\<lparr>sms_idx := replicate 256 0\<rparr>))"

definition register_all :: "unit mm" where
  "register_all = gthen (register ''gsm'') (gthen (register ''GsmSendSms'') (gthen (register ''GsmCheckSMSState'')
     (gthen (register ''gsm_set_simslot'') (gthen (register ''gsm_send_sms'') (register ''atexit'')))))"

definition start_tasks :: "unit mm" where
  "start_tasks = gthen (gsm_tasks_add 1000 Task_query_call_state) (gthen (gsm_tasks_add 10000 Task_sms_sender)
     (gthen (gsm_tasks_add 10000 Task_update_lcd) (modify (\<lambda>x. x\<lparr>gsm_initialized := True\<rparr>))))"

text \<open>The last part: the library, the channel type and the registrations; it ends early when one of the first two fails.\<close>

definition start_driver :: "gsm_par \<Rightarrow> string \<Rightarrow> unit mm" where
  "start_driver par sysdebug =
     gbind (on_drv (gbind (gets (\<lambda>d. gsm_cfg (lib d))) (\<lambda>cfgs. on_lib (gsm_init (others par) True cfgs (ast_true par sysdebug))))) (\<lambda>r.
       if r < 0 then ret ()
       else gbind (on_drv answer) (\<lambda>r. if r \<noteq> 0 then ret ()
         else gthen (register ''GSM'') (gthen register_all start_tasks)))"

definition load_module_thread :: "load_par \<Rightarrow> nat \<Rightarrow> unit mm" where
  "load_module_thread lp fuel =
     gthen (on_drv (modify (\<lambda>d. d\<lparr>gsm_slcc := replicate MAX_GSM_PORTS slcc_zero\<rparr>)))
     (gthen (config_init lp) (gthen make_sms_dir (gthen read_debug (gthen zero_tables
     (gthen (on_drv (for_ports open_queue all_ports))
     (gthen (for_ids fuel (load_port (lp_par lp)) None)
     (gthen clear_sms_idx (gbind read_sysdebug (start_driver (lp_par lp))))))))))"


section \<open>Unloading\<close>

definition unload_module :: "int mm" where
  "unload_module = gthen (unregister ''gsm'') (gthen (unregister ''GsmSendSms'') (gthen (unregister ''GsmCheckSMSState'')
     (gthen (unregister ''gsm_set_simslot'') (gthen (unregister ''gsm_send_sms'') (gthen (unregister ''GSM'')
     (gthen config_exit
     (gthen (gbind (gets gsm_initialized) (\<lambda>i. if i
         then gthen gsm_tasks_destroy (gthen (on_drv (on_lib gsm_shutdown)) (modify (\<lambda>x. x\<lparr>gsm_initialized := False\<rparr>)))
         else ret ()))
     (gthen (unregister ''atexit'') (ret 0)))))))))"


section \<open>Reloading\<close>

text \<open>The flag of a port that is in use; the entries of all tables with its number are cleared otherwise.\<close>

definition clear_port :: "int \<Rightarrow> unit mm" where
  "clear_port i = gthen (group_put (nat i) None)
     (gthen (on_drv (gsm_cfg_upd i (\<lambda>_. gsm_config_zero))) (on_drv (status_upd i (\<lambda>_. status_zero))))"

primrec clear_idle :: "int list \<Rightarrow> bool list mm" where
  "clear_idle [] = ret []"
| "clear_idle (i # is) = gbind (on_drv (on_lib (gsm_port_in_use_get i))) (\<lambda>u.
     gthen (if u = 0 then clear_port i else ret ()) (gbind (clear_idle is) (\<lambda>bs. ret ((u \<noteq> 0) # bs))))"

text \<open>The array \<open>busy_port\<close> has one entry for each port; its first entry is not used.\<close>

definition reload_port :: "gsm_par \<Rightarrow> bool list \<Rightarrow> int \<Rightarrow> unit mm" where
  "reload_port par busy port = gbind (usable_port port) (\<lambda>u. if \<not> u then ret ()
     else (\<lambda>x. run_bind (arr_get busy port) (\<lambda>b. (if b then ret ()
       else gthen (group_port port) (gthen (on_drv (set_slot port)) (on_drv (init_mod_port_drv par port)))) x)))"

text \<open>What happens to a port: whether it is shut down, and whether it is started.\<close>

definition port_change :: "int \<Rightarrow> int \<Rightarrow> bool \<times> bool" where
  "port_change before now =
     (if before = 0 \<and> now = 1 then (False, True) else if before = 1 \<and> now = 1 then (True, True)
      else if before = 1 \<and> now = 0 then (True, False) else (False, False))"

definition plan_port :: "gsm_config list \<Rightarrow> int \<Rightarrow> (bool \<times> bool) mm" where
  "plan_port prev i = gbind (on_drv (on_lib (gsm_check_port i))) (\<lambda>ok. if ok = 0 then ret (False, False)
     else gbind (on_drv (on_lib (cfg_get i))) (\<lambda>g. ret (port_change (cfg_port (prev ! nat i)) (cfg_port g))))"

primrec plan_ports :: "gsm_config list \<Rightarrow> int list \<Rightarrow> (bool \<times> bool) list mm" where
  "plan_ports prev [] = ret []"
| "plan_ports prev (i # is) = gbind (plan_port prev i) (\<lambda>c. gbind (plan_ports prev is) (\<lambda>cs. ret (c # cs)))"

primrec each_port :: "(int \<Rightarrow> unit mm) \<Rightarrow> (int \<times> bool) list \<Rightarrow> unit mm" where
  "each_port f [] = ret ()"
| "each_port f (p # ps) = gthen (if snd p then f (fst p) else ret ()) (each_port f ps)"

text \<open>The ports of a plan that are not in use.\<close>

definition chosen :: "(bool \<times> bool \<Rightarrow> bool) \<Rightarrow> bool list \<Rightarrow> (bool \<times> bool) list \<Rightarrow> (int \<times> bool) list" where
  "chosen sel busy plan = map (\<lambda>i. (i, \<not> busy ! nat i \<and> sel (plan ! nat (i - 1)))) port_indices"

definition reload_module_thread :: "load_par \<Rightarrow> nat \<Rightarrow> unit mm" where
  "reload_module_thread lp fuel =
     gbind (gets (\<lambda>x. gsm_cfg (lib (drv x)))) (\<lambda>prev.
     gbind (clear_idle port_indices) (\<lambda>bs. let busy = False # bs in
     gthen config_exit (gthen (config_init lp) (gthen make_sms_dir (gthen read_debug (gthen read_sysdebug
     (gthen (for_ids fuel (reload_port (lp_par lp) busy) None)
     (gbind (plan_ports prev port_indices) (\<lambda>plan.
     gthen clear_sms_idx
     (gthen (each_port (\<lambda>i. gthen (on_drv (on_lib (gsm_shutdown_port i 0))) (ret ())) (chosen fst busy plan))
     (gthen (each_port (\<lambda>i. gthen (on_drv (on_lib (gsm_init_port i (Some i)))) (ret ())) (chosen snd busy plan))
       (each_port (\<lambda>i. gthen (on_drv (on_lib (gsm_wait_ready_with_timeout (others (lp_par lp) i) i))) (ret ()))
          (chosen snd busy plan)))))))))))))"

end
