(* ===== verification/Gsm_Load_Props.thy ===== *)
theory Gsm_Load_Props
  imports Gsm_Call_Props Gsm_Load
begin

text \<open>
  Properties of loading the GSM channel driver: the ports of the configuration, delivered by the
  configuration manager in order, are put into groups, each with a selector of its own.
\<close>


section \<open>Statements of the module\<close>

lemma wp_on_drv [wp]: "wp (on_drv m) Q x = wp m (\<lambda>v d. Q v (x\<lparr>drv := d\<rparr>)) (drv x)"
  by (auto simp: wp_def on_drv_def run_map_Ret_iff)

lemma wp_group_get [wp]: "wp (group_get i) Q x \<longleftrightarrow> i < length (groups x) \<and> Q (groups x ! i) x"
  by (auto simp: wp_def group_get_def arr_get_def)

lemma wp_group_put [wp]: "wp (group_put i g) Q x \<longleftrightarrow> i < length (groups x) \<and> Q () (x\<lparr>groups := (groups x)[i := g]\<rparr>)"
  by (auto simp: wp_def group_put_def arr_set_def)


section \<open>Groups\<close>

text \<open>The specification: a port joins the group of its name, or founds a new one at the end.\<close>

fun join_group :: "string \<Rightarrow> int \<Rightarrow> (string \<times> int list) list \<Rightarrow> (string \<times> int list) list" where
  "join_group name port [] = [(name, [port])]"
| "join_group name port ((n, ports) # gs) =
     (if n = name then (n, ports @ [port]) # gs else (n, ports) # join_group name port gs)"

definition group_view :: "csel_groups \<Rightarrow> (string \<times> int list) option list" where
  "group_view gs = map (map_option (\<lambda>(name, cs). (name, cs_chans cs))) gs"

definition groups_ok :: "csel_groups \<Rightarrow> bool" where
  "groups_ok gs \<longleftrightarrow> length gs = MAX_GSM_PORTS \<and> (\<forall>name cs. Some (name, cs) \<in> set gs \<longrightarrow> csel_wf cs \<and> cs_occupy cs = occupy_cb)"

definition group_strategy :: "string \<Rightarrow> nat" where
  "group_strategy meth = strategy_index (strategies :: (int, int, gsm_drv run) strategy list) (Some meth)"

lemma group_strategy_range: "group_strategy meth \<in> {0, 1, 2}"
  by (auto simp: group_strategy_def strategy_index_def strategies_def)

lemma csel_create_group:
  "csel_create True True strategies (Some meth) occupy_cb None refs w = Ret (Some (fresh_csel (group_strategy meth) occupy_cb), refs + 1, w)"
  using group_strategy_range [of meth]
  by (auto simp: csel_create_def fresh_csel_def fresh_data_def Let_def standard_init_def rand_init_def rr_init_def simp flip: group_strategy_def)

text \<open>The groups so far, and the free places behind them.\<close>

definition table :: "(string \<times> gsm_csel) list \<Rightarrow> csel_groups" where
  "table gs = map Some gs @ replicate (MAX_GSM_PORTS - length gs) None"

definition names_ports :: "(string \<times> gsm_csel) list \<Rightarrow> (string \<times> int list) list" where
  "names_ports gs = map (\<lambda>(name, cs). (name, cs_chans cs)) gs"

definition csels_ok :: "(string \<times> gsm_csel) list \<Rightarrow> bool" where
  "csels_ok gs \<longleftrightarrow> (\<forall>(name, cs) \<in> set gs. csel_wf cs \<and> cs_occupy cs = occupy_cb)"

lemma wp_add_to_group:
  assumes "csel_wf cs" "cs_occupy cs = occupy_cb" "0 \<le> answers (drv x) (asked (drv x))" "i < length (groups x)"
    and "\<And>cs'. csel_wf cs' \<Longrightarrow> cs_occupy cs' = occupy_cb \<Longrightarrow> cs_chans cs' = cs_chans cs @ [port] \<Longrightarrow>
      Q () (x\<lparr>drv := (drv x)\<lparr>asked := asked (drv x) + 1\<rparr>, groups := (groups x)[i := Some (name, cs')]\<rparr>)"
  shows "wp (add_to_group i (name, cs) port) Q x"
proof -
  obtain cs' where c: "csel_add strategies True cs port = Ret (cs', 0)" "csel_wf cs'" "cs_chans cs' = cs_chans cs @ [port]"
    "cs_occupy cs' = cs_occupy cs"
    using csel_add_appends [OF assms(1), of port] by blast
  let ?x = "x\<lparr>drv := (drv x)\<lparr>asked := asked (drv x) + 1\<rparr>\<rparr>"
  have "wp (group_put i (Some (name, cs'))) Q ?x"
    using assms(2,4) c assms(5) [of cs'] by (simp add: wp)
  then show ?thesis
    using assms(3) c(1) unfolding add_to_group_def wp_gbind wp_on_drv wp_answer by (simp add: wp_def)
qed

lemma wp_create_group:
  assumes "\<And>n. 0 \<le> answers (drv x) n" "i < length (groups x)"
    and "\<And>cs n r. csel_wf cs \<Longrightarrow> cs_occupy cs = occupy_cb \<Longrightarrow> cs_chans cs = [] \<Longrightarrow>
      Q () (x\<lparr>drv := (drv x)\<lparr>asked := n\<rparr>, csel_refs := r, groups := (groups x)[i := Some (name, cs)]\<rparr>)"
  shows "wp (create_group i name meth) Q x"
proof -
  let ?cs = "fresh_csel (group_strategy meth) occupy_cb :: gsm_csel"
  have cs: "csel_wf ?cs" "cs_occupy ?cs = occupy_cb" "cs_chans ?cs = []"
    using group_strategy_range [of meth] by simp_all
  let ?x = "x\<lparr>drv := (drv x)\<lparr>asked := asked (drv x) + 1 + 1 + 1\<rparr>, csel_refs := csel_refs x + 1\<rparr>"
  have "wp (group_put i (Some (name, ?cs))) Q ?x"
    using assms(2,3) cs by (simp add: wp)
  moreover have "\<not> answers (drv x) n < 0" for n using assms(1) by (simp add: not_less)
  ultimately show ?thesis
    using assms(1)
    by (simp add: create_group_def wp_gbind wp_on_drv wp_answer wp_if) (simp add: wp_def csel_create_group)
qed

lemma wp_group_step:
  assumes "i < length (groups x)" "\<And>n. 0 \<le> answers (drv x) n"
    and "\<And>cs n r. groups x ! i = None \<Longrightarrow> csel_wf cs \<Longrightarrow> cs_occupy cs = occupy_cb \<Longrightarrow> cs_chans cs = [port] \<Longrightarrow>
      Q () (x\<lparr>csel_refs := r, drv := (drv x)\<lparr>asked := n\<rparr>, groups := (groups x)[i := Some (name, cs)]\<rparr>)"
    and "\<And>n' cs. groups x ! i = Some (n', cs) \<Longrightarrow> csel_wf cs \<and> cs_occupy cs = occupy_cb"
    and "\<And>cs cs' n. groups x ! i = Some (name, cs) \<Longrightarrow> csel_wf cs' \<Longrightarrow> cs_occupy cs' = occupy_cb \<Longrightarrow> cs_chans cs' = cs_chans cs @ [port] \<Longrightarrow>
      Q () (x\<lparr>drv := (drv x)\<lparr>asked := n\<rparr>, groups := (groups x)[i := Some (name, cs')]\<rparr>)"
    and "\<And>n' cs. groups x ! i = Some (n', cs) \<Longrightarrow> n' \<noteq> name \<Longrightarrow> wp (group_loop name meth port is) Q x"
  shows "wp (group_loop name meth port (i # is)) Q x"
proof (cases "groups x ! i")
  case None
  have add: "wp (add_to_group i (name, cs) port) Q (x\<lparr>drv := (drv x)\<lparr>asked := n\<rparr>, csel_refs := r, groups := (groups x)[i := Some (name, cs)]\<rparr>)"
    if cs: "csel_wf cs" "cs_occupy cs = occupy_cb" "cs_chans cs = []" for cs n r
  proof (rule wp_add_to_group [OF cs(1,2)])
    fix cs' :: gsm_csel
    assume cs': "csel_wf cs'" "cs_occupy cs' = occupy_cb" "cs_chans cs' = cs_chans cs @ [port]"
    then show "Q () (x\<lparr>drv := (drv x)\<lparr>asked := n\<rparr>, csel_refs := r, groups := (groups x)[i := Some (name, cs)]\<rparr>
        \<lparr>drv := (drv (x\<lparr>drv := (drv x)\<lparr>asked := n\<rparr>, csel_refs := r, groups := (groups x)[i := Some (name, cs)]\<rparr>))
           \<lparr>asked := asked (drv (x\<lparr>drv := (drv x)\<lparr>asked := n\<rparr>, csel_refs := r, groups := (groups x)[i := Some (name, cs)]\<rparr>)) + 1\<rparr>,
         groups := (groups (x\<lparr>drv := (drv x)\<lparr>asked := n\<rparr>, csel_refs := r, groups := (groups x)[i := Some (name, cs)]\<rparr>))[i := Some (name, cs')]\<rparr>)"
      using assms(3) [OF None cs'(1,2), of "Suc n" r] cs(3) by simp
  qed (use assms(1,2) in auto)
  show ?thesis
    using assms(1,2) None
    by (auto simp: wp_gthen wp_gbind wp_group_get wp_if add intro!: wp_create_group)
next
  case (Some g)
  obtain n' cs where g: "g = (n', cs)" by force
  show ?thesis
    using assms(1,2,4-6) Some
    by (auto simp: wp_gthen wp_gbind wp_group_get wp_if wp_ret g intro!: wp_add_to_group)
qed

lemma names_ports_simps [simp]:
  "names_ports [] = []" "names_ports ((n, cs) # gs) = (n, cs_chans cs) # names_ports gs" "names_ports (gs @ hs) = names_ports gs @ names_ports hs"
  by (simp_all add: names_ports_def)

lemma csels_ok_simps [simp]:
  "csels_ok []" "csels_ok ((n, cs) # gs) = (csel_wf cs \<and> cs_occupy cs = occupy_cb \<and> csels_ok gs)"
  by (auto simp: csels_ok_def)

lemma wp_group_loop:
  assumes "groups x = map Some (pre @ gs) @ replicate k None" "csels_ok gs" "\<And>n. 0 \<le> answers (drv x) n" "0 < k"
    and "\<And>gs' k' n r. csels_ok gs' \<Longrightarrow> names_ports gs' = join_group name port (names_ports gs) \<Longrightarrow> length gs' + k' = length gs + k \<Longrightarrow>
      Q () (x\<lparr>csel_refs := r, drv := (drv x)\<lparr>asked := n\<rparr>, groups := map Some (pre @ gs') @ replicate k' None\<rparr>)"
  shows "wp (group_loop name meth port [length pre..<length pre + length gs + k]) Q x"
  using assms
proof (induction gs arbitrary: pre)
  case Nil
  have g: "groups x ! length pre = None" "length pre < length (groups x)"
    "(groups x)[length pre := v] = map Some pre @ v # replicate (k - 1) None" for v
    using Nil.prems(1,4) by (cases k; simp add: nth_append list_update_append)+
  have "[length pre..<length pre + length ([] :: (string \<times> gsm_csel) list) + k] = length pre # [Suc (length pre)..<length pre + k]"
    using Nil.prems(4) by (simp add: upt_conv_Cons)
  moreover have "wp (group_loop name meth port (length pre # [Suc (length pre)..<length pre + k])) Q x"
  proof (rule wp_group_step [OF g(2) Nil.prems(3)])
    fix cs :: gsm_csel and n r
    assume cs: "csel_wf cs" "cs_occupy cs = occupy_cb" "cs_chans cs = [port]"
    show "Q () (x\<lparr>csel_refs := r, drv := (drv x)\<lparr>asked := n\<rparr>, groups := (groups x)[length pre := Some (name, cs)]\<rparr>)"
      using Nil.prems(5) [of "[(name, cs)]" "k - 1" n r] Nil.prems(4) cs by (simp add: g(3))
  qed (simp_all add: g(1))
  ultimately show ?case by simp
next
  case (Cons g gs)
  obtain m cs where gm: "g = (m, cs)" by force
  have g: "groups x ! length pre = Some (m, cs)" "length pre < length (groups x)"
    "(groups x)[length pre := v] = map Some pre @ v # map Some gs @ replicate k None" for v
    using Cons.prems(1) by (simp_all add: nth_append list_update_append gm)
  have ok: "csel_wf cs" "cs_occupy cs = occupy_cb" "csels_ok gs" using Cons.prems(2) by (simp_all add: gm)
  have "[length pre..<length pre + length (g # gs) + k] = length pre # [length (pre @ [g])..<length (pre @ [g]) + length gs + k]"
    by (subst upt_conv_Cons) simp_all
  moreover have "wp (group_loop name meth port (length pre # [length (pre @ [g])..<length (pre @ [g]) + length gs + k])) Q x"
  proof (rule wp_group_step [OF g(2) Cons.prems(3)])
    fix cs1 cs' :: gsm_csel and n
    assume cs: "groups x ! length pre = Some (name, cs1)" "csel_wf cs'" "cs_occupy cs' = occupy_cb" "cs_chans cs' = cs_chans cs1 @ [port]"
    show "Q () (x\<lparr>drv := (drv x)\<lparr>asked := n\<rparr>, groups := (groups x)[length pre := Some (name, cs')]\<rparr>)"
      using Cons.prems(5) [of "(name, cs') # gs" k n "csel_refs x"] cs ok g(1) by (simp add: g(3) gm)
  next
    fix n' cs1
    assume n: "groups x ! length pre = Some (n', cs1)" "n' \<noteq> name"
    show "wp (group_loop name meth port [length (pre @ [g])..<length (pre @ [g]) + length gs + k]) Q x"
    proof (rule Cons.IH [OF _ ok(3) Cons.prems(3,4)])
      show "groups x = map Some ((pre @ [g]) @ gs) @ replicate k None" using Cons.prems(1) by simp
      fix gs' k' n r
      assume "csels_ok gs'" "names_ports gs' = join_group name port (names_ports gs)" "length gs' + k' = length gs + k"
      then show "Q () (x\<lparr>csel_refs := r, drv := (drv x)\<lparr>asked := n\<rparr>, groups := map Some ((pre @ [g]) @ gs') @ replicate k' None\<rparr>)"
        using Cons.prems(5) [of "g # gs'" k' n r] ok g(1) \<open>groups x ! length pre = Some (n', cs1)\<close> \<open>n' \<noteq> name\<close> by (simp add: gm)
    qed
  qed (use g(1) ok in auto)
  ultimately show ?case by simp
qed


section \<open>The ports of the configuration\<close>

text \<open>A directive of a port as a buffer of \<open>n\<close> bytes receives it.\<close>

definition port_text :: "cm option \<Rightarrow> nat \<Rightarrow> cfg_port \<Rightarrow> int \<Rightarrow> string" where
  "port_text c n k port = (case cm_get c True n (int SECT_PORT) (int (cfg_port_id k)) (Id_int port) of Ret (_, _, Some s) \<Rightarrow> s | _ \<Rightarrow> [])"

lemma cfg_read_port:
  assumes "configured p (config d)" "0 < n"
  shows "\<exists>re. cfg_read n SECT_PORT (cfg_port_id k) (Id_int p) d = Ret ((re, port_text (config d) n k p), d)"
proof -
  let ?e = "cfg_port_id k"
  obtain cm row where cm: "config d = Some cm" "loaded_wf cm" "cm_secs cm = config_sections"
    "key_row (cm_secs cm ! 1) (cm_hashes cm ! 1) (Id_int p) = Ret (Some row)"
    using assms(1) by (auto simp: configured_def)
  have e: "?e < 16" by (cases k) simp_all
  obtain re v where v: "copy_out (effective (cm_vals cm ! 1) (nat row) ?e) n = (re, Some v)"
    using copy_out_text [OF assms(2)] by blast
  have "cm_get (Some cm) True n (int SECT_PORT) (int ?e) (Id_int p) = Ret (Some cm, re, Some v)"
    using cm_get_loaded [OF cm(2), of 1 ?e n "Id_int p"] cm(3,4) config_sections_facts assms(2) v e
    by (auto simp: id_matches_def SECT_PORT_def)
  then show ?thesis using cm(1) by (simp add: cfg_read_def port_text_def config_same)
qed

definition dev_path :: "int \<Rightarrow> string" where
  "dev_path i = ''/dev/gsm/ctl'' @ itoa i"

text \<open>What loading a port leaves alone.\<close>

definition loadable :: "int \<Rightarrow> cm option \<Rightarrow> (nat \<Rightarrow> int) \<Rightarrow> (int \<Rightarrow> string option) \<Rightarrow> gsm_drv \<Rightarrow> bool" where
  "loadable p c A F d \<longleftrightarrow> 0 < p \<and> p < 32 \<and> config d = c \<and> configured p c \<and> answers d = A \<and> (\<forall>i. files (lib d) (dev_path i) = F i) \<and>
     length (gsm_status d) = 32 \<and> length (gsm_cfg (lib d)) = 32"

lemma triple_cfg:
  assumes "\<And>v. triple (loadable p c A F) (f v) (loadable p c A F)" "0 < n"
  shows "triple (loadable p c A F) (gbind (port_cfg_or def n k p) f) (loadable p c A F)"
  unfolding triple_def
proof (intro allI impI)
  fix d assume d: "loadable p c A F d"
  then obtain re where "cfg_read n SECT_PORT (cfg_port_id k) (Id_int p) d = Ret ((re, port_text (config d) n k p), d)"
    using cfg_read_port [of p d n k] assms(2) by (auto simp: loadable_def)
  then have "wp (port_cfg_or def n k p) Q d \<longleftrightarrow> Q (if re \<noteq> 0 then def else port_text (config d) n k p) d" for Q
    by (simp add: port_cfg_or_def cfg_read_or_def wp_gbind) (simp add: wp_def ret_def)
  then show "wp (gbind (port_cfg_or def n k p) f) (\<lambda>_. loadable p c A F) d"
    using assms(1) d by (simp add: wp_gbind triple_def)
qed

lemma triple_cfg_upd: "triple (loadable p c A F) (gsm_cfg_upd p f) (loadable p c A F)"
  by (auto simp: triple_def loadable_def gsm_cfg_upd_def wp)

lemma triple_port_status: "triple (loadable p c A F) (status_upd p f) (loadable p c A F)"
  by (auto simp: triple_def loadable_def wp)

lemma triple_next_get: "triple (loadable p c A F) (on_lib (gsm_simslot_next_get q)) (loadable p c A F)"
  by (auto simp: triple_def loadable_def gsm_simslot_next_get_def wp)

lemma triple_next_put: "triple (loadable p c A F) (on_lib (gsm_set_next_simslot p s)) (loadable p c A F)"
  by (auto simp: triple_def loadable_def gsm_set_next_simslot_def gsm_simslot_get_def wp dev_path_def slot_next_path_def split: option.split)

lemma triple_init_mod_port: "triple (loadable p c A F) (init_mod_port_drv par p) (loadable p c A F)"
  unfolding init_mod_port_drv_def
  by (rule triple_gbind [OF triple_next_get] triple_if triple_ret triple_gthen triple_port_status triple_cfg_upd triple_cfg | simp)+

lemma triple_set_slot: "triple (loadable p c A F) (set_slot p) (loadable p c A F)"
  unfolding set_slot_def by (rule triple_cfg triple_gthen triple_next_put triple_ret | simp)+


definition loading :: "cm option \<Rightarrow> (nat \<Rightarrow> int) \<Rightarrow> (int \<Rightarrow> string option) \<Rightarrow> (string \<times> int list) list \<Rightarrow> gsm_module \<Rightarrow> bool" where
  "loading c A F v x \<longleftrightarrow> config (drv x) = c \<and> answers (drv x) = A \<and> (\<forall>i. files (lib (drv x)) (dev_path i) = F i) \<and>
     length (gsm_status (drv x)) = 32 \<and> length (gsm_cfg (lib (drv x))) = 32 \<and>
     (\<exists>gs k. groups x = map Some gs @ replicate k None \<and> length gs + k = MAX_GSM_PORTS \<and> csels_ok gs \<and> names_ports gs = v)"

lemma loading_loadable: "loading c A F v x \<Longrightarrow> 0 < p \<Longrightarrow> p < 32 \<Longrightarrow> configured p c \<Longrightarrow> loadable p c A F (drv x)"
  by (simp add: loading_def loadable_def)

lemma loading_drv: "loading c A F v x \<Longrightarrow> loadable p c A F d \<Longrightarrow> loading c A F v (x\<lparr>drv := d\<rparr>)"
  by (simp add: loading_def loadable_def)

lemma loading_tasks [simp]: "loading c A F v (x\<lparr>gsm_tasks := t\<rparr>) = loading c A F v x"
  by (simp add: loading_def)

lemma wp_on_drv_loading:
  assumes "loading c A F v x" "0 < p" "p < 32" "configured p c" "triple (loadable p c A F) m (loadable p c A F)"
    and "\<And>r x'. loading c A F v x' \<Longrightarrow> Q r x'"
  shows "wp (on_drv m) Q x"
  unfolding wp_on_drv
  by (rule wp_mono [OF tripleD [OF assms(5) loading_loadable [OF assms(1-4)]]]) (rule assms(6) [OF loading_drv [OF assms(1)]])

lemma wp_group_port:
  assumes "loading c A F v x" "0 < p" "p < 32" "configured p c" "\<And>n. 0 \<le> A n" "length v < 32"
    and "\<And>x'. loading c A F (join_group (port_text c 128 CFG_PORT_NAME p) p v) x' \<Longrightarrow> Q () x'"
  shows "wp (group_port p) Q x"
proof -
  let ?name = "port_text c 128 CFG_PORT_NAME p" and ?meth = "port_text c 128 CFG_PORT_METHOD p"
  have c: "config (drv x) = c" using assms(1) by (simp add: loading_def)
  obtain re where r: "cfg_read 128 SECT_PORT (cfg_port_id CFG_PORT_NAME) (Id_int p) (drv x) = Ret ((re, ?name), drv x)"
    using cfg_read_port [of p "drv x" 128 CFG_PORT_NAME] assms(4) c by auto
  obtain re' where r': "cfg_read 128 SECT_PORT (cfg_port_id CFG_PORT_METHOD) (Id_int p) (drv x) = Ret ((re', ?meth), drv x)"
    using cfg_read_port [of p "drv x" 128 CFG_PORT_METHOD] assms(4) c by auto
  have eq: "wp (group_port p) Q x = wp (group_loop ?name ?meth p [0..<MAX_GSM_PORTS]) Q x"
    unfolding group_port_def wp_gbind wp_on_drv
    using r r' by (simp add: wp_def [of "cfg_read _ _ _ _"] wp_gbind wp_on_drv)
  obtain gs k where g: "groups x = map Some gs @ replicate k None" "length gs + k = MAX_GSM_PORTS" "csels_ok gs" "names_ports gs = v"
    using assms(1) by (auto simp: loading_def)
  have k: "0 < k" using g(2,4) assms(6) by (auto simp: MAX_GSM_PORTS_def names_ports_def)
  have "wp (group_loop ?name ?meth p [length ([] :: (string \<times> gsm_csel) list)..<length ([] :: (string \<times> gsm_csel) list) + length gs + k]) Q x"
  proof (rule wp_group_loop [OF _ g(3) _ k])
    show "groups x = map Some ([] @ gs) @ replicate k None" using g(1) by simp
    show "0 \<le> answers (drv x) n" for n using assms(1,5) by (simp add: loading_def)
    fix gs' k' n r
    assume "csels_ok gs'" "names_ports gs' = join_group ?name p (names_ports gs)" "length gs' + k' = length gs + k"
    then show "Q () (x\<lparr>csel_refs := r, drv := (drv x)\<lparr>asked := n\<rparr>, groups := map Some ([] @ gs') @ replicate k' None\<rparr>)"
      using assms(1) g by (intro assms(7)) (auto simp: loading_def)
  qed
  then show ?thesis using g(2) by (simp add: eq)
qed

lemma triple_cfg_alone: "0 < n \<Longrightarrow> triple (loadable p c A F) (port_cfg_or def n k p) (loadable p c A F)"
  using triple_cfg [of p c A F ret n def k] by (simp add: triple_ret) (simp add: triple_def wp_gbind wp_ret wp_fun)

lemma wp_load_port:
  assumes "loading c A F v x" "0 < p" "p < 32" "configured p c" "F p \<noteq> None" "\<And>n. 0 \<le> A n" "length v < 32"
    and "\<And>x'. loading c A F (join_group (port_text c 128 CFG_PORT_NAME p) p v) x' \<Longrightarrow> Q () x'"
  shows "wp (load_port par p) Q x"
proof -
  note on = wp_on_drv_loading [OF _ assms(2-4)]
  have u: "wp (usable_port p) Q x = Q True x" for Q
    using assms(1-3,5) by (simp add: usable_port_def MAX_GSM_PORTS_def gsm_check_port_def loading_def dev_path_def wp)
  show ?thesis
    unfolding load_port_def wp_gbind u simp_thms if_False wp_gthen
    apply (rule wp_group_port [OF assms(1-4,6,7)])
    apply (erule on [OF _ triple_set_slot])
    apply (erule on [OF _ triple_init_mod_port])
    apply (rule on)
      apply assumption
     apply (rule triple_cfg_alone, simp)
    using assms(8) apply (auto simp: wp_if gsm_tasks_add_def wp_modify wp_ret)
    done
qed

text \<open>The groups of a list of ports.\<close>

definition grouped :: "cm option \<Rightarrow> int list \<Rightarrow> (string \<times> int list) list \<Rightarrow> (string \<times> int list) list" where
  "grouped c is v = fold (\<lambda>i. join_group (port_text c 128 CFG_PORT_NAME i) i) is v"

lemma join_group_length: "length (join_group n i v) \<le> Suc (length v)"
  by (induction v rule: join_group.induct) auto

text \<open>The keys of the section of the ports, in order.\<close>

definition port_keys :: "cm \<Rightarrow> int list \<Rightarrow> bool" where
  "port_keys cm ks \<longleftrightarrow> loaded_wf cm \<and> cm_secs cm = config_sections \<and> distinct ks \<and> (\<forall>k \<in> set ks. 0 \<le> k) \<and>
     (\<exists>h. cm_hashes cm ! 1 = Some (Hash_i h) \<and> cm_key_arrays cm ! 1 = Some (map Key_i ks) \<and> length ks = AST_HASH_LENGTH_NOLOCK h)"

definition key_before :: "int list \<Rightarrow> nat \<Rightarrow> cm_key option" where
  "key_before ks j = (if j = 0 then None else Some (Key_i (ks ! (j - 1))))"

lemma next_port_key:
  assumes "port_keys cm ks" "j \<le> length ks"
  shows "cm_get_next_id (Some cm) (int SECT_PORT) (key_before ks j) =
    Ret (Some cm, if j < length ks then (1, Some (Key_i (ks ! j))) else (0, None))"
proof -
  obtain h where h: "loaded_wf cm" "1 < length (cm_secs cm)" "s_key_type (cm_secs cm ! 1) = KTYPE_INTEGER"
    "cm_hashes cm ! 1 = Some (Hash_i h)" "cm_key_arrays cm ! 1 = Some (map Key_i ks)" "length ks = AST_HASH_LENGTH_NOLOCK h"
    "distinct ks" "\<forall>k \<in> set ks. 0 \<le> k"
    using assms(1) config_sections_facts by (auto simp: port_keys_def)
  show ?thesis
    using next_id_int [OF h] assms(2) by (cases j) (auto simp: key_before_def SECT_PORT_def)
qed

lemma for_ids_groups:
  assumes "loading (Some cm) A F v x" "port_keys cm ks" "n + j = length ks"
    and "\<forall>i \<in> set ks. 0 < i \<and> i < 32 \<and> configured i (Some cm) \<and> F i \<noteq> None" "\<And>n. 0 \<le> A n" "length v + n \<le> 32"
  shows "\<exists>x'. for_ids (Suc n) (load_port par) (key_before ks j) x = Ret ((), x') \<and> loading (Some cm) A F (grouped (Some cm) (drop j ks) v) x'"
  using assms
proof (induction n arbitrary: x v j)
  case 0
  have cfg: "config (drv x) = Some cm" using 0(1) by (simp add: loading_def)
  have "loading (Some cm) A F v (x\<lparr>drv := (drv x)\<lparr>config := Some cm\<rparr>\<rparr>)" using 0(1) by (simp add: loading_def)
  then show ?case using 0(3) next_port_key [OF 0(2), of j] cfg by (simp add: ret_def grouped_def)
next
  case (Suc n)
  let ?i = "ks ! j" let ?v = "join_group (port_text (Some cm) 128 CFG_PORT_NAME ?i) ?i v"
  have j: "j < length ks" "drop j ks = ?i # drop (Suc j) ks" "key_before ks (Suc j) = Some (Key_i ?i)"
    using Suc.prems(3) by (auto simp: Cons_nth_drop_Suc key_before_def)
  have cfg: "config (drv x) = Some cm" using Suc.prems(1) by (simp add: loading_def)
  have same: "x\<lparr>drv := (drv x)\<lparr>config := Some cm\<rparr>\<rparr> = x" using cfg by (simp add: config_same)
  have p: "0 < ?i" "?i < 32" "configured ?i (Some cm)" "F ?i \<noteq> None" using Suc.prems(4) j(1) by simp_all
  have "wp (load_port par ?i) (\<lambda>_. loading (Some cm) A F ?v) x"
    by (rule wp_load_port [OF Suc.prems(1) p Suc.prems(5)]) (use Suc.prems(6) in simp_all)
  then obtain x1 where x1: "load_port par ?i x = Ret ((), x1)" "loading (Some cm) A F ?v x1" by (auto simp: wp_def)
  have "length ?v + n \<le> 32" using join_group_length [of "port_text (Some cm) 128 CFG_PORT_NAME ?i" ?i v] Suc.prems(6) by simp
  from Suc.IH [OF x1(2) Suc.prems(2) _ Suc.prems(4,5) this, of "Suc j"] Suc.prems(3) obtain x' where
    "for_ids (Suc n) (load_port par) (Some (Key_i ?i)) x1 = Ret ((), x')" "loading (Some cm) A F (grouped (Some cm) (drop (Suc j) ks) ?v) x'"
    by (auto simp: j(3))
  moreover have step: "for_ids (Suc (Suc n)) (load_port par) (key_before ks j) x =
      gthen (load_port par ?i) (for_ids (Suc n) (load_port par) (Some (Key_i ?i))) (x\<lparr>drv := (drv x)\<lparr>config := Some cm\<rparr>\<rparr>)"
    using next_port_key [OF Suc.prems(2), of j] j(1) cfg by (subst for_ids.simps(2)) (simp del: for_ids.simps)
  ultimately show ?case
    unfolding step same using x1(1) by (simp add: gthen_def gbind_def grouped_def j(2) del: for_ids.simps)
qed

lemma section_port_keys:
  assumes "loaded_wf cm" "cm_secs cm = config_sections" "cm_hashes cm ! 1 = Some (Hash_i h)"
    and "ks = map fst (AST_HASH_TRAVERSE_NOLOCK h)" "distinct ks" "\<forall>k \<in> set ks. 0 < k"
  shows "port_keys cm (sort ks)"
proof -
  have "section_loaded (cm_secs cm ! 1) (cm_vals cm ! 1) (cm_hashes cm ! 1) (cm_key_arrays cm ! 1)"
    using assms(1,2) config_sections_facts(1) by (simp add: loaded_wf_def)
  then obtain ks' where "cm_key_arrays cm ! 1 = Some (map Key_i ks')" "length ks' = AST_HASH_LENGTH_NOLOCK h"
    "- 1 \<notin> set ks \<longrightarrow> ks' = sort ks"
    using assms(2-4) config_sections_facts(5) unfolding section_loaded_def by auto
  moreover have "- 1 \<notin> set ks" using assms(6) by auto
  ultimately show ?thesis using assms by (auto simp: port_keys_def)
qed

text \<open>
  C13. Loading puts every configured port into the group of its name. The loop over the ports of the configuration returns, and
  afterwards the table of groups has one selector for each name, in the order in which the names first appear; the
  selector has exactly the ports with this name, in ascending order, each once, and asks the driver for a port by \<open>csel_occupy\<close>. The
  free places come last. The ports have a module, and there is memory.
\<close>

theorem loaded_groups:
  assumes "config (drv x) = Some cm" "loaded_wf cm" "cm_secs cm = config_sections" "cm_hashes cm ! 1 = Some (Hash_i h)"
    and "ks = map fst (AST_HASH_TRAVERSE_NOLOCK h)" "distinct ks"
    and "\<forall>i \<in> set ks. 0 < i \<and> i < 32 \<and> configured i (Some cm) \<and> files (lib (drv x)) (dev_path i) \<noteq> None"
    and "groups x = replicate MAX_GSM_PORTS None" "length (gsm_status (drv x)) = MAX_GSM_PORTS" "length (gsm_cfg (lib (drv x))) = MAX_GSM_PORTS"
    and "\<forall>n. 0 \<le> answers (drv x) n"
  shows "\<exists>x' gs k. for_ids (Suc (length ks)) (load_port par) None x = Ret ((), x') \<and> groups x' = map Some gs @ replicate k None \<and>
    map (\<lambda>(name, cs). (name, cs_chans cs)) gs = grouped (Some cm) (sort ks) [] \<and>
    (\<forall>(name, cs) \<in> set gs. csel_wf cs \<and> cs_occupy cs = occupy_cb) \<and> length gs + k = MAX_GSM_PORTS"
proof -
  let ?F = "\<lambda>i. files (lib (drv x)) (dev_path i)"
  have k: "port_keys cm (sort ks)" by (rule section_port_keys [OF assms(2-6)]) (use assms(7) in auto)
  have l: "loading (Some cm) (answers (drv x)) ?F [] x"
    using assms(1,8-10) by (auto simp: loading_def MAX_GSM_PORTS_def intro!: exI [of _ "[]"])
  have "set ks \<subseteq> {1..31}" using assms(7) by force
  from card_mono [OF _ this] have "length ks \<le> 32" using distinct_card [OF assms(6)] by simp
  with for_ids_groups [OF l k, of "length ks" 0 par] assms(7,11) obtain x' where
    "for_ids (Suc (length ks)) (load_port par) None x = Ret ((), x')" "loading (Some cm) (answers (drv x)) ?F (grouped (Some cm) (sort ks) []) x'"
    by (auto simp: key_before_def)
  then show ?thesis by (auto simp: loading_def names_ports_def csels_ok_def)
qed

definition demo_module :: gsm_module where
  "demo_module = \<lparr>drv = demo_drv\<lparr>lib := demo_port\<lparr>files := (\<lambda>_. Some ''0'')\<rparr>\<rparr>, groups = replicate MAX_GSM_PORTS None, csel_refs = 0,
     cms = \<lparr>w_objs = lhash_init_str 0 1, w_cms = Map.empty, w_next = 8, w_refs = 0\<rparr>, config_ptr = None, gsm_tasks = None, registered = [],
     gsm_initialized = False\<rparr>"

theorem loaded_groups_witness:
  "\<exists>x' cs k. for_ids 2 (load_port demo_par) None demo_module = Ret ((), x') \<and>
     groups x' = Some (port_text (Some demo_gsm_cm) 128 CFG_PORT_NAME 1, cs) # replicate k None \<and> cs_chans cs = [1]"
proof -
  have c: "configured 1 (Some demo_gsm_cm)"
    using baseD(13) [of 1 demo_drv] demo_drv_no_call by (simp add: no_call_def demo_drv_def)
  have h: "cm_secs demo_gsm_cm = config_sections" "cm_hashes demo_gsm_cm ! 1 = Some (Hash_i (one_key 1))"
    by (simp_all add: demo_gsm_cm_def)
  have k: "[1] = map fst (AST_HASH_TRAVERSE_NOLOCK (one_key 1))" using one_key_table [of 1] by (simp add: HASHSIZE_def)
  have d: "config (drv demo_module) = Some demo_gsm_cm" "groups demo_module = replicate MAX_GSM_PORTS None"
    "length (gsm_status (drv demo_module)) = MAX_GSM_PORTS" "length (gsm_cfg (lib (drv demo_module))) = MAX_GSM_PORTS"
    "\<forall>n. 0 \<le> answers (drv demo_module) n" "files (lib (drv demo_module)) (dev_path i) \<noteq> None" for i
    by (simp_all add: demo_module_def demo_drv_def MAX_GSM_PORTS_def demo_port_streams)
  show ?thesis
    using loaded_groups [OF d(1) demo_gsm_cm_wf h k _ _ d(2-5), of demo_par] c d(6)
    by (auto simp: grouped_def numeral_2_eq_2)
qed

text \<open>Reloading clears the groups by the numbers of the ports: the first group is never cleared, so that its ports are added once more.\<close>

lemma wp_clear_port:
  assumes "0 < i" "i < 32" "length (groups x) = 32" "length (gsm_status (drv x)) = 32" "length (gsm_cfg (lib (drv x))) = 32"
  shows "wp (clear_port i) (\<lambda>_ x'. groups x' = (groups x)[nat i := None] \<and> length (gsm_status (drv x')) = 32 \<and>
    length (gsm_cfg (lib (drv x'))) = 32 \<and> ctlport (lib (drv x')) = ctlport (lib (drv x))) x"
  using assms by (simp add: clear_port_def gsm_cfg_upd_def wp nat_less_iff)

lemma clear_idle_keeps_first_group:
  assumes "length (groups x) = 32" "length (gsm_status (drv x)) = 32" "length (gsm_cfg (lib (drv x))) = 32"
    and "length (ctlport (lib (drv x))) = 32" "\<forall>i \<in> set is. 0 < i \<and> i < 32"
  shows "wp (clear_idle is) (\<lambda>_ x'. groups x' ! 0 = groups x ! 0) x"
  using assms
proof (induction "is" arbitrary: x)
  case (Cons i "is")
  have f: "0 \<le> k \<and> k < 32" if "find P port_indices = Some k" for P k
    using that by (auto simp: find_Some_iff port_indices_def MAX_GSM_PORTS_def)
  have "\<exists>r. gsm_port_in_use_get i (lib (drv x)) = Ret (r, lib (drv x))"
    using Cons.prems(4,5) f
    by (cases "find (\<lambda>k. cp_port (ctlport (lib (drv x)) ! nat k) = i) port_indices")
       (auto simp: gsm_port_in_use_get_def getctlport_def gets_def gbind_def ctl_get_def arr_get_def ret_def)
  then obtain r where "gsm_port_in_use_get i (lib (drv x)) = Ret (r, lib (drv x))" ..
  then have u: "wp (on_drv (on_lib (gsm_port_in_use_get i))) Q x = Q r x" for Q
    by (simp add: wp_def on_drv_def on_lib_def)
  show ?case
  proof (cases "r = 0")
    case True
    have i: "0 < i" "i < 32" using Cons.prems(5) by simp_all
    show ?thesis
      unfolding clear_idle.simps wp_gbind u wp_gthen if_P [OF True]
      by (rule wp_mono [OF wp_clear_port [OF i Cons.prems(1-3)]], rule wp_mono [OF Cons.IH])
         (use Cons.prems i in \<open>auto simp: wp_ret\<close>)
  next
    case False
    show ?thesis
      unfolding clear_idle.simps wp_gbind u wp_gthen if_not_P [OF False] wp_ret
      by (rule wp_mono [OF Cons.IH]) (use Cons.prems in auto)
  qed
qed (simp add: wp)

end
