(* ===== verification/Hfc_Fifo.thy ===== *)
theory Hfc_Fifo
  imports Statements
begin

text \<open>
  The FIFOs of the HFC-S PCI driver (\<open>zaphfc/fifo.h\<close>, \<open>zaphfc/fifo.c\<close>): six ring buffers, two per
  channel, in 32 kB of memory the card and the driver share.

  The memory is a function from addresses (offsets from \<open>card->fifos\<close>) to bytes; every
  access checks that the address is one of the \<open>0x8000\<close> bytes, and faults otherwise. A
  \<open>u16\<close> of it lies low byte first, as the card writes it. The functions act on a
  structure \<open>hfc_chan_simplex\<close> and the memory; \<open>chan->chan->status\<close>, the only field they
  read through the back pointer apart from names for messages, is an argument. A function that fills a
  buffer of its caller gives back the bytes it stored, where it stored any.

  \<open>DAHDI_CHUNKSIZE\<close> comes from a header of DAHDI: the argument \<open>cs\<close>. The register fields have the
  widths of the source, and expressions are evaluated in \<open>int\<close> as the promotions of C prescribe.
\<close>


section \<open>Structures\<close>

type_synonym u8 = "8 word"
type_synonym u16 = "16 word"
type_synonym u64 = "64 word"
type_synonym fmem = "int \<Rightarrow> u8"

definition hfc_FIFO_SIZE :: int where "hfc_FIFO_SIZE = 0x8000"
definition hfc_UGLY_FRAMEBUF :: nat where "hfc_UGLY_FRAMEBUF = 0x2000"

definition hfc_RX_FIFO_PRELOAD :: nat where "hfc_RX_FIFO_PRELOAD = 4"

definition hfc_TX_FIFO_PRELOAD :: "nat \<Rightarrow> nat" where
  "hfc_TX_FIFO_PRELOAD cs = cs + 2"

datatype hfc_chan_status = free | open_framed | open_voice | sniff_aux | loopback

record hfc_chan_simplex =
  zaptel_buffer :: "u8 list"
  ugly_framebuf :: "u8 list"
  ugly_framebuf_size :: int
  ugly_framebuf_off :: u16
  z1_base :: int
  z2_base :: int
  fifo_base :: int
  z_base :: int
  z_min :: u16
  z_max :: u16
  fifo_size :: u16
  f1_ptr :: int
  f2_ptr :: int
  f_min :: u8
  f_max :: u8
  f_num :: u8
  frames :: u64
  bytes :: u64
  fifo_full :: u64
  crc :: u64
  fifo_underrun :: u64

type_synonym 'a fm = "(hfc_chan_simplex \<times> fmem, 'a) st"

text \<open>Conversions of an \<open>int\<close> to the unsigned types are modulo their width.\<close>

definition to_u8 :: "int \<Rightarrow> u8" where "to_u8 i = word_of_int i"
definition to_u16 :: "int \<Rightarrow> u16" where "to_u16 i = word_of_int i"
definition to_u64 :: "int \<Rightarrow> u64" where "to_u64 i = word_of_int i"

text \<open>The remainder of C has the sign of the dividend; by zero it traps.\<close>

definition c_rem :: "int \<Rightarrow> int \<Rightarrow> ('w, int) st" where
  "c_rem a b = (if b = 0 then fault else ret (sgn a * (\<bar>a\<bar> mod \<bar>b\<bar>)))"


section \<open>The shared memory\<close>

definition chan :: "(hfc_chan_simplex \<Rightarrow> 'a) \<Rightarrow> 'a fm" where
  "chan f = gets (\<lambda>(ch, m). f ch)"

definition chan_upd :: "(hfc_chan_simplex \<Rightarrow> hfc_chan_simplex) \<Rightarrow> unit fm" where
  "chan_upd f = modify (\<lambda>(ch, m). (f ch, m))"

definition in_fifos :: "int \<Rightarrow> int \<Rightarrow> bool" where
  "in_fifos a n \<longleftrightarrow> 0 \<le> a \<and> 0 \<le> n \<and> a + n \<le> hfc_FIFO_SIZE"

definition peek8 :: "int \<Rightarrow> u8 fm" where
  "peek8 a = (if in_fifos a 1 then gets (\<lambda>(ch, m). m a) else fault)"

definition poke8 :: "int \<Rightarrow> u8 \<Rightarrow> unit fm" where
  "poke8 a x = (if in_fifos a 1 then modify (\<lambda>(ch, m). (ch, m(a := x))) else fault)"

definition u16_at :: "fmem \<Rightarrow> int \<Rightarrow> u16" where
  "u16_at m a = to_u16 (uint (m a) + 256 * uint (m (a + 1)))"

definition u16_put :: "int \<Rightarrow> u16 \<Rightarrow> fmem \<Rightarrow> fmem" where
  "u16_put a x m = m(a := to_u8 (uint x), a + 1 := to_u8 (uint x div 256))"

definition peek16 :: "int \<Rightarrow> u16 fm" where
  "peek16 a = (if in_fifos a 2 then gets (\<lambda>(ch, m). u16_at m a) else fault)"

definition poke16 :: "int \<Rightarrow> u16 \<Rightarrow> unit fm" where
  "poke16 a x = (if in_fifos a 2 then modify (\<lambda>(ch, m). (ch, u16_put a x m)) else fault)"

text \<open>\<open>memcpy\<close> out of the memory and into it; a negative size is a huge \<open>size_t\<close>.\<close>

definition mem_slice :: "fmem \<Rightarrow> int \<Rightarrow> int \<Rightarrow> u8 list" where
  "mem_slice m a n = map (\<lambda>i. m (a + int i)) [0..<nat n]"

definition mem_paste :: "int \<Rightarrow> u8 list \<Rightarrow> fmem \<Rightarrow> fmem" where
  "mem_paste a xs m = (\<lambda>x. if a \<le> x \<and> x < a + int (length xs) then xs ! nat (x - a) else m x)"

definition memcpy_out :: "int \<Rightarrow> int \<Rightarrow> u8 list fm" where
  "memcpy_out a n = (if in_fifos a n then gets (\<lambda>(ch, m). mem_slice m a n) else fault)"

text \<open>\<open>memcpy (a, data + off, n)\<close>; reading beyond the end of the source faults, too.\<close>

definition memcpy_in :: "int \<Rightarrow> u8 list \<Rightarrow> int \<Rightarrow> int \<Rightarrow> unit fm" where
  "memcpy_in a data off n =
     (if in_fifos a n \<and> 0 \<le> off \<and> off + n \<le> int (length data)
      then modify (\<lambda>(ch, m). (ch, mem_paste a (take (nat n) (drop (nat off) data)) m)) else fault)"


section \<open>fifo.h\<close>

definition f1 :: "u8 fm" where "f1 = gbind (chan f1_ptr) peek8"
definition f2 :: "u8 fm" where "f2 = gbind (chan f2_ptr) peek8"

definition set_f1 :: "u8 \<Rightarrow> unit fm" where "set_f1 x = gbind (chan f1_ptr) (\<lambda>a. poke8 a x)"
definition set_f2 :: "u8 \<Rightarrow> unit fm" where "set_f2 x = gbind (chan f2_ptr) (\<lambda>a. poke8 a x)"

definition Z1_F1 :: "int fm" where
  "Z1_F1 = gbind f1 (\<lambda>f. chan (\<lambda>ch. z1_base ch + uint f * 4))"

definition Z2_F1 :: "int fm" where
  "Z2_F1 = gbind f1 (\<lambda>f. chan (\<lambda>ch. z2_base ch + uint f * 4))"

definition Z1_F2 :: "int fm" where
  "Z1_F2 = gbind f2 (\<lambda>f. chan (\<lambda>ch. z1_base ch + uint f * 4))"

definition Z2_F2 :: "int fm" where
  "Z2_F2 = gbind f2 (\<lambda>f. chan (\<lambda>ch. z2_base ch + uint f * 4))"

definition deref16 :: "int fm \<Rightarrow> u16 fm" where
  "deref16 p = gbind p peek16"

definition assign16 :: "int fm \<Rightarrow> u16 \<Rightarrow> unit fm" where
  "assign16 p x = gbind p (\<lambda>a. poke16 a x)"

definition Z_inc :: "hfc_chan_simplex \<Rightarrow> u16 \<Rightarrow> u16 \<Rightarrow> u16" where
  "Z_inc ch z inc =
     (let newz = (ucast z + ucast inc :: 32 word);
          newz = (if newz > ucast (z_max ch) then newz - ucast (fifo_size ch) else newz)
      in ucast newz)"

definition F_inc :: "hfc_chan_simplex \<Rightarrow> u8 \<Rightarrow> u8 \<Rightarrow> u8" where
  "F_inc ch f inc =
     (let newf = (ucast f + ucast inc :: u16);
          newf = (if newf > ucast (f_max ch) then newf - ucast (f_num ch) else newf)
      in ucast newf)"

definition hfc_fifo_used_rx :: "u16 fm" where
  "hfc_fifo_used_rx = gbind (deref16 Z1_F2) (\<lambda>z1. gbind (deref16 Z2_F2) (\<lambda>z2. gbind (chan fifo_size) (\<lambda>sz.
     gbind (c_rem (uint z1 - uint z2 + uint sz) (uint sz)) (\<lambda>r. ret (to_u16 r)))))"

definition hfc_fifo_get_frame_size :: "u16 fm" where
  "hfc_fifo_get_frame_size = gbind hfc_fifo_used_rx (\<lambda>u. ret (to_u16 (uint u + 1)))"

definition hfc_fifo_u8 :: "u16 \<Rightarrow> u8 fm" where
  "hfc_fifo_u8 z = gbind (chan z_base) (\<lambda>b. peek8 (b + uint z))"

definition hfc_fifo_used_tx :: "u16 fm" where
  "hfc_fifo_used_tx = gbind (deref16 Z1_F1) (\<lambda>z1. gbind (deref16 Z2_F1) (\<lambda>z2. gbind (chan fifo_size) (\<lambda>sz.
     gbind (c_rem (uint z1 - uint z2 + uint sz) (uint sz)) (\<lambda>r. ret (to_u16 r)))))"

definition hfc_fifo_free_rx :: "u16 fm" where
  "hfc_fifo_free_rx = gbind (deref16 Z2_F1) (\<lambda>z2. gbind (deref16 Z1_F1) (\<lambda>z1. gbind (chan fifo_size) (\<lambda>sz.
     let free_bytes = to_u16 (uint z2 - uint z1) in
     if uint free_bytes > 0 then ret free_bytes else ret (to_u16 (uint free_bytes + uint sz)))))"

definition hfc_fifo_free_tx :: "u16 fm" where
  "hfc_fifo_free_tx = gbind (deref16 Z2_F1) (\<lambda>z2. gbind (deref16 Z1_F1) (\<lambda>z1. gbind (chan fifo_size) (\<lambda>sz.
     let free_bytes = to_u16 (uint z2 - uint z1) in
     if uint free_bytes > 0 then ret free_bytes else ret (to_u16 (uint free_bytes + uint sz)))))"

definition hfc_fifo_has_frames :: "bool fm" where
  "hfc_fifo_has_frames = gbind f1 (\<lambda>a. gbind f2 (\<lambda>b. ret (a \<noteq> b)))"

definition hfc_fifo_used_frames :: "u8 fm" where
  "hfc_fifo_used_frames = gbind f1 (\<lambda>a. gbind f2 (\<lambda>b. gbind (chan f_num) (\<lambda>n.
     gbind (c_rem (uint a - uint b + uint n) (uint n)) (\<lambda>r. ret (to_u8 r)))))"

definition hfc_fifo_free_frames :: "u8 fm" where
  "hfc_fifo_free_frames = gbind f2 (\<lambda>b. gbind f1 (\<lambda>a. gbind (chan f_num) (\<lambda>n.
     gbind (c_rem (uint b - uint a + uint n) (uint n)) (\<lambda>r. ret (to_u8 r)))))"


section \<open>fifo.c\<close>

definition hfc_fifo_mem_read :: "int \<Rightarrow> int \<Rightarrow> u8 list fm" where
  "hfc_fifo_mem_read z_start n = gbind (chan (\<lambda>ch. ch)) (\<lambda>ch.
     let bytes_to_boundary = uint (z_max ch) - z_start + 1 in
     if bytes_to_boundary \<ge> n then memcpy_out (z_base ch + z_start) n
     else gbind (memcpy_out (z_base ch + z_start) bytes_to_boundary) (\<lambda>a.
          gbind (memcpy_out (fifo_base ch) (n - bytes_to_boundary)) (\<lambda>b. ret (a @ b))))"

definition hfc_fifo_mem_write :: "u8 list \<Rightarrow> int \<Rightarrow> unit fm" where
  "hfc_fifo_mem_write data n = gbind (chan (\<lambda>ch. ch)) (\<lambda>ch. gbind (deref16 Z1_F1) (\<lambda>z1.
     let bytes_to_boundary = uint (z_max ch) - uint z1 + 1 in
     if bytes_to_boundary \<ge> n then memcpy_in (z_base ch + uint z1) data 0 n
     else gthen (memcpy_in (z_base ch + uint z1) data 0 bytes_to_boundary)
          (memcpy_in (fifo_base ch) data bytes_to_boundary (n - bytes_to_boundary))))"

text \<open>The result and the bytes stored in \<open>data\<close>.\<close>

definition hfc_fifo_get :: "int \<Rightarrow> (int \<times> u8 list option) fm" where
  "hfc_fifo_get n = gthen (chan_upd (\<lambda>ch. ch\<lparr>bytes := bytes ch + to_u64 n\<rparr>))
     (gbind hfc_fifo_used_rx (\<lambda>available_bytes.
      gbind (if uint available_bytes < n
             then gbind (chan fifo_underrun) (\<lambda>u.
                  gthen (chan_upd (\<lambda>ch. ch\<lparr>fifo_underrun := u + 1\<rparr>)) (ret (u = 0)))
             else ret False) (\<lambda>first.
      if first then ret (- 1, None)
      else gbind (deref16 Z2_F2) (\<lambda>z2. gbind (hfc_fifo_mem_read (uint z2) n) (\<lambda>data.
           gbind (chan (\<lambda>ch. Z_inc ch z2 (to_u16 n))) (\<lambda>z2'.
           gthen (assign16 Z2_F2 z2') (ret (uint available_bytes - n, Some data))))))))"

text \<open>
  \<open>hfc_fifo_put\<close> and \<open>hfc_clear_fifo_tx\<close> call each other: the first argument counts the calls of the
  former that may be open at the same time.
\<close>

fun hfc_fifo_put :: "nat \<Rightarrow> nat \<Rightarrow> hfc_chan_status \<Rightarrow> u8 list \<Rightarrow> int \<Rightarrow> unit fm"
  and hfc_clear_fifo_tx :: "nat \<Rightarrow> nat \<Rightarrow> hfc_chan_status \<Rightarrow> unit fm" where
  "hfc_fifo_put 0 cs status data n = hang"
| "hfc_fifo_put (Suc d) cs status data n =
     gbind hfc_fifo_used_tx (\<lambda>used_bytes. gbind hfc_fifo_free_tx (\<lambda>free_bytes.
     gthen (if uint used_bytes = 0 then chan_upd (\<lambda>ch. ch\<lparr>fifo_underrun := fifo_underrun ch + 1\<rparr>) else ret ())
     (gthen (if uint free_bytes < n
             then gthen (chan_upd (\<lambda>ch. ch\<lparr>fifo_full := fifo_full ch + 1\<rparr>)) (hfc_clear_fifo_tx d cs status)
             else ret ())
     (gthen (hfc_fifo_mem_write data n)
     (gthen (chan_upd (\<lambda>ch. ch\<lparr>bytes := bytes ch + to_u64 n\<rparr>))
     (gbind (deref16 Z1_F1) (\<lambda>z1. gbind (chan (\<lambda>ch. Z_inc ch z1 (to_u16 n))) (assign16 Z1_F1))))))))"
| "hfc_clear_fifo_tx d cs status =
     gthen (gbind f2 set_f1)
     (gthen (gbind (deref16 Z2_F1) (assign16 Z1_F1))
     (if status = open_voice
      then (let len = hfc_TX_FIFO_PRELOAD cs + cs + hfc_RX_FIFO_PRELOAD in
            hfc_fifo_put d cs status (replicate len 0x7f) (int len))
      else ret ()))"

definition hfc_fifo_drop_frame :: "unit fm" where
  "hfc_fifo_drop_frame = gbind hfc_fifo_has_frames (\<lambda>has.
     if \<not> has then ret ()
     else gbind hfc_fifo_used_rx (\<lambda>used. let available_bytes = uint used + 1 in
          gbind (deref16 Z2_F2) (\<lambda>z2. gbind (chan (\<lambda>ch. Z_inc ch z2 (to_u16 available_bytes))) (\<lambda>newz2.
          gbind f2 (\<lambda>f. gbind (chan (\<lambda>ch. F_inc ch f 1)) (\<lambda>f'.
          gthen (set_f2 f') (assign16 Z2_F2 newz2)))))))"

text \<open>The result and the bytes stored in \<open>data\<close>: a frame with a wrong checksum is copied, too.\<close>

definition hfc_fifo_get_frame :: "int \<Rightarrow> (int \<times> u8 list option) fm" where
  "hfc_fifo_get_frame max_size = gbind hfc_fifo_has_frames (\<lambda>has.
     if \<not> has then ret (- 1, None)
     else gbind hfc_fifo_get_frame_size (\<lambda>sz. let frame_size = uint sz in
       if frame_size \<le> 0 then gthen hfc_fifo_drop_frame (ret (- 1, None))
       else
         gthen (chan_upd (\<lambda>ch. ch\<lparr>bytes := bytes ch + to_u64 (frame_size - 1)\<rparr>))
         (gbind (deref16 Z2_F2) (\<lambda>z2.
          gbind (chan (\<lambda>ch. Z_inc ch z2 (to_u16 frame_size))) (\<lambda>newz2.
          gbind (hfc_fifo_mem_read (uint z2) (if frame_size < max_size then frame_size else max_size)) (\<lambda>data.
          gbind (chan (\<lambda>ch. Z_inc ch z2 (to_u16 (frame_size - 1)))) (\<lambda>zs. gbind (hfc_fifo_u8 zs) (\<lambda>stat.
          if stat \<noteq> 0x00
          then gthen (chan_upd (\<lambda>ch. ch\<lparr>crc := crc ch + 1\<rparr>))
               (gthen hfc_fifo_drop_frame (ret (- 1, Some data)))
          else gthen (chan_upd (\<lambda>ch. ch\<lparr>frames := frames ch + 1\<rparr>))
               (gbind f2 (\<lambda>f. gbind (chan (\<lambda>ch. F_inc ch f 1)) (\<lambda>f'.
                gthen (set_f2 f') (gthen (assign16 Z2_F2 newz2) (ret (frame_size, Some data))))))))))))))"

definition hfc_fifo_put_frame :: "nat \<Rightarrow> nat \<Rightarrow> hfc_chan_status \<Rightarrow> u8 list \<Rightarrow> int \<Rightarrow> unit fm" where
  "hfc_fifo_put_frame d cs status data n =
     gbind hfc_fifo_free_frames (\<lambda>available_frames. gbind (chan f_num) (\<lambda>num.
     if uint available_frames \<ge> uint num then chan_upd (\<lambda>ch. ch\<lparr>fifo_full := fifo_full ch + 1\<rparr>)
     else gthen (hfc_fifo_put d cs status data n)
       (gbind (deref16 Z1_F1) (\<lambda>newz1.
        gbind f1 (\<lambda>f. gbind (chan (\<lambda>ch. F_inc ch f 1)) (\<lambda>f'.
        gthen (set_f1 f') (gthen (assign16 Z1_F1 newz1)
          (chan_upd (\<lambda>ch. ch\<lparr>frames := frames ch + 1\<rparr>)))))))))"

definition hfc_clear_fifo_rx :: "unit fm" where
  "hfc_clear_fifo_rx = gthen (gbind f1 set_f2) (gbind (deref16 Z1_F2) (assign16 Z2_F2))"

end
