(* ===== verification/Hfc_Ring.thy ===== *)
theory Hfc_Ring
  imports Hfc_Fifo
begin

text \<open>
  Facts about the FIFOs of the HFC-S PCI driver the proofs of their operations rest on: where the
  parts of a FIFO lie (\<open>fifo_wf\<close>), which values its counters have (\<open>fifo_ok\<close>), what the counters
  are after one of them was stored, the arithmetic of the ring (\<open>ring_pos\<close>), and the bytes in it
  (\<open>ring_bytes\<close>, \<open>ring_put\<close>), which the two-piece copies of the driver read and write.
\<close>


section \<open>Values of the counters\<close>

lemma uint_to_u8_mod: "uint (to_u8 i) = i mod 256"
  by (simp add: to_u8_def uint_word_of_int)

lemma uint_to_u16_mod: "uint (to_u16 i) = i mod 65536"
  by (simp add: to_u16_def uint_word_of_int)

lemma u16_at_put_same [simp]: "u16_at (u16_put a x m) a = x"
proof -
  have "0 \<le> uint x div 256" "uint x div 256 < 256" using uint_lt2p [of x] by (simp_all add: pos_imp_zdiv_nonneg_iff)
  then have "uint x div 256 mod 256 = uint x div 256" by simp
  then have "uint (to_u8 (uint x)) + 256 * uint (to_u8 (uint x div 256)) = uint x"
    by (simp add: uint_to_u8_mod)
  then show ?thesis by (simp add: u16_at_def u16_put_def to_u16_def)
qed

lemma u16_at_put_other [simp]: "a + 2 \<le> b \<or> b + 2 \<le> a \<Longrightarrow> u16_at (u16_put a x m) b = u16_at m b"
  by (auto simp: u16_at_def u16_put_def)

lemma u16_at_upd [simp]: "x \<noteq> a \<Longrightarrow> x \<noteq> a + 1 \<Longrightarrow> u16_at (m(x := y)) a = u16_at m a"
  by (simp add: u16_at_def)

lemma u16_put_other [simp]: "x \<noteq> a \<Longrightarrow> x \<noteq> a + 1 \<Longrightarrow> u16_put a v m x = m x"
  by (simp add: u16_put_def)

lemma uint_to_u16: "0 \<le> i \<Longrightarrow> i < 65536 \<Longrightarrow> uint (to_u16 i) = i"
  by (simp add: to_u16_def uint_word_of_int)

lemma uint_to_u8: "0 \<le> i \<Longrightarrow> i < 256 \<Longrightarrow> uint (to_u8 i) = i"
  by (simp add: to_u8_def uint_word_of_int)


section \<open>The layout of a FIFO\<close>

definition data_area :: "hfc_chan_simplex \<Rightarrow> int set" where
  "data_area ch = {fifo_base ch ..< fifo_base ch + uint (fifo_size ch)}"

definition z_area :: "hfc_chan_simplex \<Rightarrow> int set" where
  "z_area ch = {z1_base ch + uint (f_min ch) * 4 ..< z1_base ch + uint (f_max ch) * 4 + 4}"

definition f_area :: "hfc_chan_simplex \<Rightarrow> int set" where
  "f_area ch = {f1_ptr ch ..< f1_ptr ch + 2}"

definition fifo_area :: "hfc_chan_simplex \<Rightarrow> int set" where
  "fifo_area ch = data_area ch \<union> z_area ch \<union> f_area ch"

definition fifo_wf :: "hfc_chan_simplex \<Rightarrow> bool" where
  "fifo_wf ch \<longleftrightarrow>
     uint (z_min ch) \<le> uint (z_max ch) \<and> uint (fifo_size ch) = uint (z_max ch) - uint (z_min ch) + 1 \<and>
     uint (z_max ch) < 0x7FFF \<and>
     fifo_base ch = z_base ch + uint (z_min ch) \<and>
     uint (f_min ch) \<le> uint (f_max ch) \<and> uint (f_num ch) = uint (f_max ch) - uint (f_min ch) + 1 \<and>
     uint (f_max ch) < 255 \<and> z2_base ch = z1_base ch + 2 \<and> f2_ptr ch = f1_ptr ch + 1 \<and>
     fifo_area ch \<subseteq> {0..<hfc_FIFO_SIZE} \<and>
     data_area ch \<inter> z_area ch = {} \<and> data_area ch \<inter> f_area ch = {} \<and> z_area ch \<inter> f_area ch = {}"

abbreviation sz :: "hfc_chan_simplex \<Rightarrow> int" where "sz ch \<equiv> uint (fifo_size ch)"

definition z_in :: "hfc_chan_simplex \<Rightarrow> u16 \<Rightarrow> bool" where
  "z_in ch z \<longleftrightarrow> uint (z_min ch) \<le> uint z \<and> uint z \<le> uint (z_max ch)"

definition f_in :: "hfc_chan_simplex \<Rightarrow> u8 \<Rightarrow> bool" where
  "f_in ch f \<longleftrightarrow> uint (f_min ch) \<le> uint f \<and> uint f \<le> uint (f_max ch)"

definition F1 :: "hfc_chan_simplex \<Rightarrow> fmem \<Rightarrow> u8" where "F1 ch m = m (f1_ptr ch)"
definition F2 :: "hfc_chan_simplex \<Rightarrow> fmem \<Rightarrow> u8" where "F2 ch m = m (f2_ptr ch)"

definition Z1 :: "hfc_chan_simplex \<Rightarrow> fmem \<Rightarrow> u8 \<Rightarrow> u16" where
  "Z1 ch m f = u16_at m (z1_base ch + uint f * 4)"

definition Z2 :: "hfc_chan_simplex \<Rightarrow> fmem \<Rightarrow> u8 \<Rightarrow> u16" where
  "Z2 ch m f = u16_at m (z2_base ch + uint f * 4)"

definition fifo_ok :: "hfc_chan_simplex \<Rightarrow> fmem \<Rightarrow> bool" where
  "fifo_ok ch m \<longleftrightarrow> fifo_wf ch \<and> f_in ch (F1 ch m) \<and> f_in ch (F2 ch m) \<and>
     (\<forall>f. f_in ch f \<longrightarrow> z_in ch (Z1 ch m f) \<and> z_in ch (Z2 ch m f))"

definition set_z1 :: "hfc_chan_simplex \<Rightarrow> u8 \<Rightarrow> u16 \<Rightarrow> fmem \<Rightarrow> fmem" where
  "set_z1 ch f x m = u16_put (z1_base ch + uint f * 4) x m"

definition set_z2 :: "hfc_chan_simplex \<Rightarrow> u8 \<Rightarrow> u16 \<Rightarrow> fmem \<Rightarrow> fmem" where
  "set_z2 ch f x m = u16_put (z2_base ch + uint f * 4) x m"

lemmas fifo_addr_defs = F1_def F2_def Z1_def Z2_def set_z1_def set_z2_def

lemma wf_z_cell:
  assumes "fifo_wf ch" "f_in ch f"
  shows "in_fifos (z1_base ch + uint f * 4) 2" "in_fifos (z2_base ch + uint f * 4) 2"
    "in_fifos (f1_ptr ch) 1" "in_fifos (f2_ptr ch) 1"
proof -
  have "{z1_base ch + uint f * 4, z1_base ch + uint f * 4 + 3, f1_ptr ch, f1_ptr ch + 1} \<subseteq> fifo_area ch"
    using assms by (auto simp: fifo_area_def z_area_def f_area_def f_in_def)
  moreover have "fifo_area ch \<subseteq> {0..<hfc_FIFO_SIZE}" using assms by (simp add: fifo_wf_def)
  ultimately have "{z1_base ch + uint f * 4, z1_base ch + uint f * 4 + 3, f1_ptr ch, f1_ptr ch + 1} \<subseteq> {0..<hfc_FIFO_SIZE}"
    by (rule order_trans)
  then show "in_fifos (z1_base ch + uint f * 4) 2" "in_fifos (z2_base ch + uint f * 4) 2"
    "in_fifos (f1_ptr ch) 1" "in_fifos (f2_ptr ch) 1"
    using assms by (auto simp: in_fifos_def fifo_wf_def)
qed

lemma interval_apart:
  assumes "{a..<b} \<inter> {c..<d} = {}" "a < b" "c < (d::int)"
  shows "b \<le> c \<or> d \<le> a"
proof (rule ccontr)
  assume "\<not> ?thesis"
  then have "max a c \<in> {a..<b} \<inter> {c..<d}" using assms by auto
  with assms show False by blast
qed

lemma z_f_apart:
  assumes "fifo_wf ch" "f_in ch f"
  shows "f1_ptr ch + 2 \<le> z1_base ch + uint f * 4 \<or> z1_base ch + uint f * 4 + 4 \<le> f1_ptr ch"
proof -
  have "z1_base ch + uint (f_max ch) * 4 + 4 \<le> f1_ptr ch \<or> f1_ptr ch + 2 \<le> z1_base ch + uint (f_min ch) * 4"
    using assms by (intro interval_apart) (auto simp: fifo_wf_def z_area_def f_area_def)
  with assms(2) show ?thesis by (auto simp: f_in_def)
qed

lemma cells_apart: "f \<noteq> g \<Longrightarrow> a + uint (f::u8) * 4 + 4 \<le> a + uint g * 4 \<or> a + uint g * 4 + 4 \<le> a + uint f * 4"
proof -
  assume "f \<noteq> g"
  then have "uint f \<noteq> uint g" by (simp add: word_uint_eq_iff)
  then show ?thesis by presburger
qed

lemma wf_z2: "fifo_wf ch \<Longrightarrow> z2_base ch = z1_base ch + 2" "fifo_wf ch \<Longrightarrow> f2_ptr ch = f1_ptr ch + 1"
  by (simp_all add: fifo_wf_def)

text \<open>Reading the counters after one of them was stored.\<close>

lemma counters_set_z [simp]:
  assumes "fifo_wf ch" "f_in ch f" "f_in ch g"
  shows "Z1 ch (set_z1 ch f x m) g = (if g = f then x else Z1 ch m g)"
    "Z2 ch (set_z1 ch f x m) g = Z2 ch m g"
    "Z2 ch (set_z2 ch f x m) g = (if g = f then x else Z2 ch m g)"
    "Z1 ch (set_z2 ch f x m) g = Z1 ch m g"
  using cells_apart [of g f "z1_base ch"] wf_z2 [OF assms(1)]
  by (cases "g = f"; auto simp: fifo_addr_defs)+

lemma frame_counters_set_z [simp]:
  assumes "fifo_wf ch" "f_in ch f"
  shows "F1 ch (set_z1 ch f x m) = F1 ch m" "F2 ch (set_z1 ch f x m) = F2 ch m"
    "F1 ch (set_z2 ch f x m) = F1 ch m" "F2 ch (set_z2 ch f x m) = F2 ch m"
  using z_f_apart [OF assms] wf_z2 [OF assms(1)] by (auto simp: fifo_addr_defs)

lemma counters_set_f [simp]:
  assumes "fifo_wf ch" "f_in ch g"
  shows "Z1 ch (m(f1_ptr ch := x)) g = Z1 ch m g" "Z2 ch (m(f1_ptr ch := x)) g = Z2 ch m g"
    "Z1 ch (m(f2_ptr ch := x)) g = Z1 ch m g" "Z2 ch (m(f2_ptr ch := x)) g = Z2 ch m g"
  using z_f_apart [OF assms] wf_z2 [OF assms(1)] by (auto simp: fifo_addr_defs)

lemma frame_counters_set_f [simp]:
  "F1 ch (m(f1_ptr ch := x)) = x" "F2 ch (m(f2_ptr ch := x)) = x"
  by (simp_all add: fifo_addr_defs)

lemma frame_counters_set_f_other [simp]:
  "fifo_wf ch \<Longrightarrow> F2 ch (m(f1_ptr ch := x)) = F2 ch m" "fifo_wf ch \<Longrightarrow> F1 ch (m(f2_ptr ch := x)) = F1 ch m"
  by (auto simp: fifo_addr_defs dest: wf_z2)

lemma fifo_okD:
  assumes "fifo_ok ch m"
  shows "fifo_wf ch" "f_in ch (F1 ch m)" "f_in ch (F2 ch m)"
    "f_in ch f \<Longrightarrow> z_in ch (Z1 ch m f)" "f_in ch f \<Longrightarrow> z_in ch (Z2 ch m f)"
  using assms by (simp_all add: fifo_ok_def)

lemma fifo_ok_updates:
  assumes "fifo_ok ch m"
  shows "f_in ch f \<Longrightarrow> z_in ch x \<Longrightarrow> fifo_ok ch (set_z1 ch f x m)"
    "f_in ch f \<Longrightarrow> z_in ch x \<Longrightarrow> fifo_ok ch (set_z2 ch f x m)"
    "f_in ch g \<Longrightarrow> fifo_ok ch (m(f1_ptr ch := g))" "f_in ch g \<Longrightarrow> fifo_ok ch (m(f2_ptr ch := g))"
  using assms by (simp_all add: fifo_ok_def)


section \<open>Statements on a FIFO\<close>

lemma wp_chan [wp]: "wp (chan f) Q (ch, m) = Q (f ch) (ch, m)"
  by (simp add: chan_def wp_gets)

lemma wp_chan_upd [wp]: "wp (chan_upd f) Q (ch, m) = Q () (f ch, m)"
  by (simp add: chan_upd_def wp_modify)

lemma wp_cells:
  assumes "fifo_ok ch m"
  shows "wp f1 Q (ch, m) = Q (F1 ch m) (ch, m)"
    "wp f2 Q (ch, m) = Q (F2 ch m) (ch, m)"
    "wp (set_f1 g) R (ch, m) = R () (ch, m(f1_ptr ch := g))"
    "wp (set_f2 g) R (ch, m) = R () (ch, m(f2_ptr ch := g))"
    "wp (deref16 Z1_F1) S (ch, m) = S (Z1 ch m (F1 ch m)) (ch, m)"
    "wp (deref16 Z2_F1) S (ch, m) = S (Z2 ch m (F1 ch m)) (ch, m)"
    "wp (deref16 Z1_F2) S (ch, m) = S (Z1 ch m (F2 ch m)) (ch, m)"
    "wp (deref16 Z2_F2) S (ch, m) = S (Z2 ch m (F2 ch m)) (ch, m)"
    "wp (assign16 Z1_F1 x) R (ch, m) = R () (ch, set_z1 ch (F1 ch m) x m)"
    "wp (assign16 Z2_F2 x) R (ch, m) = R () (ch, set_z2 ch (F2 ch m) x m)"
proof -
  note ok = fifo_okD [OF assms]
  note cells = wf_z_cell [OF ok(1) ok(2)] wf_z_cell [OF ok(1) ok(3)]
  have f: "wp f1 Q (ch, m) = Q (F1 ch m) (ch, m)" "wp f2 Q (ch, m) = Q (F2 ch m) (ch, m)" for Q
    using cells by (simp_all add: f1_def f2_def peek8_def wp fifo_addr_defs)
  show "wp f1 Q (ch, m) = Q (F1 ch m) (ch, m)" "wp f2 Q (ch, m) = Q (F2 ch m) (ch, m)" by (fact f)+
  show "wp (set_f1 g) R (ch, m) = R () (ch, m(f1_ptr ch := g))"
    "wp (set_f2 g) R (ch, m) = R () (ch, m(f2_ptr ch := g))"
    using cells by (simp_all add: set_f1_def set_f2_def poke8_def wp)
  show "wp (deref16 Z1_F1) S (ch, m) = S (Z1 ch m (F1 ch m)) (ch, m)"
    "wp (deref16 Z2_F1) S (ch, m) = S (Z2 ch m (F1 ch m)) (ch, m)"
    "wp (deref16 Z1_F2) S (ch, m) = S (Z1 ch m (F2 ch m)) (ch, m)"
    "wp (deref16 Z2_F2) S (ch, m) = S (Z2 ch m (F2 ch m)) (ch, m)"
    using cells
    by (simp_all add: deref16_def Z1_F1_def Z2_F1_def Z1_F2_def Z2_F2_def peek16_def wp f Z1_def Z2_def)
  show "wp (assign16 Z1_F1 x) R (ch, m) = R () (ch, set_z1 ch (F1 ch m) x m)"
    "wp (assign16 Z2_F2 x) R (ch, m) = R () (ch, set_z2 ch (F2 ch m) x m)"
    using cells
    by (simp_all add: assign16_def Z1_F1_def Z2_F2_def poke16_def wp f set_z1_def set_z2_def)
qed


section \<open>Positions in the ring\<close>

definition ring_pos :: "hfc_chan_simplex \<Rightarrow> int \<Rightarrow> int \<Rightarrow> int" where
  "ring_pos ch z k = uint (z_min ch) + (z - uint (z_min ch) + k) mod sz ch"

definition ring_bytes :: "hfc_chan_simplex \<Rightarrow> fmem \<Rightarrow> int \<Rightarrow> int \<Rightarrow> u8 list" where
  "ring_bytes ch m z n = map (\<lambda>i. m (z_base ch + ring_pos ch z (int i))) [0..<nat n]"

definition ring_put :: "hfc_chan_simplex \<Rightarrow> int \<Rightarrow> u8 list \<Rightarrow> fmem \<Rightarrow> fmem" where
  "ring_put ch z xs m = (\<lambda>x. let k = (x - z_base ch - z) mod sz ch in
     if x \<in> data_area ch \<and> k < int (length xs) then xs ! nat k else m x)"

lemma wf_num:
  assumes "fifo_wf ch"
  shows "uint (z_min ch) \<le> uint (z_max ch)" "sz ch = uint (z_max ch) - uint (z_min ch) + 1" "uint (z_max ch) < 0x7FFF"
  using assms by (simp_all add: fifo_wf_def)

lemma wf_sz: "fifo_wf ch \<Longrightarrow> 0 < sz ch" "fifo_wf ch \<Longrightarrow> sz ch \<le> 0x7FFF"
  using uint_nonnegative [of "z_min ch"] wf_num [of ch] by linarith+

lemma mod_wrap: "0 \<le> a \<Longrightarrow> a < n \<Longrightarrow> 0 \<le> k \<Longrightarrow> k \<le> n \<Longrightarrow> (a + k) mod n = (if a + k < n then a + k else a + k - (n::int))"
  by (smt (verit) minus_mod_self2 mod_pos_pos_trivial)

lemma ring_pos_range:
  "fifo_wf ch \<Longrightarrow> uint (z_min ch) \<le> ring_pos ch z k \<and> ring_pos ch z k \<le> uint (z_max ch)"
  using wf_sz [of ch] pos_mod_bound [of "sz ch" "z - uint (z_min ch) + k"]
    pos_mod_sign [of "sz ch" "z - uint (z_min ch) + k"]
  by (auto simp: ring_pos_def fifo_wf_def)

lemma ring_pos_add: "ring_pos ch (ring_pos ch z a) b = ring_pos ch z (a + b)"
  by (simp add: ring_pos_def mod_add_left_eq add.assoc)

lemma ring_pos_0: "fifo_wf ch \<Longrightarrow> z_in ch z \<Longrightarrow> ring_pos ch (uint z) 0 = uint z"
  by (auto simp: ring_pos_def z_in_def fifo_wf_def)

lemma ring_pos_in_data: "fifo_wf ch \<Longrightarrow> z_base ch + ring_pos ch z k \<in> data_area ch"
  using ring_pos_range [of ch z k] by (auto simp: data_area_def fifo_wf_def)

lemma ring_pos_diff: "(ring_pos ch z a - ring_pos ch z b) mod sz ch = (a - b) mod sz ch"
  by (simp add: ring_pos_def mod_diff_eq)

lemma ring_pos_wrap:
  assumes "fifo_wf ch" "z_in ch z" "0 \<le> k" "k \<le> sz ch"
  shows "ring_pos ch (uint z) k = (if uint z + k \<le> uint (z_max ch) then uint z + k else uint z + k - sz ch)"
  using assms mod_wrap [of "uint z - uint (z_min ch)" "sz ch" k]
  by (auto simp: ring_pos_def fifo_wf_def z_in_def)

lemma uint_ucast_32 [simp]: "uint (ucast (x :: u16) :: 32 word) = uint x"
  by (simp add: unsigned_ucast_eq take_bit_int_eq_self_iff order.strict_trans [OF uint_lt2p])

lemma Z_inc_ring:
  assumes "fifo_wf ch" "z_in ch z" "0 \<le> k" "k \<le> sz ch"
  shows "uint (Z_inc ch z (to_u16 k)) = ring_pos ch (uint z) k"
proof -
  have k: "uint (to_u16 k) = k" using assms(3,4) wf_sz(2) [OF assms(1)] by (simp add: uint_to_u16)
  have z: "uint z \<le> 0x7FFF" "uint z + k \<le> 0xFFFF"
    using assms(2,4) wf_sz(2) [OF assms(1)] assms(1) by (auto simp: z_in_def fifo_wf_def)
  let ?n = "ucast z + ucast (to_u16 k) :: 32 word"
  have n: "uint ?n = uint z + k" using z assms(3) by (simp add: uint_word_ariths k)
  have gt: "?n > ucast (z_max ch) \<longleftrightarrow> uint z + k > uint (z_max ch)"
    by (simp add: word_less_def n)
  have pos: "0 \<le> uint z + k - sz ch" if "uint z + k > uint (z_max ch)"
    using that wf_num [OF assms(1)] uint_nonnegative [of "z_min ch"] by linarith
  then have "uint (?n - ucast (fifo_size ch)) = uint z + k - sz ch" if "uint z + k > uint (z_max ch)"
    using that z wf_sz(1) [OF assms(1)] by (subst uint_word_ariths) (simp add: n)
  moreover have "uint (ucast x :: u16) = uint x mod 65536" for x :: "32 word"
    by (simp add: unsigned_ucast_eq take_bit_eq_mod)
  moreover have "(uint z + k) mod 65536 = uint z + k" using z assms(3) by simp
  moreover have "(uint z + k - sz ch) mod 65536 = uint z + k - sz ch" if "uint z + k > uint (z_max ch)"
    using pos [OF that] z wf_sz(1) [OF assms(1)] by simp
  ultimately show ?thesis
    using gt by (auto simp: Z_inc_def Let_def n ring_pos_wrap [OF assms])
qed

lemma Z_inc_in: "fifo_wf ch \<Longrightarrow> z_in ch z \<Longrightarrow> 0 \<le> k \<Longrightarrow> k \<le> sz ch \<Longrightarrow> z_in ch (Z_inc ch z (to_u16 k))"
  using ring_pos_range by (simp add: z_in_def Z_inc_ring)

lemma F_inc_in:
  assumes "fifo_wf ch" "f_in ch f"
  shows "uint (F_inc ch f 1) = (if uint f = uint (f_max ch) then uint (f_min ch) else uint f + 1)"
    "f_in ch (F_inc ch f 1)"
proof -
  have [simp]: "uint (ucast (x :: u8) :: u16) = uint x" for x
    by (simp add: unsigned_ucast_eq take_bit_int_eq_self_iff order.strict_trans [OF uint_lt2p])
  have f: "uint f < 256" "uint (f_max ch) < 255" using uint_lt2p [of f] assms(1) by (simp_all add: fifo_wf_def)
  let ?n = "ucast f + 1 :: u16"
  have n: "uint ?n = uint f + 1" using f by (simp add: uint_word_ariths)
  have gt: "?n > ucast (f_max ch) \<longleftrightarrow> uint f = uint (f_max ch)"
    using assms(2) by (auto simp: word_less_def n f_in_def)
  have "uint (?n - ucast (f_num ch)) = uint (f_min ch)" if "uint f = uint (f_max ch)"
    using that assms(1) f by (subst uint_word_ariths) (simp add: n fifo_wf_def)
  moreover have "uint (ucast x :: u8) = uint x mod 256" for x :: u16
    by (simp add: unsigned_ucast_eq take_bit_eq_mod)
  moreover have "(uint f + 1) mod 256 = uint f + 1" if "uint f \<noteq> uint (f_max ch)"
    using that assms f by (simp add: f_in_def)
  moreover have "uint (f_min ch) mod 256 = uint (f_min ch)" using f assms by (simp add: fifo_wf_def)
  ultimately show eq: "uint (F_inc ch f 1) = (if uint f = uint (f_max ch) then uint (f_min ch) else uint f + 1)"
    using gt by (auto simp: F_inc_def Let_def n)
  show "f_in ch (F_inc ch f 1)" using assms by (auto simp: f_in_def eq fifo_wf_def)
qed

lemma c_rem_used:
  assumes "fifo_wf ch" "z_in ch a" "z_in ch b"
  shows "c_rem (uint a - uint b + sz ch) (sz ch) = ret ((uint a - uint b) mod sz ch)"
proof -
  have "0 < uint a - uint b + sz ch" "sz ch \<noteq> 0" using assms by (auto simp: z_in_def fifo_wf_def)
  then show ?thesis by (simp add: c_rem_def)
qed


section \<open>Reading and writing the ring\<close>

lemma ring_bytes_length [simp]: "length (ring_bytes ch m z n) = nat n"
  by (simp add: ring_bytes_def)

lemma ring_bytes_nth: "i < nat n \<Longrightarrow> ring_bytes ch m z n ! i = m (z_base ch + ring_pos ch z (int i))"
  by (simp add: ring_bytes_def)

lemma ring_bytes_split:
  assumes "0 \<le> a" "0 \<le> b"
  shows "ring_bytes ch m z (a + b) = ring_bytes ch m z a @ ring_bytes ch m (ring_pos ch z a) b"
  using assms
  by (intro nth_equalityI) (auto simp: ring_bytes_nth nth_append ring_pos_add nat_add_distrib)

lemma mem_slice_nth: "i < nat n \<Longrightarrow> mem_slice m a n ! i = m (a + int i)"
  by (simp add: mem_slice_def)

lemma data_area_in:
  assumes "fifo_wf ch" "fifo_base ch \<le> a" "0 \<le> n" "a + n \<le> fifo_base ch + sz ch"
  shows "in_fifos a n"
proof -
  have "{fifo_base ch, fifo_base ch + sz ch - 1} \<subseteq> fifo_area ch"
    using wf_sz(1) [OF assms(1)] by (auto simp: fifo_area_def data_area_def)
  then have "{fifo_base ch, fifo_base ch + sz ch - 1} \<subseteq> {0..<hfc_FIFO_SIZE}"
    using assms(1) by (auto simp: fifo_wf_def)
  then show ?thesis using assms by (auto simp: in_fifos_def)
qed

lemma in_fifos_piece:
  assumes "fifo_wf ch" "z_in ch z" "0 \<le> n" "n \<le> uint (z_max ch) - uint z + 1"
  shows "in_fifos (z_base ch + uint z) n"
  using assms by (intro data_area_in [of ch]) (auto simp: fifo_wf_def z_in_def)

lemma wp_mem_read:
  assumes "fifo_wf ch" "z_in ch z" "0 \<le> n" "n \<le> sz ch"
  shows "wp (hfc_fifo_mem_read (uint z) n) Q (ch, m) = Q (ring_bytes ch m (uint z) n) (ch, m)"
proof (cases "n \<le> uint (z_max ch) - uint z + 1")
  case True
  have "mem_slice m (z_base ch + uint z) n = ring_bytes ch m (uint z) n"
    using True assms(3,4)
    by (intro nth_equalityI) (auto simp: mem_slice_def ring_bytes_def ring_pos_wrap [OF assms(1,2)] add.assoc)
  with True in_fifos_piece [OF assms(1,2,3) True] show ?thesis
    by (simp add: hfc_fifo_mem_read_def wp memcpy_out_def Let_def)
next
  case False
  let ?b = "uint (z_max ch) - uint z + 1"
  have b: "0 \<le> ?b" "?b \<le> sz ch" using assms(2) wf_num [OF assms(1)] by (auto simp: z_in_def)
  have base: "fifo_base ch = z_base ch + uint (z_min ch)" using assms(1) by (simp add: fifo_wf_def)
  have "mem_slice m (z_base ch + uint z) ?b @ mem_slice m (fifo_base ch) (n - ?b) = ring_bytes ch m (uint z) n"
    using False assms(3,4) b wf_num [OF assms(1)]
    by (intro nth_equalityI)
       (auto simp: mem_slice_def ring_bytes_def ring_pos_wrap [OF assms(1,2)] nth_append base algebra_simps
          intro!: arg_cong [of _ _ m])
  moreover have "in_fifos (fifo_base ch) (n - ?b)" using False assms(1,4) b by (intro data_area_in [of ch]) auto
  ultimately show ?thesis
    using False in_fifos_piece [OF assms(1,2) b(1)] by (simp add: hfc_fifo_mem_read_def wp memcpy_out_def Let_def)
qed

lemma ring_off:
  assumes "fifo_wf ch" "z_in ch z" "x \<in> data_area ch"
  shows "(x - z_base ch - uint z) mod sz ch =
    (if z_base ch + uint z \<le> x then x - z_base ch - uint z else x - z_base ch - uint z + sz ch)"
proof -
  have base: "fifo_base ch = z_base ch + uint (z_min ch)" using assms(1) by (simp add: fifo_wf_def)
  have "- sz ch \<le> x - z_base ch - uint z" "x - z_base ch - uint z < sz ch"
    using assms(2,3) wf_num [OF assms(1)] base by (auto simp: data_area_def z_in_def)
  then show ?thesis
    using mod_add_self2 [of "x - z_base ch - uint z" "sz ch"] by (auto simp del: mod_add_self2)
qed

lemma wp_mem_write:
  assumes "fifo_ok ch m" "z = Z1 ch m (F1 ch m)" "0 \<le> n" "n \<le> sz ch" "n \<le> int (length data)"
  shows "wp (hfc_fifo_mem_write data n) Q (ch, m) = Q () (ch, ring_put ch (uint z) (take (nat n) data) m)"
proof -
  note ok = fifo_okD [OF assms(1)]
  have z: "z_in ch z" using ok assms(2) by simp
  let ?b = "uint (z_max ch) - uint z + 1"
  have base: "fifo_base ch = z_base ch + uint (z_min ch)" using ok(1) by (simp add: fifo_wf_def)
  have b: "0 \<le> ?b" "?b \<le> sz ch" using z wf_num [OF ok(1)] by (auto simp: z_in_def)
  have zr: "uint (z_min ch) \<le> uint z" "uint z \<le> uint (z_max ch)" using z by (auto simp: z_in_def)
  show ?thesis
  proof (cases "n \<le> ?b")
    case True
    have "mem_paste (z_base ch + uint z) (take (nat n) data) m = ring_put ch (uint z) (take (nat n) data) m"
    proof
      fix x
      show "mem_paste (z_base ch + uint z) (take (nat n) data) m x = ring_put ch (uint z) (take (nat n) data) m x"
        using True assms(3-5) base zr wf_num [OF ok(1)] ring_off [OF ok(1) z, of x]
        by (cases "x \<in> data_area ch") (auto simp: mem_paste_def ring_put_def data_area_def algebra_simps)
    qed
    with True assms in_fifos_piece [OF ok(1) z assms(3)] show ?thesis
      by (simp add: hfc_fifo_mem_write_def wp wp_cells memcpy_in_def)
  next
    case False
    have "mem_paste (fifo_base ch) (take (nat (n - ?b)) (drop (nat ?b) data))
        (mem_paste (z_base ch + uint z) (take (nat ?b) data) m) = ring_put ch (uint z) (take (nat n) data) m"
    proof
      fix x
      show "mem_paste (fifo_base ch) (take (nat (n - ?b)) (drop (nat ?b) data))
        (mem_paste (z_base ch + uint z) (take (nat ?b) data) m) x = ring_put ch (uint z) (take (nat n) data) m x"
        using False assms(3-5) base b zr wf_num [OF ok(1)] ring_off [OF ok(1) z, of x]
        by (cases "x \<in> data_area ch")
           (auto simp: mem_paste_def ring_put_def data_area_def algebra_simps nth_append intro!: arg_cong [of _ _ "(!) data"])
    qed
    moreover have "in_fifos (fifo_base ch) (n - ?b)" using False ok(1) assms(4) b by (intro data_area_in [of ch]) auto
    ultimately show ?thesis
      using False assms in_fifos_piece [OF ok(1) z b(1)] b
      by (simp add: hfc_fifo_mem_write_def wp wp_cells memcpy_in_def Let_def)
  qed
qed

text \<open>What is appended behind \<open>k\<close> bytes of the ring extends them.\<close>

lemma ring_bytes_put:
  assumes "fifo_wf ch" "0 \<le> k" "k + int (length xs) \<le> sz ch"
  shows "ring_bytes ch (ring_put ch (ring_pos ch z k) xs m) z (k + int (length xs)) = ring_bytes ch m z k @ xs"
proof (rule nth_equalityI)
  fix i assume "i < length (ring_bytes ch (ring_put ch (ring_pos ch z k) xs m) z (k + int (length xs)))"
  then have i: "int i < k + int (length xs)" using assms(2) by simp
  have "(z_base ch + ring_pos ch z (int i) - z_base ch - ring_pos ch z k) mod sz ch = (int i - k) mod sz ch"
    using ring_pos_diff [of ch z "int i" k] by simp
  also have "\<dots> = (if int i < k then int i - k + sz ch else int i - k)"
    using i assms mod_add_self2 [of "int i - k" "sz ch"] by (auto simp del: mod_add_self2)
  finally show "ring_bytes ch (ring_put ch (ring_pos ch z k) xs m) z (k + int (length xs)) ! i = (ring_bytes ch m z k @ xs) ! i"
    using i assms ring_pos_in_data [OF assms(1)]
    by (auto simp: ring_bytes_nth ring_put_def nth_append Let_def nat_diff_distrib)
qed (use assms in simp)


section \<open>What a FIFO operation leaves alone\<close>

definition statics :: "hfc_chan_simplex \<Rightarrow> hfc_chan_simplex" where
  "statics ch = ch\<lparr>frames := 0, bytes := 0, fifo_full := 0, crc := 0, fifo_underrun := 0\<rparr>"

lemma statics_upd [simp]:
  "statics (ch\<lparr>frames := a\<rparr>) = statics ch" "statics (ch\<lparr>bytes := a\<rparr>) = statics ch"
  "statics (ch\<lparr>fifo_full := a\<rparr>) = statics ch" "statics (ch\<lparr>crc := a\<rparr>) = statics ch"
  "statics (ch\<lparr>fifo_underrun := a\<rparr>) = statics ch"
  by (simp_all add: statics_def)

lemma statics_sel [simp]:
  "z1_base (statics ch) = z1_base ch" "z2_base (statics ch) = z2_base ch" "fifo_base (statics ch) = fifo_base ch"
  "z_base (statics ch) = z_base ch" "z_min (statics ch) = z_min ch" "z_max (statics ch) = z_max ch"
  "fifo_size (statics ch) = fifo_size ch" "f1_ptr (statics ch) = f1_ptr ch" "f2_ptr (statics ch) = f2_ptr ch"
  "f_min (statics ch) = f_min ch" "f_max (statics ch) = f_max ch" "f_num (statics ch) = f_num ch"
  "zaptel_buffer (statics ch) = zaptel_buffer ch" "ugly_framebuf (statics ch) = ugly_framebuf ch"
  "ugly_framebuf_size (statics ch) = ugly_framebuf_size ch" "ugly_framebuf_off (statics ch) = ugly_framebuf_off ch"
  by (simp_all add: statics_def)

lemma fifo_statics:
  "fifo_ok (statics ch) = fifo_ok ch" "fifo_wf (statics ch) = fifo_wf ch" "fifo_area (statics ch) = fifo_area ch"
  "data_area (statics ch) = data_area ch" "F1 (statics ch) = F1 ch"
  "F2 (statics ch) = F2 ch" "Z1 (statics ch) = Z1 ch" "Z2 (statics ch) = Z2 ch" "set_z1 (statics ch) = set_z1 ch"
  "set_z2 (statics ch) = set_z2 ch" "ring_bytes (statics ch) = ring_bytes ch" "ring_put (statics ch) = ring_put ch"
  "ring_pos (statics ch) = ring_pos ch" "Z_inc (statics ch) = Z_inc ch" "F_inc (statics ch) = F_inc ch"
  "z_in (statics ch) = z_in ch" "f_in (statics ch) = f_in ch"
  by (simp_all add: fun_eq_iff fifo_ok_def fifo_wf_def fifo_area_def data_area_def z_area_def f_area_def F1_def F2_def
      Z1_def Z2_def set_z1_def set_z2_def ring_bytes_def ring_put_def ring_pos_def Z_inc_def F_inc_def Let_def z_in_def f_in_def)

lemma statics_determine: "statics ch' = statics ch \<Longrightarrow> (\<And>c. f (statics c) = f c) \<Longrightarrow> f ch' = f ch"
  by metis

lemma statics_cong:
  assumes "statics ch' = statics ch"
  shows "fifo_ok ch' = fifo_ok ch" "fifo_wf ch' = fifo_wf ch" "fifo_area ch' = fifo_area ch"
    "data_area ch' = data_area ch" "F1 ch' = F1 ch" "F2 ch' = F2 ch" "Z1 ch' = Z1 ch" "Z2 ch' = Z2 ch"
    "set_z1 ch' = set_z1 ch" "set_z2 ch' = set_z2 ch" "ring_bytes ch' = ring_bytes ch" "ring_put ch' = ring_put ch"
    "ring_pos ch' = ring_pos ch" "Z_inc ch' = Z_inc ch" "F_inc ch' = F_inc ch" "z_in ch' = z_in ch" "f_in ch' = f_in ch"
    "fifo_size ch' = fifo_size ch" "f1_ptr ch' = f1_ptr ch" "f2_ptr ch' = f2_ptr ch" "z_base ch' = z_base ch"
    "f_num ch' = f_num ch"
  by (rule statics_determine [OF assms], simp add: fifo_statics)+

lemmas counter_updates [simp] =
  statics_cong [OF statics_upd(1)] statics_cong [OF statics_upd(2)] statics_cong [OF statics_upd(3)]
  statics_cong [OF statics_upd(4)] statics_cong [OF statics_upd(5)]

lemma ring_put_outside: "x \<notin> data_area ch \<Longrightarrow> ring_put ch z xs m x = m x"
  by (simp add: ring_put_def)

lemma z_cell_area:
  assumes "fifo_wf ch" "f_in ch f"
  shows "{z1_base ch + uint f * 4 ..< z1_base ch + uint f * 4 + 4} \<subseteq> z_area ch"
  using assms by (auto simp: z_area_def f_in_def)

lemma counters_ring_put [simp]:
  assumes "fifo_wf ch"
  shows "f_in ch f \<Longrightarrow> Z1 ch (ring_put ch z xs m) f = Z1 ch m f" "f_in ch f \<Longrightarrow> Z2 ch (ring_put ch z xs m) f = Z2 ch m f"
    "F1 ch (ring_put ch z xs m) = F1 ch m" "F2 ch (ring_put ch z xs m) = F2 ch m"
proof -
  have apart: "data_area ch \<inter> z_area ch = {}" "data_area ch \<inter> f_area ch = {}" using assms by (simp_all add: fifo_wf_def)
  have out: "ring_put ch z xs m x = m x" if "x \<in> z_area ch \<or> x \<in> f_area ch" for x
    using that apart by (intro ring_put_outside) blast
  have "z1_base ch + uint f * 4 + i \<in> z_area ch" if "f_in ch f" "0 \<le> i" "i < 4" for i
    using z_cell_area [OF assms that(1)] that by auto
  from this [of 0] this [of 1] this [of 2] this [of 3]
  show "f_in ch f \<Longrightarrow> Z1 ch (ring_put ch z xs m) f = Z1 ch m f" "f_in ch f \<Longrightarrow> Z2 ch (ring_put ch z xs m) f = Z2 ch m f"
    using wf_z2 [OF assms] by (simp_all add: Z1_def Z2_def u16_at_def out add.assoc add.commute add.left_commute)
  show "F1 ch (ring_put ch z xs m) = F1 ch m" "F2 ch (ring_put ch z xs m) = F2 ch m"
    using wf_z2 [OF assms] by (simp_all add: F1_def F2_def out f_area_def)
qed

lemma fifo_ok_ring_put: "fifo_ok ch m \<Longrightarrow> fifo_ok ch (ring_put ch z xs m)"
  by (simp add: fifo_ok_def)

lemma set_cells_outside:
  assumes "fifo_wf ch" "f_in ch f" "x \<notin> z_area ch"
  shows "set_z1 ch f v m x = m x" "set_z2 ch f v m x = m x"
  using z_cell_area [OF assms(1,2)] assms(3) wf_z2 [OF assms(1)]
  by (auto simp: set_z1_def set_z2_def subset_eq intro!: u16_put_other)

lemma data_not_cells: "fifo_wf ch \<Longrightarrow> x \<in> data_area ch \<Longrightarrow> x \<notin> z_area ch \<and> x \<noteq> f1_ptr ch \<and> x \<noteq> f2_ptr ch"
  by (auto simp: fifo_wf_def f_area_def)

lemma ring_bytes_cells [simp]:
  assumes "fifo_wf ch"
  shows "f_in ch f \<Longrightarrow> ring_bytes ch (set_z1 ch f v m) z n = ring_bytes ch m z n"
    "f_in ch f \<Longrightarrow> ring_bytes ch (set_z2 ch f v m) z n = ring_bytes ch m z n"
    "ring_bytes ch (m(f1_ptr ch := g)) z n = ring_bytes ch m z n"
    "ring_bytes ch (m(f2_ptr ch := g)) z n = ring_bytes ch m z n"
  using data_not_cells [OF assms ring_pos_in_data [OF assms]]
  by (simp_all add: ring_bytes_def set_cells_outside [OF assms])

text \<open>The state after an operation: the memory of others, the layout and the buffers are as before.\<close>

definition fifo_step :: "hfc_chan_simplex \<times> fmem \<Rightarrow> hfc_chan_simplex \<times> fmem \<Rightarrow> bool" where
  "fifo_step s s' \<longleftrightarrow> fifo_ok (fst s') (snd s') \<and> statics (fst s') = statics (fst s) \<and>
     (\<forall>x. x \<notin> fifo_area (fst s) \<longrightarrow> snd s' x = snd s x)"

lemma fifo_step_trans: "fifo_step s t \<Longrightarrow> fifo_step t u \<Longrightarrow> fifo_step s u"
  using statics_cong(3) [of "fst t" "fst s"] by (simp add: fifo_step_def)

lemma fifo_stepI:
  assumes "fifo_ok ch m"
  shows "statics ch' = statics ch \<Longrightarrow> fifo_step (ch, m) (ch', m)"
    "statics ch' = statics ch \<Longrightarrow> fifo_step (ch, m) (ch', ring_put ch z xs m)"
    "statics ch' = statics ch \<Longrightarrow> f_in ch f \<Longrightarrow> z_in ch v \<Longrightarrow> fifo_step (ch, m) (ch', set_z1 ch f v m)"
    "statics ch' = statics ch \<Longrightarrow> f_in ch f \<Longrightarrow> z_in ch v \<Longrightarrow> fifo_step (ch, m) (ch', set_z2 ch f v m)"
    "statics ch' = statics ch \<Longrightarrow> f_in ch f \<Longrightarrow> fifo_step (ch, m) (ch', m(f1_ptr ch := f))"
    "statics ch' = statics ch \<Longrightarrow> f_in ch f \<Longrightarrow> fifo_step (ch, m) (ch', m(f2_ptr ch := f))"
  using assms fifo_okD(1) [OF assms] fifo_ok_updates [OF assms] statics_cong(1) [of ch' ch]
    fifo_ok_ring_put [OF assms] wf_z2 [OF fifo_okD(1) [OF assms]]
  by (auto simp: fifo_step_def fifo_area_def f_area_def ring_put_outside set_cells_outside)

end
