(* ===== verification/Hfc_Fifo_Proofs.thy ===== *)
theory Hfc_Fifo_Proofs
  imports Hfc_Ring
begin

text \<open>
  Correctness of the FIFO operations of \<open>zaphfc/fifo.c\<close> on a FIFO whose counters the card
  keeps in range (\<open>fifo_ok\<close>): what each leaves in the memory and the structure, that the B channels
  are queues of bytes, that the receiving side of the D channel is a queue of frames, and where
  the driver's tests for a full or empty FIFO do not do what they mean to.
\<close>


section \<open>How full a FIFO is\<close>

definition rx_used :: "hfc_chan_simplex \<Rightarrow> fmem \<Rightarrow> int" where
  "rx_used ch m = (uint (Z1 ch m (F2 ch m)) - uint (Z2 ch m (F2 ch m))) mod sz ch"

definition tx_used :: "hfc_chan_simplex \<Rightarrow> fmem \<Rightarrow> int" where
  "tx_used ch m = (uint (Z1 ch m (F1 ch m)) - uint (Z2 ch m (F1 ch m))) mod sz ch"

text \<open>The number \<open>hfc_fifo_free_tx\<close> computes.\<close>

definition tx_free :: "hfc_chan_simplex \<Rightarrow> fmem \<Rightarrow> int" where
  "tx_free ch m = (let z1 = uint (Z1 ch m (F1 ch m)); z2 = uint (Z2 ch m (F1 ch m)) in
     if z1 < z2 then z2 - z1 else if z1 = z2 then sz ch else 65536 - (z1 - z2))"

lemma used_range: "fifo_wf ch \<Longrightarrow> 0 \<le> rx_used ch m \<and> rx_used ch m < sz ch"
  "fifo_wf ch \<Longrightarrow> 0 \<le> tx_used ch m \<and> tx_used ch m < sz ch"
  using wf_sz(1) by (simp_all add: rx_used_def tx_used_def)

lemma uint_used [simp]:
  "fifo_wf ch \<Longrightarrow> uint (to_u16 (rx_used ch m)) = rx_used ch m"
  "fifo_wf ch \<Longrightarrow> uint (to_u16 (tx_used ch m)) = tx_used ch m"
  using used_range [of ch m] wf_sz(2) [of ch] by (auto intro!: uint_to_u16)

lemma used_cong:
  "statics ch' = statics ch \<Longrightarrow> rx_used ch' = rx_used ch" "statics ch' = statics ch \<Longrightarrow> tx_used ch' = tx_used ch"
  "statics ch' = statics ch \<Longrightarrow> tx_free ch' = tx_free ch"
  using statics_cong(5-8,18) [of ch' ch] by (simp_all add: rx_used_def tx_used_def tx_free_def fun_eq_iff Let_def)

lemmas used_updates [simp] =
  used_cong [OF statics_upd(1)] used_cong [OF statics_upd(2)] used_cong [OF statics_upd(3)]
  used_cong [OF statics_upd(4)] used_cong [OF statics_upd(5)]

lemma tx_used_cases:
  assumes "fifo_ok ch m"
  shows "tx_used ch m = (let z1 = uint (Z1 ch m (F1 ch m)); z2 = uint (Z2 ch m (F1 ch m)) in
     if z1 < z2 then z1 - z2 + sz ch else z1 - z2)"
proof -
  have z: "z_in ch (Z1 ch m (F1 ch m))" "z_in ch (Z2 ch m (F1 ch m))" using fifo_okD [OF assms] by simp_all
  define d where "d = uint (Z1 ch m (F1 ch m)) - uint (Z2 ch m (F1 ch m))"
  have "- sz ch < d" "d < sz ch" using z wf_num [OF fifo_okD(1) [OF assms]] by (auto simp: z_in_def d_def)
  then have "d mod sz ch = (if d < 0 then d + sz ch else d)"
    using mod_add_self2 [of d "sz ch"] by (auto simp del: mod_add_self2)
  then show ?thesis by (simp add: tx_used_def d_def [symmetric] Let_def) (simp add: d_def)
qed

text \<open>It is never less than the room there is.\<close>

lemma tx_free_ge: "fifo_ok ch m \<Longrightarrow> sz ch - tx_used ch m \<le> tx_free ch m"
  using tx_used_cases [of ch m] wf_sz(2) [of ch] fifo_okD(1) [of ch m] by (auto simp: tx_free_def Let_def)

lemma wp_used:
  assumes "fifo_ok ch m"
  shows "wp hfc_fifo_used_rx Q (ch, m) = Q (to_u16 (rx_used ch m)) (ch, m)"
    "wp hfc_fifo_used_tx Q (ch, m) = Q (to_u16 (tx_used ch m)) (ch, m)"
  using fifo_okD [OF assms]
  by (simp_all add: hfc_fifo_used_rx_def hfc_fifo_used_tx_def wp wp_cells [OF assms] c_rem_used rx_used_def tx_used_def)

lemma wp_free_tx:
  assumes "fifo_ok ch m"
  shows "wp hfc_fifo_free_tx Q (ch, m) = Q (to_u16 (tx_free ch m)) (ch, m)"
    "uint (to_u16 (tx_free ch m)) = tx_free ch m"
proof -
  let ?z1 = "uint (Z1 ch m (F1 ch m))" let ?z2 = "uint (Z2 ch m (F1 ch m))"
  have z: "z_in ch (Z1 ch m (F1 ch m))" "z_in ch (Z2 ch m (F1 ch m))" using fifo_okD [OF assms] by simp_all
  have r: "?z1 < 0x7FFF" "?z2 < 0x7FFF" using z wf_num [OF fifo_okD(1) [OF assms]] by (auto simp: z_in_def)
  have d: "uint (to_u16 (?z2 - ?z1)) = (if ?z1 \<le> ?z2 then ?z2 - ?z1 else 65536 - (?z1 - ?z2))"
  proof (cases "?z1 \<le> ?z2")
    case False
    then have "(?z2 - ?z1) mod 65536 = (?z2 - ?z1 + 65536) mod 65536" by simp
    also have "\<dots> = ?z2 - ?z1 + 65536" using False r uint_nonnegative [of "Z2 ch m (F1 ch m)"]
      by (intro mod_pos_pos_trivial) linarith+
    finally show ?thesis using False by (simp add: uint_to_u16_mod)
  next
    case True
    moreover have "?z2 - ?z1 < 65536" using r uint_nonnegative [of "Z1 ch m (F1 ch m)"] by linarith
    ultimately show ?thesis by (simp add: uint_to_u16)
  qed
  define fb where "fb = to_u16 (?z2 - ?z1)"
  have code: "wp hfc_fifo_free_tx Q (ch, m) = (if uint fb > 0 then Q fb (ch, m) else Q (to_u16 (uint fb + sz ch)) (ch, m))"
    by (simp add: hfc_fifo_free_tx_def wp wp_cells [OF assms] Let_def fb_def)
  have fb: "to_u16 (uint fb) = fb" "uint fb = (if ?z1 \<le> ?z2 then ?z2 - ?z1 else 65536 - (?z1 - ?z2))"
    using d by (simp_all add: to_u16_def fb_def)
  have pos: "0 < 65536 - (?z1 - ?z2)" using r uint_nonnegative [of "Z2 ch m (F1 ch m)"] by linarith
  have tf: "tx_free ch m = (if uint fb > 0 then uint fb else uint fb + sz ch)"
    using pos by (auto simp: tx_free_def Let_def fb(2))
  show "wp hfc_fifo_free_tx Q (ch, m) = Q (to_u16 (tx_free ch m)) (ch, m)"
    unfolding code tf using fb(1) by simp
  have "uint fb < 65536" "0 \<le> uint fb" using uint_lt2p [of fb] by simp_all
  then have "0 \<le> tx_free ch m \<and> tx_free ch m < 65536"
    using wf_sz [OF fifo_okD(1) [OF assms]] unfolding tf by (cases "uint fb > 0") auto
  then show "uint (to_u16 (tx_free ch m)) = tx_free ch m" by (simp add: uint_to_u16)
qed

lemma wp_frame_counts:
  assumes "fifo_ok ch m"
  shows "wp hfc_fifo_has_frames P (ch, m) = P (F1 ch m \<noteq> F2 ch m) (ch, m)"
    "wp hfc_fifo_get_frame_size Q (ch, m) = Q (to_u16 (rx_used ch m + 1)) (ch, m)"
    "uint (to_u16 (rx_used ch m + 1)) = rx_used ch m + 1"
  using fifo_okD(1) [OF assms] used_range [of ch m] wf_sz(2) [of ch]
  by (auto simp: hfc_fifo_has_frames_def hfc_fifo_get_frame_size_def wp wp_cells [OF assms] wp_used [OF assms]
      intro!: uint_to_u16)


section \<open>The operations\<close>

definition got :: "int \<Rightarrow> hfc_chan_simplex \<Rightarrow> fmem \<Rightarrow> hfc_chan_simplex" where
  "got n ch m = (if rx_used ch m < n then ch\<lparr>bytes := bytes ch + to_u64 n, fifo_underrun := fifo_underrun ch + 1\<rparr>
     else ch\<lparr>bytes := bytes ch + to_u64 n\<rparr>)"

lemma wp_hfc_fifo_get:
  assumes "fifo_ok ch m" "0 \<le> n" "n \<le> sz ch"
  shows "wp (hfc_fifo_get n) Q (ch, m) =
    (if rx_used ch m < n \<and> fifo_underrun ch = 0 then Q (- 1, None) (got n ch m, m)
     else Q (rx_used ch m - n, Some (ring_bytes ch m (uint (Z2 ch m (F2 ch m))) n))
       (got n ch m, set_z2 ch (F2 ch m) (Z_inc ch (Z2 ch m (F2 ch m)) (to_u16 n)) m))"
  using assms fifo_okD [OF assms(1)]
  by (simp add: hfc_fifo_get_def wp wp_used wp_cells wp_mem_read got_def)

lemma wp_hfc_clear_fifo_rx:
  assumes "fifo_ok ch m"
  shows "wp hfc_clear_fifo_rx Q (ch, m) =
    Q () (ch, set_z2 ch (F1 ch m) (Z1 ch m (F1 ch m)) (m(f2_ptr ch := F1 ch m)))"
  using assms fifo_okD [OF assms] fifo_ok_updates [OF assms]
  by (simp add: hfc_clear_fifo_rx_def wp wp_cells)

definition put_counts :: "int \<Rightarrow> hfc_chan_simplex \<Rightarrow> fmem \<Rightarrow> hfc_chan_simplex" where
  "put_counts n ch m = (if tx_used ch m = 0
     then ch\<lparr>fifo_underrun := fifo_underrun ch + 1, bytes := bytes ch + to_u64 n\<rparr>
     else ch\<lparr>bytes := bytes ch + to_u64 n\<rparr>)"

definition put_mem :: "u8 list \<Rightarrow> hfc_chan_simplex \<Rightarrow> fmem \<Rightarrow> fmem" where
  "put_mem xs ch m = (let z1 = Z1 ch m (F1 ch m) in
     set_z1 ch (F1 ch m) (Z_inc ch z1 (to_u16 (int (length xs)))) (ring_put ch (uint z1) xs m))"

lemma wp_put_fits:
  assumes "fifo_ok ch m" "0 \<le> n" "n \<le> sz ch" "n \<le> tx_free ch m" "n \<le> int (length data)"
  shows "wp (hfc_fifo_put (Suc d) cs status data n) Q (ch, m) =
    Q () (put_counts n ch m, put_mem (take (nat n) data) ch m)"
  using assms fifo_okD [OF assms(1)] fifo_ok_ring_put [OF assms(1)]
  by (simp add: wp wp_used wp_free_tx wp_cells wp_mem_write put_counts_def put_mem_def min_absorb2 Let_def)

lemma wp_clear_tx:
  assumes "fifo_ok ch m"
  shows "wp (hfc_clear_fifo_tx d cs status) Q (ch, m) =
    (let m' = set_z1 ch (F2 ch m) (Z2 ch m (F2 ch m)) (m(f1_ptr ch := F2 ch m));
         len = 2 * cs + 6 in
     if status = open_voice then wp (hfc_fifo_put d cs status (replicate len 0x7f) (int len)) Q (ch, m') else Q () (ch, m'))"
  using assms fifo_okD [OF assms] fifo_ok_updates [OF assms]
  by (simp add: wp wp_cells hfc_TX_FIFO_PRELOAD_def hfc_RX_FIFO_PRELOAD_def Let_def mult_2 algebra_simps)

text \<open>Moving on to the next received frame.\<close>

definition next_frame_mem :: "hfc_chan_simplex \<Rightarrow> fmem \<Rightarrow> fmem" where
  "next_frame_mem ch m = (let f = F_inc ch (F2 ch m) 1 in
     set_z2 ch f (Z_inc ch (Z2 ch m (F2 ch m)) (to_u16 (rx_used ch m + 1))) (m(f2_ptr ch := f)))"

lemma wp_drop_frame:
  assumes "fifo_ok ch m"
  shows "wp hfc_fifo_drop_frame Q (ch, m) =
    (if F1 ch m = F2 ch m then Q () (ch, m) else Q () (ch, next_frame_mem ch m))"
  using assms fifo_okD [OF assms] fifo_ok_updates(4) [OF assms] F_inc_in [OF fifo_okD(1) [OF assms] fifo_okD(3) [OF assms]]
  by (simp add: hfc_fifo_drop_frame_def wp wp_frame_counts wp_used wp_cells next_frame_mem_def Let_def)

definition frame_stat :: "hfc_chan_simplex \<Rightarrow> fmem \<Rightarrow> u8" where
  "frame_stat ch m = m (z_base ch + ring_pos ch (uint (Z2 ch m (F2 ch m))) (rx_used ch m))"

lemma wp_get_frame:
  assumes "fifo_ok ch m" "0 \<le> max_size"
  shows "wp (hfc_fifo_get_frame max_size) Q (ch, m) =
    (if F1 ch m = F2 ch m then Q (- 1, None) (ch, m)
     else let data = ring_bytes ch m (uint (Z2 ch m (F2 ch m))) (min (rx_used ch m + 1) max_size);
              ch' = ch\<lparr>bytes := bytes ch + to_u64 (rx_used ch m)\<rparr> in
       if frame_stat ch m \<noteq> 0 then Q (- 1, Some data) (ch'\<lparr>crc := crc ch + 1\<rparr>, next_frame_mem ch m)
       else Q (rx_used ch m + 1, Some data) (ch'\<lparr>frames := frames ch + 1\<rparr>, next_frame_mem ch m))"
proof -
  note ok = fifo_okD [OF assms(1)]
  have used: "0 \<le> rx_used ch m" "rx_used ch m + 1 \<le> sz ch" using used_range(1) [OF ok(1), of m] by auto
  have z2: "z_in ch (Z2 ch m (F2 ch m))" using ok by simp
  have stat: "wp (hfc_fifo_u8 (Z_inc ch (Z2 ch m (F2 ch m)) (to_u16 (rx_used ch m)))) R (c, m) =
      R (frame_stat ch m) (c, m)" if "z_base c = z_base ch" for R c
    using in_fifos_piece [OF ok(1) Z_inc_in [OF ok(1) z2 used(1)], of 1] used that ring_pos_range [OF ok(1)]
      Z_inc_ring [OF ok(1) z2 used(1)]
    by (simp add: hfc_fifo_u8_def wp peek8_def frame_stat_def)
  have read: "wp (hfc_fifo_mem_read (uint (Z2 ch m (F2 ch m))) (min (rx_used ch m + 1) max_size)) R (c, m) =
      R (ring_bytes ch m (uint (Z2 ch m (F2 ch m))) (min (rx_used ch m + 1) max_size)) (c, m)" if "statics c = statics ch" for R c
    using that used assms(2) ok(1) z2 statics_cong [OF that] by (subst wp_mem_read) (auto simp: min_def)
  have if_min: "(if a < b then a else b) = min a b" for a b :: int by (simp add: min_def)
  have drop: "wp hfc_fifo_drop_frame R (c, m) = R () (c, next_frame_mem ch m)" if "statics c = statics ch" "F1 ch m \<noteq> F2 ch m" for R c
    using that assms(1) statics_cong [OF that(1)] used_cong [OF that(1)] 
    by (subst wp_drop_frame) (simp_all add: next_frame_mem_def)
  have F: "fifo_ok ch (m(f2_ptr ch := F_inc ch (F2 ch m) 1))"
    using fifo_ok_updates(4) [OF assms(1)] F_inc_in [OF ok(1) ok(3)] by simp
  show ?thesis
    using used assms(1)
    by (simp only: hfc_fifo_get_frame_def wp wp_frame_counts [OF assms(1)] Let_def if_min wp_cells statics_upd
        counter_updates read add_diff_cancel_right' not_not)
       (simp add: stat drop wp wp_cells F next_frame_mem_def Let_def)
qed


section \<open>Safety\<close>

lemma fifo_step_cell:
  assumes "fifo_step s (ch, m)"
  shows "statics ch' = statics ch \<Longrightarrow> fifo_step s (ch', m)"
    "f_in ch f \<Longrightarrow> z_in ch v \<Longrightarrow> fifo_step s (ch, set_z1 ch f v m)"
    "f_in ch f \<Longrightarrow> z_in ch v \<Longrightarrow> fifo_step s (ch, set_z2 ch f v m)"
    "f_in ch f \<Longrightarrow> fifo_step s (ch, m(f1_ptr ch := f))" "f_in ch f \<Longrightarrow> fifo_step s (ch, m(f2_ptr ch := f))"
    "fifo_step s (ch, ring_put ch z xs m)"
  using assms fifo_stepI [of ch m ch'] fifo_stepI [of ch m ch]
  by (auto simp: fifo_step_def [of s "(ch, m)"] intro: fifo_step_trans [OF assms])

lemma fifo_step_refl: "fifo_ok ch m \<Longrightarrow> statics ch' = statics ch \<Longrightarrow> fifo_step (ch, m) (ch', m)"
  by (rule fifo_stepI)

lemma fifo_step_next_frame:
  assumes "fifo_step s (ch, m)"
  shows "fifo_step s (ch, next_frame_mem ch m)"
proof -
  have ok: "fifo_ok ch m" using assms by (simp add: fifo_step_def)
  note wf = fifo_okD [OF ok]
  have "z_in ch (Z_inc ch (Z2 ch m (F2 ch m)) (to_u16 (rx_used ch m + 1)))"
    using used_range(1) [OF wf(1), of m] wf by (intro Z_inc_in) auto
  then show ?thesis
    using fifo_step_cell(5) [OF assms] F_inc_in(2) [OF wf(1) wf(3)]
    by (auto simp: next_frame_mem_def Let_def intro!: fifo_step_cell(3))
qed

lemma fifo_step_put:
  assumes "fifo_step s (ch, m)" "int (length xs) \<le> sz ch"
  shows "fifo_step s (ch, put_mem xs ch m)"
proof -
  have ok: "fifo_ok ch m" using assms by (simp add: fifo_step_def)
  note wf = fifo_okD [OF ok]
  have "z_in ch (Z_inc ch (Z1 ch m (F1 ch m)) (to_u16 (int (length xs))))"
    using assms(2) wf by (intro Z_inc_in) auto
  then show ?thesis
    using fifo_step_cell(6) [OF assms(1)] wf by (auto simp: put_mem_def Let_def intro!: fifo_step_cell(2))
qed

lemma statics_counts [simp]: "statics (put_counts n ch m) = statics ch" "statics (got n ch m) = statics ch"
  by (simp_all add: put_counts_def got_def statics_def)

lemma wp_put_fits_step:
  assumes "fifo_step s (ch, m)" "0 \<le> n" "n \<le> sz ch" "n \<le> tx_free ch m" "n \<le> int (length data)"
  shows "wp (hfc_fifo_put (Suc d) cs status data n) (\<lambda>_. fifo_step s) (ch, m)"
proof -
  have ok: "fifo_ok ch m" using assms by (simp add: fifo_step_def)
  have "fifo_step s (ch, put_mem (take (nat n) data) ch m)"
    using assms by (intro fifo_step_put) auto
  then show ?thesis using fifo_step_cell(1) by (subst wp_put_fits [OF ok assms(2-5)]) (auto simp: statics_counts)
qed

lemma wp_clear_tx_step:
  assumes "fifo_step s (ch, m)" "int (2 * cs + 6) \<le> sz ch"
  shows "wp (hfc_clear_fifo_tx (Suc d) cs status) (\<lambda>_. fifo_step s) (ch, m)"
proof -
  have ok: "fifo_ok ch m" using assms by (simp add: fifo_step_def)
  note wf = fifo_okD [OF ok]
  let ?m = "set_z1 ch (F2 ch m) (Z2 ch m (F2 ch m)) (m(f1_ptr ch := F2 ch m))"
  have step: "fifo_step s (ch, ?m)" using wf fifo_step_cell(4) [OF assms(1)] by (intro fifo_step_cell(2)) auto
  have "tx_free ch ?m = sz ch" using wf by (simp add: tx_free_def Let_def)
  with wp_put_fits_step [OF step, of "int (2 * cs + 6)" "replicate (2 * cs + 6) 0x7f"] assms(2) step
  show ?thesis by (subst wp_clear_tx [OF ok]) (simp add: Let_def)
qed

text \<open>
  \<open>hfc_fifo_put\<close> and \<open>hfc_clear_fifo_tx\<close> call each other at most once: after the FIFO was
  cleared there is room for the preload.
\<close>

lemma wp_put_step:
  assumes "fifo_step s (ch, m)" "0 \<le> n" "n \<le> sz ch" "n \<le> int (length data)" "int (2 * cs + 6) \<le> sz ch"
  shows "wp (hfc_fifo_put (Suc (Suc d)) cs status data n) (\<lambda>_. fifo_step s) (ch, m)"
proof (cases "n \<le> tx_free ch m")
  case True
  with assms show ?thesis by (intro wp_put_fits_step)
next
  case False
  have ok: "fifo_ok ch m" using assms by (simp add: fifo_step_def)
  define rest where "rest = gthen (hfc_fifo_mem_write data n)
     (gthen (chan_upd (\<lambda>ch. ch\<lparr>bytes := bytes ch + to_u64 n\<rparr>))
     (gbind (deref16 Z1_F1) (\<lambda>z1. gbind (chan (\<lambda>ch. Z_inc ch z1 (to_u16 n))) (assign16 Z1_F1))))"
  have put: "hfc_fifo_put (Suc (Suc d)) cs status data n =
     gbind hfc_fifo_used_tx (\<lambda>used_bytes. gbind hfc_fifo_free_tx (\<lambda>free_bytes.
     gthen (if uint used_bytes = 0 then chan_upd (\<lambda>ch. ch\<lparr>fifo_underrun := fifo_underrun ch + 1\<rparr>) else ret ())
     (gthen (if uint free_bytes < n
             then gthen (chan_upd (\<lambda>ch. ch\<lparr>fifo_full := fifo_full ch + 1\<rparr>)) (hfc_clear_fifo_tx (Suc d) cs status)
             else ret ()) rest)))"
    by (simp add: rest_def)
  have store: "wp rest (\<lambda>_. fifo_step s) (c, m')"
    if "fifo_step s (c, m')" "statics c = statics ch" for c m'
  proof -
    have okc: "fifo_ok c m'" and szc: "sz c = sz ch" using that statics_cong(18) [OF that(2)] by (auto simp: fifo_step_def)
    note wf = fifo_okD [OF okc]
    have "fifo_step s (c, put_mem (take (nat n) data) c m')" using that assms szc by (intro fifo_step_put) auto
    then have "fifo_step s (c\<lparr>bytes := bytes c + to_u64 n\<rparr>, put_mem (take (nat n) data) c m')"
      by (rule fifo_step_cell(1)) simp
    with okc szc assms wf fifo_ok_ring_put [OF okc] show ?thesis
      by (simp add: rest_def wp wp_cells wp_mem_write put_mem_def min_absorb2 Let_def)
  qed
  have rest: "wp rest (\<lambda>_. fifo_step s) t" if "fifo_step s t" for t
    using that assms(1) store [of "fst t" "snd t"] by (simp add: fifo_step_def)
  have "wp (hfc_clear_fifo_tx (Suc d) cs status) (\<lambda>_. wp rest (\<lambda>_. fifo_step s)) (c, m)" if "statics c = statics ch" for c
  proof (rule wp_mono)
    show "wp (hfc_clear_fifo_tx (Suc d) cs status) (\<lambda>_. fifo_step s) (c, m)"
      using that assms(5) fifo_step_cell(1) [OF assms(1) that] statics_cong(18) [OF that] by (intro wp_clear_tx_step) auto
  qed (rule rest)
  with False ok show ?thesis
    unfolding put by (simp add: wp wp_used wp_free_tx fifo_okD del: hfc_clear_fifo_tx.simps)
qed


section \<open>Queues of bytes\<close>

definition rx_content :: "hfc_chan_simplex \<Rightarrow> fmem \<Rightarrow> u8 list" where
  "rx_content ch m = ring_bytes ch m (uint (Z2 ch m (F2 ch m))) (rx_used ch m)"

definition tx_content :: "hfc_chan_simplex \<Rightarrow> fmem \<Rightarrow> u8 list" where
  "tx_content ch m = ring_bytes ch m (uint (Z2 ch m (F1 ch m))) (tx_used ch m)"

lemma content_cong:
  "statics ch' = statics ch \<Longrightarrow> rx_content ch' = rx_content ch" "statics ch' = statics ch \<Longrightarrow> tx_content ch' = tx_content ch"
  using statics_cong [of ch' ch] used_cong [of ch' ch] by (simp_all add: rx_content_def tx_content_def fun_eq_iff)

lemma ring_pos_used:
  assumes "fifo_wf ch" "z_in ch a" "z_in ch b"
  shows "ring_pos ch (uint b) ((uint a - uint b) mod sz ch) = uint a"
proof -
  have "ring_pos ch (uint b) ((uint a - uint b) mod sz ch) = ring_pos ch (uint b) (uint a - uint b)"
    by (simp add: ring_pos_def mod_add_right_eq)
  also have "\<dots> = ring_pos ch (uint a) 0" by (simp add: ring_pos_def)
  finally show ?thesis using ring_pos_0 [OF assms(1,2)] by simp
qed

lemma used_ring_pos:
  assumes "fifo_wf ch" "z_in ch b" "0 \<le> k" "k < sz ch"
  shows "(ring_pos ch (uint b) k - uint b) mod sz ch = k"
  using ring_pos_diff [of ch "uint b" k 0] ring_pos_0 [OF assms(1,2)] assms(3,4) by simp

lemma tx_content_put:
  assumes "fifo_ok ch m" "tx_used ch m + int (length xs) < sz ch"
  shows "tx_content ch (put_mem xs ch m) = tx_content ch m @ xs"
    "tx_used ch (put_mem xs ch m) = tx_used ch m + int (length xs)"
proof -
  note ok = fifo_okD [OF assms(1)]
  let ?z1 = "Z1 ch m (F1 ch m)" let ?z2 = "Z2 ch m (F1 ch m)" let ?n = "int (length xs)"
  have z: "z_in ch ?z1" "z_in ch ?z2" using ok by simp_all
  have n: "0 \<le> tx_used ch m" "?n \<le> sz ch" using used_range(2) [OF ok(1), of m] assms(2) by auto
  have z1: "uint ?z1 = ring_pos ch (uint ?z2) (tx_used ch m)"
    using ring_pos_used [OF ok(1) z] by (simp add: tx_used_def)
  have inc: "uint (Z_inc ch ?z1 (to_u16 ?n)) = ring_pos ch (uint ?z2) (tx_used ch m + ?n)"
    using Z_inc_ring [OF ok(1) z(1) _ n(2)] by (simp add: z1 ring_pos_add)
  have new: "F1 ch (put_mem xs ch m) = F1 ch m" "Z2 ch (put_mem xs ch m) (F1 ch m) = ?z2"
    "Z1 ch (put_mem xs ch m) (F1 ch m) = Z_inc ch ?z1 (to_u16 ?n)"
    using ok by (simp_all add: put_mem_def Let_def)
  show used: "tx_used ch (put_mem xs ch m) = tx_used ch m + ?n"
    using used_ring_pos [OF ok(1) z(2), of "tx_used ch m + ?n"] n(1) assms(2)
    by (simp add: tx_used_def [of ch "put_mem xs ch m"] new inc)
  show "tx_content ch (put_mem xs ch m) = tx_content ch m @ xs"
    using ring_bytes_put [OF ok(1) n(1), of xs "uint ?z2" m] assms(2) ok
    by (simp add: tx_content_def used new) (simp add: put_mem_def Let_def z1)
qed

lemma rx_content_get:
  assumes "fifo_ok ch m" "0 \<le> n" "n \<le> rx_used ch m"
    and "m' = set_z2 ch (F2 ch m) (Z_inc ch (Z2 ch m (F2 ch m)) (to_u16 n)) m"
  shows "ring_bytes ch m (uint (Z2 ch m (F2 ch m))) n = take (nat n) (rx_content ch m)"
    "rx_content ch m' = drop (nat n) (rx_content ch m)" "rx_used ch m' = rx_used ch m - n"
proof -
  note ok = fifo_okD [OF assms(1)]
  let ?z1 = "Z1 ch m (F2 ch m)" let ?z2 = "Z2 ch m (F2 ch m)"
  have z: "z_in ch ?z1" "z_in ch ?z2" using ok by simp_all
  have n: "n \<le> sz ch" using used_range(1) [OF ok(1), of m] assms(3) by auto
  have inc: "uint (Z_inc ch ?z2 (to_u16 n)) = ring_pos ch (uint ?z2) n" using Z_inc_ring [OF ok(1) z(2) assms(2) n] .
  have z1: "uint ?z1 = ring_pos ch (uint ?z2) (rx_used ch m)"
    using ring_pos_used [OF ok(1) z] by (simp add: rx_used_def)
  have "(ring_pos ch (uint ?z2) (rx_used ch m) - ring_pos ch (uint ?z2) n) mod sz ch = rx_used ch m - n"
    using ring_pos_diff [of ch "uint ?z2" "rx_used ch m" n] used_range(1) [OF ok(1), of m] assms(2,3) by simp
  moreover have new: "F2 ch m' = F2 ch m" "Z1 ch m' (F2 ch m) = ?z1" "Z2 ch m' (F2 ch m) = Z_inc ch ?z2 (to_u16 n)"
    using ok by (simp_all add: assms(4))
  ultimately show used: "rx_used ch m' = rx_used ch m - n"
    by (simp add: rx_used_def [of ch m'] inc z1 [symmetric])
  have split: "rx_content ch m = ring_bytes ch m (uint ?z2) n @ ring_bytes ch m (ring_pos ch (uint ?z2) n) (rx_used ch m - n)"
    using ring_bytes_split [of n "rx_used ch m - n" ch m "uint ?z2"] assms(2,3) by (simp add: rx_content_def)
  then show "ring_bytes ch m (uint ?z2) n = take (nat n) (rx_content ch m)" by simp
  show "rx_content ch m' = drop (nat n) (rx_content ch m)"
    using ok by (simp add: rx_content_def [of ch m'] used new inc split) (simp add: assms(4))
qed

text \<open>
  The contract of a queue of bytes, and what follows for every sequence of operations. The
  specification \<open>queue_run\<close> works on the list of the bytes in the queue and is undefined when a put would
  fill it or a get would ask for more than there is.
\<close>

datatype fifo_op = Put "u8 list" | Get nat

primrec queue_run :: "nat \<Rightarrow> fifo_op list \<Rightarrow> u8 list \<Rightarrow> (u8 list list \<times> u8 list) option" where
  "queue_run cap [] q = Some ([], q)"
| "queue_run cap (p # ps) q = (case p of
     Put xs \<Rightarrow> if length q + length xs < cap then queue_run cap ps (q @ xs) else None
   | Get n \<Rightarrow> if n \<le> length q
       then map_option (\<lambda>(out, q'). (take n q # out, q')) (queue_run cap ps (drop n q)) else None)"

primrec run_fifo :: "(u8 list \<Rightarrow> ('s, unit) st) \<Rightarrow> (nat \<Rightarrow> ('s, u8 list) st) \<Rightarrow> fifo_op list \<Rightarrow> ('s, u8 list list) st" where
  "run_fifo put get [] = ret []"
| "run_fifo put get (p # ps) = (case p of
     Put xs \<Rightarrow> gthen (put xs) (run_fifo put get ps)
   | Get n \<Rightarrow> gbind (get n) (\<lambda>xs. gbind (run_fifo put get ps) (\<lambda>out. ret (xs # out))))"

locale byte_queue =
  fixes inv :: "'s \<Rightarrow> bool" and content :: "'s \<Rightarrow> u8 list" and cap :: "'s \<Rightarrow> nat"
    and put :: "u8 list \<Rightarrow> ('s, unit) st" and get :: "nat \<Rightarrow> ('s, u8 list) st"
  assumes put_law: "inv s \<Longrightarrow> length (content s) + length xs < cap s \<Longrightarrow>
      wp (put xs) (\<lambda>_ s'. inv s' \<and> cap s' = cap s \<and> content s' = content s @ xs) s"
    and get_law: "inv s \<Longrightarrow> n \<le> length (content s) \<Longrightarrow>
      wp (get n) (\<lambda>xs s'. inv s' \<and> cap s' = cap s \<and> xs = take n (content s) \<and> content s' = drop n (content s)) s"
begin

lemma refines_queue:
  assumes "inv s" "queue_run (cap s) ps (content s) = Some (out, q)"
  shows "wp (run_fifo put get ps) (\<lambda>r s'. r = out \<and> inv s' \<and> cap s' = cap s \<and> content s' = q) s"
  using assms
proof (induction ps arbitrary: s out)
  case Nil
  then show ?case by (simp add: wp)
next
  case (Cons p ps)
  show ?case
  proof (cases p)
    case (Put xs)
    then have fits: "length (content s) + length xs < cap s"
      and run: "queue_run (cap s) ps (content s @ xs) = Some (out, q)" using Cons.prems by (auto split: if_splits)
    have "wp (put xs) (\<lambda>_. wp (run_fifo put get ps) (\<lambda>r s'. r = out \<and> inv s' \<and> cap s' = cap s \<and> content s' = q)) s"
    proof (rule wp_mono [OF put_law [OF Cons.prems(1) fits]])
      fix s' assume "inv s' \<and> cap s' = cap s \<and> content s' = content s @ xs"
      then show "wp (run_fifo put get ps) (\<lambda>r s'. r = out \<and> inv s' \<and> cap s' = cap s \<and> content s' = q) s'"
        using Cons.IH [of s' out] run by auto
    qed
    then show ?thesis by (simp add: Put wp)
  next
    case (Get n)
    then obtain out' where n: "n \<le> length (content s)" and out: "out = take n (content s) # out'"
      and run: "queue_run (cap s) ps (drop n (content s)) = Some (out', q)"
      using Cons.prems by (auto split: if_splits)
    have "wp (get n) (\<lambda>xs. wp (run_fifo put get ps) (\<lambda>r s'. xs # r = out \<and> inv s' \<and> cap s' = cap s \<and> content s' = q)) s"
    proof (rule wp_mono [OF get_law [OF Cons.prems(1) n]])
      fix xs s' assume "inv s' \<and> cap s' = cap s \<and> xs = take n (content s) \<and> content s' = drop n (content s)"
      then show "wp (run_fifo put get ps) (\<lambda>r s'. xs # r = out \<and> inv s' \<and> cap s' = cap s \<and> content s' = q) s'"
        using Cons.IH [of s' out'] run out by auto
    qed
    then show ?thesis by (simp add: Get wp_fun)
  qed
qed

end

text \<open>
  A FIFO in transparent mode: the frame counters are equal and stay so, what one side puts the
  other gets.
\<close>

definition transparent :: "hfc_chan_simplex \<times> fmem \<Rightarrow> bool" where
  "transparent = (\<lambda>(ch, m). fifo_ok ch m \<and> F1 ch m = F2 ch m)"

definition fifo_content :: "hfc_chan_simplex \<times> fmem \<Rightarrow> u8 list" where
  "fifo_content = (\<lambda>(ch, m). rx_content ch m)"

definition fifo_cap :: "hfc_chan_simplex \<times> fmem \<Rightarrow> nat" where
  "fifo_cap = (\<lambda>(ch, m). nat (sz ch))"

definition fifo_put_all :: "nat \<Rightarrow> hfc_chan_status \<Rightarrow> u8 list \<Rightarrow> unit fm" where
  "fifo_put_all cs status xs = hfc_fifo_put 2 cs status xs (int (length xs))"

definition fifo_get_data :: "nat \<Rightarrow> u8 list fm" where
  "fifo_get_data n = gbind (hfc_fifo_get (int n)) (\<lambda>(r, data). ret (case data of Some xs \<Rightarrow> xs | None \<Rightarrow> []))"

lemma content_same: "F1 ch m = F2 ch m \<Longrightarrow> tx_content ch m = rx_content ch m" "F1 ch m = F2 ch m \<Longrightarrow> tx_used ch m = rx_used ch m"
  by (simp_all add: tx_content_def rx_content_def rx_used_def tx_used_def)

lemma length_rx_content: "fifo_ok ch m \<Longrightarrow> int (length (rx_content ch m)) = rx_used ch m"
  using used_range(1) [of ch m] by (simp add: rx_content_def fifo_okD(1))

interpretation hfcq: byte_queue transparent fifo_content fifo_cap "fifo_put_all cs status" fifo_get_data
proof
  fix s :: "hfc_chan_simplex \<times> fmem" and xs :: "u8 list"
  assume inv: "transparent s" and fits: "length (fifo_content s) + length xs < fifo_cap s"
  obtain ch m where s: "s = (ch, m)" by (rule prod.exhaust)
  have ok: "fifo_ok ch m" "F1 ch m = F2 ch m" using inv by (simp_all add: s transparent_def)
  note len = length_rx_content [OF ok(1)]
  have room: "tx_used ch m + int (length xs) < sz ch"
  proof -
    have "int (fifo_cap s) = sz ch" by (simp add: s fifo_cap_def)
    with fits have "int (length (fifo_content s)) + int (length xs) < sz ch" by linarith
    then show ?thesis using len content_same(2) [OF ok(2)] by (simp add: s fifo_content_def)
  qed
  have free: "int (length xs) \<le> tx_free ch m" "int (length xs) \<le> sz ch"
    using room tx_free_ge [OF ok(1)] used_range(2) [OF fifo_okD(1) [OF ok(1)], of m] by auto
  have "fifo_ok ch (put_mem xs ch m)"
    using fifo_step_put [OF fifo_step_refl [OF ok(1) refl] free(2)] by (simp add: fifo_step_def)
  moreover have "F1 ch (put_mem xs ch m) = F2 ch (put_mem xs ch m)"
    using ok fifo_okD [OF ok(1)] by (simp add: put_mem_def Let_def)
  moreover have "rx_content ch (put_mem xs ch m) = rx_content ch m @ xs"
    using tx_content_put(1) [OF ok(1) room] content_same(1) [OF ok(2)] content_same(1) [OF calculation(2)] by simp
  ultimately show "wp (fifo_put_all cs status xs) (\<lambda>_ s'. transparent s' \<and> fifo_cap s' = fifo_cap s \<and>
      fifo_content s' = fifo_content s @ xs) s"
    using wp_put_fits [OF ok(1) _ free(2,1), of xs 1 cs status]
      statics_cong [OF statics_counts(1), of "int (length xs)" ch m] content_cong [OF statics_counts(1), of "int (length xs)" ch m]
    by (simp add: s fifo_put_all_def numeral_2_eq_2 transparent_def fifo_cap_def fifo_content_def)
next
  fix s :: "hfc_chan_simplex \<times> fmem" and n :: nat
  assume inv: "transparent s" and n: "n \<le> length (fifo_content s)"
  obtain ch m where s: "s = (ch, m)" by (rule prod.exhaust)
  have ok: "fifo_ok ch m" "F1 ch m = F2 ch m" using inv by (simp_all add: s transparent_def)
  note wf = fifo_okD [OF ok(1)]
  let ?m = "set_z2 ch (F2 ch m) (Z_inc ch (Z2 ch m (F2 ch m)) (to_u16 (int n))) m"
  have used: "int n \<le> rx_used ch m" using n length_rx_content [OF ok(1)] by (simp add: s fifo_content_def)
  then have le: "int n \<le> sz ch" using used_range(1) [OF wf(1), of m] by simp
  have "fifo_ok ch ?m" using wf le by (intro fifo_ok_updates(2) [OF ok(1)] Z_inc_in) auto
  moreover have "F1 ch ?m = F2 ch ?m" using ok(2) wf by simp
  ultimately show "wp (fifo_get_data n) (\<lambda>xs s'. transparent s' \<and> fifo_cap s' = fifo_cap s \<and>
      xs = take n (fifo_content s) \<and> fifo_content s' = drop n (fifo_content s)) s"
    using rx_content_get [OF ok(1) _ used refl] wp_hfc_fifo_get [OF ok(1) _ le] used
      statics_cong [OF statics_counts(2), of "int n" ch m] content_cong [OF statics_counts(2), of "int n" ch m]
    by (simp add: s fifo_get_data_def wp transparent_def fifo_cap_def fifo_content_def)
qed


section \<open>Queues of frames\<close>

text \<open>
  The frames between the counters \<open>F2\<close> and \<open>F1\<close>. Frame \<open>f\<close> ends at \<open>Z1\<close> of \<open>f\<close>; the first starts at
  \<open>Z2\<close> of \<open>F2\<close>, each other one behind its predecessor. Its last byte is the status
  the card writes: zero where the checksum was right.
\<close>

fun frame_list :: "nat \<Rightarrow> hfc_chan_simplex \<Rightarrow> fmem \<Rightarrow> u8 \<Rightarrow> int \<Rightarrow> u8 list list" where
  "frame_list 0 ch m f z = []"
| "frame_list (Suc k) ch m f z = (let n = (uint (Z1 ch m f) - z) mod sz ch + 1 in
     ring_bytes ch m z n # frame_list k ch m (F_inc ch f 1) (ring_pos ch z n))"

definition frame_count :: "hfc_chan_simplex \<Rightarrow> fmem \<Rightarrow> nat" where
  "frame_count ch m = nat ((uint (F1 ch m) - uint (F2 ch m)) mod uint (f_num ch))"

definition rx_frames :: "hfc_chan_simplex \<Rightarrow> fmem \<Rightarrow> u8 list list" where
  "rx_frames ch m = frame_list (frame_count ch m) ch m (F2 ch m) (uint (Z2 ch m (F2 ch m)))"

lemma frame_list_cong:
  assumes "fifo_wf ch" "f_in ch f" "statics ch' = statics ch"
    and "\<And>f. f_in ch f \<Longrightarrow> Z1 ch m' f = Z1 ch m f" "\<And>z n. ring_bytes ch m' z n = ring_bytes ch m z n"
  shows "frame_list k ch' m' f z = frame_list k ch m f z"
  using assms(2)
proof (induction k arbitrary: f z)
  case (Suc k)
  with assms(4,5) F_inc_in(2) [OF assms(1) Suc.prems] statics_cong [OF assms(3)] show ?case by (simp add: Let_def)
qed simp

lemma frame_diff:
  assumes "fifo_wf ch" "f_in ch a" "f_in ch b"
  shows "(uint a - uint b) mod uint (f_num ch) = (if uint a < uint b then uint a - uint b + uint (f_num ch) else uint a - uint b)"
proof -
  have d: "- uint (f_num ch) < uint a - uint b" "uint a - uint b < uint (f_num ch)"
    using assms by (auto simp: f_in_def fifo_wf_def)
  show ?thesis
  proof (cases "uint a < uint b")
    case True
    then have "(uint a - uint b + uint (f_num ch)) mod uint (f_num ch) = uint a - uint b + uint (f_num ch)"
      using d by (intro mod_pos_pos_trivial) auto
    with True show ?thesis by simp
  qed (use d in simp)
qed

lemma frame_count_0: "fifo_ok ch m \<Longrightarrow> frame_count ch m = 0 \<longleftrightarrow> F1 ch m = F2 ch m"
  using frame_diff [of ch "F1 ch m" "F2 ch m"] fifo_okD(1-3) [of ch m]
  by (auto simp: frame_count_def word_uint_eq_iff f_in_def fifo_wf_def split: if_splits)

lemma frame_count_Suc:
  assumes "fifo_ok ch m" "F1 ch m \<noteq> F2 ch m" "F1 ch m' = F1 ch m" "F2 ch m' = F_inc ch (F2 ch m) 1"
  shows "frame_count ch m = Suc (frame_count ch m')"
proof -
  note ok = fifo_okD [OF assms(1)]
  note inc = F_inc_in [OF ok(1) ok(3)]
  have ne: "uint (F1 ch m) \<noteq> uint (F2 ch m)" using assms(2) by (simp add: word_uint_eq_iff)
  have num: "uint (f_num ch) = uint (f_max ch) - uint (f_min ch) + 1" using ok(1) by (simp add: fifo_wf_def)
  have rng: "uint (f_min ch) \<le> uint (F1 ch m)" "uint (F1 ch m) \<le> uint (f_max ch)"
    "uint (f_min ch) \<le> uint (F2 ch m)" "uint (F2 ch m) \<le> uint (f_max ch)" using ok(2,3) by (auto simp: f_in_def)
  have "(uint (F1 ch m) - uint (F2 ch m)) mod uint (f_num ch) = (uint (F1 ch m') - uint (F2 ch m')) mod uint (f_num ch) + 1"
    using frame_diff [OF ok(1) ok(2) ok(3)] frame_diff [OF ok(1) ok(2) inc(2)] ne num rng
    by (auto simp: assms(3,4) inc(1) split: if_splits)
  moreover have "0 \<le> (uint (F1 ch m') - uint (F2 ch m')) mod uint (f_num ch)"
    using num rng by (intro pos_mod_sign) auto
  ultimately show ?thesis by (simp add: frame_count_def)
qed

lemma rx_frames_next:
  assumes "fifo_ok ch m" "F1 ch m \<noteq> F2 ch m"
  shows "rx_frames ch m = ring_bytes ch m (uint (Z2 ch m (F2 ch m))) (rx_used ch m + 1) # rx_frames ch (next_frame_mem ch m)"
proof -
  note ok = fifo_okD [OF assms(1)]
  let ?f = "F_inc ch (F2 ch m) 1" and ?z2 = "Z2 ch m (F2 ch m)" and ?m = "next_frame_mem ch m"
  have f: "f_in ch ?f" using F_inc_in(2) [OF ok(1) ok(3)] .
  have z2: "z_in ch ?z2" using ok by simp
  have used: "0 \<le> rx_used ch m" "rx_used ch m + 1 \<le> sz ch" using used_range(1) [OF ok(1), of m] by auto
  have z: "uint (Z_inc ch ?z2 (to_u16 (rx_used ch m + 1))) = ring_pos ch (uint ?z2) (rx_used ch m + 1)"
    using Z_inc_ring [OF ok(1) z2 _ used(2)] used(1) by simp
  have new: "F1 ch ?m = F1 ch m" "F2 ch ?m = ?f" "Z2 ch ?m ?f = Z_inc ch ?z2 (to_u16 (rx_used ch m + 1))"
    "\<And>g. f_in ch g \<Longrightarrow> Z1 ch ?m g = Z1 ch m g" "\<And>z n. ring_bytes ch ?m z n = ring_bytes ch m z n"
    using ok(1) f by (simp_all add: next_frame_mem_def Let_def)
  have count: "frame_count ch m = Suc (frame_count ch ?m)" using frame_count_Suc [OF assms] new by simp
  have "rx_frames ch ?m = frame_list (frame_count ch ?m) ch m ?f (ring_pos ch (uint ?z2) (rx_used ch m + 1))"
    using frame_list_cong [OF ok(1) f refl new(4,5)] by (simp add: rx_frames_def new(2,3) z)
  then show ?thesis by (simp add: rx_frames_def [of ch m] count rx_used_def [symmetric] Let_def)
qed

lemma rx_frames_Nil: "fifo_ok ch m \<Longrightarrow> F1 ch m = F2 ch m \<Longrightarrow> rx_frames ch m = []"
  by (simp add: rx_frames_def frame_count_0 [THEN iffD2])

lemma rx_frames_cong:
  assumes "statics ch' = statics ch" "fifo_ok ch m"
  shows "rx_frames ch' m = rx_frames ch m"
  using statics_cong [OF assms(1)] frame_list_cong [OF fifo_okD(1) [OF assms(2)] fifo_okD(3) [OF assms(2)] assms(1)]
  by (simp add: rx_frames_def frame_count_def)

lemma last_frame_byte:
  assumes "fifo_wf ch"
  shows "last (ring_bytes ch m (uint (Z2 ch m (F2 ch m))) (rx_used ch m + 1)) = frame_stat ch m"
    "ring_bytes ch m (uint (Z2 ch m (F2 ch m))) (rx_used ch m + 1) \<noteq> []"
    "ring_bytes ch m z (min (rx_used ch m + 1) n) = take (nat n) (ring_bytes ch m z (rx_used ch m + 1))"
proof -
  have used: "0 \<le> rx_used ch m" using used_range(1) [OF assms, of m] by simp
  have upt: "[0..<nat (rx_used ch m + 1)] = [0..<nat (rx_used ch m)] @ [nat (rx_used ch m)]"
    using used by (simp add: nat_add_distrib)
  show "last (ring_bytes ch m (uint (Z2 ch m (F2 ch m))) (rx_used ch m + 1)) = frame_stat ch m"
    "ring_bytes ch m (uint (Z2 ch m (F2 ch m))) (rx_used ch m + 1) \<noteq> []"
    using used by (simp_all add: ring_bytes_def upt frame_stat_def)
  show "ring_bytes ch m z (min (rx_used ch m + 1) n) = take (nat n) (ring_bytes ch m z (rx_used ch m + 1))"
    by (auto simp: ring_bytes_def take_map min_def)
qed


section \<open>Sequences of calls\<close>

lemma wp_free_frames:
  assumes "fifo_ok ch m"
  shows "wp hfc_fifo_free_frames Q (ch, m) = Q (to_u8 ((uint (F2 ch m) - uint (F1 ch m)) mod uint (f_num ch))) (ch, m)"
    "uint (to_u8 ((uint (F2 ch m) - uint (F1 ch m)) mod uint (f_num ch))) < uint (f_num ch)"
proof -
  note ok = fifo_okD [OF assms]
  have num: "uint (f_num ch) = uint (f_max ch) - uint (f_min ch) + 1" "uint (f_max ch) < 255"
    "uint (f_min ch) \<le> uint (f_max ch)" using ok(1) by (simp_all add: fifo_wf_def)
  have "0 < uint (F2 ch m) - uint (F1 ch m) + uint (f_num ch)" using ok(2,3) num by (auto simp: f_in_def)
  then have "wp (c_rem (uint (F2 ch m) - uint (F1 ch m) + uint (f_num ch)) (uint (f_num ch))) R (ch, m) =
      R ((uint (F2 ch m) - uint (F1 ch m)) mod uint (f_num ch)) (ch, m)" for R using num by (simp add: c_rem_def wp)
  then show "wp hfc_fifo_free_frames Q (ch, m) = Q (to_u8 ((uint (F2 ch m) - uint (F1 ch m)) mod uint (f_num ch))) (ch, m)"
    by (simp add: hfc_fifo_free_frames_def wp wp_cells [OF assms])
  have r: "0 \<le> (uint (F2 ch m) - uint (F1 ch m)) mod uint (f_num ch)"
    "(uint (F2 ch m) - uint (F1 ch m)) mod uint (f_num ch) < uint (f_num ch)" "uint (f_num ch) < 256"
    using num pos_mod_bound [of "uint (f_num ch)"] pos_mod_sign [of "uint (f_num ch)"] uint_lt2p [of "f_num ch"] by simp_all
  then show "uint (to_u8 ((uint (F2 ch m) - uint (F1 ch m)) mod uint (f_num ch))) < uint (f_num ch)"
    by (simp add: uint_to_u8)
qed

text \<open>The frame counter of the sending side moves on.\<close>

definition sent_frame_mem :: "hfc_chan_simplex \<Rightarrow> fmem \<Rightarrow> fmem" where
  "sent_frame_mem ch m = (let f = F_inc ch (F1 ch m) 1 in set_z1 ch f (Z1 ch m (F1 ch m)) (m(f1_ptr ch := f)))"

lemma wp_put_frame:
  assumes "fifo_ok ch m" "wp (hfc_fifo_put d cs status data n) (\<lambda>_ (ch', m'). fifo_ok ch' m' \<and>
      Q () (ch'\<lparr>frames := frames ch' + 1\<rparr>, sent_frame_mem ch' m')) (ch, m)"
  shows "wp (hfc_fifo_put_frame d cs status data n) Q (ch, m)"
proof -
  have rest: "wp (gbind (deref16 Z1_F1) (\<lambda>newz1. gbind f1 (\<lambda>f. gbind (chan (\<lambda>ch. F_inc ch f 1)) (\<lambda>f'.
        gthen (set_f1 f') (gthen (assign16 Z1_F1 newz1) (chan_upd (\<lambda>ch. ch\<lparr>frames := frames ch + 1\<rparr>))))))) Q (ch', m')"
    if "fifo_ok ch' m' \<and> Q () (ch'\<lparr>frames := frames ch' + 1\<rparr>, sent_frame_mem ch' m')" for ch' m'
  proof -
    have ok: "fifo_ok ch' m'" using that by simp
    then have "fifo_ok ch' (m'(f1_ptr ch' := F_inc ch' (F1 ch' m') 1))"
      using F_inc_in(2) fifo_okD [OF ok] by (intro fifo_ok_updates(3)) auto
    with ok that show ?thesis by (simp add: wp wp_cells sent_frame_mem_def Let_def)
  qed
  show ?thesis
    using wp_mono [OF assms(2)] wp_free_frames [OF assms(1)] rest
    by (fastforce simp: hfc_fifo_put_frame_def wp)
qed

lemma fifo_step_sent_frame:
  assumes "fifo_step s (ch, m)"
  shows "fifo_step s (ch, sent_frame_mem ch m)"
proof -
  have ok: "fifo_ok ch m" using assms by (simp add: fifo_step_def)
  note wf = fifo_okD [OF ok]
  show ?thesis
    using fifo_step_cell(4) [OF assms] F_inc_in(2) [OF wf(1) wf(2)] wf
    by (auto simp: sent_frame_mem_def Let_def intro!: fifo_step_cell(2))
qed

datatype fifo_call = C_put "u8 list" int | C_get int | C_put_frame "u8 list" int | C_get_frame int
  | C_drop_frame | C_clear_rx | C_clear_tx

primrec do_call :: "nat \<Rightarrow> hfc_chan_status \<Rightarrow> fifo_call \<Rightarrow> unit fm" where
  "do_call cs status (C_put data n) = hfc_fifo_put 2 cs status data n"
| "do_call cs status (C_get n) = gthen (hfc_fifo_get n) (ret ())"
| "do_call cs status (C_put_frame data n) = hfc_fifo_put_frame 2 cs status data n"
| "do_call cs status (C_get_frame n) = gthen (hfc_fifo_get_frame n) (ret ())"
| "do_call cs status C_drop_frame = hfc_fifo_drop_frame"
| "do_call cs status C_clear_rx = hfc_clear_fifo_rx"
| "do_call cs status C_clear_tx = hfc_clear_fifo_tx 2 cs status"

primrec fifo_calls :: "nat \<Rightarrow> hfc_chan_status \<Rightarrow> fifo_call list \<Rightarrow> unit fm" where
  "fifo_calls cs status [] = ret ()"
| "fifo_calls cs status (c # rest) = gthen (do_call cs status c) (fifo_calls cs status rest)"

primrec call_ok :: "int \<Rightarrow> fifo_call \<Rightarrow> bool" where
  "call_ok cap (C_put data n) \<longleftrightarrow> 0 \<le> n \<and> n \<le> cap \<and> n \<le> int (length data)"
| "call_ok cap (C_get n) \<longleftrightarrow> 0 \<le> n \<and> n \<le> cap"
| "call_ok cap (C_put_frame data n) \<longleftrightarrow> 0 \<le> n \<and> n \<le> cap \<and> n \<le> int (length data)"
| "call_ok cap (C_get_frame n) \<longleftrightarrow> 0 \<le> n"
| "call_ok cap C_drop_frame \<longleftrightarrow> True"
| "call_ok cap C_clear_rx \<longleftrightarrow> True"
| "call_ok cap C_clear_tx \<longleftrightarrow> True"

lemma wp_fifo_get_step:
  assumes "fifo_step s (ch, m)" "0 \<le> n" "n \<le> sz ch"
  shows "wp (hfc_fifo_get n) (\<lambda>_. fifo_step s) (ch, m)"
proof -
  have ok: "fifo_ok ch m" using assms by (simp add: fifo_step_def)
  note wf = fifo_okD [OF ok]
  have g: "fifo_step s (got n ch m, m')" if "fifo_step s (ch, m')" for m'
    using fifo_step_cell(1) [OF that] by simp
  have "fifo_step s (ch, set_z2 ch (F2 ch m) (Z_inc ch (Z2 ch m (F2 ch m)) (to_u16 n)) m)"
    using assms wf by (intro fifo_step_cell(3) Z_inc_in) auto
  with g assms(1) show ?thesis by (subst wp_hfc_fifo_get [OF ok assms(2,3)]) auto
qed

lemma wp_get_frame_step:
  assumes "fifo_step s (ch, m)" "0 \<le> n"
  shows "wp (hfc_fifo_get_frame n) (\<lambda>_. fifo_step s) (ch, m)"
proof -
  have ok: "fifo_ok ch m" using assms by (simp add: fifo_step_def)
  have "fifo_step s (ch', next_frame_mem ch m)" if "statics ch' = statics ch" for ch'
    using fifo_step_cell(1) [OF fifo_step_next_frame [OF assms(1)] that] .
  with assms(1) show ?thesis by (subst wp_get_frame [OF ok assms(2)]) (auto simp: Let_def)
qed

lemma wp_clear_rx_step:
  assumes "fifo_step s (ch, m)"
  shows "wp hfc_clear_fifo_rx (\<lambda>_. fifo_step s) (ch, m)"
proof -
  have ok: "fifo_ok ch m" using assms by (simp add: fifo_step_def)
  note wf = fifo_okD [OF ok]
  show ?thesis
    using wf fifo_step_cell(5) [OF assms]
    by (subst wp_hfc_clear_fifo_rx [OF ok]) (auto intro!: fifo_step_cell(3))
qed

lemma wp_fifo_call:
  assumes "fifo_step s (ch, m)" "call_ok (sz ch) c" "int (2 * cs + 6) \<le> sz ch"
  shows "wp (do_call cs status c) (\<lambda>_. fifo_step s) (ch, m)"
proof -
  have ok: "fifo_ok ch m" using assms by (simp add: fifo_step_def)
  have put: "wp (hfc_fifo_put 2 cs status data n) (\<lambda>_. fifo_step s) (ch, m)"
    if "0 \<le> n" "n \<le> sz ch" "n \<le> int (length data)" for data n
    using wp_put_step [OF assms(1) that assms(3), of 0] by (simp add: numeral_2_eq_2)
  have sent: "fifo_step s t \<Longrightarrow> case t of (ch', m') \<Rightarrow> fifo_ok ch' m' \<and>
      fifo_step s (ch'\<lparr>frames := frames ch' + 1\<rparr>, sent_frame_mem ch' m')" for t
    using fifo_step_cell(1) [OF fifo_step_sent_frame [of s "fst t" "snd t"]] by (auto simp: fifo_step_def)
  have put_frame: "wp (hfc_fifo_put_frame 2 cs status data n) (\<lambda>_. fifo_step s) (ch, m)"
    if "0 \<le> n" "n \<le> sz ch" "n \<le> int (length data)" for data n
    by (rule wp_put_frame [OF ok], rule wp_mono [OF put [OF that]]) (rule sent)
  have clear: "wp (hfc_clear_fifo_tx 2 cs status) (\<lambda>_. fifo_step s) (ch, m)"
    using wp_clear_tx_step [OF assms(1,3), of 1 status] by (simp only: numeral_2_eq_2 One_nat_def)
  have drop: "wp hfc_fifo_drop_frame (\<lambda>_. fifo_step s) (ch, m)"
    using assms(1) fifo_step_next_frame [OF assms(1)] by (simp add: wp_drop_frame [OF ok])
  show ?thesis
    using assms(2) put put_frame clear drop wp_fifo_get_step [OF assms(1)] wp_get_frame_step [OF assms(1)]
      wp_clear_rx_step [OF assms(1)]
    by (cases c) (simp_all add: wp_fun del: hfc_fifo_put.simps hfc_clear_fifo_tx.simps)
qed

lemma wp_fifo_calls:
  assumes "fifo_step s t" "\<forall>c \<in> set cl. call_ok (sz (fst t)) c" "int (2 * cs + 6) \<le> sz (fst t)"
  shows "wp (fifo_calls cs status cl) (\<lambda>_. fifo_step s) t"
  using assms
proof (induction cl arbitrary: t)
  case (Cons c cl)
  have sz: "sz (fst u) = sz (fst t)" if "fifo_step s u" for u
  proof -
    have "statics (fst u) = statics (fst t)" using that Cons.prems(1) by (simp add: fifo_step_def)
    then show ?thesis by (rule arg_cong [OF statics_cong(18)])
  qed
  have "wp (do_call cs status c) (\<lambda>_. fifo_step s) t"
    using Cons.prems wp_fifo_call [of s "fst t" "snd t"] by simp
  then have "wp (do_call cs status c) (\<lambda>_. wp (fifo_calls cs status cl) (\<lambda>_. fifo_step s)) t"
  proof (rule wp_mono)
    fix u assume "fifo_step s u"
    with Cons.IH [of u] Cons.prems(2,3) sz show "wp (fifo_calls cs status cl) (\<lambda>_. fifo_step s) u" by simp
  qed
  then show ?case by (simp add: wp)
qed (simp add: wp)

end
