(* ===== verification/Hfc_Card.thy ===== *)
theory Hfc_Card
  imports Hfc_Fifo
begin

unbundle bit_operations_syntax

text \<open>
  The HFC-S PCI driver (\<open>zaphfc/base.c\<close>, \<open>zaphfc/zaphfc.h\<close>): a card with its three channels, the
  operations DAHDI calls on it, and the interrupt handler.

  \<open>'d hfc_card\<close> holds \<open>struct hfc_card\<close> with the memory the FIFOs lie in, the registers of the
  card (the bytes written to them in order; the value each read gives is decided by the card, hence
  an arbitrary function of the register and the number of the read), the counts of module references
  and of socket buffers not yet freed, and the state \<open>'d\<close> of DAHDI. DAHDI itself is the argument
  \<open>dh\<close>, a record of the functions the driver calls, and \<open>cs\<close> its \<open>DAHDI_CHUNKSIZE\<close>. Messages, delays and
  the entries in \<open>/proc\<close> are left out. A spin lock that is held makes its next user spin for ever.
\<close>


section \<open>Registers\<close>

definition hfc_CIRM :: int where "hfc_CIRM = 0x60"
definition hfc_CTMT :: int where "hfc_CTMT = 0x64"
definition hfc_INT_M1 :: int where "hfc_INT_M1 = 0x68"
definition hfc_INT_M2 :: int where "hfc_INT_M2 = 0x6C"
definition hfc_INT_S1 :: int where "hfc_INT_S1 = 0x78"
definition hfc_INT_S2 :: int where "hfc_INT_S2 = 0x7C"
definition hfc_STATUS :: int where "hfc_STATUS = 0x70"
definition hfc_FIFO_EN :: int where "hfc_FIFO_EN = 0x44"
definition hfc_TRM :: int where "hfc_TRM = 0x48"
definition hfc_MST_MODE :: int where "hfc_MST_MODE = 0xB8"
definition hfc_CONNECT :: int where "hfc_CONNECT = 0xBC"
definition hfc_STATES :: int where "hfc_STATES = 0xC0"
definition hfc_SCTRL :: int where "hfc_SCTRL = 0xC4"
definition hfc_SCTRL_E :: int where "hfc_SCTRL_E = 0xC8"
definition hfc_SCTRL_R :: int where "hfc_SCTRL_R = 0xCC"
definition hfc_CLKDEL :: int where "hfc_CLKDEL = 0xDC"

definition hfc_STATUS_ANYINT :: u8 where "hfc_STATUS_ANYINT = 0x80"
definition hfc_CTMT_TRANSB1 :: u8 where "hfc_CTMT_TRANSB1 = 0x01"
definition hfc_CTMT_TRANSB2 :: u8 where "hfc_CTMT_TRANSB2 = 0x02"
definition hfc_CTMT_TIMER_CLEAR :: u8 where "hfc_CTMT_TIMER_CLEAR = 0x80"
definition hfc_CTMT_TIMER_MASK :: u8 where "hfc_CTMT_TIMER_MASK = 0x1C"
definition hfc_CTMT_TIMER_50 :: u8 where "hfc_CTMT_TIMER_50 = 0x14"
definition hfc_CIRM_RESET :: u8 where "hfc_CIRM_RESET = 0x08"
definition hfc_CIRM_B1_REV :: u8 where "hfc_CIRM_B1_REV = 0x40"
definition hfc_CIRM_B2_REV :: u8 where "hfc_CIRM_B2_REV = 0x80"
definition hfc_INTS_B1REC :: u8 where "hfc_INTS_B1REC = 0x08"
definition hfc_INTS_B2REC :: u8 where "hfc_INTS_B2REC = 0x10"
definition hfc_INTS_DREC :: u8 where "hfc_INTS_DREC = 0x20"
definition hfc_INTS_L1STATE :: u8 where "hfc_INTS_L1STATE = 0x40"
definition hfc_INTS_TIMER :: u8 where "hfc_INTS_TIMER = 0x80"
definition hfc_M2_PROC_TRANS :: u8 where "hfc_M2_PROC_TRANS = 0x01"
definition hfc_M2_IRQ_ENABLE :: u8 where "hfc_M2_IRQ_ENABLE = 0x08"
definition hfc_M2_PMESEL :: u8 where "hfc_M2_PMESEL = 0x80"
definition hfc_STATES_STATE_MASK :: u8 where "hfc_STATES_STATE_MASK = 0x0F"
definition hfc_STATES_LOAD_STATE :: u8 where "hfc_STATES_LOAD_STATE = 0x10"
definition hfc_STATES_ACTIVATE :: u8 where "hfc_STATES_ACTIVATE = 0x20"
definition hfc_STATES_DO_ACTION :: u8 where "hfc_STATES_DO_ACTION = 0x40"
definition hfc_STATES_NT_G2_G3 :: u8 where "hfc_STATES_NT_G2_G3 = 0x80"
definition hfc_MST_MODE_MASTER :: u8 where "hfc_MST_MODE_MASTER = 0x01"
definition hfc_SCTRL_B1_ENA :: u8 where "hfc_SCTRL_B1_ENA = 0x01"
definition hfc_SCTRL_B2_ENA :: u8 where "hfc_SCTRL_B2_ENA = 0x02"
definition hfc_SCTRL_MODE_TE :: u8 where "hfc_SCTRL_MODE_TE = 0x00"
definition hfc_SCTRL_MODE_NT :: u8 where "hfc_SCTRL_MODE_NT = 0x04"
definition hfc_SCTRL_NONE_CAP :: u8 where "hfc_SCTRL_NONE_CAP = 0x40"
definition hfc_SCTRL_E_AUTO_AWAKE :: u8 where "hfc_SCTRL_E_AUTO_AWAKE = 0x01"
definition hfc_SCTRL_R_B1_ENA :: u8 where "hfc_SCTRL_R_B1_ENA = 0x01"
definition hfc_SCTRL_R_B2_ENA :: u8 where "hfc_SCTRL_R_B2_ENA = 0x02"
definition hfc_FIFOEN_B1TX :: u8 where "hfc_FIFOEN_B1TX = 0x01"
definition hfc_FIFOEN_B1RX :: u8 where "hfc_FIFOEN_B1RX = 0x02"
definition hfc_FIFOEN_B2TX :: u8 where "hfc_FIFOEN_B2TX = 0x04"
definition hfc_FIFOEN_B2RX :: u8 where "hfc_FIFOEN_B2RX = 0x08"
definition hfc_FIFOEN_DTX :: u8 where "hfc_FIFOEN_DTX = 0x10"
definition hfc_FIFOEN_DRX :: u8 where "hfc_FIFOEN_DRX = 0x20"
definition hfc_CLKDEL_TE :: u8 where "hfc_CLKDEL_TE = 0x0f"
definition hfc_CLKDEL_NT :: u8 where "hfc_CLKDEL_NT = 0x6c"
definition hfc_HDLC_BUF_LEN :: nat where "hfc_HDLC_BUF_LEN = 32"

lemmas hfc_addresses = hfc_CIRM_def hfc_CTMT_def hfc_INT_M1_def hfc_INT_M2_def hfc_INT_S1_def hfc_INT_S2_def
  hfc_STATUS_def hfc_FIFO_EN_def hfc_TRM_def hfc_MST_MODE_def hfc_CONNECT_def hfc_STATES_def hfc_SCTRL_def
  hfc_SCTRL_E_def hfc_SCTRL_R_def hfc_CLKDEL_def

lemmas hfc_bits = hfc_STATUS_ANYINT_def hfc_CTMT_TRANSB1_def hfc_CTMT_TRANSB2_def hfc_CTMT_TIMER_CLEAR_def
  hfc_CTMT_TIMER_MASK_def hfc_CTMT_TIMER_50_def hfc_CIRM_RESET_def hfc_CIRM_B1_REV_def hfc_CIRM_B2_REV_def
  hfc_INTS_B1REC_def hfc_INTS_B2REC_def hfc_INTS_DREC_def hfc_INTS_L1STATE_def hfc_INTS_TIMER_def
  hfc_M2_PROC_TRANS_def hfc_M2_IRQ_ENABLE_def hfc_M2_PMESEL_def hfc_STATES_STATE_MASK_def hfc_STATES_LOAD_STATE_def
  hfc_STATES_ACTIVATE_def hfc_STATES_DO_ACTION_def hfc_STATES_NT_G2_G3_def hfc_MST_MODE_MASTER_def
  hfc_SCTRL_B1_ENA_def hfc_SCTRL_B2_ENA_def hfc_SCTRL_MODE_TE_def hfc_SCTRL_MODE_NT_def hfc_SCTRL_NONE_CAP_def
  hfc_SCTRL_E_AUTO_AWAKE_def hfc_SCTRL_R_B1_ENA_def hfc_SCTRL_R_B2_ENA_def hfc_FIFOEN_B1TX_def hfc_FIFOEN_B1RX_def
  hfc_FIFOEN_B2TX_def hfc_FIFOEN_B2RX_def hfc_FIFOEN_DTX_def hfc_FIFOEN_DRX_def hfc_CLKDEL_TE_def hfc_CLKDEL_NT_def


section \<open>Structures\<close>

record hfc_regs =
  m1 :: u8
  m2 :: u8
  fifo_en :: u8
  trm :: u8
  connect :: u8
  sctrl :: u8
  sctrl_r :: u8
  sctrl_e :: u8
  ctmt :: u8
  cirm :: u8

record hfc_chan_duplex =
  ch_name :: string
  number :: nat
  status :: hfc_chan_status
  open_by_netdev :: bool
  open_by_zaptel :: bool
  protocol :: nat
  ch_lock :: bool
  rx :: hfc_chan_simplex
  tx :: hfc_chan_simplex

text \<open>\<open>struct dahdi_hfc\<close>; \<open>sigchan\<close> is the index of the channel the pointer points to.\<close>

record dahdi_hfc =
  span_running :: bool
  lineconfig :: int
  sigchan :: "nat option"
  sigactive :: int
  hdlc_pending :: int
  frames_out :: int

record 'd hfc_card =
  cardnum :: int
  nt_mode :: bool
  sync_loss_reported :: bool
  late_irqs :: int
  l1_state :: u8
  fifo_suspended :: bool
  ignore_first_timer_interrupt :: bool
  regs :: hfc_regs
  chans :: "hfc_chan_duplex list"
  ticks :: int
  card_lock :: bool
  ztdev :: "dahdi_hfc option"
  fifos :: fmem
  reg_out :: "(int \<times> u8) list"
  reg_in :: "int \<Rightarrow> nat \<Rightarrow> u8"
  reads :: nat
  skb_ok :: "nat \<Rightarrow> bool"
  skb_calls :: nat
  skbs :: int
  mod_refs :: int
  dahdi :: 'd

text \<open>
  The functions of DAHDI the driver calls, on the state of DAHDI: the chunks \<open>dahdi_transmit\<close> stores for
  the D, B1 and B2 channel; the result and the bytes of \<open>dahdi_hdlc_getbuf\<close>; and the receiving chunk
  after the echo cancellation.
\<close>

record 'd dahdi_ops =
  dahdi_transmit :: "'d \<Rightarrow> (u8 list \<times> u8 list \<times> u8 list) \<times> 'd"
  dahdi_hdlc_getbuf :: "nat option \<Rightarrow> nat \<Rightarrow> 'd \<Rightarrow> int \<times> u8 list \<times> 'd"
  dahdi_hdlc_putbuf :: "nat option \<Rightarrow> u8 list \<Rightarrow> 'd \<Rightarrow> 'd"
  dahdi_hdlc_finish :: "nat option \<Rightarrow> 'd \<Rightarrow> 'd"
  dahdi_ec_chunk :: "nat \<Rightarrow> u8 list \<Rightarrow> u8 list \<Rightarrow> 'd \<Rightarrow> u8 list \<times> 'd"
  dahdi_receive :: "u8 list list \<Rightarrow> 'd \<Rightarrow> 'd"

type_synonym ('d, 'a) cm = "('d hfc_card, 'a) st"

definition D :: nat where "D = 0"
definition B1 :: nat where "B1 = 1"
definition B2 :: nat where "B2 = 2"

lemmas chan_numbers = D_def B1_def B2_def

definition hfc_outb :: "int \<Rightarrow> u8 \<Rightarrow> ('d, unit) cm" where
  "hfc_outb off v = modify (\<lambda>c. c\<lparr>reg_out := reg_out c @ [(off, v)]\<rparr>)"

definition hfc_inb :: "int \<Rightarrow> ('d, u8) cm" where
  "hfc_inb off = (\<lambda>c. Ret (reg_in c off (reads c), c\<lparr>reads := reads c + 1\<rparr>))"

definition reg :: "(hfc_regs \<Rightarrow> 'a) \<Rightarrow> ('d, 'a) cm" where
  "reg f = gets (\<lambda>c. f (regs c))"

definition reg_upd :: "(hfc_regs \<Rightarrow> hfc_regs) \<Rightarrow> ('d, unit) cm" where
  "reg_upd f = modify (\<lambda>c. c\<lparr>regs := f (regs c)\<rparr>)"

text \<open>\<open>hfc_outb (card, off, card->regs.r)\<close>\<close>

definition reg_write :: "int \<Rightarrow> (hfc_regs \<Rightarrow> u8) \<Rightarrow> ('d, unit) cm" where
  "reg_write off f = gbind (reg f) (hfc_outb off)"

definition chan_get :: "nat \<Rightarrow> ('d, hfc_chan_duplex) cm" where
  "chan_get i = (\<lambda>c. run_map (\<lambda>ch. (ch, c)) (arr_get (chans c) (int i)))"

definition chan_set :: "nat \<Rightarrow> (hfc_chan_duplex \<Rightarrow> hfc_chan_duplex) \<Rightarrow> ('d, unit) cm" where
  "chan_set i f = gbind (chan_get i) (\<lambda>ch.
     \<lambda>c. run_map (\<lambda>cs. ((), c\<lparr>chans := cs\<rparr>)) (arr_set (chans c) (int i) (f ch)))"

text \<open>A FIFO function called on \<open>&card->chans[i].rx\<close> or \<open>&card->chans[i].tx\<close>.\<close>

definition on_rx :: "nat \<Rightarrow> 'a fm \<Rightarrow> ('d, 'a) cm" where
  "on_rx i f = gbind (chan_get i) (\<lambda>ch. \<lambda>c. run_bind (f (rx ch, fifos c)) (\<lambda>(x, s, m).
     run_map (\<lambda>(u, c'). (x, c'\<lparr>fifos := m\<rparr>)) (chan_set i (\<lambda>ch. ch\<lparr>rx := s\<rparr>) c)))"

definition on_tx :: "nat \<Rightarrow> 'a fm \<Rightarrow> ('d, 'a) cm" where
  "on_tx i f = gbind (chan_get i) (\<lambda>ch. \<lambda>c. run_bind (f (tx ch, fifos c)) (\<lambda>(x, s, m).
     run_map (\<lambda>(u, c'). (x, c'\<lparr>fifos := m\<rparr>)) (chan_set i (\<lambda>ch. ch\<lparr>tx := s\<rparr>) c)))"

text \<open>The depth of calls the transmitting functions may reach, see \<open>Hfc_Fifo_Proofs\<close>.\<close>

definition put_depth :: nat where "put_depth = 2"

definition clear_tx :: "nat \<Rightarrow> nat \<Rightarrow> ('d, unit) cm" where
  "clear_tx cs i = gbind (chan_get i) (\<lambda>ch. on_tx i (hfc_clear_fifo_tx put_depth cs (status ch)))"

definition spin_lock :: "nat \<Rightarrow> ('d, unit) cm" where
  "spin_lock i = gbind (chan_get i) (\<lambda>ch. if ch_lock ch then hang else chan_set i (\<lambda>ch. ch\<lparr>ch_lock := True\<rparr>))"

definition spin_unlock :: "nat \<Rightarrow> ('d, unit) cm" where
  "spin_unlock i = chan_set i (\<lambda>ch. ch\<lparr>ch_lock := False\<rparr>)"

definition ztdev_get :: "('d, dahdi_hfc) cm" where
  "ztdev_get = gbind (gets ztdev) (\<lambda>z. case z of None \<Rightarrow> fault | Some h \<Rightarrow> ret h)"

definition ztdev_upd :: "(dahdi_hfc \<Rightarrow> dahdi_hfc) \<Rightarrow> ('d, unit) cm" where
  "ztdev_upd f = gbind ztdev_get (\<lambda>h. modify (\<lambda>c. c\<lparr>ztdev := Some (f h)\<rparr>))"


section \<open>Hardware\<close>

definition hfc_softreset :: "('d, unit) cm" where
  "hfc_softreset = gthen (hfc_outb hfc_CIRM hfc_CIRM_RESET) (hfc_outb hfc_CIRM 0)"

text \<open>The connections of the internal blocks are all 0.\<close>

definition hfc_resetCard :: "('d, unit) cm" where
  "hfc_resetCard =
     gthen (reg_upd (\<lambda>r. r\<lparr>m1 := 0\<rparr>)) (gthen (reg_write hfc_INT_M1 m1)
     (gthen (reg_upd (\<lambda>r. r\<lparr>m2 := 0\<rparr>)) (gthen (reg_write hfc_INT_M2 m2)
     (gthen hfc_softreset
     (gthen (reg_upd (\<lambda>r. r\<lparr>trm := 0\<rparr>)) (gthen (reg_write hfc_TRM trm)
     (gthen (reg_upd (\<lambda>r. r\<lparr>sctrl := hfc_SCTRL_NONE_CAP\<rparr>))
     (gthen (gbind (gets nt_mode) (\<lambda>nt. if nt
         then gthen (hfc_outb hfc_CLKDEL hfc_CLKDEL_NT) (reg_upd (\<lambda>r. r\<lparr>sctrl := sctrl r OR hfc_SCTRL_MODE_NT\<rparr>))
         else gthen (hfc_outb hfc_CLKDEL hfc_CLKDEL_TE) (reg_upd (\<lambda>r. r\<lparr>sctrl := sctrl r OR hfc_SCTRL_MODE_TE\<rparr>))))
     (gthen (reg_write hfc_SCTRL sctrl)
     (gthen (reg_upd (\<lambda>r. r\<lparr>sctrl_e := hfc_SCTRL_E_AUTO_AWAKE\<rparr>)) (gthen (reg_write hfc_SCTRL_E sctrl_e)
     (gthen (reg_upd (\<lambda>r. r\<lparr>sctrl_r := 0\<rparr>)) (gthen (reg_write hfc_SCTRL_R sctrl_r)
     (gthen (hfc_outb hfc_MST_MODE hfc_MST_MODE_MASTER)
     (gthen (reg_upd (\<lambda>r. r\<lparr>connect := 0\<rparr>)) (gthen (reg_write hfc_CONNECT connect)
     (gthen (hfc_outb hfc_CTMT 0)
     (gthen (hfc_outb hfc_CIRM 0)
     (gthen (reg_upd (\<lambda>r. r\<lparr>fifo_en := hfc_FIFOEN_DRX\<rparr>)) (gthen (reg_write hfc_FIFO_EN fifo_en)
     (gthen (modify (\<lambda>c. c\<lparr>late_irqs := 0\<rparr>))
     (gthen (hfc_inb hfc_INT_S1) (gthen (hfc_inb hfc_INT_S2)
     (gthen (reg_upd (\<lambda>r. r\<lparr>m1 := hfc_INTS_DREC OR hfc_INTS_L1STATE OR hfc_INTS_TIMER\<rparr>)) (gthen (reg_write hfc_INT_M1 m1)
     (gthen (reg_upd (\<lambda>r. r\<lparr>m2 := hfc_M2_IRQ_ENABLE\<rparr>)) (gthen (reg_write hfc_INT_M2 m2)
     (hfc_outb hfc_STATES 0))))))))))))))))))))))))))))"

text \<open>The two branches for a B channel: its FIFOs are switched on, and cleared then, or off.\<close>

definition update_b_fifos :: "nat \<Rightarrow> nat \<Rightarrow> u8 \<Rightarrow> u8 \<Rightarrow> bool \<Rightarrow> ('d, unit) cm" where
  "update_b_fifos cs i rxbit txbit on =
     (if on then
        gthen (gbind (reg fifo_en) (\<lambda>e. if e AND rxbit = 0
           then gthen (reg_upd (\<lambda>r. r\<lparr>fifo_en := e OR rxbit\<rparr>)) (on_rx i hfc_clear_fifo_rx) else ret ()))
        (gbind (reg fifo_en) (\<lambda>e. if e AND txbit = 0
           then gthen (reg_upd (\<lambda>r. r\<lparr>fifo_en := e OR txbit\<rparr>)) (clear_tx cs i) else ret ()))
      else
        gthen (gbind (reg fifo_en) (\<lambda>e. if e AND rxbit \<noteq> 0
           then reg_upd (\<lambda>r. r\<lparr>fifo_en := e AND NOT rxbit\<rparr>) else ret ()))
        (gbind (reg fifo_en) (\<lambda>e. if e AND txbit \<noteq> 0
           then reg_upd (\<lambda>r. r\<lparr>fifo_en := e AND NOT txbit\<rparr>) else ret ())))"

definition hfc_update_fifo_state :: "nat \<Rightarrow> ('d, unit) cm" where
  "hfc_update_fifo_state cs = gbind (gets fifo_suspended) (\<lambda>suspended.
     gthen (spin_lock B1)
     (gthen (gbind (chan_get B1) (\<lambda>ch. update_b_fifos cs B1 hfc_FIFOEN_B1RX hfc_FIFOEN_B1TX
        (\<not> suspended \<and> (status ch = open_framed \<or> status ch = open_voice))))
     (gthen (spin_unlock B1)
     (gthen (spin_lock B2)
     (gthen (gbind (chan_get B2) (\<lambda>ch. update_b_fifos cs B2 hfc_FIFOEN_B2RX hfc_FIFOEN_B2TX
        (\<not> suspended \<and> (status ch = open_framed \<or> status ch = open_voice \<or> status ch = sniff_aux))))
     (gthen (spin_unlock B2)
     (gthen (spin_lock D)
     (gthen (gbind (chan_get D) (\<lambda>ch. gbind (reg fifo_en) (\<lambda>e.
        if \<not> suspended \<and> status ch = open_framed then
          if e AND hfc_FIFOEN_DTX = 0
          then gthen (reg_upd (\<lambda>r. r\<lparr>fifo_en := e OR hfc_FIFOEN_DTX\<rparr>))
                 (chan_set D (\<lambda>ch. ch\<lparr>tx := (tx ch)\<lparr>ugly_framebuf_size := 0, ugly_framebuf_off := 0\<rparr>\<rparr>))
          else ret ()
        else if e AND hfc_FIFOEN_DTX \<noteq> 0
          then reg_upd (\<lambda>r. r\<lparr>fifo_en := e AND NOT hfc_FIFOEN_DTX\<rparr>) else ret ())))
     (gthen (spin_unlock D) (reg_write hfc_FIFO_EN fifo_en))))))))))"

definition hfc_suspend_fifo :: "nat \<Rightarrow> ('d, unit) cm" where
  "hfc_suspend_fifo cs = gthen (modify (\<lambda>c. c\<lparr>fifo_suspended := True\<rparr>))
     (gthen (hfc_update_fifo_state cs) (on_rx D hfc_clear_fifo_rx))"

definition hfc_resume_fifo :: "nat \<Rightarrow> ('d, unit) cm" where
  "hfc_resume_fifo cs = gthen (modify (\<lambda>c. c\<lparr>fifo_suspended := False\<rparr>)) (hfc_update_fifo_state cs)"

definition activate_l1 :: u8 where
  "activate_l1 = hfc_STATES_DO_ACTION OR hfc_STATES_ACTIVATE OR hfc_STATES_NT_G2_G3"

definition hfc_check_l1_up :: "('d, unit) cm" where
  "hfc_check_l1_up = gbind (gets nt_mode) (\<lambda>nt. gbind (gets l1_state) (\<lambda>l.
     if \<not> nt \<and> l \<noteq> 7 \<or> nt \<and> l \<noteq> 3 then hfc_outb hfc_STATES activate_l1 else ret ()))"


section \<open>The DAHDI interface\<close>

definition EBUSY :: int where "EBUSY = 16"
definition EINVAL :: int where "EINVAL = 22"
definition ENOTTY :: int where "ENOTTY = 25"

definition write_channel_regs :: "('d, unit) cm" where
  "write_channel_regs = gthen (reg_write hfc_INT_M2 m2) (gthen (reg_write hfc_CTMT ctmt)
     (gthen (reg_write hfc_CIRM cirm) (gthen (reg_write hfc_SCTRL sctrl) (reg_write hfc_SCTRL_R sctrl_r))))"

definition hfc_zap_open :: "nat \<Rightarrow> nat \<Rightarrow> ('d, int) cm" where
  "hfc_zap_open cs i = gthen (spin_lock i) (gbind (chan_get i) (\<lambda>ch.
     if number ch = D \<and> status ch \<noteq> free \<and> status ch \<noteq> open_framed \<or>
        (number ch = B1 \<or> number ch = B2) \<and> status ch \<noteq> free
     then gthen (spin_unlock i) (ret (- EBUSY))
     else
       gthen (if number ch = D then chan_set i (\<lambda>ch. ch\<lparr>status := open_framed\<rparr>)
              else if number ch = B1 \<or> number ch = B2 then chan_set i (\<lambda>ch. ch\<lparr>status := open_voice\<rparr>)
              else ret ())
       (gthen (chan_set i (\<lambda>ch. ch\<lparr>open_by_zaptel := True\<rparr>))
       (gthen (modify (\<lambda>c. c\<lparr>mod_refs := mod_refs c + 1\<rparr>))
       (gthen (spin_unlock i)
       (gthen (if number ch = B1 then reg_upd (\<lambda>r. r\<lparr>m2 := m2 r OR hfc_M2_PROC_TRANS,
                 ctmt := ctmt r OR hfc_CTMT_TRANSB1, cirm := cirm r OR hfc_CIRM_B1_REV,
                 sctrl := sctrl r OR hfc_SCTRL_B1_ENA, sctrl_r := sctrl_r r OR hfc_SCTRL_R_B1_ENA\<rparr>)
               else if number ch = B2 then reg_upd (\<lambda>r. r\<lparr>m2 := m2 r OR hfc_M2_PROC_TRANS,
                 ctmt := ctmt r OR hfc_CTMT_TRANSB2, cirm := cirm r OR hfc_CIRM_B2_REV,
                 sctrl := sctrl r OR hfc_SCTRL_B2_ENA, sctrl_r := sctrl_r r OR hfc_SCTRL_R_B2_ENA\<rparr>)
               else ret ())
       (gthen write_channel_regs
       (gthen (hfc_update_fifo_state cs) (ret 0)))))))))"

text \<open>\<open>chan->card\<close> is set where the channel is, so the test for NULL does not apply.\<close>

definition hfc_zap_close :: "nat \<Rightarrow> nat \<Rightarrow> ('d, int) cm" where
  "hfc_zap_close cs i = gthen (spin_lock i) (gbind (chan_get i) (\<lambda>ch.
     if status ch = free then gthen (spin_unlock i) (ret (- EINVAL))
     else
       gthen (chan_set i (\<lambda>ch. ch\<lparr>status := free, open_by_zaptel := False\<rparr>))
       (gthen (spin_unlock i)
       (gthen (if number ch = B1 then reg_upd (\<lambda>r. r\<lparr>ctmt := ctmt r AND NOT hfc_CTMT_TRANSB1,
                 cirm := cirm r AND NOT hfc_CIRM_B1_REV, sctrl := sctrl r AND NOT hfc_SCTRL_B1_ENA,
                 sctrl_r := sctrl_r r AND NOT hfc_SCTRL_R_B1_ENA\<rparr>)
               else if number ch = B2 then reg_upd (\<lambda>r. r\<lparr>ctmt := ctmt r AND NOT hfc_CTMT_TRANSB2,
                 cirm := cirm r AND NOT hfc_CIRM_B2_REV, sctrl := sctrl r AND NOT hfc_SCTRL_B2_ENA,
                 sctrl_r := sctrl_r r AND NOT hfc_SCTRL_R_B2_ENA\<rparr>)
               else ret ())
       (gthen (gbind (chan_get B1) (\<lambda>b1. gbind (chan_get B2) (\<lambda>b2.
                 if status b1 = free \<and> status b2 = free
                 then reg_upd (\<lambda>r. r\<lparr>m2 := m2 r AND NOT hfc_M2_PROC_TRANS\<rparr>) else ret ())))
       (gthen write_channel_regs
       (gthen (hfc_update_fifo_state cs)
       (gthen (modify (\<lambda>c. c\<lparr>mod_refs := mod_refs c - 1\<rparr>)) (ret 0)))))))))"

definition hfc_zap_rbsbits :: "int \<Rightarrow> ('d, int) cm" where
  "hfc_zap_rbsbits bits = ret 0"

definition hfc_zap_ioctl :: "int \<Rightarrow> int \<Rightarrow> ('d, int) cm" where
  "hfc_zap_ioctl cmd data = ret (- ENOTTY)"

definition hfc_hdlc_hard_xmit :: "('d, unit) cm" where
  "hfc_hdlc_hard_xmit = ztdev_upd (\<lambda>h. h\<lparr>hdlc_pending := hdlc_pending h + 1\<rparr>)"

definition hfc_zap_startup :: "('d, int) cm" where
  "hfc_zap_startup = gthen (ztdev_upd (\<lambda>h. if span_running h then h else h\<lparr>span_running := True\<rparr>)) (ret 0)"

definition hfc_zap_shutdown :: "('d, int) cm" where
  "hfc_zap_shutdown = ret 0"

definition hfc_zap_maint :: "int \<Rightarrow> ('d, int) cm" where
  "hfc_zap_maint cmd = ret 0"

text \<open>\<open>hardhdlc\<close>: \<open>sigtype\<close> is \<open>DAHDI_SIG_HARDHDLC\<close>; \<open>d_chan\<close> is the index of the channel.\<close>

definition hfc_zap_chanconfig :: "nat \<Rightarrow> bool \<Rightarrow> ('d, int) cm" where
  "hfc_zap_chanconfig d_chan hardhdlc = gbind ztdev_get (\<lambda>h.
     gthen (if hardhdlc \<and> sigchan h = Some d_chan
            then ztdev_upd (\<lambda>h. h\<lparr>sigactive := 0, hdlc_pending := 0\<rparr>) else ret ()) (ret 0))"

definition hfc_zap_spanconfig :: "int \<Rightarrow> ('d, int) cm" where
  "hfc_zap_spanconfig lc = gthen (ztdev_upd (\<lambda>h. h\<lparr>lineconfig := lc\<rparr>)) (ret 0)"

definition hfc_zap_transmit :: "nat \<Rightarrow> nat \<Rightarrow> ('d, unit) cm" where
  "hfc_zap_transmit cs i = gbind (chan_get i) (\<lambda>ch.
     on_tx i (hfc_fifo_put put_depth cs (status ch) (zaptel_buffer (tx ch)) (int cs)))"

text \<open>Bytes stored in a buffer of a structure, from an offset on; beyond its end is a fault.\<close>

definition buf_store :: "u8 list \<Rightarrow> int \<Rightarrow> u8 list \<Rightarrow> ('d, u8 list) cm" where
  "buf_store buf off xs =
     (if 0 \<le> off \<and> off + int (length xs) \<le> int (length buf)
      then ret (take (nat off) buf @ xs @ drop (nat off + length xs) buf) else fault)"

definition buf_read :: "u8 list \<Rightarrow> int \<Rightarrow> int \<Rightarrow> ('d, u8 list) cm" where
  "buf_read buf off n =
     (if 0 \<le> off \<and> 0 \<le> n \<and> off + n \<le> int (length buf) then ret (take (nat n) (drop (nat off) buf)) else fault)"

definition set_zaptel_rx :: "nat \<Rightarrow> u8 list \<Rightarrow> ('d, unit) cm" where
  "set_zaptel_rx i xs = chan_set i (\<lambda>ch. ch\<lparr>rx := (rx ch)\<lparr>zaptel_buffer := xs\<rparr>\<rparr>)"

definition hfc_zap_receive :: "nat \<Rightarrow> nat \<Rightarrow> ('d, unit) cm" where
  "hfc_zap_receive cs i = gbind (on_rx i (hfc_fifo_get (int cs))) (\<lambda>(r, data). case data of
       None \<Rightarrow> ret ()
     | Some xs \<Rightarrow> gbind (chan_get i) (\<lambda>ch. gbind (buf_store (zaptel_buffer (rx ch)) 0 xs) (set_zaptel_rx i)))"


section \<open>The interrupt handler\<close>

definition hfc_handle_timer_interrupt :: "nat \<Rightarrow> ('d, unit) cm" where
  "hfc_handle_timer_interrupt cs = gbind (gets ignore_first_timer_interrupt) (\<lambda>first.
     if first then modify (\<lambda>c. c\<lparr>ignore_first_timer_interrupt := False\<rparr>)
     else gbind (gets nt_mode) (\<lambda>nt. gbind (gets l1_state) (\<lambda>l.
       if nt \<and> l = 3 \<or> \<not> nt \<and> l = 7
       then gthen (reg_upd (\<lambda>r. r\<lparr>ctmt := ctmt r AND NOT hfc_CTMT_TIMER_MASK\<rparr>))
            (gthen (reg_write hfc_CTMT ctmt) (hfc_resume_fifo cs))
       else ret ())))"

text \<open>\<open>force_l1_up\<close> is a parameter of the module.\<close>

definition hfc_handle_state_interrupt :: "nat \<Rightarrow> bool \<Rightarrow> ('d, unit) cm" where
  "hfc_handle_state_interrupt cs force_l1_up = gbind (hfc_inb hfc_STATES) (\<lambda>v.
     let new_state = v AND hfc_STATES_STATE_MASK in
     gbind (gets nt_mode) (\<lambda>nt. gbind (gets l1_state) (\<lambda>l.
     gthen (if nt then
         gthen (if new_state = 3 then hfc_outb hfc_STATES (hfc_STATES_LOAD_STATE OR 3) else ret ())
         (gthen (if new_state = 3 \<and> l \<noteq> 3 then hfc_resume_fifo cs else ret ())
                (if new_state \<noteq> 3 \<and> l = 3 then hfc_suspend_fifo cs else ret ()))
       else
         gthen (if new_state = 3 \<and> force_l1_up then hfc_outb hfc_STATES activate_l1 else ret ())
         (gthen (if new_state = 7 \<and> l \<noteq> 7
            then gthen (reg_upd (\<lambda>r. r\<lparr>ctmt := ctmt r OR (hfc_CTMT_TIMER_50 OR hfc_CTMT_TIMER_CLEAR)\<rparr>))
                 (gthen (reg_write hfc_CTMT ctmt) (modify (\<lambda>c. c\<lparr>ignore_first_timer_interrupt := True\<rparr>)))
            else ret ())
           (if new_state \<noteq> 7 \<and> l = 7 then hfc_suspend_fifo cs else ret ())))
     (modify (\<lambda>c. c\<lparr>l1_state := new_state\<rparr>)))))"

definition alloc_skb :: "('d, bool) cm" where
  "alloc_skb = (\<lambda>c. let ok = skb_ok c (skb_calls c) in
     Ret (ok, c\<lparr>skb_calls := skb_calls c + 1, skbs := (if ok then skbs c + 1 else skbs c)\<rparr>))"

definition dev_kfree_skb :: "('d, unit) cm" where
  "dev_kfree_skb = modify (\<lambda>c. c\<lparr>skbs := skbs c - 1\<rparr>)"

definition set_ugly_rx :: "nat \<Rightarrow> (hfc_chan_simplex \<Rightarrow> hfc_chan_simplex) \<Rightarrow> ('d, unit) cm" where
  "set_ugly_rx i f = chan_set i (\<lambda>ch. ch\<lparr>rx := f (rx ch)\<rparr>)"

text \<open>The bytes \<open>hfc_fifo_get_frame\<close> stores in the buffer of the D channel, and the buffer then.\<close>

definition store_ugly :: "u8 list option \<Rightarrow> ('d, u8 list) cm" where
  "store_ugly data = gbind (chan_get D) (\<lambda>d. case data of
       None \<Rightarrow> ret (ugly_framebuf (rx d))
     | Some xs \<Rightarrow> gbind (buf_store (ugly_framebuf (rx d)) 0 xs) (\<lambda>buf.
         gthen (set_ugly_rx D (\<lambda>s. s\<lparr>ugly_framebuf := buf\<rparr>)) (ret buf)))"

text \<open>
  A frame of more than three bytes, taken for DAHDI; and any frame of more than three bytes: the
  result says whether the loop goes on, or leaves by \<open>break\<close>. What is copied to the socket buffer is not used afterwards.
\<close>

definition take_frame :: "int \<Rightarrow> ('d, unit) cm" where
  "take_frame frame_size =
     gthen (set_ugly_rx D (\<lambda>s. s\<lparr>ugly_framebuf_size := frame_size - 1\<rparr>))
     (gbind (on_rx D (hfc_fifo_get_frame (frame_size - 1))) (\<lambda>(r, data). gbind (store_ugly data) (\<lambda>buf.
      if r = - 1 then dev_kfree_skb else gbind (buf_read buf 0 (frame_size - 3)) (\<lambda>_. ret ()))))"

definition receive_frame :: "nat \<Rightarrow> int \<Rightarrow> ('d, bool) cm" where
  "receive_frame i frame_size = gbind (chan_get i) (\<lambda>ch. gbind (chan_get D) (\<lambda>d.
     if open_by_zaptel ch \<and> ugly_framebuf_size (rx d) \<noteq> 0 then ret False
     else gbind alloc_skb (\<lambda>ok.
       if \<not> ok then gthen (on_rx i hfc_fifo_drop_frame) (ret True)
       else if open_by_zaptel ch then gthen (take_frame frame_size) (ret True)
       else gbind (on_rx i (hfc_fifo_get_frame (frame_size - 3))) (\<lambda>(r, data).
         if r = - 1 then gthen dev_kfree_skb (ret True) else ret True))))"

text \<open>The loop, on the value of \<open>antiloop\<close>; the result is its value at the end.\<close>

fun frame_loop :: "nat \<Rightarrow> nat \<Rightarrow> ('d, nat) cm" where
  "frame_loop i antiloop = gbind (on_rx i hfc_fifo_has_frames) (\<lambda>has.
     if \<not> has \<or> antiloop = 0 then ret antiloop
     else if antiloop = 1 then ret 0
     else gbind (on_rx i hfc_fifo_get_frame_size) (\<lambda>sz. let frame_size = uint sz in
       if frame_size \<le> 3 then gthen (on_rx i hfc_fifo_drop_frame) (frame_loop i (antiloop - 1))
       else gbind (receive_frame i frame_size) (\<lambda>continue.
         if continue then frame_loop i (antiloop - 1) else ret (antiloop - 1))))"

declare frame_loop.simps [simp del]

definition hfc_frame_arrived :: "nat \<Rightarrow> ('d, unit) cm" where
  "hfc_frame_arrived i = gthen (frame_loop i 16) (ret ())"

definition call_dahdi :: "('d \<Rightarrow> 'a \<times> 'd) \<Rightarrow> ('d, 'a) cm" where
  "call_dahdi f = (\<lambda>c. let (x, d) = f (dahdi c) in Ret (x, c\<lparr>dahdi := d\<rparr>))"

definition set_zaptel_tx :: "nat \<Rightarrow> u8 list \<Rightarrow> ('d, unit) cm" where
  "set_zaptel_tx i xs = chan_set i (\<lambda>ch. ch\<lparr>tx := (tx ch)\<lparr>zaptel_buffer := xs\<rparr>\<rparr>)"

text \<open>The parts of \<open>hfc_handle_voice\<close>: voice to the card, a frame to the card (complete, and piece by piece), voice from it, a frame from it.\<close>

definition voice_transmit :: "nat \<Rightarrow> 'd dahdi_ops \<Rightarrow> ('d, unit) cm" where
  "voice_transmit cs dh =
     gbind (call_dahdi (dahdi_transmit dh)) (\<lambda>(d, b1, b2).
     gthen (set_zaptel_tx D d) (gthen (set_zaptel_tx B1 b1) (gthen (set_zaptel_tx B2 b2)
     (gbind (reg fifo_en) (\<lambda>e.
     gthen (if e AND hfc_FIFOEN_B1TX \<noteq> 0 then hfc_zap_transmit cs B1 else ret ())
           (if e AND hfc_FIFOEN_B2TX \<noteq> 0 then hfc_zap_transmit cs B2 else ret ()))))))"

definition send_d_frame :: "nat \<Rightarrow> ('d, unit) cm" where
  "send_d_frame cs = gbind (chan_get D) (\<lambda>d.
     gthen (on_tx D (hfc_fifo_put_frame put_depth cs (status d) (ugly_framebuf (tx d)) (ugly_framebuf_size (tx d))))
     (gthen (ztdev_upd (\<lambda>h. h\<lparr>frames_out := frames_out h + 1, sigactive := 0\<rparr>))
     (gthen (chan_set D (\<lambda>d. d\<lparr>tx := (tx d)\<lparr>ugly_framebuf_size := 0\<rparr>\<rparr>))
            (ztdev_upd (\<lambda>h. h\<lparr>hdlc_pending := hdlc_pending h - 1\<rparr>)))))"

definition hdlc_transmit :: "nat \<Rightarrow> 'd dahdi_ops \<Rightarrow> ('d, unit) cm" where
  "hdlc_transmit cs dh = gbind ztdev_get (\<lambda>h.
     if hdlc_pending h = 0 then ret ()
     else gthen hfc_check_l1_up
       (gbind (call_dahdi (\<lambda>d. case dahdi_hdlc_getbuf dh (sigchan h) hfc_HDLC_BUF_LEN d of (r, b, d) \<Rightarrow> ((r, b), d))) (\<lambda>(res, buf).
        if buf = [] then ret ()
        else gthen (ztdev_upd (\<lambda>h. h\<lparr>sigactive := 1\<rparr>))
          (gbind (chan_get D) (\<lambda>d. gbind (buf_store (ugly_framebuf (tx d)) (ugly_framebuf_size (tx d)) buf) (\<lambda>ubuf.
           gthen (chan_set D (\<lambda>d. d\<lparr>tx := (tx d)\<lparr>ugly_framebuf := ubuf,
               ugly_framebuf_size := ugly_framebuf_size (tx d) + int (length buf)\<rparr>\<rparr>))
           (if res = 0 then ret ()
            else send_d_frame cs)))))))"

definition voice_receive :: "nat \<Rightarrow> nat \<Rightarrow> u8 \<Rightarrow> ('d, unit) cm" where
  "voice_receive cs i rxbit = gbind (reg fifo_en) (\<lambda>e.
     if e AND rxbit \<noteq> 0 then hfc_zap_receive cs i else set_zaptel_rx i (replicate cs 0x7f))"

definition echo_cancel :: "'d dahdi_ops \<Rightarrow> nat \<Rightarrow> ('d, unit) cm" where
  "echo_cancel dh i = gbind (chan_get i) (\<lambda>ch.
     gbind (call_dahdi (dahdi_ec_chunk dh i (zaptel_buffer (rx ch)) (zaptel_buffer (tx ch)))) (set_zaptel_rx i))"

definition deliver_frame :: "'d dahdi_ops \<Rightarrow> nat option \<Rightarrow> ('d, unit) cm" where
  "deliver_frame dh sig = gbind (chan_get D) (\<lambda>d. let s = rx d; off = uint (ugly_framebuf_off s); frame_left = ugly_framebuf_size s - off in
      if ugly_framebuf_size s = 0 then ret ()
      else if frame_left > int hfc_HDLC_BUF_LEN then
        gbind (buf_read (ugly_framebuf s) off (int hfc_HDLC_BUF_LEN)) (\<lambda>xs.
        gthen (call_dahdi (\<lambda>d. ((), dahdi_hdlc_putbuf dh sig xs d)))
              (set_ugly_rx D (\<lambda>s. s\<lparr>ugly_framebuf_off := to_u16 (off + int hfc_HDLC_BUF_LEN)\<rparr>)))
      else
        gbind (buf_read (ugly_framebuf s) off frame_left) (\<lambda>xs.
        gthen (call_dahdi (\<lambda>d. ((), dahdi_hdlc_finish dh sig (dahdi_hdlc_putbuf dh sig xs d))))
              (set_ugly_rx D (\<lambda>s. s\<lparr>ugly_framebuf_size := 0, ugly_framebuf_off := 0\<rparr>))))"

definition hdlc_receive :: "'d dahdi_ops \<Rightarrow> ('d, unit) cm" where
  "hdlc_receive dh = gbind ztdev_get (\<lambda>h.
     gthen (gbind (on_rx D hfc_fifo_has_frames) (\<lambda>has. if has then hfc_frame_arrived D else ret ()))
           (deliver_frame dh (sigchan h)))"

definition hfc_handle_voice :: "nat \<Rightarrow> 'd dahdi_ops \<Rightarrow> ('d, unit) cm" where
  "hfc_handle_voice cs dh = gbind (chan_get B1) (\<lambda>b1. gbind (chan_get B2) (\<lambda>b2.
     if status b1 \<noteq> open_voice \<and> status b2 \<noteq> open_voice then ret ()
     else gthen (voice_transmit cs dh)
       (gthen (hdlc_transmit cs dh)
       (gthen (voice_receive cs B1 hfc_FIFOEN_B1RX)
       (gthen (voice_receive cs B2 hfc_FIFOEN_B2RX)
       (gthen (echo_cancel dh B1)
       (gthen (echo_cancel dh B2)
       (gthen (hdlc_receive dh)
       (gbind ztdev_get (\<lambda>h. if span_running h
          then gbind (gets (\<lambda>c. map (zaptel_buffer \<circ> rx) (chans c))) (\<lambda>bufs. call_dahdi (\<lambda>d. ((), dahdi_receive dh bufs d)))
          else ret ()))))))))))"

text \<open>
  As in the source, the \<open>else\<close> belongs to the test for B2 alone: without B2 the number of
  available bytes is -1, whatever B1 has.
\<close>

definition hfc_handle_processing_interrupt :: "nat \<Rightarrow> 'd dahdi_ops \<Rightarrow> ('d, unit) cm" where
  "hfc_handle_processing_interrupt cs dh = gbind (reg fifo_en) (\<lambda>e.
     gbind (if e AND hfc_FIFOEN_B1RX \<noteq> 0 then gbind (on_rx B1 hfc_fifo_used_rx) (\<lambda>u. ret (uint u)) else ret 0) (\<lambda>_.
     gbind (if e AND hfc_FIFOEN_B2RX \<noteq> 0 then gbind (on_rx B2 hfc_fifo_used_rx) (\<lambda>u. ret (uint u)) else ret (- 1)) (\<lambda>available_bytes.
     gbind (gets ticks) (\<lambda>t.
     gthen (if available_bytes = - 1 \<and> t = 8 \<or> available_bytes \<ge> int (cs + hfc_RX_FIFO_PRELOAD) then
         gthen (modify (\<lambda>c. c\<lparr>ticks := 0\<rparr>))
         (if available_bytes > int (cs * 2 + hfc_RX_FIFO_PRELOAD) then
            gthen (modify (\<lambda>c. c\<lparr>late_irqs := late_irqs c + 1\<rparr>))
            (gthen (on_rx B1 hfc_clear_fifo_rx) (gthen (clear_tx cs B1)
            (gthen (on_rx B2 hfc_clear_fifo_rx) (clear_tx cs B2))))
          else hfc_handle_voice cs dh)
       else ret ())
     (modify (\<lambda>c. c\<lparr>ticks := ticks c + 1\<rparr>))))))"

datatype irqreturn = IRQ_NONE | IRQ_HANDLED

definition int_s1 :: "nat \<Rightarrow> bool \<Rightarrow> u8 \<Rightarrow> ('d, unit) cm" where
  "int_s1 cs force_l1_up s1 =
     gthen (if s1 AND hfc_INTS_TIMER \<noteq> 0 then hfc_handle_timer_interrupt cs else ret ())
     (gthen (if s1 AND hfc_INTS_L1STATE \<noteq> 0 then hfc_handle_state_interrupt cs force_l1_up else ret ())
     (gthen (if s1 AND hfc_INTS_DREC \<noteq> 0 then hfc_frame_arrived D else ret ())
     (gthen (if s1 AND hfc_INTS_B1REC \<noteq> 0 then hfc_frame_arrived B1 else ret ())
            (if s1 AND hfc_INTS_B2REC \<noteq> 0 then hfc_frame_arrived B2 else ret ()))))"

definition int_s2 :: "nat \<Rightarrow> 'd dahdi_ops \<Rightarrow> u8 \<Rightarrow> ('d, unit) cm" where
  "int_s2 cs dh s2 =
     gthen (if s2 AND hfc_M2_PMESEL \<noteq> 0 then modify (\<lambda>c. c\<lparr>sync_loss_reported := True\<rparr>) else ret ())
           (if s2 AND hfc_M2_PROC_TRANS \<noteq> 0 then hfc_handle_processing_interrupt cs dh else ret ())"

text \<open>The handler, on a card; called with a NULL pointer it returns \<open>IRQ_NONE\<close> at once.\<close>

definition hfc_interrupt :: "nat \<Rightarrow> bool \<Rightarrow> 'd dahdi_ops \<Rightarrow> ('d, irqreturn) cm" where
  "hfc_interrupt cs force_l1_up dh =
     gbind (gets card_lock) (\<lambda>held. if held then hang else
     gthen (modify (\<lambda>c. c\<lparr>card_lock := True\<rparr>))
     (gbind (hfc_inb hfc_STATUS) (\<lambda>st.
      if st AND hfc_STATUS_ANYINT = 0
      then gthen (modify (\<lambda>c. c\<lparr>card_lock := False\<rparr>)) (ret IRQ_NONE)
      else gbind (hfc_inb hfc_INT_S1) (\<lambda>s1. gbind (hfc_inb hfc_INT_S2) (\<lambda>s2.
        gthen (if s1 \<noteq> 0 then int_s1 cs force_l1_up s1 else ret ())
        (gthen (if s2 \<noteq> 0 then int_s2 cs dh s2 else ret ())
        (gthen (modify (\<lambda>c. c\<lparr>card_lock := False\<rparr>)) (ret IRQ_HANDLED))))))))"

end
