(* ===== verification/Hfc_Probe.thy ===== *)
theory Hfc_Probe
  imports Hfc_Card
begin

text \<open>
  Setting up an HFC-S PCI card (\<open>hfc_probe\<close> and \<open>hfc_zap_initialize\<close> of \<open>zaphfc/base.c\<close>): the layout
  of the six FIFOs in the shared memory, the structures DAHDI gets, and the resources that are held
  when the function returns. The outcomes of the kernel calls are the fields of \<open>probe_env\<close>.
\<close>


section \<open>The layout of the FIFOs\<close>

definition hfc_simplex ::
  "nat \<Rightarrow> int \<Rightarrow> int \<Rightarrow> int \<Rightarrow> int \<Rightarrow> u16 \<Rightarrow> u16 \<Rightarrow> u8 \<Rightarrow> u8 \<Rightarrow> int \<Rightarrow> int \<Rightarrow> hfc_chan_simplex" where
  "hfc_simplex cs fifo_b z_b z1_b z2_b zmin zmax fmin fmax f1_a f2_a =
     \<lparr>zaptel_buffer = replicate cs 0, ugly_framebuf = replicate hfc_UGLY_FRAMEBUF 0, ugly_framebuf_size = 0,
      ugly_framebuf_off = 0, z1_base = z1_b, z2_base = z2_b, fifo_base = fifo_b, z_base = z_b,
      z_min = zmin, z_max = zmax, fifo_size = to_u16 (uint zmax - uint zmin + 1), f1_ptr = f1_a, f2_ptr = f2_a,
      f_min = fmin, f_max = fmax, f_num = to_u8 (uint fmax - uint fmin + 1),
      frames = 0, bytes = 0, fifo_full = 0, crc = 0, fifo_underrun = 0\<rparr>"

definition D_rx :: "nat \<Rightarrow> hfc_chan_simplex" where
  "D_rx cs = hfc_simplex cs 0x4000 0x4000 0x6080 0x6082 0x0000 0x01FF 0x10 0x1F 0x60a0 0x60a1"

definition D_tx :: "nat \<Rightarrow> hfc_chan_simplex" where
  "D_tx cs = hfc_simplex cs 0x0000 0x0000 0x2080 0x2082 0x0000 0x01FF 0x10 0x1F 0x20a0 0x20a1"

definition B1_rx :: "nat \<Rightarrow> hfc_chan_simplex" where
  "B1_rx cs = hfc_simplex cs 0x4200 0x4000 0x6000 0x6002 0x0200 0x1FFF 0x00 0x1F 0x6080 0x6081"

definition B1_tx :: "nat \<Rightarrow> hfc_chan_simplex" where
  "B1_tx cs = hfc_simplex cs 0x0200 0x0000 0x2000 0x2002 0x0200 0x1FFF 0x00 0x1F 0x2080 0x2081"

definition B2_rx :: "nat \<Rightarrow> hfc_chan_simplex" where
  "B2_rx cs = hfc_simplex cs 0x6200 0x6000 0x6100 0x6102 0x0200 0x1FFF 0x00 0x1F 0x6180 0x6181"

definition B2_tx :: "nat \<Rightarrow> hfc_chan_simplex" where
  "B2_tx cs = hfc_simplex cs 0x2200 0x2000 0x2100 0x2102 0x0200 0x1FFF 0x00 0x1F 0x2180 0x2181"

lemmas hfc_layout = D_rx_def D_tx_def B1_rx_def B1_tx_def B2_rx_def B2_tx_def hfc_simplex_def

definition hfc_duplex :: "string \<Rightarrow> nat \<Rightarrow> hfc_chan_simplex \<Rightarrow> hfc_chan_simplex \<Rightarrow> hfc_chan_duplex" where
  "hfc_duplex n i r t = \<lparr>ch_name = n, number = i, status = free, open_by_netdev = False, open_by_zaptel = False,
     protocol = 0, ch_lock = False, rx = r, tx = t\<rparr>"

definition hfc_chans :: "nat \<Rightarrow> hfc_chan_duplex list" where
  "hfc_chans cs = [hfc_duplex ''D'' D (D_rx cs) (D_tx cs), hfc_duplex ''B1'' B1 (B1_rx cs) (B1_tx cs),
     hfc_duplex ''B2'' B2 (B2_rx cs) (B2_tx cs)]"


section \<open>The structures of DAHDI\<close>

definition DAHDI_B1 :: nat where "DAHDI_B1 = 0"
definition DAHDI_B2 :: nat where "DAHDI_B2 = 1"
definition DAHDI_D :: nat where "DAHDI_D = 2"

datatype sigcap = SIG_HARDHDLC | SIG_CLEAR_DACS

text \<open>\<open>dc_pvt\<close> is the channel of the card \<open>readchunk\<close>, \<open>writechunk\<close> and \<open>pvt\<close> point into.\<close>

record dahdi_chan =
  dc_name :: string
  dc_sigcap :: sigcap
  chanpos :: int
  dc_pvt :: "nat option"

record dahdi_span =
  span_name :: string
  span_desc :: string
  spantype :: string
  manufacturer :: string
  devicetype :: string
  span_chans :: "dahdi_chan list"

definition zap_chan :: "int \<Rightarrow> nat \<Rightarrow> dahdi_chan" where
  "zap_chan num i =
     \<lparr>dc_name = ''ZTHFC'' @ itoa (num + 1) @ ''/0/'' @ itoa (int i + 1),
      dc_sigcap = (if i = 3 - 1 then SIG_HARDHDLC else SIG_CLEAR_DACS), chanpos = int i + 1, dc_pvt = None\<rparr>"

text \<open>
  The span, the structure \<open>dahdi_hfc\<close> and the result; \<open>registered\<close> is the result of
  \<open>dahdi_register\<close>. The location of the card on the bus is left out.
\<close>

definition hfc_zap_initialize :: "int \<Rightarrow> int \<Rightarrow> bool \<Rightarrow> dahdi_span \<times> dahdi_hfc \<times> int" where
  "hfc_zap_initialize registered num nt =
     (let cl = map (zap_chan num) [0..<3];
          cl = cl[DAHDI_D := (cl ! DAHDI_D)\<lparr>dc_pvt := Some D\<rparr>];
          cl = cl[DAHDI_B1 := (cl ! DAHDI_B1)\<lparr>dc_pvt := Some B1\<rparr>];
          cl = cl[DAHDI_B2 := (cl ! DAHDI_B2)\<lparr>dc_pvt := Some B2\<rparr>]
      in (\<lparr>span_name = ''ZTHFC'' @ itoa (num + 1),
           span_desc = ''HFC-S PCI A ISDN card '' @ itoa num @ '' ['' @ (if nt then ''NT'' else ''TE'') @ ''] '',
           spantype = (if nt then ''NT'' else ''TE''), manufacturer = ''Cologne Chips'',
           devicetype = ''HFC-S PCI-A ISDN'', span_chans = cl\<rparr>,
          \<lparr>span_running = False, lineconfig = 0, sigchan = Some DAHDI_D, sigactive = 0, hdlc_pending = 0, frames_out = 0\<rparr>,
          if registered \<noteq> 0 then - 1 else 0))"


section \<open>Probing\<close>

datatype hfc_resource = R_card | R_enabled | R_regions | R_iomem | R_fifo_mem | R_irq | R_zthfc | R_span | R_proc

record probe_env =
  kmalloc_card :: bool
  pci_enable_device :: int
  pci_set_dma_mask :: int
  pci_request_regions :: int
  pci_irq :: int
  pci_iomem :: int
  ioremap_ok :: bool
  fifo_alloc_ok :: bool
  request_irq :: int
  kmalloc_zthfc :: bool
  dahdi_register :: int
  proc_mkdir_ok :: bool
  null_owner_ok :: bool

text \<open>
  \<open>null_owner_ok\<close> says whether \<open>SET_PROC_DIRENTRY_OWNER\<close>, a macro of DAHDI, can be given the NULL pointer of a
  \<open>proc_mkdir\<close> that failed.
\<close>

definition ENOMEM :: int where "ENOMEM = 12"
definition ENODEV :: int where "ENODEV = 19"

text \<open>The labels at the end of the function, each falling through to the next.\<close>

definition err_pci_enable_device :: "hfc_resource set \<Rightarrow> hfc_resource set" where
  "err_pci_enable_device held = held - {R_card}"

definition err_noirq :: "hfc_resource set \<Rightarrow> hfc_resource set" where
  "err_noirq held = err_pci_enable_device (held - {R_regions})"

definition err_alloc_fifo :: "hfc_resource set \<Rightarrow> hfc_resource set" where
  "err_alloc_fifo held = err_noirq (held - {R_iomem})"

definition err_request_irq :: "hfc_resource set \<Rightarrow> hfc_resource set" where
  "err_request_irq held = err_alloc_fifo (held - {R_fifo_mem})"

text \<open>The mode of the card: the deprecated bit mask, or the list of numbers.\<close>

definition probe_nt_mode :: "int \<Rightarrow> int list \<Rightarrow> int \<Rightarrow> bool" where
  "probe_nt_mode modes nt_modes num \<longleftrightarrow> bit modes (nat num) \<or> num \<in> set nt_modes"

definition hfc_regs_zero :: hfc_regs where
  "hfc_regs_zero = \<lparr>m1 = 0, m2 = 0, fifo_en = 0, trm = 0, connect = 0, sctrl = 0, sctrl_r = 0, sctrl_e = 0, ctmt = 0, cirm = 0\<rparr>"

text \<open>
  The card before it is reset. \<open>ins\<close> and \<open>skb\<close> are what the card and the allocator will
  answer, \<open>d\<close> the state of DAHDI.
\<close>

definition hfc_new_card ::
  "nat \<Rightarrow> int \<Rightarrow> bool \<Rightarrow> dahdi_hfc \<Rightarrow> (int \<Rightarrow> nat \<Rightarrow> u8) \<Rightarrow> (nat \<Rightarrow> bool) \<Rightarrow> 'd \<Rightarrow> 'd hfc_card" where
  "hfc_new_card cs num nt zt ins skb d =
     \<lparr>cardnum = num, nt_mode = nt, sync_loss_reported = False, late_irqs = 0, l1_state = 0, fifo_suspended = False,
      ignore_first_timer_interrupt = False, regs = hfc_regs_zero, chans = hfc_chans cs, ticks = 0, card_lock = False,
      ztdev = Some zt, fifos = (\<lambda>_. 0), reg_out = [], reg_in = ins, reads = 0, skb_ok = skb, skb_calls = 0, skbs = 0,
      mod_refs = 0, dahdi = d\<rparr>"

text \<open>
  The result, the resources held at the return, and the card where there is one. The value of
  \<open>err\<close> at the label \<open>err_request_irq\<close>, when \<open>zthfc\<close> cannot be allocated, is that of the call before: 0. The
  results of \<open>hfc_zap_initialize\<close> (\<open>res\<close>) and of \<open>proc_mkdir\<close> are not tested: a span that DAHDI does
  not take and a directory that is not made are only missing among the resources.
\<close>

definition hfc_probe ::
  "nat \<Rightarrow> int \<Rightarrow> int list \<Rightarrow> int \<Rightarrow> probe_env \<Rightarrow> (int \<Rightarrow> nat \<Rightarrow> u8) \<Rightarrow> (nat \<Rightarrow> bool) \<Rightarrow> 'd \<Rightarrow>
   (int \<times> hfc_resource set \<times> 'd hfc_card option) run" where
  "hfc_probe cs modes nt_modes num env ins skb d =
     (if \<not> kmalloc_card env then Ret (- ENOMEM, {}, None)
      else let held = {R_card}; err = pci_enable_device env in
      if err \<noteq> 0 then Ret (err, err_pci_enable_device held, None)
      else let held = insert R_enabled held; err = pci_set_dma_mask env in
      if err \<noteq> 0 then Ret (err, err_pci_enable_device held, None)
      else let err = pci_request_regions env in
      if err \<noteq> 0 then Ret (err, err_pci_enable_device held, None)
      else let held = insert R_regions held in
      if pci_irq env = 0 then Ret (- ENODEV, err_noirq held, None)
      else if pci_iomem env = 0 then Ret (- ENODEV, err_noirq held, None)
      else if \<not> ioremap_ok env then Ret (- ENODEV, err_noirq held, None)
      else let held = insert R_iomem held in
      if \<not> fifo_alloc_ok env then Ret (- ENOMEM, err_alloc_fifo held, None)
      else let held = insert R_fifo_mem held; err = request_irq env in
      if err \<noteq> 0 then Ret (err, err_request_irq held, None)
      else let held = insert R_irq held; nt = probe_nt_mode modes nt_modes num in
      if \<not> kmalloc_zthfc env then Ret (err, err_request_irq held, None)
      else let held = insert R_zthfc held;
               (span, zt, res) = hfc_zap_initialize (dahdi_register env) num nt;
               held = (if dahdi_register env = 0 then insert R_span held else held);
               held = (if proc_mkdir_ok env then insert R_proc held else held) in
      if \<not> proc_mkdir_ok env \<and> \<not> null_owner_ok env then Fault
      else run_map (\<lambda>(u, card). (0, held, Some card)) (hfc_resetCard (hfc_new_card cs num nt zt ins skb d)))"

text \<open>Removing a card: it is reset, and the result is what is still held then.\<close>

definition hfc_remove :: "hfc_resource set \<Rightarrow> ('d, hfc_resource set) cm" where
  "hfc_remove held = gthen hfc_softreset
     (ret (held - {R_span} - {R_proc} - {R_irq} - {R_fifo_mem} - {R_iomem} - {R_regions} - {R_enabled} - {R_card}))"

end
