(* ===== verification/Hfc_Inv.thy ===== *)
theory Hfc_Inv
  imports Hfc_Fifo_Proofs Hfc_Probe
begin

text \<open>
  The invariant of an HFC-S PCI card: its FIFOs lie where \<open>hfc_probe\<close> puts them, apart from each
  other, and their counters are in range; the buffers of its channels have their sizes and the
  positions in them are inside. An operation on one FIFO keeps it, as the memory of the others is
  not touched.
\<close>


section \<open>The layout\<close>

definition layout :: "hfc_chan_simplex \<Rightarrow> hfc_chan_simplex" where
  "layout s = (statics s)\<lparr>zaptel_buffer := [], ugly_framebuf := [], ugly_framebuf_size := 0, ugly_framebuf_off := 0\<rparr>"

lemma layout_upd [simp]:
  "layout (s\<lparr>zaptel_buffer := a\<rparr>) = layout s" "layout (s\<lparr>ugly_framebuf := a\<rparr>) = layout s"
  "layout (s\<lparr>ugly_framebuf_size := k\<rparr>) = layout s" "layout (s\<lparr>ugly_framebuf_off := u\<rparr>) = layout s"
  by (simp_all add: layout_def statics_def)

lemma layout_fifo:
  "fifo_ok (layout s) = fifo_ok s" "fifo_area (layout s) = fifo_area s" "fifo_size (layout s) = fifo_size s"
  "fifo_wf (layout s) = fifo_wf s"
  by (simp_all add: fun_eq_iff layout_def statics_def fifo_ok_def fifo_wf_def fifo_area_def data_area_def z_area_def
      f_area_def F1_def F2_def Z1_def Z2_def z_in_def f_in_def)

lemma layout_determine: "layout a = layout b \<Longrightarrow> (\<And>s. f (layout s) = f s) \<Longrightarrow> f a = f b"
  by metis

lemma layout_cong:
  assumes "layout a = layout b"
  shows "fifo_ok a = fifo_ok b" "fifo_area a = fifo_area b" "fifo_size a = fifo_size b" "fifo_wf a = fifo_wf b"
  by (rule layout_determine [OF assms], simp add: layout_fifo)+

lemma layout_statics: "statics a = statics b \<Longrightarrow> layout a = layout b"
  by (simp add: layout_def)

lemma fifo_ok_frame:
  assumes "fifo_ok s m" "\<And>x. x \<in> fifo_area s \<Longrightarrow> m' x = m x"
  shows "fifo_ok s m'"
proof -
  have wf: "fifo_wf s" using assms(1) by (simp add: fifo_ok_def)
  have f: "m' (f1_ptr s) = m (f1_ptr s)" "m' (f2_ptr s) = m (f2_ptr s)"
    using wf_z2 [OF wf] by (auto intro!: assms(2) simp: fifo_area_def f_area_def)
  have z: "Z1 s m' f = Z1 s m f \<and> Z2 s m' f = Z2 s m f" if "f_in s f" for f
  proof -
    have "m' (z1_base s + uint f * 4 + i) = m (z1_base s + uint f * 4 + i)" if "0 \<le> i" "i < 4" for i
      using z_cell_area [OF wf \<open>f_in s f\<close>] that by (intro assms(2)) (auto simp: fifo_area_def)
    from this [of 0] this [of 1] this [of 2] this [of 3] show ?thesis
      using wf_z2 [OF wf] by (simp add: Z1_def Z2_def u16_at_def algebra_simps)
  qed
  show ?thesis using assms(1) f z by (simp add: fifo_ok_def F1_def F2_def)
qed

lemma uint_sizes [simp]:
  "uint (to_u16 512) = 512" "uint (to_u16 7680) = 7680" "uint (to_u8 16) = 16" "uint (to_u8 32) = 32"
  by (simp_all add: uint_to_u16 uint_to_u8)

lemmas area_defs = fifo_area_def data_area_def z_area_def f_area_def

definition the_rx :: "nat \<Rightarrow> hfc_chan_simplex" where "the_rx i = rx (hfc_chans 0 ! i)"
definition the_tx :: "nat \<Rightarrow> hfc_chan_simplex" where "the_tx i = tx (hfc_chans 0 ! i)"

lemma less_3: "i < 3 \<longleftrightarrow> i = 0 \<or> i = 1 \<or> i = (2::nat)"
  by auto

lemmas the_layout = the_rx_def the_tx_def hfc_chans_def hfc_duplex_def hfc_layout

lemma layout_areas:
  assumes "i < 3"
  shows "fifo_area (the_rx i) = (if i = 0 then {0x4000..<0x4200} \<union> {0x60C0..<0x6100} \<union> {0x60A0..<0x60A2}
      else if i = 1 then {0x4200..<0x6000} \<union> {0x6000..<0x6080} \<union> {0x6080..<0x6082}
      else {0x6200..<0x8000} \<union> {0x6100..<0x6180} \<union> {0x6180..<0x6182})"
    "fifo_area (the_tx i) = (if i = 0 then {0x0000..<0x0200} \<union> {0x20C0..<0x2100} \<union> {0x20A0..<0x20A2}
      else if i = 1 then {0x0200..<0x2000} \<union> {0x2000..<0x2080} \<union> {0x2080..<0x2082}
      else {0x2200..<0x4000} \<union> {0x2100..<0x2180} \<union> {0x2180..<0x2182})"
  using assms by (auto simp: less_3 the_layout area_defs)

lemma layout_sizes:
  "sz (the_rx i) = (if i = 0 then 512 else 7680)" "sz (the_tx i) = (if i = 0 then 512 else 7680)" if "i < 3"
  using that by (auto simp: less_3 the_layout)

lemma layout_wf: "i < 3 \<Longrightarrow> fifo_wf (the_rx i)" "i < 3 \<Longrightarrow> fifo_wf (the_tx i)"
  by (auto simp: less_3 fifo_wf_def the_layout area_defs hfc_FIFO_SIZE_def)

lemma areas_disjoint:
  assumes "i < 3" "j < 3"
  shows "fifo_area (the_rx i) \<inter> fifo_area (the_tx j) = {}"
    "i \<noteq> j \<Longrightarrow> fifo_area (the_rx i) \<inter> fifo_area (the_rx j) = {}"
    "i \<noteq> j \<Longrightarrow> fifo_area (the_tx i) \<inter> fifo_area (the_tx j) = {}"
  using assms by (auto simp: less_3 layout_areas)


section \<open>The invariant of a card\<close>

definition chan_ok :: "nat \<Rightarrow> nat \<Rightarrow> hfc_chan_duplex \<Rightarrow> bool" where
  "chan_ok cs i ch \<longleftrightarrow> number ch = i \<and>
     layout (rx ch) = layout (the_rx i) \<and> layout (tx ch) = layout (the_tx i) \<and>
     length (zaptel_buffer (rx ch)) = cs \<and> length (zaptel_buffer (tx ch)) = cs \<and>
     length (ugly_framebuf (rx ch)) = hfc_UGLY_FRAMEBUF \<and> length (ugly_framebuf (tx ch)) = hfc_UGLY_FRAMEBUF \<and>
     uint (ugly_framebuf_off (rx ch)) \<le> ugly_framebuf_size (rx ch) \<and>
     ugly_framebuf_size (rx ch) \<le> int hfc_UGLY_FRAMEBUF \<and> 0 \<le> ugly_framebuf_size (tx ch)"

definition fifos_ok :: "fmem \<Rightarrow> bool" where
  "fifos_ok m \<longleftrightarrow> (\<forall>i < 3. fifo_ok (the_rx i) m \<and> fifo_ok (the_tx i) m)"

text \<open>
  \<open>L\<close> is the set of the channels whose lock is held, and \<open>card_lk\<close> stands for the lock of the card; \<open>dl\<close> is the number of bytes of an unfinished frame
  DAHDI has handed out.
\<close>

abbreviation (input) card_lk :: nat where "card_lk \<equiv> 3"

definition hfc_inv :: "nat \<Rightarrow> ('d \<Rightarrow> nat) \<Rightarrow> nat set \<Rightarrow> 'd hfc_card \<Rightarrow> bool" where
  "hfc_inv cs dl L c \<longleftrightarrow> length (chans c) = 3 \<and>
     (\<forall>i < 3. chan_ok cs i (chans c ! i) \<and> (ch_lock (chans c ! i) \<longleftrightarrow> i \<in> L)) \<and>
     (card_lock c \<longleftrightarrow> card_lk \<in> L) \<and> fifos_ok (fifos c) \<and> ztdev c \<noteq> None \<and> ugly_framebuf_size (tx (chans c ! D)) \<le> int (dl (dahdi c))"

lemma hfc_inv_upd [simp]:
  "hfc_inv cs dl L (c\<lparr>reg_out := a\<rparr>) = hfc_inv cs dl L c" "hfc_inv cs dl L (c\<lparr>reads := b\<rparr>) = hfc_inv cs dl L c"
  "hfc_inv cs dl L (c\<lparr>regs := d\<rparr>) = hfc_inv cs dl L c" "hfc_inv cs dl L (c\<lparr>late_irqs := e\<rparr>) = hfc_inv cs dl L c"
  "hfc_inv cs dl L (c\<lparr>fifo_suspended := f\<rparr>) = hfc_inv cs dl L c" "hfc_inv cs dl L (c\<lparr>mod_refs := e\<rparr>) = hfc_inv cs dl L c"
  "hfc_inv cs dl L (c\<lparr>ticks := e\<rparr>) = hfc_inv cs dl L c" "hfc_inv cs dl L (c\<lparr>l1_state := g\<rparr>) = hfc_inv cs dl L c"
  "hfc_inv cs dl L (c\<lparr>ignore_first_timer_interrupt := f\<rparr>) = hfc_inv cs dl L c"
  "hfc_inv cs dl L (c\<lparr>sync_loss_reported := f\<rparr>) = hfc_inv cs dl L c"
  "hfc_inv cs dl L (c\<lparr>skbs := e\<rparr>) = hfc_inv cs dl L c"
  "hfc_inv cs dl L (c\<lparr>skb_calls := b\<rparr>) = hfc_inv cs dl L c"
  by (simp_all add: hfc_inv_def)

lemma hfc_invD:
  assumes "hfc_inv cs dl L c" "i < 3"
  shows "i < length (chans c)" "chan_ok cs i (chans c ! i)" "ch_lock (chans c ! i) \<longleftrightarrow> i \<in> L"
    "fifo_ok (rx (chans c ! i)) (fifos c)" "fifo_ok (tx (chans c ! i)) (fifos c)"
    "sz (rx (chans c ! i)) = (if i = 0 then 512 else 7680)" "sz (tx (chans c ! i)) = (if i = 0 then 512 else 7680)"
proof -
  show "i < length (chans c)" and ok: "chan_ok cs i (chans c ! i)" and "ch_lock (chans c ! i) \<longleftrightarrow> i \<in> L"
    using assms by (auto simp: hfc_inv_def)
  have rx: "layout (rx (chans c ! i)) = layout (the_rx i)" and tx: "layout (tx (chans c ! i)) = layout (the_tx i)"
    using ok by (simp_all add: chan_ok_def)
  show "fifo_ok (rx (chans c ! i)) (fifos c)" "fifo_ok (tx (chans c ! i)) (fifos c)"
    using assms layout_cong(1) [OF rx] layout_cong(1) [OF tx] by (auto simp: hfc_inv_def fifos_ok_def)
  show "sz (rx (chans c ! i)) = (if i = 0 then 512 else 7680)" "sz (tx (chans c ! i)) = (if i = 0 then 512 else 7680)"
    using layout_cong(3) [OF rx] layout_cong(3) [OF tx] layout_sizes [OF assms(2)] by simp_all
qed

text \<open>Storing a changed channel, and the FIFO memory after an operation on one FIFO.\<close>

lemma hfc_inv_chan:
  assumes "hfc_inv cs dl L c" "i < 3" "chan_ok cs i ch" "ch_lock ch \<longleftrightarrow> i \<in> L'" "L' - {i} = L - {i}"
    and "i = D \<longrightarrow> ugly_framebuf_size (tx ch) \<le> int (dl (dahdi c))"
  shows "hfc_inv cs dl L' (c\<lparr>chans := (chans c)[i := ch]\<rparr>)"
  using assms by (auto simp: hfc_inv_def nth_list_update D_def)

lemma fifos_ok_step:
  assumes "fifos_ok m" "i < 3" "s = the_rx i \<or> s = the_tx i" "fifo_ok s m'" "\<And>x. x \<notin> fifo_area s \<Longrightarrow> m' x = m x"
  shows "fifos_ok m'"
proof -
  have keep: "fifo_ok t m'" if "fifo_ok t m" "fifo_area t \<inter> fifo_area s = {}" for t
  proof (rule fifo_ok_frame [OF that(1)])
    fix x assume "x \<in> fifo_area t"
    with that(2) have "x \<notin> fifo_area s" by blast
    then show "m' x = m x" by (rule assms(5))
  qed
  have "fifo_ok (the_rx j) m' \<and> fifo_ok (the_tx j) m'" if j: "j < 3" for j
  proof -
    have "fifo_ok (the_rx j) m" "fifo_ok (the_tx j) m" using assms(1) j by (auto simp: fifos_ok_def)
    with assms(2-4) keep areas_disjoint [OF assms(2) j] areas_disjoint [OF j assms(2)] areas_disjoint(2,3) [OF j assms(2)] j
    show ?thesis by (cases "i = j") (auto simp: Int_commute)
  qed
  then show ?thesis by (simp add: fifos_ok_def)
qed

lemma hfc_inv_rx_step:
  assumes "hfc_inv cs dl L c" "i < 3" "fifo_step (rx (chans c ! i), fifos c) (s, m)"
  shows "hfc_inv cs dl L (c\<lparr>chans := (chans c)[i := (chans c ! i)\<lparr>rx := s\<rparr>], fifos := m\<rparr>)"
proof -
  note inv = hfc_invD [OF assms(1,2)]
  have st: "statics s = statics (rx (chans c ! i))" using assms(3) by (simp add: fifo_step_def)
  have lay: "layout s = layout (the_rx i)" "layout (rx (chans c ! i)) = layout (the_rx i)"
    using inv(2) layout_statics [OF st] by (simp_all add: chan_ok_def)
  have ok: "chan_ok cs i ((chans c ! i)\<lparr>rx := s\<rparr>)"
    using inv(2) lay arg_cong [OF st, of zaptel_buffer] arg_cong [OF st, of ugly_framebuf]
      arg_cong [OF st, of ugly_framebuf_size] arg_cong [OF st, of ugly_framebuf_off] by (simp add: chan_ok_def)
  have "fifos_ok m"
  proof (rule fifos_ok_step [OF _ assms(2)])
    show "fifos_ok (fifos c)" using assms(1) by (simp add: hfc_inv_def)
    show "fifo_ok (the_rx i) m" using assms(3) layout_cong(1) [OF lay(1)] by (simp add: fifo_step_def)
    show "x \<notin> fifo_area (the_rx i) \<Longrightarrow> m x = fifos c x" for x
      using assms(3) layout_cong(2) [OF lay(2)] by (simp add: fifo_step_def)
  qed simp
  moreover have "hfc_inv cs dl L (c\<lparr>chans := (chans c)[i := (chans c ! i)\<lparr>rx := s\<rparr>]\<rparr>)"
    using ok inv(3) assms(1) by (intro hfc_inv_chan [OF assms(1,2)]) (auto simp: hfc_inv_def)
  ultimately show ?thesis by (simp add: hfc_inv_def)
qed

lemma hfc_inv_tx_step:
  assumes "hfc_inv cs dl L c" "i < 3" "fifo_step (tx (chans c ! i), fifos c) (s, m)"
  shows "hfc_inv cs dl L (c\<lparr>chans := (chans c)[i := (chans c ! i)\<lparr>tx := s\<rparr>], fifos := m\<rparr>)"
proof -
  note inv = hfc_invD [OF assms(1,2)]
  have st: "statics s = statics (tx (chans c ! i))" using assms(3) by (simp add: fifo_step_def)
  have lay: "layout s = layout (the_tx i)" "layout (tx (chans c ! i)) = layout (the_tx i)"
    using inv(2) layout_statics [OF st] by (simp_all add: chan_ok_def)
  have ok: "chan_ok cs i ((chans c ! i)\<lparr>tx := s\<rparr>)"
    using inv(2) lay arg_cong [OF st, of zaptel_buffer] arg_cong [OF st, of ugly_framebuf]
      arg_cong [OF st, of ugly_framebuf_size] by (simp add: chan_ok_def)
  have "fifos_ok m"
  proof (rule fifos_ok_step [OF _ assms(2)])
    show "fifos_ok (fifos c)" using assms(1) by (simp add: hfc_inv_def)
    show "fifo_ok (the_tx i) m" using assms(3) layout_cong(1) [OF lay(1)] by (simp add: fifo_step_def)
    show "x \<notin> fifo_area (the_tx i) \<Longrightarrow> m x = fifos c x" for x
      using assms(3) layout_cong(2) [OF lay(2)] by (simp add: fifo_step_def)
  qed simp
  moreover have "hfc_inv cs dl L (c\<lparr>chans := (chans c)[i := (chans c ! i)\<lparr>tx := s\<rparr>]\<rparr>)"
    using ok inv(3) assms(1) arg_cong [OF st, of ugly_framebuf_size]
    by (intro hfc_inv_chan [OF assms(1,2)]) (auto simp: hfc_inv_def)
  ultimately show ?thesis by (simp add: hfc_inv_def)
qed


section \<open>Statements on a card\<close>

lemma wp_chan_get [wp]: "wp (chan_get i) Q c \<longleftrightarrow> i < length (chans c) \<and> Q (chans c ! i) c"
  by (auto simp: wp_def chan_get_def arr_get_def)

lemma wp_chan_set [wp]:
  "wp (chan_set i f) Q c \<longleftrightarrow> i < length (chans c) \<and> Q () (c\<lparr>chans := (chans c)[i := f (chans c ! i)]\<rparr>)"
  by (auto simp: wp_def chan_set_def chan_get_def gbind_def arr_get_def arr_set_def)

lemma wp_on_rx [wp]: "wp (on_rx i f) Q c \<longleftrightarrow> i < length (chans c) \<and>
    wp f (\<lambda>x (s, m). Q x (c\<lparr>chans := (chans c)[i := (chans c ! i)\<lparr>rx := s\<rparr>], fifos := m\<rparr>)) (rx (chans c ! i), fifos c)"
  by (auto simp: wp_def on_rx_def gbind_def chan_get_def chan_set_def arr_get_def arr_set_def run_bind_Ret_iff run_map_Ret_iff)

lemma wp_on_tx [wp]: "wp (on_tx i f) Q c \<longleftrightarrow> i < length (chans c) \<and>
    wp f (\<lambda>x (s, m). Q x (c\<lparr>chans := (chans c)[i := (chans c ! i)\<lparr>tx := s\<rparr>], fifos := m\<rparr>)) (tx (chans c ! i), fifos c)"
  by (auto simp: wp_def on_tx_def gbind_def chan_get_def chan_set_def arr_get_def arr_set_def run_bind_Ret_iff run_map_Ret_iff)

lemma wp_registers [wp]:
  "wp (hfc_outb off v) Q1 c = Q1 () (c\<lparr>reg_out := reg_out c @ [(off, v)]\<rparr>)"
  "wp (hfc_inb off) Q2 c = Q2 (reg_in c off (reads c)) (c\<lparr>reads := reads c + 1\<rparr>)"
  "wp (reg f) Q3 c = Q3 (f (regs c)) c" "wp (reg_upd g) Q1 c = Q1 () (c\<lparr>regs := g (regs c)\<rparr>)"
  "wp (reg_write off h) Q1 c = Q1 () (c\<lparr>reg_out := reg_out c @ [(off, h (regs c))]\<rparr>)"
  by (simp_all add: hfc_outb_def wp_def hfc_inb_def reg_def reg_upd_def reg_write_def gets_def modify_def gbind_def)

end
