(* ===== verification/Hfc_Card_Proofs.thy ===== *)
theory Hfc_Card_Proofs
  imports Hfc_Inv
begin

text \<open>
  The operations of the HFC-S PCI driver keep the invariant of the card, and so none of them
  accesses memory outside its bounds, dereferences NULL or waits for a lock it holds, whatever the card
  answers and whatever DAHDI delivers within its contract (\<open>dahdi_ok\<close>).
\<close>

lemma triple_gbind_res:
  assumes "\<And>w. I w \<Longrightarrow> wp m (\<lambda>x w'. J w' \<and> P x) w" "\<And>x. P x \<Longrightarrow> triple J (f x) K"
  shows "triple I (gbind m f) K"
proof (rule tripleI)
  fix w assume "I w"
  from wp_mono [OF assms(1) [OF this], of "\<lambda>x. wp (f x) (\<lambda>_. K)"] assms(2)
  show "wp (gbind m f) (\<lambda>_. K) w" by (auto simp: wp triple_def)
qed

lemma triple_conv: "triple I m J \<Longrightarrow> (\<And>w. I' w \<Longrightarrow> I w) \<Longrightarrow> (\<And>w. J w \<Longrightarrow> J' w) \<Longrightarrow> triple I' m J'"
  unfolding triple_def by (meson wp_mono)

text \<open>What the driver relies on DAHDI for; \<open>dl\<close> counts the bytes of a frame that is not complete.\<close>

definition dahdi_ok :: "nat \<Rightarrow> ('d \<Rightarrow> nat) \<Rightarrow> 'd dahdi_ops \<Rightarrow> bool" where
  "dahdi_ok cs dl dh \<longleftrightarrow>
     (\<forall>d. case dahdi_transmit dh d of ((a, b, e), d') \<Rightarrow> length a = cs \<and> length b = cs \<and> length e = cs \<and> dl d' = dl d) \<and>
     (\<forall>ch n d. case dahdi_hdlc_getbuf dh ch n d of (r, b, d') \<Rightarrow> length b \<le> n \<and> dl d + length b \<le> 512 \<and>
        dl d' = (if r \<noteq> 0 \<and> b \<noteq> [] then 0 else dl d + length b)) \<and>
     (\<forall>ch xs d. dl (dahdi_hdlc_putbuf dh ch xs d) = dl d) \<and> (\<forall>ch d. dl (dahdi_hdlc_finish dh ch d) = dl d) \<and>
     (\<forall>i r t d. case dahdi_ec_chunk dh i r t d of (r', d') \<Rightarrow> length r' = length r \<and> dl d' = dl d) \<and>
     (\<forall>xs d. dl (dahdi_receive dh xs d) = dl d)"

lemma triple_state [triple]:
  "triple (hfc_inv cs dl L) (hfc_outb off v) (hfc_inv cs dl L)"
  "triple (hfc_inv cs dl L) (reg_upd g) (hfc_inv cs dl L)"
  "triple (hfc_inv cs dl L) (reg_write off h) (hfc_inv cs dl L)"
  "triple (hfc_inv cs dl L) (hfc_inb off) (hfc_inv cs dl L)"
  "triple (hfc_inv cs dl L) dev_kfree_skb (hfc_inv cs dl L)"
  "triple (hfc_inv cs dl L) alloc_skb (hfc_inv cs dl L)"
  by (auto simp: triple_def wp dev_kfree_skb_def) (auto simp: alloc_skb_def wp_def Let_def)

lemma triple_reg [triple]: "(\<And>e. triple I (f e) K) \<Longrightarrow> triple I (gbind (reg g) f) K"
  by (simp add: reg_def triple_gets)

lemma triple_inb [triple]:
  "(\<And>e. triple (hfc_inv cs dl L) (f e) K) \<Longrightarrow> triple (hfc_inv cs dl L) (gbind (hfc_inb off) f) K"
  by (rule triple_gbind [OF triple_state(4)])

lemma triple_chan_get [triple]:
  assumes "i < 3" "\<And>ch. chan_ok cs i ch \<Longrightarrow> ch_lock ch = (i \<in> L) \<Longrightarrow> triple (hfc_inv cs dl L) (f ch) K"
  shows "triple (hfc_inv cs dl L) (gbind (chan_get i) f) K"
proof (rule tripleI)
  fix c assume inv: "hfc_inv cs dl L c"
  from tripleD [OF assms(2) inv] hfc_invD(1-3) [OF inv assms(1)]
  show "wp (gbind (chan_get i) f) (\<lambda>_. K) c" by (simp add: wp)
qed

lemma triple_chan_set:
  assumes "i < 3" "\<And>ch. chan_ok cs i ch \<Longrightarrow> ch_lock ch = (i \<in> L) \<Longrightarrow> chan_ok cs i (f ch) \<and> (ch_lock (f ch) \<longleftrightarrow> i \<in> L')"
    and "L' - {i} = L - {i}" "\<And>ch. i = D \<Longrightarrow> ugly_framebuf_size (tx (f ch)) \<le> max 0 (ugly_framebuf_size (tx ch))"
  shows "triple (hfc_inv cs dl L) (chan_set i f) (hfc_inv cs dl L')"
proof (rule tripleI)
  fix c assume inv: "hfc_inv cs dl L c"
  have "ugly_framebuf_size (tx (chans c ! D)) \<le> int (dl (dahdi c))" using inv by (simp add: hfc_inv_def)
  then have "i = D \<longrightarrow> ugly_framebuf_size (tx (f (chans c ! i))) \<le> int (dl (dahdi c))"
    using assms(4) [of "chans c ! i"] by auto
  then show "wp (chan_set i f) (\<lambda>_. hfc_inv cs dl L') c"
    using hfc_invD [OF inv assms(1)] assms by (simp add: wp hfc_inv_chan [OF inv])
qed

lemma triple_locks [triple]:
  "i < 3 \<Longrightarrow> i \<notin> L \<Longrightarrow> triple (hfc_inv cs dl L) (spin_lock i) (hfc_inv cs dl (insert i L))"
  "i < 3 \<Longrightarrow> triple (hfc_inv cs dl L) (spin_unlock i) (hfc_inv cs dl (L - {i}))"
  unfolding spin_lock_def spin_unlock_def
  by (rule triple_chan_get; auto intro!: triple_chan_set simp: chan_ok_def)
     (auto intro!: triple_chan_set simp: chan_ok_def)

lemma triple_unlock:
  "i < 3 \<Longrightarrow> i \<notin> L \<Longrightarrow> triple (hfc_inv cs dl (insert i L)) (spin_unlock i) (hfc_inv cs dl L)"
  using triple_locks(2) [of i cs dl "insert i L"] by simp

text \<open>No lock of a channel is held; the lock of the card may be.\<close>

lemma lock_free:
  assumes "L \<subseteq> {card_lk}"
  shows "D \<notin> L" "B1 \<notin> L" "B2 \<notin> L" "i < 3 \<Longrightarrow> i \<notin> L"
  using assms by (auto simp: chan_numbers)

lemma triple_on_rx:
  assumes "i < 3" "\<And>s m. fifo_ok s m \<Longrightarrow> sz s = (if i = 0 then 512 else 7680) \<Longrightarrow> wp f (\<lambda>x t. fifo_step (s, m) t \<and> P x) (s, m)"
    and "hfc_inv cs dl L c"
  shows "wp (on_rx i f) (\<lambda>x c'. hfc_inv cs dl L c' \<and> P x) c"
proof -
  note inv = hfc_invD [OF assms(3,1)]
  have "wp f (\<lambda>x (s, m). hfc_inv cs dl L (c\<lparr>chans := (chans c)[i := (chans c ! i)\<lparr>rx := s\<rparr>], fifos := m\<rparr>) \<and> P x)
      (rx (chans c ! i), fifos c)"
    by (rule wp_mono [OF assms(2)]) (use inv hfc_inv_rx_step [OF assms(3,1)] in auto)
  with inv(1) show ?thesis by (simp add: wp_on_rx)
qed

lemma triple_on_tx:
  assumes "i < 3" "\<And>s m. fifo_ok s m \<Longrightarrow> sz s = (if i = 0 then 512 else 7680) \<Longrightarrow> wp f (\<lambda>_ t. fifo_step (s, m) t) (s, m)"
  shows "triple (hfc_inv cs dl L) (on_tx i f) (hfc_inv cs dl L)"
proof (rule tripleI)
  fix c assume inv0: "hfc_inv cs dl L c"
  note inv = hfc_invD [OF inv0 assms(1)]
  have "wp f (\<lambda>_ (s, m). hfc_inv cs dl L (c\<lparr>chans := (chans c)[i := (chans c ! i)\<lparr>tx := s\<rparr>], fifos := m\<rparr>))
      (tx (chans c ! i), fifos c)"
    by (rule wp_mono [OF assms(2)]) (use inv hfc_inv_tx_step [OF inv0 assms(1)] in auto)
  with inv(1) show "wp (on_tx i f) (\<lambda>_. hfc_inv cs dl L) c" by (simp add: wp_on_tx)
qed

lemma triple_rx [triple]:
  assumes "i < 3" "\<And>s m. fifo_ok s m \<Longrightarrow> sz s = (if i = 0 then 512 else 7680) \<Longrightarrow> wp f (\<lambda>_. fifo_step (s, m)) (s, m)"
  shows "triple (hfc_inv cs dl L) (on_rx i f) (hfc_inv cs dl L)"
  using triple_on_rx [OF assms(1), of f "\<lambda>_. True"] assms(2) by (auto simp: triple_def)

lemma fifo_reads:
  assumes "fifo_ok s m"
  shows "wp hfc_fifo_has_frames (\<lambda>_. fifo_step (s, m)) (s, m)" "wp hfc_fifo_used_rx (\<lambda>_. fifo_step (s, m)) (s, m)"
    "wp hfc_fifo_get_frame_size (\<lambda>r t. fifo_step (s, m) t \<and> 1 \<le> uint r \<and> uint r \<le> sz s) (s, m)"
    "wp hfc_clear_fifo_rx (\<lambda>_. fifo_step (s, m)) (s, m)" "wp hfc_fifo_drop_frame (\<lambda>_. fifo_step (s, m)) (s, m)"
  using assms fifo_step_refl [OF assms refl] used_range(1) [OF fifo_okD(1) [OF assms], of m]
    wp_clear_rx_step [OF fifo_step_refl [OF assms refl]] fifo_step_next_frame [OF fifo_step_refl [OF assms refl]]
  by (simp_all add: wp_frame_counts wp_used wp_drop_frame)

lemma triple_clear_rx [triple]: "i < 3 \<Longrightarrow> triple (hfc_inv cs dl L) (on_rx i hfc_clear_fifo_rx) (hfc_inv cs dl L)"
  "i < 3 \<Longrightarrow> triple (hfc_inv cs dl L) (on_rx i hfc_fifo_drop_frame) (hfc_inv cs dl L)"
  "i < 3 \<Longrightarrow> triple (hfc_inv cs dl L) (on_rx i hfc_fifo_has_frames) (hfc_inv cs dl L)"
  "i < 3 \<Longrightarrow> triple (hfc_inv cs dl L) (on_rx i hfc_fifo_used_rx) (hfc_inv cs dl L)"
  by (rule triple_rx; simp add: fifo_reads)+

lemma triple_clear_tx [triple]:
  assumes "i < 3" "2 * cs + 6 \<le> 512"
  shows "triple (hfc_inv cs dl L) (clear_tx cs i) (hfc_inv cs dl L)"
  unfolding clear_tx_def
proof (rule triple_chan_get [OF assms(1)], rule triple_on_tx [OF assms(1)])
  fix ch s m assume ok: "fifo_ok s m" and sz: "sz s = (if i = 0 then 512 else 7680)"
  have "int (2 * cs + 6) \<le> sz s" using assms(2) sz by auto
  from wp_clear_tx_step [OF fifo_step_refl [OF ok refl] this, of 1]
  show "wp (hfc_clear_fifo_tx put_depth cs (status ch)) (\<lambda>_. fifo_step (s, m)) (s, m)"
    by (simp only: put_depth_def numeral_2_eq_2 One_nat_def)
qed


section \<open>Every operation keeps the invariant\<close>

lemma chan_nums [simp]: "D < 3" "B1 < 3" "B2 < 3" "D \<noteq> B1" "D \<noteq> B2" "B1 \<noteq> B2" "B1 \<noteq> D" "B2 \<noteq> D" "B2 \<noteq> B1"
  by (simp_all add: chan_numbers)

lemma triple_update_b [triple]:
  assumes "i < 3" "2 * cs + 6 \<le> 512"
  shows "triple (hfc_inv cs dl L) (update_b_fifos cs i r t on) (hfc_inv cs dl L)"
  unfolding update_b_fifos_def by (rule triple assms)+

lemma triple_fifo_state [triple]:
  assumes "2 * cs + 6 \<le> 512" "L \<subseteq> {card_lk}"
  shows "triple (hfc_inv cs dl L) (hfc_update_fifo_state cs) (hfc_inv cs dl L)"
proof -
  have reset: "triple (hfc_inv cs dl (insert D L))
      (chan_set D (\<lambda>ch. ch\<lparr>tx := (tx ch)\<lparr>ugly_framebuf_size := 0, ugly_framebuf_off := 0\<rparr>\<rparr>)) (hfc_inv cs dl (insert D L))"
    by (rule triple_chan_set) (auto simp: chan_ok_def)
  show ?thesis
    unfolding hfc_update_fifo_state_def
    by (rule triple_unlock reset triple assms chan_nums lock_free [OF assms(2)])+
qed

lemma triple_suspend [triple]:
  assumes "2 * cs + 6 \<le> 512" "L \<subseteq> {card_lk}"
  shows "triple (hfc_inv cs dl L) (hfc_suspend_fifo cs) (hfc_inv cs dl L)"
    "triple (hfc_inv cs dl L) (hfc_resume_fifo cs) (hfc_inv cs dl L)"
  unfolding hfc_suspend_fifo_def hfc_resume_fifo_def
  by (rule triple assms triple_modify [where J = "hfc_inv cs dl L"] | simp)+

lemma triple_check_l1 [triple]: "triple (hfc_inv cs dl L) hfc_check_l1_up (hfc_inv cs dl L)"
  unfolding hfc_check_l1_up_def by (rule triple)+

lemma triple_channel_regs [triple]: "triple (hfc_inv cs dl L) write_channel_regs (hfc_inv cs dl L)"
  unfolding write_channel_regs_def by (rule triple)+

lemma triple_chan_flags:
  assumes "i < 3" "\<And>ch. number (f ch) = number ch \<and> rx (f ch) = rx ch \<and> tx (f ch) = tx ch \<and> ch_lock (f ch) = ch_lock ch"
  shows "triple (hfc_inv cs dl L) (chan_set i f) (hfc_inv cs dl L)"
  by (rule triple_chan_set) (use assms in \<open>auto simp: chan_ok_def\<close>)

lemma triple_open [triple]:
  assumes "i < 3" "2 * cs + 6 \<le> 512" "L \<subseteq> {card_lk}"
  shows "triple (hfc_inv cs dl L) (hfc_zap_open cs i) (hfc_inv cs dl L)"
  unfolding hfc_zap_open_def
  by (rule triple_unlock triple triple_chan_flags assms chan_nums lock_free [OF assms(3)]
      triple_modify [where J = "hfc_inv cs dl (insert i L)"] triple_modify [where J = "hfc_inv cs dl L"] | simp)+

lemma triple_close [triple]:
  assumes "i < 3" "2 * cs + 6 \<le> 512" "L \<subseteq> {card_lk}"
  shows "triple (hfc_inv cs dl L) (hfc_zap_close cs i) (hfc_inv cs dl L)"
  unfolding hfc_zap_close_def
  by (rule triple_unlock triple triple_chan_flags assms chan_nums lock_free [OF assms(3)]
      triple_modify [where J = "hfc_inv cs dl (insert i L)"] triple_modify [where J = "hfc_inv cs dl L"] | simp)+

lemma wp_ztdev [wp]:
  "wp ztdev_get Q c \<longleftrightarrow> ztdev c \<noteq> None \<and> Q (the (ztdev c)) c"
  "wp (ztdev_upd f) R c \<longleftrightarrow> ztdev c \<noteq> None \<and> R () (c\<lparr>ztdev := Some (f (the (ztdev c)))\<rparr>)"
  by (cases "ztdev c"; simp add: ztdev_get_def ztdev_upd_def wp)+

lemma triple_ztdev [triple]:
  "triple (hfc_inv cs dl L) (ztdev_upd f) (hfc_inv cs dl L)"
  "(\<And>h. triple (hfc_inv cs dl L) (g h) K) \<Longrightarrow> triple (hfc_inv cs dl L) (gbind ztdev_get g) K"
  by (auto simp: triple_def wp hfc_inv_def)

lemma triple_dahdi_calls [triple]:
  "triple (hfc_inv cs dl L) hfc_hdlc_hard_xmit (hfc_inv cs dl L)" "triple (hfc_inv cs dl L) hfc_zap_startup (hfc_inv cs dl L)"
  "triple (hfc_inv cs dl L) (hfc_zap_chanconfig k b) (hfc_inv cs dl L)"
  "triple (hfc_inv cs dl L) (hfc_zap_spanconfig lc) (hfc_inv cs dl L)"
  unfolding hfc_hdlc_hard_xmit_def hfc_zap_startup_def hfc_zap_chanconfig_def hfc_zap_spanconfig_def
  by (rule triple)+

lemma triple_timer [triple]:
  assumes "2 * cs + 6 \<le> 512" "L \<subseteq> {card_lk}"
  shows "triple (hfc_inv cs dl L) (hfc_handle_timer_interrupt cs) (hfc_inv cs dl L)"
  unfolding hfc_handle_timer_interrupt_def by (rule triple assms triple_modify [where J = "hfc_inv cs dl L"] | simp)+

lemma triple_state_interrupt [triple]:
  assumes "2 * cs + 6 \<le> 512" "L \<subseteq> {card_lk}"
  shows "triple (hfc_inv cs dl L) (hfc_handle_state_interrupt cs fl) (hfc_inv cs dl L)"
  unfolding hfc_handle_state_interrupt_def Let_def by (rule triple assms triple_modify [where J = "hfc_inv cs dl L"] | simp)+

lemma triple_set_zaptel [triple]:
  "i < 3 \<Longrightarrow> length xs = cs \<Longrightarrow> triple (hfc_inv cs dl L) (set_zaptel_rx i xs) (hfc_inv cs dl L)"
  "i < 3 \<Longrightarrow> length xs = cs \<Longrightarrow> triple (hfc_inv cs dl L) (set_zaptel_tx i xs) (hfc_inv cs dl L)"
  unfolding set_zaptel_rx_def set_zaptel_tx_def by (rule triple_chan_set; auto simp: chan_ok_def)+

lemma triple_zap_transmit [triple]:
  assumes "i < 3" "2 * cs + 6 \<le> 512"
  shows "triple (hfc_inv cs dl L) (hfc_zap_transmit cs i) (hfc_inv cs dl L)"
  unfolding hfc_zap_transmit_def
proof (rule triple_chan_get [OF assms(1)], rule triple_on_tx [OF assms(1)])
  fix ch s m assume ch: "chan_ok cs i ch" and ok: "fifo_ok s m" and sz: "sz s = (if i = 0 then 512 else 7680)"
  have "int cs \<le> sz s" "int (2 * cs + 6) \<le> sz s" using assms(2) sz by auto
  moreover have "int cs \<le> int (length (zaptel_buffer (tx ch)))" using ch by (simp add: chan_ok_def)
  ultimately show "wp (hfc_fifo_put put_depth cs (status ch) (zaptel_buffer (tx ch)) (int cs)) (\<lambda>_. fifo_step (s, m)) (s, m)"
    unfolding put_depth_def numeral_2_eq_2 by (intro wp_put_step fifo_step_refl ok) simp_all
qed

lemma wp_buf [wp]:
  "wp (buf_store buf off xs) Q c \<longleftrightarrow> 0 \<le> off \<and> off + int (length xs) \<le> int (length buf) \<and>
     Q (take (nat off) buf @ xs @ drop (nat off + length xs) buf) c"
  "wp (buf_read buf off n) Q c \<longleftrightarrow> 0 \<le> off \<and> 0 \<le> n \<and> off + n \<le> int (length buf) \<and> Q (take (nat n) (drop (nat off) buf)) c"
  by (auto simp: buf_store_def buf_read_def wp)

lemma triple_buf:
  "0 \<le> off \<Longrightarrow> off + int (length xs) \<le> int (length buf) \<Longrightarrow>
    (\<And>b. length b = length buf \<Longrightarrow> triple I (f b) K) \<Longrightarrow> triple I (gbind (buf_store buf off xs) f) K"
  "0 \<le> off \<Longrightarrow> 0 \<le> n \<Longrightarrow> off + n \<le> int (length buf) \<Longrightarrow> (\<And>xs. triple I (g xs) K) \<Longrightarrow> triple I (gbind (buf_read buf off n) g) K"
  by (auto simp: triple_def wp)

lemma triple_zap_receive [triple]:
  assumes "i < 3" "2 * cs + 6 \<le> 512"
  shows "triple (hfc_inv cs dl L) (hfc_zap_receive cs i) (hfc_inv cs dl L)"
  unfolding hfc_zap_receive_def
proof (rule triple_gbind_res)
  fix c :: "'a hfc_card" assume "hfc_inv cs dl L c"
  then show "wp (on_rx i (hfc_fifo_get (int cs))) (\<lambda>x c'. hfc_inv cs dl L c' \<and> (\<forall>xs. snd x = Some xs \<longrightarrow> length xs = cs)) c"
  proof (rule triple_on_rx [OF assms(1), rotated])
    fix s m assume ok: "fifo_ok s m" and sz: "sz s = (if i = 0 then 512 else 7680)"
    have le: "int cs \<le> sz s" using assms(2) sz by auto
    have "wp (hfc_fifo_get (int cs)) (\<lambda>x _. \<forall>xs. snd x = Some xs \<longrightarrow> length xs = cs) (s, m)"
      by (simp add: wp_hfc_fifo_get [OF ok _ le])
    then show "wp (hfc_fifo_get (int cs)) (\<lambda>x t. fifo_step (s, m) t \<and> (\<forall>xs. snd x = Some xs \<longrightarrow> length xs = cs)) (s, m)"
      using wp_conj [OF wp_fifo_get_step [OF fifo_step_refl [OF ok refl] _ le]] by simp
  qed
next
  fix x :: "int \<times> u8 list option"
  assume x: "\<forall>xs. snd x = Some xs \<longrightarrow> length xs = cs"
  obtain r data where "x = (r, data)" by (rule prod.exhaust)
  with x show "triple (hfc_inv cs dl L) (case x of (r, data) \<Rightarrow> case data of None \<Rightarrow> ret ()
     | Some xs \<Rightarrow> gbind (chan_get i) (\<lambda>ch. gbind (buf_store (zaptel_buffer (rx ch)) 0 xs) (set_zaptel_rx i))) (hfc_inv cs dl L)"
    by (auto split: option.split intro!: triple triple_buf assms(1) simp: chan_ok_def)
qed

lemma hfc_inv_dahdi: "hfc_inv cs dl L c \<Longrightarrow> dl d = dl (dahdi c) \<Longrightarrow> hfc_inv cs dl L (c\<lparr>dahdi := d\<rparr>)"
  by (simp add: hfc_inv_def)

lemma wp_call_dahdi [wp]: "wp (call_dahdi f) Q c = Q (fst (f (dahdi c))) (c\<lparr>dahdi := snd (f (dahdi c))\<rparr>)"
  by (auto simp: call_dahdi_def wp_def Let_def split: prod.splits)

lemma triple_call_dahdi:
  assumes "\<And>d. dl (snd (f d)) = dl d"
  shows "triple (hfc_inv cs dl L) (call_dahdi f) (hfc_inv cs dl L)"
  using assms by (auto simp: triple_def wp hfc_inv_dahdi)

lemma triple_set_ugly:
  assumes "i < 3" "\<And>s. layout (f s) = layout s \<and> zaptel_buffer (f s) = zaptel_buffer s"
    and "\<And>ch. chan_ok cs i ch \<Longrightarrow> length (ugly_framebuf (f (rx ch))) = hfc_UGLY_FRAMEBUF \<and>
      uint (ugly_framebuf_off (f (rx ch))) \<le> ugly_framebuf_size (f (rx ch)) \<and>
      ugly_framebuf_size (f (rx ch)) \<le> int hfc_UGLY_FRAMEBUF"
  shows "triple (hfc_inv cs dl L) (set_ugly_rx i f) (hfc_inv cs dl L)"
  unfolding set_ugly_rx_def
  by (rule triple_chan_set) (use assms in \<open>auto simp: chan_ok_def\<close>)

lemma frame_size_result:
  assumes "i < 3" "hfc_inv cs dl L c"
  shows "wp (on_rx i hfc_fifo_get_frame_size) (\<lambda>r c'. hfc_inv cs dl L c' \<and> uint r \<le> 7680) c"
proof (rule triple_on_rx [OF assms(1) _ assms(2)])
  fix s m assume "fifo_ok s m" "sz s = (if i = 0 then 512 else 7680)"
  then show "wp hfc_fifo_get_frame_size (\<lambda>x t. fifo_step (s, m) t \<and> uint x \<le> 7680) (s, m)"
    by (intro wp_mono [OF fifo_reads(3)]) (auto split: if_splits)
qed

lemma get_frame_result:
  assumes "i < 3" "0 \<le> n" "hfc_inv cs dl L c"
  shows "wp (on_rx i (hfc_fifo_get_frame n)) (\<lambda>x c'. hfc_inv cs dl L c' \<and> (\<forall>xs. snd x = Some xs \<longrightarrow> int (length xs) \<le> n)) c"
proof (rule triple_on_rx [OF assms(1) _ assms(3)])
  fix s m assume ok: "fifo_ok s m"
  have "wp (hfc_fifo_get_frame n) (\<lambda>x _. \<forall>xs. snd x = Some xs \<longrightarrow> int (length xs) \<le> n) (s, m)"
    using assms(2) by (simp add: wp_get_frame [OF ok assms(2)] Let_def)
  then show "wp (hfc_fifo_get_frame n) (\<lambda>x t. fifo_step (s, m) t \<and> (\<forall>xs. snd x = Some xs \<longrightarrow> int (length xs) \<le> n)) (s, m)"
    using wp_conj [OF wp_get_frame_step [OF fifo_step_refl [OF ok refl] assms(2)]] by simp
qed

lemma triple_store_ugly:
  assumes "\<forall>xs. data = Some xs \<longrightarrow> length xs \<le> hfc_UGLY_FRAMEBUF"
    and "\<And>buf. length buf = hfc_UGLY_FRAMEBUF \<Longrightarrow> triple (hfc_inv cs dl L) (f buf) K"
  shows "triple (hfc_inv cs dl L) (gbind (store_ugly data) f) K"
proof (rule triple_gbind_res)
  fix c :: "'a hfc_card" assume inv: "hfc_inv cs dl L c"
  note ok = hfc_invD(1,2) [OF inv, of D]
  have "wp (set_ugly_rx D (\<lambda>s. s\<lparr>ugly_framebuf := buf\<rparr>)) (\<lambda>_. hfc_inv cs dl L) c" if "length buf = hfc_UGLY_FRAMEBUF" for buf
    by (rule tripleD [OF triple_set_ugly inv]) (use that in \<open>auto simp: chan_ok_def\<close>)
  then show "wp (store_ugly data) (\<lambda>buf c'. hfc_inv cs dl L c' \<and> length buf = hfc_UGLY_FRAMEBUF) c"
    using assms(1) inv ok by (cases data) (auto simp: store_ugly_def wp wp_fun chan_ok_def elim!: wp_mono)
qed (rule assms(2))

lemma wp_ugly_size:
  assumes "hfc_inv cs dl L c" "ugly_framebuf_size (rx (chans c ! D)) = 0" "0 \<le> n" "n \<le> int hfc_UGLY_FRAMEBUF"
  shows "wp (set_ugly_rx D (\<lambda>s. s\<lparr>ugly_framebuf_size := n\<rparr>)) (\<lambda>_. hfc_inv cs dl L) c"
proof -
  have ok: "chan_ok cs D (chans c ! D)" using assms(1) by (intro hfc_invD(2)) simp_all
  then have "uint (ugly_framebuf_off (rx (chans c ! D))) \<le> 0" using assms(2) by (simp add: chan_ok_def)
  with ok assms hfc_invD(1,3) [OF assms(1), of D] show ?thesis
    unfolding set_ugly_rx_def wp
    by (intro conjI hfc_inv_chan [OF assms(1)]) (auto simp: chan_ok_def hfc_inv_def)
qed

lemma wp_take_frame:
  assumes "hfc_inv cs dl L c" "ugly_framebuf_size (rx (chans c ! D)) = 0" "3 < fs" "fs \<le> 7680"
  shows "wp (take_frame fs) (\<lambda>_. hfc_inv cs dl L) c"
proof -
  have fits: "0 \<le> fs - 1" "fs - 1 \<le> int hfc_UGLY_FRAMEBUF" using assms(3,4) by (simp_all add: hfc_UGLY_FRAMEBUF_def)
  have "triple (hfc_inv cs dl L) (gbind (on_rx D (hfc_fifo_get_frame (fs - 1))) (\<lambda>(r, data). gbind (store_ugly data) (\<lambda>buf.
      if r = - 1 then dev_kfree_skb else gbind (buf_read buf 0 (fs - 3)) (\<lambda>_. ret ())))) (hfc_inv cs dl L)"
    by (rule triple_gbind_res [OF get_frame_result [OF _ fits(1)]], simp, assumption, clarsimp)
       (rule triple_store_ugly triple triple_buf(2) | use fits assms(3) in force)+
  from wp_mono [OF wp_ugly_size [OF assms(1,2) fits] tripleD [OF this]] show ?thesis
    by (simp add: take_frame_def wp_fun)
qed

lemma triple_receive_frame:
  assumes "i < 3" "3 < fs" "fs \<le> 7680"
  shows "triple (hfc_inv cs dl L) (receive_frame i fs) (hfc_inv cs dl L)"
proof (rule tripleI)
  fix c :: "'a hfc_card" assume inv: "hfc_inv cs dl L c"
  define c1 where "c1 = c\<lparr>skb_calls := skb_calls c + 1, skbs := (if skb_ok c (skb_calls c) then skbs c + 1 else skbs c)\<rparr>"
  have inv1: "hfc_inv cs dl L c1" using inv by (simp add: c1_def)
  have alloc: "wp alloc_skb Q c = Q (skb_ok c (skb_calls c)) c1" for Q
    by (simp add: alloc_skb_def wp_def Let_def c1_def)
  have other: "triple (hfc_inv cs dl L) (gbind (on_rx i (hfc_fifo_get_frame (fs - 3))) (\<lambda>(r, data).
         if r = - 1 then gthen dev_kfree_skb (ret True) else ret True)) (hfc_inv cs dl L)"
    by (rule triple_gbind_res [OF get_frame_result [OF assms(1)]], use assms(2) in simp, assumption, clarsimp)
       (intro conjI impI; (rule triple)+)
  have "ugly_framebuf_size (rx (chans c1 ! D)) = ugly_framebuf_size (rx (chans c ! D))" by (simp add: c1_def)
  then show "wp (receive_frame i fs) (\<lambda>_. hfc_inv cs dl L) c"
    using inv inv1 hfc_invD(1) [OF inv] assms(1) tripleD [OF other inv1] wp_take_frame [OF inv1 _ assms(2,3)]
      tripleD [OF triple_clear_rx(2) [OF assms(1)] inv1]
    by (simp add: receive_frame_def wp wp_fun alloc)
qed

lemma triple_frame_loop: "i < 3 \<Longrightarrow> triple (hfc_inv cs dl L) (frame_loop i n) (hfc_inv cs dl L)"
proof (induction n rule: less_induct)
  case (less n)
  have loop: "triple (hfc_inv cs dl L) (gbind (on_rx i hfc_fifo_get_frame_size) (\<lambda>sz. let frame_size = uint sz in
       if frame_size \<le> 3 then gthen (on_rx i hfc_fifo_drop_frame) (frame_loop i (n - 1))
       else gbind (receive_frame i frame_size) (\<lambda>continue.
         if continue then frame_loop i (n - 1) else ret (n - 1)))) (hfc_inv cs dl L)" if "n \<noteq> 0"
    unfolding Let_def
    by (rule triple_gbind_res [OF frame_size_result [OF less.prems]], assumption)
       (rule triple triple_gbind [OF triple_receive_frame] less.IH | use less.prems that in force)+
  show ?case
    by (subst frame_loop.simps)
       (rule triple_gbind [OF triple_clear_rx(3)] triple loop | use less.prems in force)+
qed

lemma triple_frame_arrived [triple]: "i < 3 \<Longrightarrow> triple (hfc_inv cs dl L) (hfc_frame_arrived i) (hfc_inv cs dl L)"
  unfolding hfc_frame_arrived_def by (rule triple triple_frame_loop | assumption)+

lemma dahdi_okD:
  assumes "dahdi_ok cs dl dh"
  shows "case fst (dahdi_transmit dh d) of (a, b, e) \<Rightarrow> length a = cs \<and> length b = cs \<and> length e = cs"
    "dl (snd (dahdi_transmit dh d)) = dl d"
    "length (fst (dahdi_ec_chunk dh i a b d)) = length a" "dl (snd (dahdi_ec_chunk dh i a b d)) = dl d"
    "dl (dahdi_hdlc_putbuf dh ch xs d) = dl d" "dl (dahdi_hdlc_finish dh ch d) = dl d" "dl (dahdi_receive dh bs d) = dl d"
    "dahdi_hdlc_getbuf dh ch n d = (r, buf, d') \<Longrightarrow> dl d + length buf \<le> 512 \<and>
       dl d' = (if r \<noteq> 0 \<and> buf \<noteq> [] then 0 else dl d + length buf)"
proof -
  have "case dahdi_transmit dh d of ((a, b, e), d') \<Rightarrow> length a = cs \<and> length b = cs \<and> length e = cs \<and> dl d' = dl d"
    using assms by (simp add: dahdi_ok_def)
  then show "case fst (dahdi_transmit dh d) of (a, b, e) \<Rightarrow> length a = cs \<and> length b = cs \<and> length e = cs"
    "dl (snd (dahdi_transmit dh d)) = dl d" by (auto split: prod.splits)
  have "case dahdi_ec_chunk dh i a b d of (r', d') \<Rightarrow> length r' = length a \<and> dl d' = dl d"
    using assms by (simp add: dahdi_ok_def)
  then show "length (fst (dahdi_ec_chunk dh i a b d)) = length a" "dl (snd (dahdi_ec_chunk dh i a b d)) = dl d"
    by (auto split: prod.splits)
  have "case dahdi_hdlc_getbuf dh ch n d of (r, b, d') \<Rightarrow> length b \<le> n \<and> dl d + length b \<le> 512 \<and>
        dl d' = (if r \<noteq> 0 \<and> b \<noteq> [] then 0 else dl d + length b)"
    using assms by (simp add: dahdi_ok_def)
  then show "dahdi_hdlc_getbuf dh ch n d = (r, buf, d') \<Longrightarrow> dl d + length buf \<le> 512 \<and>
       dl d' = (if r \<noteq> 0 \<and> buf \<noteq> [] then 0 else dl d + length buf)" by simp
qed (use assms in \<open>simp_all add: dahdi_ok_def\<close>)

lemma triple_dahdi_ec:
  assumes "dahdi_ok cs dl dh" "length a = cs" "i < 3"
  shows "triple (hfc_inv cs dl L) (gbind (call_dahdi (dahdi_ec_chunk dh i a b)) (set_zaptel_rx i)) (hfc_inv cs dl L)"
proof (rule triple_gbind_res)
  fix c :: "'a hfc_card" assume "hfc_inv cs dl L c"
  then show "wp (call_dahdi (dahdi_ec_chunk dh i a b)) (\<lambda>x c'. hfc_inv cs dl L c' \<and> length x = cs) c"
    using assms by (simp add: wp dahdi_okD hfc_inv_dahdi)
qed (rule triple | use assms in simp)+

lemma triple_echo_cancel [triple]:
  assumes "dahdi_ok cs dl dh" "i < 3"
  shows "triple (hfc_inv cs dl L) (echo_cancel dh i) (hfc_inv cs dl L)"
  unfolding echo_cancel_def
  by (rule triple_chan_get [OF assms(2)], rule triple_dahdi_ec [OF assms(1) _ assms(2)]) (simp add: chan_ok_def)

lemma triple_voice_receive [triple]:
  assumes "i < 3" "2 * cs + 6 \<le> 512"
  shows "triple (hfc_inv cs dl L) (voice_receive cs i b) (hfc_inv cs dl L)"
  unfolding voice_receive_def by (rule triple assms | simp)+

lemma triple_voice_transmit [triple]:
  assumes "dahdi_ok cs dl dh" "2 * cs + 6 \<le> 512"
  shows "triple (hfc_inv cs dl L) (voice_transmit cs dh) (hfc_inv cs dl L)"
  unfolding voice_transmit_def
proof (rule triple_gbind_res)
  fix c :: "'a hfc_card" assume "hfc_inv cs dl L c"
  then show "wp (call_dahdi (dahdi_transmit dh))
      (\<lambda>x c'. hfc_inv cs dl L c' \<and> (case x of (a, b, e) \<Rightarrow> length a = cs \<and> length b = cs \<and> length e = cs)) c"
    using dahdi_okD(1,2) [OF assms(1)] by (simp add: wp hfc_inv_dahdi)
next
  fix x :: "u8 list \<times> u8 list \<times> u8 list"
  assume x: "case x of (a, b, e) \<Rightarrow> length a = cs \<and> length b = cs \<and> length e = cs"
  obtain a b e where eq: "x = (a, b, e)" by (cases x)
  with x have len: "length a = cs" "length b = cs" "length e = cs" by simp_all
  show "triple (hfc_inv cs dl L) (case x of (d, b1, b2) \<Rightarrow> gthen (set_zaptel_tx D d) (gthen (set_zaptel_tx B1 b1)
      (gthen (set_zaptel_tx B2 b2) (gbind (reg fifo_en) (\<lambda>e.
        gthen (if e AND hfc_FIFOEN_B1TX \<noteq> 0 then hfc_zap_transmit cs B1 else ret ())
              (if e AND hfc_FIFOEN_B2TX \<noteq> 0 then hfc_zap_transmit cs B2 else ret ())))))) (hfc_inv cs dl L)"
    unfolding eq prod.case by (rule triple assms(2) len chan_nums)+
qed


section \<open>Frames\<close>

lemma hfc_inv_bound:
  "hfc_inv cs dl L c \<Longrightarrow> ugly_framebuf_size (tx (chans c ! D)) \<le> int (dl' (dahdi c)) \<Longrightarrow> hfc_inv cs dl' L c"
  by (simp add: hfc_inv_def)

lemma triple_put_frame:
  assumes "2 * cs + 6 \<le> 512" "0 \<le> n" "n \<le> 512" "n \<le> int (length data)"
  shows "triple (hfc_inv cs dl L) (on_tx D (hfc_fifo_put_frame put_depth cs st data n)) (hfc_inv cs dl L)"
proof (rule triple_on_tx)
  fix s m assume ok: "fifo_ok s m" and sz: "sz s = (if D = 0 then 512 else 7680)"
  have "int (2 * cs + 6) \<le> sz s" "call_ok (sz s) (C_put_frame data n)" using assms sz by (auto simp: D_def)
  from wp_fifo_call [OF fifo_step_refl [OF ok refl] this(2,1), of st]
  show "wp (hfc_fifo_put_frame put_depth cs st data n) (\<lambda>_. fifo_step (s, m)) (s, m)"
    by (simp add: put_depth_def)
qed simp

text \<open>A frame is complete in the buffer of the D channel: it goes to the FIFO, and the buffer is empty then.\<close>

lemma triple_ugly_empty:
  "triple (hfc_inv cs (\<lambda>_. n) L) (chan_set D (\<lambda>d. d\<lparr>tx := (tx d)\<lparr>ugly_framebuf_size := 0\<rparr>\<rparr>)) (hfc_inv cs (\<lambda>_. 0) L)"
proof (rule tripleI)
  fix c :: "'a hfc_card" assume inv: "hfc_inv cs (\<lambda>_. n) L c"
  have "triple (hfc_inv cs (\<lambda>_. n) L) (chan_set D (\<lambda>d. d\<lparr>tx := (tx d)\<lparr>ugly_framebuf_size := 0\<rparr>\<rparr>)) (hfc_inv cs (\<lambda>_. n) L)"
    by (rule triple_chan_set) (auto simp: chan_ok_def)
  from tripleD [OF this inv] hfc_invD(1) [OF inv, of D]
  show "wp (chan_set D (\<lambda>d. d\<lparr>tx := (tx d)\<lparr>ugly_framebuf_size := 0\<rparr>\<rparr>)) (\<lambda>_. hfc_inv cs (\<lambda>_. 0) L) c"
    by (simp add: wp) (erule hfc_inv_bound, simp)
qed

lemma triple_send_frame:
  assumes "2 * cs + 6 \<le> 512" "n \<le> 512"
  shows "triple (hfc_inv cs (\<lambda>_. n) L) (send_d_frame cs) (hfc_inv cs dl L)"
  unfolding send_d_frame_def
proof (rule triple_gbind_res)
  fix c :: "'a hfc_card" assume inv: "hfc_inv cs (\<lambda>_. n) L c"
  then show "wp (chan_get D) (\<lambda>d c'. hfc_inv cs (\<lambda>_. n) L c' \<and> 0 \<le> ugly_framebuf_size (tx d) \<and>
      ugly_framebuf_size (tx d) \<le> int n \<and> length (ugly_framebuf (tx d)) = hfc_UGLY_FRAMEBUF) c"
    using hfc_invD(1,2) [OF inv, of D] by (simp add: wp chan_ok_def hfc_inv_def)
next
  fix d assume d: "0 \<le> ugly_framebuf_size (tx d) \<and> ugly_framebuf_size (tx d) \<le> int n \<and> length (ugly_framebuf (tx d)) = hfc_UGLY_FRAMEBUF"
  have last: "triple (hfc_inv cs (\<lambda>_. 0) L) (ztdev_upd g) (hfc_inv cs dl L)" for g
    by (rule triple_conv [OF triple_ztdev(1)]) (auto elim!: hfc_inv_bound simp: hfc_inv_def)
  have put: "triple (hfc_inv cs (\<lambda>_. n) L) (on_tx D (hfc_fifo_put_frame put_depth cs (status d) (ugly_framebuf (tx d)) (ugly_framebuf_size (tx d))))
      (hfc_inv cs (\<lambda>_. n) L)"
    by (rule triple_put_frame) (use d assms in \<open>auto simp: hfc_UGLY_FRAMEBUF_def\<close>)
  show "triple (hfc_inv cs (\<lambda>_. n) L)
      (gthen (on_tx D (hfc_fifo_put_frame put_depth cs (status d) (ugly_framebuf (tx d)) (ugly_framebuf_size (tx d))))
      (gthen (ztdev_upd (\<lambda>h. h\<lparr>frames_out := frames_out h + 1, sigactive := 0\<rparr>))
      (gthen (chan_set D (\<lambda>d. d\<lparr>tx := (tx d)\<lparr>ugly_framebuf_size := 0\<rparr>\<rparr>))
             (ztdev_upd (\<lambda>h. h\<lparr>hdlc_pending := hdlc_pending h - 1\<rparr>))))) (hfc_inv cs dl L)"
    by (rule triple_gthen put triple_ugly_empty last triple_ztdev(1))+
qed

lemma append_frame:
  assumes inv: "hfc_inv cs dl L c" and len: "dl (dahdi c) + length buf \<le> 512"
  shows "ugly_framebuf_size (tx (chans c ! D)) + int (length buf) \<le> 512" "0 \<le> ugly_framebuf_size (tx (chans c ! D))"
    "length (ugly_framebuf (tx (chans c ! D))) = hfc_UGLY_FRAMEBUF"
    "length ub = hfc_UGLY_FRAMEBUF \<Longrightarrow> hfc_inv cs (\<lambda>_. dl (dahdi c) + length buf) L (c\<lparr>dahdi := d', ztdev := Some h,
       chans := (chans c)[D := (chans c ! D)\<lparr>tx := (tx (chans c ! D))\<lparr>ugly_framebuf := ub,
         ugly_framebuf_size := ugly_framebuf_size (tx (chans c ! D)) + int (length buf)\<rparr>\<rparr>]\<rparr>)"
proof -
  have sz: "ugly_framebuf_size (tx (chans c ! D)) \<le> int (dl (dahdi c))" using inv by (simp add: hfc_inv_def)
  note ok = hfc_invD(1-3) [OF inv, of D]
  then show ge: "0 \<le> ugly_framebuf_size (tx (chans c ! D))" and "length (ugly_framebuf (tx (chans c ! D))) = hfc_UGLY_FRAMEBUF"
    by (simp_all add: chan_ok_def)
  show "ugly_framebuf_size (tx (chans c ! D)) + int (length buf) \<le> 512" using sz len by linarith
  assume ub: "length ub = hfc_UGLY_FRAMEBUF"
  have "hfc_inv cs (\<lambda>_. dl (dahdi c) + length buf) L c" using sz by (intro hfc_inv_bound [OF inv]) simp
  then have "hfc_inv cs (\<lambda>_. dl (dahdi c) + length buf) L (c\<lparr>chans := (chans c)[D := (chans c ! D)\<lparr>tx := (tx (chans c ! D))\<lparr>ugly_framebuf := ub,
         ugly_framebuf_size := ugly_framebuf_size (tx (chans c ! D)) + int (length buf)\<rparr>\<rparr>]\<rparr>)"
    using ok ub ge sz by (intro hfc_inv_chan) (auto simp: chan_ok_def)
  then show "hfc_inv cs (\<lambda>_. dl (dahdi c) + length buf) L (c\<lparr>dahdi := d', ztdev := Some h,
       chans := (chans c)[D := (chans c ! D)\<lparr>tx := (tx (chans c ! D))\<lparr>ugly_framebuf := ub,
         ugly_framebuf_size := ugly_framebuf_size (tx (chans c ! D)) + int (length buf)\<rparr>\<rparr>]\<rparr>)"
    using sz by (simp add: hfc_inv_def)
qed

lemma triple_hdlc_transmit [triple]:
  assumes "dahdi_ok cs dl dh" "2 * cs + 6 \<le> 512"
  shows "triple (hfc_inv cs dl L) (hdlc_transmit cs dh) (hfc_inv cs dl L)"
proof -
  have get: "triple (hfc_inv cs dl L)
     (gbind (call_dahdi (\<lambda>d. case dahdi_hdlc_getbuf dh (sigchan h) hfc_HDLC_BUF_LEN d of (r, b, d) \<Rightarrow> ((r, b), d))) (\<lambda>(res, buf).
        if buf = [] then ret ()
        else gthen (ztdev_upd (\<lambda>h. h\<lparr>sigactive := 1\<rparr>))
          (gbind (chan_get D) (\<lambda>d. gbind (buf_store (ugly_framebuf (tx d)) (ugly_framebuf_size (tx d)) buf) (\<lambda>ubuf.
           gthen (chan_set D (\<lambda>d. d\<lparr>tx := (tx d)\<lparr>ugly_framebuf := ubuf,
               ugly_framebuf_size := ugly_framebuf_size (tx d) + int (length buf)\<rparr>\<rparr>))
           (if res = 0 then ret ()
            else send_d_frame cs))))))
     (hfc_inv cs dl L)" for h
  proof (rule tripleI, goal_cases)
    case (1 c)
    obtain res buf d' where g: "dahdi_hdlc_getbuf dh (sigchan h) hfc_HDLC_BUF_LEN (dahdi c) = (res, buf, d')" by (rule prod_cases3)
    note dl = dahdi_okD(8) [OF assms(1) g]
    note ap = append_frame [OF 1, of buf]
    have "length (chans c) = 3" "ztdev c \<noteq> None" using 1 by (simp_all add: hfc_inv_def)
    moreover have "wp (send_d_frame cs) (\<lambda>_. hfc_inv cs dl L) c'"
      if "hfc_inv cs (\<lambda>_. dl (dahdi c) + length buf) L c'" for c'
      using tripleD [OF triple_send_frame [OF assms(2)] that] dl by simp
    moreover have "hfc_inv cs dl L c'"
      if "hfc_inv cs (\<lambda>_. dl (dahdi c) + length buf) L c'" "dl (dahdi c') = dl (dahdi c) + length buf" for c'
      using that by (simp add: hfc_inv_def)
    ultimately show ?case
      using 1 dl ap by (auto simp: wp g D_def hfc_UGLY_FRAMEBUF_def intro: hfc_inv_dahdi)
  qed
  show ?thesis unfolding hdlc_transmit_def by (rule triple get)+
qed


section \<open>The interrupt handler\<close>

lemma triple_call_dahdi_unit:
  assumes "\<And>d. dl (f d) = dl d"
  shows "triple (hfc_inv cs dl L) (call_dahdi (\<lambda>d. ((), f d))) (hfc_inv cs dl L)"
  using assms by (intro triple_call_dahdi) simp

lemma hfc_inv_ugly_rx:
  assumes "hfc_inv cs dl L c" "dl d = dl (dahdi c)" "layout s = layout (rx (chans c ! D))"
    and "zaptel_buffer s = zaptel_buffer (rx (chans c ! D))" "ugly_framebuf s = ugly_framebuf (rx (chans c ! D))"
    and "uint (ugly_framebuf_off s) \<le> ugly_framebuf_size s" "ugly_framebuf_size s \<le> int hfc_UGLY_FRAMEBUF"
  shows "hfc_inv cs dl L (c\<lparr>dahdi := d, chans := (chans c)[D := (chans c ! D)\<lparr>rx := s\<rparr>]\<rparr>)"
proof -
  have inv: "hfc_inv cs dl L (c\<lparr>dahdi := d\<rparr>)" by (rule hfc_inv_dahdi [OF assms(1,2)])
  then have "ugly_framebuf_size (tx (chans c ! D)) \<le> int (dl d)" by (simp add: hfc_inv_def)
  with hfc_inv_chan [OF inv, of D "(chans c ! D)\<lparr>rx := s\<rparr>" L] hfc_invD(2,3) [OF assms(1), of D] assms(3-)
  show ?thesis by (simp add: chan_ok_def)
qed

text \<open>The next piece of a received frame for DAHDI, or its last one.\<close>

lemma triple_deliver:
  assumes "dahdi_ok cs dl dh"
  shows "triple (hfc_inv cs dl L) (deliver_frame dh sig) (hfc_inv cs dl L)"
proof (rule tripleI)
  fix c :: "'a hfc_card" assume inv: "hfc_inv cs dl L c"
  define s where "s = rx (chans c ! D)"
  have ok: "length (ugly_framebuf s) = hfc_UGLY_FRAMEBUF" "uint (ugly_framebuf_off s) \<le> ugly_framebuf_size s"
    "ugly_framebuf_size s \<le> int hfc_UGLY_FRAMEBUF" "D < length (chans c)"
    using hfc_invD(1,2) [OF inv, of D] by (simp_all add: chan_ok_def s_def)
  have off: "uint (to_u16 (uint (ugly_framebuf_off s) + int hfc_HDLC_BUF_LEN)) = uint (ugly_framebuf_off s) + int hfc_HDLC_BUF_LEN"
    if "ugly_framebuf_size s - uint (ugly_framebuf_off s) > int hfc_HDLC_BUF_LEN"
    using that ok(3) uint_nonnegative [of "ugly_framebuf_off s"] by (intro uint_to_u16) (simp_all add: hfc_UGLY_FRAMEBUF_def)
  note put = hfc_inv_ugly_rx [OF inv, folded s_def, OF _ layout_upd(4)]
  note fin = hfc_inv_ugly_rx [OF inv, folded s_def, where s = "s\<lparr>ugly_framebuf_size := 0, ugly_framebuf_off := 0\<rparr>"]
  show "wp (deliver_frame dh sig) (\<lambda>_. hfc_inv cs dl L) c"
    using inv ok off uint_nonnegative [of "ugly_framebuf_off s"]
    by (auto simp: wp deliver_frame_def set_ugly_rx_def Let_def dahdi_okD(5,6) [OF assms] s_def [symmetric] intro!: put fin)
qed

lemma triple_hdlc_receive [triple]:
  assumes "dahdi_ok cs dl dh"
  shows "triple (hfc_inv cs dl L) (hdlc_receive dh) (hfc_inv cs dl L)"
  unfolding hdlc_receive_def
  by (rule triple_deliver triple_gbind [OF triple_clear_rx(3)] triple assms chan_nums)+

lemma triple_handle_voice [triple]:
  assumes "dahdi_ok cs dl dh" "2 * cs + 6 \<le> 512"
  shows "triple (hfc_inv cs dl L) (hfc_handle_voice cs dh) (hfc_inv cs dl L)"
  unfolding hfc_handle_voice_def
  by (rule triple triple_call_dahdi_unit dahdi_okD(7) assms chan_nums)+

lemma triple_processing [triple]:
  assumes "dahdi_ok cs dl dh" "2 * cs + 6 \<le> 512"
  shows "triple (hfc_inv cs dl L) (hfc_handle_processing_interrupt cs dh) (hfc_inv cs dl L)"
proof -
  have used: "triple (hfc_inv cs dl L) (gbind (on_rx i hfc_fifo_used_rx) (\<lambda>u. ret (uint u))) (hfc_inv cs dl L)" if "i < 3" for i
    by (rule triple_gbind [OF triple_clear_rx(4)] triple that)+
  have avail: "triple (hfc_inv cs dl L) (if b then gbind (on_rx i hfc_fifo_used_rx) (\<lambda>u. ret (uint u)) else ret k) (hfc_inv cs dl L)"
    if "i < 3" for b i k
    by (rule triple used that)+
  show ?thesis
    unfolding hfc_handle_processing_interrupt_def
    by (rule triple triple_gbind [OF avail] assms chan_nums triple_modify [where J = "hfc_inv cs dl L"] | simp)+
qed

lemma triple_int [triple]:
  assumes "dahdi_ok cs dl dh" "2 * cs + 6 \<le> 512" "L \<subseteq> {card_lk}"
  shows "triple (hfc_inv cs dl L) (int_s1 cs fl s1) (hfc_inv cs dl L)" "triple (hfc_inv cs dl L) (int_s2 cs dh s2) (hfc_inv cs dl L)"
  unfolding int_s1_def int_s2_def
  by (rule triple assms chan_nums triple_modify [where J = "hfc_inv cs dl L"] | simp)+

lemma triple_interrupt [triple]:
  assumes "dahdi_ok cs dl dh" "2 * cs + 6 \<le> 512"
  shows "triple (hfc_inv cs dl {}) (hfc_interrupt cs fl dh) (hfc_inv cs dl {})"
proof -
  have lock: "triple (hfc_inv cs dl {}) (modify (\<lambda>c. c\<lparr>card_lock := True\<rparr>)) (hfc_inv cs dl {card_lk})"
    and unlock: "triple (hfc_inv cs dl {card_lk}) (modify (\<lambda>c. c\<lparr>card_lock := False\<rparr>)) (hfc_inv cs dl {})"
    by (rule triple_modify, auto simp: hfc_inv_def)+
  have free: "\<not> card_lock c" if "hfc_inv cs dl {} c" for c using that by (simp add: hfc_inv_def)
  show ?thesis
    unfolding hfc_interrupt_def
    by (rule triple_gets, simp only: free if_False) (rule lock unlock triple assms order_refl)+
qed

end
