(* ===== verification/Hfc_Props.thy ===== *)
theory Hfc_Props
  imports Hfc_Card_Proofs
begin

unbundle bit_operations_syntax

text \<open>
  What the HFC-S PCI driver guarantees: the layout of its FIFOs, the B channels as queues of bytes and the D
  channel as a queue of frames, safety of every sequence of its entry points, and the outcomes of
  probing a card; and where it does not do what it means to.
\<close>


section \<open>A card to evaluate on\<close>

text \<open>Memory in which every FIFO is empty and its counters are in range, and a card with it.\<close>

definition demo_fifos :: fmem where
  "demo_fifos x = (if x \<in> {0x60A0, 0x60A1, 0x20A0, 0x20A1} then 0x10
     else if 0x60C0 \<le> x \<and> x < 0x6100 \<or> 0x20C0 \<le> x \<and> x < 0x2100 then 0 else 2)"

lemma fifo_ok_uniform:
  assumes "fifo_wf s" "f_in s (m (f1_ptr s))" "f_in s (m (f2_ptr s))"
    and "\<And>x. x \<in> z_area s \<Longrightarrow> m x = v" "z_in s (to_u16 (uint v + 256 * uint v))"
  shows "fifo_ok s m"
proof -
  have z: "m (z1_base s + uint f * 4 + k) = v" if "f_in s f" "0 \<le> k" "k < 4" for f k
    using z_cell_area [OF assms(1) that(1)] that(2,3) by (intro assms(4)) auto
  have "Z1 s m f = to_u16 (uint v + 256 * uint v)" "Z2 s m f = to_u16 (uint v + 256 * uint v)" if "f_in s f" for f
    using z [OF that, of 0] z [OF that, of 1] z [OF that, of 2] z [OF that, of 3] wf_z2 [OF assms(1)]
    by (simp_all add: Z1_def Z2_def u16_at_def algebra_simps)
  with assms show ?thesis by (simp add: fifo_ok_def F1_def F2_def)
qed

lemma demo_fifos_B: "x < 0x20A0 \<or> 0x2100 \<le> x \<and> x < 0x60A0 \<or> 0x6100 \<le> x \<Longrightarrow> demo_fifos x = 2"
  by (auto simp: demo_fifos_def)

lemma demo_ok_B1: "fifo_ok (the_rx 1) demo_fifos" "fifo_ok (the_tx 1) demo_fifos"
  by (rule fifo_ok_uniform [where v = 2]; (simp add: layout_wf; fail |
      simp add: the_layout f_in_def z_in_def z_area_def uint_to_u16 demo_fifos_B))+

lemma demo_ok_B2: "fifo_ok (the_rx 2) demo_fifos" "fifo_ok (the_tx 2) demo_fifos"
  by (rule fifo_ok_uniform [where v = 2]; (simp add: layout_wf; fail |
      simp add: the_layout f_in_def z_in_def z_area_def uint_to_u16 demo_fifos_B))+

lemma demo_ok_D:
  assumes "s \<in> {the_rx 0, the_tx 0}"
  shows "fifo_ok s demo_fifos"
proof (rule fifo_ok_uniform [where v = 0])
  show "fifo_wf s" using assms layout_wf [of 0] by auto
qed (use assms in \<open>auto simp: the_layout f_in_def z_in_def demo_fifos_def z_area_def uint_to_u16\<close>)

lemma demo_fifos_ok: "fifos_ok demo_fifos"
  unfolding fifos_ok_def less_3 by (auto simp del: One_nat_def intro: demo_ok_B1 demo_ok_B2 demo_ok_D)

definition demo_card :: "(int \<Rightarrow> nat \<Rightarrow> u8) \<Rightarrow> nat hfc_card" where
  "demo_card ins = (hfc_new_card 8 0 False (fst (snd (hfc_zap_initialize 0 0 False))) ins (\<lambda>_. True) 0)\<lparr>fifos := demo_fifos\<rparr>"

text \<open>DAHDI with silence to send, and a frame of one byte after another.\<close>

definition demo_dahdi :: "nat dahdi_ops" where
  "demo_dahdi = \<lparr>dahdi_transmit = (\<lambda>d. ((replicate 8 0, replicate 8 0, replicate 8 0), d)),
     dahdi_hdlc_getbuf = (\<lambda>ch n d. if n = 0 then (1, [], d) else (1, [7], 0)), dahdi_hdlc_putbuf = (\<lambda>ch xs d. d),
     dahdi_hdlc_finish = (\<lambda>ch d. d), dahdi_ec_chunk = (\<lambda>i r t d. (r, d)), dahdi_receive = (\<lambda>bs d. d)\<rparr>"

lemma demo_inv: "hfc_inv 8 (\<lambda>_. 0) {} (demo_card ins)"
  by (auto simp: hfc_inv_def demo_card_def hfc_new_card_def demo_fifos_ok less_3 chan_ok_def hfc_chans_def
      hfc_duplex_def the_rx_def the_tx_def chan_numbers)
     (simp_all add: layout_def statics_def hfc_layout)

lemma demo_dahdi_ok: "dahdi_ok 8 (\<lambda>_. 0) demo_dahdi"
  by (simp add: dahdi_ok_def demo_dahdi_def)


section \<open>The FIFOs\<close>

definition hfc_fifos :: "nat \<Rightarrow> hfc_chan_simplex list" where
  "hfc_fifos cs = map rx (hfc_chans cs) @ map tx (hfc_chans cs)"

lemma hfc_fifos_layout: "map layout (hfc_fifos cs) = map layout (map the_rx [0..<3] @ map the_tx [0..<3])"
  by (simp add: hfc_fifos_def hfc_chans_def the_rx_def the_tx_def upt_rec hfc_duplex_def hfc_layout)
     (simp add: layout_def statics_def)

text \<open>
  C22. The six FIFOs hfc_probe lays out are well-formed (their data, their position and frame counters lie inside the 32 KiB of the
  shared memory and do not overlap within a FIFO), and no two of them share a byte.
\<close>

theorem hfc_fifo_layout:
  "list_all (\<lambda>s. fifo_wf s \<and> fifo_area s \<subseteq> {0..<hfc_FIFO_SIZE}) (hfc_fifos cs) \<and>
   sorted_wrt (\<lambda>a b. fifo_area a \<inter> fifo_area b = {}) (hfc_fifos cs)"
proof -
  let ?six = "map the_rx [0..<3] @ map the_tx [0..<3]"
  have cong: "list_all P xs = list_all P ys" "sorted_wrt R xs = sorted_wrt R ys"
    if "map layout xs = map layout ys" "\<And>s. P (layout s) = P s" "\<And>a b. R (layout a) (layout b) = R a b" for P R xs ys
  proof -
    have "list_all P (map layout xs) = list_all P (map layout ys)" "sorted_wrt R (map layout xs) = sorted_wrt R (map layout ys)"
      by (simp_all only: that(1))
    with that(2,3) show "list_all P xs = list_all P ys" "sorted_wrt R xs = sorted_wrt R ys"
      by (simp_all add: list_all_iff sorted_wrt_map)
  qed
  have inside: "fifo_wf s \<Longrightarrow> fifo_area s \<subseteq> {0..<hfc_FIFO_SIZE}" for s by (simp add: fifo_wf_def)
  have "list_all (\<lambda>s. fifo_wf s \<and> fifo_area s \<subseteq> {0..<hfc_FIFO_SIZE}) ?six"
    by (simp add: upt_rec layout_wf inside)
  moreover have "sorted_wrt (\<lambda>a b. fifo_area a \<inter> fifo_area b = {}) ?six"
    by (simp add: upt_rec areas_disjoint)
  ultimately show ?thesis
    using cong [OF hfc_fifos_layout, of "\<lambda>s. fifo_wf s \<and> fifo_area s \<subseteq> {0..<hfc_FIFO_SIZE}" "\<lambda>a b. fifo_area a \<inter> fifo_area b = {}"]
    by (simp add: layout_fifo)
qed

text \<open>
  C20. A FIFO in transparent mode (a B channel) is a queue of bytes: as long as a sequence of hfc_fifo_put and hfc_fifo_get
  calls never fills the queue to the brim and never asks for more than is there, the bytes got are those put, in order, whatever
  their number and wherever the positions wrap around, and what is left in the FIFO is what is left in the queue.
\<close>

theorem hfc_fifo_is_byte_queue:
  assumes "fifo_ok ch m" "F1 ch m = F2 ch m"
    and "queue_run (nat (uint (fifo_size ch))) ps (rx_content ch m) = Some (out, q)"
  shows "wp (run_fifo (fifo_put_all cs st) fifo_get_data ps)
     (\<lambda>r (ch', m'). r = out \<and> fifo_ok ch' m' \<and> F1 ch' m' = F2 ch' m' \<and> rx_content ch' m' = q) (ch, m)"
  using hfcq.refines_queue [of "(ch, m)" ps out q cs st] assms
  by (auto elim!: wp_mono simp: transparent_def fifo_content_def fifo_cap_def split: prod.splits)

theorem hfc_fifo_is_byte_queue_witness:
  "wp (run_fifo (fifo_put_all 8 open_voice) fifo_get_data [Put [1, 2, 3], Get 2, Put [4], Get 2])
     (\<lambda>r (ch', m'). r = [[1, 2], [3, 4]] \<and> fifo_ok ch' m' \<and> F1 ch' m' = F2 ch' m' \<and> rx_content ch' m' = []) (the_tx 1, demo_fifos)"
proof (rule hfc_fifo_is_byte_queue)
  have F: "F1 (the_tx 1) demo_fifos = F2 (the_tx 1) demo_fifos"
    by (simp add: F1_def F2_def the_layout demo_fifos_B)
  have z: "Z1 (the_tx 1) demo_fifos (F2 (the_tx 1) demo_fifos) = Z2 (the_tx 1) demo_fifos (F2 (the_tx 1) demo_fifos)"
    by (simp add: Z1_def Z2_def F2_def the_layout u16_at_def demo_fifos_B)
  have "rx_used (the_tx 1) demo_fifos = 0" unfolding rx_used_def z by simp
  then have "rx_content (the_tx 1) demo_fifos = []" by (simp add: rx_content_def ring_bytes_def)
  with layout_sizes(2) [of 1] show "queue_run (nat (uint (fifo_size (the_tx 1)))) [Put [1, 2, 3], Get 2, Put [4], Get 2]
      (rx_content (the_tx 1) demo_fifos) = Some ([[1, 2], [3, 4]], [])" by simp
  show "fifo_ok (the_tx 1) demo_fifos" "F1 (the_tx 1) demo_fifos = F2 (the_tx 1) demo_fifos"
    using demo_ok_B1(2) F by simp_all
qed

text \<open>Reading frames, and the queue of frames it should be.\<close>

primrec get_frames :: "int list \<Rightarrow> (int \<times> u8 list option) list fm" where
  "get_frames [] = ret []"
| "get_frames (n # ns) = gbind (hfc_fifo_get_frame n) (\<lambda>r. gbind (get_frames ns) (\<lambda>rs. ret (r # rs)))"

fun frame_queue :: "int list \<Rightarrow> u8 list list \<Rightarrow> (int \<times> u8 list option) list \<times> u8 list list" where
  "frame_queue [] fs = ([], fs)"
| "frame_queue (n # ns) [] = (let (rs, fs) = frame_queue ns [] in ((- 1, None) # rs, fs))"
| "frame_queue (n # ns) (f # fs) = (let (rs, gs) = frame_queue ns fs in
     ((if last f \<noteq> 0 then - 1 else int (length f), Some (take (nat n) f)) # rs, gs))"

lemma frame_queue_Cons: "frame_queue (n # ns) [] = ((- 1, None) # fst (frame_queue ns []), snd (frame_queue ns []))"
  "frame_queue (n # ns) (f # fs) = ((if last f \<noteq> 0 then - 1 else int (length f), Some (take (nat n) f)) # fst (frame_queue ns fs),
     snd (frame_queue ns fs))"
  by (simp_all add: split_def Let_def)

lemma wp_get_frame_queue:
  assumes "fifo_ok ch m" "0 \<le> n"
  shows "wp (hfc_fifo_get_frame n) (\<lambda>r (ch', m'). fifo_ok ch' m' \<and>
     (\<forall>ns. frame_queue (n # ns) (rx_frames ch m) = (r # fst (frame_queue ns (rx_frames ch' m')), snd (frame_queue ns (rx_frames ch' m'))))) (ch, m)"
proof (cases "F1 ch m = F2 ch m")
  case True
  then show ?thesis using assms rx_frames_Nil [OF assms(1)] by (simp add: wp_get_frame [OF assms] frame_queue_Cons del: frame_queue.simps)
next
  case False
  have ok: "fifo_ok ch (next_frame_mem ch m)"
    using fifo_step_next_frame [OF fifo_step_refl [OF assms(1) refl]] by (simp add: fifo_step_def)
  have len: "int (length (ring_bytes ch m (uint (Z2 ch m (F2 ch m))) (rx_used ch m + 1))) = rx_used ch m + 1"
    using used_range(1) [OF fifo_okD(1) [OF assms(1)], of m] by simp
  have ch': "fifo_ok ch' (next_frame_mem ch m) \<and> rx_frames ch' (next_frame_mem ch m) = rx_frames ch (next_frame_mem ch m)"
    if "statics ch' = statics ch" for ch'
    using statics_cong(1) [OF that] ok rx_frames_cong [OF that ok] by simp
  show ?thesis
    using False ch' [of "ch\<lparr>bytes := bytes ch + to_u64 (rx_used ch m), crc := crc ch + 1\<rparr>"]
      ch' [of "ch\<lparr>bytes := bytes ch + to_u64 (rx_used ch m), frames := frames ch + 1\<rparr>"] last_frame_byte [OF fifo_okD(1) [OF assms(1)]] len
    by (simp add: wp_get_frame [OF assms] rx_frames_next [OF assms(1) False] frame_queue_Cons Let_def del: frame_queue.simps)
qed

text \<open>
  C21. The receiving side of a channel in HDLC mode is a queue of frames: each call of hfc_fifo_get_frame answers for the frame
  that arrived first, which is removed whatever happens: its length and as many of its bytes as the caller takes when the
  card found its checksum right, -1 (after the bytes are stored) when it did not, and -1 when there is no frame.
\<close>

theorem hfc_rx_is_frame_queue:
  assumes "fifo_ok ch m" "list_all (\<lambda>n. 0 \<le> n) ns"
  shows "wp (get_frames ns) (\<lambda>rs (ch', m'). (rs, rx_frames ch' m') = frame_queue ns (rx_frames ch m) \<and> fifo_ok ch' m') (ch, m)"
  using assms
proof (induction ns arbitrary: ch m)
  case (Cons n ns)
  have rest: "wp (get_frames ns) (\<lambda>rs (ch', m'). (r # rs, rx_frames ch' m') = frame_queue (n # ns) (rx_frames ch m) \<and> fifo_ok ch' m') t"
    if "case t of (ch', m') \<Rightarrow> fifo_ok ch' m' \<and>
     (\<forall>ns. frame_queue (n # ns) (rx_frames ch m) = (r # fst (frame_queue ns (rx_frames ch' m')), snd (frame_queue ns (rx_frames ch' m'))))"
    for r t
    using that Cons.prems Cons.IH [of "fst t" "snd t"]
    by (auto simp del: frame_queue.simps elim!: wp_mono split: prod.splits) (metis fst_conv snd_conv)+
  from Cons.prems have "wp (hfc_fifo_get_frame n) (\<lambda>r. wp (get_frames ns) (\<lambda>rs (ch', m'). (r # rs, rx_frames ch' m') =
      frame_queue (n # ns) (rx_frames ch m) \<and> fifo_ok ch' m')) (ch, m)"
    by (intro wp_mono [OF wp_get_frame_queue] rest) simp_all
  then show ?case by (simp add: wp_fun del: frame_queue.simps)
qed (simp add: wp)

theorem hfc_rx_is_frame_queue_witness:
  "wp (get_frames [8]) (\<lambda>rs (ch', m'). (rs, rx_frames ch' m') = ([(1, Some [0])], []) \<and> fifo_ok ch' m')
     (the_rx 1, demo_fifos(0x6080 := 3, 0x4202 := 0))"
proof -
  let ?s = "the_rx 1" and ?m = "demo_fifos(0x6080 := 3, 0x4202 := 0)"
  have ok: "fifo_ok ?s ?m"
    by (rule fifo_ok_uniform [where v = 2]; (simp add: layout_wf; fail |
        simp add: the_layout f_in_def z_in_def z_area_def uint_to_u16 demo_fifos_B))
  have F: "F1 ?s ?m = 3" "F2 ?s ?m = 2" by (simp_all add: F1_def F2_def the_layout demo_fifos_B)
  have z: "Z1 ?s ?m 2 = 0x202" "Z2 ?s ?m 2 = 0x202"
    by (simp_all add: Z1_def Z2_def the_layout u16_at_def demo_fifos_B to_u16_def)
  have count: "frame_count ?s ?m = Suc 0" unfolding frame_count_def F by (simp add: the_layout)
  have "rx_frames ?s ?m = [[0]]"
    unfolding rx_frames_def count frame_list.simps z F Let_def by (simp add: ring_bytes_def ring_pos_def the_layout)
  with hfc_rx_is_frame_queue [OF ok, of "[8]"] show ?thesis by simp
qed


section \<open>Which FIFOs are enabled\<close>

text \<open>\<open>keeps g m\<close>: where \<open>m\<close> returns, \<open>g\<close> of the state is what it was.\<close>

definition keeps :: "('w \<Rightarrow> 'b) \<Rightarrow> ('w, 'a) st \<Rightarrow> bool" where
  "keeps g m \<longleftrightarrow> (\<forall>w x w'. m w = Ret (x, w') \<longrightarrow> g w' = g w)"

lemma triple_keeps:
  assumes "triple I m J" "keeps g m"
  shows "triple (\<lambda>c. I c \<and> g c = v) m (\<lambda>c. J c \<and> g c = v)"
  using assms by (fastforce simp: triple_def keeps_def wp_def)

lemma keeps_gbind: "keeps g m \<Longrightarrow> (\<And>x. keeps g (f x)) \<Longrightarrow> keeps g (gbind m f)"
  by (fastforce simp: keeps_def gbind_def run_bind_Ret_iff)

text \<open>The enabled FIFOs, the states of the channels, and whether the FIFOs are suspended.\<close>

definition fifo_view :: "'d hfc_card \<Rightarrow> u8 \<times> hfc_chan_status list \<times> bool" where
  "fifo_view c = (fifo_en (regs c), map status (chans c), fifo_suspended c)"

lemma status_upd: "i < length xs \<Longrightarrow> status ch = status (xs ! i) \<Longrightarrow> map status (xs[i := ch]) = map status xs"
  by (simp add: map_update [symmetric] list_eq_iff_nth_eq nth_list_update)

lemma keeps_chan:
  "(\<And>ch. status (f ch) = status ch) \<Longrightarrow> keeps fifo_view (chan_set i f)" "keeps fifo_view (chan_get i)"
  "keeps fifo_view (on_rx i p)" "keeps fifo_view (on_tx i q)" "keeps fifo_view hang"
  by (auto simp: keeps_def fifo_view_def status_upd chan_set_def chan_get_def gbind_def run_bind_Ret_iff run_map_Ret_iff
      arr_get_def arr_set_def on_rx_def on_tx_def hang_def split: if_splits)

lemma keeps_ops:
  "keeps fifo_view (spin_lock i)" "keeps fifo_view (spin_unlock i)" "keeps fifo_view (clear_tx cs i)"
  "keeps fifo_view (hfc_outb off v)"
  by (auto simp: spin_lock_def spin_unlock_def clear_tx_def intro!: keeps_gbind keeps_chan)
     (auto simp: keeps_def hfc_outb_def modify_def fifo_view_def)

definition at :: "nat \<Rightarrow> ('d \<Rightarrow> nat) \<Rightarrow> nat set \<Rightarrow> u8 \<Rightarrow> hfc_chan_status list \<Rightarrow> bool \<Rightarrow> 'd hfc_card \<Rightarrow> bool" where
  "at cs dl L e sts su c \<longleftrightarrow> hfc_inv cs dl L c \<and> fifo_view c = (e, sts, su)"

lemma triple_at: "triple (hfc_inv cs dl L) m (hfc_inv cs dl L') \<Longrightarrow> keeps fifo_view m \<Longrightarrow> triple (at cs dl L e sts su) m (at cs dl L' e sts su)"
  unfolding at_def [abs_def] by (rule triple_keeps)

lemma triple_en:
  "triple (at cs dl L e sts su) (f e) K \<Longrightarrow> triple (at cs dl L e sts su) (gbind (reg fifo_en) f) K"
  "triple (at cs dl L e sts su) (reg_upd (\<lambda>r. r\<lparr>fifo_en := e'\<rparr>)) (at cs dl L e' sts su)"
  "triple (at cs dl L e sts su) (h su) K \<Longrightarrow> triple (at cs dl L e sts su) (gbind (gets fifo_suspended) h) K"
  by (auto simp: triple_def at_def fifo_view_def wp)

lemma triple_status:
  assumes "i < 3" "\<And>ch. status ch = sts ! i \<Longrightarrow> triple (at cs dl L e sts su) (f ch) K"
  shows "triple (at cs dl L e sts su) (gbind (chan_get i) f) K"
proof (rule tripleI)
  fix c assume c: "at cs dl L e sts su c"
  then have "i < length (chans c)" using hfc_invD(1) [OF _ assms(1)] by (auto simp: at_def)
  with assms(2) [of "chans c ! i"] c show "wp (gbind (chan_get i) f) (\<lambda>_. K) c"
    by (auto simp: wp triple_def at_def fifo_view_def)
qed

text \<open>One bit of the register, switched on or off.\<close>

definition switch :: "bool \<Rightarrow> nat \<Rightarrow> u8 \<Rightarrow> u8" where
  "switch on n e = (if on then e OR 2 ^ n else e AND NOT (2 ^ n))"

lemma switch_same:
  "e AND 2 ^ n \<noteq> 0 \<Longrightarrow> e OR 2 ^ n = e" "e AND 2 ^ n = 0 \<Longrightarrow> e AND NOT (2 ^ n) = e" for e :: u8
  by (rule bit_word_eqI; auto simp: and_exp_eq_0_iff_not_bit bit_simps)+

lemma switch_bit: "b = 2 ^ n \<Longrightarrow> n < 8 \<Longrightarrow> switch on k e AND b = 0 \<longleftrightarrow> (if k = n then \<not> on else e AND b = 0)"
  by (auto simp: switch_def and_exp_eq_0_iff_not_bit bit_simps)

lemma switch_en:
  "switch on k e AND hfc_FIFOEN_B1TX = 0 \<longleftrightarrow> (if k = 0 then \<not> on else e AND hfc_FIFOEN_B1TX = 0)"
  "switch on k e AND hfc_FIFOEN_B1RX = 0 \<longleftrightarrow> (if k = 1 then \<not> on else e AND hfc_FIFOEN_B1RX = 0)"
  "switch on k e AND hfc_FIFOEN_B2TX = 0 \<longleftrightarrow> (if k = 2 then \<not> on else e AND hfc_FIFOEN_B2TX = 0)"
  "switch on k e AND hfc_FIFOEN_B2RX = 0 \<longleftrightarrow> (if k = 3 then \<not> on else e AND hfc_FIFOEN_B2RX = 0)"
  "switch on k e AND hfc_FIFOEN_DTX = 0 \<longleftrightarrow> (if k = 4 then \<not> on else e AND hfc_FIFOEN_DTX = 0)"
  "switch on k e AND hfc_FIFOEN_DRX = 0 \<longleftrightarrow> (if k = 5 then \<not> on else e AND hfc_FIFOEN_DRX = 0)"
  by (rule switch_bit; simp add: hfc_bits)+

lemma triple_switch_b:
  assumes "i < 3" "2 * cs + 6 \<le> 512"
  shows "triple (at cs dl L e sts su) (update_b_fifos cs i (2 ^ r) (2 ^ t) on) (at cs dl L (switch on t (switch on r e)) sts su)"
proof -
  have on: "triple (at cs dl L e sts su) (if e AND 2 ^ k = 0 then gthen (reg_upd (\<lambda>r. r\<lparr>fifo_en := e OR 2 ^ k\<rparr>)) m else ret ())
      (at cs dl L (switch True k e) sts su)"
    if "triple (hfc_inv cs dl L) m (hfc_inv cs dl L)" "keeps fifo_view m" for m e k
    using switch_same(1) [of e k] triple_gthen [OF triple_en(2) triple_at [OF that]]
    by (auto simp: switch_def intro!: triple_ret)
  have off: "triple (at cs dl L e sts su) (if e AND 2 ^ k \<noteq> 0 then reg_upd (\<lambda>r. r\<lparr>fifo_en := e AND NOT (2 ^ k)\<rparr>) else ret ())
      (at cs dl L (switch False k e) sts su)" for e k
    using switch_same(2) [of e k] by (auto simp: switch_def intro!: triple_ret triple_en(2))
  show ?thesis
    unfolding update_b_fifos_def
    by (cases on; simp only: if_True if_False) (rule triple_gthen triple_en(1) on off triple_clear_rx triple_clear_tx keeps_chan keeps_ops assms)+
qed

lemma triple_switch_D:
  "triple (at cs dl L e sts su)
     (if b then if e AND 2 ^ k = 0 then gthen (reg_upd (\<lambda>r. r\<lparr>fifo_en := e OR 2 ^ k\<rparr>))
                 (chan_set D (\<lambda>ch. ch\<lparr>tx := (tx ch)\<lparr>ugly_framebuf_size := 0, ugly_framebuf_off := 0\<rparr>\<rparr>)) else ret ()
      else if e AND 2 ^ k \<noteq> 0 then reg_upd (\<lambda>r. r\<lparr>fifo_en := e AND NOT (2 ^ k)\<rparr>) else ret ())
     (at cs dl L (switch b k e) sts su)"
proof -
  have "triple (hfc_inv cs dl L) (chan_set D (\<lambda>ch. ch\<lparr>tx := (tx ch)\<lparr>ugly_framebuf_size := 0, ugly_framebuf_off := 0\<rparr>\<rparr>)) (hfc_inv cs dl L)"
    by (rule triple_chan_set) (auto simp: chan_ok_def)
  then have reset: "triple (at cs dl L e' sts su)
      (chan_set D (\<lambda>ch. ch\<lparr>tx := (tx ch)\<lparr>ugly_framebuf_size := 0, ugly_framebuf_off := 0\<rparr>\<rparr>)) (at cs dl L e' sts su)" for e'
    by (rule triple_at) (simp add: keeps_chan)
  show ?thesis
    using switch_same [of e k] triple_gthen [OF triple_en(2) reset] by (auto simp: switch_def intro!: triple_ret triple_en(2))
qed

definition b_open :: "hfc_chan_status \<Rightarrow> bool" where
  "b_open s \<longleftrightarrow> s = open_framed \<or> s = open_voice"

lemma triple_update_view:
  assumes "2 * cs + 6 \<le> 512" "L \<subseteq> {card_lk}"
  shows "triple (at cs dl L e sts su) (hfc_update_fifo_state cs)
    (\<lambda>c. at cs dl L (switch (\<not> su \<and> sts ! D = open_framed) 4
       (switch (\<not> su \<and> (b_open (sts ! B2) \<or> sts ! B2 = sniff_aux)) 2 (switch (\<not> su \<and> (b_open (sts ! B2) \<or> sts ! B2 = sniff_aux)) 3
       (switch (\<not> su \<and> b_open (sts ! B1)) 0 (switch (\<not> su \<and> b_open (sts ! B1)) 1 e))))) sts su c \<and>
       reg_out c \<noteq> [] \<and> last (reg_out c) = (hfc_FIFO_EN, fifo_en (regs c)))"
proof -
  have lock: "triple (at cs dl L e sts su) (spin_lock i) (at cs dl (insert i L) e sts su)" if "i < 3" "i \<notin> L" for i e
    by (rule triple_at triple_locks keeps_ops that)+
  have unlock: "triple (at cs dl (insert i L) e sts su) (spin_unlock i) (at cs dl L e sts su)" if "i < 3" "i \<notin> L" for i e
    by (rule triple_at triple_unlock keeps_ops that)+
  have out: "triple (at cs dl L e sts su) (reg_write hfc_FIFO_EN fifo_en)
      (\<lambda>c. at cs dl L e sts su c \<and> reg_out c \<noteq> [] \<and> last (reg_out c) = (hfc_FIFO_EN, fifo_en (regs c)))" for e
    by (auto simp: triple_def at_def fifo_view_def wp)
  have bits: "hfc_FIFOEN_B1TX = 2 ^ 0" "hfc_FIFOEN_B1RX = 2 ^ 1" "hfc_FIFOEN_B2TX = 2 ^ 2" "hfc_FIFOEN_B2RX = 2 ^ 3" "hfc_FIFOEN_DTX = 2 ^ 4"
    by (simp_all add: hfc_bits)
  have b: "triple (at cs dl L e sts su) (gbind (chan_get i) (\<lambda>ch. update_b_fifos cs i (2 ^ r) (2 ^ t) (\<not> su \<and> P (status ch))))
      (at cs dl L (switch (\<not> su \<and> P (sts ! i)) t (switch (\<not> su \<and> P (sts ! i)) r e)) sts su)" if "i < 3" for i r t P e L
    by (rule triple_status [OF that], simp) (rule triple_switch_b [OF that assms(1)])
  have d: "triple (at cs dl L e sts su) (gbind (chan_get D) (\<lambda>ch. gbind (reg fifo_en) (\<lambda>e.
        if \<not> su \<and> status ch = open_framed then
          if e AND 2 ^ 4 = 0
          then gthen (reg_upd (\<lambda>r. r\<lparr>fifo_en := e OR 2 ^ 4\<rparr>))
                 (chan_set D (\<lambda>ch. ch\<lparr>tx := (tx ch)\<lparr>ugly_framebuf_size := 0, ugly_framebuf_off := 0\<rparr>\<rparr>))
          else ret ()
        else if e AND 2 ^ 4 \<noteq> 0
          then reg_upd (\<lambda>r. r\<lparr>fifo_en := e AND NOT (2 ^ 4)\<rparr>) else ret ())))
      (at cs dl L (switch (\<not> su \<and> sts ! D = open_framed) 4 e) sts su)" for e L
    by (rule triple_status, simp, rule triple_en(1), simp only:) (rule triple_switch_D)
  show ?thesis
    unfolding hfc_update_fifo_state_def bits b_open_def [symmetric] disj_assoc [symmetric]
    by (rule triple_en(3)) (rule triple_gthen lock unlock out chan_nums lock_free [OF assms(2)] b [where P = b_open]
        b [where P = "\<lambda>s. b_open s \<or> s = sniff_aux"] d)+
qed

text \<open>
  C28. After hfc_update_fifo_state the FIFOs of a channel are enabled exactly when the FIFOs are not suspended and the channel is in
  use: both of B1 when it is open for voice or frames, both of B2 also while it sniffs, the transmitting one of D when it is
  open for frames; the receiving one of D is left as it was. The value is written to the register, no lock stays
  held, and the state of no channel changes.
\<close>

theorem hfc_update_fifo_state_enables:
  assumes "hfc_inv cs dl {} c" "2 * cs + 6 \<le> 512"
  shows "wp (hfc_update_fifo_state cs) (\<lambda>_ c'.
     (let e = fifo_en (regs c'); st = (\<lambda>i. status (chans c ! i)); run = \<not> fifo_suspended c in
       (e AND hfc_FIFOEN_B1RX \<noteq> 0 \<longleftrightarrow> run \<and> (st B1 = open_framed \<or> st B1 = open_voice)) \<and>
       (e AND hfc_FIFOEN_B1TX \<noteq> 0 \<longleftrightarrow> run \<and> (st B1 = open_framed \<or> st B1 = open_voice)) \<and>
       (e AND hfc_FIFOEN_B2RX \<noteq> 0 \<longleftrightarrow> run \<and> (st B2 = open_framed \<or> st B2 = open_voice \<or> st B2 = sniff_aux)) \<and>
       (e AND hfc_FIFOEN_B2TX \<noteq> 0 \<longleftrightarrow> run \<and> (st B2 = open_framed \<or> st B2 = open_voice \<or> st B2 = sniff_aux)) \<and>
       (e AND hfc_FIFOEN_DTX \<noteq> 0 \<longleftrightarrow> run \<and> st D = open_framed) \<and>
       (e AND hfc_FIFOEN_DRX \<noteq> 0 \<longleftrightarrow> fifo_en (regs c) AND hfc_FIFOEN_DRX \<noteq> 0) \<and>
       last (reg_out c') = (hfc_FIFO_EN, e)) \<and>
     map status (chans c') = map status (chans c) \<and> hfc_inv cs dl {} c') c"
proof -
  have at: "at cs dl {} (fifo_en (regs c)) (map status (chans c)) (fifo_suspended c) c"
    using assms(1) by (simp add: at_def fifo_view_def)
  have st: "map status (chans c) ! i = status (chans c ! i)" if "i < 3" for i
    using hfc_invD(1) [OF assms(1) that] by simp
  show ?thesis
    by (rule wp_mono [OF tripleD [OF triple_update_view [OF assms(2)] at]])
       (simp_all add: at_def fifo_view_def Let_def switch_en st b_open_def)
qed

theorem hfc_update_fifo_state_enables_witness:
  "wp (hfc_update_fifo_state 8) (\<lambda>_ c'. fifo_en (regs c') AND hfc_FIFOEN_B1RX \<noteq> 0)
     ((demo_card (\<lambda>_ _. 0))\<lparr>chans := map (\<lambda>ch. ch\<lparr>status := open_voice\<rparr>) (hfc_chans 8)\<rparr>)"
proof -
  let ?c = "(demo_card (\<lambda>_ _. 0))\<lparr>chans := map (\<lambda>ch. ch\<lparr>status := open_voice\<rparr>) (hfc_chans 8)\<rparr>"
  have "hfc_inv 8 (\<lambda>_. 0) {} ?c"
    using demo_inv [of "\<lambda>_ _. 0"] by (auto simp: hfc_inv_def chan_ok_def less_3 demo_card_def hfc_new_card_def hfc_chans_def chan_numbers)
  then show ?thesis
    by (intro wp_mono [OF hfc_update_fifo_state_enables]) (auto simp: Let_def demo_card_def hfc_new_card_def hfc_chans_def B1_def)
qed


section \<open>Every sequence of calls\<close>

text \<open>
  The entry points of the driver, and the card, which changes the memory of the FIFOs by itself. The registers the
  driver reads have any value at any time, see \<open>reg_in\<close>.
\<close>

datatype hfc_event = Open nat | Close nat | Rbsbits int | Ioctl int int | Hard_xmit | Startup | Shutdown | Maint int
  | Chanconfig nat bool | Spanconfig int | Interrupt | Card fmem

primrec hfc_event_run :: "nat \<Rightarrow> bool \<Rightarrow> 'd dahdi_ops \<Rightarrow> hfc_event \<Rightarrow> ('d, unit) cm" where
  "hfc_event_run cs fl dh (Open i) = gthen (hfc_zap_open cs i) (ret ())"
| "hfc_event_run cs fl dh (Close i) = gthen (hfc_zap_close cs i) (ret ())"
| "hfc_event_run cs fl dh (Rbsbits b) = gthen (hfc_zap_rbsbits b) (ret ())"
| "hfc_event_run cs fl dh (Ioctl cmd a) = gthen (hfc_zap_ioctl cmd a) (ret ())"
| "hfc_event_run cs fl dh Hard_xmit = hfc_hdlc_hard_xmit"
| "hfc_event_run cs fl dh Startup = gthen hfc_zap_startup (ret ())"
| "hfc_event_run cs fl dh Shutdown = gthen hfc_zap_shutdown (ret ())"
| "hfc_event_run cs fl dh (Maint cmd) = gthen (hfc_zap_maint cmd) (ret ())"
| "hfc_event_run cs fl dh (Chanconfig d b) = gthen (hfc_zap_chanconfig d b) (ret ())"
| "hfc_event_run cs fl dh (Spanconfig lc) = gthen (hfc_zap_spanconfig lc) (ret ())"
| "hfc_event_run cs fl dh Interrupt = gthen (hfc_interrupt cs fl dh) (ret ())"
| "hfc_event_run cs fl dh (Card m) = modify (\<lambda>c. c\<lparr>fifos := m\<rparr>)"

primrec hfc_event_ok :: "hfc_event \<Rightarrow> bool" where
  "hfc_event_ok (Open i) \<longleftrightarrow> i < 3"
| "hfc_event_ok (Close i) \<longleftrightarrow> i < 3"
| "hfc_event_ok (Rbsbits b) \<longleftrightarrow> True"
| "hfc_event_ok (Ioctl cmd a) \<longleftrightarrow> True"
| "hfc_event_ok Hard_xmit \<longleftrightarrow> True"
| "hfc_event_ok Startup \<longleftrightarrow> True"
| "hfc_event_ok Shutdown \<longleftrightarrow> True"
| "hfc_event_ok (Maint cmd) \<longleftrightarrow> True"
| "hfc_event_ok (Chanconfig d b) \<longleftrightarrow> True"
| "hfc_event_ok (Spanconfig lc) \<longleftrightarrow> True"
| "hfc_event_ok Interrupt \<longleftrightarrow> True"
| "hfc_event_ok (Card m) \<longleftrightarrow> fifos_ok m"

primrec hfc_events :: "nat \<Rightarrow> bool \<Rightarrow> 'd dahdi_ops \<Rightarrow> hfc_event list \<Rightarrow> ('d, unit) cm" where
  "hfc_events cs fl dh [] = ret ()"
| "hfc_events cs fl dh (e # es) = gthen (hfc_event_run cs fl dh e) (hfc_events cs fl dh es)"

lemma triple_event:
  assumes "dahdi_ok cs dl dh" "2 * cs + 6 \<le> 512" "hfc_event_ok e"
  shows "triple (hfc_inv cs dl {}) (hfc_event_run cs fl dh e) (hfc_inv cs dl {})"
proof -
  have "triple (hfc_inv cs dl {}) (modify (\<lambda>c. c\<lparr>fifos := m\<rparr>)) (hfc_inv cs dl {})" if "fifos_ok m" for m
    using that by (intro triple_modify) (simp add: hfc_inv_def)
  moreover have "triple (hfc_inv cs dl {}) (hfc_zap_open cs i) (hfc_inv cs dl {})"
    "triple (hfc_inv cs dl {}) (hfc_zap_close cs i) (hfc_inv cs dl {})" if "i < 3" for i
    by (rule triple that assms empty_subsetI)+
  ultimately show ?thesis
    using assms(3) triple_interrupt [OF assms(1,2)]
    by (cases e) (auto simp: hfc_zap_rbsbits_def hfc_zap_ioctl_def hfc_zap_shutdown_def hfc_zap_maint_def intro!: triple)
qed




text \<open>What handling the next piece of a frame for the D channel does before the piece is stored.\<close>

lemma hdlc_transmit_store:
  assumes "hfc_inv cs dl {} c" "ztdev c = Some h" "hdlc_pending h \<noteq> 0"
    and "dahdi_hdlc_getbuf dh (sigchan h) hfc_HDLC_BUF_LEN (dahdi c) = (res, buf, d')" "buf \<noteq> []"
  shows "\<exists>out. hdlc_transmit cs dh c =
    gbind (buf_store (ugly_framebuf (tx (chans c ! D))) (ugly_framebuf_size (tx (chans c ! D))) buf) (\<lambda>ubuf.
      gthen (chan_set D (\<lambda>d. d\<lparr>tx := (tx d)\<lparr>ugly_framebuf := ubuf,
          ugly_framebuf_size := ugly_framebuf_size (tx d) + int (length buf)\<rparr>\<rparr>))
      (if res = 0 then ret () else send_d_frame cs))
      (c\<lparr>reg_out := out, dahdi := d', ztdev := Some (h\<lparr>sigactive := 1\<rparr>)\<rparr>)"
proof -
  have "D < length (chans c)" using assms(1) by (simp add: hfc_inv_def D_def)
  moreover have "wp hfc_check_l1_up (\<lambda>_ c'. \<exists>out. c' = c\<lparr>reg_out := out\<rparr>) c"
    by (auto simp: hfc_check_l1_up_def wp) (rule exI [of _ "reg_out c"], simp)+
  then obtain out where "hfc_check_l1_up c = Ret ((), c\<lparr>reg_out := out\<rparr>)" by (auto simp: wp_def)
  ultimately show ?thesis
    using assms(2-5)
    by (intro exI [of _ out])
       (simp add: hdlc_transmit_def gbind_def gthen_def call_dahdi_def ztdev_get_def ztdev_upd_def chan_get_def gets_def
          ret_def modify_def arr_get_def)
qed

text \<open>
  C18. The driver collects the pieces of a frame for the D channel in a buffer of 8192 bytes and passes a complete frame to a FIFO of
  512 bytes, and tests neither bound. When the pieces make no more than 512 bytes, handling the next one succeeds and the card stays
  consistent; when they make more than 8192, it writes beyond the end of the buffer.
\<close>

theorem hdlc_frame_bound:
  assumes "hfc_inv cs dl {} c" "2 * cs + 6 \<le> 512" "ztdev c = Some h" "hdlc_pending h \<noteq> 0"
    and "dahdi_hdlc_getbuf dh (sigchan h) hfc_HDLC_BUF_LEN (dahdi c) = (res, buf, d')" "buf \<noteq> []"
    and "n = ugly_framebuf_size (tx (chans c ! D)) + int (length buf)"
  shows "(n \<le> 512 \<longrightarrow> (\<exists>c'. hdlc_transmit cs dh c = Ret ((), c') \<and> hfc_inv cs (\<lambda>_. 512) {} c')) \<and>
    (8192 < n \<longrightarrow> hdlc_transmit cs dh c = Fault)"
proof -
  let ?tx = "tx (chans c ! D)"
  let ?store = "\<lambda>ubuf. gthen (chan_set D (\<lambda>d. d\<lparr>tx := (tx d)\<lparr>ugly_framebuf := ubuf,
          ugly_framebuf_size := ugly_framebuf_size (tx d) + int (length buf)\<rparr>\<rparr>))
      (if res = 0 then ret () else send_d_frame cs)"
  obtain out where out: "hdlc_transmit cs dh c = gbind (buf_store (ugly_framebuf ?tx) (ugly_framebuf_size ?tx) buf) ?store
      (c\<lparr>reg_out := out, dahdi := d', ztdev := Some (h\<lparr>sigactive := 1\<rparr>)\<rparr>)"
    using hdlc_transmit_store [OF assms(1,3-6)] by blast
  have len: "length (ugly_framebuf ?tx) = 8192" "0 \<le> ugly_framebuf_size ?tx" "length (chans c) = 3"
    using hfc_invD(2) [OF assms(1), of D] assms(1) by (simp_all add: chan_ok_def hfc_UGLY_FRAMEBUF_def D_def hfc_inv_def)
  have over: "hdlc_transmit cs dh c = Fault" if "8192 < n"
    using that out len assms(7) by (simp add: buf_store_def gbind_def fault_def)
  have fits: "\<exists>c'. hdlc_transmit cs dh c = Ret ((), c') \<and> hfc_inv cs (\<lambda>_. 512) {} c'" if n: "n \<le> 512"
  proof -
    define k where "k = nat (ugly_framebuf_size ?tx)"
    have k: "k + length buf \<le> 512" using n len(2) assms(7) by (simp add: k_def)
    have "hfc_inv cs (\<lambda>_. k) {} c" using len(2) by (intro hfc_inv_bound [OF assms(1)]) (simp add: k_def)
    note ap = append_frame [OF this, of buf, OF k]
    let ?ub = "take k (ugly_framebuf ?tx) @ buf @ drop (k + length buf) (ugly_framebuf ?tx)"
    have inv: "hfc_inv cs (\<lambda>_. k + length buf) {} (c\<lparr>reg_out := out, dahdi := d', ztdev := Some (h\<lparr>sigactive := 1\<rparr>),
       chans := (chans c)[D := (chans c ! D)\<lparr>tx := ?tx\<lparr>ugly_framebuf := ?ub,
         ugly_framebuf_size := ugly_framebuf_size ?tx + int (length buf)\<rparr>\<rparr>]\<rparr>)"
      using ap(4) [of ?ub "h\<lparr>sigactive := 1\<rparr>" d'] len k by (simp add: hfc_inv_def hfc_UGLY_FRAMEBUF_def)
    have "wp (if res = 0 then ret () else send_d_frame cs) (\<lambda>_. hfc_inv cs (\<lambda>_. 512) {}) c'"
      if "hfc_inv cs (\<lambda>_. k + length buf) {} c'" for c'
      using tripleD [OF triple_send_frame [OF assms(2) k] that, of "\<lambda>_. 512"] that k
      by (auto simp: wp hfc_inv_def)
    from this [OF inv] have "wp (gbind (buf_store (ugly_framebuf ?tx) (ugly_framebuf_size ?tx) buf) ?store) (\<lambda>_. hfc_inv cs (\<lambda>_. 512) {})
        (c\<lparr>reg_out := out, dahdi := d', ztdev := Some (h\<lparr>sigactive := 1\<rparr>)\<rparr>)"
      using n assms(7) len by (cases "res = 0") (simp_all add: wp D_def k_def)
    then show ?thesis by (auto simp: wp_def out)
  qed
  with over show ?thesis by blast
qed

text \<open>A card with 8190 bytes of a frame in the buffer, and DAHDI with pieces of four bytes.\<close>

definition long_frame_card :: "nat hfc_card" where
  "long_frame_card = (let c = demo_card (\<lambda>_ _. 0); d = chans c ! D in
     c\<lparr>ztdev := map_option (\<lambda>h. h\<lparr>hdlc_pending := 1\<rparr>) (ztdev c),
       chans := (chans c)[D := d\<lparr>tx := (tx d)\<lparr>ugly_framebuf_size := 8190\<rparr>\<rparr>]\<rparr>)"

theorem hdlc_frame_bound_witness:
  "hdlc_transmit 8 (demo_dahdi\<lparr>dahdi_hdlc_getbuf := \<lambda>ch n d. (0, [1, 2, 3, 4], d)\<rparr>) long_frame_card = Fault"
proof -
  have D: "D < 3" "D < length (chans (demo_card ins))" for ins using demo_inv [of ins] by (simp_all add: D_def hfc_inv_def)
  have inv: "hfc_inv 8 (\<lambda>_. 8190) {} (demo_card (\<lambda>_ _. 0))"
    by (rule hfc_inv_bound [OF demo_inv]) (simp add: demo_card_def hfc_new_card_def hfc_chans_def hfc_duplex_def hfc_layout D_def)
  have "hfc_inv 8 (\<lambda>_. 8190) {} (demo_card (\<lambda>_ _. 0)\<lparr>chans := (chans (demo_card (\<lambda>_ _. 0)))[D := (chans (demo_card (\<lambda>_ _. 0)) ! D)
      \<lparr>tx := (tx (chans (demo_card (\<lambda>_ _. 0)) ! D))\<lparr>ugly_framebuf_size := 8190\<rparr>\<rparr>]\<rparr>)"
    using hfc_invD(2,3) [OF inv D(1)] by (intro hfc_inv_chan [OF inv D(1)]) (auto simp: chan_ok_def)
  then have "hfc_inv 8 (\<lambda>_. 8190) {} long_frame_card"
    by (simp add: long_frame_card_def Let_def hfc_inv_def)
  moreover have "ztdev long_frame_card = Some \<lparr>span_running = False, lineconfig = 0, sigchan = Some DAHDI_D, sigactive = 0, hdlc_pending = 1, frames_out = 0\<rparr>"
    by (simp add: long_frame_card_def demo_card_def hfc_new_card_def hfc_zap_initialize_def Let_def)
  moreover have "ugly_framebuf_size (tx (chans long_frame_card ! D)) = 8190" using D(2) by (simp add: long_frame_card_def Let_def)
  ultimately show ?thesis
    using hdlc_frame_bound [of 8 "\<lambda>_. 8190" long_frame_card _ "demo_dahdi\<lparr>dahdi_hdlc_getbuf := \<lambda>ch n d. (0, [1, 2, 3, 4], d)\<rparr>" 0 "[1, 2, 3, 4]" _ 8194]
    by simp
qed


lemma layout_sel:
  "z_base (layout s) = z_base s" "fifo_base (layout s) = fifo_base s" "z_max (layout s) = z_max s" "fifo_size (layout s) = fifo_size s" "z1_base (layout s) = z1_base s" "z2_base (layout s) = z2_base s" "f1_ptr (layout s) = f1_ptr s" "f2_ptr (layout s) = f2_ptr s" "f_min (layout s) = f_min s" "f_max (layout s) = f_max s"
  by (simp_all add: layout_def statics_def)

lemma D_values:
  "z_base (the_tx D) = 0" "fifo_base (the_tx D) = 0" "z_max (the_tx D) = 0x1FF" "fifo_size (the_tx D) = 512" "z1_base (the_tx D) = 0x2080" "z2_base (the_tx D) = 0x2082" "f1_ptr (the_tx D) = 0x20a0" "f2_ptr (the_tx D) = 0x20a1" "f_min (the_tx D) = 0x10" "f_max (the_tx D) = 0x1F"
  by (simp_all add: the_layout D_def to_u16_def)

lemma layout_D:
  assumes "layout ch = layout (the_tx D)"
  shows "z_base ch = 0" "fifo_base ch = 0" "z_max ch = 0x1FF" "fifo_size ch = 512" "z1_base ch = 0x2080" "z2_base ch = 0x2082" "f1_ptr ch = 0x20a0" "f2_ptr ch = 0x20a1" "f_min ch = 0x10" "f_max ch = 0x1F"
  by (metis assms layout_sel D_values)+

text \<open>
  C19. The other bound: a frame of more than 1024 bytes (and no more than the buffer has) for the D channel, sent while Z1 is above
  Z2, passes the test for a full FIFO, and putting it writes beyond the FIFO of the D channel: the byte at offset 512 of the memory, the
  first of the FIFO of B1, is overwritten with a byte of the frame, and no overflow is counted.
\<close>

theorem long_frame_overwrites_B1:
  assumes "fifo_ok ch m" "layout ch = layout (the_tx D)" "uint (Z2 ch m (F1 ch m)) < uint (Z1 ch m (F1 ch m))"
    and "1024 < n" "n \<le> 8192" "n \<le> int (length data)"
  shows "wp (hfc_fifo_put (Suc d) cs st data n)
    (\<lambda>_ (ch', m'). m' 512 = data ! nat (1024 - uint (Z1 ch m (F1 ch m))) \<and> fifo_full ch' = fifo_full ch) (ch, m) \<and>
    512 \<in> fifo_area (the_tx B1) \<and> 512 \<notin> fifo_area (the_tx D)"
proof -
  note ok = fifo_okD [OF assms(1)] and L = layout_D [OF assms(2)]
  let ?z = "Z1 ch m (F1 ch m)"
  let ?b = "512 - uint ?z"
  define m2 where "m2 = mem_paste 0 (take (nat (n - ?b)) (drop (nat ?b) data)) (mem_paste (uint ?z) (take (nat ?b) data) m)"
  have z: "0 \<le> uint ?z" "uint ?z \<le> 511" using ok L by (auto simp: z_in_def)
  have cell: "m2 x = m x" if "0x2000 \<le> x" for x using that z assms(4-6) by (auto simp: m2_def mem_paste_def)
  have f: "F1 ch m2 = F1 ch m" "F2 ch m2 = F2 ch m" "Z1 ch m2 = Z1 ch m" "Z2 ch m2 = Z2 ch m"
    using uint_nonnegative by (simp_all add: F1_def F2_def Z1_def Z2_def u16_at_def L cell fun_eq_iff add.assoc)
  have ok2: "fifo_ok ch m2" using assms(1) unfolding fifo_ok_def f .
  have pos: "512 < n - ?b" "nat ?b + 512 = nat (1024 - uint ?z)" "nat ?b + 512 < length data"
    using z assms(3-6) uint_nonnegative [of "Z2 ch m (F1 ch m)"] by linarith+
  then have "int (length (take (nat (n - ?b)) (drop (nat ?b) data))) = n - ?b" using z assms(6) by simp
  then have "m2 512 = data ! nat (1024 - uint ?z)"
    using pos by (simp only: m2_def mem_paste_def) (simp add: nth_take nth_drop)
  moreover have "(512 :: int) \<notin> z_area ch" by (simp add: z_area_def L)
  ultimately have "set_z1 ch (F1 ch m) x m2 512 = data ! nat (1024 - uint ?z)" for x
    using set_cells_outside(1) [OF ok(1,2)] by simp
  moreover have free: "tx_free ch m = 65536 - tx_used ch m" "tx_used ch m < 512" "0 < tx_used ch m"
    using assms(3) tx_used_cases [OF assms(1)] z L used_range(2) [OF ok(1), of m] by (auto simp: tx_free_def Let_def)
  moreover have "wp (hfc_fifo_mem_write data n) Q (ch, m) = Q () (ch, m2)" for Q
    using z assms(4-6) pos(1) by (auto simp: hfc_fifo_mem_write_def wp wp_cells [OF assms(1)] memcpy_in_def in_fifos_def hfc_FIFO_SIZE_def L m2_def Let_def)
  moreover have "fifo_ok (ch\<lparr>bytes := b\<rparr>) m2" "F1 (ch\<lparr>bytes := b\<rparr>) = F1 ch" "set_z1 (ch\<lparr>bytes := b\<rparr>) = set_z1 ch" for b
    using ok2 statics_cong [of "ch\<lparr>bytes := b\<rparr>" ch] by simp_all
  ultimately have "wp (hfc_fifo_put (Suc d) cs st data n)
    (\<lambda>_ (ch', m'). m' 512 = data ! nat (1024 - uint (Z1 ch m (F1 ch m))) \<and> fifo_full ch' = fifo_full ch) (ch, m)"
    using assms(4,5) uint_to_u16 [of "tx_used ch m"] uint_to_u16 [of "65536 - tx_used ch m"]
    by (simp add: wp wp_used [OF assms(1)] wp_free_tx [OF assms(1)] wp_cells f del: hfc_clear_fifo_tx.simps)
  then show ?thesis using layout_areas(2) [of B1] layout_areas(2) [of D] by (simp add: B1_def D_def)
qed

theorem long_frame_overwrites_B1_witness:
  "wp (hfc_fifo_put 2 8 open_framed (replicate 1100 7) 1100) (\<lambda>_ (ch', m'). m' 512 = 7 \<and> fifo_full ch' = 0)
     (the_tx D, set_z1 (the_tx D) 0x10 1 demo_fifos)"
proof -
  let ?s = "the_tx D" let ?m = "set_z1 ?s 0x10 1 demo_fifos"
  have f: "f_in ?s 0x10" "z_in ?s 1" "fifo_wf ?s" "fifo_full ?s = 0"
    using layout_wf(2) [of D] by (simp_all add: the_layout f_in_def z_in_def D_def)
  have ok: "fifo_ok ?s ?m" using fifo_ok_updates(1) [OF demo_ok_D, of ?s] f by (simp add: D_def)
  have F: "F1 ?s ?m = 0x10" using f by simp (simp add: F1_def D_values demo_fifos_def)
  have z: "Z1 ?s ?m 0x10 = 1" "Z2 ?s ?m 0x10 = 0"
    using f by (simp, simp) (simp add: Z2_def D_values u16_at_def demo_fifos_def to_u16_def)
  show ?thesis
    using long_frame_overwrites_B1 [OF ok refl, of 1100 "replicate 1100 7" 1 8 open_framed]
    unfolding F z f by (simp add: numeral_2_eq_2)
qed



section \<open>Probing\<close>

definition probe_calls_ok :: "probe_env \<Rightarrow> bool" where
  "probe_calls_ok env \<longleftrightarrow> kmalloc_card env \<and> pci_enable_device env = 0 \<and> pci_set_dma_mask env = 0 \<and>
     pci_request_regions env = 0 \<and> pci_irq env \<noteq> 0 \<and> pci_iomem env \<noteq> 0 \<and> ioremap_ok env \<and> fifo_alloc_ok env \<and> request_irq env = 0"

lemma resetCard_regs:
  "wp hfc_resetCard (\<lambda>_ c'. regs c' = (regs c)\<lparr>m1 := hfc_INTS_DREC OR hfc_INTS_L1STATE OR hfc_INTS_TIMER, m2 := hfc_M2_IRQ_ENABLE,
     fifo_en := hfc_FIFOEN_DRX, trm := 0, connect := 0, sctrl_r := 0, sctrl_e := hfc_SCTRL_E_AUTO_AWAKE,
     sctrl := hfc_SCTRL_NONE_CAP OR (if nt_mode c then hfc_SCTRL_MODE_NT else hfc_SCTRL_MODE_TE)\<rparr> \<and>
     chans c' = chans c \<and> nt_mode c' = nt_mode c) c"
  by (simp add: hfc_resetCard_def hfc_softreset_def wp)



section \<open>Where the driver goes wrong\<close>

text \<open>
  C35. hfc_fifo_free_tx computes the free bytes as an unsigned difference: with Z1 above Z2 it reports 65536 less the bytes used, more
  than the FIFO has, so that the test for a full FIFO in hfc_fifo_put never fires there: filling the room there is to the last byte
  succeeds, counts no overflow, and leaves a FIFO that reads as empty.
\<close>

theorem full_fifo_not_noticed:
  assumes "fifo_ok ch m" "uint (Z2 ch m (F1 ch m)) < uint (Z1 ch m (F1 ch m))"
    and "n = uint (fifo_size ch) - tx_used ch m" "n \<le> int (length data)"
  shows "wp hfc_fifo_free_tx (\<lambda>r _. uint r = 65536 - tx_used ch m) (ch, m) \<and>
    wp (hfc_fifo_put 2 cs st data n) (\<lambda>_ (ch', m'). tx_used ch' m' = 0 \<and> fifo_full ch' = fifo_full ch) (ch, m)"
proof -
  note ok = fifo_okD [OF assms(1)]
  let ?z1 = "Z1 ch m (F1 ch m)" and ?z2 = "Z2 ch m (F1 ch m)" and ?xs = "take (nat n) data"
  have free: "tx_free ch m = 65536 - tx_used ch m"
    using assms(2) tx_used_cases [OF assms(1)] by (simp add: tx_free_def Let_def)
  have used: "0 \<le> tx_used ch m" "tx_used ch m < uint (fifo_size ch)" using used_range(2) [OF ok(1), of m] by auto
  have n: "0 \<le> n" "n \<le> uint (fifo_size ch)" "n \<le> tx_free ch m"
    using used assms(3) tx_free_ge [OF assms(1)] by auto
  have len: "int (length ?xs) = n" using n(1) assms(4) by simp
  have z: "z_in ch ?z1" "z_in ch ?z2" using ok by simp_all
  have z1: "uint ?z1 = ring_pos ch (uint ?z2) (tx_used ch m)"
    using ring_pos_used [OF ok(1) z] by (simp add: tx_used_def)
  have "uint (Z_inc ch ?z1 (to_u16 n)) = ring_pos ch (uint ?z2) (uint (fifo_size ch))"
    using Z_inc_ring [OF ok(1) z(1) n(1,2)] assms(3) by (simp add: z1 ring_pos_add)
  also have "\<dots> = uint ?z2" using ring_pos_0 [OF ok(1) z(2)] by (simp add: ring_pos_def)
  finally have "tx_used ch (put_mem ?xs ch m) = 0"
    using ok len by (simp add: tx_used_def put_mem_def Let_def)
  moreover have "statics (put_counts n ch m) = statics ch" "fifo_full (put_counts n ch m) = fifo_full ch"
    by (simp_all add: put_counts_def)
  ultimately show ?thesis
    using wp_put_fits [OF assms(1) n assms(4), of 1 cs st] wp_free_tx [OF assms(1)] free used_cong(2) [of "put_counts n ch m" ch]
    by (simp add: numeral_2_eq_2)
qed

theorem full_fifo_not_noticed_witness:
  "wp hfc_fifo_free_tx (\<lambda>r _. uint r = 65535) (the_tx 1, set_z1 (the_tx 1) 2 0x203 demo_fifos) \<and>
   wp (hfc_fifo_put 2 8 open_voice (replicate 7680 0) 7679) (\<lambda>_ (ch', m'). tx_used ch' m' = 0 \<and> fifo_full ch' = 0)
     (the_tx 1, set_z1 (the_tx 1) 2 0x203 demo_fifos)"
proof -
  let ?s = "the_tx 1" let ?m = "set_z1 ?s 2 0x203 demo_fifos"
  have f: "f_in ?s 2" "z_in ?s 0x203" "fifo_wf ?s" "fifo_full ?s = 0" "uint (fifo_size ?s) = 7680"
    using layout_wf(2) [of 1] by (simp_all add: the_layout f_in_def z_in_def)
  have ok: "fifo_ok ?s ?m" using fifo_ok_updates(1) [OF demo_ok_B1(2)] f by simp
  have F: "F1 ?s ?m = 2" using f by simp (simp add: F1_def the_layout demo_fifos_B)
  have z: "Z1 ?s ?m 2 = 0x203" "Z2 ?s ?m 2 = 0x202"
    using f by (simp, simp) (simp add: Z2_def the_layout u16_at_def demo_fifos_B to_u16_def)
  have "tx_used ?s ?m = 1" unfolding tx_used_def F z f by simp
  with full_fifo_not_noticed [OF ok _ refl, of "replicate 7680 0" 8 open_voice] show ?thesis
    unfolding F z f by simp
qed

lemma run_steps:
  "gbind (gets f) g c = g (f c) c" "gbind (hfc_inb off) h c = h (reg_in c off (reads c)) (c\<lparr>reads := reads c + 1\<rparr>)"
  "gthen (modify u) m c = m (u c)" "gthen (ret x) m c = m c" "p c = Hang \<Longrightarrow> gthen p m c = Hang" "p c = Hang \<Longrightarrow> gbind p k c = Hang"
  "i < length (chans c) \<Longrightarrow> gbind (chan_get i) k' c = k' (chans c ! i) c"
  by (simp_all add: gbind_def gthen_def gets_def modify_def ret_def hfc_inb_def chan_get_def arr_get_def)

lemma locked_suspend_hangs:
  assumes "length (chans c) = 3" "ch_lock (chans c ! B1)"
  shows "hfc_suspend_fifo cs c = Hang"
  using assms by (simp add: hfc_suspend_fifo_def hfc_update_fifo_state_def spin_lock_def run_steps B1_def hang_def)

text \<open>
  C36. hfc_zap_open and hfc_zap_close take the lock of a channel without disabling interrupts. An interrupt in between in which
  the layer 1 of a terminal goes down calls hfc_suspend_fifo, which waits for the same lock: the processor hangs.
\<close>

theorem interrupt_deadlocks_open:
  assumes "length (chans c) = 3" "ch_lock (chans c ! B1)" "\<not> card_lock c" "\<not> nt_mode c" "l1_state c = 7"
    and "reg_in c hfc_STATUS (reads c) AND hfc_STATUS_ANYINT \<noteq> 0"
    and "s1 = reg_in c hfc_INT_S1 (reads c + 1)" "s1 AND hfc_INTS_TIMER = 0" "s1 AND hfc_INTS_L1STATE \<noteq> 0"
    and "new_state = reg_in c hfc_STATES (reads c + 3) AND hfc_STATES_STATE_MASK" "new_state \<noteq> 3" "new_state \<noteq> 7"
  shows "hfc_interrupt cs force_l1_up dh c = Hang"
proof -
  have "s1 \<noteq> 0" using assms(9) by auto
  with assms show ?thesis
    by (simp add: hfc_interrupt_def int_s1_def hfc_handle_state_interrupt_def run_steps locked_suspend_hangs numeral_3_eq_3 Let_def)
qed

theorem interrupt_deadlocks_open_witness:
  "\<exists>c. spin_lock B1 ((demo_card (\<lambda>off _. if off = hfc_STATES then 0 else if off = hfc_STATUS then 0x80 else 0x40))\<lparr>l1_state := 7\<rparr>)
      = Ret ((), c) \<and> hfc_interrupt 8 False demo_dahdi c = Hang"
proof -
  let ?c = "(demo_card (\<lambda>off _. if off = hfc_STATES then 0 else if off = hfc_STATUS then 0x80 else 0x40))\<lparr>l1_state := 7\<rparr>"
  let ?c' = "?c\<lparr>chans := (hfc_chans 8)[1 := (hfc_chans 8 ! 1)\<lparr>ch_lock := True\<rparr>]\<rparr>"
  have lock: "spin_lock B1 ?c = Ret ((), ?c')"
    by (simp add: wp_Ret [symmetric] spin_lock_def wp B1_def demo_card_def hfc_new_card_def hfc_chans_def hfc_duplex_def)
  have "hfc_interrupt 8 False demo_dahdi ?c' = Hang"
    by (rule interrupt_deadlocks_open [OF _ _ _ _ _ _ refl _ _ refl])
       (simp_all add: demo_card_def hfc_new_card_def hfc_chans_def hfc_bits hfc_addresses B1_def)
  with lock show ?thesis by blast
qed

text \<open>
  C37. hfc_frame_arrived sets the size of the buffered frame before hfc_fifo_get_frame checks it: a frame with a wrong
  checksum is counted as an error and its socket buffer is freed, but it stays in the buffer of the D channel, with its size, for
  hfc_handle_voice to hand to DAHDI like a good one.
\<close>

theorem bad_frame_is_delivered:
  assumes "hfc_inv cs dl L c" "ugly_framebuf_size (rx (chans c ! D)) = 0"
    and "rx_frames (rx (chans c ! D)) (fifos c) = frame # rest" "last frame \<noteq> 0" "3 < length frame"
  shows "wp (take_frame (int (length frame))) (\<lambda>_ c'. skbs c' = skbs c - 1 \<and>
      crc (rx (chans c' ! D)) = crc (rx (chans c ! D)) + 1 \<and>
      ugly_framebuf_size (rx (chans c' ! D)) = int (length frame) - 1 \<and>
      take (length frame - 1) (ugly_framebuf (rx (chans c' ! D))) = butlast frame) c"
proof -
  let ?s = "rx (chans c ! D)" and ?m = "fifos c"
  note inv = hfc_invD [OF assms(1), of D]
  have ok: "fifo_ok ?s ?m" using inv by simp
  have ne: "F1 ?s ?m \<noteq> F2 ?s ?m" using assms(3) rx_frames_Nil [OF ok] by auto
  have frame: "frame = ring_bytes ?s ?m (uint (Z2 ?s ?m (F2 ?s ?m))) (rx_used ?s ?m + 1)"
    using rx_frames_next [OF ok ne] assms(3) by simp
  have used: "rx_used ?s ?m + 1 = int (length frame)"
    using used_range(1) [OF fifo_okD(1) [OF ok], of ?m] by (simp add: frame)
  have stat: "frame_stat ?s ?m \<noteq> 0" using last_frame_byte(1) [OF fifo_okD(1) [OF ok]] assms(4) frame by simp
  have data: "ring_bytes ?s ?m (uint (Z2 ?s ?m (F2 ?s ?m))) (min (rx_used ?s ?m + 1) (int (length frame) - 1)) = butlast frame"
    unfolding last_frame_byte(3) [OF fifo_okD(1) [OF ok]] frame [symmetric] by (simp add: butlast_conv_take nat_diff_distrib')
  define s1 where "s1 = ?s\<lparr>ugly_framebuf_size := int (length frame) - 1\<rparr>"
  have s1: "layout s1 = layout ?s" "statics s1 = (statics ?s)\<lparr>ugly_framebuf_size := int (length frame) - 1\<rparr>"
    by (simp_all add: s1_def statics_def)
  have len: "length (ugly_framebuf ?s) = hfc_UGLY_FRAMEBUF" "length frame \<le> 512"
    using inv used_range(1) [OF fifo_okD(1) [OF ok], of ?m] used by (simp_all add: chan_ok_def D_def)
  have get: "wp (hfc_fifo_get_frame (int (length frame) - 1)) Q (s1, ?m) =
      Q (- 1, Some (butlast frame)) (s1\<lparr>bytes := bytes s1 + to_u64 (rx_used s1 ?m), crc := crc s1 + 1\<rparr>, next_frame_mem s1 ?m)" for Q
  proof -
    have "fifo_ok s1 ?m" using layout_cong(1) [OF s1(1)] ok by simp
    moreover have "F1 s1 = F1 ?s" "F2 s1 = F2 ?s" "Z1 s1 = Z1 ?s" "Z2 s1 = Z2 ?s" "rx_used s1 = rx_used ?s"
      "ring_bytes s1 = ring_bytes ?s" "frame_stat s1 = frame_stat ?s"
      by (simp_all add: s1_def fun_eq_iff F1_def F2_def Z1_def Z2_def rx_used_def ring_bytes_def ring_pos_def frame_stat_def)
    ultimately show ?thesis
      using ne stat data assms(5) by (subst wp_get_frame) (auto simp: Let_def)
  qed
  show ?thesis
    using inv(1) len assms(5)
    by (simp add: take_frame_def set_ugly_rx_def wp wp_fun s1_def [symmetric] get store_ugly_def dev_kfree_skb_def hfc_UGLY_FRAMEBUF_def)
       (simp add: s1_def)
qed

lemma rx_frames_zaptel: "rx_frames (s\<lparr>zaptel_buffer := b\<rparr>) m = rx_frames s m"
proof -
  have "frame_list k (s\<lparr>zaptel_buffer := b\<rparr>) m f z = frame_list k s m f z" for k f z
    by (induction k arbitrary: f z) (simp_all add: Let_def Z1_def ring_bytes_def ring_pos_def F_inc_def)
  then show ?thesis by (simp add: rx_frames_def frame_count_def F1_def F2_def Z2_def)
qed

theorem bad_frame_is_delivered_witness:
  "wp (take_frame 4) (\<lambda>_ c'. ugly_framebuf_size (rx (chans c' ! D)) = 3)
     ((demo_card (\<lambda>_ _. 0))\<lparr>fifos := (set_z1 (the_rx 0) 0x10 3 demo_fifos)(0x60A0 := 0x11)\<rparr>)"
proof -
  let ?s = "the_rx 0" let ?m = "(set_z1 ?s 0x10 3 demo_fifos)(0x60A0 := 0x11)"
  let ?c = "(demo_card (\<lambda>_ _. 0))\<lparr>fifos := ?m\<rparr>"
  have f: "f_in ?s 0x10" "f_in ?s 0x11" "z_in ?s 3" "fifo_wf ?s" "f1_ptr ?s = 0x60A0" "F_inc ?s 0x10 1 = 0x11"
    using layout_wf(1) [of 0] by (simp_all add: the_layout f_in_def z_in_def F_inc_def to_u8_def)
  have ok0: "fifo_ok ?s demo_fifos" by (rule demo_ok_D) simp
  have step: "fifo_step (?s, demo_fifos) (?s, ?m)"
    using fifo_step_cell(4) [OF fifo_step_cell(2) [OF fifo_step_refl [OF ok0 refl] f(1,3)] f(2)] f(5) by simp
  have ok: "fifo_ok ?s ?m" and "fifos_ok ?m"
    using step fifos_ok_step [OF demo_fifos_ok, of 0 ?s] by (simp_all add: fifo_step_def)
  then have inv: "hfc_inv 8 (\<lambda>_. 0) {} ?c" using demo_inv [of "\<lambda>_ _. 0"] by (simp add: hfc_inv_def)
  have s: "rx (chans ?c ! D) = D_rx 8" "D_rx 8 = ?s\<lparr>zaptel_buffer := replicate 8 0\<rparr>"
    by (simp_all add: demo_card_def hfc_new_card_def hfc_chans_def hfc_duplex_def D_def the_layout)
  have F: "F1 ?s ?m = 0x11" "F2 ?s ?m = 0x10"
    using f by (simp_all add: F1_def F2_def the_layout demo_fifos_def set_z1_def u16_put_def)
  have z: "Z1 ?s ?m 0x10 = 3" "Z2 ?s ?m 0x10 = 0"
    using f by (simp_all add: Z1_def Z2_def the_layout u16_at_def demo_fifos_def set_z1_def u16_put_def to_u16_def to_u8_def)
  have count: "frame_count ?s ?m = Suc 0" unfolding frame_count_def F by (simp add: the_layout)
  have "rx_frames ?s ?m = [[2, 2, 2, 2]]"
    unfolding rx_frames_def count frame_list.simps F z Let_def
    by (simp add: ring_bytes_def ring_pos_def the_layout upt_rec set_z1_def u16_put_def demo_fifos_def)
  moreover have "rx_frames (rx (chans ?c ! D)) ?m = rx_frames ?s ?m"
    unfolding s by (rule rx_frames_zaptel)
  ultimately have fr: "rx_frames (rx (chans ?c ! D)) (fifos ?c) = [[2, 2, 2, 2]]" by simp
  have "ugly_framebuf_size (rx (chans ?c ! D)) = 0" unfolding s by (simp add: the_layout)
  from bad_frame_is_delivered [OF inv this fr] show ?thesis by (auto elim!: wp_mono)
qed

end
