(* ===== verification/Spec2Isabelle.thy ===== *)
theory Spec2Isabelle
  imports Hash Statemachine Csel Configman_Proofs Configman_Cli Gsm_Config Gsmctl_Threads Gsm_Cli_Props Gsm_Load_Props Hfc_Props
begin

text \<open>
  A verification library for the C code of AskoziaPBX, a telephone exchange built from a Linux distribution,
  Asterisk and drivers for telephone lines. The code of its own is the GSM channel driver \<open>chan_gsm\<close> with
  four general modules below it (\<open>compat/\<close>), and the kernel drivers of the line cards. All paths are
  relative to \<open>src/\<close>; \<open>GSM\<close> stands for \<open>package/network/asterisk18/extra_modules/chan_gsm\<close> (the directory for
  Asterisk 1.6 holds the same files) and \<open>HFC\<close> for \<open>package/network/dahdi-linux/overlay/drivers/dahdi/zaphfc\<close>.

  \<^bold>\<open>Parts, and the theories that model them.\<close>

  \<^item> \<open>Prelude\<close>: results of C code (\<open>run\<close>: a value, a fault, or no return), arrays with checked access,
    characters and decimal numbers. \<open>Statements\<close>: statements as functions from a state to a result and the next state
    (\<open>gbind\<close>, \<open>gthen\<close>, \<open>gets\<close>, \<open>modify\<close>), weakest preconditions \<open>wp\<close> that include that the statement returns, and the triples
    with their collection of rules.
  \<^item> \<open>Hash\<close> (\<open>GSM/compat/asterisk/hash.h\<close>, \<open>hash.c\<close>): the macros for hash tables with open slots chained by \<open>_next\<close>, for
    integer and string keys, with the two hash functions on 32 bit words.
  \<^item> \<open>Statemachine\<close> (\<open>GSM/compat/res_statemachine.c\<close>): tables of transitions with handlers, callbacks for sending,
    logging and locking, time stamps.
  \<^item> \<open>Csel\<close> (\<open>GSM/compat/res_csel.c\<close>): the strategies standard, random and round robin for choosing a channel, with the
    locks and the driver's callbacks.
  \<^item> \<open>Configman\<close>, \<open>Configman_Proofs\<close>, \<open>Configman_Cli\<close> (\<open>GSM/compat/res_configman.c\<close>): the configuration manager, on top
    of \<open>Hash\<close>: reading, defaults, keys, lookups, iteration, and its console commands.
  \<^item> \<open>Gsm_Config\<close> (\<open>GSM/chan_gsm.c\<close>, the part with the sections): the driver's configuration, an instance of the manager.
  \<^item> \<open>Gsmctl_Tables\<close>, \<open>Gsm_World\<close>, \<open>Gsmctl\<close>, \<open>Gsmctl_Port\<close> (\<open>GSM/gsmctl.c\<close>, \<open>gsmctl.h\<close>): the library that drives the GSM modules: ports, the
    queue of commands, timers, the exchange of commands and answers, initialisation of a module, start and end of a port with its
    two threads. \<open>gsm_world\<close> is the state: the table of ports, the devices with what they will
    answer, semaphores, queues, threads at a point of their code. The proofs are in \<open>Gsmctl_Proofs\<close>, \<open>Gsmctl_Calls\<close>
    (one caller) and \<open>Gsmctl_Threads\<close> (interleavings).
  \<^item> \<open>Gsm_Driver\<close>, \<open>Gsm_Chan\<close>, \<open>Gsm_Events\<close>, \<open>Gsm_Cli\<close>, \<open>Gsm_Load\<close> (\<open>GSM/chan_gsm.c\<close>): the channel driver itself. \<open>gsm_drv\<close> holds its static
    variables, the world of the library (\<open>lib\<close>), the configuration, the channels and private blocks, and a trace of what Asterisk is
    told and which files are written. \<open>Gsm_Chan\<close> has the channel methods (\<open>gsm_request\<close>, \<open>gsm_call\<close>, \<open>gsm_answer\<close>, \<open>gsm_hangup\<close>,
    \<open>gsm_read\<close>, \<open>gsm_write\<close>, digits, indications), the queue of short messages and the periodic tasks; \<open>Gsm_Events\<close> the
    classification of the lines of a module (\<open>parse_events\<close>) and the handlers of the three phases: initialisation and idle port, before a call, in a
    call, with sending, listing, fetching and deleting of short messages; \<open>Gsm_Cli\<close> the console commands, manager actions and
    dialplan applications; \<open>Gsm_Load\<close> loading, reloading and unloading, on top of \<open>Configman\<close> and \<open>Csel\<close>. \<open>Gsm_Driver_Proofs\<close>, \<open>Gsm_Port_Inv\<close> and
    \<open>Gsm_Port_Proofs\<close> have the invariant of a port and that every operation keeps it, \<open>Gsm_Call_Props\<close>, \<open>Gsm_Sms_Props\<close>, \<open>Gsm_Fetch_Props\<close>,
    \<open>Gsm_Cli_Props\<close> and \<open>Gsm_Load_Props\<close> the properties.
  \<^item> \<open>Hfc_Fifo\<close> (\<open>HFC/fifo.h\<close>, \<open>fifo.c\<close>), \<open>Hfc_Card\<close>, \<open>Hfc_Probe\<close> (\<open>HFC/base.c\<close>, \<open>zaphfc.h\<close>): the driver of the HFC-S PCI card for ISDN. The
    card and the driver share 32 kB of memory with six ring buffers, modelled by the byte; the
    card's registers answer anything; DAHDI is a record of functions with a contract (\<open>dahdi_ok\<close>). \<open>Hfc_Ring\<close> and
    \<open>Hfc_Fifo_Proofs\<close> hold the arithmetic of the rings and the FIFOs, \<open>Hfc_Inv\<close> and \<open>Hfc_Card_Proofs\<close> the invariant of a card and that every
    operation keeps it, \<open>Hfc_Props\<close> the properties.

  The channel driver calls \<open>Csel\<close>, \<open>Statemachine\<close>, \<open>Configman\<close> and \<open>Gsmctl\<close>; \<open>Configman\<close> calls \<open>Hash\<close>; \<open>zaphfc\<close> stands
  beside them and serves Asterisk through DAHDI. The kernel, DAHDI, the configuration reader of Asterisk, its
  log and its console are parameters: arguments of the definitions, or fields of the state that say how calls will turn out.

  \<^bold>\<open>What is shown.\<close> Memory safety and termination are part of every \<open>wp\<close> and every equation with \<open>Ret\<close>: a
  fault or an endless wait is another result. Beyond that:

  \<^item> Interfaces are locales with laws, interpreted on the model: the table interface of \<open>Hash\<close> (a map with insertion once), the
    strategies of \<open>Csel\<close>, the queue of bytes (\<open>byte_queue\<close>, by the FIFO operations), and the states of a port that
    most operations of the channel driver leave alone (\<open>port_state\<close>, \<open>call_state\<close>: no call, a call being set up, a call, a call
    being ended, a free port).
  \<^item> Refinements: integer tables are maps, the state machine is a Mealy machine, \<open>send_expect\<close> is an exchange with a
    line-based device, a B channel is a queue of bytes, the receiving D channel is a queue of frames, a call is
    an automaton over the classified lines of the module whose indications are exactly those Asterisk receives.
  \<^item> Invariants and safety over all sequences of calls: loaded configurations, the table of ports, the order of commands and the
    permissions in every interleaving of the threads, the HFC card with interrupts anywhere between calls, a GSM port under lines of
    the module, requests, channel methods, periodic tasks and short message commands in any order (\<open>line_shape\<close> names the lines left
    out: texts that do not fit the driver's buffers, and the answer that restarts the module), and under console commands.
  \<^item> Functional behaviour: channel selection, values and ids of the configuration, lists of channels, gains, error texts, the enabled
    FIFOs, the dialogues that send a short message and that fetch the stored ones, the groups of ports that loading
    makes; errors: the outcomes of initialisation and of probing.
  \<^item> Faults of the code, each proved of the model as it is: lost keys and a cycle in the hash table, completion
    beyond a buffer, a double free, a double permission, a full FIFO that is not noticed, a deadlock with the interrupt handler,
    corrupt frames that are delivered.

  \<^bold>\<open>Bounds and fuel.\<close> Loops are structural or have a measure. Where the code may loop for ever, fuel stands for the steps and
  running out of it is \<open>Hang\<close>: the lookup of \<open>Hash\<close> (a table of \<open>n\<close> slots needs \<open>n + 1\<close>, and only a cycle needs more), the
  search of round robin (the number of channels), \<open>for_ids\<close> (the number of configured ports and one), \<open>join_fuel\<close> (4 steps end a thread that was told to end),
  \<open>put_depth\<close> (2: \<open>hfc_fifo_put\<close> calls \<open>hfc_clear_fifo_tx\<close>, which calls it again on an empty FIFO, which has room); each is proved enough. Words have
  their widths where the code depends on them; \<open>int\<close> is used where the range is shown.

  \<^bold>\<open>Not modelled.\<close> Of \<open>chan_gsm.c\<close> the thread of its scheduler and the mutex around loading; each of its operations runs without interruption by another thread, and Asterisk's and the system's answers are an
  arbitrary sequence. The other
  line card drivers, which are sequences of register accesses with constants of their vendors, a signal processor's firmware
  and third-party interface among them. Vendored code (Lua, dialogs, the echo canceller), the C++ utilities, the web interface
  and the build scripts. Within the modelled files: log messages, \<open>/proc\<close> entries, registration of modules, delays.
\<close>

end
